(* ===== verification/Xrm_Prelude.thy ===== *)
theory Xrm_Prelude
  imports Main "HOL-Library.Word" "HOL-Library.Signed_Division"
begin

text \<open>
  The prelude of the XRM development: the machine integers and C idioms every component of the
  daemon uses (32-bit signed arithmetic, bounded C strings, first-match scans over an array, the
  "move every later slot one step forward" loop, loops that stop at the first success), with the
  generic lemmas the component proofs share.
\<close>

section \<open>Machine integers\<close>

type_synonym u64 = "64 word"
type_synonym u32 = "32 word"
type_synonym u8 = "8 word"

text \<open>
  An \<open>int32_t\<close> value is an \<open>int\<close>; every place where the code computes in \<open>int32_t\<close> and the operands
  are not bounded by a check is wrapped by \<open>i32\<close>, the two's complement reduction the compiled
  code performs.
\<close>

definition i32 :: "int \<Rightarrow> int" where
  "i32 x = (x + 2147483648) mod 4294967296 - 2147483648"

lemma i32_id [simp]: "- 2147483648 \<le> x \<Longrightarrow> x \<le> 2147483647 \<Longrightarrow> i32 x = x"
  by (simp add: i32_def)

lemma i32_range: "- 2147483648 \<le> i32 x \<and> i32 x \<le> 2147483647"
proof -
  have "0 \<le> (x + 2147483648) mod 4294967296" "(x + 2147483648) mod 4294967296 < 4294967296"
    by simp_all
  then show ?thesis by (simp add: i32_def)
qed

section \<open>C strings\<close>

text \<open>
  A \<open>char\<close> array is the C string it holds. \<open>strncpy(des, src, n)\<close> copies at most \<open>n\<close> characters of the
  source up to its terminator; the code always copies \<open>XRM_MAX_NAME_LEN - 1\<close> of them into a
  zeroed (or explicitly terminated) buffer of \<open>XRM_MAX_NAME_LEN\<close>.
\<close>

definition c_str :: "string \<Rightarrow> string" where
  "c_str s = takeWhile (\<lambda>c. c \<noteq> CHR 0x00) s"

definition strncpy :: "nat \<Rightarrow> string \<Rightarrow> string" where
  "strncpy n s = take n (c_str s)"

lemma strncpy_length: "length (strncpy n s) \<le> n"
  by (simp add: strncpy_def)

lemma strncpy_Nil [simp]: "strncpy n [] = []"
  by (simp add: strncpy_def c_str_def)

lemma c_str_no_nul: "CHR 0x00 \<notin> set s \<Longrightarrow> c_str s = s"
  by (simp add: c_str_def takeWhile_eq_all_conv) (metis)

lemma strncpy_id: "CHR 0x00 \<notin> set s \<Longrightarrow> length s \<le> n \<Longrightarrow> strncpy n s = s"
  by (simp add: strncpy_def c_str_no_nul)

lemma strncpy_idem [simp]: "strncpy n (strncpy n s) = strncpy n s"
proof -
  have "CHR 0x00 \<notin> set (take n (c_str s))"
    unfolding c_str_def by (auto dest!: in_set_takeD set_takeWhileD)
  then show ?thesis by (simp add: strncpy_def c_str_no_nul)
qed

section \<open>Scans over arrays\<close>

text \<open>
  \<open>for (i = 0; i < n; i++) if (P(i)) return i;\<close> is the first index below \<open>n\<close> that satisfies \<open>P\<close>.
\<close>

definition first_index :: "nat \<Rightarrow> (nat \<Rightarrow> bool) \<Rightarrow> nat option" where
  "first_index n P = find P [0..<n]"

lemma first_index_SomeD:
  assumes "first_index n P = Some i"
  shows "i < n \<and> P i \<and> (\<forall>j<i. \<not> P j)"
proof -
  obtain k where k: "k < length [0..<n]" "P ([0..<n] ! k)" "i = [0..<n] ! k"
      "\<forall>j<k. \<not> P ([0..<n] ! j)"
    using assms unfolding first_index_def find_Some_iff by blast
  then have "i = k" "k < n" by auto
  with k show ?thesis by auto
qed

lemma first_index_None [simp]: "first_index n P = None \<longleftrightarrow> (\<forall>i<n. \<not> P i)"
  by (auto simp: first_index_def find_None_iff)

lemma first_index_Some_iff:
  "first_index n P = Some i \<longleftrightarrow> i < n \<and> P i \<and> (\<forall>j<i. \<not> P j)"
proof
  assume "i < n \<and> P i \<and> (\<forall>j<i. \<not> P j)"
  then show "first_index n P = Some i"
    by (auto simp: first_index_def find_Some_iff intro!: exI[of _ i])
qed (rule first_index_SomeD)

lemma first_indexI: "i < n \<Longrightarrow> P i \<Longrightarrow> (\<And>j. j < i \<Longrightarrow> \<not> P j) \<Longrightarrow> first_index n P = Some i"
  by (simp add: first_index_Some_iff)

section \<open>Removing a slot of an array\<close>

text \<open>
  \<open>for (; i < n - 1; i++) xs[i] = xs[i + 1];\<close> and then the last used slot is emptied: the way the
  daemon removes a client, a reservation, a group or a plugin from its array without leaving a hole.
\<close>

function shift_loop :: "nat \<Rightarrow> nat \<Rightarrow> 'a list \<Rightarrow> nat \<times> 'a list" where
  "shift_loop i n xs = (if i + 1 < n then shift_loop (i + 1) n (xs[i := xs ! (i + 1)]) else (i, xs))"
  by pat_completeness auto
termination
  by (relation "measure (\<lambda>(i, n, xs). n - i)") auto

declare shift_loop.simps [simp del]

definition remove_slot :: "nat \<Rightarrow> nat \<Rightarrow> 'a \<Rightarrow> 'a list \<Rightarrow> 'a list" where
  "remove_slot i n z xs = (case shift_loop i n xs of (j, ys) \<Rightarrow> ys[j := z])"

lemma shift_loop_eq:
  "i < n \<Longrightarrow> n \<le> length xs \<Longrightarrow>
   shift_loop i n xs = (n - 1, take i xs @ drop (Suc i) (take n xs) @ drop (n - 1) xs)"
proof (induction i n xs rule: shift_loop.induct)
  case (1 i n xs)
  show ?case
  proof (cases "i + 1 < n")
    case False
    with "1.prems" have "n = Suc i" by simp
    with "1.prems" show ?thesis by (simp add: shift_loop.simps)
  next
    case True
    let ?ys = "xs[i := xs ! (i + 1)]"
    have "shift_loop i n xs = shift_loop (i + 1) n ?ys"
      using True by (simp add: shift_loop.simps [of i n xs])
    also have "\<dots> = (n - 1, take (i + 1) ?ys @ drop (Suc (i + 1)) (take n ?ys) @ drop (n - 1) ?ys)"
      using "1.IH" True "1.prems" by simp
    also have "take (i + 1) ?ys = take i xs @ [xs ! (i + 1)]"
      using "1.prems" by (simp add: take_Suc_conv_app_nth)
    also have "drop (Suc (i + 1)) (take n ?ys) = drop (Suc (Suc i)) (take n xs)"
      by (simp add: take_update_swap drop_update_cancel)
    also have "drop (n - 1) ?ys = drop (n - 1) xs"
      using True by (simp add: drop_update_cancel)
    finally show ?thesis
      using True "1.prems" by (simp add: Cons_nth_drop_Suc [symmetric])
  qed
qed

lemma remove_slot_eq:
  assumes "i < n" "n \<le> length xs"
  shows "remove_slot i n z xs = take i xs @ drop (Suc i) (take n xs) @ z # drop n xs"
proof -
  from assms have d: "drop (n - 1) xs = xs ! (n - 1) # drop n xs"
    by (metis Cons_nth_drop_Suc Suc_diff_1 Suc_le_lessD not_gr_zero not_less_zero Suc_le_eq)
  let ?l = "take i xs @ drop (Suc i) (take n xs)"
  have "(?l @ xs ! (n - 1) # drop n xs)[length ?l := z] = ?l @ z # drop n xs"
    by (rule list_update_length)
  moreover have "length ?l = n - 1"
    using assms by simp
  ultimately show ?thesis
    using assms by (simp add: remove_slot_def shift_loop_eq d [simplified])
qed

lemma remove_slot_length [simp]:
  "i < n \<Longrightarrow> n \<le> length xs \<Longrightarrow> length (remove_slot i n z xs) = length xs"
  by (simp add: remove_slot_eq)

lemma take_remove_slot:
  "i < n \<Longrightarrow> n \<le> length xs \<Longrightarrow>
   take (n - 1) (remove_slot i n z xs) = take i (take n xs) @ drop (Suc i) (take n xs)"
proof -
  assume a: "i < n" "n \<le> length xs"
  then have "length (take i xs @ drop (Suc i) (take n xs)) = n - 1" by simp
  moreover have "remove_slot i n z xs = (take i xs @ drop (Suc i) (take n xs)) @ z # drop n xs"
    using a by (simp add: remove_slot_eq)
  ultimately have "take (n - 1) (remove_slot i n z xs) = take i xs @ drop (Suc i) (take n xs)"
    by (metis append_eq_conv_conj)
  then show ?thesis using a by (simp add: min_def)
qed

lemma drop_remove_slot:
  "i < n \<Longrightarrow> n \<le> length xs \<Longrightarrow> drop (n - 1) (remove_slot i n z xs) = z # drop n xs"
  by (simp add: remove_slot_eq)

lemma remove_slot_rest:
  assumes "i < n" "n \<le> L" "length xs = L" "drop n xs = replicate (L - n) z"
  shows "drop (n - 1) (remove_slot i n z xs) = replicate (L - (n - 1)) z"
proof -
  have "L - (n - 1) = Suc (L - n)" using assms(1,2) by arith
  then show ?thesis using assms by (simp only: drop_remove_slot replicate_Suc)
qed

lemma remove_slot_front:
  assumes "i < n" "n \<le> length xs"
  shows "take (n - 1) (remove_slot i n z xs) = take i (take n xs) @ drop (Suc i) (take n xs)"
    "i < length (take n xs)" "take n xs ! i = xs ! i"
  using take_remove_slot [OF assms, of z] assms by simp_all

lemma set_take_drop_remove:
  assumes "distinct xs" "i < length xs"
  shows "set (take i xs @ drop (Suc i) xs) = set xs - {xs ! i}"
proof -
  have "xs = take i xs @ xs ! i # drop (Suc i) xs"
    using assms(2) by (rule id_take_nth_drop)
  then have "distinct (take i xs @ xs ! i # drop (Suc i) xs)"
    and s: "set xs = insert (xs ! i) (set (take i xs @ drop (Suc i) xs))"
    using assms(1) by (metis, metis Un_insert_right list.simps(15) set_append)
  then have "xs ! i \<notin> set (take i xs @ drop (Suc i) xs)" by auto
  with s show ?thesis by auto
qed

lemma distinct_take_drop_remove:
  assumes "distinct xs" "i < length xs"
  shows "distinct (take i xs @ drop (Suc i) xs)"
proof -
  have "xs = take i xs @ xs ! i # drop (Suc i) xs"
    using assms(2) by (rule id_take_nth_drop)
  then have "distinct (take i xs @ xs ! i # drop (Suc i) xs)"
    using assms(1) by metis
  then show ?thesis by auto
qed

section \<open>Loops that stop at the first success\<close>

text \<open>
  \<open>for (i \<in> is; !acquired; ) { ... continue; ... acquired = true; }\<close>: the body returns whether it
  acquired and the new state; the loop runs it for the indices in order until it does.
\<close>

fun until_acquired :: "('i \<Rightarrow> 'a \<Rightarrow> bool \<times> 'a) \<Rightarrow> 'i list \<Rightarrow> 'a \<Rightarrow> bool \<times> 'a" where
  "until_acquired body [] a = (False, a)"
| "until_acquired body (i # is) a =
     (case body i a of (b, a') \<Rightarrow> if b then (True, a') else until_acquired body is a')"

lemma until_acquired_inv:
  assumes "P a" and "\<And>i a b a'. i \<in> set is \<Longrightarrow> P a \<Longrightarrow> body i a = (b, a') \<Longrightarrow> P a'"
    and "until_acquired body is a = (b, a')"
  shows "P a'"
  using assms
proof (induction "is" arbitrary: a)
  case (Cons i "is")
  obtain b1 a1 where b1: "body i a = (b1, a1)" by fastforce
  have P1: "P a1" by (rule Cons.prems(2) [OF _ Cons.prems(1) b1]) simp
  show ?case
  proof (cases b1)
    case True
    with b1 P1 Cons.prems(3) show ?thesis by simp
  next
    case False
    with b1 Cons.prems(3) have "until_acquired body is a1 = (b, a')" by simp
    from P1 _ this show ?thesis by (rule Cons.IH) (rule Cons.prems(2), auto)
  qed
qed simp

text \<open>
  The stronger rule: an invariant \<open>P\<close> of the states reached while nothing is acquired, and a relation
  \<open>Q\<close> that the acquiring iteration establishes.
\<close>

lemma until_acquired_rule:
  assumes "P a"
    and "\<And>i a a'. i \<in> set is \<Longrightarrow> P a \<Longrightarrow> body i a = (False, a') \<Longrightarrow> P a'"
    and "\<And>i a a'. i \<in> set is \<Longrightarrow> P a \<Longrightarrow> body i a = (True, a') \<Longrightarrow> Q i a'"
    and "until_acquired body is a = (b, a')"
  shows "if b then \<exists>i\<in>set is. Q i a' else P a'"
  using assms
proof (induction "is" arbitrary: a)
  case Nil
  then show ?case by auto
next
  case (Cons i "is")
  obtain b1 a1 where b1: "body i a = (b1, a1)" by fastforce
  show ?case
  proof (cases b1)
    case True
    with Cons.prems b1 show ?thesis by auto
  next
    case False
    with b1 have b1F: "body i a = (False, a1)" by simp
    have P1: "P a1" by (rule Cons.prems(2) [OF _ Cons.prems(1) b1F]) simp
    have "until_acquired body is a1 = (b, a')"
      using Cons.prems(4) b1F by simp
    from P1 _ _ this have "if b then \<exists>i\<in>set is. Q i a' else P a'"
      by (rule Cons.IH) (rule Cons.prems(2) Cons.prems(3), auto)+
    then show ?thesis by (auto split: if_splits)
  qed
qed

text \<open>
  A body whose success is decided by \<open>can\<close>, which keeps \<open>R\<close> while it fails: the loop is a first-fit
  search.
\<close>

lemma first_fit:
  assumes "R a"
    and "\<And>i x b1 a1. i \<in> set is \<Longrightarrow> R x \<Longrightarrow> body i x = (b1, a1) \<Longrightarrow>
      (b1 \<longleftrightarrow> can i) \<and> (if b1 then Q i a1 else R a1)"
    and "until_acquired body is a = (b, a')"
  shows "if b then \<exists>pre i post. is = pre @ i # post \<and> Q i a' \<and> can i \<and> (\<forall>j\<in>set pre. \<not> can j)
         else R a' \<and> (\<forall>i\<in>set is. \<not> can i)"
  using assms
proof (induction "is" arbitrary: a)
  case (Cons i "is")
  obtain b1 a1 where b1: "body i a = (b1, a1)" by fastforce
  have hd: "(b1 \<longleftrightarrow> can i) \<and> (if b1 then Q i a1 else R a1)"
    by (rule Cons.prems(2) [OF _ Cons.prems(1) b1]) simp
  show ?case
  proof (cases b1)
    case True
    with b1 Cons.prems(3) hd have "b \<and> Q i a' \<and> can i" by simp
    then show ?thesis by (auto intro: exI[of _ "[]"])
  next
    case False
    with b1 Cons.prems(3) have run: "until_acquired body is a1 = (b, a')" by simp
    have IH: "if b then \<exists>pre i post. is = pre @ i # post \<and> Q i a' \<and> can i \<and> (\<forall>j\<in>set pre. \<not> can j)
         else R a' \<and> (\<forall>i\<in>set is. \<not> can i)"
      by (rule Cons.IH [OF _ _ run]) (use hd False in simp, rule Cons.prems(2), auto)
    show ?thesis
    proof (cases b)
      case True
      with IH obtain pre k post where "is = pre @ k # post" "Q k a'" "can k"
          "\<forall>j\<in>set pre. \<not> can j" by auto
      then have "i # is = (i # pre) @ k # post \<and> Q k a' \<and> can k \<and> (\<forall>j\<in>set (i # pre). \<not> can j)"
        using hd False by simp
      with True show ?thesis by (simp only: if_True) blast
    next
      case False
      with IH hd \<open>\<not> b1\<close> show ?thesis by simp
    qed
  qed
qed simp

lemma upt_split:
  assumes "[0..<n] = pre @ c # post"
  shows "pre = [0..<c]"
proof -
  have n: "length pre < n" using arg_cong [OF assms, of length] by simp
  then have "c = length pre" using arg_cong [OF assms, of "\<lambda>xs. xs ! length pre"] by simp
  moreover have "pre = take (length pre) [0..<n]" using assms by simp
  ultimately show ?thesis using n by (simp add: take_upt)
qed

lemma fold_invariant':
  "P s \<Longrightarrow> (\<And>x s. x \<in> set xs \<Longrightarrow> P s \<Longrightarrow> P (f x s)) \<Longrightarrow> P (fold f xs s)"
  by (induction xs arbitrary: s) auto

section \<open>Sums over arrays\<close>

lemma sum_list_map_update:
  fixes f :: "'a \<Rightarrow> int"
  shows "i < length xs \<Longrightarrow> sum_list (map f (xs[i := x])) = sum_list (map f xs) - f (xs ! i) + f x"
proof (induction xs arbitrary: i)
  case (Cons y ys)
  then show ?case by (cases i) auto
qed simp

lemma filter_length_update:
  assumes "i < length xs"
  shows "int (length (filter P (xs[i := x]))) =
   int (length (filter P xs)) - (if P (xs ! i) then 1 else 0) + (if P x then 1 else 0)"
proof -
  have eq: "int (length (filter P ys)) = sum_list (map (\<lambda>y. if P y then 1 else 0) ys)" for ys
    by (induction ys) auto
  show ?thesis unfolding eq using assms by (rule sum_list_map_update)
qed

lemma sum_list_nonneg_member:
  fixes f :: "'a \<Rightarrow> int"
  assumes "x \<in> set xs" "\<And>y. y \<in> set xs \<Longrightarrow> 0 \<le> f y"
  shows "f x \<le> sum_list (map f xs)"
  using assms
proof (induction xs)
  case (Cons y ys)
  have nn: "0 \<le> sum_list (map f ys)" "0 \<le> f y"
    using Cons.prems(2) by (auto intro!: sum_list_nonneg)
  show ?case
  proof (cases "x = y")
    case True
    with nn show ?thesis by simp
  next
    case False
    with Cons have "f x \<le> sum_list (map f ys)" by auto
    with nn show ?thesis by simp
  qed
qed simp

lemma sum_list_map_remove:
  fixes f :: "'a \<Rightarrow> int"
  assumes "i < length xs"
  shows "sum_list (map f (take i xs @ drop (Suc i) xs)) = sum_list (map f xs) - f (xs ! i)"
proof -
  have "sum_list (map f xs) = sum_list (map f (take i xs @ xs ! i # drop (Suc i) xs))"
    using assms by (simp add: id_take_nth_drop [symmetric])
  then show ?thesis by simp
qed

lemma sum_list_map_replicate: "sum_list (map f (replicate n x)) = int n * (f x :: int)"
  by (induction n) (auto simp: algebra_simps)

lemma take_Suc_update:
  "n < length xs \<Longrightarrow> take (Suc n) (xs[n := x]) = take n xs @ [x]"
  by (simp add: take_Suc_conv_app_nth)

lemma image_set_take:
  "n \<le> length xs \<Longrightarrow> f ` set (take n xs) = (\<lambda>i. f (xs ! i)) ` {..<n}"
  by (simp add: nth_image [symmetric] image_image lessThan_atLeast0)

end
