(* ===== verification/Xrm_Data.thy ===== *)
theory Xrm_Data
  imports Xrm_Prelude
begin

text \<open>
  The data model of the daemon: the limits of \<open>src/lib/xrm_limits.h\<close>, the result codes of
  \<open>src/lib/xrm_error.h\<close> and the structures of \<open>src/daemon/xrm_system.hpp\<close>, each as a record with
  the fields of the C++ structure (prefixed by the structure, because several structures share
  field names; the unused \<open>extData\<close> padding is left out). A fixed-size array is a list whose
  length is the array's size. \<open>NULL\<close> arguments are excluded by the types: a pointer argument of an
  operation is the structure itself.

  The record \<open>system\<close> has one field the C++ class does not have: \<open>m_fault\<close> is set when the code
  divides by zero or leaves the bounds of one of its arrays, and is never cleared.
\<close>

section \<open>Limits and result codes\<close>

definition XRM_MAX_XILINX_DEVICES :: nat where "XRM_MAX_XILINX_DEVICES = 16"
definition XRM_MAX_XILINX_KERNELS :: nat where "XRM_MAX_XILINX_KERNELS = 144"
definition XRM_MAX_KERNEL_CHANNELS :: nat where "XRM_MAX_KERNEL_CHANNELS = 1000"
definition XRM_MAX_KERNEL_RESERVES :: nat where "XRM_MAX_KERNEL_RESERVES = 1000"
definition XRM_MAX_DEV_CLIENTS :: nat where "XRM_MAX_DEV_CLIENTS = XRM_MAX_XILINX_KERNELS * 8"
definition XRM_MAX_NAME_LEN :: nat where "XRM_MAX_NAME_LEN = 256"
definition XRM_MAX_LIST_CU_NUM :: nat where "XRM_MAX_LIST_CU_NUM = 16"
definition XRM_MAX_LIST_CU_NUM_V2 :: nat where "XRM_MAX_LIST_CU_NUM_V2 = 64"
definition XRM_MAX_GROUP_CU_NUM :: nat where "XRM_MAX_GROUP_CU_NUM = 16"
definition XRM_MAX_GROUP_CU_NUM_V2 :: nat where "XRM_MAX_GROUP_CU_NUM_V2 = 64"
definition XRM_MAX_POOL_CU_NUM :: nat where "XRM_MAX_POOL_CU_NUM = 128"
definition XRM_MAX_POOL_CU_NUM_V2 :: nat where "XRM_MAX_POOL_CU_NUM_V2 = 128"
definition XRM_MAX_UDF_CU_GROUP_NUM :: nat where "XRM_MAX_UDF_CU_GROUP_NUM = 32"
definition XRM_MAX_UDF_CU_GROUP_NUM_V2 :: nat where "XRM_MAX_UDF_CU_GROUP_NUM_V2 = 64"
definition XRM_MAX_UDF_CU_GROUP_OPTION_LIST_NUM :: nat where "XRM_MAX_UDF_CU_GROUP_OPTION_LIST_NUM = 8"
definition XRM_MAX_PLUGIN_NUM :: nat where "XRM_MAX_PLUGIN_NUM = 32"
definition XRM_MAX_PLUGIN_FUNC_ID :: nat where "XRM_MAX_PLUGIN_FUNC_ID = 7"
definition XRM_MAX_DDR_MAP :: nat where "XRM_MAX_DDR_MAP = 64"
definition XRM_MAX_CONNECTION_ENTRIES :: nat where
  "XRM_MAX_CONNECTION_ENTRIES = XRM_MAX_DDR_MAP * XRM_MAX_XILINX_KERNELS"

abbreviation (input) XRM_MAX_LOAD :: int where
  "XRM_MAX_LOAD \<equiv> 1000000" \<comment> \<open>both \<open>XRM_MAX_CHAN_LOAD_GRANULARITY_1000000\<close> and \<open>XRM_MAX_CU_LOAD_GRANULARITY_1000000\<close>\<close>

abbreviation (input) XRM_SUCCESS :: int where "XRM_SUCCESS \<equiv> 0"
abbreviation (input) XRM_ERROR :: int where "XRM_ERROR \<equiv> - 1"
abbreviation (input) XRM_ERROR_INVALID :: int where "XRM_ERROR_INVALID \<equiv> - 2"
abbreviation (input) XRM_ERROR_NO_DEV :: int where "XRM_ERROR_NO_DEV \<equiv> - 3"
abbreviation (input) XRM_ERROR_NO_KERNEL :: int where "XRM_ERROR_NO_KERNEL \<equiv> - 4"
abbreviation (input) XRM_ERROR_NO_CHAN :: int where "XRM_ERROR_NO_CHAN \<equiv> - 5"
abbreviation (input) XRM_ERROR_DEVICE_IS_BUSY :: int where "XRM_ERROR_DEVICE_IS_BUSY \<equiv> - 32"
abbreviation (input) XRM_ERROR_DEVICE_IS_LOCKED :: int where "XRM_ERROR_DEVICE_IS_LOCKED \<equiv> - 33"
abbreviation (input) XRM_FURTHER_CHECK :: int where "XRM_FURTHER_CHECK \<equiv> - 1"

lemmas limit_pos =
  XRM_MAX_XILINX_DEVICES_def XRM_MAX_XILINX_KERNELS_def XRM_MAX_KERNEL_CHANNELS_def
  XRM_MAX_KERNEL_RESERVES_def XRM_MAX_DEV_CLIENTS_def

section \<open>Compute units\<close>

record channelData =
  ch_channelId :: int
  ch_allocServiceId :: u64
  ch_poolId :: u64
  ch_clientId :: u64
  ch_clientProcessId :: int
  ch_loadUnified :: int
  ch_loadOriginal :: int

record reserveData =
  rs_poolId :: u64
  rs_loadUnified :: int
  rs_usedLoadUnified :: int
  rs_clientIsActive :: bool
  rs_clientId :: u64
  rs_clientProcessId :: int

datatype xrmCuType = XRM_CU_NULL | XRM_CU_IPKERNEL | XRM_CU_SOFTKERNEL | XRM_CU_IPPSKERNEL

record cuData =
  cu_cuId :: int
  cu_ipLayoutIndex :: int
  cu_cuType :: xrmCuType
  cu_kernelName :: string
  cu_kernelAlias :: string
  cu_cuName :: string
  cu_instanceName :: string
  cu_kernelPluginFileName :: string
  cu_maxCapacity :: u64
  cu_baseAddr :: u64
  cu_membankId :: u32
  cu_membankType :: u32
  cu_membankSize :: u64
  cu_membankBaseAddr :: u64
  cu_channels :: "channelData list"
  cu_numChanInuse :: int
  cu_clients :: "u64 list"
  cu_numClient :: int
  cu_reserves :: "reserveData list"
  cu_numReserve :: int
  cu_totalUsedLoadUnified :: int
  cu_totalReservedLoadUnified :: int
  cu_totalReservedUsedLoadUnified :: int
  cu_deviceId :: int

text \<open>The all-zero values \<open>memset\<close> leaves.\<close>

definition channel0 :: channelData where
  "channel0 = \<lparr> ch_channelId = 0, ch_allocServiceId = 0, ch_poolId = 0, ch_clientId = 0,
     ch_clientProcessId = 0, ch_loadUnified = 0, ch_loadOriginal = 0 \<rparr>"

definition reserve0 :: reserveData where
  "reserve0 = \<lparr> rs_poolId = 0, rs_loadUnified = 0, rs_usedLoadUnified = 0,
     rs_clientIsActive = False, rs_clientId = 0, rs_clientProcessId = 0 \<rparr>"

section \<open>Devices\<close>

record memTopologyData =
  mt_memType :: u8
  mt_memUsed :: u8
  mt_memSize :: u64
  mt_memBaseAddress :: u64
  mt_memTag :: "u8 list"

record connectData =
  cn_argIndex :: int
  cn_ipLayoutIndex :: int
  cn_memDataIndex :: int

record xclbinInformation =
  xb_uuid :: "u8 list"
  xb_uuidStr :: string
  xb_numCu :: int
  xb_numHardwareCu :: int
  xb_numIPPSCu :: int
  xb_numSoftwareCu :: int
  xb_cuList :: "cuData list"
  xb_numMemBank :: int
  xb_numConnect :: int
  xb_memTopologyList :: "memTopologyData list"
  xb_connectList :: "connectData list"

record clientData =
  cl_clientId :: u64
  cl_clientProcessId :: int
  cl_ref :: int

definition client0 :: clientData where
  "client0 = \<lparr> cl_clientId = 0, cl_clientProcessId = 0, cl_ref = 0 \<rparr>"

record deviceLoadInfo =
  li_devLoadRate :: int
  li_deviceId :: int
  li_devCurrentLoad :: int

text \<open>\<open>xclDeviceInfo2\<close> is a structure of XRT; the code uses two of its fields.\<close>

record xclDeviceInfo2 =
  di_mName :: string
  di_mPciSlot :: u32

text \<open>\<open>memBuffer\<close> is null, an allocated block, or a pointer to a block that was freed.\<close>

datatype buffer = NoBuffer | Buffer "u8 list" | Freed

record deviceData =
  dv_dsaName :: string
  dv_xclbinName :: string
  dv_devId :: int
  dv_isDisabled :: bool
  dv_isLoaded :: bool
  dv_isExcl :: bool
  dv_memBuffer :: buffer
  dv_deviceHandle :: u64
  dv_deviceInfo :: xclDeviceInfo2
  dv_xclbinInfo :: xclbinInformation
  dv_clientProcs :: "clientData list"
  dv_devLoadInfo :: deviceLoadInfo

section \<open>Requests and results\<close>

record cuProperty =
  pr_kernelName :: string
  pr_kernelAlias :: string
  pr_cuName :: string
  pr_devExcl :: bool
  pr_requestLoadUnified :: int
  pr_requestLoadOriginal :: int
  pr_clientId :: u64
  pr_clientProcessId :: int
  pr_poolId :: u64

definition cuProperty0 :: cuProperty where
  "cuProperty0 = \<lparr> pr_kernelName = [], pr_kernelAlias = [], pr_cuName = [], pr_devExcl = False,
     pr_requestLoadUnified = 0, pr_requestLoadOriginal = 0, pr_clientId = 0,
     pr_clientProcessId = 0, pr_poolId = 0 \<rparr>"

record cuPropertyV2 = cuProperty +
  p2_deviceInfo :: u64
  p2_memoryInfo :: u64
  p2_policyInfo :: u64

definition cuPropertyV2_0 :: cuPropertyV2 where
  "cuPropertyV2_0 = \<lparr> pr_kernelName = [], pr_kernelAlias = [], pr_cuName = [], pr_devExcl = False,
     pr_requestLoadUnified = 0, pr_requestLoadOriginal = 0, pr_clientId = 0,
     pr_clientProcessId = 0, pr_poolId = 0,
     p2_deviceInfo = 0, p2_memoryInfo = 0, p2_policyInfo = 0 \<rparr>"

record cuListProperty =
  lp_cuProps :: "cuProperty list"
  lp_cuNum :: int
  lp_sameDevice :: bool

record cuListPropertyV2 =
  l2_cuProps :: "cuPropertyV2 list"
  l2_cuNum :: int

record cuResource =
  re_xclbinFileName :: string
  re_kernelPluginFileName :: string
  re_kernelName :: string
  re_kernelAlias :: string
  re_instanceName :: string
  re_cuName :: string
  re_uuidStr :: string
  re_deviceId :: int
  re_cuId :: int
  re_channelId :: int
  re_cuType :: xrmCuType
  re_baseAddr :: u64
  re_membankId :: u32
  re_membankType :: u32
  re_membankSize :: u64
  re_membankBaseAddr :: u64
  re_allocServiceId :: u64
  re_clientId :: u64
  re_channelLoadUnified :: int
  re_channelLoadOriginal :: int
  re_poolId :: u64

definition cuResource0 :: cuResource where
  "cuResource0 = \<lparr> re_xclbinFileName = [], re_kernelPluginFileName = [], re_kernelName = [],
     re_kernelAlias = [], re_instanceName = [], re_cuName = [], re_uuidStr = [],
     re_deviceId = 0, re_cuId = 0, re_channelId = 0, re_cuType = XRM_CU_NULL, re_baseAddr = 0,
     re_membankId = 0, re_membankType = 0, re_membankSize = 0, re_membankBaseAddr = 0,
     re_allocServiceId = 0, re_clientId = 0, re_channelLoadUnified = 0,
     re_channelLoadOriginal = 0, re_poolId = 0 \<rparr>"

text \<open>
  \<open>cuListResource\<close>, \<open>cuGroupResource\<close>, \<open>cuPoolResource\<close> and their V2 and sub-list variants are the
  same structure (an array of \<open>cuResource\<close> and a counter) with different array sizes; the code
  itself casts one to the other.
\<close>

record cuListResource =
  lr_cuResources :: "cuResource list"
  lr_cuNum :: int

definition cuListResource0 :: "nat \<Rightarrow> cuListResource" where
  "cuListResource0 n = \<lparr> lr_cuResources = replicate n cuResource0, lr_cuNum = 0 \<rparr>"

section \<open>Groups, plugins and the system\<close>

record udfCuGroupInformation =
  ug_udfCuGroupName :: string
  ug_optionUdfCuListProps :: "cuListProperty list"
  ug_optionUdfCuListNum :: int

record udfCuGroupInformationV2 =
  u2_udfCuGroupName :: string
  u2_optionUdfCuListProps :: "cuListPropertyV2 list"
  u2_optionUdfCuListNum :: int

text \<open>
  A plugin's shared object is not part of the repository: what the daemon keeps of it is the
  table of entry points, each absent (\<open>NULL\<close>) or a function of the parameter block.
\<close>

record xrmPluginFuncParam =
  pf_input :: string
  pf_output :: string

record xrmPluginData =
  pg_pluginVersion :: "int option"
  pg_apiVersion :: "int option"
  pg_pluginFunc :: "(xrmPluginFuncParam \<Rightarrow> int \<times> xrmPluginFuncParam) option list"

record pluginInformation =
  pl_xrmPluginName :: string
  pl_xrmPluginFileName :: string
  pl_pluginData :: xrmPluginData

record system =
  m_devList :: "deviceData list"
  m_logLevel :: u32
  m_clientId :: u64
  m_numConcurrentClient :: u32
  m_limitConcurrentClient :: u32
  m_numDevice :: int
  m_xrmPluginList :: "pluginInformation list"
  m_numXrmPlugin :: nat
  m_udfCuGroups :: "udfCuGroupInformation list"
  m_numUdfCuGroup :: nat
  m_udfCuGroupsV2 :: "udfCuGroupInformationV2 list"
  m_numUdfCuGroupV2 :: nat
  m_allocServiceId :: u64
  m_reservePoolId :: u64
  m_devicesInited :: bool
  m_fault :: bool

section \<open>Access to the device list\<close>

text \<open>\<open>&m_devList[d]\<close> and \<open>&m_devList[d].xclbinInfo.cuList[c]\<close> as values, and updates through them.\<close>

definition dev_at :: "system \<Rightarrow> nat \<Rightarrow> deviceData" where
  "dev_at s d = m_devList s ! d"

definition numCu :: "deviceData \<Rightarrow> int" where
  "numCu dev = xb_numCu (dv_xclbinInfo dev)"

definition cuList :: "deviceData \<Rightarrow> cuData list" where
  "cuList dev = xb_cuList (dv_xclbinInfo dev)"

definition cu_at :: "system \<Rightarrow> nat \<Rightarrow> nat \<Rightarrow> cuData" where
  "cu_at s d c = cuList (dev_at s d) ! c"

definition upd_dev :: "nat \<Rightarrow> (deviceData \<Rightarrow> deviceData) \<Rightarrow> system \<Rightarrow> system" where
  "upd_dev d f s = s\<lparr>m_devList := (m_devList s)[d := f (dev_at s d)]\<rparr>"

definition dev_upd_cu :: "nat \<Rightarrow> (cuData \<Rightarrow> cuData) \<Rightarrow> deviceData \<Rightarrow> deviceData" where
  "dev_upd_cu c f dev = dev\<lparr>dv_xclbinInfo :=
     (dv_xclbinInfo dev)\<lparr>xb_cuList := (cuList dev)[c := f (cuList dev ! c)]\<rparr>\<rparr>"

definition upd_cu :: "nat \<Rightarrow> nat \<Rightarrow> (cuData \<Rightarrow> cuData) \<Rightarrow> system \<Rightarrow> system" where
  "upd_cu d c f = upd_dev d (dev_upd_cu c f)"

definition fault :: "system \<Rightarrow> system" where
  "fault s = s\<lparr>m_fault := True\<rparr>"

text \<open>The indices \<open>0 \<le> cuId < min(XRM_MAX_XILINX_KERNELS, numCu)\<close> the loops over compute units visit.\<close>

definition cu_ids :: "deviceData \<Rightarrow> nat list" where
  "cu_ids dev = [0..<min XRM_MAX_XILINX_KERNELS (nat (numCu dev))]"

lemma dev_at_upd_dev:
  "dev_at (upd_dev d f s) d' =
     (if d = d' \<and> d < length (m_devList s) then f (dev_at s d) else dev_at s d')"
  by (cases "d < length (m_devList s)") (auto simp: dev_at_def upd_dev_def list_update_beyond)

lemma length_upd_dev [simp]: "length (m_devList (upd_dev d f s)) = length (m_devList s)"
  by (simp add: upd_dev_def)

lemma upd_dev_fields [simp]:
  "m_numDevice (upd_dev d f s) = m_numDevice s"
  "m_allocServiceId (upd_dev d f s) = m_allocServiceId s"
  "m_reservePoolId (upd_dev d f s) = m_reservePoolId s"
  "m_clientId (upd_dev d f s) = m_clientId s"
  "m_fault (upd_dev d f s) = m_fault s"
  "m_devicesInited (upd_dev d f s) = m_devicesInited s"
  "m_numConcurrentClient (upd_dev d f s) = m_numConcurrentClient s"
  "m_limitConcurrentClient (upd_dev d f s) = m_limitConcurrentClient s"
  by (simp_all add: upd_dev_def)

lemma length_upd_cu [simp]: "length (m_devList (upd_cu d c f s)) = length (m_devList s)"
  by (simp add: upd_cu_def)

lemma upd_cu_fields [simp]:
  "m_numDevice (upd_cu d c f s) = m_numDevice s"
  "m_allocServiceId (upd_cu d c f s) = m_allocServiceId s"
  "m_reservePoolId (upd_cu d c f s) = m_reservePoolId s"
  "m_clientId (upd_cu d c f s) = m_clientId s"
  "m_fault (upd_cu d c f s) = m_fault s"
  "m_devicesInited (upd_cu d c f s) = m_devicesInited s"
  by (simp_all add: upd_cu_def)

lemma dev_upd_cu_fields [simp]:
  "numCu (dev_upd_cu c f dev) = numCu dev"
  "length (cuList (dev_upd_cu c f dev)) = length (cuList dev)"
  "dv_isLoaded (dev_upd_cu c f dev) = dv_isLoaded dev"
  "dv_isExcl (dev_upd_cu c f dev) = dv_isExcl dev"
  "dv_clientProcs (dev_upd_cu c f dev) = dv_clientProcs dev"
  "dv_devLoadInfo (dev_upd_cu c f dev) = dv_devLoadInfo dev"
  "dv_isDisabled (dev_upd_cu c f dev) = dv_isDisabled dev"
  "dv_memBuffer (dev_upd_cu c f dev) = dv_memBuffer dev"
  "dv_xclbinName (dev_upd_cu c f dev) = dv_xclbinName dev"
  by (simp_all add: dev_upd_cu_def numCu_def cuList_def)

lemma cuList_dev_upd_cu: "cuList (dev_upd_cu c f dev) = (cuList dev)[c := f (cuList dev ! c)]"
  by (simp add: dev_upd_cu_def cuList_def)

lemma dev_at_upd_cu:
  "dev_at (upd_cu d c f s) d' =
     (if d = d' \<and> d < length (m_devList s) then dev_upd_cu c f (dev_at s d) else dev_at s d')"
  by (simp add: upd_cu_def dev_at_upd_dev)

lemma cu_at_upd_cu:
  "cu_at (upd_cu d c f s) d' c' =
     (if d = d' \<and> c = c' \<and> d < length (m_devList s) \<and> c < length (cuList (dev_at s d))
      then f (cu_at s d c) else cu_at s d' c')"
  by (cases "c < length (cuList (dev_at s d))")
    (auto simp: cu_at_def dev_at_upd_cu cuList_dev_upd_cu nth_list_update list_update_beyond)

lemma cu_ids_upd_cu [simp]: "cu_ids (dev_upd_cu c f dev) = cu_ids dev"
  by (simp add: cu_ids_def)

lemma fault_fields [simp]:
  "m_devList (fault s) = m_devList s" "m_fault (fault s) = True"
  "m_numDevice (fault s) = m_numDevice s" "m_devicesInited (fault s) = m_devicesInited s" "m_allocServiceId (fault s) = m_allocServiceId s"
  "m_reservePoolId (fault s) = m_reservePoolId s"
  "dev_at (fault s) d = dev_at s d" "cu_at (fault s) d c = cu_at s d c"
  by (simp_all add: fault_def dev_at_def cu_at_def)

lemma set_cu_ids: "c \<in> set (cu_ids dev) \<longleftrightarrow> c < XRM_MAX_XILINX_KERNELS \<and> int c < numCu dev"
  by (auto simp: cu_ids_def)

end
