(* ===== verification/Xrm_Cu.thy ===== *)
theory Xrm_Cu
  imports Xrm_Data
begin

text \<open>
  One compute unit (\<open>cuData\<close>): its channel array, its array of attached clients and its array of
  reservations, with the operations of \<open>src/daemon/xrm_system.cpp\<close> that work on a single
  compute unit, and the invariant \<open>cu_inv\<close> that says how the arrays, the counters and the load
  totals agree. The lemmas of this theory give, for each elementary change of a compute unit
  (take a channel, give it back, open or close a reservation, attach or detach a client), what it
  does to that invariant; the system operations are proved by composing them.
\<close>

section \<open>Channels\<close>

text \<open>\<open>cuInitChannels\<close>.\<close>

definition cuInitChannels :: "cuData \<Rightarrow> cuData" where
  "cuInitChannels cu = cu\<lparr>
     cu_channels := map (\<lambda>i. channel0\<lparr>ch_channelId := int i\<rparr>) [0..<XRM_MAX_KERNEL_CHANNELS],
     cu_numChanInuse := 0\<rparr>"

text \<open>\<open>cuFindFreeChannelId\<close>: the first channel without load, or -1.\<close>

definition cuFindFreeChannelId :: "cuData \<Rightarrow> int" where
  "cuFindFreeChannelId cu =
     (if cu_numChanInuse cu \<ge> int XRM_MAX_KERNEL_CHANNELS then - 1
      else case first_index XRM_MAX_KERNEL_CHANNELS (\<lambda>i. ch_loadUnified (cu_channels cu ! i) = 0) of
             Some i \<Rightarrow> int i
           | None \<Rightarrow> - 1)"

text \<open>
  The writes to \<open>cu->channels[chanId]\<close> when a channel is allocated (both branches of
  \<open>allocChanClientFromCu\<close>) and when it is given back (\<open>resReleaseCu\<close>, \<open>releaseAllCuChanClientOnDev\<close>).
\<close>

definition fill_channel :: "cuProperty \<Rightarrow> u64 \<Rightarrow> channelData \<Rightarrow> channelData" where
  "fill_channel prop svc ch = ch\<lparr>
     ch_clientId := pr_clientId prop,
     ch_clientProcessId := pr_clientProcessId prop,
     ch_loadUnified := pr_requestLoadUnified prop,
     ch_loadOriginal := pr_requestLoadOriginal prop,
     ch_allocServiceId := svc,
     ch_poolId := pr_poolId prop\<rparr>"

definition clear_channel :: "channelData \<Rightarrow> channelData" where
  "clear_channel ch = ch\<lparr>
     ch_allocServiceId := 0,
     ch_poolId := 0,
     ch_clientId := 0,
     ch_clientProcessId := 0,
     ch_loadUnified := 0,
     ch_loadOriginal := 0\<rparr>"

section \<open>Clients attached to a compute unit\<close>

text \<open>\<open>isClientUsingCu\<close>: the position of the client in \<open>cu->clients\<close>, or -1.\<close>

definition isClientUsingCu :: "cuData \<Rightarrow> u64 \<Rightarrow> int" where
  "isClientUsingCu cu clientId =
     (case first_index (min (nat (cu_numClient cu)) XRM_MAX_KERNEL_CHANNELS)
             (\<lambda>i. cu_clients cu ! i = clientId) of
        Some i \<Rightarrow> int i
      | None \<Rightarrow> - 1)"

text \<open>
  \<open>addClientToCu\<close>. The loop that looks for the next empty slot has no bound in the code: \<open>None\<close> is
  the run that leaves the array.
\<close>

definition addClientToCu :: "u64 \<Rightarrow> cuData \<Rightarrow> cuData option" where
  "addClientToCu clientId cu =
     (if isClientUsingCu cu clientId \<ge> 0 then Some cu
      else case first_index XRM_MAX_KERNEL_CHANNELS (\<lambda>i. cu_clients cu ! i = 0) of
             None \<Rightarrow> None
           | Some i \<Rightarrow> Some (cu\<lparr>cu_clients := (cu_clients cu)[i := clientId],
                               cu_numClient := cu_numClient cu + 1\<rparr>))"

text \<open>\<open>removeClientOnCu\<close>: take the client out and close the gap.\<close>

definition removeClientOnCu :: "u64 \<Rightarrow> cuData \<Rightarrow> cuData" where
  "removeClientOnCu clientId cu =
     (let i = isClientUsingCu cu clientId
      in if i < 0 then cu
         else cu\<lparr>cu_clients := remove_slot (nat i)
                     (min (nat (cu_numClient cu)) XRM_MAX_KERNEL_CHANNELS) 0 (cu_clients cu),
                 cu_numClient := cu_numClient cu - 1\<rparr>)"

section \<open>Reservations on a compute unit\<close>

text \<open>\<open>isReservePoolUsingCu\<close>: the index of the pool in \<open>cu->reserves\<close>, or -1.\<close>

definition isReservePoolUsingCu :: "cuData \<Rightarrow> u64 \<Rightarrow> int" where
  "isReservePoolUsingCu cu reservePoolId =
     (if reservePoolId < 1 then - 1
      else case first_index (min (nat (cu_numReserve cu)) XRM_MAX_KERNEL_RESERVES)
                  (\<lambda>i. rs_poolId (cu_reserves cu ! i) = reservePoolId) of
             Some i \<Rightarrow> int i
           | None \<Rightarrow> - 1)"

text \<open>
  "switch the slot until the last one, empty the last slot, numReserve--": the block that
  \<open>recycleResource\<close>, \<open>relinquishCuFromDev\<close>, \<open>resRelinquishCuList\<close> and \<open>resRelinquishCuPool\<close> share.
\<close>

definition drop_reserve :: "nat \<Rightarrow> cuData \<Rightarrow> cuData" where
  "drop_reserve i cu = cu\<lparr>
     cu_reserves := remove_slot i (nat (cu_numReserve cu)) reserve0 (cu_reserves cu),
     cu_numReserve := cu_numReserve cu - 1\<rparr>"

text \<open>
  The load updates the operations share: \<open>cu->totalUsedLoadUnified += d\<close> and
  \<open>cu->reserves[k].reserveUsedLoadUnified += d\<close>; and the channel array updates with the counter.
\<close>

definition use_default :: "int \<Rightarrow> cuData \<Rightarrow> cuData" where
  "use_default d cu = cu\<lparr>cu_totalUsedLoadUnified := i32 (cu_totalUsedLoadUnified cu + d)\<rparr>"

definition use_reserve :: "nat \<Rightarrow> int \<Rightarrow> cuData \<Rightarrow> cuData" where
  "use_reserve k d cu = cu\<lparr>cu_reserves := (cu_reserves cu)[k := (cu_reserves cu ! k)\<lparr>
     rs_usedLoadUnified := i32 (rs_usedLoadUnified (cu_reserves cu ! k) + d)\<rparr>]\<rparr>"

definition take_channel :: "cuProperty \<Rightarrow> u64 \<Rightarrow> nat \<Rightarrow> cuData \<Rightarrow> cuData" where
  "take_channel prop svc i cu = cu\<lparr>
     cu_channels := (cu_channels cu)[i := fill_channel prop svc (cu_channels cu ! i)],
     cu_numChanInuse := cu_numChanInuse cu + 1\<rparr>"

definition give_channel :: "nat \<Rightarrow> cuData \<Rightarrow> cuData" where
  "give_channel i cu = cu\<lparr>
     cu_channels := (cu_channels cu)[i := clear_channel (cu_channels cu ! i)],
     cu_numChanInuse := cu_numChanInuse cu - 1\<rparr>"

text \<open>
  The updates of \<open>reserveLoadFromCu\<close> (a further request of a pool that already has a slot, or a new
  slot; the new slot's \<open>reserveUsedLoadUnified\<close> is not written), of the relinquish operations and of
  \<open>resReserveCuOfXclbin\<close> / \<open>resReserveDevice\<close>.
\<close>

definition add_reserved :: "int \<Rightarrow> cuData \<Rightarrow> cuData" where
  "add_reserved d cu = cu\<lparr>
     cu_totalUsedLoadUnified := i32 (cu_totalUsedLoadUnified cu + d),
     cu_totalReservedLoadUnified := i32 (cu_totalReservedLoadUnified cu + d)\<rparr>"

definition grow_reserve :: "nat \<Rightarrow> int \<Rightarrow> cuData \<Rightarrow> cuData" where
  "grow_reserve k d cu = cu\<lparr>cu_reserves := (cu_reserves cu)[k := (cu_reserves cu ! k)\<lparr>
     rs_loadUnified := i32 (rs_loadUnified (cu_reserves cu ! k) + d)\<rparr>]\<rparr>"

definition open_reserve :: "u64 \<Rightarrow> cuProperty \<Rightarrow> cuData \<Rightarrow> cuData" where
  "open_reserve reservePoolId prop cu =
     (let n = nat (cu_numReserve cu)
      in cu\<lparr>cu_reserves := (cu_reserves cu)[n := (cu_reserves cu ! n)\<lparr>
               rs_loadUnified := pr_requestLoadUnified prop,
               rs_poolId := reservePoolId,
               rs_clientIsActive := True,
               rs_clientId := pr_clientId prop,
               rs_clientProcessId := pr_clientProcessId prop\<rparr>],
            cu_numReserve := cu_numReserve cu + 1\<rparr>)"

definition whole_reserve :: "u64 \<Rightarrow> u64 \<Rightarrow> int \<Rightarrow> cuData \<Rightarrow> cuData" where
  "whole_reserve reservePoolId clientId clientProcessId cu = cu\<lparr>
     cu_totalUsedLoadUnified := XRM_MAX_LOAD,
     cu_totalReservedLoadUnified := XRM_MAX_LOAD,
     cu_reserves := (cu_reserves cu)[0 := \<lparr> rs_poolId = reservePoolId, rs_loadUnified = XRM_MAX_LOAD,
       rs_usedLoadUnified = 0, rs_clientIsActive = True, rs_clientId = clientId,
       rs_clientProcessId = clientProcessId \<rparr>],
     cu_numReserve := 1\<rparr>"

lemmas cu_step_defs = use_default_def use_reserve_def take_channel_def give_channel_def

section \<open>The invariant of a compute unit\<close>

definition in_use :: "channelData \<Rightarrow> bool" where
  "in_use ch \<longleftrightarrow> ch_loadUnified ch \<noteq> 0"

definition chan_ok :: "channelData \<Rightarrow> bool" where
  "chan_ok ch \<longleftrightarrow> 0 \<le> ch_loadUnified ch \<and>
     (if ch_loadUnified ch = 0
      then ch_clientId ch = 0 \<and> ch_poolId ch = 0 \<and> ch_allocServiceId ch = 0
      else ch_clientId ch \<noteq> 0)"

definition chans_inv :: "cuData \<Rightarrow> bool" where
  "chans_inv cu \<longleftrightarrow> length (cu_channels cu) = XRM_MAX_KERNEL_CHANNELS \<and>
     (\<forall>i<XRM_MAX_KERNEL_CHANNELS. ch_channelId (cu_channels cu ! i) = int i) \<and>
     (\<forall>ch\<in>set (cu_channels cu). chan_ok ch) \<and>
     cu_numChanInuse cu = int (length (filter in_use (cu_channels cu)))"

definition client_set :: "cuData \<Rightarrow> u64 set" where
  "client_set cu = set (take (nat (cu_numClient cu)) (cu_clients cu))"

definition clients_arr :: "cuData \<Rightarrow> bool" where
  "clients_arr cu \<longleftrightarrow> length (cu_clients cu) = XRM_MAX_KERNEL_CHANNELS \<and>
     0 \<le> cu_numClient cu \<and> cu_numClient cu \<le> int XRM_MAX_KERNEL_CHANNELS \<and>
     distinct (take (nat (cu_numClient cu)) (cu_clients cu)) \<and>
     0 \<notin> client_set cu \<and>
     drop (nat (cu_numClient cu)) (cu_clients cu) =
       replicate (XRM_MAX_KERNEL_CHANNELS - nat (cu_numClient cu)) 0"

definition chan_clients :: "channelData list \<Rightarrow> u64 set" where
  "chan_clients chs = ch_clientId ` {ch \<in> set chs. in_use ch}"

definition clients_inv :: "cuData \<Rightarrow> bool" where
  "clients_inv cu \<longleftrightarrow> clients_arr cu \<and> client_set cu = chan_clients (cu_channels cu)"

definition act_reserves :: "cuData \<Rightarrow> reserveData list" where
  "act_reserves cu = take (nat (cu_numReserve cu)) (cu_reserves cu)"

definition pool_ids :: "cuData \<Rightarrow> u64 set" where
  "pool_ids cu = rs_poolId ` set (act_reserves cu)"

text \<open>The load of the channels allocated from pool \<open>p\<close>, and of those outside the pools \<open>P\<close>.\<close>

definition pool_load :: "channelData list \<Rightarrow> u64 \<Rightarrow> int" where
  "pool_load chs p = sum_list (map (\<lambda>ch. if ch_poolId ch = p then ch_loadUnified ch else 0) chs)"

definition default_load :: "u64 set \<Rightarrow> channelData list \<Rightarrow> int" where
  "default_load P chs = sum_list (map (\<lambda>ch. if ch_poolId ch \<in> P then 0 else ch_loadUnified ch) chs)"

definition reserve_ok :: "channelData list \<Rightarrow> reserveData \<Rightarrow> bool" where
  "reserve_ok chs r \<longleftrightarrow> rs_poolId r \<noteq> 0 \<and> rs_clientIsActive r \<and> 0 < rs_loadUnified r \<and>
     rs_usedLoadUnified r = pool_load chs (rs_poolId r) \<and> rs_usedLoadUnified r \<le> rs_loadUnified r"

definition reserves_inv :: "cuData \<Rightarrow> bool" where
  "reserves_inv cu \<longleftrightarrow> length (cu_reserves cu) = XRM_MAX_KERNEL_RESERVES \<and>
     0 \<le> cu_numReserve cu \<and> cu_numReserve cu \<le> int XRM_MAX_KERNEL_RESERVES \<and>
     distinct (map rs_poolId (act_reserves cu)) \<and>
     (\<forall>r\<in>set (act_reserves cu). reserve_ok (cu_channels cu) r) \<and>
     drop (nat (cu_numReserve cu)) (cu_reserves cu) =
       replicate (XRM_MAX_KERNEL_RESERVES - nat (cu_numReserve cu)) reserve0"

definition reserved_load :: "cuData \<Rightarrow> int" where
  "reserved_load cu = sum_list (map rs_loadUnified (act_reserves cu))"

definition totals_inv :: "cuData \<Rightarrow> bool" where
  "totals_inv cu \<longleftrightarrow>
     cu_totalReservedLoadUnified cu = reserved_load cu \<and>
     cu_totalUsedLoadUnified cu = default_load (pool_ids cu) (cu_channels cu) + reserved_load cu \<and>
     cu_totalUsedLoadUnified cu \<le> XRM_MAX_LOAD"

text \<open>The accounting part, and the full invariant.\<close>

definition cu_acct :: "cuData \<Rightarrow> bool" where
  "cu_acct cu \<longleftrightarrow> chans_inv cu \<and> reserves_inv cu \<and> totals_inv cu"

definition cu_inv :: "cuData \<Rightarrow> bool" where
  "cu_inv cu \<longleftrightarrow> cu_acct cu \<and> clients_inv cu"

named_theorems cu_unfold \<open>the parts of the compute unit invariant\<close>

declare chans_inv_def [cu_unfold] reserves_inv_def [cu_unfold] totals_inv_def [cu_unfold]
  cu_acct_def [cu_unfold]

section \<open>Loads of channel lists\<close>

lemma pool_load_update:
  "i < length chs \<Longrightarrow> pool_load (chs[i := c]) p = pool_load chs p
     - (if ch_poolId (chs ! i) = p then ch_loadUnified (chs ! i) else 0)
     + (if ch_poolId c = p then ch_loadUnified c else 0)"
  by (simp add: pool_load_def sum_list_map_update)

lemma default_load_update:
  "i < length chs \<Longrightarrow> default_load P (chs[i := c]) = default_load P chs
     - (if ch_poolId (chs ! i) \<in> P then 0 else ch_loadUnified (chs ! i))
     + (if ch_poolId c \<in> P then 0 else ch_loadUnified c)"
  by (simp add: default_load_def sum_list_map_update)

lemma default_load_insert:
  "p \<notin> P \<Longrightarrow> default_load (insert p P) chs = default_load P chs - pool_load chs p"
  by (induction chs) (auto simp: default_load_def pool_load_def)

lemma default_load_remove:
  assumes "p \<in> P"
  shows "default_load (P - {p}) chs = default_load P chs + pool_load chs p"
  using default_load_insert [of p "P - {p}" chs] assms by (simp add: insert_absorb)

lemma default_load_empty [simp]:
  "default_load {} chs = sum_list (map ch_loadUnified chs)"
  by (simp add: default_load_def)

lemma pool_load_nonneg: "\<forall>ch\<in>set chs. chan_ok ch \<Longrightarrow> 0 \<le> pool_load chs p"
  by (auto simp: pool_load_def chan_ok_def intro!: sum_list_nonneg)

lemma default_load_nonneg: "\<forall>ch\<in>set chs. chan_ok ch \<Longrightarrow> 0 \<le> default_load P chs"
  by (auto simp: default_load_def chan_ok_def intro!: sum_list_nonneg)

lemma pool_load_absent: "\<forall>ch\<in>set chs. ch_poolId ch \<noteq> p \<Longrightarrow> pool_load chs p = 0"
  by (induction chs) (auto simp: pool_load_def)

lemma pool_load_member:
  assumes "\<forall>ch\<in>set chs. chan_ok ch" "ch \<in> set chs" "ch_poolId ch = p"
  shows "ch_loadUnified ch \<le> pool_load chs p"
proof -
  have "(if ch_poolId ch = p then ch_loadUnified ch else 0) \<le>
     sum_list (map (\<lambda>ch. if ch_poolId ch = p then ch_loadUnified ch else 0) chs)"
    using assms by (intro sum_list_nonneg_member) (auto simp: chan_ok_def)
  with assms(3) show ?thesis by (simp add: pool_load_def)
qed

lemma default_load_member:
  assumes "\<forall>ch\<in>set chs. chan_ok ch" "ch \<in> set chs" "ch_poolId ch \<notin> P"
  shows "ch_loadUnified ch \<le> default_load P chs"
proof -
  have "(if ch_poolId ch \<in> P then 0 else ch_loadUnified ch) \<le>
     sum_list (map (\<lambda>ch. if ch_poolId ch \<in> P then 0 else ch_loadUnified ch) chs)"
    using assms by (intro sum_list_nonneg_member) (auto simp: chan_ok_def)
  with assms(3) show ?thesis by (simp add: default_load_def)
qed

text \<open>All channels together: the default part and the pools.\<close>

lemma total_load_split:
  "distinct ps \<Longrightarrow>
   sum_list (map ch_loadUnified chs) =
     default_load (set ps) chs + sum_list (map (pool_load chs) ps)"
proof (induction ps)
  case (Cons p ps)
  then show ?case by (simp add: default_load_insert)
qed simp

end
