(* ===== verification/Xrm_Cu_Inv.thy ===== *)
theory Xrm_Cu_Inv
  imports Xrm_Cu
begin

text \<open>
  What the elementary changes of a compute unit do to its invariant: attaching and detaching a
  client, taking and giving back a channel, opening, growing and closing a reservation.
\<close>

section \<open>Clients\<close>

lemma isClientUsingCu_iff:
  assumes "clients_arr cu"
  shows "0 \<le> isClientUsingCu cu c \<longleftrightarrow> c \<in> client_set cu"
proof -
  let ?n = "nat (cu_numClient cu)"
  have n: "?n \<le> length (cu_clients cu)" "min ?n XRM_MAX_KERNEL_CHANNELS = ?n"
    using assms by (auto simp: clients_arr_def)
  have "c \<in> client_set cu \<longleftrightarrow> (\<exists>i<?n. cu_clients cu ! i = c)"
    using n by (auto simp: client_set_def in_set_conv_nth)
  then show ?thesis
    by (auto simp: isClientUsingCu_def n(2) split: option.splits dest!: first_index_SomeD)
qed

lemma isClientUsingCu_nth:
  assumes "clients_arr cu" "0 \<le> isClientUsingCu cu c"
  shows "nat (isClientUsingCu cu c) < nat (cu_numClient cu) \<and>
         cu_clients cu ! nat (isClientUsingCu cu c) = c"
  using assms
  by (auto simp: isClientUsingCu_def clients_arr_def split: option.splits dest!: first_index_SomeD)

lemma removeClientOnCu_spec:
  assumes "clients_arr cu"
  shows "clients_arr (removeClientOnCu c cu) \<and>
         client_set (removeClientOnCu c cu) = client_set cu - {c}"
proof (cases "0 \<le> isClientUsingCu cu c")
  case False
  then have "c \<notin> client_set cu" using isClientUsingCu_iff [OF assms] by simp
  with False assms show ?thesis by (auto simp: removeClientOnCu_def)
next
  case True
  let ?n = "nat (cu_numClient cu)" and ?i = "nat (isClientUsingCu cu c)"
  let ?xs = "take ?n (cu_clients cu)"
  let ?r = "remove_slot ?i ?n 0 (cu_clients cu)"
  have i: "?i < ?n" "cu_clients cu ! ?i = c"
    using isClientUsingCu_nth [OF assms True] by auto
  have len: "length (cu_clients cu) = XRM_MAX_KERNEL_CHANNELS"
    and n: "0 \<le> cu_numClient cu" "cu_numClient cu \<le> int XRM_MAX_KERNEL_CHANNELS"
    and dist: "distinct ?xs" and z: "0 \<notin> set ?xs"
    and rest: "drop ?n (cu_clients cu) = replicate (XRM_MAX_KERNEL_CHANNELS - ?n) 0"
    using assms by (auto simp: clients_arr_def client_set_def)
  have nl: "?n \<le> length (cu_clients cu)" and m: "min ?n XRM_MAX_KERNEL_CHANNELS = ?n"
    using len n by auto
  have eq: "removeClientOnCu c cu = cu\<lparr>cu_clients := ?r, cu_numClient := cu_numClient cu - 1\<rparr>"
    using True by (simp add: removeClientOnCu_def m)
  have n1: "nat (cu_numClient cu - 1) = ?n - 1" by simp
  have t: "take (?n - 1) ?r = take ?i ?xs @ drop (Suc ?i) ?xs"
    and il: "?i < length ?xs" and xi: "?xs ! ?i = c"
    using remove_slot_front [OF i(1) nl] i(2) by simp_all
  have d: "drop (?n - 1) ?r = replicate (XRM_MAX_KERNEL_CHANNELS - (?n - 1)) 0"
    using i(1) nl len rest by (intro remove_slot_rest) auto
  have cs: "client_set (removeClientOnCu c cu) = client_set cu - {c}"
    using set_take_drop_remove [OF dist il] xi t by (simp add: client_set_def eq n1)
  moreover have "clients_arr (removeClientOnCu c cu)"
    using cs i nl len n t d z distinct_take_drop_remove [OF dist il]
    by (simp add: clients_arr_def client_set_def eq n1)
  ultimately show ?thesis by simp
qed

lemma addClientToCu_spec:
  assumes arr: "clients_arr cu" and c: "c \<noteq> 0"
    and room: "c \<in> client_set cu \<or> cu_numClient cu < int XRM_MAX_KERNEL_CHANNELS"
  shows "\<exists>cl n. addClientToCu c cu = Some (cu\<lparr>cu_clients := cl, cu_numClient := n\<rparr>) \<and>
           clients_arr (cu\<lparr>cu_clients := cl, cu_numClient := n\<rparr>) \<and>
           client_set (cu\<lparr>cu_clients := cl, cu_numClient := n\<rparr>) = insert c (client_set cu)"
proof (cases "0 \<le> isClientUsingCu cu c")
  case True
  then have "c \<in> client_set cu" using isClientUsingCu_iff [OF arr] by simp
  with True arr show ?thesis
    by (intro exI[of _ "cu_clients cu"] exI[of _ "cu_numClient cu"])
      (auto simp: addClientToCu_def)
next
  case False
  let ?n = "nat (cu_numClient cu)"
  have cn: "c \<notin> client_set cu" using False isClientUsingCu_iff [OF arr] by simp
  have len: "length (cu_clients cu) = XRM_MAX_KERNEL_CHANNELS"
    and n: "0 \<le> cu_numClient cu"
    and dist: "distinct (take ?n (cu_clients cu))" and z: "0 \<notin> set (take ?n (cu_clients cu))"
    and rest: "drop ?n (cu_clients cu) = replicate (XRM_MAX_KERNEL_CHANNELS - ?n) 0"
    using arr by (auto simp: clients_arr_def client_set_def)
  have nm: "?n < XRM_MAX_KERNEL_CHANNELS" using room cn n by linarith
  have at_n: "cu_clients cu ! ?n = 0"
    using rest nm len by (metis Cons_nth_drop_Suc Suc_diff_Suc list.inject replicate_Suc)
  have before: "cu_clients cu ! j \<noteq> 0" if "j < ?n" for j
    using z nm len that by (auto simp: in_set_conv_nth)
  have fi: "first_index XRM_MAX_KERNEL_CHANNELS (\<lambda>i. cu_clients cu ! i = 0) = Some ?n"
    using nm at_n before by (simp add: first_index_Some_iff)
  let ?cu = "cu\<lparr>cu_clients := (cu_clients cu)[?n := c], cu_numClient := cu_numClient cu + 1\<rparr>"
  have s1: "nat (cu_numClient cu + 1) = Suc ?n" using n by simp
  have t: "take (Suc ?n) ((cu_clients cu)[?n := c]) = take ?n (cu_clients cu) @ [c]"
    using nm len by (simp add: take_Suc_update)
  have d: "drop (Suc ?n) ((cu_clients cu)[?n := c]) = replicate (XRM_MAX_KERNEL_CHANNELS - Suc ?n) 0"
  proof -
    have "drop (Suc ?n) (cu_clients cu) = drop 1 (drop ?n (cu_clients cu))" by simp
    then show ?thesis using rest by (simp add: drop_update_cancel)
  qed
  have cs: "client_set ?cu = insert c (client_set cu)"
    by (simp add: client_set_def s1 t)
  have "clients_arr ?cu"
    using len n nm dist z cn c d cs by (simp add: clients_arr_def client_set_def s1 t)
  with cs False fi show ?thesis by (auto simp: addClientToCu_def)
qed

lemma card_client_set:
  assumes "clients_arr cu"
  shows "card (client_set cu) = nat (cu_numClient cu)"
proof -
  have d: "distinct (take (nat (cu_numClient cu)) (cu_clients cu))"
    and l: "nat (cu_numClient cu) \<le> length (cu_clients cu)"
    using assms by (auto simp: clients_arr_def)
  show ?thesis using distinct_card [OF d] l by (simp add: client_set_def)
qed

lemma chan_clients_card: "card (chan_clients chs) \<le> length (filter in_use chs)"
proof -
  have "chan_clients chs = ch_clientId ` set (filter in_use chs)"
    by (auto simp: chan_clients_def)
  also have "card \<dots> \<le> card (set (filter in_use chs))" by (rule card_image_le) simp
  also have "\<dots> \<le> length (filter in_use chs)" by (rule card_length)
  finally show ?thesis .
qed

text \<open>There are never more attached clients than channels in use.\<close>

lemma numClient_le_numChanInuse:
  assumes "cu_inv cu"
  shows "cu_numClient cu \<le> cu_numChanInuse cu"
proof -
  have arr: "clients_arr cu" and cs: "client_set cu = chan_clients (cu_channels cu)"
    and num: "cu_numChanInuse cu = int (length (filter in_use (cu_channels cu)))"
    using assms by (auto simp: cu_inv_def clients_inv_def cu_unfold)
  have "nat (cu_numClient cu) \<le> length (filter in_use (cu_channels cu))"
    using card_client_set [OF arr] chan_clients_card cs by metis
  with num show ?thesis by linarith
qed


section \<open>Reservations\<close>

lemma act_reserves_nth:
  "reserves_inv cu \<Longrightarrow> k < nat (cu_numReserve cu) \<Longrightarrow>
   k < length (act_reserves cu) \<and> act_reserves cu ! k = cu_reserves cu ! k \<and>
   k < length (cu_reserves cu)"
  by (auto simp: act_reserves_def reserves_inv_def)

lemma isReservePoolUsingCu_spec:
  assumes "reserves_inv cu"
  shows "isReservePoolUsingCu cu p = - 1 \<longleftrightarrow> p \<notin> pool_ids cu"
    and "isReservePoolUsingCu cu p \<noteq> - 1 \<Longrightarrow>
      nat (isReservePoolUsingCu cu p) < nat (cu_numReserve cu) \<and>
      int (nat (isReservePoolUsingCu cu p)) = isReservePoolUsingCu cu p \<and>
      rs_poolId (cu_reserves cu ! nat (isReservePoolUsingCu cu p)) = p"
proof -
  let ?n = "nat (cu_numReserve cu)"
  have m: "min ?n XRM_MAX_KERNEL_RESERVES = ?n" and l: "?n \<le> length (cu_reserves cu)"
    and nz: "\<forall>r\<in>set (act_reserves cu). rs_poolId r \<noteq> 0"
    using assms by (auto simp: reserves_inv_def reserve_ok_def)
  have ids: "p \<in> pool_ids cu \<longleftrightarrow> (\<exists>k<?n. rs_poolId (cu_reserves cu ! k) = p)"
    using l by (auto simp: pool_ids_def act_reserves_def nth_image [symmetric])
  have lt1: "p < 1 \<longleftrightarrow> p = 0" by (metis word_less_1)
  have p0: "p = 0 \<Longrightarrow> p \<notin> pool_ids cu" using nz by (auto simp: pool_ids_def)
  show "isReservePoolUsingCu cu p = - 1 \<longleftrightarrow> p \<notin> pool_ids cu"
  proof (cases "p = 0")
    case True
    with p0 show ?thesis by (simp add: isReservePoolUsingCu_def)
  next
    case False
    then show ?thesis
      by (auto simp: isReservePoolUsingCu_def m lt1 ids split: option.splits
        dest!: first_index_SomeD)
  qed
  show "isReservePoolUsingCu cu p \<noteq> - 1 \<Longrightarrow>
      nat (isReservePoolUsingCu cu p) < nat (cu_numReserve cu) \<and>
      int (nat (isReservePoolUsingCu cu p)) = isReservePoolUsingCu cu p \<and>
      rs_poolId (cu_reserves cu ! nat (isReservePoolUsingCu cu p)) = p"
    by (auto simp: isReservePoolUsingCu_def m split: option.splits if_splits
      dest!: first_index_SomeD)
qed

lemma act_reserve_ok:
  assumes "reserves_inv cu" "k < nat (cu_numReserve cu)"
  shows "reserve_ok (cu_channels cu) (cu_reserves cu ! k)"
    "rs_poolId (cu_reserves cu ! k) \<in> pool_ids cu"
    "rs_poolId (cu_reserves cu ! k) \<noteq> 0"
proof -
  have "cu_reserves cu ! k \<in> set (act_reserves cu)"
    using act_reserves_nth [OF assms] by (metis nth_mem)
  then show "reserve_ok (cu_channels cu) (cu_reserves cu ! k)"
    "rs_poolId (cu_reserves cu ! k) \<in> pool_ids cu" "rs_poolId (cu_reserves cu ! k) \<noteq> 0"
    using assms(1) by (auto simp: reserves_inv_def pool_ids_def reserve_ok_def)
qed

lemma reserve_unique:
  assumes "reserves_inv cu" "j < nat (cu_numReserve cu)" "k < nat (cu_numReserve cu)"
    "rs_poolId (cu_reserves cu ! j) = rs_poolId (cu_reserves cu ! k)"
  shows "j = k"
proof -
  have "distinct (map rs_poolId (act_reserves cu))"
    using assms(1) by (simp add: reserves_inv_def)
  then show ?thesis
    using assms(2-) act_reserves_nth [OF assms(1)]
    by (metis distinct_conv_nth length_map nth_map)
qed

lemma zero_not_pool: "reserves_inv cu \<Longrightarrow> 0 \<notin> pool_ids cu"
  by (auto simp: reserves_inv_def pool_ids_def reserve_ok_def)

lemma reserved_load_nonneg: "reserves_inv cu \<Longrightarrow> 0 \<le> reserved_load cu"
  by (auto simp: reserves_inv_def reserved_load_def reserve_ok_def less_imp_le
      intro!: sum_list_nonneg)

text \<open>The totals are bounded, so no 32-bit computation on them wraps.\<close>

lemma totals_bounds:
  assumes "cu_acct cu"
  shows "0 \<le> cu_totalUsedLoadUnified cu" "cu_totalUsedLoadUnified cu \<le> XRM_MAX_LOAD"
    "0 \<le> cu_totalReservedLoadUnified cu"
    "cu_totalReservedLoadUnified cu \<le> cu_totalUsedLoadUnified cu"
  using assms reserved_load_nonneg default_load_nonneg [of "cu_channels cu" "pool_ids cu"]
  by (auto simp: cu_unfold)

lemma reserve_bounds:
  assumes "cu_acct cu" "k < nat (cu_numReserve cu)"
  shows "0 \<le> rs_usedLoadUnified (cu_reserves cu ! k)"
    "rs_usedLoadUnified (cu_reserves cu ! k) \<le> rs_loadUnified (cu_reserves cu ! k)"
    "0 < rs_loadUnified (cu_reserves cu ! k)"
    "rs_loadUnified (cu_reserves cu ! k) \<le> XRM_MAX_LOAD"
proof -
  have inv: "reserves_inv cu" and chs: "\<forall>ch\<in>set (cu_channels cu). chan_ok ch"
    using assms(1) by (auto simp: cu_acct_def chans_inv_def)
  have ok: "reserve_ok (cu_channels cu) (cu_reserves cu ! k)"
    using act_reserve_ok [OF inv assms(2)] by simp
  then show "0 \<le> rs_usedLoadUnified (cu_reserves cu ! k)"
    "rs_usedLoadUnified (cu_reserves cu ! k) \<le> rs_loadUnified (cu_reserves cu ! k)"
    "0 < rs_loadUnified (cu_reserves cu ! k)"
    using pool_load_nonneg [OF chs] by (auto simp: reserve_ok_def)
  have "cu_reserves cu ! k \<in> set (act_reserves cu)"
    using act_reserves_nth [OF inv assms(2)] by (metis nth_mem)
  moreover have "0 \<le> rs_loadUnified r" if "r \<in> set (act_reserves cu)" for r
    using inv that by (auto simp: reserves_inv_def reserve_ok_def)
  ultimately have "rs_loadUnified (cu_reserves cu ! k) \<le> reserved_load cu"
    unfolding reserved_load_def by (rule sum_list_nonneg_member)
  moreover have "reserved_load cu = cu_totalReservedLoadUnified cu"
    using assms(1) by (simp add: cu_unfold)
  ultimately show "rs_loadUnified (cu_reserves cu ! k) \<le> XRM_MAX_LOAD"
    using totals_bounds [OF assms(1)] by linarith
qed

section \<open>Taking and giving back channels\<close>

lemma chans_inv_take:
  assumes "chans_inv cu" "i < XRM_MAX_KERNEL_CHANNELS" "\<not> in_use (cu_channels cu ! i)"
    and "0 < pr_requestLoadUnified prop" "pr_clientId prop \<noteq> 0"
  shows "chans_inv (take_channel prop svc i cu)"
  using assms
  by (auto simp: chans_inv_def take_channel_def fill_channel_def chan_ok_def nth_list_update
      filter_length_update in_use_def dest!: set_update_subset_insert [THEN subsetD])

lemma chans_inv_give:
  assumes "chans_inv cu" "i < XRM_MAX_KERNEL_CHANNELS" "in_use (cu_channels cu ! i)"
  shows "chans_inv (give_channel i cu)"
  using assms
  by (auto simp: chans_inv_def give_channel_def clear_channel_def chan_ok_def nth_list_update
      filter_length_update in_use_def dest!: set_update_subset_insert [THEN subsetD])

lemma chan_clients_take:
  assumes "i < length chs" "\<not> in_use (chs ! i)" "0 < pr_requestLoadUnified prop"
  shows "chan_clients (chs[i := fill_channel prop svc (chs ! i)]) =
     insert (pr_clientId prop) (chan_clients chs)"
proof -
  let ?c = "fill_channel prop svc (chs ! i)"
  have "in_use ch \<and> ch \<in> set (chs[i := ?c]) \<longleftrightarrow> ch = ?c \<or> (in_use ch \<and> ch \<in> set chs)" for ch
    using assms by (auto simp: in_set_conv_nth nth_list_update in_use_def fill_channel_def
      intro: exI[of _ i])
  then have "{ch \<in> set (chs[i := ?c]). in_use ch} = insert ?c {ch \<in> set chs. in_use ch}" by blast
  then show ?thesis by (simp add: chan_clients_def fill_channel_def)
qed

lemma chan_clients_give:
  assumes "i < length chs"
  shows "chan_clients (chs[i := clear_channel (chs ! i)]) =
     ch_clientId ` {chs ! j |j. j < length chs \<and> j \<noteq> i \<and> in_use (chs ! j)}"
proof -
  have "{ch \<in> set (chs[i := clear_channel (chs ! i)]). in_use ch} =
     {chs ! j |j. j < length chs \<and> j \<noteq> i \<and> in_use (chs ! j)}"
  proof (rule set_eqI)
    fix ch
    have nu: "\<not> in_use (clear_channel (chs ! i))" by (simp add: in_use_def clear_channel_def)
    have "ch \<in> set (chs[i := clear_channel (chs ! i)]) \<longleftrightarrow>
       (\<exists>j<length chs. ch = (if j = i then clear_channel (chs ! i) else chs ! j))"
      by (auto simp: in_set_conv_nth nth_list_update)
    then show "ch \<in> {ch \<in> set (chs[i := clear_channel (chs ! i)]). in_use ch} \<longleftrightarrow>
       ch \<in> {chs ! j |j. j < length chs \<and> j \<noteq> i \<and> in_use (chs ! j)}"
      using nu by auto
  qed
  then show ?thesis by (simp add: chan_clients_def)
qed


text \<open>
  A channel taken from the default pool, and one taken from the reservation in slot \<open>k\<close>; the
  conditions are the ones \<open>allocChanClientFromCu\<close> checks.
\<close>

lemma cu_acct_take_default:
  assumes inv: "cu_acct cu" and i: "i < XRM_MAX_KERNEL_CHANNELS" "\<not> in_use (cu_channels cu ! i)"
    and req: "0 < pr_requestLoadUnified prop" "pr_clientId prop \<noteq> 0" "pr_poolId prop = 0"
    and fits: "cu_totalUsedLoadUnified cu + pr_requestLoadUnified prop \<le> XRM_MAX_LOAD"
  shows "cu_acct (take_channel prop svc i (use_default (pr_requestLoadUnified prop) cu))"
proof -
  let ?L = "pr_requestLoadUnified prop" and ?chs = "cu_channels cu"
  let ?c = "fill_channel prop svc (?chs ! i)"
  let ?cu = "take_channel prop svc i (use_default ?L cu)"
  have ch: "chans_inv cu" and rs: "reserves_inv cu" and tot: "totals_inv cu"
    using inv by (auto simp: cu_acct_def)
  have len: "i < length ?chs" and free: "ch_poolId (?chs ! i) = 0" "ch_loadUnified (?chs ! i) = 0"
    using ch i by (auto simp: chans_inv_def in_use_def chan_ok_def)
  have z: "0 \<notin> pool_ids cu" using rs by (rule zero_not_pool)
  have wrap: "i32 (cu_totalUsedLoadUnified cu + ?L) = cu_totalUsedLoadUnified cu + ?L"
    using fits req(1) totals_bounds [OF inv] by simp
  have same: "pool_ids ?cu = pool_ids cu" "act_reserves ?cu = act_reserves cu"
    "reserved_load ?cu = reserved_load cu"
    by (simp_all add: cu_step_defs pool_ids_def act_reserves_def reserved_load_def)
  have p: "pool_load (?chs[i := ?c]) p = pool_load ?chs p" if "p \<noteq> 0" for p
    using len free that req(3) by (simp add: pool_load_update fill_channel_def)
  have d: "default_load (pool_ids cu) (?chs[i := ?c]) = default_load (pool_ids cu) ?chs + ?L"
    using len free z req(3) by (simp add: default_load_update fill_channel_def)
  have "chans_inv (take_channel prop svc i (use_default ?L cu))"
    using ch i req by (intro chans_inv_take) (auto simp: use_default_def chans_inv_def)
  moreover have "reserves_inv ?cu"
    using rs p unfolding reserves_inv_def same
    by (auto simp: cu_step_defs reserve_ok_def)
  moreover have "totals_inv ?cu"
    using tot d fits wrap unfolding totals_inv_def same by (simp add: cu_step_defs)
  ultimately show ?thesis by (simp add: cu_acct_def)
qed

lemma act_use_reserve:
  assumes "reserves_inv cu" "k < nat (cu_numReserve cu)"
  shows "act_reserves (use_reserve k d cu) = (act_reserves cu)[k := (cu_reserves cu ! k)\<lparr>
      rs_usedLoadUnified := i32 (rs_usedLoadUnified (cu_reserves cu ! k) + d)\<rparr>]"
    and "map rs_poolId (act_reserves (use_reserve k d cu)) = map rs_poolId (act_reserves cu)"
    and "reserved_load (use_reserve k d cu) = reserved_load cu"
    and "pool_ids (use_reserve k d cu) = pool_ids cu"
proof -
  note nth = act_reserves_nth [OF assms]
  show 1: "act_reserves (use_reserve k d cu) = (act_reserves cu)[k := (cu_reserves cu ! k)\<lparr>
      rs_usedLoadUnified := i32 (rs_usedLoadUnified (cu_reserves cu ! k) + d)\<rparr>]"
    by (simp add: act_reserves_def use_reserve_def take_update_swap)
  show 2: "map rs_poolId (act_reserves (use_reserve k d cu)) = map rs_poolId (act_reserves cu)"
    using nth by (simp add: 1 map_update list_update_same_conv)
  then show "pool_ids (use_reserve k d cu) = pool_ids cu"
    by (simp add: pool_ids_def flip: set_map)
  have "map rs_loadUnified (act_reserves (use_reserve k d cu)) = map rs_loadUnified (act_reserves cu)"
    using nth by (simp add: 1 map_update list_update_same_conv)
  then show "reserved_load (use_reserve k d cu) = reserved_load cu"
    by (simp add: reserved_load_def)
qed

text \<open>
  The load used in reservation \<open>k\<close> changes together with the channels, whatever the direction.
\<close>

lemma reserves_inv_use:
  assumes rs: "reserves_inv cu" and k: "k < nat (cu_numReserve cu)"
    and chs: "\<And>p. p \<noteq> 0 \<Longrightarrow> pool_load chs' p =
       pool_load (cu_channels cu) p + (if p = rs_poolId (cu_reserves cu ! k) then d else 0)"
    and wrap: "i32 (rs_usedLoadUnified (cu_reserves cu ! k) + d) =
       rs_usedLoadUnified (cu_reserves cu ! k) + d"
    and fits: "rs_usedLoadUnified (cu_reserves cu ! k) + d \<le> rs_loadUnified (cu_reserves cu ! k)"
  shows "reserves_inv ((use_reserve k d cu)\<lparr>cu_channels := chs', cu_numChanInuse := m\<rparr>)"
proof -
  let ?r = "cu_reserves cu ! k"
  let ?cu = "(use_reserve k d cu)\<lparr>cu_channels := chs', cu_numChanInuse := m\<rparr>"
  have n: "k < length (cu_reserves cu)" "nat (cu_numReserve cu) \<le> length (cu_reserves cu)"
    using rs k by (auto simp: reserves_inv_def)
  have act: "act_reserves ?cu = (act_reserves cu)[k := ?r\<lparr>
      rs_usedLoadUnified := rs_usedLoadUnified ?r + d\<rparr>]"
    using act_use_reserve(1) [OF rs k, of d] wrap by (simp add: act_reserves_def)
  have ids: "map rs_poolId (act_reserves ?cu) = map rs_poolId (act_reserves cu)"
    using act_use_reserve(2) [OF rs k, of d] by (simp add: act_reserves_def)
  have ok: "reserve_ok chs' r" if "r \<in> set (act_reserves ?cu)" for r
  proof -
    obtain j where j: "j < length (act_reserves cu)" "r = act_reserves ?cu ! j"
      using \<open>r \<in> set (act_reserves ?cu)\<close> act by (auto simp: in_set_conv_nth)
    then have jn: "j < nat (cu_numReserve cu)" by (simp add: act_reserves_def)
    note okj = act_reserve_ok [OF rs jn] and jnth = act_reserves_nth [OF rs jn]
    show ?thesis
    proof (cases "j = k")
      case True
      then show ?thesis
        using j act okj chs [OF okj(3)] fits by (simp add: reserve_ok_def)
    next
      case False
      then have "rs_poolId (cu_reserves cu ! j) \<noteq> rs_poolId ?r"
        using reserve_unique [OF rs jn k] by blast
      then show ?thesis
        using False j act jnth okj chs [OF okj(3)] by (simp add: reserve_ok_def)
    qed
  qed
  have "drop (nat (cu_numReserve cu)) (cu_reserves ?cu) = drop (nat (cu_numReserve cu)) (cu_reserves cu)"
    using k by (simp add: use_reserve_def drop_update_cancel)
  with rs ok show ?thesis
    unfolding reserves_inv_def ids by (simp add: use_reserve_def)
qed

lemma cu_acct_take_pool:
  assumes inv: "cu_acct cu" and i: "i < XRM_MAX_KERNEL_CHANNELS" "\<not> in_use (cu_channels cu ! i)"
    and k: "k < nat (cu_numReserve cu)" "rs_poolId (cu_reserves cu ! k) = pr_poolId prop"
    and req: "0 < pr_requestLoadUnified prop" "pr_clientId prop \<noteq> 0"
    and fits: "rs_usedLoadUnified (cu_reserves cu ! k) + pr_requestLoadUnified prop
       \<le> rs_loadUnified (cu_reserves cu ! k)"
  shows "cu_acct (take_channel prop svc i (use_reserve k (pr_requestLoadUnified prop) cu))"
proof -
  let ?L = "pr_requestLoadUnified prop" and ?chs = "cu_channels cu"
  let ?c = "fill_channel prop svc (?chs ! i)"
  let ?cu = "take_channel prop svc i (use_reserve k ?L cu)"
  have ch: "chans_inv cu" and rs: "reserves_inv cu" and tot: "totals_inv cu"
    using inv by (auto simp: cu_acct_def)
  have len: "i < length ?chs" and free: "ch_poolId (?chs ! i) = 0" "ch_loadUnified (?chs ! i) = 0"
    using ch i by (auto simp: chans_inv_def in_use_def chan_ok_def)
  have pin: "pr_poolId prop \<in> pool_ids cu"
    using act_reserve_ok(2) [OF rs k(1)] k(2) by simp
  have eq: "?cu = (use_reserve k ?L cu)\<lparr>cu_channels := ?chs[i := ?c],
      cu_numChanInuse := cu_numChanInuse cu + 1\<rparr>"
    by (simp add: cu_step_defs)
  have p: "pool_load (?chs[i := ?c]) p =
      pool_load ?chs p + (if p = rs_poolId (cu_reserves cu ! k) then ?L else 0)" if "p \<noteq> 0" for p
    using len free that k(2) by (auto simp: pool_load_update fill_channel_def)
  have d: "default_load (pool_ids cu) (?chs[i := ?c]) = default_load (pool_ids cu) ?chs"
    using len free pin by (simp add: default_load_update fill_channel_def)
  have "chans_inv ?cu"
    using ch i req by (intro chans_inv_take) (auto simp: use_reserve_def chans_inv_def)
  moreover have "reserves_inv ?cu"
    unfolding eq using fits req(1) reserve_bounds [OF inv k(1)] p
    by (intro reserves_inv_use [OF rs k(1)]) auto
  moreover have "totals_inv ?cu"
  proof -
    have "pool_ids ?cu = pool_ids cu" "reserved_load ?cu = reserved_load cu"
      using act_use_reserve [OF rs k(1), of ?L]
      by (simp_all add: take_channel_def pool_ids_def reserved_load_def act_reserves_def)
    with tot d show ?thesis unfolding totals_inv_def by (simp add: cu_step_defs)
  qed
  ultimately show ?thesis by (simp add: cu_acct_def)
qed


text \<open>Giving a channel back to the default pool, or to the reservation in slot \<open>k\<close>.\<close>

lemma cu_acct_give_default:
  assumes inv: "cu_acct cu" and i: "i < XRM_MAX_KERNEL_CHANNELS" "in_use (cu_channels cu ! i)"
    and p: "ch_poolId (cu_channels cu ! i) \<notin> pool_ids cu"
  shows "cu_acct (give_channel i (use_default (- ch_loadUnified (cu_channels cu ! i)) cu))"
proof -
  let ?chs = "cu_channels cu" and ?L = "ch_loadUnified (cu_channels cu ! i)"
  let ?c = "clear_channel (?chs ! i)"
  let ?cu = "give_channel i (use_default (- ?L) cu)"
  have ch: "chans_inv cu" and rs: "reserves_inv cu" and tot: "totals_inv cu"
    using inv by (auto simp: cu_acct_def)
  have len: "i < length ?chs" and ok: "\<forall>ch\<in>set ?chs. chan_ok ch"
    using ch i by (auto simp: chans_inv_def)
  have L: "0 \<le> ?L" "?L \<le> default_load (pool_ids cu) ?chs"
    using ok len p by (auto simp: chan_ok_def intro: default_load_member)
  have z: "0 \<notin> pool_ids cu" using rs by (rule zero_not_pool)
  have bnd: "?L \<le> cu_totalUsedLoadUnified cu"
    using L(2) tot reserved_load_nonneg [OF rs] by (simp add: totals_inv_def)
  have wrap: "i32 (cu_totalUsedLoadUnified cu - ?L) = cu_totalUsedLoadUnified cu - ?L"
    using bnd L(1) totals_bounds [OF inv] by simp
  have same: "pool_ids ?cu = pool_ids cu" "act_reserves ?cu = act_reserves cu"
    "reserved_load ?cu = reserved_load cu"
    by (simp_all add: cu_step_defs pool_ids_def act_reserves_def reserved_load_def)
  have pl: "pool_load (?chs[i := ?c]) q = pool_load ?chs q" if "q \<in> pool_ids cu" for q
    using len p that by (auto simp: pool_load_update clear_channel_def)
  have d: "default_load (pool_ids cu) (?chs[i := ?c]) = default_load (pool_ids cu) ?chs - ?L"
    using len p z by (simp add: default_load_update clear_channel_def)
  have "chans_inv ?cu"
    using ch i chans_inv_give [of "use_default (- ?L) cu" i]
    by (simp add: use_default_def chans_inv_def)
  moreover have "reserves_inv ?cu"
    using rs pl unfolding reserves_inv_def same
    by (auto simp: cu_step_defs reserve_ok_def pool_ids_def)
  moreover have "totals_inv ?cu"
    using tot d wrap L(1) unfolding totals_inv_def same by (simp add: cu_step_defs)
  ultimately show ?thesis by (simp add: cu_acct_def)
qed

lemma cu_acct_give_pool:
  assumes inv: "cu_acct cu" and i: "i < XRM_MAX_KERNEL_CHANNELS" "in_use (cu_channels cu ! i)"
    and k: "k < nat (cu_numReserve cu)"
      "rs_poolId (cu_reserves cu ! k) = ch_poolId (cu_channels cu ! i)"
  shows "cu_acct (give_channel i (use_reserve k (- ch_loadUnified (cu_channels cu ! i)) cu))"
proof -
  let ?chs = "cu_channels cu" and ?L = "ch_loadUnified (cu_channels cu ! i)"
  let ?c = "clear_channel (?chs ! i)"
  let ?cu = "give_channel i (use_reserve k (- ?L) cu)"
  have ch: "chans_inv cu" and rs: "reserves_inv cu" and tot: "totals_inv cu"
    using inv by (auto simp: cu_acct_def)
  have len: "i < length ?chs" and ok: "\<forall>ch\<in>set ?chs. chan_ok ch"
    using ch i by (auto simp: chans_inv_def)
  note rok = act_reserve_ok [OF rs k(1)]
  have L: "0 \<le> ?L" "?L \<le> rs_usedLoadUnified (cu_reserves cu ! k)"
    using ok len k rok(1) pool_load_member [OF ok, of "?chs ! i"]
    by (auto simp: chan_ok_def reserve_ok_def)
  have eq: "?cu = (use_reserve k (- ?L) cu)\<lparr>cu_channels := ?chs[i := ?c],
      cu_numChanInuse := cu_numChanInuse cu - 1\<rparr>"
    by (simp add: cu_step_defs)
  have p: "pool_load (?chs[i := ?c]) p =
      pool_load ?chs p + (if p = rs_poolId (cu_reserves cu ! k) then - ?L else 0)" if "p \<noteq> 0" for p
    using len that k(2) by (auto simp: pool_load_update clear_channel_def)
  have d: "default_load (pool_ids cu) (?chs[i := ?c]) = default_load (pool_ids cu) ?chs"
    using len rok(2) k(2) zero_not_pool [OF rs]
    by (simp add: default_load_update clear_channel_def)
  have "chans_inv ?cu"
    using ch i chans_inv_give [of "use_reserve k (- ?L) cu" i]
    by (simp add: use_reserve_def chans_inv_def)
  moreover have "reserves_inv ?cu"
    unfolding eq using L reserve_bounds [OF inv k(1)] p
    by (intro reserves_inv_use [OF rs k(1)]) auto
  moreover have "totals_inv ?cu"
  proof -
    have "pool_ids ?cu = pool_ids cu" "reserved_load ?cu = reserved_load cu"
      using act_use_reserve [OF rs k(1), of "- ?L"]
      by (simp_all add: give_channel_def pool_ids_def reserved_load_def act_reserves_def)
    with tot d show ?thesis unfolding totals_inv_def by (simp add: cu_step_defs)
  qed
  ultimately show ?thesis by (simp add: cu_acct_def)
qed

section \<open>Opening, growing and closing reservations\<close>

lemma cu_acct_close:
  assumes inv: "cu_acct cu" and i: "i < nat (cu_numReserve cu)"
  shows "cu_acct (drop_reserve i (cu\<lparr>
      cu_totalUsedLoadUnified := cu_totalUsedLoadUnified cu
        - (rs_loadUnified (cu_reserves cu ! i) - rs_usedLoadUnified (cu_reserves cu ! i)),
      cu_totalReservedLoadUnified := cu_totalReservedLoadUnified cu
        - rs_loadUnified (cu_reserves cu ! i)\<rparr>))"
    (is "cu_acct ?cu")
proof -
  let ?r = "cu_reserves cu ! i" and ?chs = "cu_channels cu" and ?n = "nat (cu_numReserve cu)"
  have ch: "chans_inv cu" and rs: "reserves_inv cu" and tot: "totals_inv cu"
    using inv by (auto simp: cu_acct_def)
  have len: "length (cu_reserves cu) = XRM_MAX_KERNEL_RESERVES"
    and n: "0 \<le> cu_numReserve cu" "cu_numReserve cu \<le> int XRM_MAX_KERNEL_RESERVES"
    and nl: "?n \<le> length (cu_reserves cu)"
    and rest: "drop ?n (cu_reserves cu) = replicate (XRM_MAX_KERNEL_RESERVES - ?n) reserve0"
    and dist: "distinct (map rs_poolId (act_reserves cu))"
    and ok: "\<forall>r\<in>set (act_reserves cu). reserve_ok ?chs r"
    using rs by (auto simp: reserves_inv_def)
  note act_i = act_reserves_nth [OF rs i]
  note rok = act_reserve_ok [OF rs i]
  have n1: "nat (cu_numReserve cu - 1) = ?n - 1" by simp
  have act: "act_reserves ?cu = take i (act_reserves cu) @ drop (Suc i) (act_reserves cu)"
    using remove_slot_front(1) [OF i nl, of reserve0]
    by (simp add: act_reserves_def drop_reserve_def n1)
  have m: "map rs_poolId (act_reserves ?cu) = take i (map rs_poolId (act_reserves cu)) @
      drop (Suc i) (map rs_poolId (act_reserves cu))"
    by (simp add: act take_map drop_map)
  have il: "i < length (map rs_poolId (act_reserves cu))"
    and mi: "map rs_poolId (act_reserves cu) ! i = rs_poolId ?r" using act_i by simp_all
  have ids: "pool_ids ?cu = pool_ids cu - {rs_poolId ?r}"
    using set_take_drop_remove [OF dist il] unfolding m [symmetric] mi
    by (simp add: pool_ids_def)
  have res: "reserved_load ?cu = reserved_load cu - rs_loadUnified ?r"
    using sum_list_map_remove [of i "act_reserves cu" rs_loadUnified] act_i
    by (simp add: reserved_load_def act)
  have d: "default_load (pool_ids ?cu) ?chs = default_load (pool_ids cu) ?chs + rs_usedLoadUnified ?r"
    unfolding ids using rok default_load_remove [OF rok(2), of ?chs] by (simp add: reserve_ok_def)
  have used: "rs_usedLoadUnified ?r \<le> rs_loadUnified ?r" using rok by (simp add: reserve_ok_def)
  have "set (act_reserves ?cu) \<subseteq> set (act_reserves cu)"
    unfolding act by (auto dest: in_set_takeD in_set_dropD)
  moreover have "drop (?n - 1) (cu_reserves ?cu) =
      replicate (XRM_MAX_KERNEL_RESERVES - (?n - 1)) reserve0"
    using remove_slot_rest [OF i _ len rest] nl len by (simp add: drop_reserve_def)
  ultimately have "reserves_inv ?cu"
    using ok len n i nl distinct_take_drop_remove [OF dist il]
    unfolding reserves_inv_def m by (auto simp: drop_reserve_def n1)
  moreover have "totals_inv ?cu"
    using tot d res used by (simp add: totals_inv_def drop_reserve_def ids)
  moreover have "chans_inv ?cu" using ch by (simp add: chans_inv_def drop_reserve_def)
  ultimately show ?thesis by (simp add: cu_acct_def)
qed


lemma cu_acct_open:
  assumes inv: "cu_acct cu" and p: "p \<noteq> 0" "p \<notin> pool_ids cu"
    and fresh: "\<forall>ch\<in>set (cu_channels cu). ch_poolId ch \<noteq> p"
    and room: "cu_numReserve cu < int XRM_MAX_KERNEL_RESERVES"
    and req: "0 < pr_requestLoadUnified prop"
    and fits: "cu_totalUsedLoadUnified cu + pr_requestLoadUnified prop \<le> XRM_MAX_LOAD"
  shows "cu_acct (open_reserve p prop (add_reserved (pr_requestLoadUnified prop) cu))"
    (is "cu_acct ?cu")
proof -
  let ?n = "nat (cu_numReserve cu)" and ?chs = "cu_channels cu" and ?L = "pr_requestLoadUnified prop"
  have ch: "chans_inv cu" and rs: "reserves_inv cu" and tot: "totals_inv cu"
    using inv by (auto simp: cu_acct_def)
  have len: "length (cu_reserves cu) = XRM_MAX_KERNEL_RESERVES"
    and n: "0 \<le> cu_numReserve cu"
    and rest: "drop ?n (cu_reserves cu) = replicate (XRM_MAX_KERNEL_RESERVES - ?n) reserve0"
    using rs by (auto simp: reserves_inv_def)
  have nm: "?n < length (cu_reserves cu)" using room n len by linarith
  have at_n: "cu_reserves cu ! ?n = reserve0"
    using rest nm len by (metis Cons_nth_drop_Suc Suc_diff_Suc list.inject replicate_Suc)
  let ?r = "\<lparr> rs_poolId = p, rs_loadUnified = ?L, rs_usedLoadUnified = 0, rs_clientIsActive = True,
      rs_clientId = pr_clientId prop, rs_clientProcessId = pr_clientProcessId prop \<rparr>"
  have rw: "cu_reserves ?cu = (cu_reserves cu)[?n := ?r]" "nat (cu_numReserve ?cu) = Suc ?n"
    using n by (simp_all add: open_reserve_def add_reserved_def at_n reserve0_def)
  have act: "act_reserves ?cu = act_reserves cu @ [?r]"
    using nm unfolding act_reserves_def rw by (rule take_Suc_update)
  have ids: "pool_ids ?cu = insert p (pool_ids cu)" by (simp add: pool_ids_def act)
  have res: "reserved_load ?cu = reserved_load cu + ?L" by (simp add: reserved_load_def act)
  have d: "default_load (pool_ids ?cu) ?chs = default_load (pool_ids cu) ?chs"
    unfolding ids using p(2) fresh by (simp add: default_load_insert pool_load_absent)
  have wrap: "i32 (cu_totalUsedLoadUnified cu + ?L) = cu_totalUsedLoadUnified cu + ?L"
    "i32 (cu_totalReservedLoadUnified cu + ?L) = cu_totalReservedLoadUnified cu + ?L"
    using fits req totals_bounds [OF inv] by simp_all
  have rest': "drop (Suc ?n) (cu_reserves ?cu) = replicate (XRM_MAX_KERNEL_RESERVES - Suc ?n) reserve0"
  proof -
    have "drop (Suc ?n) (cu_reserves cu) = drop 1 (drop ?n (cu_reserves cu))" by simp
    then show ?thesis using rest by (simp add: rw(1) drop_update_cancel)
  qed
  have rok: "reserve_ok ?chs ?r"
    using p req fresh by (simp add: reserve_ok_def pool_load_absent)
  have "reserves_inv ?cu"
    using rs rok len n room p(2) rest' unfolding reserves_inv_def rw(2) act
    by (auto simp: rw(1) open_reserve_def add_reserved_def pool_ids_def Let_def)
  moreover have "totals_inv ?cu"
    using tot d res wrap fits unfolding totals_inv_def
    by (simp add: open_reserve_def add_reserved_def Let_def)
  moreover have "chans_inv ?cu"
    using ch by (simp add: chans_inv_def open_reserve_def add_reserved_def Let_def)
  ultimately show ?thesis by (simp add: cu_acct_def)
qed

lemma cu_acct_grow:
  assumes inv: "cu_acct cu" and k: "k < nat (cu_numReserve cu)" and req: "0 < d"
    and fits: "cu_totalUsedLoadUnified cu + d \<le> XRM_MAX_LOAD"
  shows "cu_acct (grow_reserve k d (add_reserved d cu))" (is "cu_acct ?cu")
proof -
  let ?r = "cu_reserves cu ! k" and ?chs = "cu_channels cu"
  have ch: "chans_inv cu" and rs: "reserves_inv cu" and tot: "totals_inv cu"
    using inv by (auto simp: cu_acct_def)
  note nth = act_reserves_nth [OF rs k]
  let ?r' = "?r\<lparr>rs_loadUnified := rs_loadUnified ?r + d\<rparr>"
  have b: "rs_loadUnified ?r \<le> cu_totalUsedLoadUnified cu"
  proof -
    have "?r \<in> set (act_reserves cu)" using nth by (metis nth_mem)
    then have "rs_loadUnified ?r \<le> reserved_load cu"
      using rs unfolding reserved_load_def
      by (intro sum_list_nonneg_member) (auto simp: reserves_inv_def reserve_ok_def less_imp_le)
    with tot totals_bounds [OF inv] show ?thesis by (simp add: totals_inv_def)
  qed
  have wrap: "i32 (cu_totalUsedLoadUnified cu + d) = cu_totalUsedLoadUnified cu + d"
    "i32 (cu_totalReservedLoadUnified cu + d) = cu_totalReservedLoadUnified cu + d"
    "i32 (rs_loadUnified ?r + d) = rs_loadUnified ?r + d"
    using fits req totals_bounds [OF inv] b reserve_bounds [OF inv k] by simp_all
  have rw: "cu_reserves ?cu = (cu_reserves cu)[k := ?r']" "cu_numReserve ?cu = cu_numReserve cu"
    "cu_channels ?cu = ?chs"
    by (simp_all add: grow_reserve_def add_reserved_def wrap)
  have act: "act_reserves ?cu = (act_reserves cu)[k := ?r']"
    by (simp add: act_reserves_def rw take_update_swap)
  have m: "map rs_poolId (act_reserves ?cu) = map rs_poolId (act_reserves cu)"
    using nth by (simp add: act map_update list_update_same_conv)
  then have ids: "pool_ids ?cu = pool_ids cu" by (simp add: pool_ids_def flip: set_map)
  have res: "reserved_load ?cu = reserved_load cu + d"
    using nth by (simp add: reserved_load_def act sum_list_map_update)
  have ok: "reserve_ok ?chs r" if "r \<in> set (act_reserves ?cu)" for r
  proof -
    have "r = ?r' \<or> r \<in> set (act_reserves cu)"
      using \<open>r \<in> set (act_reserves ?cu)\<close> unfolding act
      by (auto dest: set_update_subset_insert [THEN subsetD])
    then show ?thesis
      using rs act_reserve_ok [OF rs k] req by (auto simp: reserves_inv_def reserve_ok_def)
  qed
  have "drop (nat (cu_numReserve cu)) ((cu_reserves cu)[k := ?r']) =
      drop (nat (cu_numReserve cu)) (cu_reserves cu)"
    using k by (simp add: drop_update_cancel)
  then have "reserves_inv ?cu"
    using rs ok unfolding reserves_inv_def m rw by simp
  moreover have "totals_inv ?cu"
    using tot res wrap fits unfolding totals_inv_def ids
    by (simp add: grow_reserve_def add_reserved_def)
  moreover have "chans_inv ?cu"
    using ch by (simp add: chans_inv_def grow_reserve_def add_reserved_def)
  ultimately show ?thesis by (simp add: cu_acct_def)
qed

text \<open>A compute unit without used load has no channel in use and no reservation.\<close>

lemma idle_cu:
  assumes inv: "cu_acct cu" and idle: "cu_totalUsedLoadUnified cu = 0"
  shows "cu_numReserve cu = 0" "\<forall>ch\<in>set (cu_channels cu). \<not> in_use ch" "act_reserves cu = []"
proof -
  have ok: "\<forall>ch\<in>set (cu_channels cu). chan_ok ch" and rs: "reserves_inv cu"
    and tot: "totals_inv cu"
    using inv by (auto simp: cu_acct_def chans_inv_def)
  have z: "default_load (pool_ids cu) (cu_channels cu) = 0" "reserved_load cu = 0"
    using tot idle default_load_nonneg [OF ok, of "pool_ids cu"] reserved_load_nonneg [OF rs]
    by (auto simp: totals_inv_def)
  have "set (act_reserves cu) = {}"
  proof (rule ccontr)
    assume "set (act_reserves cu) \<noteq> {}"
    then obtain r where r: "r \<in> set (act_reserves cu)" by (metis all_not_in_conv)
    then have "rs_loadUnified r \<le> reserved_load cu"
      using rs unfolding reserved_load_def
      by (intro sum_list_nonneg_member) (auto simp: reserves_inv_def reserve_ok_def less_imp_le)
    with z r rs show False by (auto simp: reserves_inv_def reserve_ok_def)
  qed
  then show act: "act_reserves cu = []" by simp
  with rs show "cu_numReserve cu = 0"
    by (auto simp: act_reserves_def reserves_inv_def limit_pos)
  have "pool_ids cu = {}" using act by (simp add: pool_ids_def)
  then show "\<forall>ch\<in>set (cu_channels cu). \<not> in_use ch"
    using z(1) default_load_member [OF ok, of _ "{}"] ok
    by (fastforce simp: in_use_def chan_ok_def)
qed

lemma cu_acct_whole:
  assumes inv: "cu_acct cu" and idle: "cu_totalUsedLoadUnified cu = 0" and p: "p \<noteq> 0"
  shows "cu_acct (whole_reserve p c pid cu)" (is "cu_acct ?cu")
proof -
  have ch: "chans_inv cu" and rs: "reserves_inv cu" using inv by (auto simp: cu_acct_def)
  note idle_facts = idle_cu [OF inv idle]
  have free: "ch_poolId ch = 0 \<and> ch_loadUnified ch = 0" if "ch \<in> set (cu_channels cu)" for ch
    using ch idle_facts(2) that by (auto simp: chans_inv_def chan_ok_def in_use_def)
  have pl: "pool_load (cu_channels cu) p = 0" using free p by (intro pool_load_absent) auto
  have dl: "default_load {p} (cu_channels cu) = 0"
  proof -
    have "map (\<lambda>ch. if ch_poolId ch \<in> {p} then 0 else ch_loadUnified ch) (cu_channels cu) =
        map (\<lambda>ch. 0) (cu_channels cu)"
      using free by (intro map_cong) auto
    then show ?thesis by (simp only: default_load_def sum_list_0)
  qed
  have len: "length (cu_reserves cu) = XRM_MAX_KERNEL_RESERVES"
    and all0: "cu_reserves cu = replicate XRM_MAX_KERNEL_RESERVES reserve0"
    using rs idle_facts(1) by (auto simp: reserves_inv_def)
  let ?r = "\<lparr> rs_poolId = p, rs_loadUnified = XRM_MAX_LOAD, rs_usedLoadUnified = 0,
      rs_clientIsActive = True, rs_clientId = c, rs_clientProcessId = pid \<rparr>"
  have act: "act_reserves ?cu = [?r]"
    using len take_Suc_update [of 0 "cu_reserves cu" ?r]
    by (simp add: act_reserves_def whole_reserve_def limit_pos)
  have rest: "drop 1 (cu_reserves ?cu) = replicate (XRM_MAX_KERNEL_RESERVES - 1) reserve0"
    by (simp add: whole_reserve_def all0 drop_update_cancel)
  have "reserves_inv ?cu"
    using len p pl rest unfolding reserves_inv_def act
    by (auto simp: reserve_ok_def whole_reserve_def limit_pos)
  moreover have "totals_inv ?cu"
    using dl by (simp add: totals_inv_def reserved_load_def pool_ids_def act)
      (simp add: whole_reserve_def)
  moreover have "chans_inv ?cu" using ch by (simp add: chans_inv_def whole_reserve_def)
  ultimately show ?thesis by (simp add: cu_acct_def)
qed

section \<open>No compute unit is ever oversubscribed\<close>

text \<open>
  Under the accounting invariant the loads of all channels, whichever pool they come from, sum up to
  no more than the capacity of the compute unit.
\<close>

lemma cu_acct_capacity:
  assumes inv: "cu_acct cu"
  shows "sum_list (map ch_loadUnified (cu_channels cu)) \<le> XRM_MAX_LOAD"
proof -
  let ?chs = "cu_channels cu" and ?ps = "map rs_poolId (act_reserves cu)"
  have rs: "reserves_inv cu" and tot: "totals_inv cu" using inv by (auto simp: cu_acct_def)
  have dist: "distinct ?ps" using rs by (simp add: reserves_inv_def)
  have "sum_list (map (pool_load ?chs) ?ps) \<le> reserved_load cu"
    using rs unfolding reserved_load_def map_map o_def
    by (intro sum_list_mono) (auto simp: reserves_inv_def reserve_ok_def)
  then show ?thesis
    using total_load_split [OF dist, of ?chs] tot by (simp add: totals_inv_def pool_ids_def)
qed

end
