(* ===== verification/Xrm_Device.thy ===== *)
theory Xrm_Device
  imports Xrm_Cu_Inv
begin

text \<open>
  Devices and the system state around them: the device load (\<open>updateDeviceLoad\<close>), the clients
  registered on a device (\<open>allocClientFromDev\<close>, \<open>releaseClientOnDev\<close>), the search for the next device
  a client may use (\<open>allocDevForClient\<close>), the identifiers the system hands out, the number of
  concurrent clients, and the small device predicates. The system invariant \<open>sys_inv\<close> is defined
  here: the array sizes, the invariant of every compute unit of every device, and that no fault
  (division by zero, array index out of range) has happened.
\<close>

section \<open>Device load\<close>

text \<open>
  \<open>system::updateDeviceLoad\<close> and \<open>deviceData::updateDeviceLoad\<close>. The load itself is 64 bits wide and
  bounded by \<open>numCu * 1000000\<close>; the divisor is computed in 32 bits, and a device without compute
  units divides by zero.
\<close>

definition updateDeviceLoad :: "int \<Rightarrow> int \<Rightarrow> int \<Rightarrow> system \<Rightarrow> system" where
  "updateDeviceLoad devId loadChangeVal setCurLoadVal s =
     (if devId < 0 \<or> devId \<ge> int (length (m_devList s)) then fault s
      else let dev = dev_at s (nat devId);
               cur = (if setCurLoadVal \<ge> 0 then setCurLoadVal
                      else li_devCurrentLoad (dv_devLoadInfo dev) + loadChangeVal);
               total = i32 (numCu dev * XRM_MAX_LOAD)
           in if total = 0 then fault s
              else upd_dev (nat devId) (\<lambda>dev. dev\<lparr>dv_devLoadInfo := (dv_devLoadInfo dev)\<lparr>
                     li_devCurrentLoad := cur,
                     li_devLoadRate := i32 ((cur * 1000) sdiv total)\<rparr>\<rparr>) s)"

section \<open>Clients registered on a device\<close>

text \<open>The part of \<open>allocClientFromDev\<close> that works on the device once the id is checked.\<close>

definition dev_alloc_client :: "cuProperty \<Rightarrow> deviceData \<Rightarrow> int \<times> deviceData" where
  "dev_alloc_client prop dev =
     (let clientId = pr_clientId prop; procs = dv_clientProcs dev;
          found = (\<lambda>i. cl_clientId (procs ! i) = clientId);
          incref = (\<lambda>i. procs[i := (procs ! i)\<lparr>cl_ref := cl_ref (procs ! i) + 1\<rparr>]);
          new = (\<lambda>ref. \<lparr> cl_clientId = clientId, cl_clientProcessId = pr_clientProcessId prop,
                          cl_ref = ref \<rparr>)
      in if dv_isExcl dev then
           (if found 0 then (XRM_SUCCESS, dev\<lparr>dv_clientProcs := incref 0\<rparr>)
            else (XRM_ERROR_NO_DEV, dev))
         else if pr_devExcl prop then
           (if \<exists>i\<in>set [0..<XRM_MAX_DEV_CLIENTS]. cl_clientId (procs ! i) \<noteq> 0 \<and> \<not> found i
            then (XRM_ERROR_NO_DEV, dev)
            else let ref = fold (\<lambda>i r. if found i then cl_ref (procs ! i) else r)
                             [0..<XRM_MAX_DEV_CLIENTS] 0
                 in (XRM_SUCCESS, dev\<lparr>dv_isExcl := True,
                       dv_clientProcs := (replicate XRM_MAX_DEV_CLIENTS client0)[0 := new (ref + 1)]\<rparr>))
         else case first_index XRM_MAX_DEV_CLIENTS found of
                Some i \<Rightarrow> (XRM_SUCCESS, dev\<lparr>dv_clientProcs := incref i\<rparr>)
              | None \<Rightarrow>
                 (case first_index XRM_MAX_DEV_CLIENTS (\<lambda>i. cl_clientId (procs ! i) = 0) of
                    Some i \<Rightarrow> (XRM_SUCCESS, dev\<lparr>dv_clientProcs := procs[i := new 1]\<rparr>)
                  | None \<Rightarrow> (XRM_ERROR_NO_DEV, dev)))"

definition allocClientFromDev :: "int \<Rightarrow> cuProperty \<Rightarrow> system \<Rightarrow> int \<times> system" where
  "allocClientFromDev devId prop s =
     (if devId < 0 \<or> devId \<ge> m_numDevice s then (XRM_ERROR_INVALID, s)
      else case dev_alloc_client prop (dev_at s (nat devId)) of
             (ret, dev) \<Rightarrow> (ret, upd_dev (nat devId) (\<lambda>_. dev) s))"

text \<open>\<open>releaseClientOnDev\<close>.\<close>

definition unref_client :: "clientData \<Rightarrow> clientData" where
  "unref_client c =
     (let c = c\<lparr>cl_ref := cl_ref c - 1\<rparr>
      in if cl_ref c = 0 then c\<lparr>cl_clientId := 0, cl_clientProcessId := 0\<rparr> else c)"

definition dev_release_client :: "u64 \<Rightarrow> deviceData \<Rightarrow> int \<times> deviceData" where
  "dev_release_client clientId dev =
     (let procs = dv_clientProcs dev
      in if \<not> dv_isLoaded dev then (XRM_ERROR_NO_DEV, dev)
         else if dv_isExcl dev then
           (if cl_clientId (procs ! 0) \<noteq> clientId then (XRM_ERROR_INVALID, dev)
            else (XRM_SUCCESS, dev\<lparr>
                    dv_isExcl := (cl_ref (procs ! 0) - 1 \<noteq> 0),
                    dv_clientProcs := procs[0 := unref_client (procs ! 0)]\<rparr>))
         else case first_index XRM_MAX_DEV_CLIENTS (\<lambda>i. cl_clientId (procs ! i) = clientId) of
                Some i \<Rightarrow> (XRM_SUCCESS, dev\<lparr>dv_clientProcs := procs[i := unref_client (procs ! i)]\<rparr>)
              | None \<Rightarrow> (XRM_ERROR_INVALID, dev))"

definition releaseClientOnDev :: "int \<Rightarrow> u64 \<Rightarrow> system \<Rightarrow> int \<times> system" where
  "releaseClientOnDev devId clientId s =
     (if devId < 0 \<or> devId \<ge> m_numDevice s then (XRM_ERROR_INVALID, s)
      else case dev_release_client clientId (dev_at s (nat devId)) of
             (ret, dev) \<Rightarrow> (ret, upd_dev (nat devId) (\<lambda>_. dev) s))"

section \<open>The next device for a client\<close>

definition dev_usable :: "system \<Rightarrow> u64 \<Rightarrow> nat \<Rightarrow> bool" where
  "dev_usable s clientId i \<longleftrightarrow>
     (let dev = dev_at s i
      in dv_isLoaded dev \<and> (dv_isExcl dev \<longrightarrow> cl_clientId (dv_clientProcs dev ! 0) = clientId))"

text \<open>\<open>getNextFreeDevForClient\<close>: the result code and the new value of \<open>*devId\<close>.\<close>

definition getNextFreeDevForClient :: "int \<Rightarrow> cuProperty \<Rightarrow> system \<Rightarrow> int \<times> int" where
  "getNextFreeDevForClient devId prop s =
     (case find (dev_usable s (pr_clientId prop))
             [(if devId \<ge> 0 then nat (devId + 1) else 0)..<nat (m_numDevice s)] of
        Some i \<Rightarrow> (XRM_SUCCESS, int i)
      | None \<Rightarrow> (XRM_ERROR_NO_DEV, devId))"

definition allocDevForClient :: "int \<Rightarrow> cuProperty \<Rightarrow> system \<Rightarrow> int" where
  "allocDevForClient devId prop s =
     (if devId < m_numDevice s
      then case getNextFreeDevForClient devId prop s of
             (ret, devId') \<Rightarrow> if ret < 0 then ret else devId'
      else XRM_ERROR)"

text \<open>
  \<open>for (devId = -1; !acquired && devId < m_numDevice;) { devId = allocDevForClient(&devId, cuProp);
  if (devId < 0) break; ... }\<close>, the loop every search over the devices uses, with a bound on
  the number of iterations; \<open>search_devices\<close> starts it with a bound that is never reached
  (lemma \<open>dev_search_fuel\<close>).
\<close>

fun dev_search :: "nat \<Rightarrow> (nat \<Rightarrow> 'a \<times> system \<Rightarrow> bool \<times> 'a \<times> system) \<Rightarrow> cuProperty \<Rightarrow> int \<Rightarrow>
    'a \<times> system \<Rightarrow> bool \<times> 'a \<times> system" where
  "dev_search 0 body prop devId st = (False, st)"
| "dev_search (Suc fuel) body prop devId st =
     (if devId < m_numDevice (snd st)
      then let devId' = allocDevForClient devId prop (snd st)
           in if devId' < 0 then (False, st)
              else case body (nat devId') st of
                     (acquired, st') \<Rightarrow>
                       if acquired then (True, st') else dev_search fuel body prop devId' st'
      else (False, st))"

definition search_devices :: "(nat \<Rightarrow> 'a \<times> system \<Rightarrow> bool \<times> 'a \<times> system) \<Rightarrow> cuProperty \<Rightarrow>
    'a \<times> system \<Rightarrow> bool \<times> 'a \<times> system" where
  "search_devices body prop st = dev_search (Suc (nat (m_numDevice (snd st)))) body prop (- 1) st"

section \<open>Device predicates\<close>

definition isDeviceLoaded :: "int \<Rightarrow> system \<Rightarrow> bool" where
  "isDeviceLoaded devId s =
     (if devId \<ge> 0 \<and> devId < m_numDevice s then dv_isLoaded (dev_at s (nat devId)) else False)"

definition isDeviceLoadedXclbinWithUuid :: "int \<Rightarrow> u8 list \<Rightarrow> system \<Rightarrow> bool" where
  "isDeviceLoadedXclbinWithUuid devId uuid s =
     (if devId \<ge> 0 \<and> devId < m_numDevice s
      then list_all (\<lambda>i. xb_uuid (dv_xclbinInfo (dev_at s (nat devId))) ! i = uuid ! i) [0..<16]
      else False)"

definition isDeviceBusy :: "int \<Rightarrow> system \<Rightarrow> bool" where
  "isDeviceBusy devId s =
     (if devId \<ge> 0 \<and> devId < m_numDevice s
      then list_ex (\<lambda>cuId. cu_totalUsedLoadUnified (cu_at s (nat devId) cuId) \<noteq> 0)
             [0..<nat (numCu (dev_at s (nat devId)))]
      else False)"

section \<open>Identifiers and concurrent clients\<close>

definition getNewClientId :: "system \<Rightarrow> u64 \<times> system" where
  "getNewClientId s =
     (let clientId = (if m_clientId s = 0xFFFFFFFFFFFFFFFF then 1 else m_clientId s + 1)
      in (clientId, s\<lparr>m_clientId := clientId\<rparr>))"

definition getNextAllocServiceId :: "system \<Rightarrow> u64" where
  "getNextAllocServiceId s =
     (if m_allocServiceId s = 0xFFFFFFFFFFFFFFFF then 1 else m_allocServiceId s + 1)"

definition updateAllocServiceId :: "system \<Rightarrow> system" where
  "updateAllocServiceId s = s\<lparr>m_allocServiceId :=
     (if m_allocServiceId s = 0xFFFFFFFFFFFFFFFF then 1 else m_allocServiceId s + 1)\<rparr>"

definition getNextReservePoolId :: "system \<Rightarrow> u64" where
  "getNextReservePoolId s =
     (if m_reservePoolId s = 0xFFFFFFFFFFFFFFFF then 1 else m_reservePoolId s + 1)"

definition updateReservePoolId :: "system \<Rightarrow> system" where
  "updateReservePoolId s = s\<lparr>m_reservePoolId :=
     (if m_reservePoolId s = 0xFFFFFFFFFFFFFFFF then 1 else m_reservePoolId s + 1)\<rparr>"

definition incNumConcurrentClient :: "system \<Rightarrow> bool \<times> system" where
  "incNumConcurrentClient s =
     (if m_numConcurrentClient s < m_limitConcurrentClient s
      then (True, s\<lparr>m_numConcurrentClient := m_numConcurrentClient s + 1\<rparr>)
      else (False, s))"

definition decNumConcurrentClient :: "system \<Rightarrow> bool \<times> system" where
  "decNumConcurrentClient s =
     (if m_numConcurrentClient s > 0
      then (True, s\<lparr>m_numConcurrentClient := m_numConcurrentClient s - 1\<rparr>)
      else (False, s))"

section \<open>The system invariant\<close>

text \<open>
  The array of an unloaded device is blank, so that a load starts from it, and its buffer is never one that was
  freed already. The arrays of all devices have their size, also those of devices the driver did not report;
  there are no devices before they are initialised.
\<close>

definition blank_slot :: "cuData \<Rightarrow> bool" where
  "blank_slot cu \<longleftrightarrow> cu_clients cu = replicate XRM_MAX_KERNEL_CHANNELS 0 \<and> cu_totalUsedLoadUnified cu = 0"

definition dev_inv :: "nat \<Rightarrow> deviceData \<Rightarrow> bool" where
  "dev_inv d dev \<longleftrightarrow>
     length (cuList dev) = XRM_MAX_XILINX_KERNELS \<and>
     length (dv_clientProcs dev) = XRM_MAX_DEV_CLIENTS \<and>
     0 \<le> numCu dev \<and> numCu dev \<le> int XRM_MAX_XILINX_KERNELS \<and>
     (dv_isLoaded dev \<longleftrightarrow> 0 < numCu dev) \<and>
     (\<forall>c<nat (numCu dev). cu_inv (cuList dev ! c) \<and> cu_deviceId (cuList dev ! c) = int d) \<and>
     dv_memBuffer dev \<noteq> Freed \<and> (\<not> dv_isLoaded dev \<longrightarrow> (\<forall>cu\<in>set (cuList dev). blank_slot cu))"

definition sys_inv :: "system \<Rightarrow> bool" where
  "sys_inv s \<longleftrightarrow> length (m_devList s) = XRM_MAX_XILINX_DEVICES \<and>
     0 \<le> m_numDevice s \<and> m_numDevice s \<le> int XRM_MAX_XILINX_DEVICES \<and>
     (\<forall>d<XRM_MAX_XILINX_DEVICES. length (cuList (dev_at s d)) = XRM_MAX_XILINX_KERNELS) \<and>
     (\<forall>d<nat (m_numDevice s). dev_inv d (dev_at s d)) \<and> \<not> m_fault s \<and>
     (\<not> m_devicesInited s \<longrightarrow> m_numDevice s = 0)"

text \<open>The load a device reports is the sum over its compute units.\<close>

definition cu_load_sum :: "deviceData \<Rightarrow> int" where
  "cu_load_sum dev = sum_list (map cu_totalUsedLoadUnified (take (nat (numCu dev)) (cuList dev)))"

definition dev_load_ok :: "deviceData \<Rightarrow> bool" where
  "dev_load_ok dev \<longleftrightarrow> li_devCurrentLoad (dv_devLoadInfo dev) = cu_load_sum dev"

definition load_inv :: "system \<Rightarrow> bool" where
  "load_inv s \<longleftrightarrow> (\<forall>d<nat (m_numDevice s). dev_load_ok (dev_at s d))"

text \<open>
  Two system states that agree on everything but the clients registered on devices and the device
  loads: what the client registration and the load bookkeeping leave alone.
\<close>

definition same_cus :: "system \<Rightarrow> system \<Rightarrow> bool" where
  "same_cus s s' \<longleftrightarrow> length (m_devList s') = length (m_devList s) \<and>
     m_numDevice s' = m_numDevice s \<and> m_fault s' = m_fault s \<and>
     m_allocServiceId s' = m_allocServiceId s \<and> m_reservePoolId s' = m_reservePoolId s \<and>
     m_devicesInited s' = m_devicesInited s \<and>
     (\<forall>d. dv_xclbinInfo (dev_at s' d) = dv_xclbinInfo (dev_at s d) \<and>
          dv_isLoaded (dev_at s' d) = dv_isLoaded (dev_at s d) \<and>
          dv_isDisabled (dev_at s' d) = dv_isDisabled (dev_at s d) \<and>
          dv_memBuffer (dev_at s' d) = dv_memBuffer (dev_at s d) \<and>
          length (dv_clientProcs (dev_at s' d)) = length (dv_clientProcs (dev_at s d)))"

lemma same_cus_refl [simp]: "same_cus s s"
  by (simp add: same_cus_def)

lemma same_cus_trans: "same_cus s t \<Longrightarrow> same_cus t u \<Longrightarrow> same_cus s u"
  by (simp add: same_cus_def)

lemma same_cus_dev:
  "same_cus s s' \<Longrightarrow> numCu (dev_at s' d) = numCu (dev_at s d) \<and>
     cuList (dev_at s' d) = cuList (dev_at s d) \<and> cu_ids (dev_at s' d) = cu_ids (dev_at s d) \<and>
     cu_at s' d c = cu_at s d c"
  by (simp add: same_cus_def numCu_def cuList_def cu_ids_def cu_at_def)

lemma same_cus_sys_inv: "same_cus s s' \<Longrightarrow> sys_inv s \<Longrightarrow> sys_inv s'"
  using same_cus_dev [of s s']
  unfolding sys_inv_def dev_inv_def by (simp add: same_cus_def)

lemma same_cus_upd_dev:
  assumes "dv_xclbinInfo (f (dev_at s d)) = dv_xclbinInfo (dev_at s d)"
    "dv_isLoaded (f (dev_at s d)) = dv_isLoaded (dev_at s d)"
    "dv_isDisabled (f (dev_at s d)) = dv_isDisabled (dev_at s d)"
    "length (dv_clientProcs (f (dev_at s d))) = length (dv_clientProcs (dev_at s d))"
    "dv_memBuffer (f (dev_at s d)) = dv_memBuffer (dev_at s d)"
  shows "same_cus s (upd_dev d f s)"
  using assms by (auto simp: same_cus_def dev_at_upd_dev)

text \<open>\<open>load_inv\<close> depends only on the loads and the compute units.\<close>

definition same_loads :: "system \<Rightarrow> system \<Rightarrow> bool" where
  "same_loads s s' \<longleftrightarrow> (\<forall>d. dv_devLoadInfo (dev_at s' d) = dv_devLoadInfo (dev_at s d))"

lemma same_loads_inv: "same_cus s s' \<Longrightarrow> same_loads s s' \<Longrightarrow> load_inv s \<Longrightarrow> load_inv s'"
  using same_cus_dev [of s s']
  by (simp add: load_inv_def dev_load_ok_def cu_load_sum_def same_loads_def same_cus_def)

lemma sys_inv_dev:
  "sys_inv s \<Longrightarrow> int d < m_numDevice s \<Longrightarrow> dev_inv d (dev_at s d) \<and> d < length (m_devList s)"
  by (auto simp: sys_inv_def limit_pos nat_less_iff)

lemma sys_inv_cu:
  "sys_inv s \<Longrightarrow> int d < m_numDevice s \<Longrightarrow> int c < numCu (dev_at s d) \<Longrightarrow>
   cu_inv (cu_at s d c) \<and> cu_deviceId (cu_at s d c) = int d \<and>
   d < length (m_devList s) \<and> c < length (cuList (dev_at s d)) \<and> c < XRM_MAX_XILINX_KERNELS"
  by (frule (1) sys_inv_dev) (auto simp: dev_inv_def cu_at_def)

lemma sys_inv_upd_cu:
  assumes "sys_inv s" "int d < m_numDevice s" "int c < numCu (dev_at s d)"
    and "cu_inv (f (cu_at s d c))" "cu_deviceId (f (cu_at s d c)) = cu_deviceId (cu_at s d c)"
  shows "sys_inv (upd_cu d c f s)"
proof -
  have "dev_inv d (dev_upd_cu c f (dev_at s d))"
    using sys_inv_dev [OF assms(1,2)] assms(3-5)
    by (auto simp: dev_inv_def cuList_dev_upd_cu nth_list_update cu_at_def)
  moreover have "\<forall>d'<XRM_MAX_XILINX_DEVICES. length (cuList (dev_at (upd_cu d c f s) d')) = XRM_MAX_XILINX_KERNELS"
    using assms(1) by (simp add: sys_inv_def dev_at_upd_cu)
  ultimately show ?thesis using assms(1) by (auto simp: sys_inv_def dev_at_upd_cu)
qed

section \<open>Frame lemmas\<close>

lemma dev_alloc_client_frame:
  assumes "dev_alloc_client prop dev = (ret, dev')"
    and "length (dv_clientProcs dev) = XRM_MAX_DEV_CLIENTS"
  shows "dv_xclbinInfo dev' = dv_xclbinInfo dev" "dv_isLoaded dev' = dv_isLoaded dev"
    "dv_isDisabled dev' = dv_isDisabled dev" "dv_devLoadInfo dev' = dv_devLoadInfo dev"
    "length (dv_clientProcs dev') = length (dv_clientProcs dev)" "dv_memBuffer dev' = dv_memBuffer dev"
  using assms
  by (auto simp: dev_alloc_client_def Let_def split: if_splits option.splits)

lemma dev_release_client_frame:
  assumes "dev_release_client c dev = (ret, dev')"
  shows "dv_xclbinInfo dev' = dv_xclbinInfo dev" "dv_isLoaded dev' = dv_isLoaded dev"
    "dv_isDisabled dev' = dv_isDisabled dev" "dv_devLoadInfo dev' = dv_devLoadInfo dev"
    "length (dv_clientProcs dev') = length (dv_clientProcs dev)" "dv_memBuffer dev' = dv_memBuffer dev"
  using assms
  by (auto simp: dev_release_client_def Let_def split: if_splits option.splits)

lemma allocClientFromDev_frame:
  assumes "sys_inv s" "allocClientFromDev devId prop s = (ret, s')"
  shows "same_cus s s'" "same_loads s s'"
proof -
  show "same_cus s s'"
  proof (cases "devId < 0 \<or> devId \<ge> m_numDevice s")
    case True
    with assms(2) show ?thesis by (simp add: allocClientFromDev_def)
  next
    case False
    then have "dev_inv (nat devId) (dev_at s (nat devId))" using sys_inv_dev [OF assms(1)] by simp
    then show ?thesis
      using assms(2) False
      by (auto simp: allocClientFromDev_def dev_inv_def split: prod.splits
        intro!: same_cus_upd_dev dest: dev_alloc_client_frame)
  qed
  show "same_loads s s'"
  proof (cases "devId < 0 \<or> devId \<ge> m_numDevice s")
    case True
    with assms(2) show ?thesis by (simp add: allocClientFromDev_def same_loads_def)
  next
    case False
    then have "dev_inv (nat devId) (dev_at s (nat devId))" using sys_inv_dev [OF assms(1)] by simp
    then show ?thesis
      using assms(2) False
      by (auto simp: allocClientFromDev_def dev_inv_def same_loads_def dev_at_upd_dev
        split: prod.splits dest: dev_alloc_client_frame)
  qed
qed

lemma releaseClientOnDev_frame:
  assumes "releaseClientOnDev devId c s = (ret, s')"
  shows "same_cus s s'" "same_loads s s'"
  using assms
  by (auto simp: releaseClientOnDev_def same_loads_def dev_at_upd_dev split: prod.splits if_splits
    intro!: same_cus_upd_dev dest: dev_release_client_frame)

lemma updateDeviceLoad_frame:
  assumes "0 \<le> devId" "nat devId < length (m_devList s)"
    and "0 < numCu (dev_at s (nat devId))" "numCu (dev_at s (nat devId)) \<le> int XRM_MAX_XILINX_KERNELS"
  shows "same_cus s (updateDeviceLoad devId inc setv s)"
    "dv_clientProcs (dev_at (updateDeviceLoad devId inc setv s) d) = dv_clientProcs (dev_at s d)"
    "dv_isExcl (dev_at (updateDeviceLoad devId inc setv s) d) = dv_isExcl (dev_at s d)"
    "li_devCurrentLoad (dv_devLoadInfo (dev_at (updateDeviceLoad devId inc setv s) d)) =
       (if d = nat devId then (if setv \<ge> 0 then setv
          else li_devCurrentLoad (dv_devLoadInfo (dev_at s d)) + inc)
        else li_devCurrentLoad (dv_devLoadInfo (dev_at s d)))"
proof -
  have "i32 (numCu (dev_at s (nat devId)) * XRM_MAX_LOAD) = numCu (dev_at s (nat devId)) * XRM_MAX_LOAD"
    using assms(3,4) by (intro i32_id) (auto simp: limit_pos)
  then have nz: "i32 (numCu (dev_at s (nat devId)) * XRM_MAX_LOAD) \<noteq> 0"
    using assms(3) by simp
  have rng: "\<not> (devId < 0 \<or> devId \<ge> int (length (m_devList s)))" using assms(1,2) by auto
  show "same_cus s (updateDeviceLoad devId inc setv s)"
    "dv_clientProcs (dev_at (updateDeviceLoad devId inc setv s) d) = dv_clientProcs (dev_at s d)"
    "dv_isExcl (dev_at (updateDeviceLoad devId inc setv s) d) = dv_isExcl (dev_at s d)"
    "li_devCurrentLoad (dv_devLoadInfo (dev_at (updateDeviceLoad devId inc setv s) d)) =
       (if d = nat devId then (if setv \<ge> 0 then setv
          else li_devCurrentLoad (dv_devLoadInfo (dev_at s d)) + inc)
        else li_devCurrentLoad (dv_devLoadInfo (dev_at s d)))"
    using rng nz assms(2)
    by (auto simp: updateDeviceLoad_def Let_def dev_at_upd_dev intro!: same_cus_upd_dev)
qed


section \<open>The search over devices\<close>

lemma allocDevForClient_spec:
  assumes "allocDevForClient devId prop s = d" "0 \<le> d"
  shows "d < m_numDevice s" "devId < d" "dev_usable s (pr_clientId prop) (nat d)"
proof -
  let ?lo = "if devId \<ge> 0 then nat (devId + 1) else 0"
  obtain i where i: "find (dev_usable s (pr_clientId prop)) [?lo..<nat (m_numDevice s)] = Some i"
    and d: "d = int i" and lt: "devId < m_numDevice s"
    using assms
    by (auto simp: allocDevForClient_def getNextFreeDevForClient_def split: if_splits option.splits)
  obtain k where k: "k < length [?lo..<nat (m_numDevice s)]"
      "dev_usable s (pr_clientId prop) ([?lo..<nat (m_numDevice s)] ! k)"
      "i = [?lo..<nat (m_numDevice s)] ! k"
    using i unfolding find_Some_iff by blast
  then have "?lo \<le> i" "i < nat (m_numDevice s)" by auto
  then show "d < m_numDevice s" "devId < d" using d lt by (auto split: if_splits)
  have "nat d = i" using d by simp
  with k show "dev_usable s (pr_clientId prop) (nat d)" by metis
qed

lemma allocDevForClient_ge: "allocDevForClient devId prop s < 0 \<or> 0 \<le> allocDevForClient devId prop s"
  by linarith

text \<open>
  A body that tries one device. While it does not acquire it keeps the number of devices and a
  property \<open>P\<close> of the result so far and the system; when it acquires it establishes \<open>Q\<close>. The laws the searches of the
  allocation and reservation operations rely on are proved once, here.
\<close>

locale device_body =
  fixes body :: "nat \<Rightarrow> 'a \<times> system \<Rightarrow> bool \<times> 'a \<times> system"
    and P Q :: "'a \<Rightarrow> system \<Rightarrow> bool"
    and clientId :: u64
  assumes reject: "P a s \<Longrightarrow> int d < m_numDevice s \<Longrightarrow> dev_usable s clientId d \<Longrightarrow>
      body d (a, s) = (False, a', s') \<Longrightarrow> P a' s' \<and> m_numDevice s' = m_numDevice s"
    and accept: "P a s \<Longrightarrow> int d < m_numDevice s \<Longrightarrow> dev_usable s clientId d \<Longrightarrow>
      body d (a, s) = (True, a', s') \<Longrightarrow> Q a' s'"
begin

lemma dev_search_inv:
  assumes "P a s" "pr_clientId prop = clientId"
    and "dev_search fuel body prop devId (a, s) = (b, a', s')"
  shows "if b then Q a' s' else P a' s'"
  using assms
proof (induction fuel arbitrary: devId a s)
  case (Suc fuel)
  let ?d = "allocDevForClient devId prop s"
  show ?case
  proof (cases "devId < m_numDevice s \<and> 0 \<le> ?d")
    case False
    with Suc.prems show ?thesis by (auto simp: Let_def split: if_splits)
  next
    case True
    obtain b1 a1 s1 where b1: "body (nat ?d) (a, s) = (b1, a1, s1)" by (metis prod_cases3)
    note spec = allocDevForClient_spec [OF refl, of devId "prop" s]
    have d: "int (nat ?d) < m_numDevice s" "dev_usable s clientId (nat ?d)"
      using spec True Suc.prems(2) by auto
    show ?thesis
    proof (cases b1)
      case b: True
      have "Q a1 s1" using accept [OF Suc.prems(1) d] b1 b by simp
      with b1 b Suc.prems(3) True show ?thesis by (simp add: Let_def)
    next
      case b: False
      have P1: "P a1 s1" using reject [OF Suc.prems(1) d] b1 b by simp
      from b1 b Suc.prems(3) True
      have "dev_search fuel body prop ?d (a1, s1) = (b, a', s')" by (simp add: Let_def)
      with P1 Suc.IH [of a1 s1 ?d] Suc.prems(2) show ?thesis by simp
    qed
  qed
qed simp

lemma search_devices_inv:
  assumes "P a s" "pr_clientId prop = clientId" "search_devices body prop (a, s) = (b, a', s')"
  shows "if b then Q a' s' else P a' s'"
  using dev_search_inv [OF assms(1,2)] assms(3) unfolding search_devices_def by blast

text \<open>
  The bound on the iterations is never reached: from the start of the search, any larger bound gives
  the same result, so the bounded loop is the loop of the code.
\<close>

lemma dev_search_fuel:
  assumes "P a s" "pr_clientId prop = clientId" "- 1 \<le> devId"
    and "nat (m_numDevice s - devId) \<le> fuel" "nat (m_numDevice s - devId) \<le> fuel'"
  shows "dev_search fuel body prop devId (a, s) = dev_search fuel' body prop devId (a, s)"
  using assms
proof (induction fuel arbitrary: fuel' devId a s)
  case 0
  then show ?case by (cases fuel') auto
next
  case (Suc fuel)
  let ?d = "allocDevForClient devId prop s"
  show ?case
  proof (cases "devId < m_numDevice s \<and> 0 \<le> ?d")
    case False
    then show ?thesis using Suc.prems by (cases fuel') (auto simp: Let_def)
  next
    case True
    with Suc.prems obtain g where g: "fuel' = Suc g" by (cases fuel') auto
    obtain b1 a1 s1 where b1: "body (nat ?d) (a, s) = (b1, a1, s1)" by (metis prod_cases3)
    note spec = allocDevForClient_spec [OF refl, of devId "prop" s]
    have "dev_search fuel body prop ?d (a1, s1) = dev_search g body prop ?d (a1, s1)" if b: "\<not> b1"
    proof -
      have "P a1 s1 \<and> m_numDevice s1 = m_numDevice s"
        using reject [OF Suc.prems(1), of "nat ?d" a1 s1] spec True Suc.prems(2) b1 b by auto
      then show ?thesis using spec True Suc.prems g by (intro Suc.IH) auto
    qed
    with b1 True g show ?thesis by (cases b1) (simp_all add: Let_def)
  qed
qed

lemma search_devices_fuel:
  assumes "P a s" "pr_clientId prop = clientId"
  shows "search_devices body prop (a, s) =
     dev_search (Suc (nat (m_numDevice s)) + extra) body prop (- 1) (a, s)"
  unfolding search_devices_def snd_conv using assms by (intro dev_search_fuel) auto

end

section \<open>Identifier counters\<close>

text \<open>
  The three counters share one contract: the next value is the successor in \<open>1 .. 2^64 - 1\<close>, and
  handing it out stores it.
\<close>

locale id_counter =
  fixes cur :: "system \<Rightarrow> u64" and peek :: "system \<Rightarrow> u64" and bump :: "system \<Rightarrow> system"
  assumes peek_eq: "peek s = (if cur s = 0xFFFFFFFFFFFFFFFF then 1 else cur s + 1)"
    and cur_bump: "cur (bump s) = peek s"
begin

lemma unat_peek: "unat (peek s) = (if unat (cur s) = 2 ^ 64 - 1 then 1 else unat (cur s) + 1)"
proof -
  have "unat (cur s) < 2 ^ 64" using unsigned_less [of "cur s"] by simp
  moreover have "cur s = 0xFFFFFFFFFFFFFFFF \<longleftrightarrow> unat (cur s) = 2 ^ 64 - 1"
    by (simp add: word_unat_eq_iff)
  ultimately show ?thesis by (simp add: peek_eq unat_plus_if')
qed

lemma peek_nonzero: "peek s \<noteq> 0"
proof -
  have "unat (peek s) \<noteq> 0" by (simp add: unat_peek)
  then show ?thesis by (simp add: unat_eq_zero)
qed

text \<open>After \<open>n + 1\<close> issues the identifier is known, and it is never 0.\<close>

lemma unat_cur_bumps:
  "unat (cur ((bump ^^ Suc n) s)) = (unat (peek s) - 1 + n) mod (2 ^ 64 - 1) + 1"
proof (induction n)
  case 0
  have "unat (peek s) < 2 ^ 64" using unsigned_less [of "peek s"] by simp
  moreover have "unat (peek s) \<noteq> 0" by (simp add: unat_peek)
  ultimately show ?case by (simp add: cur_bump)
next
  case (Suc n)
  let ?M = "2 ^ 64 - 1 :: nat" and ?a = "unat (peek s) - 1"
  have lt: "(?a + n) mod ?M < ?M" by simp
  have "unat (cur ((bump ^^ Suc (Suc n)) s)) =
      (if (?a + n) mod ?M + 1 = ?M then 1 else (?a + n) mod ?M + 2)"
    using Suc.IH by (simp add: cur_bump unat_peek)
  also have "\<dots> = (?a + Suc n) mod ?M + 1"
    using lt by (simp add: mod_Suc)
  finally show ?case .
qed

text \<open>The identifiers of \<open>2^64 - 1\<close> consecutive issues are pairwise different.\<close>

lemma bumps_inj:
  assumes "cur ((bump ^^ Suc m) s) = cur ((bump ^^ Suc n) s)" "m < 2 ^ 64 - 1" "n < 2 ^ 64 - 1"
  shows "m = n"
proof -
  let ?M = "2 ^ 64 - 1 :: nat" and ?a = "unat (peek s) - 1"
  have eq: "(?a + m) mod ?M = (?a + n) mod ?M"
    using assms(1) unat_cur_bumps [of m s] unat_cur_bumps [of n s] by simp
  have "?M dvd n - m"
  proof (cases "m \<le> n")
    case True
    then have "?M dvd (?a + n) - (?a + m)"
      using eq by (intro mod_eq_dvd_iff_nat [THEN iffD1]) auto
    then show ?thesis by simp
  qed simp
  moreover have "?M dvd m - n"
  proof (cases "n \<le> m")
    case True
    then have "?M dvd (?a + m) - (?a + n)"
      using eq by (intro mod_eq_dvd_iff_nat [THEN iffD1]) auto
    then show ?thesis by simp
  qed simp
  ultimately have "n - m = 0" "m - n = 0"
    using assms(2,3) by (auto dest: dvd_imp_le simp del: zero_less_diff)
  then show ?thesis by simp
qed

end

interpretation alloc_service: id_counter m_allocServiceId getNextAllocServiceId updateAllocServiceId
  by unfold_locales (simp_all add: getNextAllocServiceId_def updateAllocServiceId_def)

interpretation reserve_pool: id_counter m_reservePoolId getNextReservePoolId updateReservePoolId
  by unfold_locales (simp_all add: getNextReservePoolId_def updateReservePoolId_def)

interpretation client_id: id_counter m_clientId "\<lambda>s. fst (getNewClientId s)" "\<lambda>s. snd (getNewClientId s)"
  by unfold_locales (simp_all add: getNewClientId_def Let_def)

lemma updateAllocServiceId_fields [simp]:
  "m_devList (updateAllocServiceId s) = m_devList s"
  "m_numDevice (updateAllocServiceId s) = m_numDevice s"
  "m_fault (updateAllocServiceId s) = m_fault s"
  "m_devicesInited (updateAllocServiceId s) = m_devicesInited s"
  "m_reservePoolId (updateAllocServiceId s) = m_reservePoolId s"
  "dev_at (updateAllocServiceId s) d = dev_at s d"
  "cu_at (updateAllocServiceId s) d c = cu_at s d c"
  by (simp_all add: updateAllocServiceId_def dev_at_def cu_at_def)

lemma updateReservePoolId_fields [simp]:
  "m_devList (updateReservePoolId s) = m_devList s"
  "m_numDevice (updateReservePoolId s) = m_numDevice s"
  "m_fault (updateReservePoolId s) = m_fault s"
  "m_devicesInited (updateReservePoolId s) = m_devicesInited s"
  "m_allocServiceId (updateReservePoolId s) = m_allocServiceId s"
  "dev_at (updateReservePoolId s) d = dev_at s d"
  "cu_at (updateReservePoolId s) d c = cu_at s d c"
  by (simp_all add: updateReservePoolId_def dev_at_def cu_at_def)

lemma sys_inv_update_ids [simp]:
  "sys_inv (updateAllocServiceId s) = sys_inv s"
  "sys_inv (updateReservePoolId s) = sys_inv s"
  "load_inv (updateAllocServiceId s) = load_inv s"
  "load_inv (updateReservePoolId s) = load_inv s"
  by (simp_all add: sys_inv_def load_inv_def)

end
