(* ===== verification/Xrm_Alloc.thy ===== *)
theory Xrm_Alloc
  imports Xrm_Device "HOL-Library.Product_Lexorder"
begin

text \<open>
  Allocation of one compute unit: taking a channel of a given compute unit
  (\<open>allocChanClientFromCu\<close>), and the searches over compute units and devices built on it
  (\<open>allocCuFromDev\<close>, \<open>resAllocCu\<close>, \<open>resAllocCuFromDev\<close>, \<open>resAllocLeastUsedCuFromDev\<close>). A compute unit
  pointer is the pair of its device index and its index on the device. Each operation takes and
  returns the result record the code fills through its \<open>cuRes\<close> pointer, with the system.
\<close>

section \<open>Policies and matching\<close>

definition XRM_POLICY_INFO_CONSTRAINT_TYPE_CU_MOST_USED_FIRST :: u64 where
  "XRM_POLICY_INFO_CONSTRAINT_TYPE_CU_MOST_USED_FIRST = 1"
definition XRM_POLICY_INFO_CONSTRAINT_TYPE_CU_LEAST_USED_FIRST :: u64 where
  "XRM_POLICY_INFO_CONSTRAINT_TYPE_CU_LEAST_USED_FIRST = 2"
definition XRM_POLICY_INFO_CONSTRAINT_TYPE_DEV_MOST_USED_FIRST :: u64 where
  "XRM_POLICY_INFO_CONSTRAINT_TYPE_DEV_MOST_USED_FIRST = 3"
definition XRM_POLICY_INFO_CONSTRAINT_TYPE_DEV_LEAST_USED_FIRST :: u64 where
  "XRM_POLICY_INFO_CONSTRAINT_TYPE_DEV_LEAST_USED_FIRST = 4"

lemmas policy_defs =
  XRM_POLICY_INFO_CONSTRAINT_TYPE_CU_MOST_USED_FIRST_def
  XRM_POLICY_INFO_CONSTRAINT_TYPE_CU_LEAST_USED_FIRST_def
  XRM_POLICY_INFO_CONSTRAINT_TYPE_DEV_MOST_USED_FIRST_def
  XRM_POLICY_INFO_CONSTRAINT_TYPE_DEV_LEAST_USED_FIRST_def

definition most_used_first :: "u64 \<Rightarrow> bool" where
  "most_used_first policyInfo \<longleftrightarrow>
     policyInfo = XRM_POLICY_INFO_CONSTRAINT_TYPE_CU_MOST_USED_FIRST \<or>
     policyInfo = XRM_POLICY_INFO_CONSTRAINT_TYPE_DEV_MOST_USED_FIRST"

definition least_used_first :: "u64 \<Rightarrow> bool" where
  "least_used_first policyInfo \<longleftrightarrow>
     policyInfo = XRM_POLICY_INFO_CONSTRAINT_TYPE_CU_LEAST_USED_FIRST \<or>
     policyInfo = XRM_POLICY_INFO_CONSTRAINT_TYPE_DEV_LEAST_USED_FIRST"

text \<open>
  A name that is not presented in the request is not compared; a request with none of the three names
  is refused by every operation.
\<close>

definition cu_matches :: "cuProperty \<Rightarrow> cuData \<Rightarrow> bool" where
  "cu_matches prop cu \<longleftrightarrow>
     (let kernelNameEqual = (pr_kernelName prop \<noteq> [] \<longrightarrow> cu_kernelName cu = pr_kernelName prop);
          kernelAliasEqual = (pr_kernelAlias prop \<noteq> [] \<longrightarrow> cu_kernelAlias cu = pr_kernelAlias prop);
          cuNameEqual = (pr_cuName prop \<noteq> [] \<longrightarrow> cu_cuName cu = pr_cuName prop)
      in kernelNameEqual \<and> kernelAliasEqual \<and> cuNameEqual)"

definition no_name :: "cuProperty \<Rightarrow> bool" where
  "no_name prop \<longleftrightarrow> pr_kernelName prop = [] \<and> pr_kernelAlias prop = [] \<and> pr_cuName prop = []"

section \<open>Taking a channel\<close>

text \<open>The fields of \<open>cuRes\<close> that \<open>allocChanClientFromCu\<close> fills, and the four its callers add.\<close>

definition fill_cuRes :: "cuData \<Rightarrow> nat \<Rightarrow> cuProperty \<Rightarrow> u64 \<Rightarrow> cuResource \<Rightarrow> cuResource" where
  "fill_cuRes cu chanId prop svc cuRes = cuRes\<lparr>
     re_kernelName := strncpy (XRM_MAX_NAME_LEN - 1) (cu_kernelName cu),
     re_instanceName := strncpy (XRM_MAX_NAME_LEN - 1) (cu_instanceName cu),
     re_kernelAlias := strncpy (XRM_MAX_NAME_LEN - 1) (cu_kernelAlias cu),
     re_cuName := strncpy (XRM_MAX_NAME_LEN - 1) (cu_cuName cu),
     re_kernelPluginFileName := strncpy (XRM_MAX_NAME_LEN - 1) (cu_kernelPluginFileName cu),
     re_cuType := cu_cuType cu,
     re_channelId := int chanId,
     re_clientId := pr_clientId prop,
     re_channelLoadUnified := pr_requestLoadUnified prop,
     re_channelLoadOriginal := pr_requestLoadOriginal prop,
     re_allocServiceId := svc,
     re_baseAddr := cu_baseAddr cu,
     re_membankId := cu_membankId cu,
     re_membankType := cu_membankType cu,
     re_membankSize := cu_membankSize cu,
     re_membankBaseAddr := cu_membankBaseAddr cu,
     re_poolId := pr_poolId prop\<rparr>"

definition locate_cuRes :: "deviceData \<Rightarrow> nat \<Rightarrow> nat \<Rightarrow> cuResource \<Rightarrow> cuResource" where
  "locate_cuRes dev devId cuId cuRes = cuRes\<lparr>
     re_deviceId := int devId,
     re_cuId := int cuId,
     re_xclbinFileName := strncpy (XRM_MAX_NAME_LEN - 1) (dv_xclbinName dev),
     re_uuidStr := strncpy (XRM_MAX_NAME_LEN - 1) (xb_uuidStr (dv_xclbinInfo dev))\<rparr>"

text \<open>
  The two branches of \<open>allocChanClientFromCu\<close> that give out channel \<open>chanId\<close> do the same writes. The
  client list overrun of \<open>addClientToCu\<close> is a fault.
\<close>

definition assign_channel :: "nat \<Rightarrow> nat \<Rightarrow> nat \<Rightarrow> nat \<Rightarrow> cuProperty \<Rightarrow> cuResource \<times> system \<Rightarrow>
    int \<times> cuResource \<times> system" where
  "assign_channel d c reserveIdx chanId prop = (\<lambda>(cuRes, s).
     (let cu = cu_at s d c;
          req = pr_requestLoadUnified prop;
          svc = getNextAllocServiceId s;
          s1 = (if pr_poolId prop \<noteq> 0
                then upd_cu d c (\<lambda>cu. take_channel prop svc chanId (use_reserve reserveIdx req cu)) s
                else updateDeviceLoad (cu_deviceId cu) req (- 1)
                       (upd_cu d c (\<lambda>cu. take_channel prop svc chanId (use_default req cu)) s));
          s2 = (case addClientToCu (pr_clientId prop) (cu_at s1 d c) of
                  Some cu' \<Rightarrow> upd_cu d c (\<lambda>_. cu') s1
                | None \<Rightarrow> fault s1)
      in (XRM_SUCCESS, fill_cuRes cu chanId prop svc cuRes, s2)))"

definition take_free_channel :: "nat \<Rightarrow> nat \<Rightarrow> nat \<Rightarrow> cuProperty \<Rightarrow> cuResource \<times> system \<Rightarrow>
    int \<times> cuResource \<times> system" where
  "take_free_channel d c reserveIdx prop = (\<lambda>(cuRes, s).
     (let cu = cu_at s d c
      in if cu_numChanInuse cu = 0 then assign_channel d c reserveIdx 0 prop (cuRes, s)
         else if cu_numChanInuse cu < int XRM_MAX_KERNEL_CHANNELS then
           (let chanId = cuFindFreeChannelId cu
            in if chanId < 0 \<or> chanId > int XRM_MAX_KERNEL_CHANNELS
               then (XRM_ERROR_NO_KERNEL, cuRes, s)
               else assign_channel d c reserveIdx (nat chanId) prop (cuRes, s))
         else (XRM_ERROR_NO_KERNEL, cuRes, s)))"

text \<open>
  \<open>allocChanClientFromCu\<close>. With a policy, a compute unit that fits but is not the best possible one is
  remembered in \<open>preCu\<close> (when it beats the one remembered so far) and \<open>XRM_FURTHER_CHECK\<close> is
  returned. The reservation index of \<open>cu\<close> is also used to read the reservations of \<open>preCu\<close>.
\<close>

definition allocChanClientFromCu :: "nat \<Rightarrow> nat \<Rightarrow> cuProperty \<Rightarrow> u64 \<Rightarrow> (nat \<times> nat) option \<Rightarrow>
    cuResource \<times> system \<Rightarrow> int \<times> (nat \<times> nat) option \<times> cuResource \<times> system" where
  "allocChanClientFromCu d c prop policyInfo preCu = (\<lambda>(cuRes, s).
     (let cu = cu_at s d c;
          req = pr_requestLoadUnified prop;
          reservePoolId = pr_poolId prop
      in if req \<le> 0 then (XRM_ERROR_INVALID, preCu, cuRes, s)
         else if reservePoolId \<noteq> 0 then
           (let reserveIdx = isReservePoolUsingCu cu reservePoolId;
                r = cu_reserves cu ! nat reserveIdx;
                sum = i32 (rs_usedLoadUnified r + req)
            in if reserveIdx = - 1 then (XRM_ERROR_NO_KERNEL, preCu, cuRes, s)
               else if \<not> rs_clientIsActive r then (XRM_ERROR_NO_KERNEL, preCu, cuRes, s)
               else if sum > rs_loadUnified r then (XRM_ERROR_NO_KERNEL, preCu, cuRes, s)
               else if most_used_first policyInfo \<and> sum \<noteq> rs_loadUnified r then
                 (XRM_FURTHER_CHECK,
                  (case preCu of
                     None \<Rightarrow> Some (d, c)
                   | Some (pd, pc) \<Rightarrow>
                       if sum > rs_usedLoadUnified (cu_reserves (cu_at s pd pc) ! nat reserveIdx)
                       then Some (d, c) else preCu), cuRes, s)
               else if least_used_first policyInfo \<and> rs_usedLoadUnified r \<noteq> 0 then
                 (XRM_FURTHER_CHECK,
                  (case preCu of
                     None \<Rightarrow> Some (d, c)
                   | Some (pd, pc) \<Rightarrow>
                       if sum < rs_usedLoadUnified (cu_reserves (cu_at s pd pc) ! nat reserveIdx)
                       then Some (d, c) else preCu), cuRes, s)
               else (case take_free_channel d c (nat reserveIdx) prop (cuRes, s) of
                       (ret, cuRes', s') \<Rightarrow> (ret, preCu, cuRes', s')))
         else
           (let total = cu_totalUsedLoadUnified cu;
                sum = i32 (total + req)
            in if sum > XRM_MAX_LOAD then (XRM_ERROR_NO_KERNEL, preCu, cuRes, s)
               else if most_used_first policyInfo \<and> sum \<noteq> XRM_MAX_LOAD then
                 (XRM_FURTHER_CHECK,
                  (case preCu of
                     None \<Rightarrow> Some (d, c)
                   | Some (pd, pc) \<Rightarrow>
                       if total > cu_totalUsedLoadUnified (cu_at s pd pc) then Some (d, c) else preCu),
                  cuRes, s)
               else if least_used_first policyInfo \<and> total \<noteq> 0 then
                 (XRM_FURTHER_CHECK,
                  (case preCu of
                     None \<Rightarrow> Some (d, c)
                   | Some (pd, pc) \<Rightarrow>
                       if total < cu_totalUsedLoadUnified (cu_at s pd pc) then Some (d, c) else preCu),
                  cuRes, s)
               else (case take_free_channel d c 0 prop (cuRes, s) of
                       (ret, cuRes', s') \<Rightarrow> (ret, preCu, cuRes', s')))))"

text \<open>The call with the default arguments: no policy, no remembered compute unit.\<close>

definition allocChan :: "nat \<Rightarrow> nat \<Rightarrow> cuProperty \<Rightarrow> cuResource \<times> system \<Rightarrow>
    int \<times> cuResource \<times> system" where
  "allocChan d c prop st =
     (case allocChanClientFromCu d c prop 0 None st of (ret, _, cuRes, s) \<Rightarrow> (ret, cuRes, s))"

section \<open>Searching the compute units of a device\<close>

text \<open>The body shared by the loops over compute units, after the affinity test.\<close>

definition try_cu :: "cuProperty \<Rightarrow> nat \<Rightarrow> nat \<Rightarrow> cuResource \<times> system \<Rightarrow>
    bool \<times> cuResource \<times> system" where
  "try_cu prop d c = (\<lambda>(cuRes, s).
     if \<not> cu_matches prop (cu_at s d c) then (False, cuRes, s)
     else case allocChan d c prop (cuRes, s) of
            (ret, cuRes', s') \<Rightarrow>
              if ret \<noteq> XRM_SUCCESS then (False, cuRes', s')
              else (True, locate_cuRes (dev_at s' d) d c cuRes', s'))"

text \<open>
  "first attempt to re-use existing kernels; else, use a new kernel": the affinity pass skips compute
  units without clients, the second pass those with clients.
\<close>

definition affinity_skip :: "bool \<Rightarrow> cuData \<Rightarrow> bool" where
  "affinity_skip cuAffinityPass cu \<longleftrightarrow>
     (cuAffinityPass \<and> cu_numClient cu = 0) \<or> (\<not> cuAffinityPass \<and> cu_numClient cu > 0)"

definition scan_cus :: "bool \<Rightarrow> cuProperty \<Rightarrow> nat \<Rightarrow> cuResource \<times> system \<Rightarrow>
    bool \<times> cuResource \<times> system" where
  "scan_cus cuAffinityPass prop d = (\<lambda>(cuRes, s).
     until_acquired
       (\<lambda>c (cuRes, s).
          if affinity_skip cuAffinityPass (cu_at s d c) then (False, cuRes, s)
          else try_cu prop d c (cuRes, s))
       (cu_ids (dev_at s d)) (cuRes, s))"

text \<open>Both passes over one device, as \<open>allocCuFromDev\<close> and \<open>resAllocCuFromDev\<close> do.\<close>

definition scan_both :: "cuProperty \<Rightarrow> nat \<Rightarrow> cuResource \<times> system \<Rightarrow>
    bool \<times> cuResource \<times> system" where
  "scan_both prop d st =
     (case scan_cus True prop d st of
        (acquired, st') \<Rightarrow> if acquired then (True, st') else scan_cus False prop d st')"

definition allocCuFromDev :: "int \<Rightarrow> cuProperty \<Rightarrow> cuResource \<times> system \<Rightarrow>
    int \<times> cuResource \<times> system" where
  "allocCuFromDev devId prop = (\<lambda>(cuRes, s).
     if devId < 0 \<or> devId \<ge> m_numDevice s then (XRM_ERROR_INVALID, cuRes, s)
     else if no_name prop then (XRM_ERROR_INVALID, cuRes, s)
     else case scan_both prop (nat devId) (cuRes, s) of
            (acquired, cuRes', s') \<Rightarrow>
              (if acquired then XRM_SUCCESS else XRM_ERROR_NO_KERNEL, cuRes', s'))"

section \<open>Allocation from any device\<close>

text \<open>
  One iteration of the device loop of \<open>resAllocCu\<close>: register the client, scan, and release the client
  again when nothing was found.
\<close>

definition resAllocCu_try :: "bool \<Rightarrow> cuProperty \<Rightarrow> nat \<Rightarrow> cuResource \<times> system \<Rightarrow>
    bool \<times> cuResource \<times> system" where
  "resAllocCu_try cuAffinityPass prop d = (\<lambda>(cuRes, s).
     case allocClientFromDev (int d) prop s of
       (ret, s1) \<Rightarrow>
         if ret < 0 then (False, cuRes, s1)
         else case scan_cus cuAffinityPass prop d (cuRes, s1) of
                (acquired, cuRes', s2) \<Rightarrow>
                  if acquired then (True, cuRes', s2)
                  else (False, cuRes', snd (releaseClientOnDev (int d) (pr_clientId prop) s2)))"

definition resAllocCu :: "cuProperty \<Rightarrow> bool \<Rightarrow> cuResource \<times> system \<Rightarrow>
    int \<times> cuResource \<times> system" where
  "resAllocCu prop updateId st =
     (if no_name prop then (XRM_ERROR_INVALID, st)
      else case search_devices (resAllocCu_try True prop) prop st of
             (acquired1, st1) \<Rightarrow>
               (case (if acquired1 then (True, st1)
                      else search_devices (resAllocCu_try False prop) prop st1) of
                  (acquired, cuRes, s) \<Rightarrow>
                    if acquired
                    then (XRM_SUCCESS, cuRes, if updateId then updateAllocServiceId s else s)
                    else (XRM_ERROR_NO_KERNEL, cuRes, s)))"

section \<open>Allocation from a given device\<close>

text \<open>The checks before the scan: the device is in range, loaded, and not another client's.\<close>

definition dev_refuses :: "int \<Rightarrow> cuProperty \<Rightarrow> system \<Rightarrow> int option" where
  "dev_refuses deviceId prop s =
     (let dev = dev_at s (nat deviceId)
      in if deviceId < 0 \<or> deviceId > m_numDevice s - 1 then Some XRM_ERROR_INVALID
         else if no_name prop then Some XRM_ERROR_INVALID
         else if \<not> dv_isLoaded dev then Some XRM_ERROR_NO_DEV
         else if dv_isExcl dev \<and> cl_clientId (dv_clientProcs dev ! 0) \<noteq> pr_clientId prop
           then Some XRM_ERROR_NO_DEV
         else None)"

definition resAllocCuFromDev :: "int \<Rightarrow> cuProperty \<Rightarrow> bool \<Rightarrow> cuResource \<times> system \<Rightarrow>
    int \<times> cuResource \<times> system" where
  "resAllocCuFromDev deviceId prop updateId = (\<lambda>(cuRes, s).
     case dev_refuses deviceId prop s of
       Some err \<Rightarrow> (err, cuRes, s)
     | None \<Rightarrow>
         (case allocClientFromDev deviceId prop s of
            (ret, s1) \<Rightarrow>
              if ret < 0 then (XRM_ERROR_NO_DEV, cuRes, s1)
              else case scan_both prop (nat deviceId) (cuRes, s1) of
                     (acquired, cuRes', s2) \<Rightarrow>
                       if acquired
                       then (XRM_SUCCESS, cuRes', if updateId then updateAllocServiceId s2 else s2)
                       else (XRM_ERROR_NO_KERNEL, cuRes',
                             snd (releaseClientOnDev deviceId (pr_clientId prop) s2))))"

text \<open>
  \<open>resAllocLeastUsedCuFromDev\<close>: first a compute unit without clients; otherwise the candidates that
  can still take the load, least used first. A candidate that fails releases the client; when
  there is no candidate nothing releases it.
\<close>

definition least_used_candidates :: "cuProperty \<Rightarrow> nat \<Rightarrow> system \<Rightarrow> (int \<times> nat) list" where
  "least_used_candidates prop d s =
     sort (map (\<lambda>c. (cu_totalUsedLoadUnified (cu_at s d c), c))
       (filter (\<lambda>c. cu_matches prop (cu_at s d c) \<and>
            i32 (pr_requestLoadUnified prop + cu_totalUsedLoadUnified (cu_at s d c)) \<le> XRM_MAX_LOAD)
          (cu_ids (dev_at s d))))"

definition try_candidate :: "cuProperty \<Rightarrow> nat \<Rightarrow> int \<times> nat \<Rightarrow> cuResource \<times> system \<Rightarrow>
    bool \<times> cuResource \<times> system" where
  "try_candidate prop d candidate = (\<lambda>(cuRes, s).
     case allocChan d (snd candidate) prop (cuRes, s) of
       (ret, cuRes', s') \<Rightarrow>
         if ret \<noteq> XRM_SUCCESS
         then (False, cuRes', snd (releaseClientOnDev (int d) (pr_clientId prop) s'))
         else (True, locate_cuRes (dev_at s' d) d (snd candidate) cuRes', s'))"

definition resAllocLeastUsedCuFromDev :: "int \<Rightarrow> cuProperty \<Rightarrow> bool \<Rightarrow> cuResource \<times> system \<Rightarrow>
    int \<times> cuResource \<times> system" where
  "resAllocLeastUsedCuFromDev deviceId prop updateId = (\<lambda>(cuRes, s).
     case dev_refuses deviceId prop s of
       Some err \<Rightarrow> (err, cuRes, s)
     | None \<Rightarrow>
         (case allocClientFromDev deviceId prop s of
            (ret, s1) \<Rightarrow>
              if ret < 0 then (XRM_ERROR_NO_DEV, cuRes, s1)
              else (let d = nat deviceId in
                case scan_cus False prop d (cuRes, s1) of
                  (acquired1, cuRes1, s2) \<Rightarrow>
                    (case (if acquired1 then (True, cuRes1, s2)
                           else until_acquired (try_candidate prop d)
                                  (least_used_candidates prop d s2) (cuRes1, s2)) of
                       (acquired, cuRes', s3) \<Rightarrow>
                         if acquired
                         then (XRM_SUCCESS, cuRes', if updateId then updateAllocServiceId s3 else s3)
                         else (XRM_ERROR_NO_KERNEL, cuRes', s3)))))"

end
