(* ===== verification/Xrm_Grants.thy ===== *)
theory Xrm_Grants
  imports Xrm_Alloc
begin

text \<open>
  The abstract view of the resource pool and the frame lemmas. \<open>grants\<close> is the specification state of
  the allocator: a finite map from channel positions (device, compute unit, channel) to what the
  channel was granted for. \<open>cu_step\<close> describes a change that touches one compute unit only (plus the
  client tables and the load of the devices) and keeps its invariant; every allocation, release
  and reservation of the daemon is a sequence of such steps.
\<close>

section \<open>Granted channels\<close>

definition chan_at :: "system \<Rightarrow> nat \<Rightarrow> nat \<Rightarrow> nat \<Rightarrow> channelData" where
  "chan_at s d c i = cu_channels (cu_at s d c) ! i"

definition valid_cu :: "system \<Rightarrow> nat \<Rightarrow> nat \<Rightarrow> bool" where
  "valid_cu s d c \<longleftrightarrow> int d < m_numDevice s \<and> int c < numCu (dev_at s d)"

definition grants :: "system \<Rightarrow> nat \<times> nat \<times> nat \<Rightarrow> channelData option" where
  "grants s = (\<lambda>(d, c, i).
     if valid_cu s d c \<and> i < XRM_MAX_KERNEL_CHANNELS \<and> in_use (chan_at s d c i)
     then Some (chan_at s d c i) else None)"

lemma valid_cu_inv:
  "sys_inv s \<Longrightarrow> valid_cu s d c \<Longrightarrow> cu_inv (cu_at s d c) \<and> cu_deviceId (cu_at s d c) = int d \<and>
   d < length (m_devList s) \<and> c < length (cuList (dev_at s d)) \<and> c < XRM_MAX_XILINX_KERNELS \<and>
   numCu (dev_at s d) \<le> int XRM_MAX_XILINX_KERNELS"
  using sys_inv_cu [of s d c] sys_inv_dev [of s d] by (auto simp: valid_cu_def dev_inv_def)

lemma same_cus_valid: "same_cus s s' \<Longrightarrow> valid_cu s' d c = valid_cu s d c"
  using same_cus_dev [of s s' d] by (simp add: valid_cu_def same_cus_def)

lemma same_cus_grants: "same_cus s s' \<Longrightarrow> grants s' = grants s"
  using same_cus_dev [of s s'] same_cus_valid [of s s']
  by (intro ext) (auto simp: grants_def chan_at_def)

lemma same_cus_sym: "same_cus s s' \<Longrightarrow> same_cus s' s"
  by (simp add: same_cus_def)

section \<open>Steps on one compute unit\<close>

definition cu_frame :: "nat \<Rightarrow> nat \<Rightarrow> system \<Rightarrow> system \<Rightarrow> bool" where
  "cu_frame d c s s' \<longleftrightarrow> same_cus (upd_cu d c (\<lambda>_. cu_at s' d c) s) s'"

definition cu_step :: "nat \<Rightarrow> nat \<Rightarrow> system \<Rightarrow> system \<Rightarrow> bool" where
  "cu_step d c s s' \<longleftrightarrow> valid_cu s d c \<and> cu_frame d c s s' \<and> cu_inv (cu_at s' d c) \<and>
     cu_deviceId (cu_at s' d c) = cu_deviceId (cu_at s d c)"

lemma same_cus_upd_cu:
  assumes "same_cus s t"
  shows "same_cus (upd_cu d c f s) (upd_cu d c f t)"
proof -
  have "dv_xclbinInfo (dev_upd_cu c f (dev_at t d)) = dv_xclbinInfo (dev_upd_cu c f (dev_at s d))"
    using assms by (simp add: dev_upd_cu_def same_cus_def cuList_def)
  with assms show ?thesis by (auto simp: same_cus_def dev_at_upd_cu)
qed

lemma upd_cu_const: "upd_cu d c (\<lambda>_. f (cu_at s d c)) s = upd_cu d c f s"
  by (simp add: upd_cu_def upd_dev_def dev_upd_cu_def cu_at_def)

lemma upd_cu_twice: "upd_cu d c (\<lambda>_. y) (upd_cu d c (\<lambda>_. x) s) = upd_cu d c (\<lambda>_. y) s"
  by (cases "d < length (m_devList s)")
    (simp_all add: upd_cu_def upd_dev_def dev_upd_cu_def dev_at_def cuList_def list_update_beyond)

lemma cu_frame_refl:
  "cu_frame d c s s"
proof -
  have "dev_upd_cu c (\<lambda>_. cu_at s d c) (dev_at s d) = dev_at s d"
    by (simp add: dev_upd_cu_def cu_at_def cuList_def)
  then show ?thesis by (auto simp: cu_frame_def same_cus_def dev_at_upd_cu)
qed

lemma cu_frame_upd:
  "d < length (m_devList s) \<Longrightarrow> c < length (cuList (dev_at s d)) \<Longrightarrow> cu_frame d c s (upd_cu d c f s)"
  using upd_cu_const [of d c f s] by (simp add: cu_frame_def cu_at_upd_cu)

lemma cu_frame_trans:
  assumes "cu_frame d c s t" "cu_frame d c t u"
  shows "cu_frame d c s u"
proof -
  have "same_cus (upd_cu d c (\<lambda>_. cu_at u d c) (upd_cu d c (\<lambda>_. cu_at t d c) s))
      (upd_cu d c (\<lambda>_. cu_at u d c) t)"
    using assms(1) unfolding cu_frame_def by (rule same_cus_upd_cu)
  then show ?thesis
    using assms(2) unfolding cu_frame_def upd_cu_twice by (rule same_cus_trans)
qed

lemma same_cus_frame: "same_cus s t \<Longrightarrow> cu_frame d c s t"
  using same_cus_upd_cu [of s t d c "\<lambda>_. cu_at t d c"] cu_frame_refl [of d c t]
  by (auto simp: cu_frame_def intro: same_cus_trans)

lemma same_cus_fields:
  assumes "same_cus s s'"
  shows "m_numDevice s' = m_numDevice s" "length (m_devList s') = length (m_devList s)"
    "m_fault s' = m_fault s" "m_allocServiceId s' = m_allocServiceId s"
    "m_reservePoolId s' = m_reservePoolId s" "dv_isLoaded (dev_at s' d) = dv_isLoaded (dev_at s d)"
    "m_devicesInited s' = m_devicesInited s"
  using assms by (simp_all only: same_cus_def)

lemma cu_frame_dev:
  assumes "cu_frame d c s s'"
  shows "m_numDevice s' = m_numDevice s" "length (m_devList s') = length (m_devList s)"
    "m_fault s' = m_fault s" "m_allocServiceId s' = m_allocServiceId s"
    "m_reservePoolId s' = m_reservePoolId s"
    "numCu (dev_at s' d') = numCu (dev_at s d')" "dv_isLoaded (dev_at s' d') = dv_isLoaded (dev_at s d')"
    "length (cuList (dev_at s' d')) = length (cuList (dev_at s d'))"
    "cu_ids (dev_at s' d') = cu_ids (dev_at s d')"
    "valid_cu s' d' c' = valid_cu s d' c'"
    "(d', c') \<noteq> (d, c) \<Longrightarrow> cu_at s' d' c' = cu_at s d' c'"
    "m_devicesInited s' = m_devicesInited s"
proof -
  obtain x where f: "same_cus (upd_cu d c (\<lambda>_. x) s) s'"
    using assms by (auto simp: cu_frame_def)
  note fs = same_cus_fields [OF f] and dv = same_cus_dev [OF f]
  show "m_numDevice s' = m_numDevice s" "length (m_devList s') = length (m_devList s)"
    "m_fault s' = m_fault s" "m_allocServiceId s' = m_allocServiceId s"
    "m_reservePoolId s' = m_reservePoolId s" "m_devicesInited s' = m_devicesInited s"
    by (simp_all add: fs(1-5,7))
  show "numCu (dev_at s' d') = numCu (dev_at s d')"
    "length (cuList (dev_at s' d')) = length (cuList (dev_at s d'))"
    "cu_ids (dev_at s' d') = cu_ids (dev_at s d')"
    "dv_isLoaded (dev_at s' d') = dv_isLoaded (dev_at s d')"
    by (simp_all add: dv [of d'] fs(6) dev_at_upd_cu)
  then show "valid_cu s' d' c' = valid_cu s d' c'" by (simp add: valid_cu_def fs(1))
  show "cu_at s' d' c' = cu_at s d' c'" if "(d', c') \<noteq> (d, c)"
    using dv [of d' c'] that by (auto simp: cu_at_upd_cu)
qed

lemma cu_step_sys_inv:
  assumes "sys_inv s" "cu_step d c s s'"
  shows "sys_inv s'"
proof -
  have "sys_inv (upd_cu d c (\<lambda>_. cu_at s' d c) s)"
    using assms by (intro sys_inv_upd_cu) (auto simp: cu_step_def valid_cu_def)
  then show ?thesis
    using assms(2) unfolding cu_step_def cu_frame_def by (blast intro: same_cus_sys_inv)
qed

lemma cu_step_trans:
  "cu_step d c s t \<Longrightarrow> cu_step d c t u \<Longrightarrow> cu_step d c s u"
  using cu_frame_trans [of d c s t u] by (simp add: cu_step_def)

lemma cu_step_grants:
  assumes "cu_step d c s s'"
  shows "grants s' (d', c', i) =
     (if (d', c') = (d, c) then (if i < XRM_MAX_KERNEL_CHANNELS \<and> in_use (chan_at s' d c i)
        then Some (chan_at s' d c i) else None)
      else grants s (d', c', i))"
  using cu_frame_dev(10,11) [of d c s s' d' c'] assms
  by (auto simp: cu_step_def grants_def chan_at_def)

lemma cu_step_upd:
  assumes "sys_inv s" "valid_cu s d c" "cu_inv (f (cu_at s d c))"
    "cu_deviceId (f (cu_at s d c)) = cu_deviceId (cu_at s d c)"
  shows "cu_step d c s (upd_cu d c f s)" "cu_at (upd_cu d c f s) d c = f (cu_at s d c)"
  using valid_cu_inv [OF assms(1,2)] assms
  by (auto simp: cu_step_def cu_frame_upd cu_at_upd_cu)

section \<open>The device load follows\<close>

definition load_step :: "nat \<Rightarrow> nat \<Rightarrow> system \<Rightarrow> system \<Rightarrow> bool" where
  "load_step d c s s' \<longleftrightarrow> (\<forall>d'. li_devCurrentLoad (dv_devLoadInfo (dev_at s' d')) =
     li_devCurrentLoad (dv_devLoadInfo (dev_at s d')) +
     (if d' = d then cu_totalUsedLoadUnified (cu_at s' d c) - cu_totalUsedLoadUnified (cu_at s d c)
      else 0))"

lemma load_step_trans: "load_step d c s t \<Longrightarrow> load_step d c t u \<Longrightarrow> load_step d c s u"
  by (simp add: load_step_def)

lemma load_step_refl [simp]: "load_step d c s s"
  by (simp add: load_step_def)

lemma load_step_inv:
  assumes "sys_inv s" "cu_step d c s s'" "load_step d c s s'" "load_inv s"
  shows "load_inv s'"
proof -
  have f: "cu_frame d c s s'" and v: "valid_cu s d c" using assms(2) by (auto simp: cu_step_def)
  let ?t = "upd_cu d c (\<lambda>_. cu_at s' d c) s"
  have sc: "same_cus ?t s'" using f by (simp add: cu_frame_def)
  note vi = valid_cu_inv [OF assms(1) v]
  have n: "c < nat (numCu (dev_at s d))" using v unfolding valid_cu_def by linarith
  have sum: "cu_load_sum (dev_at s' d') = cu_load_sum (dev_at s d') +
      (if d' = d then cu_totalUsedLoadUnified (cu_at s' d c) - cu_totalUsedLoadUnified (cu_at s d c)
       else 0)" for d'
  proof -
    have "cu_load_sum (dev_at s' d') = cu_load_sum (dev_at ?t d')"
      using same_cus_dev [OF sc, of d'] by (simp add: cu_load_sum_def)
    also have "\<dots> = cu_load_sum (dev_at s d') +
      (if d' = d then cu_totalUsedLoadUnified (cu_at s' d c) - cu_totalUsedLoadUnified (cu_at s d c)
       else 0)"
      using vi n by (auto simp: cu_load_sum_def dev_at_upd_cu cuList_dev_upd_cu take_update_swap
          sum_list_map_update cu_at_def)
    finally show ?thesis .
  qed
  show ?thesis
    using assms(3,4) cu_frame_dev(1) [OF f]
    by (auto simp: load_inv_def dev_load_ok_def sum load_step_def)
qed

text \<open>\<open>updateDeviceLoad\<close> after a change of the used load of a compute unit.\<close>

lemma updateDeviceLoad_step:
  assumes "sys_inv s" "valid_cu s d c"
  shows "same_cus s (updateDeviceLoad (int d) inc (- 1) s)"
    "li_devCurrentLoad (dv_devLoadInfo (dev_at (updateDeviceLoad (int d) inc (- 1) s) d')) =
      li_devCurrentLoad (dv_devLoadInfo (dev_at s d')) + (if d' = d then inc else 0)"
  using updateDeviceLoad_frame [of "int d" s inc "- 1"] valid_cu_inv [OF assms] assms(2)
  by (auto simp: valid_cu_def)

lemma cu_step_with_load:
  assumes "sys_inv s" "valid_cu s d c" "cu_inv (f (cu_at s d c))"
    "cu_deviceId (f (cu_at s d c)) = cu_deviceId (cu_at s d c)"
    "inc = cu_totalUsedLoadUnified (f (cu_at s d c)) - cu_totalUsedLoadUnified (cu_at s d c)"
  defines "s' \<equiv> updateDeviceLoad (int d) inc (- 1) (upd_cu d c f s)"
  shows "cu_step d c s s'" "load_step d c s s'" "cu_at s' d c = f (cu_at s d c)"
proof -
  note st = cu_step_upd [of s d c f, OF assms(1-4)]
  let ?t = "upd_cu d c f s"
  have inv: "sys_inv ?t" using cu_step_sys_inv [OF assms(1) st(1)] .
  have v: "valid_cu ?t d c" using assms(2) cu_frame_dev(10) st(1) by (auto simp: cu_step_def)
  note u = updateDeviceLoad_step [OF inv v, of inc]
  show at: "cu_at s' d c = f (cu_at s d c)"
    using same_cus_dev [OF u(1), of d c] st(2) by (simp add: s'_def)
  show "cu_step d c s s'"
    using st cu_frame_trans [OF _ same_cus_frame [OF u(1)], of d c s] at assms(2-4)
    by (simp add: cu_step_def s'_def)
  show "load_step d c s s'"
    unfolding load_step_def at unfolding s'_def u(2) using assms(5) by (simp add: dev_at_upd_cu)
qed

lemma upd_cu_loads:
  "li_devCurrentLoad (dv_devLoadInfo (dev_at (upd_cu d c f s) d')) =
   li_devCurrentLoad (dv_devLoadInfo (dev_at s d'))"
  by (simp add: dev_at_upd_cu)

lemma cu_step_without_load:
  assumes "sys_inv s" "valid_cu s d c" "cu_inv (f (cu_at s d c))"
    "cu_deviceId (f (cu_at s d c)) = cu_deviceId (cu_at s d c)"
    "cu_totalUsedLoadUnified (f (cu_at s d c)) = cu_totalUsedLoadUnified (cu_at s d c)"
  shows "load_step d c s (upd_cu d c f s)"
  using cu_step_upd [of s d c f, OF assms(1-4)] assms(5) by (simp add: load_step_def upd_cu_loads)

end
