(* ===== verification/Xrm_Alloc_Inv.thy ===== *)
theory Xrm_Alloc_Inv
  imports Xrm_Grants
begin

text \<open>
  Correctness of the allocation of one compute unit. \<open>grant_step\<close> is the abstract step of an
  allocation: exactly one free channel becomes granted to the request, nothing else changes in the
  map of grants; every allocation operation either performs one grant step and reports it, or
  leaves the compute units alone.
\<close>

section \<open>The request\<close>

text \<open>
  What the clients of the daemon guarantee of a request: an identified client, and a load with which
  32-bit sums cannot wrap (the load is the capacity at most in the client library).
\<close>

definition prop_ok :: "cuProperty \<Rightarrow> bool" where
  "prop_ok prop \<longleftrightarrow> pr_clientId prop \<noteq> 0 \<and> pr_requestLoadUnified prop + XRM_MAX_LOAD \<le> 2147483647"

section \<open>One grant\<close>

definition grant_step :: "cuProperty \<Rightarrow> nat \<Rightarrow> nat \<Rightarrow> nat \<Rightarrow> system \<Rightarrow> system \<Rightarrow> bool" where
  "grant_step prop d c i s s' \<longleftrightarrow> cu_step d c s s' \<and> load_step d c s s' \<and>
     i < XRM_MAX_KERNEL_CHANNELS \<and> \<not> in_use (chan_at s d c i) \<and>
     0 < pr_requestLoadUnified prop \<and>
     cu_channels (cu_at s' d c) = (cu_channels (cu_at s d c))
       [i := fill_channel prop (getNextAllocServiceId s) (chan_at s d c i)]"

text \<open>The result record names the granted channel.\<close>

definition filled :: "cuProperty \<Rightarrow> nat \<Rightarrow> u64 \<Rightarrow> cuResource \<Rightarrow> bool" where
  "filled prop i svc cuRes \<longleftrightarrow> re_channelId cuRes = int i \<and> re_clientId cuRes = pr_clientId prop \<and>
     re_allocServiceId cuRes = svc \<and> re_channelLoadUnified cuRes = pr_requestLoadUnified prop \<and>
     re_channelLoadOriginal cuRes = pr_requestLoadOriginal prop \<and> re_poolId cuRes = pr_poolId prop"

definition located :: "nat \<Rightarrow> nat \<Rightarrow> cuResource \<Rightarrow> bool" where
  "located d c cuRes \<longleftrightarrow> re_deviceId cuRes = int d \<and> re_cuId cuRes = int c"

lemma same_cus_service: "same_cus s s' \<Longrightarrow> getNextAllocServiceId s' = getNextAllocServiceId s"
  by (simp add: same_cus_def getNextAllocServiceId_def)

lemma same_cus_load_step:
  "same_cus s s' \<Longrightarrow> same_loads s s' \<Longrightarrow> load_step d c s s'"
  using same_cus_dev [of s s' d c] by (simp add: load_step_def same_loads_def)

lemma grant_step_after:
  assumes "same_cus s s1" "same_loads s s1" "grant_step prop d c i s1 s'"
  shows "grant_step prop d c i s s'"
proof -
  note e = same_cus_dev [OF assms(1), of d c]
  have "cu_frame d c s s'"
    using cu_frame_trans [OF same_cus_frame [OF assms(1)], of d c s'] assms(3)
    by (simp add: grant_step_def cu_step_def)
  then have "cu_step d c s s'"
    using assms(3) e same_cus_valid [OF assms(1)] by (simp add: grant_step_def cu_step_def)
  moreover have "load_step d c s s'"
    using load_step_trans [OF same_cus_load_step [OF assms(1,2)]] assms(3)
    by (simp add: grant_step_def)
  ultimately show ?thesis
    using assms(3) e same_cus_service [OF assms(1)] by (simp add: grant_step_def chan_at_def)
qed

lemma grant_step_grants:
  assumes "sys_inv s" "grant_step prop d c i s s'"
  shows "grants s (d, c, i) = None"
    "grants s' = (grants s)((d, c, i) \<mapsto>
       fill_channel prop (getNextAllocServiceId s) (chan_at s d c i))"
proof -
  have v: "valid_cu s d c" and st: "cu_step d c s s'" using assms(2)
    by (auto simp: grant_step_def cu_step_def)
  show "grants s (d, c, i) = None"
    using assms(2) by (simp add: grants_def grant_step_def)
  have len: "length (cu_channels (cu_at s d c)) = XRM_MAX_KERNEL_CHANNELS"
    using valid_cu_inv [OF assms(1) v] by (simp add: cu_inv_def cu_unfold)
  have at: "chan_at s' d c j = (if j = i then fill_channel prop (getNextAllocServiceId s)
      (chan_at s d c i) else chan_at s d c j)" if "j < XRM_MAX_KERNEL_CHANNELS" for j
    using assms(2) len that by (auto simp: grant_step_def chan_at_def nth_list_update)
  have use: "in_use (fill_channel prop (getNextAllocServiceId s) (chan_at s d c i))"
    using assms(2) by (simp add: grant_step_def in_use_def fill_channel_def)
  have i: "i < XRM_MAX_KERNEL_CHANNELS" using assms(2) by (simp add: grant_step_def)
  show "grants s' = (grants s)((d, c, i) \<mapsto>
       fill_channel prop (getNextAllocServiceId s) (chan_at s d c i))"
  proof (rule ext)
    fix k :: "nat \<times> nat \<times> nat"
    obtain d' c' j where k: "k = (d', c', j)" by (metis prod_cases3)
    show "grants s' k = ((grants s)((d, c, i) \<mapsto>
       fill_channel prop (getNextAllocServiceId s) (chan_at s d c i))) k"
      using use at [of j] i v unfolding k cu_step_grants [OF st]
      by (auto simp: grants_def)
  qed
qed

lemma cu_acct_clients [simp]:
  "cu_acct (cu\<lparr>cu_clients := cl, cu_numClient := n\<rparr>) = cu_acct cu"
  by (simp add: cu_unfold reserved_load_def act_reserves_def pool_ids_def)

text \<open>Attaching the client after its channel was taken restores the full invariant.\<close>

lemma attach_client:
  assumes inv: "cu_inv cu" and i: "i < XRM_MAX_KERNEL_CHANNELS" "\<not> in_use (cu_channels cu ! i)"
    and req: "pr_clientId prop \<noteq> 0" "0 < pr_requestLoadUnified prop"
    and cu1: "cu_acct cu1" "cu_clients cu1 = cu_clients cu" "cu_numClient cu1 = cu_numClient cu"
      "cu_channels cu1 = (cu_channels cu)[i := fill_channel prop svc (cu_channels cu ! i)]"
  shows "\<exists>cl n. addClientToCu (pr_clientId prop) cu1 = Some (cu1\<lparr>cu_clients := cl, cu_numClient := n\<rparr>)
     \<and> cu_inv (cu1\<lparr>cu_clients := cl, cu_numClient := n\<rparr>)"
proof -
  have arr: "clients_arr cu" and cs: "client_set cu = chan_clients (cu_channels cu)"
    and len: "length (cu_channels cu) = XRM_MAX_KERNEL_CHANNELS"
    and num: "cu_numChanInuse cu = int (length (filter in_use (cu_channels cu)))"
    using inv by (auto simp: cu_inv_def clients_inv_def cu_unfold)
  have "length (filter in_use (cu_channels cu)) < XRM_MAX_KERNEL_CHANNELS"
    using len i length_filter_less [of "cu_channels cu ! i" "cu_channels cu" in_use] by simp
  then have room: "cu_numClient cu < int XRM_MAX_KERNEL_CHANNELS"
    using numClient_le_numChanInuse [OF inv] num by linarith
  have arr1: "clients_arr cu1" and set1: "client_set cu1 = client_set cu"
    using arr cu1 by (simp_all add: clients_arr_def client_set_def)
  obtain cl n where a: "addClientToCu (pr_clientId prop) cu1 =
        Some (cu1\<lparr>cu_clients := cl, cu_numClient := n\<rparr>)"
      "clients_arr (cu1\<lparr>cu_clients := cl, cu_numClient := n\<rparr>)"
      "client_set (cu1\<lparr>cu_clients := cl, cu_numClient := n\<rparr>) = insert (pr_clientId prop) (client_set cu1)"
    using addClientToCu_spec [OF arr1 req(1)] room cu1(3) by auto
  have "clients_inv (cu1\<lparr>cu_clients := cl, cu_numClient := n\<rparr>)"
    using a(2,3) set1 cs chan_clients_take [of i "cu_channels cu" "prop" svc] i req len
    by (simp add: clients_inv_def cu1(4))
  with a(1) cu1(1) show ?thesis by (auto simp: cu_inv_def)
qed

text \<open>The request fits: into the unreserved part, or into slot \<open>k\<close> of the reservations.\<close>

definition fits_at :: "nat \<Rightarrow> cuProperty \<Rightarrow> cuData \<Rightarrow> bool" where
  "fits_at k prop cu \<longleftrightarrow>
     (if pr_poolId prop = 0
      then cu_totalUsedLoadUnified cu + pr_requestLoadUnified prop \<le> XRM_MAX_LOAD
      else k < nat (cu_numReserve cu) \<and> rs_poolId (cu_reserves cu ! k) = pr_poolId prop \<and>
        rs_usedLoadUnified (cu_reserves cu ! k) + pr_requestLoadUnified prop
          \<le> rs_loadUnified (cu_reserves cu ! k))"

lemma assign_channel_spec:
  assumes inv: "sys_inv s" and v: "valid_cu s d c"
    and i: "i < XRM_MAX_KERNEL_CHANNELS" "\<not> in_use (chan_at s d c i)"
    and req: "pr_clientId prop \<noteq> 0" "0 < pr_requestLoadUnified prop"
    and fits: "fits_at k prop (cu_at s d c)"
    and run: "assign_channel d c k i prop (cuRes, s) = (ret, cuRes', s')"
  shows "ret = XRM_SUCCESS" "grant_step prop d c i s s'"
    "cuRes' = fill_cuRes (cu_at s d c) i prop (getNextAllocServiceId s) cuRes"
proof -
  let ?cu = "cu_at s d c" and ?req = "pr_requestLoadUnified prop" and ?svc = "getNextAllocServiceId s"
  let ?f = "if pr_poolId prop \<noteq> 0 then (\<lambda>cu. take_channel prop ?svc i (use_reserve k ?req cu))
    else (\<lambda>cu. take_channel prop ?svc i (use_default ?req cu))"
  note vi = valid_cu_inv [OF inv v]
  then have di: "cu_deviceId ?cu = int d" by simp
  have ci: "cu_inv ?cu" and acct: "cu_acct ?cu" and fr: "\<not> in_use (cu_channels ?cu ! i)"
    using vi i by (auto simp: cu_inv_def chan_at_def)
  have acct1: "cu_acct (?f ?cu)"
    using cu_acct_take_default [OF acct i(1) fr req(2,1)]
      cu_acct_take_pool [OF acct i(1) fr _ _ req(2,1)] fits
    by (cases "pr_poolId prop = 0") (simp_all add: fits_at_def)
  have parts: "cu_clients (?f ?cu) = cu_clients ?cu" "cu_numClient (?f ?cu) = cu_numClient ?cu"
    "cu_channels (?f ?cu) = (cu_channels ?cu)[i := fill_channel prop ?svc (cu_channels ?cu ! i)]"
    "cu_deviceId (?f ?cu) = cu_deviceId ?cu"
    by (simp_all add: cu_step_defs)
  obtain cl n where add: "addClientToCu (pr_clientId prop) (?f ?cu) =
        Some ((?f ?cu)\<lparr>cu_clients := cl, cu_numClient := n\<rparr>)"
      "cu_inv ((?f ?cu)\<lparr>cu_clients := cl, cu_numClient := n\<rparr>)"
    using attach_client [OF ci i(1) fr req acct1 parts(1-3)] by blast
  let ?g = "\<lambda>cu. (?f cu)\<lparr>cu_clients := cl, cu_numClient := n\<rparr>"
  let ?s1 = "if pr_poolId prop \<noteq> 0 then upd_cu d c ?f s
    else updateDeviceLoad (int d) ?req (- 1) (upd_cu d c ?f s)"
  have s1_frame: "same_cus (upd_cu d c ?f s) ?s1"
    using updateDeviceLoad_frame(1) [of "int d" "upd_cu d c ?f s" ?req "- 1"] vi v
    by (cases "pr_poolId prop = 0") (simp_all add: dev_at_upd_cu valid_cu_def)
  have at1: "cu_at ?s1 d c = ?f ?cu"
    using same_cus_dev [OF s1_frame, of d c] vi by (simp add: cu_at_upd_cu)
  have run': "ret = XRM_SUCCESS \<and> cuRes' = fill_cuRes ?cu i prop ?svc cuRes \<and>
      s' = upd_cu d c (\<lambda>_. ?g ?cu) ?s1"
  proof -
    have "assign_channel d c k i prop (cuRes, s) = (XRM_SUCCESS, fill_cuRes ?cu i prop ?svc cuRes,
        case addClientToCu (pr_clientId prop) (cu_at ?s1 d c) of
          Some cu' \<Rightarrow> upd_cu d c (\<lambda>_. cu') ?s1 | None \<Rightarrow> fault ?s1)"
      using di by (cases "pr_poolId prop = 0")
        (simp_all add: assign_channel_def Let_def cong: option.case_cong)
    then show ?thesis using run unfolding at1 add(1) by simp
  qed
  then show "ret = XRM_SUCCESS" "cuRes' = fill_cuRes ?cu i prop ?svc cuRes" by auto
  have f1: "cu_frame d c s ?s1"
    using cu_frame_trans [OF cu_frame_upd [of d s c ?f] same_cus_frame [OF s1_frame]] vi by simp
  have "cu_frame d c ?s1 s'"
    using run' cu_frame_upd vi cu_frame_dev(2,8) [OF f1] by simp
  then have frame: "cu_frame d c s s'" using f1 by (rule cu_frame_trans [rotated])
  have at': "cu_at s' d c = ?g ?cu"
    using run' vi cu_frame_dev(2,8) [OF f1] by (simp add: cu_at_upd_cu)
  have step: "cu_step d c s s'"
    using v frame add(2) parts(4) by (simp add: cu_step_def at')
  have tot: "cu_totalUsedLoadUnified (?g ?cu) - cu_totalUsedLoadUnified ?cu =
      (if pr_poolId prop = 0 then ?req else 0)"
    using fits totals_bounds [OF acct] req
    by (cases "pr_poolId prop = 0") (simp_all add: cu_step_defs fits_at_def)
  have ld: "li_devCurrentLoad (dv_devLoadInfo (dev_at ?s1 d')) = li_devCurrentLoad (dv_devLoadInfo (dev_at s d'))
      + (if d' = d \<and> pr_poolId prop = 0 then ?req else 0)" for d'
    using updateDeviceLoad_frame(4) [of "int d" "upd_cu d c ?f s" ?req "- 1" d'] vi v
    by (cases "pr_poolId prop = 0") (simp_all add: dev_at_upd_cu valid_cu_def)
  have s'_eq: "s' = upd_cu d c (\<lambda>_. ?g ?cu) ?s1" using run' by simp
  have "load_step d c s s'"
    unfolding load_step_def at' tot unfolding s'_eq upd_cu_loads ld by simp
  then show "grant_step prop d c i s s'"
    using step i req parts(3) by (simp add: grant_step_def at' chan_at_def)
qed

section \<open>Taking a free channel of a compute unit\<close>

definition can_take :: "cuProperty \<Rightarrow> cuData \<Rightarrow> bool" where
  "can_take prop cu \<longleftrightarrow> 0 < pr_requestLoadUnified prop \<and>
     cu_numChanInuse cu < int XRM_MAX_KERNEL_CHANNELS \<and>
     (if pr_poolId prop = 0
      then cu_totalUsedLoadUnified cu + pr_requestLoadUnified prop \<le> XRM_MAX_LOAD
      else list_ex (\<lambda>r. rs_poolId r = pr_poolId prop \<and>
             rs_usedLoadUnified r + pr_requestLoadUnified prop \<le> rs_loadUnified r) (act_reserves cu))"

text \<open>\<open>cuFindFreeChannelId\<close> finds a free channel exactly when the counter says there is one.\<close>

lemma cuFindFreeChannelId_spec:
  assumes "chans_inv cu" "cu_numChanInuse cu < int XRM_MAX_KERNEL_CHANNELS"
  shows "0 \<le> cuFindFreeChannelId cu" "nat (cuFindFreeChannelId cu) < XRM_MAX_KERNEL_CHANNELS"
    "\<not> in_use (cu_channels cu ! nat (cuFindFreeChannelId cu))"
    "\<forall>j<nat (cuFindFreeChannelId cu). in_use (cu_channels cu ! j)"
proof -
  have len: "length (cu_channels cu) = XRM_MAX_KERNEL_CHANNELS"
    and num: "cu_numChanInuse cu = int (length (filter in_use (cu_channels cu)))"
    using assms(1) by (auto simp: chans_inv_def)
  have "\<exists>i<XRM_MAX_KERNEL_CHANNELS. ch_loadUnified (cu_channels cu ! i) = 0"
  proof (rule ccontr)
    assume "\<not> ?thesis"
    then have "filter in_use (cu_channels cu) = cu_channels cu"
      using len by (auto simp: filter_id_conv in_set_conv_nth in_use_def)
    with len num assms(2) show False by simp
  qed
  then obtain i where i: "first_index XRM_MAX_KERNEL_CHANNELS
      (\<lambda>i. ch_loadUnified (cu_channels cu ! i) = 0) = Some i"
    by (cases "first_index XRM_MAX_KERNEL_CHANNELS (\<lambda>i. ch_loadUnified (cu_channels cu ! i) = 0)") auto
  have e: "cuFindFreeChannelId cu = int i" using assms(2) i by (simp add: cuFindFreeChannelId_def)
  show "0 \<le> cuFindFreeChannelId cu" "nat (cuFindFreeChannelId cu) < XRM_MAX_KERNEL_CHANNELS"
    "\<not> in_use (cu_channels cu ! nat (cuFindFreeChannelId cu))"
    "\<forall>j<nat (cuFindFreeChannelId cu). in_use (cu_channels cu ! j)"
    using first_index_SomeD [OF i] by (simp_all add: e in_use_def)
qed

lemma no_chan_in_use:
  "chans_inv cu \<Longrightarrow> cu_numChanInuse cu = 0 \<Longrightarrow> i < XRM_MAX_KERNEL_CHANNELS \<Longrightarrow>
   \<not> in_use (cu_channels cu ! i)"
  by (auto simp: chans_inv_def filter_empty_conv)

definition granted_at :: "cuProperty \<Rightarrow> nat \<Rightarrow> nat \<Rightarrow> cuResource \<Rightarrow> system \<Rightarrow> cuResource \<Rightarrow> system \<Rightarrow> bool" where
  "granted_at prop d c cuRes s cuRes' s' \<longleftrightarrow> (\<exists>i. grant_step prop d c i s s' \<and>
     cuRes' = fill_cuRes (cu_at s d c) i prop (getNextAllocServiceId s) cuRes)"

lemma take_free_channel_spec:
  assumes inv: "sys_inv s" and v: "valid_cu s d c"
    and req: "pr_clientId prop \<noteq> 0" "0 < pr_requestLoadUnified prop"
    and fits: "fits_at k prop (cu_at s d c)"
    and run: "take_free_channel d c k prop (cuRes, s) = (ret, cuRes', s')"
  shows "if cu_numChanInuse (cu_at s d c) < int XRM_MAX_KERNEL_CHANNELS
    then ret = XRM_SUCCESS \<and> granted_at prop d c cuRes s cuRes' s'
    else ret = XRM_ERROR_NO_KERNEL \<and> cuRes' = cuRes \<and> s' = s"
proof -
  let ?cu = "cu_at s d c"
  have ch: "chans_inv ?cu" using valid_cu_inv [OF inv v] by (simp add: cu_inv_def cu_acct_def)
  note spec = assign_channel_spec [OF inv v _ _ req fits]
  show ?thesis
  proof (cases "cu_numChanInuse ?cu = 0")
    case True
    have "assign_channel d c k 0 prop (cuRes, s) = (ret, cuRes', s')"
      using run True by (simp add: take_free_channel_def Let_def)
    moreover have "\<not> in_use (chan_at s d c 0)" "0 < XRM_MAX_KERNEL_CHANNELS"
      using no_chan_in_use [OF ch True, of 0] by (simp_all add: chan_at_def limit_pos)
    ultimately show ?thesis
      using spec [of 0 cuRes ret cuRes' s'] True by (auto simp: granted_at_def)
  next
    case False
    show ?thesis
    proof (cases "cu_numChanInuse ?cu < int XRM_MAX_KERNEL_CHANNELS")
      case True
      let ?i = "nat (cuFindFreeChannelId ?cu)"
      note free = cuFindFreeChannelId_spec [OF ch True]
      have "assign_channel d c k ?i prop (cuRes, s) = (ret, cuRes', s')"
      proof -
        have "\<not> (cuFindFreeChannelId ?cu < 0 \<or> cuFindFreeChannelId ?cu > int XRM_MAX_KERNEL_CHANNELS)"
          using free(1,2) by linarith
        then show ?thesis using run True False by (simp add: take_free_channel_def Let_def)
      qed
      then show ?thesis
        using spec [of ?i cuRes ret cuRes' s'] True free by (auto simp: granted_at_def chan_at_def)
    next
      case full: False
      with False run show ?thesis by (simp add: take_free_channel_def Let_def)
    qed
  qed
qed

section \<open>\<open>allocChanClientFromCu\<close>\<close>

lemma can_take_pool:
  assumes rs: "reserves_inv cu" and p: "pr_poolId prop \<noteq> 0"
    and k: "isReservePoolUsingCu cu (pr_poolId prop) \<noteq> - 1"
  defines "r \<equiv> cu_reserves cu ! nat (isReservePoolUsingCu cu (pr_poolId prop))"
  shows "can_take prop cu \<longleftrightarrow> 0 < pr_requestLoadUnified prop \<and>
      cu_numChanInuse cu < int XRM_MAX_KERNEL_CHANNELS \<and>
      rs_usedLoadUnified r + pr_requestLoadUnified prop \<le> rs_loadUnified r"
proof -
  let ?k = "nat (isReservePoolUsingCu cu (pr_poolId prop))"
  note spec = isReservePoolUsingCu_spec(2) [OF rs k]
  note nth = act_reserves_nth [OF rs spec [THEN conjunct1]]
  have uniq: "x = r" if x: "x \<in> set (act_reserves cu)" "rs_poolId x = pr_poolId prop" for x
  proof -
    obtain j where "j < length (act_reserves cu)" "act_reserves cu ! j = x"
      using x(1) by (auto simp: in_set_conv_nth)
    then have j: "j < nat (cu_numReserve cu)" "cu_reserves cu ! j = x"
      by (auto simp: act_reserves_def)
    then show ?thesis
    proof -
      have "rs_poolId (cu_reserves cu ! j) = rs_poolId (cu_reserves cu ! ?k)"
        using spec x(2) j(2) by simp
      then have "j = ?k" by (rule reserve_unique [OF rs j(1) spec [THEN conjunct1]])
      with j(2) show ?thesis by (simp only: r_def)
    qed
  qed
  have "act_reserves cu ! ?k \<in> set (act_reserves cu)" by (rule nth_mem [OF nth [THEN conjunct1]])
  then have r: "r \<in> set (act_reserves cu)" "rs_poolId r = pr_poolId prop"
    unfolding r_def nth [THEN conjunct2, THEN conjunct1] using spec by simp_all
  have "list_ex (\<lambda>r. rs_poolId r = pr_poolId prop \<and>
      rs_usedLoadUnified r + pr_requestLoadUnified prop \<le> rs_loadUnified r) (act_reserves cu) \<longleftrightarrow>
      rs_usedLoadUnified r + pr_requestLoadUnified prop \<le> rs_loadUnified r"
    unfolding list_ex_iff using uniq r by blast
  with p show ?thesis by (simp add: can_take_def)
qed

lemma can_take_no_pool:
  assumes "reserves_inv cu" "pr_poolId prop \<noteq> 0" "isReservePoolUsingCu cu (pr_poolId prop) = - 1"
  shows "\<not> can_take prop cu"
  using isReservePoolUsingCu_spec(1) [OF assms(1), of "pr_poolId prop"] assms(2,3)
  by (auto simp: can_take_def list_ex_iff pool_ids_def image_iff)

lemma allocChanClientFromCu_spec:
  assumes inv: "sys_inv s" and v: "valid_cu s d c" and req: "prop_ok prop"
    and run: "allocChanClientFromCu d c prop policyInfo preCu (cuRes, s) = (ret, preCu', cuRes', s')"
  shows "if ret = XRM_SUCCESS
      then granted_at prop d c cuRes s cuRes' s' \<and> preCu' = preCu \<and> can_take prop (cu_at s d c)
      else s' = s \<and> cuRes' = cuRes \<and>
        (can_take prop (cu_at s d c) \<longrightarrow> ret = XRM_FURTHER_CHECK \<and>
           (most_used_first policyInfo \<or> least_used_first policyInfo))"
proof -
  let ?cu = "cu_at s d c" and ?req = "pr_requestLoadUnified prop" and ?p = "pr_poolId prop"
  have acct: "cu_acct ?cu" and rs: "reserves_inv ?cu"
    using valid_cu_inv [OF inv v] by (auto simp: cu_inv_def cu_acct_def)
  have c0: "pr_clientId prop \<noteq> 0" and rq: "?req + XRM_MAX_LOAD \<le> 2147483647"
    using req by (auto simp: prop_ok_def)
  show ?thesis
  proof (cases "0 < ?req")
    case False
    with run show ?thesis by (auto simp: allocChanClientFromCu_def Let_def can_take_def)
  next
    case pos: True
    note take = take_free_channel_spec [OF inv v c0 pos]
    show ?thesis
    proof (cases "?p = 0")
      case True
      have w: "i32 (cu_totalUsedLoadUnified ?cu + ?req) = cu_totalUsedLoadUnified ?cu + ?req"
        using totals_bounds [OF acct] rq pos by simp
      have ct: "can_take prop ?cu \<longleftrightarrow> cu_numChanInuse ?cu < int XRM_MAX_KERNEL_CHANNELS \<and>
          cu_totalUsedLoadUnified ?cu + ?req \<le> XRM_MAX_LOAD"
        using True pos by (simp add: can_take_def)
      show ?thesis
        using run True pos take [of 0 cuRes ret cuRes' s'] unfolding ct
        by (auto simp: allocChanClientFromCu_def Let_def w fits_at_def split: if_splits prod.splits)
    next
      case pool: False
      let ?k = "isReservePoolUsingCu ?cu ?p"
      let ?r = "cu_reserves ?cu ! nat ?k"
      show ?thesis
      proof (cases "?k = - 1")
        case True
        with run pool pos can_take_no_pool [OF rs pool True] show ?thesis
          by (auto simp: allocChanClientFromCu_def Let_def)
      next
        case False
        note spec = isReservePoolUsingCu_spec(2) [OF rs False]
        note b = reserve_bounds [OF acct spec [THEN conjunct1]]
        have w: "i32 (rs_usedLoadUnified ?r + ?req) = rs_usedLoadUnified ?r + ?req"
          using b rq pos by simp
        have act: "rs_clientIsActive ?r"
          using act_reserve_ok(1) [OF rs spec [THEN conjunct1]] by (simp add: reserve_ok_def)
        show ?thesis
          using run pool pos False spec act take [of "nat ?k" cuRes ret cuRes' s']
          unfolding can_take_pool [OF rs pool False]
          by (auto simp: allocChanClientFromCu_def Let_def w fits_at_def split: if_splits prod.splits)
      qed
    qed
  qed
qed

lemma no_policy [simp]: "\<not> most_used_first 0" "\<not> least_used_first 0"
  by (simp_all add: most_used_first_def least_used_first_def policy_defs)

lemma allocChan_spec:
  assumes "sys_inv s" "valid_cu s d c" "prop_ok prop"
    and "allocChan d c prop (cuRes, s) = (ret, cuRes', s')"
  shows "if can_take prop (cu_at s d c)
    then ret = XRM_SUCCESS \<and> granted_at prop d c cuRes s cuRes' s'
    else ret \<noteq> XRM_SUCCESS \<and> s' = s \<and> cuRes' = cuRes"
  using assms(4) allocChanClientFromCu_spec [OF assms(1-3), of 0 None cuRes]
  by (auto simp: allocChan_def split: prod.splits if_splits)

section \<open>The searches\<close>

text \<open>The outcome of a successful allocation on device \<open>d\<close>, and of one anywhere.\<close>

definition alloc_on :: "cuProperty \<Rightarrow> nat \<Rightarrow> nat \<Rightarrow> system \<Rightarrow> cuResource \<Rightarrow> system \<Rightarrow> bool" where
  "alloc_on prop d c s cuRes s' \<longleftrightarrow> valid_cu s d c \<and> cu_matches prop (cu_at s d c) \<and>
     can_take prop (cu_at s d c) \<and> located d c cuRes \<and>
     (\<exists>i. grant_step prop d c i s s' \<and> filled prop i (getNextAllocServiceId s) cuRes)"

definition alloc_done :: "cuProperty \<Rightarrow> system \<Rightarrow> cuResource \<Rightarrow> system \<Rightarrow> bool" where
  "alloc_done prop s cuRes s' \<longleftrightarrow> (\<exists>d c. alloc_on prop d c s cuRes s')"

text \<open>The states that differ from \<open>s\<close> in the client tables of the devices only.\<close>

definition quiet :: "system \<Rightarrow> system \<Rightarrow> bool" where
  "quiet s s' \<longleftrightarrow> same_cus s s' \<and> same_loads s s'"

lemma quiet_refl [simp]: "quiet s s"
  by (simp add: quiet_def same_loads_def)

lemma quiet_trans: "quiet s t \<Longrightarrow> quiet t u \<Longrightarrow> quiet s u"
  using same_cus_trans [of s t u] by (simp add: quiet_def same_loads_def)

lemma quiet_inv: "quiet s s' \<Longrightarrow> sys_inv s \<Longrightarrow> sys_inv s'"
  "quiet s s' \<Longrightarrow> load_inv s \<Longrightarrow> load_inv s'"
  "quiet s s' \<Longrightarrow> m_numDevice s' = m_numDevice s"
  "quiet s s' \<Longrightarrow> cu_at s' d c = cu_at s d c"
  "quiet s s' \<Longrightarrow> grants s' = grants s"
  "quiet s s' \<Longrightarrow> valid_cu s' d c = valid_cu s d c"
  using same_cus_sys_inv [of s s'] same_loads_inv [of s s'] same_cus_dev [of s s' d c]
    same_cus_grants [of s s'] same_cus_fields(1) [of s s'] same_cus_valid [of s s' d c]
  by (auto simp: quiet_def)

lemma quiet_alloc_client:
  "sys_inv s \<Longrightarrow> allocClientFromDev devId prop s = (ret, s') \<Longrightarrow> quiet s s'"
  using allocClientFromDev_frame by (auto simp: quiet_def)

lemma quiet_release_client: "quiet s (snd (releaseClientOnDev devId c s))"
  using releaseClientOnDev_frame [of devId c s] by (cases "releaseClientOnDev devId c s")
    (auto simp: quiet_def)

lemma alloc_on_after:
  assumes "quiet s s1" "alloc_on prop d c s1 cuRes s'"
  shows "alloc_on prop d c s cuRes s'"
  using assms grant_step_after [of s s1 "prop" d c _ s'] same_cus_dev [of s s1 d c]
    same_cus_service [of s s1] same_cus_valid [of s s1 d c]
  unfolding alloc_on_def quiet_def by metis

lemma alloc_done_after: "quiet s s1 \<Longrightarrow> alloc_done prop s1 cuRes s' \<Longrightarrow> alloc_done prop s cuRes s'"
  unfolding alloc_done_def by (blast intro: alloc_on_after)

lemma filled_fill [simp]: "filled prop i svc (locate_cuRes dev d c (fill_cuRes cu i prop svc cuRes))"
  "located d c (locate_cuRes dev d c cuRes)"
  by (simp_all add: filled_def located_def locate_cuRes_def fill_cuRes_def)

text \<open>What an allocation step leaves behind.\<close>

lemma alloc_on_inv:
  assumes "sys_inv s" "alloc_on prop d c s cuRes s'"
  shows "sys_inv s'" "load_inv s \<Longrightarrow> load_inv s'" "m_numDevice s' = m_numDevice s"
    "m_allocServiceId s' = m_allocServiceId s"
proof -
  obtain i where g: "grant_step prop d c i s s'" using assms(2) by (auto simp: alloc_on_def)
  then have st: "cu_step d c s s'" "load_step d c s s'" by (auto simp: grant_step_def)
  show "sys_inv s'" using cu_step_sys_inv [OF assms(1) st(1)] .
  show "load_inv s \<Longrightarrow> load_inv s'" using load_step_inv [OF assms(1) st] .
  show "m_numDevice s' = m_numDevice s" "m_allocServiceId s' = m_allocServiceId s"
    using st(1) cu_frame_dev by (auto simp: cu_step_def)
qed

lemma valid_cu_ids: "sys_inv s \<Longrightarrow> int d < m_numDevice s \<Longrightarrow>
   c \<in> set (cu_ids (dev_at s d)) \<longleftrightarrow> valid_cu s d c"
  using sys_inv_dev [of s d] by (auto simp: set_cu_ids valid_cu_def dev_inv_def)

lemma try_cu_spec:
  assumes "sys_inv s" "valid_cu s d c" "prop_ok prop"
    and "try_cu prop d c (cuRes, s) = (b, cuRes', s')"
  shows "if b then alloc_on prop d c s cuRes' s' else s' = s \<and> cuRes' = cuRes"
    "b \<longleftrightarrow> cu_matches prop (cu_at s d c) \<and> can_take prop (cu_at s d c)"
proof -
  obtain ret r1 s1 where run: "allocChan d c prop (cuRes, s) = (ret, r1, s1)" by (metis prod_cases3)
  note spec = allocChan_spec [OF assms(1-3) run]
  show "if b then alloc_on prop d c s cuRes' s' else s' = s \<and> cuRes' = cuRes"
    "b \<longleftrightarrow> cu_matches prop (cu_at s d c) \<and> can_take prop (cu_at s d c)"
    using assms(2,4) run spec
    by (auto simp: try_cu_def alloc_on_def granted_at_def split: if_splits)
qed

definition scan_can :: "bool \<Rightarrow> cuProperty \<Rightarrow> cuData \<Rightarrow> bool" where
  "scan_can aff prop cu \<longleftrightarrow> \<not> affinity_skip aff cu \<and> cu_matches prop cu \<and> can_take prop cu"

lemma scan_cus_spec:
  assumes inv: "sys_inv s" and d: "int d < m_numDevice s" and req: "prop_ok prop"
    and run: "scan_cus aff prop d (cuRes, s) = (b, cuRes', s')"
  shows "if b then \<exists>c. alloc_on prop d c s cuRes' s' \<and> scan_can aff prop (cu_at s d c) \<and>
             (\<forall>c'<c. \<not> scan_can aff prop (cu_at s d c'))
         else s' = s \<and> cuRes' = cuRes \<and> (\<forall>c. valid_cu s d c \<longrightarrow> \<not> scan_can aff prop (cu_at s d c))"
proof -
  let ?body = "\<lambda>c (cuRes, s). if affinity_skip aff (cu_at s d c) then (False, cuRes, s)
     else try_cu prop d c (cuRes, s)"
  note ids = valid_cu_ids [OF inv d]
  have ok: "(b1 \<longleftrightarrow> scan_can aff prop (cu_at s d c)) \<and>
      (if b1 then alloc_on prop d c s (fst a1) (snd a1) else a1 = (cuRes, s))"
    if c: "c \<in> set (cu_ids (dev_at s d))" and x: "x = (cuRes, s)" and run1: "?body c x = (b1, a1)"
    for c x b1 a1
  proof (cases "affinity_skip aff (cu_at s d c)")
    case True
    with run1 x show ?thesis by (auto simp: scan_can_def)
  next
    case False
    with run1 x have "try_cu prop d c (cuRes, s) = (b1, fst a1, snd a1)" by simp
    from try_cu_spec [OF inv c [unfolded ids] req this] False show ?thesis
      by (auto simp: scan_can_def prod_eq_iff)
  qed
  have ua: "until_acquired ?body (cu_ids (dev_at s d)) (cuRes, s) = (b, (cuRes', s'))"
    using run by (simp add: scan_cus_def)
  have res: "if b then \<exists>pre c post. cu_ids (dev_at s d) = pre @ c # post \<and>
        alloc_on prop d c s (fst (cuRes', s')) (snd (cuRes', s')) \<and> scan_can aff prop (cu_at s d c) \<and>
        (\<forall>j\<in>set pre. \<not> scan_can aff prop (cu_at s d j))
      else (cuRes', s') = (cuRes, s) \<and>
        (\<forall>c\<in>set (cu_ids (dev_at s d)). \<not> scan_can aff prop (cu_at s d c))"
    by (rule first_fit [where R = "\<lambda>x. x = (cuRes, s)" and body = ?body and
        Q = "\<lambda>c a1. alloc_on prop d c s (fst a1) (snd a1)" and
        can = "\<lambda>c. scan_can aff prop (cu_at s d c)", OF refl ok ua])
  show ?thesis
  proof (cases b)
    case False
    then show ?thesis using res ids by simp
  next
    case True
    then obtain pre c post where 1: "cu_ids (dev_at s d) = pre @ c # post"
        "alloc_on prop d c s cuRes' s'" "scan_can aff prop (cu_at s d c)"
        "\<forall>j\<in>set pre. \<not> scan_can aff prop (cu_at s d j)" using res by auto
    have "pre = [0..<c]" using 1(1) unfolding cu_ids_def by (rule upt_split)
    with 1 True show ?thesis by auto
  qed
qed

text \<open>Under the invariant each compute unit belongs to exactly one of the two passes.\<close>

lemma scan_can_either:
  "cu_inv cu \<Longrightarrow> cu_matches prop cu \<and> can_take prop cu \<longleftrightarrow>
     scan_can True prop cu \<or> scan_can False prop cu"
  by (auto simp: scan_can_def affinity_skip_def cu_inv_def clients_inv_def clients_arr_def)

lemma scan_both_spec:
  assumes inv: "sys_inv s" and d: "int d < m_numDevice s" and req: "prop_ok prop"
    and run: "scan_both prop d (cuRes, s) = (b, cuRes', s')"
  shows "if b then \<exists>c. alloc_on prop d c s cuRes' s' \<and>
             (cu_numClient (cu_at s d c) = 0 \<longrightarrow>
               (\<forall>c'. valid_cu s d c' \<and> cu_matches prop (cu_at s d c') \<and> can_take prop (cu_at s d c')
                  \<longrightarrow> cu_numClient (cu_at s d c') = 0))
         else s' = s \<and> cuRes' = cuRes \<and>
           (\<forall>c. valid_cu s d c \<longrightarrow> \<not> (cu_matches prop (cu_at s d c) \<and> can_take prop (cu_at s d c)))"
proof -
  obtain b1 r1 s1 where run1: "scan_cus True prop d (cuRes, s) = (b1, r1, s1)" by (metis prod_cases3)
  note first = scan_cus_spec [OF inv d req run1]
  have ci: "valid_cu s d c \<Longrightarrow> cu_inv (cu_at s d c)" for c using valid_cu_inv [OF inv] by blast
  show ?thesis
  proof (cases b1)
    case True
    with run run1 have "b \<and> cuRes' = r1 \<and> s' = s1" by (simp add: scan_both_def)
    with first True show ?thesis by (auto simp: scan_can_def affinity_skip_def)
  next
    case False
    with first run run1 have run2: "scan_cus False prop d (cuRes, s) = (b, cuRes', s')"
      by (simp add: scan_both_def)
    note second = scan_cus_spec [OF inv d req run2]
    have none: "valid_cu s d c \<Longrightarrow> \<not> scan_can True prop (cu_at s d c)" for c
      using first False by simp
    show ?thesis
    proof (cases b)
      case True
      then obtain c where c: "alloc_on prop d c s cuRes' s'" using second by auto
      have "cu_numClient (cu_at s d c') = 0"
        if "valid_cu s d c'" "cu_matches prop (cu_at s d c')" "can_take prop (cu_at s d c')" for c'
        using none [OF that(1)] that(2,3) by (auto simp: scan_can_def affinity_skip_def)
      with c True show ?thesis by auto
    next
      case False
      then show ?thesis using second none scan_can_either [OF ci] by auto
    qed
  qed
qed

lemma allocCuFromDev_spec:
  assumes "sys_inv s" "prop_ok prop" "allocCuFromDev devId prop (cuRes, s) = (ret, cuRes', s')"
  shows "if ret = XRM_SUCCESS
      then 0 \<le> devId \<and> devId < m_numDevice s \<and> (\<exists>c. alloc_on prop (nat devId) c s cuRes' s')
      else s' = s \<and> cuRes' = cuRes"
    "0 \<le> devId \<Longrightarrow> devId < m_numDevice s \<Longrightarrow> \<not> no_name prop \<Longrightarrow>
      ret = XRM_SUCCESS \<longleftrightarrow> (\<exists>c. valid_cu s (nat devId) c \<and>
        cu_matches prop (cu_at s (nat devId) c) \<and> can_take prop (cu_at s (nat devId) c))"
proof -
  obtain b r1 s1 where run: "scan_both prop (nat devId) (cuRes, s) = (b, r1, s1)" by (metis prod_cases3)
  note spec = scan_both_spec [OF assms(1) _ assms(2) run]
  show "if ret = XRM_SUCCESS
      then 0 \<le> devId \<and> devId < m_numDevice s \<and> (\<exists>c. alloc_on prop (nat devId) c s cuRes' s')
      else s' = s \<and> cuRes' = cuRes"
    using assms(3) run spec by (auto simp: allocCuFromDev_def split: if_splits)
  assume d: "0 \<le> devId" "devId < m_numDevice s" "\<not> no_name prop"
  then have "ret = XRM_SUCCESS \<longleftrightarrow> b" using assms(3) run by (auto simp: allocCuFromDev_def split: if_splits)
  moreover have "b \<longleftrightarrow> (\<exists>c. valid_cu s (nat devId) c \<and>
        cu_matches prop (cu_at s (nat devId) c) \<and> can_take prop (cu_at s (nat devId) c))"
    using spec d by (cases b) (auto simp: alloc_on_def)
  ultimately show "ret = XRM_SUCCESS \<longleftrightarrow> (\<exists>c. valid_cu s (nat devId) c \<and>
        cu_matches prop (cu_at s (nat devId) c) \<and> can_take prop (cu_at s (nat devId) c))" by simp
qed

section \<open>Allocation from any device\<close>

lemma resAllocCu_try_spec:
  assumes inv: "sys_inv s" and d: "int d < m_numDevice s" and req: "prop_ok prop"
    and run: "resAllocCu_try aff prop d (cuRes, s) = (b, cuRes', s')"
  shows "if b then alloc_done prop s cuRes' s' else quiet s s'"
proof -
  obtain ret s1 where a: "allocClientFromDev (int d) prop s = (ret, s1)" by fastforce
  obtain b2 r2 s2 where sc: "scan_cus aff prop d (cuRes, s1) = (b2, r2, s2)" by (metis prod_cases3)
  have q: "quiet s s1" by (rule quiet_alloc_client [OF inv a])
  note q1 = quiet_inv(1) [OF q inv] quiet_inv(3) [OF q]
  have spec: "if b2 then alloc_done prop s r2 s2 else s2 = s1"
  proof (cases b2)
    case True
    then obtain c where "alloc_on prop d c s1 r2 s2"
      using scan_cus_spec [OF q1(1) _ req sc] q1(2) d by auto
    then have "alloc_on prop d c s r2 s2" by (rule alloc_on_after [OF q])
    then show ?thesis using True by (auto simp: alloc_done_def)
  next
    case False
    then show ?thesis using scan_cus_spec [OF q1(1) _ req sc] q1(2) d by simp
  qed
  show ?thesis
    using run a sc spec q quiet_trans [OF q quiet_release_client]
    by (auto simp: resAllocCu_try_def split: if_splits)
qed

interpretation alloc_try: device_body "resAllocCu_try aff prop"
    "\<lambda>_ s1. prop_ok prop \<and> sys_inv s \<and> quiet s s1" "alloc_done prop s" clientId
  for aff :: bool and "prop" :: cuProperty and s :: system and clientId :: u64
proof unfold_locales
  fix s1 s2 :: system and d :: nat and a a' :: cuResource
  assume P: "prop_ok prop \<and> sys_inv s \<and> quiet s s1" and d: "int d < m_numDevice s1"
  then have i1: "sys_inv s1" and q: "quiet s s1" and req: "prop_ok prop" using quiet_inv(1) by auto
  note spec = resAllocCu_try_spec [OF i1 d req]
  show "(prop_ok prop \<and> sys_inv s \<and> quiet s s2) \<and> m_numDevice s2 = m_numDevice s1"
    if "resAllocCu_try aff prop d (a, s1) = (False, a', s2)"
    using spec [OF that] P quiet_trans [OF q] quiet_inv(3) [of s1 s2] by simp
  show "alloc_done prop s a' s2" if "resAllocCu_try aff prop d (a, s1) = (True, a', s2)"
    using spec [OF that] alloc_done_after [OF q] by simp
qed

definition alloc_result :: "cuProperty \<Rightarrow> bool \<Rightarrow> system \<Rightarrow> int \<Rightarrow> cuResource \<Rightarrow> system \<Rightarrow> bool" where
  "alloc_result prop updateId s ret cuRes' s' \<longleftrightarrow>
     (if ret = XRM_SUCCESS
      then \<exists>t. alloc_done prop s cuRes' t \<and> s' = (if updateId then updateAllocServiceId t else t)
      else quiet s s')"

lemma resAllocCu_spec:
  assumes inv: "sys_inv s" and req: "prop_ok prop"
    and run: "resAllocCu prop updateId (cuRes, s) = (ret, cuRes', s')"
  shows "alloc_result prop updateId s ret cuRes' s'"
proof (cases "no_name prop")
  case True
  with run show ?thesis by (simp add: resAllocCu_def alloc_result_def)
next
  case False
  obtain b1 r1 s1 where 1: "search_devices (resAllocCu_try True prop) prop (cuRes, s) = (b1, r1, s1)"
    by (metis prod_cases3)
  obtain b2 r2 s2 where 2: "search_devices (resAllocCu_try False prop) prop (r1, s1) = (b2, r2, s2)"
    by (metis prod_cases3)
  note s1 = alloc_try.search_devices_inv [of "prop" s s, OF _ refl 1]
  show ?thesis
  proof (cases b1)
    case True
    with 1 run s1 False inv req show ?thesis by (auto simp: resAllocCu_def alloc_result_def)
  next
    case nb: False
    then have q: "quiet s s1" using s1 inv req by simp
    have "if b2 then alloc_done prop s r2 s2 else quiet s s2"
      using alloc_try.search_devices_inv [of "prop" s s1, OF _ refl 2] q inv req
      by (simp split: if_splits)
    with 1 2 run nb False show ?thesis by (auto simp: resAllocCu_def alloc_result_def split: if_splits)
  qed
qed

lemma alloc_result_inv:
  assumes "sys_inv s" "alloc_result prop updateId s ret cuRes' s'"
  shows "sys_inv s'" "load_inv s \<Longrightarrow> load_inv s'" "m_numDevice s' = m_numDevice s"
  using assms alloc_on_inv [OF assms(1)] quiet_inv [of s s']
  by (auto simp: alloc_result_def alloc_done_def split: if_splits)

lemma resAllocCuFromDev_spec:
  assumes inv: "sys_inv s" and req: "prop_ok prop"
    and run: "resAllocCuFromDev deviceId prop updateId (cuRes, s) = (ret, cuRes', s')"
  shows "alloc_result prop updateId s ret cuRes' s'"
    "ret = XRM_SUCCESS \<Longrightarrow> re_deviceId cuRes' = deviceId"
    "ret = XRM_ERROR_NO_KERNEL \<Longrightarrow> \<not> (\<exists>c. valid_cu s (nat deviceId) c \<and>
        cu_matches prop (cu_at s (nat deviceId) c) \<and> can_take prop (cu_at s (nat deviceId) c))"
proof -
  let ?d = "nat deviceId"
  obtain r0 s1 where a: "allocClientFromDev deviceId prop s = (r0, s1)" by fastforce
  obtain b2 r2 s2 where sc: "scan_both prop ?d (cuRes, s1) = (b2, r2, s2)" by (metis prod_cases3)
  have q: "quiet s s1" by (rule quiet_alloc_client [OF inv a])
  note q1 = quiet_inv(1) [OF q inv] quiet_inv(3,4,6) [OF q]
  have dn: "int ?d < m_numDevice s" if "dev_refuses deviceId prop s = None"
    using that by (auto simp: dev_refuses_def Let_def split: if_splits)
  have dd: "int ?d = deviceId" if "dev_refuses deviceId prop s = None"
    using that by (auto simp: dev_refuses_def Let_def split: if_splits)
  have spec: "if b2 then \<exists>c. alloc_on prop ?d c s r2 s2
      else s2 = s1 \<and> (\<forall>c. valid_cu s ?d c \<longrightarrow> \<not> (cu_matches prop (cu_at s ?d c) \<and> can_take prop (cu_at s ?d c)))"
    if fine: "dev_refuses deviceId prop s = None"
  proof (cases b2)
    case True
    then obtain c where "alloc_on prop ?d c s1 r2 s2"
      using scan_both_spec [OF q1(1) _ req sc] q1(2) dn [OF fine] by auto
    then have "alloc_on prop ?d c s r2 s2" by (rule alloc_on_after [OF q])
    then show ?thesis using True by auto
  next
    case False
    then show ?thesis using scan_both_spec [OF q1(1) _ req sc] q1(2-) dn [OF fine] by simp
  qed
  have err: "e \<in> {XRM_ERROR_INVALID, XRM_ERROR_NO_DEV}" if "dev_refuses deviceId prop s = Some e" for e
    using that by (auto simp: dev_refuses_def Let_def split: if_splits)
  have ok: "alloc_done prop s r2 s2 \<and> re_deviceId r2 = deviceId"
    if b: "b2" and fine: "dev_refuses deviceId prop s = None"
  proof -
    obtain c where c: "alloc_on prop ?d c s r2 s2" using spec [OF fine] b by auto
    then have "re_deviceId r2 = deviceId" using dd [OF fine] by (simp add: alloc_on_def located_def)
    with c show ?thesis by (auto simp only: alloc_done_def)
  qed
  show "alloc_result prop updateId s ret cuRes' s'"
    using run a sc ok spec err q quiet_trans [OF q quiet_release_client]
    by (auto simp: resAllocCuFromDev_def alloc_result_def split: option.splits if_splits)
  show "re_deviceId cuRes' = deviceId" if "ret = XRM_SUCCESS"
    using that run a sc ok err
    by (auto simp: resAllocCuFromDev_def split: option.splits if_splits)
  show "\<not> (\<exists>c. valid_cu s ?d c \<and> cu_matches prop (cu_at s ?d c) \<and> can_take prop (cu_at s ?d c))"
    if "ret = XRM_ERROR_NO_KERNEL"
    using that run a sc spec err
    by (auto simp: resAllocCuFromDev_def split: option.splits if_splits)
qed

section \<open>The least used compute unit of a device\<close>

lemma candidates_mem:
  "x \<in> set (least_used_candidates prop d s) \<longleftrightarrow> (\<exists>c\<in>set (cu_ids (dev_at s d)).
     x = (cu_totalUsedLoadUnified (cu_at s d c), c) \<and> cu_matches prop (cu_at s d c) \<and>
     i32 (pr_requestLoadUnified prop + cu_totalUsedLoadUnified (cu_at s d c)) \<le> XRM_MAX_LOAD)"
  by (auto simp: least_used_candidates_def)

lemma try_candidate_spec:
  assumes inv: "sys_inv s" and q: "quiet s s1" and v: "valid_cu s d c" and req: "prop_ok prop"
    and m: "cu_matches prop (cu_at s d c)"
    and run: "try_candidate prop d (l, c) (cuRes, s1) = (b, cuRes', s')"
  shows "b \<longleftrightarrow> can_take prop (cu_at s d c)"
    "if b then alloc_on prop d c s cuRes' s' else quiet s s'"
proof -
  obtain ret r1 s2 where a: "allocChan d c prop (cuRes, s1) = (ret, r1, s2)" by (metis prod_cases3)
  note q1 = quiet_inv(1) [OF q inv] quiet_inv(4,6) [OF q]
  have v1: "valid_cu s1 d c" using q1(3) v by simp
  note spec = allocChan_spec [OF q1(1) v1 req a]
  show b: "b \<longleftrightarrow> can_take prop (cu_at s d c)"
    using run a spec q1(2) by (auto simp: try_candidate_def split: if_splits)
  show "if b then alloc_on prop d c s cuRes' s' else quiet s s'"
  proof (cases b)
    case True
    then have "alloc_on prop d c s1 cuRes' s'"
      using run a spec q1(2) v1 m b
      by (auto simp: try_candidate_def alloc_on_def granted_at_def split: if_splits)
    with True show ?thesis using alloc_on_after [OF q] by simp
  next
    case False
    with run a spec b q1(2) show ?thesis
      using quiet_trans [OF q quiet_release_client] by (auto simp: try_candidate_def split: if_splits)
  qed
qed

text \<open>The choice among the candidates: the least used one that can take the request.\<close>

lemma candidates_search:
  assumes inv: "sys_inv s" and q: "quiet s s1" and d: "int d < m_numDevice s" and req: "prop_ok prop"
    and run: "until_acquired (try_candidate prop d) (least_used_candidates prop d s) (cuRes, s1) =
      (b, cuRes', s')"
  shows "if b then \<exists>c. alloc_on prop d c s cuRes' s' \<and>
        (\<forall>x\<in>set (least_used_candidates prop d s). can_take prop (cu_at s d (snd x)) \<longrightarrow>
           cu_totalUsedLoadUnified (cu_at s d c) \<le> fst x)
      else quiet s s' \<and> (\<forall>x\<in>set (least_used_candidates prop d s). \<not> can_take prop (cu_at s d (snd x)))"
proof -
  let ?xs = "least_used_candidates prop d s"
  have ok: "(b1 \<longleftrightarrow> can_take prop (cu_at s d (snd x))) \<and>
      (if b1 then alloc_on prop d (snd x) s (fst a1) (snd a1) else quiet s (snd a1))"
    if x: "x \<in> set ?xs" and st: "quiet s (snd st)" and run1: "try_candidate prop d x st = (b1, a1)"
    for x st b1 a1
  proof -
    obtain c where c: "c \<in> set (cu_ids (dev_at s d))" "x = (cu_totalUsedLoadUnified (cu_at s d c), c)"
        "cu_matches prop (cu_at s d c)"
      using x unfolding candidates_mem by blast
    have "try_candidate prop d (cu_totalUsedLoadUnified (cu_at s d c), c) (fst st, snd st) =
        (b1, fst a1, snd a1)" using run1 c(2) by simp
    from try_candidate_spec [OF inv st _ req c(3) this] c(1,2) show ?thesis
      by (simp add: valid_cu_ids [OF inv d])
  qed
  have res: "if b then \<exists>pre x post. ?xs = pre @ x # post \<and>
        alloc_on prop d (snd x) s (fst (cuRes', s')) (snd (cuRes', s')) \<and>
        can_take prop (cu_at s d (snd x)) \<and> (\<forall>j\<in>set pre. \<not> can_take prop (cu_at s d (snd j)))
      else quiet s (snd (cuRes', s')) \<and> (\<forall>x\<in>set ?xs. \<not> can_take prop (cu_at s d (snd x)))"
    by (rule first_fit [where R = "\<lambda>x. quiet s (snd x)" and
        Q = "\<lambda>x a1. alloc_on prop d (snd x) s (fst a1) (snd a1)" and
        can = "\<lambda>x. can_take prop (cu_at s d (snd x))", OF _ ok run]) (simp add: q)
  show ?thesis
  proof (cases b)
    case False
    with res show ?thesis by simp
  next
    case True
    then obtain pre x post where 1: "?xs = pre @ x # post" "alloc_on prop d (snd x) s cuRes' s'"
        "\<forall>j\<in>set pre. \<not> can_take prop (cu_at s d (snd j))" using res by auto
    have "sorted ?xs" by (simp add: least_used_candidates_def)
    then have "sorted (pre @ x # post)" by (simp only: 1(1))
    then have ge: "fst x \<le> fst y" if "y \<in> set post" for y
      using that by (auto simp: sorted_append less_eq_prod_def)
    have "x \<in> set ?xs" using 1(1) by simp
    then have fx: "fst x = cu_totalUsedLoadUnified (cu_at s d (snd x))"
      unfolding candidates_mem by auto
    have "fst x \<le> fst y" if "y \<in> set ?xs" "can_take prop (cu_at s d (snd y))" for y
    proof -
      have "y \<in> set pre \<or> y = x \<or> y \<in> set post" using that(1) unfolding 1(1) by auto
      then show ?thesis using that(2) ge [of y] 1(3) by blast
    qed
    with 1(2) fx True show ?thesis by auto
  qed
qed

lemma resAllocLeastUsedCuFromDev_spec:
  assumes inv: "sys_inv s" and req: "prop_ok prop"
    and run: "resAllocLeastUsedCuFromDev deviceId prop updateId (cuRes, s) = (ret, cuRes', s')"
  shows "alloc_result prop updateId s ret cuRes' s'"
proof -
  let ?d = "nat deviceId"
  obtain r0 s1 where a: "allocClientFromDev deviceId prop s = (r0, s1)" by fastforce
  obtain b2 r2 s2 where sc: "scan_cus False prop ?d (cuRes, s1) = (b2, r2, s2)" by (metis prod_cases3)
  obtain b3 r3 s3 where ua: "until_acquired (try_candidate prop ?d)
      (least_used_candidates prop ?d s2) (r2, s2) = (b3, r3, s3)" by (metis prod_cases3)
  have q: "quiet s s1" by (rule quiet_alloc_client [OF inv a])
  note q1 = quiet_inv(1) [OF q inv] quiet_inv(3) [OF q]
  have err: "e \<in> {XRM_ERROR_INVALID, XRM_ERROR_NO_DEV}" if "dev_refuses deviceId prop s = Some e" for e
    using that by (auto simp: dev_refuses_def Let_def split: if_splits)
  have dn: "int ?d < m_numDevice s1" if "dev_refuses deviceId prop s = None"
    using that q1(2) by (auto simp: dev_refuses_def Let_def split: if_splits)
  have spec: "if b2 then alloc_done prop s r2 s2 else s2 = s1"
    if fine: "dev_refuses deviceId prop s = None"
  proof (cases b2)
    case True
    then obtain c where "alloc_on prop ?d c s1 r2 s2"
      using scan_cus_spec [OF q1(1) dn [OF fine] req sc] by auto
    then have "alloc_on prop ?d c s r2 s2" by (rule alloc_on_after [OF q])
    then show ?thesis using True by (auto simp: alloc_done_def)
  next
    case False
    then show ?thesis using scan_cus_spec [OF q1(1) dn [OF fine] req sc] by simp
  qed
  have spec3: "if b3 then alloc_done prop s r3 s3 else quiet s s3"
    if fine: "dev_refuses deviceId prop s = None" and nb: "\<not> b2"
  proof -
    have s2: "s2 = s1" using spec [OF fine] nb by simp
    note cs = candidates_search [OF q1(1) quiet_refl dn [OF fine] req ua [unfolded s2]]
    show ?thesis
    proof (cases b3)
      case True
      then obtain c where "alloc_on prop ?d c s1 r3 s3" using cs by auto
      then have "alloc_on prop ?d c s r3 s3" by (rule alloc_on_after [OF q])
      then show ?thesis using True by (auto simp: alloc_done_def)
    next
      case False
      then show ?thesis using cs quiet_trans [OF q] by simp
    qed
  qed
  show ?thesis
    using run a sc ua spec spec3 err q
    by (auto simp: resAllocLeastUsedCuFromDev_def alloc_result_def Let_def split: option.splits if_splits)
qed

end
