(* ===== verification/Xrm_Release.thy ===== *)
theory Xrm_Release
  imports Xrm_Alloc_Inv
begin

text \<open>
  Release: giving one channel back (\<open>resReleaseCu\<close>), the list and group variants, releasing every
  channel a client holds on a device (\<open>releaseAllCuChanClientOnDev\<close>) and recycling everything of a
  client whose connection broke (\<open>recycleResource\<close>).
\<close>

section \<open>Giving a channel back\<close>

text \<open>
  The load goes back to the reservation the channel was allocated from when that is still active,
  and to the default pool otherwise; then the channel's slot is cleared.
\<close>

definition give_back :: "nat \<Rightarrow> nat \<Rightarrow> nat \<Rightarrow> int \<Rightarrow> system \<Rightarrow> system" where
  "give_back d c i reserveIdx s =
     (let cu = cu_at s d c; load = ch_loadUnified (cu_channels cu ! i)
      in upd_cu d c (give_channel i)
           (if reserveIdx \<noteq> - 1 then upd_cu d c (use_reserve (nat reserveIdx) (- load)) s
            else updateDeviceLoad (cu_deviceId cu) (- load) (- 1) (upd_cu d c (use_default (- load)) s)))"

definition release_idx :: "cuData \<Rightarrow> u64 \<Rightarrow> int" where
  "release_idx cu poolId =
     (if poolId = 0 then - 1
      else let reserveIdx = isReservePoolUsingCu cu poolId
           in if reserveIdx \<noteq> - 1 \<and> rs_clientIsActive (cu_reserves cu ! nat reserveIdx)
              then reserveIdx else - 1)"

definition release_matches :: "cuResource \<Rightarrow> channelData \<Rightarrow> bool" where
  "release_matches cuRes ch \<longleftrightarrow> ch_allocServiceId ch = re_allocServiceId cuRes \<and>
     ch_poolId ch = re_poolId cuRes \<and> ch_clientId ch = re_clientId cuRes \<and>
     ch_channelId ch = re_channelId cuRes"

text \<open>
  One iteration of the channel loop of \<open>resReleaseCu\<close>: the result code, the number of other channels
  of the client, the system.
\<close>

definition release_chan :: "cuResource \<Rightarrow> nat \<Rightarrow> nat \<Rightarrow> nat \<Rightarrow> int \<times> nat \<times> system \<Rightarrow>
    int \<times> nat \<times> system" where
  "release_chan cuRes d c i = (\<lambda>(ret, procChanCnt, s).
     (let ch = cu_channels (cu_at s d c) ! i
      in if \<not> release_matches cuRes ch
         then (ret, if ch_clientId ch = re_clientId cuRes then procChanCnt + 1 else procChanCnt, s)
         else (XRM_SUCCESS, procChanCnt,
               snd (releaseClientOnDev (int d) (re_clientId cuRes)
                 (give_back d c i (release_idx (cu_at s d c) (re_poolId cuRes)) s)))))"

definition resReleaseCu :: "cuResource \<Rightarrow> system \<Rightarrow> int \<times> system" where
  "resReleaseCu cuRes s =
     (let devId = re_deviceId cuRes; cuId = re_cuId cuRes; chanId = re_channelId cuRes;
          d = nat devId; c = nat cuId
      in if devId < 0 \<or> devId > m_numDevice s then (XRM_ERROR_INVALID, s)
         else if cuId < 0 \<or> cuId > int XRM_MAX_XILINX_KERNELS then (XRM_ERROR_INVALID, s)
         else if chanId < 0 \<or> chanId > int XRM_MAX_KERNEL_CHANNELS then (XRM_ERROR_INVALID, s)
         else if devId \<ge> int (length (m_devList s)) then (XRM_ERROR, fault s)
         else if \<not> dv_isLoaded (dev_at s d) then (XRM_ERROR, s)
         else if cuId \<ge> numCu (dev_at s d) then (XRM_ERROR, s)
         else case fold (release_chan cuRes d c) [0..<XRM_MAX_KERNEL_CHANNELS] (XRM_ERROR, 0, s) of
                (ret, procChanCnt, s') \<Rightarrow>
                  (ret, if procChanCnt = 0 then upd_cu d c (removeClientOnCu (re_clientId cuRes)) s'
                        else s'))"

definition resReleaseCuV2 :: "cuResource \<Rightarrow> system \<Rightarrow> int \<times> system" where
  "resReleaseCuV2 cuRes s = (case resReleaseCu cuRes s of (ret, s') \<Rightarrow> (ret, s'))"

text \<open>The list operations release their members in order and stop at the first failure.\<close>

fun release_all :: "(cuResource \<Rightarrow> system \<Rightarrow> int \<times> system) \<Rightarrow> cuResource list \<Rightarrow> system \<Rightarrow>
    int \<times> system" where
  "release_all release [] s = (XRM_SUCCESS, s)"
| "release_all release (r # rs) s =
     (case release r s of (ret, s') \<Rightarrow>
        if ret \<noteq> XRM_SUCCESS then (ret, s') else release_all release rs s')"

definition resReleaseCuList :: "cuListResource \<Rightarrow> system \<Rightarrow> int \<times> system" where
  "resReleaseCuList cuListRes s =
     (if lr_cuNum cuListRes < 0 \<or> lr_cuNum cuListRes > int XRM_MAX_LIST_CU_NUM then (XRM_ERROR_INVALID, s)
      else if lr_cuNum cuListRes = 0 then (XRM_SUCCESS, s)
      else release_all resReleaseCu (take (nat (lr_cuNum cuListRes)) (lr_cuResources cuListRes)) s)"

definition resReleaseCuListV2 :: "cuListResource \<Rightarrow> system \<Rightarrow> int \<times> system" where
  "resReleaseCuListV2 cuListResV2 s =
     (if lr_cuNum cuListResV2 < 0 \<or> lr_cuNum cuListResV2 > int XRM_MAX_LIST_CU_NUM_V2
      then (XRM_ERROR_INVALID, s)
      else if lr_cuNum cuListResV2 = 0 then (XRM_SUCCESS, s)
      else release_all resReleaseCuV2 (take (nat (lr_cuNum cuListResV2)) (lr_cuResources cuListResV2)) s)"

definition resReleaseCuGroup :: "cuListResource \<Rightarrow> system \<Rightarrow> int \<times> system" where
  "resReleaseCuGroup cuGroupRes s =
     (if lr_cuNum cuGroupRes < 0 \<or> lr_cuNum cuGroupRes > int XRM_MAX_GROUP_CU_NUM
      then (XRM_ERROR_INVALID, s)
      else if lr_cuNum cuGroupRes = 0 then (XRM_SUCCESS, s)
      else release_all resReleaseCu (take (nat (lr_cuNum cuGroupRes)) (lr_cuResources cuGroupRes)) s)"

definition resReleaseCuGroupV2 :: "cuListResource \<Rightarrow> system \<Rightarrow> int \<times> system" where
  "resReleaseCuGroupV2 cuGroupRes s =
     (if lr_cuNum cuGroupRes < 0 \<or> lr_cuNum cuGroupRes > int XRM_MAX_GROUP_CU_NUM_V2
      then (XRM_ERROR_INVALID, s)
      else if lr_cuNum cuGroupRes = 0 then (XRM_SUCCESS, s)
      else release_all resReleaseCuV2 (take (nat (lr_cuNum cuGroupRes)) (lr_cuResources cuGroupRes)) s)"

section \<open>Releasing everything a client holds on a device\<close>

text \<open>The first active reservation with the channel's pool id, or -1.\<close>

definition active_reserve_idx :: "cuData \<Rightarrow> u64 \<Rightarrow> int" where
  "active_reserve_idx cu poolId =
     (if poolId = 0 then - 1
      else case first_index (nat (cu_numReserve cu))
                  (\<lambda>k. rs_clientIsActive (cu_reserves cu ! k) \<and> rs_poolId (cu_reserves cu ! k) = poolId) of
             Some k \<Rightarrow> int k
           | None \<Rightarrow> - 1)"

definition release_client_chan :: "u64 \<Rightarrow> nat \<Rightarrow> nat \<Rightarrow> nat \<Rightarrow> system \<Rightarrow> system" where
  "release_client_chan clientId d c j s =
     (let cu = cu_at s d c; ch = cu_channels cu ! j
      in if ch_clientId ch = 0 \<or> ch_clientId ch \<noteq> clientId then s
         else give_back d c j (active_reserve_idx cu (ch_poolId ch)) s)"

definition release_client_cu :: "u64 \<Rightarrow> nat \<Rightarrow> nat \<Rightarrow> system \<Rightarrow> system" where
  "release_client_cu clientId d c s =
     (if clientId \<noteq> 0 \<and> isClientUsingCu (cu_at s d c) clientId < 0 then s
      else fold (release_client_chan clientId d c) [0..<XRM_MAX_KERNEL_CHANNELS]
             (upd_cu d c (removeClientOnCu clientId) s))"

definition releaseAllCuChanClientOnDev :: "nat \<Rightarrow> u64 \<Rightarrow> system \<Rightarrow> system" where
  "releaseAllCuChanClientOnDev d clientId s =
     fold (release_client_cu clientId d) (cu_ids (dev_at s d)) s"

section \<open>Recycling a client\<close>

text \<open>
  The reservations of the client on one compute unit; after a slot is removed the next reservation
  has moved into its place. The second component is \<open>tmp_sum\<close>.
\<close>

definition close_reserve :: "nat \<Rightarrow> cuData \<Rightarrow> cuData" where
  "close_reserve i cu = drop_reserve i (cu\<lparr>
     cu_totalUsedLoadUnified := cu_totalUsedLoadUnified cu
       - (rs_loadUnified (cu_reserves cu ! i) - rs_usedLoadUnified (cu_reserves cu ! i)),
     cu_totalReservedLoadUnified := cu_totalReservedLoadUnified cu
       - rs_loadUnified (cu_reserves cu ! i)\<rparr>)"

function recycle_reserves :: "u64 \<Rightarrow> nat \<Rightarrow> cuData \<Rightarrow> int \<Rightarrow> cuData \<times> int" where
  "recycle_reserves clientId reserveIdx cu tmp_sum =
     (if int reserveIdx < cu_numReserve cu then
        (let r = cu_reserves cu ! reserveIdx
         in if rs_clientIsActive r \<and> rs_clientId r = clientId
            then recycle_reserves clientId reserveIdx (close_reserve reserveIdx cu)
                   (tmp_sum - (rs_loadUnified r - rs_usedLoadUnified r))
            else recycle_reserves clientId (reserveIdx + 1) cu tmp_sum)
      else (cu, tmp_sum))"
  by pat_completeness auto
termination
  by (relation "measure (\<lambda>(clientId, i, cu, t). nat (cu_numReserve cu) - i)")
    (auto simp: close_reserve_def drop_reserve_def)

declare recycle_reserves.simps [simp del]

definition recycle_cu :: "u64 \<Rightarrow> nat \<Rightarrow> nat \<Rightarrow> int \<times> system \<Rightarrow> int \<times> system" where
  "recycle_cu clientId d c = (\<lambda>(tmp_sum, s).
     case recycle_reserves clientId 0 (cu_at s d c) tmp_sum of
       (cu', tmp_sum') \<Rightarrow> (tmp_sum', upd_cu d c (\<lambda>_. cu') s))"

text \<open>
  The release part for one device: \<open>None\<close> is the \<open>break\<close> that ends the loop over the devices.
\<close>

definition recycle_clients :: "u64 \<Rightarrow> nat \<Rightarrow> system \<Rightarrow> system option" where
  "recycle_clients clientId d s =
     (let dev = dev_at s d
      in if dv_isExcl dev then
           (if cl_ref (dv_clientProcs dev ! 0) = 0 then None
            else if cl_clientId (dv_clientProcs dev ! 0) = clientId
            then Some (upd_dev d (\<lambda>dev. dev\<lparr>dv_isExcl := False,
                          dv_clientProcs := replicate XRM_MAX_DEV_CLIENTS client0\<rparr>)
                        (releaseAllCuChanClientOnDev d clientId s))
            else Some s)
         else Some (fold (\<lambda>i s.
                let p = dv_clientProcs (dev_at s d) ! i
                in if cl_ref p \<noteq> 0 \<and> cl_clientId p = clientId
                   then upd_dev d (\<lambda>dev. dev\<lparr>dv_clientProcs := (dv_clientProcs dev)[i := client0]\<rparr>)
                          (releaseAllCuChanClientOnDev d clientId s)
                   else s) [0..<XRM_MAX_DEV_CLIENTS] s))"

fun recycle_devices :: "u64 \<Rightarrow> nat list \<Rightarrow> int \<times> system \<Rightarrow> system" where
  "recycle_devices clientId [] (tmp_sum, s) = s"
| "recycle_devices clientId (d # ds) (tmp_sum, s) =
     (if \<not> dv_isLoaded (dev_at s d) then recycle_devices clientId ds (tmp_sum, s)
      else case fold (recycle_cu clientId d) [0..<nat (numCu (dev_at s d))] (tmp_sum, s) of
             (tmp_sum', s1) \<Rightarrow>
               (let s2 = updateDeviceLoad (int d) tmp_sum' 0 s1
                in case recycle_clients clientId d s2 of
                     None \<Rightarrow> s2
                   | Some s3 \<Rightarrow> recycle_devices clientId ds (tmp_sum', s3)))"

definition recycleResource :: "u64 \<Rightarrow> system \<Rightarrow> system" where
  "recycleResource clientId s =
     snd (decNumConcurrentClient (recycle_devices clientId [0..<nat (m_numDevice s)] (0, s)))"

end
