(* ===== verification/Xrm_Release_Inv.thy ===== *)
theory Xrm_Release_Inv
  imports Xrm_Release
begin

text \<open>
  Correctness of release: a channel that is given back leaves the map of grants, its load returns to
  where it came from, the client stays attached to the compute unit exactly while it holds another
  channel of it, and every invariant is kept; recycling a client removes all its grants.
\<close>

section \<open>Compute units in the middle of an operation\<close>

text \<open>
  While channels are given back, the client list of the compute unit may be ahead or behind; the
  accounting part of its invariant holds at every point.
\<close>

definition site :: "system \<Rightarrow> nat \<Rightarrow> nat \<Rightarrow> bool" where
  "site s d c \<longleftrightarrow> d < length (m_devList s) \<and> c < length (cuList (dev_at s d)) \<and>
     int c < numCu (dev_at s d) \<and> numCu (dev_at s d) \<le> int XRM_MAX_XILINX_KERNELS \<and>
     cu_deviceId (cu_at s d c) = int d \<and> cu_acct (cu_at s d c)"

lemma sys_inv_site: "sys_inv s \<Longrightarrow> valid_cu s d c \<Longrightarrow> site s d c"
  using valid_cu_inv [of s d c] by (auto simp: site_def cu_inv_def valid_cu_def)

lemma site_frame:
  "site s d c \<Longrightarrow> cu_frame d c s s' \<Longrightarrow> cu_acct (cu_at s' d c) \<Longrightarrow>
   cu_deviceId (cu_at s' d c) = cu_deviceId (cu_at s d c) \<Longrightarrow> site s' d c"
  using cu_frame_dev(2,6,8) [of d c s s'] by (simp add: site_def)

text \<open>One update of a compute unit, followed by the device load when the used load changed.\<close>

lemma site_upd:
  assumes "site s d c" "cu_acct (f (cu_at s d c))"
    "cu_deviceId (f (cu_at s d c)) = cu_deviceId (cu_at s d c)"
  shows "cu_frame d c s (upd_cu d c f s)" "cu_at (upd_cu d c f s) d c = f (cu_at s d c)"
    "site (upd_cu d c f s) d c"
proof -
  show f: "cu_frame d c s (upd_cu d c f s)" and a: "cu_at (upd_cu d c f s) d c = f (cu_at s d c)"
    using assms(1) by (auto simp: site_def cu_at_upd_cu intro: cu_frame_upd)
  show "site (upd_cu d c f s) d c" using site_frame [OF assms(1) f] a assms(2,3) by simp
qed

lemma site_load:
  assumes "d < length (m_devList s)" "0 < numCu (dev_at s d)"
    "numCu (dev_at s d) \<le> int XRM_MAX_XILINX_KERNELS"
  shows "same_cus s (updateDeviceLoad (int d) inc (- 1) s)"
    "li_devCurrentLoad (dv_devLoadInfo (dev_at (updateDeviceLoad (int d) inc (- 1) s) d')) =
      li_devCurrentLoad (dv_devLoadInfo (dev_at s d')) + (if d' = d then inc else 0)"
  using updateDeviceLoad_frame [of "int d" s inc "- 1"] assms by auto

lemma cu_at_upd_site:
  "d < length (m_devList s) \<Longrightarrow> c < length (cuList (dev_at s d)) \<Longrightarrow>
   cu_at (upd_cu d c f s) d c = f (cu_at s d c)"
  by (simp add: cu_at_upd_cu)

section \<open>\<open>give_back\<close>\<close>

lemma active_reserve_idx_eq:
  assumes "reserves_inv cu"
  shows "active_reserve_idx cu p = release_idx cu p"
proof (cases "p = 0")
  case False
  have act: "rs_clientIsActive (cu_reserves cu ! k)" if "k < nat (cu_numReserve cu)" for k
    using act_reserve_ok(1) [OF assms that] by (simp add: reserve_ok_def)
  have n: "min (nat (cu_numReserve cu)) XRM_MAX_KERNEL_RESERVES = nat (cu_numReserve cu)"
    using assms by (auto simp: reserves_inv_def)
  have p1: "\<not> p < 1" using False by (simp add: word_less_1)
  have eq: "first_index (nat (cu_numReserve cu))
      (\<lambda>k. rs_clientIsActive (cu_reserves cu ! k) \<and> rs_poolId (cu_reserves cu ! k) = p) =
    first_index (nat (cu_numReserve cu)) (\<lambda>k. rs_poolId (cu_reserves cu ! k) = p)"
    unfolding first_index_def using act by (intro find_cong) auto
  show ?thesis
    using False p1 eq act
    by (auto simp: active_reserve_idx_def release_idx_def isReservePoolUsingCu_def n Let_def
        split: option.splits dest: first_index_SomeD)
qed (simp add: active_reserve_idx_def release_idx_def)

lemma release_idx_spec:
  assumes "reserves_inv cu"
  shows "if release_idx cu p = - 1 then p \<notin> pool_ids cu
    else nat (release_idx cu p) < nat (cu_numReserve cu) \<and>
      rs_poolId (cu_reserves cu ! nat (release_idx cu p)) = p"
proof -
  have act: "rs_clientIsActive (cu_reserves cu ! k)" if "k < nat (cu_numReserve cu)" for k
    using act_reserve_ok(1) [OF assms that] by (simp add: reserve_ok_def)
  show ?thesis
    using isReservePoolUsingCu_spec [OF assms, of p] zero_not_pool [OF assms] act
    by (auto simp: release_idx_def Let_def)
qed

text \<open>What a release does not touch: the client tables of the devices and who owns the reservations.\<close>

definition same_tables :: "system \<Rightarrow> system \<Rightarrow> bool" where
  "same_tables s s' \<longleftrightarrow> (\<forall>d. dv_clientProcs (dev_at s' d) = dv_clientProcs (dev_at s d) \<and>
     dv_isExcl (dev_at s' d) = dv_isExcl (dev_at s d))"

definition owners :: "cuData \<Rightarrow> u64 list" where
  "owners cu = map rs_clientId (act_reserves cu)"

lemma same_tables_refl [simp]: "same_tables s s"
  by (simp add: same_tables_def)

lemma same_tables_trans: "same_tables s t \<Longrightarrow> same_tables t u \<Longrightarrow> same_tables s u"
  by (simp add: same_tables_def)

lemma same_tables_upd_cu [simp]: "same_tables s (upd_cu d c f s)"
  by (simp add: same_tables_def dev_at_upd_cu)

lemma same_tables_load:
  "d < length (m_devList s) \<Longrightarrow> 0 < numCu (dev_at s d) \<Longrightarrow>
   numCu (dev_at s d) \<le> int XRM_MAX_XILINX_KERNELS \<Longrightarrow> same_tables s (updateDeviceLoad (int d) inc setv s)"
  using updateDeviceLoad_frame [of "int d" s inc setv] by (simp add: same_tables_def)

lemma owners_use [simp]:
  "owners (use_reserve k x cu) = owners cu" "owners (use_default x cu) = owners cu"
  "owners (give_channel i cu) = owners cu"
proof -
  have act: "act_reserves (use_reserve k x cu) = (act_reserves cu)[k := (cu_reserves cu ! k)\<lparr>
      rs_usedLoadUnified := i32 (rs_usedLoadUnified (cu_reserves cu ! k) + x)\<rparr>]"
    by (simp add: act_reserves_def use_reserve_def take_update_swap)
  show "owners (use_reserve k x cu) = owners cu"
  proof (cases "k < length (act_reserves cu)")
    case True
    then show ?thesis
      unfolding owners_def act by (simp add: act_reserves_def map_update list_update_same_conv)
  next
    case False
    then show ?thesis unfolding owners_def act by (simp only: list_update_beyond not_less)
  qed
qed (simp_all add: owners_def act_reserves_def use_default_def give_channel_def)

lemma give_back_spec:
  assumes st: "site s d c" and i: "i < XRM_MAX_KERNEL_CHANNELS" "in_use (cu_channels (cu_at s d c) ! i)"
    and idx: "idx = release_idx (cu_at s d c) (ch_poolId (cu_channels (cu_at s d c) ! i))"
  defines "s' \<equiv> give_back d c i idx s"
  shows "cu_frame d c s s'" "load_step d c s s'" "site s' d c"
    "cu_channels (cu_at s' d c) =
       (cu_channels (cu_at s d c))[i := clear_channel (cu_channels (cu_at s d c) ! i)]"
    "cu_clients (cu_at s' d c) = cu_clients (cu_at s d c)"
    "cu_numClient (cu_at s' d c) = cu_numClient (cu_at s d c)"
    "cu_deviceId (cu_at s' d c) = cu_deviceId (cu_at s d c)"
    "same_tables s s'" "owners (cu_at s' d c) = owners (cu_at s d c)"
proof -
  let ?cu = "cu_at s d c"
  let ?L = "ch_loadUnified (cu_channels ?cu ! i)"
  let ?use = "if idx \<noteq> - 1 then use_reserve (nat idx) (- ?L) else use_default (- ?L)"
  let ?g = "\<lambda>cu. give_channel i (?use cu)"
  let ?t = "upd_cu d c ?use s"
  let ?s1 = "if idx \<noteq> - 1 then ?t else updateDeviceLoad (int d) (- ?L) (- 1) ?t"
  have sz: "d < length (m_devList s)" "c < length (cuList (dev_at s d))" "0 < numCu (dev_at s d)"
    "numCu (dev_at s d) \<le> int XRM_MAX_XILINX_KERNELS" and di: "cu_deviceId ?cu = int d"
    and acct: "cu_acct ?cu"
    using st by (auto simp: site_def)
  have rs: "reserves_inv ?cu" using acct by (simp add: cu_acct_def)
  have acct': "cu_acct (?g ?cu)"
    using release_idx_spec [OF rs, of "ch_poolId (cu_channels ?cu ! i)"] idx
      cu_acct_give_default [OF acct i] cu_acct_give_pool [OF acct i, of "nat idx"]
    by (cases "idx = - 1") simp_all
  have ld: "same_cus ?t ?s1" "li_devCurrentLoad (dv_devLoadInfo (dev_at ?s1 d')) =
      li_devCurrentLoad (dv_devLoadInfo (dev_at s d')) + (if d' = d \<and> idx = - 1 then - ?L else 0)" for d'
    using site_load [of d ?t "- ?L"] sz by (cases "idx = - 1"; simp add: dev_at_upd_cu)+
  have s': "s' = upd_cu d c (give_channel i) ?s1"
    using di by (cases "idx = - 1") (simp_all add: s'_def give_back_def Let_def)
  have at1: "cu_at ?s1 d c = ?use ?cu"
    using same_cus_dev [OF ld(1), of d c] sz by (simp add: cu_at_upd_site)
  have f1: "cu_frame d c s ?s1"
    using cu_frame_trans [OF cu_frame_upd [of d s c ?use] same_cus_frame [OF ld(1)]] sz by simp
  note sz1 = cu_frame_dev(2,8) [OF f1]
  show fr: "cu_frame d c s s'"
    using cu_frame_trans [OF f1 cu_frame_upd [of d ?s1 c "give_channel i"]] sz sz1 by (simp add: s')
  have at': "cu_at s' d c = ?g ?cu"
    using cu_at_upd_site [of d ?s1 c "give_channel i"] sz sz1 at1 by (simp only: s')
  show "cu_channels (cu_at s' d c) = (cu_channels ?cu)[i := clear_channel (cu_channels ?cu ! i)]"
    "cu_clients (cu_at s' d c) = cu_clients ?cu"
    "cu_numClient (cu_at s' d c) = cu_numClient ?cu"
    and dv: "cu_deviceId (cu_at s' d c) = cu_deviceId ?cu"
    by (simp_all add: at' cu_step_defs)
  show "owners (cu_at s' d c) = owners ?cu" by (simp add: at')
  have "same_tables ?t ?s1" using same_tables_load [of d ?t] sz
    by (cases "idx = - 1") (simp_all add: dev_at_upd_cu)
  then show "same_tables s s'"
    unfolding s' by (blast intro: same_tables_trans same_tables_upd_cu)
  show "site s' d c" using site_frame [OF st fr] acct' dv by (simp add: at')
  have tot: "cu_totalUsedLoadUnified (?g ?cu) - cu_totalUsedLoadUnified ?cu =
      (if idx = - 1 then - ?L else 0)"
  proof -
    have "chan_ok (cu_channels ?cu ! i)" using acct i by (simp add: cu_acct_def chans_inv_def)
    then have "0 \<le> ?L" by (simp add: chan_ok_def)
    moreover have "?L \<le> XRM_MAX_LOAD"
    proof -
      have "?L \<le> sum_list (map ch_loadUnified (cu_channels ?cu))"
        using acct i by (intro sum_list_nonneg_member) (auto simp: cu_acct_def chans_inv_def chan_ok_def)
      with cu_acct_capacity [OF acct] show ?thesis by simp
    qed
    ultimately show ?thesis
      using totals_bounds [OF acct] by (cases "idx = - 1") (simp_all add: cu_step_defs)
  qed
  show "load_step d c s s'"
    unfolding load_step_def at' tot unfolding s' upd_cu_loads ld(2) by simp
qed

section \<open>\<open>resReleaseCu\<close>\<close>

lemma in_use_client: "chan_ok ch \<Longrightarrow> in_use ch \<longleftrightarrow> ch_clientId ch \<noteq> 0"
  by (auto simp: chan_ok_def in_use_def split: if_splits)

text \<open>The clients with channels in use, after one channel is cleared.\<close>

lemma chan_clients_clear:
  assumes ok: "\<forall>ch\<in>set chs. chan_ok ch" and i: "i < length chs" "in_use (chs ! i)"
  defines "others \<equiv> \<exists>j<length chs. j \<noteq> i \<and> ch_clientId (chs ! j) = ch_clientId (chs ! i)"
  shows "chan_clients (chs[i := clear_channel (chs ! i)]) =
    (if others then chan_clients chs else chan_clients chs - {ch_clientId (chs ! i)})"
proof -
  let ?c = "ch_clientId (chs ! i)"
  have use: "in_use (chs ! j) \<longleftrightarrow> ch_clientId (chs ! j) \<noteq> 0" if "j < length chs" for j
    using ok that by (intro in_use_client) simp
  have L: "chan_clients (chs[i := clear_channel (chs ! i)]) =
      {x. x \<noteq> 0 \<and> (\<exists>j<length chs. j \<noteq> i \<and> ch_clientId (chs ! j) = x)}"
    unfolding chan_clients_give [OF i(1)] using use by auto
  have R: "chan_clients chs = {x. x \<noteq> 0 \<and> (\<exists>j<length chs. ch_clientId (chs ! j) = x)}"
    unfolding chan_clients_def using use by (auto simp: in_set_conv_nth)
  have "?c \<noteq> 0" using use i by simp
  then show ?thesis unfolding L R others_def using i(1) by auto
qed

definition other_chans :: "cuResource \<Rightarrow> nat \<Rightarrow> channelData list \<Rightarrow> nat" where
  "other_chans cuRes n chs = length (filter (\<lambda>j. ch_clientId (chs ! j) = re_clientId cuRes \<and>
     \<not> release_matches cuRes (chs ! j)) [0..<n])"

lemma release_chan_apply:
  "release_chan cuRes d c i (ret, procChanCnt, s) =
     (if \<not> release_matches cuRes (cu_channels (cu_at s d c) ! i)
      then (ret, if ch_clientId (cu_channels (cu_at s d c) ! i) = re_clientId cuRes
                 then procChanCnt + 1 else procChanCnt, s)
      else (XRM_SUCCESS, procChanCnt, snd (releaseClientOnDev (int d) (re_clientId cuRes)
              (give_back d c i (release_idx (cu_at s d c) (re_poolId cuRes)) s))))"
  by (simp add: release_chan_def Let_def)

lemma release_loop:
  assumes st: "site s d c" and n: "n \<le> XRM_MAX_KERNEL_CHANNELS"
    and k: "re_channelId cuRes = int k" and client: "re_clientId cuRes \<noteq> 0"
  defines "chs \<equiv> cu_channels (cu_at s d c)"
  defines "s1 \<equiv> snd (releaseClientOnDev (int d) (re_clientId cuRes)
    (give_back d c k (release_idx (cu_at s d c) (re_poolId cuRes)) s))"
  shows "fold (release_chan cuRes d c) [0..<n] (XRM_ERROR, 0, s) =
    (if k < n \<and> release_matches cuRes (chs ! k) then (XRM_SUCCESS, other_chans cuRes n chs, s1)
     else (XRM_ERROR, other_chans cuRes n chs, s))"
  using n
proof (induction n)
  case (Suc n)
  have ch: "chans_inv (cu_at s d c)" using st by (simp add: site_def cu_acct_def)
  then have len: "length chs = XRM_MAX_KERNEL_CHANNELS" and ok: "\<forall>x\<in>set chs. chan_ok x"
    and id: "ch_channelId (chs ! n) = int n" using Suc.prems by (auto simp: chans_inv_def chs_def)
  have only: "release_matches cuRes (chs ! n) \<Longrightarrow> n = k" using id k by (simp add: release_matches_def)
  have chs1: "cu_channels (cu_at s1 d c) = chs[k := clear_channel (chs ! k)]"
    if m: "k < n" "release_matches cuRes (chs ! k)"
  proof -
    have "in_use (chs ! k)"
      using in_use_client [of "chs ! k"] ok len m client Suc.prems by (auto simp: release_matches_def)
    then have "cu_channels (cu_at (give_back d c k (release_idx (cu_at s d c) (re_poolId cuRes)) s) d c)
        = chs[k := clear_channel (chs ! k)]"
      using give_back_spec(4) [OF st, of k] m Suc.prems by (simp add: chs_def release_matches_def)
    then show ?thesis using quiet_inv(4) [OF quiet_release_client] by (simp add: s1_def)
  qed
  have cnt: "other_chans cuRes (Suc n) chs = other_chans cuRes n chs +
      (if ch_clientId (chs ! n) = re_clientId cuRes \<and> \<not> release_matches cuRes (chs ! n) then 1 else 0)"
    by (simp add: other_chans_def)
  have IH: "fold (release_chan cuRes d c) [0..<n] (XRM_ERROR, 0, s) =
    (if k < n \<and> release_matches cuRes (chs ! k) then (XRM_SUCCESS, other_chans cuRes n chs, s1)
     else (XRM_ERROR, other_chans cuRes n chs, s))"
    using Suc by simp
  have chs0: "cu_channels (cu_at s d c) = chs" by (simp add: chs_def)
  show ?case
  proof (cases "k < n \<and> release_matches cuRes (chs ! k)")
    case True
    with chs1 have at1: "cu_channels (cu_at s1 d c) ! n = chs ! n" by simp
    have "\<not> release_matches cuRes (chs ! n)" using only True by auto
    with True show ?thesis
      by (simp add: IH cnt release_chan_apply at1)
  next
    case no: False
    show ?thesis
    proof (cases "release_matches cuRes (chs ! n)")
      case True
      with only have "k = n" by simp
      with True no show ?thesis
        by (simp add: IH cnt release_chan_apply chs0 s1_def)
    next
      case False
      have "\<not> (k < Suc n \<and> release_matches cuRes (chs ! k))" using no False by (auto simp: less_Suc_eq)
      with False no show ?thesis by (simp add: IH cnt release_chan_apply chs0)
    qed
  qed
qed (simp add: other_chans_def)

lemma other_chans_zero:
  assumes "chans_inv cu" "k < XRM_MAX_KERNEL_CHANNELS" "re_channelId cuRes = int k"
    "release_matches cuRes (cu_channels cu ! k)"
  shows "other_chans cuRes XRM_MAX_KERNEL_CHANNELS (cu_channels cu) = 0 \<longleftrightarrow>
    \<not> (\<exists>j<length (cu_channels cu). j \<noteq> k \<and>
        ch_clientId (cu_channels cu ! j) = ch_clientId (cu_channels cu ! k))"
proof -
  have len: "length (cu_channels cu) = XRM_MAX_KERNEL_CHANNELS"
    and id: "\<And>j. j < XRM_MAX_KERNEL_CHANNELS \<Longrightarrow> ch_channelId (cu_channels cu ! j) = int j"
    using assms(1) by (auto simp: chans_inv_def)
  have "release_matches cuRes (cu_channels cu ! j) \<longleftrightarrow> j = k" if "j < XRM_MAX_KERNEL_CHANNELS" for j
    using id [OF that] assms(3,4) by (auto simp: release_matches_def)
  moreover have "ch_clientId (cu_channels cu ! k) = re_clientId cuRes"
    using assms(4) by (simp add: release_matches_def)
  ultimately show ?thesis by (auto simp: other_chans_def filter_empty_conv len)
qed

lemma removeClientOnCu_form:
  "\<exists>cl n. removeClientOnCu c cu = cu\<lparr>cu_clients := cl, cu_numClient := n\<rparr>"
proof (cases "0 \<le> isClientUsingCu cu c")
  case False
  then show ?thesis
    by (intro exI[of _ "cu_clients cu"] exI[of _ "cu_numClient cu"]) (simp add: removeClientOnCu_def)
qed (auto simp: removeClientOnCu_def Let_def)

lemma removeClientOnCu_keeps [simp]:
  "cu_acct (removeClientOnCu c cu) = cu_acct cu"
  "cu_channels (removeClientOnCu c cu) = cu_channels cu"
  "cu_deviceId (removeClientOnCu c cu) = cu_deviceId cu"
  "cu_totalUsedLoadUnified (removeClientOnCu c cu) = cu_totalUsedLoadUnified cu"
  using removeClientOnCu_form [of c cu] by auto

text \<open>Detaching the client when its last channel is gone restores the full invariant.\<close>

lemma detach_client:
  assumes inv: "cu_inv cu" and i: "i < XRM_MAX_KERNEL_CHANNELS" "in_use (cu_channels cu ! i)"
    and acct: "cu_acct cu1"
    and cl: "cu_clients cu1 = cu_clients cu" "cu_numClient cu1 = cu_numClient cu"
    and chs: "cu_channels cu1 = (cu_channels cu)[i := clear_channel (cu_channels cu ! i)]"
    and last: "b \<longleftrightarrow> \<not> (\<exists>j<length (cu_channels cu). j \<noteq> i \<and>
        ch_clientId (cu_channels cu ! j) = ch_clientId (cu_channels cu ! i))"
  shows "cu_inv (if b then removeClientOnCu (ch_clientId (cu_channels cu ! i)) cu1 else cu1)"
proof -
  let ?c = "ch_clientId (cu_channels cu ! i)"
  have "client_set cu1 = client_set cu" "clients_arr cu1 = clients_arr cu"
    by (simp_all add: clients_arr_def client_set_def cl)
  then have arr: "clients_arr cu1" and set1: "client_set cu1 = chan_clients (cu_channels cu)"
    using inv by (simp_all add: cu_inv_def clients_inv_def)
  have ok: "\<forall>x\<in>set (cu_channels cu). chan_ok x" and len: "i < length (cu_channels cu)"
    using inv i(1) by (auto simp: cu_inv_def cu_acct_def chans_inv_def)
  have cc: "chan_clients (cu_channels cu1) =
      (if b then chan_clients (cu_channels cu) - {?c} else chan_clients (cu_channels cu))"
    unfolding chs chan_clients_clear [OF ok len i(2)] last by auto
  show ?thesis
  proof (cases b)
    case True
    with removeClientOnCu_spec [OF arr, of ?c] cc acct set1 show ?thesis
      by (simp add: cu_inv_def clients_inv_def)
  next
    case False
    with arr cc acct set1 show ?thesis by (simp add: cu_inv_def clients_inv_def)
  qed
qed

text \<open>The abstract step of a release.\<close>

definition revoke_step :: "nat \<Rightarrow> nat \<Rightarrow> nat \<Rightarrow> system \<Rightarrow> system \<Rightarrow> bool" where
  "revoke_step d c i s s' \<longleftrightarrow> cu_step d c s s' \<and> load_step d c s s' \<and> i < XRM_MAX_KERNEL_CHANNELS \<and>
     in_use (chan_at s d c i) \<and>
     cu_channels (cu_at s' d c) = (cu_channels (cu_at s d c))[i := clear_channel (chan_at s d c i)]"

lemma revoke_step_grants:
  assumes "sys_inv s" "revoke_step d c i s s'"
  shows "grants s' = (grants s)((d, c, i) := None)"
proof (rule ext)
  fix k :: "nat \<times> nat \<times> nat"
  obtain d' c' j where k: "k = (d', c', j)" by (metis prod_cases3)
  have st: "cu_step d c s s'" and v: "valid_cu s d c" and i: "i < XRM_MAX_KERNEL_CHANNELS"
    using assms(2) by (auto simp: revoke_step_def cu_step_def)
  have len: "length (cu_channels (cu_at s d c)) = XRM_MAX_KERNEL_CHANNELS"
    using valid_cu_inv [OF assms(1) v] by (simp add: cu_inv_def cu_unfold)
  have at: "chan_at s' d c j = (if j = i then clear_channel (chan_at s d c i) else chan_at s d c j)"
    if "j < XRM_MAX_KERNEL_CHANNELS"
    using assms(2) len that by (auto simp: revoke_step_def chan_at_def nth_list_update)
  show "grants s' k = ((grants s)((d, c, i) := None)) k"
    using at i v unfolding k cu_step_grants [OF st]
    by (auto simp: grants_def in_use_def clear_channel_def)
qed

definition revoked :: "cuResource \<Rightarrow> nat \<Rightarrow> nat \<Rightarrow> nat \<Rightarrow> system \<Rightarrow> bool" where
  "revoked cuRes d c k s \<longleftrightarrow> re_deviceId cuRes = int d \<and> re_cuId cuRes = int c \<and>
     re_channelId cuRes = int k \<and>
     (\<exists>ch. grants s (d, c, k) = Some ch \<and> release_matches cuRes ch)"

lemma resReleaseCu_success:
  assumes inv: "sys_inv s" and g: "revoked cuRes d c k s"
    and run: "resReleaseCu cuRes s = (ret, s')"
  shows "ret = XRM_SUCCESS" "revoke_step d c k s s'"
proof -
  let ?cu = "cu_at s d c" and ?client = "re_clientId cuRes"
  let ?chs = "cu_channels (cu_at s d c)"
  have v: "valid_cu s d c" and k: "k < XRM_MAX_KERNEL_CHANNELS" "in_use (?chs ! k)"
    and m: "release_matches cuRes (?chs ! k)"
    using g by (auto simp: revoked_def grants_def chan_at_def split: if_splits)
  have st: "site s d c" using sys_inv_site [OF inv v] .
  have ci: "cu_inv ?cu" using valid_cu_inv [OF inv v] by blast
  have ch: "chans_inv ?cu" and len: "length ?chs = XRM_MAX_KERNEL_CHANNELS"
    and ok: "\<forall>x\<in>set ?chs. chan_ok x" and arr: "clients_arr ?cu"
    and cs: "client_set ?cu = chan_clients ?chs"
    using ci by (auto simp: cu_inv_def cu_acct_def chans_inv_def clients_inv_def)
  have client: "?client \<noteq> 0" "ch_clientId (?chs ! k) = ?client"
    using in_use_client [of "?chs ! k"] ok len k m by (auto simp: release_matches_def)
  let ?idx = "release_idx ?cu (re_poolId cuRes)"
  let ?t = "give_back d c k ?idx s"
  let ?s1 = "snd (releaseClientOnDev (int d) ?client ?t)"
  have idx: "?idx = release_idx ?cu (ch_poolId (?chs ! k))" using m by (simp add: release_matches_def)
  note gb = give_back_spec [OF st k idx]
  have q: "quiet ?t ?s1" by (rule quiet_release_client)
  have at1: "cu_at ?s1 d c = cu_at ?t d c" using quiet_inv(4) [OF q] .
  have f1: "cu_frame d c s ?s1"
    using cu_frame_trans [OF gb(1) same_cus_frame] q by (simp add: quiet_def)
  have ld1: "load_step d c s ?s1"
    using load_step_trans [OF gb(2) same_cus_load_step] q by (simp add: quiet_def)
  let ?rm = "if other_chans cuRes XRM_MAX_KERNEL_CHANNELS ?chs = 0
    then upd_cu d c (removeClientOnCu ?client) ?s1 else ?s1"
  have kr: "re_channelId cuRes = int k" and loop: "fold (release_chan cuRes d c)
      [0..<XRM_MAX_KERNEL_CHANNELS] (XRM_ERROR, 0, s) =
      (XRM_SUCCESS, other_chans cuRes XRM_MAX_KERNEL_CHANNELS ?chs, ?s1)"
    using release_loop [OF st order_refl, of cuRes k] g k m client by (auto simp: revoked_def)
  have di: "dev_inv d (dev_at s d) \<and> d < length (m_devList s)" using sys_inv_dev [OF inv] v
    by (simp add: valid_cu_def)
  have "dv_isLoaded (dev_at s d)" using di v by (auto simp: dev_inv_def valid_cu_def)
  moreover have "c \<le> XRM_MAX_XILINX_KERNELS" "c < nat (numCu (dev_at s d))" "\<not> int c \<ge> numCu (dev_at s d)"
    using valid_cu_inv [OF inv v] v by (auto simp: valid_cu_def)
  moreover have "\<not> int d > m_numDevice s" "\<not> int d \<ge> int (length (m_devList s))"
    using v di by (auto simp: valid_cu_def)
  ultimately have "resReleaseCu cuRes s = (XRM_SUCCESS, ?rm)"
    using g k kr loop by (simp add: resReleaseCu_def revoked_def Let_def)
  with run have s': "s' = ?rm" and ret: "ret = XRM_SUCCESS" by auto
  show "ret = XRM_SUCCESS" by (rule ret)
  have "cu_inv (if other_chans cuRes XRM_MAX_KERNEL_CHANNELS ?chs = 0
      then removeClientOnCu (ch_clientId (?chs ! k)) (cu_at ?s1 d c) else cu_at ?s1 d c)"
    using gb(3-6) other_chans_zero [OF ch k(1) kr m]
    by (intro detach_client [OF ci k]) (simp_all add: at1 site_def)
  then have inv': "cu_inv (cu_at s' d c)"
    using di cu_frame_dev(2,8) [OF f1] valid_cu_inv [OF inv v] client(2)
    by (simp add: s' cu_at_upd_cu split: if_splits)
  have keep: "cu_channels (cu_at s' d c) = cu_channels (cu_at ?s1 d c)"
    "cu_deviceId (cu_at s' d c) = cu_deviceId (cu_at ?s1 d c)"
    "cu_totalUsedLoadUnified (cu_at s' d c) = cu_totalUsedLoadUnified (cu_at ?s1 d c)"
    by (simp_all add: s' cu_at_upd_cu)
  have fr: "cu_frame d c s s'"
    using f1 cu_frame_trans [OF f1 cu_frame_upd [of d ?s1 c]] valid_cu_inv [OF inv v]
      cu_frame_dev(2,8) [OF f1] by (simp add: s')
  have "load_step d c s s'"
    using ld1 unfolding load_step_def keep(3) by (simp add: s' upd_cu_loads)
  then show "revoke_step d c k s s'"
    using v fr inv' keep k gb(4,7) by (simp add: revoke_step_def cu_step_def chan_at_def at1)
qed

text \<open>A release that names no granted channel changes nothing.\<close>

lemma other_chans_of_stranger:
  assumes "cu_inv cu" "other_chans cuRes XRM_MAX_KERNEL_CHANNELS (cu_channels cu) = 0"
    "\<forall>k<XRM_MAX_KERNEL_CHANNELS. \<not> release_matches cuRes (cu_channels cu ! k)"
    "re_clientId cuRes \<noteq> 0"
  shows "removeClientOnCu (re_clientId cuRes) cu = cu"
proof -
  have len: "length (cu_channels cu) = XRM_MAX_KERNEL_CHANNELS" and arr: "clients_arr cu"
    and cs: "client_set cu = chan_clients (cu_channels cu)"
    using assms(1) by (auto simp: cu_inv_def cu_acct_def chans_inv_def clients_inv_def)
  have "re_clientId cuRes \<notin> chan_clients (cu_channels cu)"
    using assms(2,3) len
    by (auto simp: other_chans_def filter_empty_conv chan_clients_def in_set_conv_nth)
  then have "isClientUsingCu cu (re_clientId cuRes) < 0"
    using isClientUsingCu_iff [OF arr, of "re_clientId cuRes"] cs by simp
  then show ?thesis by (simp add: removeClientOnCu_def)
qed

lemma upd_cu_same: "f (cu_at s d c) = cu_at s d c \<Longrightarrow> upd_cu d c f s = s"
  by (simp add: upd_cu_def upd_dev_def dev_upd_cu_def cu_at_def cuList_def dev_at_def)

lemma resReleaseCu_failure:
  assumes inv: "sys_inv s" and client: "re_clientId cuRes \<noteq> 0"
    and none: "\<not> (\<exists>d c k. revoked cuRes d c k s)"
    and bound: "re_deviceId cuRes < m_numDevice s"
    and run: "resReleaseCu cuRes s = (ret, s')"
  shows "ret \<noteq> XRM_SUCCESS" "s' = s"
proof -
  let ?d = "nat (re_deviceId cuRes)" and ?c = "nat (re_cuId cuRes)" and ?k = "nat (re_channelId cuRes)"
  let ?chs = "cu_channels (cu_at s ?d ?c)"
  have len: "length (m_devList s) = XRM_MAX_XILINX_DEVICES" "m_numDevice s \<le> int XRM_MAX_XILINX_DEVICES"
    using inv by (auto simp: sys_inv_def)
  have "ret \<noteq> XRM_SUCCESS \<and> s' = s"
  proof (cases "0 \<le> re_deviceId cuRes \<and> 0 \<le> re_cuId cuRes \<and> 0 \<le> re_channelId cuRes \<and>
      valid_cu s ?d ?c")
    case False
    then show ?thesis using run bound len
      by (auto simp: resReleaseCu_def Let_def valid_cu_def split: if_splits)
  next
    case True
    then have v: "valid_cu s ?d ?c" by simp
    have ci: "cu_inv (cu_at s ?d ?c)" using valid_cu_inv [OF inv v] by simp
    have no: "\<not> release_matches cuRes (?chs ! j)" if j: "j < XRM_MAX_KERNEL_CHANNELS" for j
    proof
      assume m: "release_matches cuRes (?chs ! j)"
      have "chan_ok (?chs ! j)" "ch_channelId (?chs ! j) = int j"
        using ci j by (auto simp: cu_inv_def cu_acct_def chans_inv_def)
      then have "revoked cuRes ?d ?c j s"
        using m client True j in_use_client [of "?chs ! j"]
        by (auto simp: revoked_def release_matches_def grants_def chan_at_def)
      with none show False by blast
    qed
    have k: "re_channelId cuRes = int ?k" using True by simp
    have "fold (release_chan cuRes ?d ?c) [0..<XRM_MAX_KERNEL_CHANNELS] (XRM_ERROR, 0, s) =
        (XRM_ERROR, other_chans cuRes XRM_MAX_KERNEL_CHANNELS ?chs, s)"
      using release_loop [OF sys_inv_site [OF inv v] order_refl k client] no by simp
    moreover have "\<not> re_deviceId cuRes \<ge> int (length (m_devList s))" using bound len by simp
    ultimately show ?thesis
      using run upd_cu_same [of "removeClientOnCu (re_clientId cuRes)" s ?d ?c]
        other_chans_of_stranger [OF ci _ _ client] no
      by (auto simp: resReleaseCu_def Let_def split: if_splits)
  qed
  then show "ret \<noteq> XRM_SUCCESS" "s' = s" by auto
qed

lemma revoke_step_inv:
  "sys_inv s \<Longrightarrow> revoke_step d c k s s' \<Longrightarrow> sys_inv s'"
  "sys_inv s \<Longrightarrow> revoke_step d c k s s' \<Longrightarrow> load_inv s \<Longrightarrow> load_inv s'"
  "revoke_step d c k s s' \<Longrightarrow> m_numDevice s' = m_numDevice s"
  using cu_step_sys_inv load_step_inv cu_frame_dev(1) by (auto simp: revoke_step_def cu_step_def)

lemma resReleaseCu_inv:
  assumes inv: "sys_inv s" and client: "re_clientId cuRes \<noteq> 0"
    and bound: "re_deviceId cuRes < m_numDevice s"
    and run: "resReleaseCu cuRes s = (ret, s')"
  shows "sys_inv s'" "load_inv s \<Longrightarrow> load_inv s'" "m_numDevice s' = m_numDevice s"
  using resReleaseCu_success(2) [OF inv _ run] resReleaseCu_failure(2) [OF inv client _ bound run]
    revoke_step_inv(1,2) [OF inv] revoke_step_inv(3) inv
  by blast+

section \<open>\<open>releaseAllCuChanClientOnDev\<close>\<close>

definition drop_client :: "u64 \<Rightarrow> channelData \<Rightarrow> channelData" where
  "drop_client clientId ch = (if ch_clientId ch = clientId then clear_channel ch else ch)"

text \<open>The channel loop on one compute unit, up to channel \<open>n\<close>.\<close>

lemma release_client_loop:
  assumes st: "site s d c" and client: "clientId \<noteq> 0" and n: "n \<le> XRM_MAX_KERNEL_CHANNELS"
  defines "sn \<equiv> \<lambda>n. fold (release_client_chan clientId d c) [0..<n] s"
  shows "site (sn n) d c \<and> cu_frame d c s (sn n) \<and> load_step d c s (sn n) \<and>
    same_tables s (sn n) \<and> owners (cu_at (sn n) d c) = owners (cu_at s d c) \<and>
    cu_clients (cu_at (sn n) d c) = cu_clients (cu_at s d c) \<and>
    cu_numClient (cu_at (sn n) d c) = cu_numClient (cu_at s d c) \<and>
    cu_deviceId (cu_at (sn n) d c) = cu_deviceId (cu_at s d c) \<and>
    (\<forall>j<XRM_MAX_KERNEL_CHANNELS. cu_channels (cu_at (sn n) d c) ! j =
       (if j < n then drop_client clientId (cu_channels (cu_at s d c) ! j)
        else cu_channels (cu_at s d c) ! j))"
  using n
proof (induction n)
  case 0
  show ?case using st by (simp add: sn_def cu_frame_refl)
next
  case (Suc n)
  let ?t = "sn n" and ?u = "sn (Suc n)"
  let ?chs = "cu_channels (cu_at s d c)" and ?cht = "cu_channels (cu_at ?t d c)"
  have IH: "site ?t d c" "cu_frame d c s ?t" "load_step d c s ?t"
    "same_tables s ?t" "owners (cu_at ?t d c) = owners (cu_at s d c)"
    "cu_clients (cu_at ?t d c) = cu_clients (cu_at s d c)"
    "cu_numClient (cu_at ?t d c) = cu_numClient (cu_at s d c)"
    "cu_deviceId (cu_at ?t d c) = cu_deviceId (cu_at s d c)"
    "\<And>j. j < XRM_MAX_KERNEL_CHANNELS \<Longrightarrow> ?cht ! j =
       (if j < n then drop_client clientId (?chs ! j) else ?chs ! j)"
    using Suc by auto
  have u: "?u = release_client_chan clientId d c n ?t" by (simp add: sn_def)
  have at_n: "?cht ! n = ?chs ! n" using IH(9) [of n] Suc.prems by simp
  show ?case
  proof (cases "ch_clientId (?chs ! n) = clientId")
    case False
    then have "?u = ?t" using at_n by (simp add: u release_client_chan_def Let_def)
    moreover have "drop_client clientId (?chs ! n) = ?chs ! n" using False by (simp add: drop_client_def)
    ultimately show ?thesis using IH by (auto simp: less_Suc_eq)
  next
    case True
    let ?idx = "active_reserve_idx (cu_at ?t d c) (ch_poolId (?cht ! n))"
    have ue: "?u = give_back d c n ?idx ?t"
      using True client at_n by (simp add: u release_client_chan_def Let_def)
    have acct: "chans_inv (cu_at ?t d c)" "reserves_inv (cu_at ?t d c)"
      using IH(1) by (auto simp: site_def cu_acct_def)
    then have "chan_ok (?cht ! n)" "length ?cht = XRM_MAX_KERNEL_CHANNELS"
      using Suc.prems by (auto simp: chans_inv_def)
    then have "in_use (?cht ! n)" using in_use_client True client at_n by simp
    note gb = give_back_spec [OF IH(1) _ this active_reserve_idx_eq [OF acct(2)]]
    have n: "n < XRM_MAX_KERNEL_CHANNELS" using Suc.prems by simp
    have "drop_client clientId (?chs ! n) = clear_channel (?cht ! n)"
      using True at_n by (simp add: drop_client_def)
    then have "cu_channels (cu_at ?u d c) ! j =
        (if j < Suc n then drop_client clientId (?chs ! j) else ?chs ! j)"
      if "j < XRM_MAX_KERNEL_CHANNELS" for j
      using gb(4) [OF n] IH(9) [OF that] \<open>length ?cht = XRM_MAX_KERNEL_CHANNELS\<close> that
      by (cases "j = n") (auto simp: ue less_Suc_eq)
    then show ?thesis
      using gb(3,5,6,7,9) [OF n] IH(5,6,7,8) cu_frame_trans [OF IH(2) gb(1) [OF n]]
        load_step_trans [OF IH(3) gb(2) [OF n]]
        same_tables_trans [OF IH(4) gb(8) [OF n]] by (simp add: ue)
  qed
qed

text \<open>One compute unit: the client is gone from its channels and from its client list.\<close>

definition expel_step :: "u64 \<Rightarrow> nat \<Rightarrow> nat \<Rightarrow> system \<Rightarrow> system \<Rightarrow> bool" where
  "expel_step clientId d c s s' \<longleftrightarrow> cu_step d c s s' \<and> load_step d c s s' \<and>
     same_tables s s' \<and> owners (cu_at s' d c) = owners (cu_at s d c) \<and>
     (\<forall>j<XRM_MAX_KERNEL_CHANNELS. chan_at s' d c j = drop_client clientId (chan_at s d c j))"

lemma chan_clients_drop:
  assumes "\<forall>ch\<in>set chs. chan_ok ch" "clientId \<noteq> 0"
  shows "chan_clients (map (drop_client clientId) chs) = chan_clients chs - {clientId}"
  using assms(2) by (auto simp: chan_clients_def drop_client_def in_use_def clear_channel_def)

lemma release_client_cu_spec:
  assumes inv: "sys_inv s" and v: "valid_cu s d c" and client: "clientId \<noteq> 0"
  shows "expel_step clientId d c s (release_client_cu clientId d c s)"
proof -
  let ?cu = "cu_at s d c"
  have st: "site s d c" using sys_inv_site [OF inv v] .
  have ci: "cu_inv ?cu" using valid_cu_inv [OF inv v] by simp
  then have arr: "clients_arr ?cu" and cs: "client_set ?cu = chan_clients (cu_channels ?cu)"
    and ok: "\<forall>ch\<in>set (cu_channels ?cu). chan_ok ch"
    and len: "length (cu_channels ?cu) = XRM_MAX_KERNEL_CHANNELS"
    by (auto simp: cu_inv_def clients_inv_def cu_acct_def chans_inv_def)
  show ?thesis
  proof (cases "isClientUsingCu ?cu clientId < 0")
    case True
    then have "clientId \<notin> chan_clients (cu_channels ?cu)"
      using isClientUsingCu_iff [OF arr, of clientId] cs by simp
    then have "drop_client clientId ch = ch" if "ch \<in> set (cu_channels ?cu)" for ch
      using that ok client in_use_client [of ch] by (auto simp: drop_client_def chan_clients_def)
    then show ?thesis
      using True client v ci len
      by (simp add: release_client_cu_def expel_step_def cu_step_def cu_frame_refl chan_at_def)
  next
    case False
    let ?s0 = "upd_cu d c (removeClientOnCu clientId) s"
    let ?s' = "fold (release_client_chan clientId d c) [0..<XRM_MAX_KERNEL_CHANNELS] ?s0"
    have acct: "cu_acct ?cu" using ci by (simp add: cu_inv_def)
    note s0 = site_upd [OF st, of "removeClientOnCu clientId", simplified, OF acct]
    note loop = release_client_loop [OF s0(3) client order_refl]
    have chs: "cu_channels (cu_at ?s' d c) = map (drop_client clientId) (cu_channels ?cu)"
    proof (rule nth_equalityI)
      show "length (cu_channels (cu_at ?s' d c)) = length (map (drop_client clientId) (cu_channels ?cu))"
        using loop len by (simp add: site_def cu_acct_def chans_inv_def)
      then show "cu_channels (cu_at ?s' d c) ! j = map (drop_client clientId) (cu_channels ?cu) ! j"
        if "j < length (cu_channels (cu_at ?s' d c))" for j
        using loop that len s0(2) by simp
    qed
    have l0: "load_step d c s ?s0" by (simp add: load_step_def s0(2) upd_cu_loads)
    have "clients_arr (cu_at ?s' d c)" "client_set (cu_at ?s' d c) = client_set ?cu - {clientId}"
      using removeClientOnCu_spec [OF arr, of clientId] loop s0(2)
      by (auto simp: clients_arr_def client_set_def)
    then have "cu_inv (cu_at ?s' d c)"
      using loop chs cs chan_clients_drop [OF ok client]
      by (simp add: cu_inv_def clients_inv_def site_def)
    then have "cu_step d c s ?s'"
      using v loop s0(2) cu_frame_trans [OF s0(1)] by (simp add: cu_step_def)
    moreover have "load_step d c s ?s'" using load_step_trans [OF l0] loop by blast
    moreover have "same_tables s ?s'"
      using loop same_tables_trans [OF same_tables_upd_cu] by blast
    moreover have "owners (cu_at ?s' d c) = owners ?cu"
      using loop removeClientOnCu_form [of clientId ?cu]
      by (auto simp: s0(2) owners_def act_reserves_def)
    ultimately show ?thesis
      using False chs len client by (simp add: release_client_cu_def expel_step_def chan_at_def)
  qed
qed

text \<open>The abstract effect: the grants of the client on the chosen devices are forgotten.\<close>

definition forget :: "(nat \<Rightarrow> bool) \<Rightarrow> u64 \<Rightarrow> (nat \<times> nat \<times> nat \<Rightarrow> channelData option) \<Rightarrow>
    nat \<times> nat \<times> nat \<Rightarrow> channelData option" where
  "forget D clientId g = (\<lambda>(d, c, i).
     case g (d, c, i) of
       Some ch \<Rightarrow> if D d \<and> ch_clientId ch = clientId then None else Some ch
     | None \<Rightarrow> None)"

lemma forget_simps:
  "forget D clientId (forget D' clientId g) = forget (\<lambda>d. D d \<or> D' d) clientId g"
  "forget (\<lambda>d. False) clientId g = g"
  by (auto simp: forget_def split: option.splits)

lemma expel_step_grants:
  assumes "expel_step clientId d c s s'" "clientId \<noteq> 0"
  shows "grants s' (d', c', i) = (if d' = d \<and> c' = c then forget (\<lambda>_. True) clientId (grants s) (d', c', i)
    else grants s (d', c', i))"
proof -
  have st: "cu_step d c s s'" and v: "valid_cu s d c" using assms(1)
    by (auto simp: expel_step_def cu_step_def)
  have "chan_at s' d c i = drop_client clientId (chan_at s d c i)" if "i < XRM_MAX_KERNEL_CHANNELS"
    using assms(1) that by (simp add: expel_step_def)
  then show ?thesis
    using v unfolding cu_step_grants [OF st]
    by (auto simp: grants_def forget_def drop_client_def in_use_def clear_channel_def split: if_splits)
qed

lemma release_cus_grants:
  assumes "sys_inv s" "clientId \<noteq> 0" "\<forall>c\<in>set cs. valid_cu s d c"
  defines "s' \<equiv> fold (release_client_cu clientId d) cs s"
  shows "sys_inv s' \<and> (load_inv s \<longrightarrow> load_inv s') \<and> m_numDevice s' = m_numDevice s \<and>
    (\<forall>d' c'. valid_cu s' d' c' = valid_cu s d' c') \<and>
    (\<forall>d'. dv_isLoaded (dev_at s' d') = dv_isLoaded (dev_at s d')) \<and>
    same_tables s s' \<and> (\<forall>d' c'. owners (cu_at s' d' c') = owners (cu_at s d' c')) \<and>
    (\<forall>d' c' i. grants s' (d', c', i) = (if d' = d \<and> c' \<in> set cs
      then forget (\<lambda>_. True) clientId (grants s) (d', c', i) else grants s (d', c', i)))"
  using assms(1,3) unfolding s'_def
proof (induction cs arbitrary: s)
  case (Cons c cs)
  let ?t = "release_client_cu clientId d c s"
  have e: "expel_step clientId d c s ?t"
    using Cons.prems assms(2) by (intro release_client_cu_spec) auto
  then have st: "cu_step d c s ?t" "load_step d c s ?t" and f: "cu_frame d c s ?t"
    by (auto simp: expel_step_def cu_step_def)
  note fr = cu_frame_dev [OF f]
  have "\<forall>c\<in>set cs. valid_cu ?t d c" using Cons.prems(2) fr(10) by simp
  note IH = Cons.IH [OF cu_step_sys_inv [OF Cons.prems(1) st(1)] this]
  have "forget (\<lambda>_. True) clientId (grants ?t) (d', c', i) =
      forget (\<lambda>_. True) clientId (grants s) (d', c', i)" for d' c' i
    using expel_step_grants [OF e assms(2), of d' c' i]
    by (auto simp: forget_def split: option.splits if_splits)
  moreover have "owners (cu_at ?t d' c') = owners (cu_at s d' c')" for d' c'
    using e fr(11) [of d' c'] by (cases "(d', c') = (d, c)") (auto simp: expel_step_def)
  moreover have "same_tables s ?t" using e by (simp add: expel_step_def)
  ultimately show ?case
    using IH fr(1,7,10) load_step_inv [OF Cons.prems(1) st] expel_step_grants [OF e assms(2)]
      same_tables_trans [of s ?t]
    by simp
qed simp

lemma releaseAll_spec:
  assumes inv: "sys_inv s" and d: "int d < m_numDevice s" and client: "clientId \<noteq> 0"
  defines "s' \<equiv> releaseAllCuChanClientOnDev d clientId s"
  shows "sys_inv s'" "load_inv s \<Longrightarrow> load_inv s'" "m_numDevice s' = m_numDevice s"
    "dv_isLoaded (dev_at s' d') = dv_isLoaded (dev_at s d')"
    "grants s' = forget (\<lambda>d'. d' = d) clientId (grants s)"
    "same_tables s s'" "owners (cu_at s' d' c') = owners (cu_at s d' c')"
    "valid_cu s' d' c' = valid_cu s d' c'"
proof -
  have v: "\<forall>c\<in>set (cu_ids (dev_at s d)). valid_cu s d c" using valid_cu_ids [OF inv d] by simp
  note spec = release_cus_grants [OF inv client v, folded releaseAllCuChanClientOnDev_def, folded s'_def]
  show "sys_inv s'" "load_inv s \<Longrightarrow> load_inv s'" "m_numDevice s' = m_numDevice s"
    "dv_isLoaded (dev_at s' d') = dv_isLoaded (dev_at s d')" "same_tables s s'"
    "owners (cu_at s' d' c') = owners (cu_at s d' c')" "valid_cu s' d' c' = valid_cu s d' c'"
    using spec by auto
  show "grants s' = forget (\<lambda>d'. d' = d) clientId (grants s)"
  proof (rule ext)
    fix k :: "nat \<times> nat \<times> nat"
    obtain d' c' i where k: "k = (d', c', i)" by (metis prod_cases3)
    show "grants s' k = forget (\<lambda>d'. d' = d) clientId (grants s) k"
    proof (cases "d' = d \<and> c' \<notin> set (cu_ids (dev_at s d))")
      case True
      then have "grants s (d', c', i) = None"
        using valid_cu_ids [OF inv d, of c'] by (simp add: grants_def)
      with True spec show ?thesis by (simp add: k forget_def)
    next
      case False
      have "grants s' (d', c', i) = (if d' = d \<and> c' \<in> set (cu_ids (dev_at s d))
        then forget (\<lambda>_. True) clientId (grants s) (d', c', i) else grants s (d', c', i))"
        using spec by blast
      with False show ?thesis by (auto simp: k forget_def split: option.splits)
    qed
  qed
qed

section \<open>\<open>recycleResource\<close>\<close>

lemma close_reserve_nth:
  "k < i \<Longrightarrow> i < nat (cu_numReserve cu) \<Longrightarrow> nat (cu_numReserve cu) \<le> length (cu_reserves cu) \<Longrightarrow>
   cu_reserves (close_reserve i cu) ! k = cu_reserves cu ! k"
  by (simp add: close_reserve_def drop_reserve_def remove_slot_eq nth_append)

lemma close_reserve_keeps [simp]:
  "cu_clients (close_reserve i cu) = cu_clients cu" "cu_numClient (close_reserve i cu) = cu_numClient cu"
  "cu_channels (close_reserve i cu) = cu_channels cu" "cu_deviceId (close_reserve i cu) = cu_deviceId cu"
  "cu_numReserve (close_reserve i cu) = cu_numReserve cu - 1"
  "cu_totalUsedLoadUnified (close_reserve i cu) = cu_totalUsedLoadUnified cu
     - (rs_loadUnified (cu_reserves cu ! i) - rs_usedLoadUnified (cu_reserves cu ! i))"
  by (simp_all add: close_reserve_def drop_reserve_def)

lemma cu_acct_close_reserve:
  "cu_acct cu \<Longrightarrow> i < nat (cu_numReserve cu) \<Longrightarrow> cu_acct (close_reserve i cu)"
  unfolding close_reserve_def by (rule cu_acct_close)

lemma recycle_reserves_spec:
  assumes "recycle_reserves clientId i cu t = (cu', t')" "cu_acct cu"
    "\<forall>k<i. int k < cu_numReserve cu \<longrightarrow> rs_clientId (cu_reserves cu ! k) \<noteq> clientId"
  shows "cu_acct cu' \<and> cu_clients cu' = cu_clients cu \<and> cu_numClient cu' = cu_numClient cu \<and>
    cu_channels cu' = cu_channels cu \<and> cu_deviceId cu' = cu_deviceId cu \<and>
    t' - t = cu_totalUsedLoadUnified cu' - cu_totalUsedLoadUnified cu \<and>
    (\<forall>k<nat (cu_numReserve cu'). rs_clientId (cu_reserves cu' ! k) \<noteq> clientId)"
  using assms
proof (induction clientId i cu t rule: recycle_reserves.induct)
  case (1 clientId i cu t)
  let ?r = "cu_reserves cu ! i"
  have rs: "reserves_inv cu" using "1.prems"(2) by (simp add: cu_acct_def)
  have nl: "nat (cu_numReserve cu) \<le> length (cu_reserves cu)" using rs by (auto simp: reserves_inv_def)
  show ?case
  proof (cases "int i < cu_numReserve cu")
    case False
    with "1.prems" show ?thesis by (auto simp: recycle_reserves.simps [of clientId i])
  next
    case i: True
    then have i': "i < nat (cu_numReserve cu)" by simp
    have act: "rs_clientIsActive ?r" using act_reserve_ok(1) [OF rs i'] by (simp add: reserve_ok_def)
    show ?thesis
    proof (cases "rs_clientId ?r = clientId")
      case True
      have run: "recycle_reserves clientId i (close_reserve i cu)
          (t - (rs_loadUnified ?r - rs_usedLoadUnified ?r)) = (cu', t')"
        using "1.prems"(1) i act True by (simp add: recycle_reserves.simps [of clientId i cu] Let_def)
      have "\<forall>k<i. int k < cu_numReserve (close_reserve i cu) \<longrightarrow>
          rs_clientId (cu_reserves (close_reserve i cu) ! k) \<noteq> clientId"
        using "1.prems"(3) close_reserve_nth [OF _ i' nl] by simp
      from "1.IH"(1) [OF i refl _ run cu_acct_close_reserve [OF "1.prems"(2) i'] this] act True
      show ?thesis by simp
    next
      case False
      have run: "recycle_reserves clientId (i + 1) cu t = (cu', t')"
        using "1.prems"(1) i False by (simp add: recycle_reserves.simps [of clientId i cu] Let_def)
      have "\<forall>k<i + 1. int k < cu_numReserve cu \<longrightarrow> rs_clientId (cu_reserves cu ! k) \<noteq> clientId"
        using "1.prems"(3) False by (auto simp: less_Suc_eq)
      from "1.IH"(2) [OF i refl _ run "1.prems"(2) this] False show ?thesis by simp
    qed
  qed
qed

text \<open>
  What the steps of a recycling have in common: the invariant, the shape of the system, the client
  tables of the other devices, and that no reservation of the client appears.
\<close>

definition recycles :: "u64 \<Rightarrow> (nat \<Rightarrow> bool) \<Rightarrow> system \<Rightarrow> system \<Rightarrow> bool" where
  "recycles clientId D s s' \<longleftrightarrow> sys_inv s' \<and> m_numDevice s' = m_numDevice s \<and>
     (\<forall>d c. valid_cu s' d c = valid_cu s d c) \<and>
     (\<forall>d. dv_isLoaded (dev_at s' d) = dv_isLoaded (dev_at s d)) \<and>
     (\<forall>d. \<not> D d \<longrightarrow> dv_clientProcs (dev_at s' d) = dv_clientProcs (dev_at s d) \<and>
        dv_isExcl (dev_at s' d) = dv_isExcl (dev_at s d)) \<and>
     (\<forall>d c. clientId \<notin> set (owners (cu_at s d c)) \<longrightarrow> clientId \<notin> set (owners (cu_at s' d c)))"

lemma recycles_trans:
  "recycles clientId D s t \<Longrightarrow> recycles clientId D' t u \<Longrightarrow> (\<And>d. D d \<Longrightarrow> E d) \<Longrightarrow>
   (\<And>d. D' d \<Longrightarrow> E d) \<Longrightarrow> recycles clientId E s u"
  unfolding recycles_def by (metis (no_types))

lemma recyclesD:
  "recycles clientId D s s' \<Longrightarrow> sys_inv s' \<and> m_numDevice s' = m_numDevice s"
  unfolding recycles_def by blast

lemma recycles_refl: "sys_inv s \<Longrightarrow> recycles clientId D s s"
  by (simp add: recycles_def)

lemma owners_nth: "clientId \<in> set (owners cu) \<Longrightarrow>
   \<exists>k<nat (cu_numReserve cu). rs_clientId (cu_reserves cu ! k) = clientId"
  by (auto simp: owners_def act_reserves_def in_set_conv_nth) blast

lemma recycle_cu_spec:
  assumes inv: "sys_inv s" and v: "valid_cu s d c"
    and run: "recycle_cu clientId d c (t, s) = (t', s')"
  shows "recycles clientId (\<lambda>_. False) s s'" "grants s' = grants s"
    "clientId \<notin> set (owners (cu_at s' d c))"
    "t' - t = cu_totalUsedLoadUnified (cu_at s' d c) - cu_totalUsedLoadUnified (cu_at s d c)"
proof -
  obtain cu' where cu': "recycle_reserves clientId 0 (cu_at s d c) t = (cu', t')"
    and s': "s' = upd_cu d c (\<lambda>_. cu') s"
    using run by (auto simp: recycle_cu_def split: prod.splits)
  note vi = valid_cu_inv [OF inv v]
  have acct: "cu_acct (cu_at s d c)" using vi by (simp add: cu_inv_def)
  note spec = recycle_reserves_spec [OF cu' acct, simplified]
  have "client_set cu' = client_set (cu_at s d c)" "clients_arr cu' = clients_arr (cu_at s d c)"
    using spec by (simp_all add: clients_arr_def client_set_def)
  then have inv': "cu_inv cu'" using spec vi by (simp add: cu_inv_def clients_inv_def)
  have st: "cu_step d c s s'" and at': "cu_at s' d c = cu'"
    using cu_step_upd [of s d c "\<lambda>_. cu'", OF inv v inv'] spec by (simp_all add: s')
  show "clientId \<notin> set (owners (cu_at s' d c))" using spec owners_nth [of clientId cu'] by (auto simp: at')
  show "t' - t = cu_totalUsedLoadUnified (cu_at s' d c) - cu_totalUsedLoadUnified (cu_at s d c)"
    using spec by (simp add: at')
  have fr: "cu_frame d c s s'" using st by (simp add: cu_step_def)
  note own = \<open>clientId \<notin> set (owners (cu_at s' d c))\<close>
  have "clientId \<notin> set (owners (cu_at s' d' c'))" if "clientId \<notin> set (owners (cu_at s d' c'))" for d' c'
    using own cu_frame_dev(11) [OF fr, of d' c'] that by (cases "(d', c') = (d, c)") auto
  then show "recycles clientId (\<lambda>_. False) s s'"
    using cu_step_sys_inv [OF inv st] cu_frame_dev(1,7,10) [OF fr] same_tables_upd_cu [of s d c "\<lambda>_. cu'"]
    by (simp add: recycles_def same_tables_def s')
  have "cu_channels (cu_at s' d c) = cu_channels (cu_at s d c)" using spec by (simp add: at')
  then have "grants s' (d', c', i) = grants s (d', c', i)" for d' c' i
    using v unfolding cu_step_grants [OF st] by (auto simp: grants_def chan_at_def)
  then show "grants s' = grants s" by auto
qed

lemma recycle_cus_spec:
  assumes "sys_inv s" "\<forall>c\<in>set cs. valid_cu s d c"
    and "fold (recycle_cu clientId d) cs (t, s) = (t', s')"
  shows "recycles clientId (\<lambda>_. False) s s' \<and> grants s' = grants s \<and>
    (\<forall>c\<in>set cs. clientId \<notin> set (owners (cu_at s' d c)))"
  using assms
proof (induction cs arbitrary: t s)
  case Nil
  then show ?case by (simp add: recycles_refl)
next
  case (Cons c cs)
  obtain t1 s1 where 1: "recycle_cu clientId d c (t, s) = (t1, s1)" by fastforce
  have v: "valid_cu s d c" using Cons.prems(2) by simp
  note step = recycle_cu_spec [OF Cons.prems(1) v 1]
  have run: "fold (recycle_cu clientId d) cs (t1, s1) = (t', s')" using Cons.prems(3) 1 by simp
  have "sys_inv s1" "\<forall>c\<in>set cs. valid_cu s1 d c"
    using step(1) Cons.prems(2) by (auto simp: recycles_def)
  note IH = Cons.IH [OF this run]
  have "recycles clientId (\<lambda>_. False) s s'" using recycles_trans [OF step(1)] IH by blast
  moreover have "clientId \<notin> set (owners (cu_at s' d c))" using step(3) IH by (auto simp: recycles_def)
  ultimately show ?case using IH step(2) by simp
qed

text \<open>The client has an entry on the device if it has a grant there.\<close>

definition client_entry :: "u64 \<Rightarrow> deviceData \<Rightarrow> nat \<Rightarrow> bool" where
  "client_entry clientId dev i \<longleftrightarrow> cl_ref (dv_clientProcs dev ! i) \<noteq> 0 \<and>
     cl_clientId (dv_clientProcs dev ! i) = clientId"

definition registered_on :: "u64 \<Rightarrow> nat \<Rightarrow> system \<Rightarrow> bool" where
  "registered_on clientId d s \<longleftrightarrow>
     (\<exists>c i ch. grants s (d, c, i) = Some ch \<and> ch_clientId ch = clientId) \<longrightarrow>
     (if dv_isExcl (dev_at s d) then client_entry clientId (dev_at s d) 0
      else \<exists>i<XRM_MAX_DEV_CLIENTS. client_entry clientId (dev_at s d) i)"

lemma recycles_releaseAll:
  assumes inv: "sys_inv s" and d: "int d < m_numDevice s" and client: "clientId \<noteq> 0"
    and f: "dv_xclbinInfo (f (dev_at (releaseAllCuChanClientOnDev d clientId s) d)) =
        dv_xclbinInfo (dev_at (releaseAllCuChanClientOnDev d clientId s) d)"
      "dv_isLoaded (f (dev_at (releaseAllCuChanClientOnDev d clientId s) d)) =
        dv_isLoaded (dev_at (releaseAllCuChanClientOnDev d clientId s) d)"
      "dv_isDisabled (f (dev_at (releaseAllCuChanClientOnDev d clientId s) d)) =
        dv_isDisabled (dev_at (releaseAllCuChanClientOnDev d clientId s) d)"
      "length (dv_clientProcs (f (dev_at (releaseAllCuChanClientOnDev d clientId s) d))) =
        XRM_MAX_DEV_CLIENTS"
      "dv_memBuffer (f (dev_at (releaseAllCuChanClientOnDev d clientId s) d)) =
        dv_memBuffer (dev_at (releaseAllCuChanClientOnDev d clientId s) d)"
  defines "s' \<equiv> upd_dev d f (releaseAllCuChanClientOnDev d clientId s)"
  shows "recycles clientId (\<lambda>d'. d' = d) s s'"
    "grants s' = forget (\<lambda>d'. d' = d) clientId (grants s)"
proof -
  let ?t = "releaseAllCuChanClientOnDev d clientId s"
  note ra = releaseAll_spec [OF inv d client]
  have "length (dv_clientProcs (dev_at ?t d)) = XRM_MAX_DEV_CLIENTS"
    using sys_inv_dev [OF ra(1), of d] ra(3) d by (simp add: dev_inv_def)
  then have sc: "same_cus ?t s'" unfolding s'_def using f by (intro same_cus_upd_dev) simp_all
  show "grants s' = forget (\<lambda>d'. d' = d) clientId (grants s)"
    using same_cus_grants [OF sc] ra(5) by simp
  have "dv_clientProcs (dev_at s' d') = dv_clientProcs (dev_at s d') \<and>
      dv_isExcl (dev_at s' d') = dv_isExcl (dev_at s d')" if "d' \<noteq> d" for d'
    using ra(6) that by (simp add: s'_def dev_at_upd_dev same_tables_def)
  then show "recycles clientId (\<lambda>d'. d' = d) s s'"
    using same_cus_sys_inv [OF sc ra(1)] same_cus_fields(1,6) [OF sc] same_cus_valid [OF sc]
      same_cus_dev [OF sc] ra(3,4,7,8) by (simp add: recycles_def)
qed

lemma recycle_entries:
  assumes "sys_inv s" "int d < m_numDevice s" "clientId \<noteq> 0"
  defines "f \<equiv> \<lambda>i s. let p = dv_clientProcs (dev_at s d) ! i
     in if cl_ref p \<noteq> 0 \<and> cl_clientId p = clientId
        then upd_dev d (\<lambda>dev. dev\<lparr>dv_clientProcs := (dv_clientProcs dev)[i := client0]\<rparr>)
               (releaseAllCuChanClientOnDev d clientId s)
        else s"
  shows "recycles clientId (\<lambda>d'. d' = d) s (fold f is s) \<and>
    (grants (fold f is s) = forget (\<lambda>d'. d' = d) clientId (grants s) \<or>
     grants (fold f is s) = grants s) \<and>
    ((\<exists>i\<in>set is. client_entry clientId (dev_at s d) i) \<longrightarrow>
     grants (fold f is s) = forget (\<lambda>d'. d' = d) clientId (grants s))"
  using assms(1,2)
proof (induction "is" arbitrary: s)
  case Nil
  then show ?case by (simp add: recycles_refl)
next
  case (Cons i "is")
  let ?t = "releaseAllCuChanClientOnDev d clientId s"
  show ?case
  proof (cases "client_entry clientId (dev_at s d) i")
    case False
    then have "f i s = s" by (auto simp: f_def client_entry_def Let_def)
    with Cons False show ?thesis by simp
  next
    case True
    let ?s1 = "upd_dev d (\<lambda>dev. dev\<lparr>dv_clientProcs := (dv_clientProcs dev)[i := client0]\<rparr>) ?t"
    have s1: "f i s = ?s1" using True by (simp add: f_def client_entry_def Let_def)
    note ra = releaseAll_spec [OF Cons.prems assms(3)]
    have "length (dv_clientProcs (dev_at ?t d)) = XRM_MAX_DEV_CLIENTS"
      using sys_inv_dev [OF ra(1), of d] ra(3) Cons.prems(2) by (simp add: dev_inv_def)
    then have st: "recycles clientId (\<lambda>d'. d' = d) s ?s1"
      "grants ?s1 = forget (\<lambda>d'. d' = d) clientId (grants s)"
      using recycles_releaseAll [OF Cons.prems assms(3),
          of "\<lambda>dev. dev\<lparr>dv_clientProcs := (dv_clientProcs dev)[i := client0]\<rparr>"] by simp_all
    have "sys_inv ?s1" "int d < m_numDevice ?s1"
      using st(1) Cons.prems(2) by (auto simp: recycles_def)
    note IH = Cons.IH [OF this]
    have "grants (fold f is ?s1) = forget (\<lambda>d'. d' = d) clientId (grants s)"
      using IH st(2) by (auto simp: forget_simps)
    with IH recycles_trans [OF st(1)] show ?thesis unfolding fold_simps(2) o_apply s1 by auto
  qed
qed

lemma recycle_clients_spec:
  assumes inv: "sys_inv s" and d: "int d < m_numDevice s" and client: "clientId \<noteq> 0"
    and run: "recycle_clients clientId d s = Some s'"
  shows "recycles clientId (\<lambda>d'. d' = d) s s'"
    "registered_on clientId d s \<Longrightarrow> grants s' = forget (\<lambda>d'. d' = d) clientId (grants s)"
proof -
  have none: "forget (\<lambda>d'. d' = d) clientId (grants s) = grants s"
    if "\<not> (\<exists>c i ch. grants s (d, c, i) = Some ch \<and> ch_clientId ch = clientId)"
    using that by (auto simp: forget_def fun_eq_iff split: option.splits)
  show "recycles clientId (\<lambda>d'. d' = d) s s'"
    "registered_on clientId d s \<Longrightarrow> grants s' = forget (\<lambda>d'. d' = d) clientId (grants s)"
  proof (atomize (full), cases "dv_isExcl (dev_at s d)")
    case True
    let ?f = "\<lambda>dev :: deviceData. dev\<lparr>dv_isExcl := False,
      dv_clientProcs := replicate XRM_MAX_DEV_CLIENTS client0\<rparr>"
    note ra = recycles_releaseAll [OF inv d client, of ?f]
    show "recycles clientId (\<lambda>d'. d' = d) s s' \<and> (registered_on clientId d s \<longrightarrow>
        grants s' = forget (\<lambda>d'. d' = d) clientId (grants s))"
      using run True ra none recycles_refl [OF inv]
      by (auto simp: recycle_clients_def Let_def registered_on_def client_entry_def split: if_splits)
  next
    case False
    then have "s' = fold (\<lambda>i s. let p = dv_clientProcs (dev_at s d) ! i
        in if cl_ref p \<noteq> 0 \<and> cl_clientId p = clientId
           then upd_dev d (\<lambda>dev. dev\<lparr>dv_clientProcs := (dv_clientProcs dev)[i := client0]\<rparr>)
                  (releaseAllCuChanClientOnDev d clientId s)
           else s) [0..<XRM_MAX_DEV_CLIENTS] s"
      using run by (simp add: recycle_clients_def Let_def)
    note re = recycle_entries [OF inv d client, of "[0..<XRM_MAX_DEV_CLIENTS]", folded this]
    show "recycles clientId (\<lambda>d'. d' = d) s s' \<and> (registered_on clientId d s \<longrightarrow>
        grants s' = forget (\<lambda>d'. d' = d) clientId (grants s))"
      using re False none by (auto simp: registered_on_def)
  qed
qed

text \<open>One loaded device: its reservations, its load, its clients.\<close>

lemma recycle_device_step:
  assumes inv: "sys_inv s" and d: "int d < m_numDevice s" and loaded: "dv_isLoaded (dev_at s d)"
    and run: "fold (recycle_cu clientId d) [0..<nat (numCu (dev_at s d))] (t, s) = (t', s1)"
  defines "s2 \<equiv> updateDeviceLoad (int d) t' 0 s1"
  shows "recycles clientId (\<lambda>_. False) s s2" "grants s2 = grants s"
    "valid_cu s d c \<Longrightarrow> clientId \<notin> set (owners (cu_at s2 d c))"
proof -
  have v: "\<forall>c\<in>set [0..<nat (numCu (dev_at s d))]. valid_cu s d c" using d by (auto simp: valid_cu_def)
  note rc = recycle_cus_spec [OF inv v run]
  have di: "dev_inv d (dev_at s1 d) \<and> d < length (m_devList s1)"
    using rc d by (intro sys_inv_dev) (auto simp: recycles_def)
  have "dv_isLoaded (dev_at s1 d)" using rc loaded by (auto simp: recycles_def)
  then have sz: "d < length (m_devList s1)" "0 < numCu (dev_at s1 d)"
    "numCu (dev_at s1 d) \<le> int XRM_MAX_XILINX_KERNELS" using di by (auto simp: dev_inv_def)
  have sc: "same_cus s1 s2" and tb: "same_tables s1 s2"
    using updateDeviceLoad_frame(1) [of "int d" s1 t' 0] same_tables_load [OF sz] sz by (auto simp: s2_def)
  show "grants s2 = grants s" using same_cus_grants [OF sc] rc by simp
  have "recycles clientId (\<lambda>_. False) s1 s2"
    using rc same_cus_sys_inv [OF sc] same_cus_fields(1,6) [OF sc] same_cus_valid [OF sc]
      same_cus_dev [OF sc] tb by (simp add: recycles_def same_tables_def)
  then show "recycles clientId (\<lambda>_. False) s s2" using rc recycles_trans by blast
  show "valid_cu s d c \<Longrightarrow> clientId \<notin> set (owners (cu_at s2 d c))"
    using rc same_cus_dev [OF sc, of d c] by (auto simp: valid_cu_def)
qed

definition never_breaks :: "nat \<Rightarrow> system \<Rightarrow> bool" where
  "never_breaks d s \<longleftrightarrow> \<not> (dv_isExcl (dev_at s d) \<and> cl_ref (dv_clientProcs (dev_at s d) ! 0) = 0)"

lemma recycles_registered:
  assumes "recycles clientId D s s'" "\<not> D d" "grants s' = grants s \<or> grants s' = forget D clientId (grants s)"
  shows "registered_on clientId d s' = registered_on clientId d s" "never_breaks d s' = never_breaks d s"
proof -
  have "grants s' (d, c, i) = grants s (d, c, i)" for c i
    using assms(2,3) by (auto simp: forget_def split: option.splits)
  moreover have "dv_clientProcs (dev_at s' d) = dv_clientProcs (dev_at s d)"
    "dv_isExcl (dev_at s' d) = dv_isExcl (dev_at s d)"
    using assms(1,2) by (simp_all add: recycles_def)
  ultimately show "registered_on clientId d s' = registered_on clientId d s"
    "never_breaks d s' = never_breaks d s"
    by (simp_all add: registered_on_def client_entry_def never_breaks_def)
qed

text \<open>The complete effect of recycling the devices \<open>ds\<close>.\<close>

definition recycled :: "u64 \<Rightarrow> nat set \<Rightarrow> system \<Rightarrow> system \<Rightarrow> bool" where
  "recycled clientId ds s s' \<longleftrightarrow> recycles clientId (\<lambda>d. d \<in> ds) s s' \<and>
     grants s' = forget (\<lambda>d. d \<in> ds) clientId (grants s) \<and>
     (\<forall>d\<in>ds. \<forall>c. valid_cu s d c \<longrightarrow> clientId \<notin> set (owners (cu_at s' d c)))"

lemma recycled_step:
  assumes r3: "recycles clientId (\<lambda>x. x = d) s s3"
    and g3: "grants s3 = forget (\<lambda>x. x = d) clientId (grants s)"
    and own: "\<And>c. valid_cu s d c \<Longrightarrow> clientId \<notin> set (owners (cu_at s3 d c))"
    and rest: "recycled clientId ds s3 s'"
  shows "recycled clientId (insert d ds) s s'"
proof -
  have "recycles clientId (\<lambda>x. x \<in> insert d ds) s s'"
    using recycles_trans [OF r3] rest by (auto simp: recycled_def)
  moreover have "grants s' = forget (\<lambda>x. x \<in> insert d ds) clientId (grants s)"
    using rest g3 by (simp add: recycled_def forget_simps disj_commute)
  moreover have "valid_cu s3 x c = valid_cu s x c" for x c using r3 by (simp add: recycles_def)
  then have "\<forall>x\<in>insert d ds. \<forall>c. valid_cu s x c \<longrightarrow> clientId \<notin> set (owners (cu_at s' x c))"
    using rest own by (auto simp: recycled_def recycles_def)
  ultimately show ?thesis by (simp add: recycled_def)
qed

lemma recycled_unloaded:
  assumes "\<And>c. \<not> valid_cu s d c" "recycled clientId ds s s'"
  shows "recycled clientId (insert d ds) s s'"
proof -
  have "grants s (d, c, i) = None" for c i using assms(1) by (simp add: grants_def)
  then have "forget (\<lambda>x. x \<in> insert d ds) clientId (grants s) = forget (\<lambda>x. x \<in> ds) clientId (grants s)"
    by (intro ext) (auto simp: forget_def split: option.splits)
  with assms show ?thesis by (auto simp: recycled_def recycles_def)
qed

lemma recycle_devices_spec:
  assumes "sys_inv s" "\<forall>d\<in>set ds. int d < m_numDevice s" "clientId \<noteq> 0" "distinct ds"
  defines "s' \<equiv> \<lambda>t s. recycle_devices clientId ds (t, s)"
  shows "sys_inv (s' t s) \<and> m_numDevice (s' t s) = m_numDevice s \<and>
    ((\<forall>d\<in>set ds. registered_on clientId d s \<and> never_breaks d s) \<longrightarrow>
      recycled clientId (set ds) s (s' t s))"
  using assms(1-4) unfolding s'_def
proof (induction ds arbitrary: t s)
  case Nil
  then show ?case by (simp add: recycled_def recycles_refl forget_simps)
next
  case (Cons d ds)
  have d: "int d < m_numDevice s" and dds: "d \<notin> set ds" using Cons.prems by auto
  show ?case
  proof (cases "dv_isLoaded (dev_at s d)")
    case False
    then have "\<not> valid_cu s d c" for c
      using sys_inv_dev [OF Cons.prems(1) d] by (auto simp: dev_inv_def valid_cu_def)
    then show ?thesis
      using Cons.IH [of s t] Cons.prems False recycled_unloaded [of s d clientId "set ds"] by simp
  next
    case True
    obtain t' s1 where 1: "fold (recycle_cu clientId d) [0..<nat (numCu (dev_at s d))] (t, s) = (t', s1)"
      by fastforce
    let ?s2 = "updateDeviceLoad (int d) t' 0 s1"
    note st2 = recycle_device_step [OF Cons.prems(1) d True 1]
    have i2: "sys_inv ?s2" "int d < m_numDevice ?s2" "m_numDevice ?s2 = m_numDevice s"
      using st2(1) d by (auto simp: recycles_def)
    have reg2: "registered_on clientId d ?s2 = registered_on clientId d s"
      "never_breaks d ?s2 = never_breaks d s"
      using recycles_registered [OF st2(1)] st2(2) by blast+
    show ?thesis
    proof (cases "recycle_clients clientId d ?s2")
      case None
      then have run: "recycle_devices clientId (d # ds) (t, s) = ?s2" using True 1 by simp
      have "\<not> never_breaks d ?s2"
        using None by (auto simp: recycle_clients_def Let_def never_breaks_def split: if_splits)
      then show ?thesis using i2 reg2 unfolding run by simp
    next
      case (Some s3)
      then have run: "recycle_devices clientId (d # ds) (t, s) = recycle_devices clientId ds (t', s3)"
        using True 1 by simp
      note st3 = recycle_clients_spec [OF i2(1,2) Cons.prems(3) Some]
      have r3: "recycles clientId (\<lambda>x. x = d) s s3" by (rule recycles_trans [OF st2(1) st3(1)]) auto
      have s3: "sys_inv s3" "m_numDevice s3 = m_numDevice s" using recyclesD [OF r3] by blast+
      then have "sys_inv s3" "\<forall>d\<in>set ds. int d < m_numDevice s3" "distinct ds"
        "m_numDevice s3 = m_numDevice s" using Cons.prems by simp_all
      note IH = Cons.IH [OF this(1,2) Cons.prems(3) this(3), of t'] this(4)
      have "recycled clientId (insert d (set ds)) s (recycle_devices clientId ds (t', s3))"
        if ok: "\<forall>x\<in>set (d # ds). registered_on clientId x s \<and> never_breaks x s"
      proof -
        have g3: "grants s3 = forget (\<lambda>x. x = d) clientId (grants s)" using st3(2) st2(2) reg2(1) ok by simp
        have "registered_on clientId x s3 \<and> never_breaks x s3" if x: "x \<in> set ds" for x
        proof -
          have "x \<noteq> d" using x dds by auto
          with ok x recycles_registered [OF r3, of x] g3 show ?thesis by simp
        qed
        then have "recycled clientId (set ds) s3 (recycle_devices clientId ds (t', s3))" using IH by blast
        moreover have "clientId \<notin> set (owners (cu_at s3 d c))" if "valid_cu s d c" for c
          using st2(3) [OF that] st3(1) by (simp add: recycles_def)
        ultimately show ?thesis by (intro recycled_step [OF r3 g3])
      qed
      then show ?thesis using IH unfolding run by simp
    qed
  qed
qed

lemma recycleResource_spec:
  assumes inv: "sys_inv s" and client: "clientId \<noteq> 0"
  shows "sys_inv (recycleResource clientId s)"
    "\<forall>d<nat (m_numDevice s). registered_on clientId d s \<and> never_breaks d s \<Longrightarrow>
      grants (recycleResource clientId s) = forget (\<lambda>_. True) clientId (grants s)"
    "\<forall>d<nat (m_numDevice s). registered_on clientId d s \<and> never_breaks d s \<Longrightarrow> valid_cu s d c \<Longrightarrow>
      clientId \<notin> set (owners (cu_at (recycleResource clientId s) d c))"
proof -
  let ?t = "recycle_devices clientId [0..<nat (m_numDevice s)] (0, s)"
  have dec: "m_devList (recycleResource clientId s) = m_devList ?t"
    "m_numDevice (recycleResource clientId s) = m_numDevice ?t"
    "m_fault (recycleResource clientId s) = m_fault ?t"
    "m_devicesInited (recycleResource clientId s) = m_devicesInited ?t"
    by (simp_all add: recycleResource_def decNumConcurrentClient_def)
  have at: "dev_at (recycleResource clientId s) d = dev_at ?t d"
    "cu_at (recycleResource clientId s) d c = cu_at ?t d c" for d c
    by (simp_all add: dev_at_def cu_at_def dec)
  have gr: "grants (recycleResource clientId s) = grants ?t"
    by (intro ext) (auto simp: grants_def valid_cu_def chan_at_def at dec)
  have "\<forall>d\<in>set [0..<nat (m_numDevice s)]. int d < m_numDevice s" by auto
  note rd = recycle_devices_spec [OF inv this client distinct_upt, of 0]
  show "sys_inv (recycleResource clientId s)" using rd by (auto simp: sys_inv_def dec at)
  assume ok: "\<forall>d<nat (m_numDevice s). registered_on clientId d s \<and> never_breaks d s"
  then have rec: "recycled clientId (set [0..<nat (m_numDevice s)]) s ?t" using rd by simp
  show "grants (recycleResource clientId s) = forget (\<lambda>_. True) clientId (grants s)"
  proof -
    have "grants s (d, c, i) = None" if "\<not> d < nat (m_numDevice s)" for d c i
      using that by (auto simp: grants_def valid_cu_def)
    then show ?thesis using rec unfolding gr recycled_def
      by (auto simp: forget_def fun_eq_iff split: option.splits)
  qed
  show "clientId \<notin> set (owners (cu_at (recycleResource clientId s) d c))" if "valid_cu s d c"
    using rec that unfolding at by (auto simp: recycled_def valid_cu_def)
qed

end
