(* ===== verification/Xrm_Lists.thy ===== *)
theory Xrm_Lists
  imports Xrm_Release_Inv
begin

text \<open>
  Allocation of lists of compute units: \<open>resAllocCuList\<close> (from one device or from any), the version 2
  list with a device constraint per member (\<open>resAllocCuListV2\<close>) and the sub-lists it allocates from
  one device each. A list is allocated completely or not at all: every failure releases what was
  taken before.
\<close>

section \<open>Version 2 requests\<close>

definition XRM_DEVICE_INFO_CONSTRAINT_TYPE_NULL :: u64 where
  "XRM_DEVICE_INFO_CONSTRAINT_TYPE_NULL = 0"
definition XRM_DEVICE_INFO_CONSTRAINT_TYPE_HARDWARE_DEVICE_INDEX :: u64 where
  "XRM_DEVICE_INFO_CONSTRAINT_TYPE_HARDWARE_DEVICE_INDEX = 1"
definition XRM_DEVICE_INFO_CONSTRAINT_TYPE_VIRTUAL_DEVICE_INDEX :: u64 where
  "XRM_DEVICE_INFO_CONSTRAINT_TYPE_VIRTUAL_DEVICE_INDEX = 2"

text \<open>\<open>(deviceInfo >> 32) & 0xFF\<close> and \<open>(deviceInfo >> 0) & 0xFFFFFFFF\<close>.\<close>

definition deviceInfoConstraintType :: "cuPropertyV2 \<Rightarrow> u64" where
  "deviceInfoConstraintType p = and (drop_bit 32 (p2_deviceInfo p)) 0xFF"

definition deviceInfoDeviceIndex :: "cuPropertyV2 \<Rightarrow> u64" where
  "deviceInfoDeviceIndex p = and (drop_bit 0 (p2_deviceInfo p)) 0xFFFFFFFF"

definition cuPropertyCopyFromV2 :: "cuPropertyV2 \<Rightarrow> cuProperty" where
  "cuPropertyCopyFromV2 p = \<lparr>
     pr_kernelName = strncpy (XRM_MAX_NAME_LEN - 1) (pr_kernelName p),
     pr_kernelAlias = strncpy (XRM_MAX_NAME_LEN - 1) (pr_kernelAlias p),
     pr_cuName = [],
     pr_devExcl = pr_devExcl p,
     pr_requestLoadUnified = pr_requestLoadUnified p,
     pr_requestLoadOriginal = pr_requestLoadOriginal p,
     pr_clientId = pr_clientId p,
     pr_clientProcessId = pr_clientProcessId p,
     pr_poolId = pr_poolId p\<rparr>"

definition cuResourceCopy :: "cuResource \<Rightarrow> cuResource \<Rightarrow> cuResource" where
  "cuResourceCopy des src = des\<lparr>
     re_xclbinFileName := strncpy (XRM_MAX_NAME_LEN - 1) (re_xclbinFileName src),
     re_kernelPluginFileName := strncpy (XRM_MAX_NAME_LEN - 1) (re_kernelPluginFileName src),
     re_kernelName := strncpy (XRM_MAX_NAME_LEN - 1) (re_kernelName src),
     re_kernelAlias := strncpy (XRM_MAX_NAME_LEN - 1) (re_kernelAlias src),
     re_instanceName := strncpy (XRM_MAX_NAME_LEN - 1) (re_instanceName src),
     re_cuName := strncpy (XRM_MAX_NAME_LEN - 1) (re_cuName src),
     re_uuidStr := strncpy (XRM_MAX_NAME_LEN - 1) (re_uuidStr src),
     re_deviceId := re_deviceId src,
     re_cuId := re_cuId src,
     re_channelId := re_channelId src,
     re_cuType := re_cuType src,
     re_baseAddr := re_baseAddr src,
     re_membankId := re_membankId src,
     re_membankType := re_membankType src,
     re_membankSize := re_membankSize src,
     re_membankBaseAddr := re_membankBaseAddr src,
     re_allocServiceId := re_allocServiceId src,
     re_clientId := re_clientId src,
     re_channelLoadUnified := re_channelLoadUnified src,
     re_channelLoadOriginal := re_channelLoadOriginal src,
     re_poolId := re_poolId src\<rparr>"

section \<open>Device id lists\<close>

record deviceIdListPropertyV2 =
  dl_deviceIds :: "u64 list"
  dl_deviceNum :: int

definition deviceIdList0 :: deviceIdListPropertyV2 where
  "deviceIdList0 = \<lparr> dl_deviceIds = replicate XRM_MAX_XILINX_DEVICES 0, dl_deviceNum = 0 \<rparr>"

definition isInDeviceIdList :: "deviceIdListPropertyV2 \<Rightarrow> int \<Rightarrow> bool" where
  "isInDeviceIdList devIdList devId =
     (if dl_deviceNum devIdList < 0 \<or> dl_deviceNum devIdList > int XRM_MAX_XILINX_DEVICES then False
      else if devId < 0 \<or> devId > int XRM_MAX_XILINX_DEVICES - 1 then False
      else list_ex (\<lambda>i. dl_deviceIds devIdList ! i = of_int devId) [0..<nat (dl_deviceNum devIdList)])"

definition insertDeviceIdList :: "deviceIdListPropertyV2 \<Rightarrow> int \<Rightarrow> int \<times> deviceIdListPropertyV2" where
  "insertDeviceIdList devIdList devId =
     (if dl_deviceNum devIdList < 0 \<or> dl_deviceNum devIdList > int XRM_MAX_XILINX_DEVICES
      then (XRM_ERROR, devIdList)
      else if devId < 0 \<or> devId > int XRM_MAX_XILINX_DEVICES - 1 then (XRM_ERROR, devIdList)
      else if list_ex (\<lambda>i. dl_deviceIds devIdList ! i = of_int devId) [0..<nat (dl_deviceNum devIdList)]
      then (XRM_SUCCESS, devIdList)
      else if dl_deviceNum devIdList < int XRM_MAX_XILINX_DEVICES
      then (XRM_SUCCESS, devIdList\<lparr>
              dl_deviceIds := (dl_deviceIds devIdList)[nat (dl_deviceNum devIdList) := of_int devId],
              dl_deviceNum := dl_deviceNum devIdList + 1\<rparr>)
      else (XRM_ERROR, devIdList))"

section \<open>Allocating the members of a list\<close>

text \<open>
  The loop over the members: allocate the next one into its slot of the result and count it; on
  a failure release the counted ones and clear the result.
\<close>

fun alloc_members :: "(cuProperty \<Rightarrow> cuResource \<times> system \<Rightarrow> int \<times> cuResource \<times> system) \<Rightarrow>
    (cuListResource \<Rightarrow> system \<Rightarrow> int \<times> system) \<Rightarrow> nat \<Rightarrow> cuProperty list \<Rightarrow> nat \<Rightarrow>
    cuListResource \<times> system \<Rightarrow> int \<times> cuListResource \<times> system" where
  "alloc_members alloc release n [] i (lr, s) = (XRM_SUCCESS, lr, s)"
| "alloc_members alloc release n (p # ps) i (lr, s) =
     (case alloc p (lr_cuResources lr ! i, s) of
        (ret, cuRes', s') \<Rightarrow>
          (let lr' = lr\<lparr>lr_cuResources := (lr_cuResources lr)[i := cuRes']\<rparr>
           in if ret \<noteq> XRM_SUCCESS then (ret, cuListResource0 n, snd (release lr' s'))
              else alloc_members alloc release n ps (i + 1)
                     (lr'\<lparr>lr_cuNum := lr_cuNum lr' + 1\<rparr>, s')))"

text \<open>A member from device \<open>devId\<close>: register the client, then take a compute unit.\<close>

definition alloc_member_on :: "int \<Rightarrow> cuProperty \<Rightarrow> cuResource \<times> system \<Rightarrow> int \<times> cuResource \<times> system" where
  "alloc_member_on devId prop = (\<lambda>(cuRes, s).
     case allocClientFromDev devId prop s of
       (ret, s1) \<Rightarrow>
         if ret \<noteq> XRM_SUCCESS then (ret, cuRes, s1)
         else case allocCuFromDev devId prop (cuRes, s1) of
                (ret, cuRes', s2) \<Rightarrow>
                  if ret \<noteq> XRM_SUCCESS
                  then (ret, cuRes', snd (releaseClientOnDev devId (pr_clientId prop) s2))
                  else (XRM_SUCCESS, cuRes', s2))"

definition alloc_list_try :: "cuProperty list \<Rightarrow> nat \<Rightarrow> cuListResource \<times> system \<Rightarrow>
    bool \<times> cuListResource \<times> system" where
  "alloc_list_try props d st =
     (case alloc_members (alloc_member_on (int d)) resReleaseCuList XRM_MAX_LIST_CU_NUM props 0 st of
        (ret, st') \<Rightarrow> (ret = XRM_SUCCESS, st'))"

definition resAllocCuList :: "cuListProperty \<Rightarrow> cuListResource \<times> system \<Rightarrow>
    int \<times> cuListResource \<times> system" where
  "resAllocCuList cuListProp = (\<lambda>(lr, s).
     if lp_cuNum cuListProp \<le> 0 \<or> lp_cuNum cuListProp > int XRM_MAX_LIST_CU_NUM
     then (XRM_ERROR_INVALID, lr, s)
     else (let props = take (nat (lp_cuNum cuListProp)) (lp_cuProps cuListProp);
               lr0 = lr\<lparr>lr_cuNum := 0\<rparr>
           in if lp_sameDevice cuListProp then
                (case search_devices (alloc_list_try props) (props ! 0) (lr0, s) of
                   (acquired, lr', s') \<Rightarrow>
                     if acquired then (XRM_SUCCESS, lr', updateAllocServiceId s')
                     else (XRM_ERROR_NO_KERNEL, lr', s'))
              else (case alloc_members (\<lambda>p. resAllocCu p False) resReleaseCuList
                           XRM_MAX_LIST_CU_NUM props 0 (lr0, s) of
                      (ret, lr', s') \<Rightarrow>
                        if ret \<noteq> XRM_SUCCESS then (XRM_ERROR_NO_KERNEL, lr', s')
                        else (XRM_SUCCESS, lr', updateAllocServiceId s'))))"

section \<open>Sub-lists from one device\<close>

record cuSubListPropertyV2 =
  sl_cuProps :: "cuProperty list"
  sl_indexInOriList :: "nat list"
  sl_cuNum :: int

definition resReleaseCuSubList :: "cuListResource \<Rightarrow> system \<Rightarrow> int \<times> system" where
  "resReleaseCuSubList lr s =
     (if lr_cuNum lr < 0 \<or> lr_cuNum lr > int XRM_MAX_LIST_CU_NUM_V2 then (XRM_ERROR_INVALID, s)
      else if lr_cuNum lr = 0 then (XRM_SUCCESS, s)
      else release_all resReleaseCuV2 (take (nat (lr_cuNum lr)) (lr_cuResources lr)) s)"

definition alloc_sublist_try :: "cuProperty list \<Rightarrow> deviceIdListPropertyV2 \<Rightarrow> nat \<Rightarrow>
    cuListResource \<times> system \<Rightarrow> bool \<times> cuListResource \<times> system" where
  "alloc_sublist_try props usedDevIdList d st =
     (if isInDeviceIdList usedDevIdList (int d) then (False, st)
      else case alloc_members (alloc_member_on (int d)) resReleaseCuSubList XRM_MAX_LIST_CU_NUM_V2
                  props 0 st of
             (ret, st') \<Rightarrow> (ret = XRM_SUCCESS, st'))"

definition resAllocCuSubListFromSameDevice :: "cuSubListPropertyV2 \<Rightarrow> deviceIdListPropertyV2 \<Rightarrow>
    cuListResource \<times> system \<Rightarrow> int \<times> cuListResource \<times> system" where
  "resAllocCuSubListFromSameDevice sub usedDevIdList st =
     (if sl_cuNum sub \<le> 0 \<or> sl_cuNum sub > int XRM_MAX_LIST_CU_NUM_V2 \<or>
         dl_deviceNum usedDevIdList < 0 \<or> dl_deviceNum usedDevIdList > int XRM_MAX_XILINX_DEVICES
      then (XRM_ERROR_INVALID, st)
      else (let props = take (nat (sl_cuNum sub)) (sl_cuProps sub)
            in case search_devices (alloc_sublist_try props usedDevIdList) (props ! 0) st of
                 (acquired, st') \<Rightarrow> (if acquired then XRM_SUCCESS else XRM_ERROR_NO_KERNEL, st')))"

section \<open>Version 2 lists\<close>

record itemFlag =
  it_handled :: bool
  it_allocated :: bool

definition itemFlags0 :: "itemFlag list" where
  "itemFlags0 = replicate XRM_MAX_LIST_CU_NUM_V2 \<lparr> it_handled = False, it_allocated = False \<rparr>"

definition set_handled :: "nat \<Rightarrow> itemFlag list \<Rightarrow> itemFlag list" where
  "set_handled i flags = flags[i := (flags ! i)\<lparr>it_handled := True\<rparr>]"

definition set_allocated :: "nat \<Rightarrow> itemFlag list \<Rightarrow> itemFlag list" where
  "set_allocated i flags = flags[i := (flags ! i)\<lparr>it_allocated := True\<rparr>]"

text \<open>
  The members with the same virtual device index as member \<open>index\<close> (which starts the sub-list): the
  later ones that are not handled yet.
\<close>

definition same_virtual :: "cuListPropertyV2 \<Rightarrow> nat \<Rightarrow> itemFlag list \<Rightarrow> nat list" where
  "same_virtual cuListProp index flags =
     index # filter (\<lambda>j. \<not> it_handled (flags ! j) \<and>
         deviceInfoConstraintType (l2_cuProps cuListProp ! j) =
           XRM_DEVICE_INFO_CONSTRAINT_TYPE_VIRTUAL_DEVICE_INDEX \<and>
         deviceInfoDeviceIndex (l2_cuProps cuListProp ! j) =
           deviceInfoDeviceIndex (l2_cuProps cuListProp ! index))
       [index + 1..<nat (l2_cuNum cuListProp)]"

definition make_sublist :: "cuListPropertyV2 \<Rightarrow> nat list \<Rightarrow> cuSubListPropertyV2" where
  "make_sublist cuListProp is = \<lparr>
     sl_cuProps = map (\<lambda>j. cuPropertyCopyFromV2 (l2_cuProps cuListProp ! j)) is,
     sl_indexInOriList = is, sl_cuNum = int (length is)\<rparr>"

text \<open>
  The loop over the list: \<open>None\<close> is the \<open>continue\<close> of a member that is already handled, and the first
  failure ends the loop.
\<close>

fun until_error :: "(nat \<Rightarrow> 's \<Rightarrow> int option \<times> 's) \<Rightarrow> nat list \<Rightarrow> int \<times> 's \<Rightarrow> int \<times> 's" where
  "until_error step [] (ret, st) = (ret, st)"
| "until_error step (i # is) (ret, st) =
     (case step i st of
        (None, st') \<Rightarrow> until_error step is (ret, st')
      | (Some ret', st') \<Rightarrow>
          if ret' \<noteq> XRM_SUCCESS then (ret', st') else until_error step is (ret', st'))"

text \<open>The state of the allocation loop: the flags, the used devices, the result list, the system.\<close>

type_synonym alloc_v2_state = "itemFlag list \<times> deviceIdListPropertyV2 \<times> cuListResource \<times> system"

definition copy_sublist :: "nat list \<Rightarrow> cuListResource \<Rightarrow> itemFlag list \<times> cuListResource \<Rightarrow>
    itemFlag list \<times> cuListResource" where
  "copy_sublist is sub = fold (\<lambda>i (flags, lr).
     (set_allocated (is ! i) flags,
      lr\<lparr>lr_cuResources := (lr_cuResources lr)[is ! i :=
           cuResourceCopy (lr_cuResources lr ! (is ! i)) (lr_cuResources sub ! i)]\<rparr>))
     [0..<nat (lr_cuNum sub)]"

definition alloc_v2_step :: "cuListPropertyV2 \<Rightarrow> nat \<Rightarrow> alloc_v2_state \<Rightarrow> int option \<times> alloc_v2_state" where
  "alloc_v2_step cuListProp index = (\<lambda>(flags0, used, lr, s).
     if it_handled (flags0 ! index) then (None, flags0, used, lr, s)
     else (let p = l2_cuProps cuListProp ! index;
               flags = set_handled index flags0;
               one = (\<lambda>(ret, cuRes', s').
                 let lr' = lr\<lparr>lr_cuResources := (lr_cuResources lr)[index := cuRes']\<rparr>
                 in if ret = XRM_SUCCESS
                    then (Some ret, set_allocated index flags, used, lr'\<lparr>lr_cuNum := lr_cuNum lr + 1\<rparr>, s')
                    else (Some ret, flags, used, lr', s'))
           in if deviceInfoConstraintType p = XRM_DEVICE_INFO_CONSTRAINT_TYPE_NULL then
                one (resAllocCu (cuPropertyCopyFromV2 p) False (lr_cuResources lr ! index, s))
              else if deviceInfoConstraintType p = XRM_DEVICE_INFO_CONSTRAINT_TYPE_HARDWARE_DEVICE_INDEX then
                one (resAllocCuFromDev (i32 (uint (deviceInfoDeviceIndex p))) (cuPropertyCopyFromV2 p) False
                      (lr_cuResources lr ! index, s))
              else if deviceInfoConstraintType p = XRM_DEVICE_INFO_CONSTRAINT_TYPE_VIRTUAL_DEVICE_INDEX then
                (let is = same_virtual cuListProp index flags;
                     flags' = fold set_handled is flags
                 in case resAllocCuSubListFromSameDevice (make_sublist cuListProp is) used
                           (cuListResource0 XRM_MAX_LIST_CU_NUM_V2, s) of
                      (ret, sub, s') \<Rightarrow>
                        if ret = XRM_SUCCESS
                        then (case copy_sublist is sub (flags', lr) of
                                (flags'', lr') \<Rightarrow>
                                  (Some ret, flags'',
                                   snd (insertDeviceIdList used (re_deviceId (lr_cuResources sub ! 0))),
                                   lr'\<lparr>lr_cuNum := lr_cuNum lr' + lr_cuNum sub\<rparr>, s'))
                        else (Some ret, flags', used, lr, s'))
              else (Some XRM_ERROR_INVALID, flags, used, lr, s)))"

definition resAllocCuListV2 :: "cuListPropertyV2 \<Rightarrow> cuListResource \<times> system \<Rightarrow>
    int \<times> cuListResource \<times> system" where
  "resAllocCuListV2 cuListProp = (\<lambda>(lr, s).
     if l2_cuNum cuListProp \<le> 0 \<or> l2_cuNum cuListProp > int XRM_MAX_LIST_CU_NUM_V2
     then (XRM_ERROR_INVALID, lr, s)
     else case until_error (alloc_v2_step cuListProp) [0..<nat (l2_cuNum cuListProp)]
                 (XRM_ERROR, itemFlags0, deviceIdList0, lr, s) of
            (ret, flags, used, lr', s') \<Rightarrow>
              if ret = XRM_SUCCESS then (ret, lr', updateAllocServiceId s')
              else (ret, lr'\<lparr>lr_cuNum := 0\<rparr>,
                    fold (\<lambda>i s. if it_allocated (flags ! i)
                                then snd (resReleaseCuV2 (lr_cuResources lr' ! i) s) else s)
                      [0..<nat (l2_cuNum cuListProp)] s'))"

end
