(* ===== verification/Xrm_Reserve.thy ===== *)
theory Xrm_Reserve
  imports Xrm_Lists
begin

text \<open>
  Reservation: setting load of compute units aside under a pool id, for single compute units, lists,
  whole xclbins and whole devices, and relinquishing it. A pool is reserved completely or
  not at all: when one part fails, everything reserved under the pool id is relinquished.
\<close>

section \<open>Reserving load of one compute unit\<close>

definition reserveLoadFromCu :: "u64 \<Rightarrow> nat \<Rightarrow> nat \<Rightarrow> cuProperty \<Rightarrow> system \<Rightarrow> int \<times> system" where
  "reserveLoadFromCu reservePoolId d c prop s =
     (let cu = cu_at s d c; req = pr_requestLoadUnified prop
      in if reservePoolId < 1 then (XRM_ERROR_INVALID, s)
         else if req \<le> 0 \<or> req > XRM_MAX_LOAD then (XRM_ERROR_INVALID, s)
         else if i32 (cu_totalUsedLoadUnified cu + req) \<le> XRM_MAX_LOAD \<and>
                 i32 (cu_totalReservedLoadUnified cu + req) \<le> XRM_MAX_LOAD then
           (let reserveIdx = isReservePoolUsingCu cu reservePoolId
            in if reserveIdx \<noteq> - 1 then
                 (XRM_SUCCESS, updateDeviceLoad (cu_deviceId cu) req (- 1)
                    (upd_cu d c (\<lambda>cu. grow_reserve (nat reserveIdx) req (add_reserved req cu)) s))
               else if cu_numReserve cu < int XRM_MAX_KERNEL_RESERVES then
                 (XRM_SUCCESS, updateDeviceLoad (cu_deviceId cu) req (- 1)
                    (upd_cu d c (\<lambda>cu. open_reserve reservePoolId prop (add_reserved req cu)) s))
               else (XRM_ERROR_NO_KERNEL, s))
         else (XRM_ERROR_NO_KERNEL, s))"

text \<open>Reservations compare the kernel name and the alias, and need at least one of them.\<close>

definition kernel_matches :: "cuProperty \<Rightarrow> cuData \<Rightarrow> bool" where
  "kernel_matches prop cu \<longleftrightarrow>
     (let kernelNameEqual = (pr_kernelName prop \<noteq> [] \<longrightarrow> cu_kernelName cu = pr_kernelName prop);
          kernelAliasEqual = (pr_kernelAlias prop \<noteq> [] \<longrightarrow> cu_kernelAlias cu = pr_kernelAlias prop)
      in kernelNameEqual \<and> kernelAliasEqual)"

definition no_kernel :: "cuProperty \<Rightarrow> bool" where
  "no_kernel prop \<longleftrightarrow> pr_kernelName prop = [] \<and> pr_kernelAlias prop = []"

definition reserve_scan :: "u64 \<Rightarrow> cuProperty \<Rightarrow> bool \<Rightarrow> nat \<Rightarrow> system \<Rightarrow> bool \<times> system" where
  "reserve_scan reservePoolId prop cuAffinityPass d s =
     until_acquired
       (\<lambda>c s. if affinity_skip cuAffinityPass (cu_at s d c) then (False, s)
              else if \<not> kernel_matches prop (cu_at s d c) then (False, s)
              else case reserveLoadFromCu reservePoolId d c prop s of (ret, s') \<Rightarrow> (ret = XRM_SUCCESS, s'))
       (cu_ids (dev_at s d)) s"

text \<open>\<open>resReserveCu\<close>; the first component of the search state is \<open>*fromDevId\<close>.\<close>

definition resReserveCu_try :: "u64 \<Rightarrow> bool \<Rightarrow> cuProperty \<Rightarrow> nat \<Rightarrow> u64 \<times> system \<Rightarrow>
    bool \<times> u64 \<times> system" where
  "resReserveCu_try reservePoolId cuAffinityPass prop d = (\<lambda>(fromDevId, s).
     case reserve_scan reservePoolId prop cuAffinityPass d s of (b, s') \<Rightarrow> (b, of_nat d, s'))"

definition resReserveCu :: "u64 \<Rightarrow> cuProperty \<Rightarrow> u64 \<times> system \<Rightarrow> int \<times> u64 \<times> system" where
  "resReserveCu reservePoolId prop st =
     (if no_kernel prop then (XRM_ERROR_INVALID, st)
      else case search_devices (resReserveCu_try reservePoolId True prop) prop st of
             (acquired1, st1) \<Rightarrow>
               (case (if acquired1 then (True, st1)
                      else search_devices (resReserveCu_try reservePoolId False prop) prop st1) of
                  (acquired, st') \<Rightarrow> (if acquired then XRM_SUCCESS else XRM_ERROR_NO_KERNEL, st')))"

definition reserveCuFromDev :: "u64 \<Rightarrow> int \<Rightarrow> cuProperty \<Rightarrow> system \<Rightarrow> int \<times> system" where
  "reserveCuFromDev reservePoolId devId prop s =
     (if devId < 0 \<or> devId \<ge> m_numDevice s then (XRM_ERROR_INVALID, s)
      else if no_kernel prop then (XRM_ERROR_INVALID, s)
      else case reserve_scan reservePoolId prop True (nat devId) s of
             (acquired1, s1) \<Rightarrow>
               (case (if acquired1 then (True, s1) else reserve_scan reservePoolId prop False (nat devId) s1) of
                  (acquired, s') \<Rightarrow> (if acquired then XRM_SUCCESS else XRM_ERROR_NO_KERNEL, s')))"

section \<open>Relinquishing\<close>

text \<open>
  The loops over the reservations of one compute unit: the first slot of the pool is removed unless
  it has used load, which ends the whole operation with an error (\<open>None\<close>).
\<close>

definition relinquish_slot :: "nat \<Rightarrow> nat \<Rightarrow> nat \<Rightarrow> system \<Rightarrow> system" where
  "relinquish_slot d c i s =
     (let load = rs_loadUnified (cu_reserves (cu_at s d c) ! i)
      in upd_cu d c (drop_reserve i)
           (updateDeviceLoad (int d) (- load) (- 1)
             (upd_cu d c (\<lambda>cu. cu\<lparr>
                cu_totalUsedLoadUnified := i32 (cu_totalUsedLoadUnified cu - load),
                cu_totalReservedLoadUnified := i32 (cu_totalReservedLoadUnified cu - load)\<rparr>) s)))"

definition relinquish_cu :: "u64 \<Rightarrow> nat \<Rightarrow> nat \<Rightarrow> system \<Rightarrow> system option" where
  "relinquish_cu reservePoolId d c s =
     (case first_index (nat (cu_numReserve (cu_at s d c)))
             (\<lambda>i. rs_poolId (cu_reserves (cu_at s d c) ! i) = reservePoolId) of
        None \<Rightarrow> Some s
      | Some i \<Rightarrow> if rs_usedLoadUnified (cu_reserves (cu_at s d c) ! i) \<noteq> 0 then None
                  else Some (relinquish_slot d c i s))"

text \<open>The loops over the devices and compute units; an error leaves what was relinquished before it.\<close>

fun relinquish_cus :: "u64 \<Rightarrow> nat \<Rightarrow> nat list \<Rightarrow> system \<Rightarrow> bool \<times> system" where
  "relinquish_cus reservePoolId d [] s = (True, s)"
| "relinquish_cus reservePoolId d (c # cs) s =
     (case relinquish_cu reservePoolId d c s of
        None \<Rightarrow> (False, s)
      | Some s' \<Rightarrow> relinquish_cus reservePoolId d cs s')"

fun relinquish_devices :: "u64 \<Rightarrow> nat list \<Rightarrow> system \<Rightarrow> bool \<times> system" where
  "relinquish_devices reservePoolId [] s = (True, s)"
| "relinquish_devices reservePoolId (d # ds) s =
     (if \<not> dv_isLoaded (dev_at s d) then relinquish_devices reservePoolId ds s
      else case relinquish_cus reservePoolId d [0..<nat (numCu (dev_at s d))] s of
             (ok, s') \<Rightarrow> if ok then relinquish_devices reservePoolId ds s' else (False, s'))"

definition resRelinquishCuList :: "u64 \<Rightarrow> system \<Rightarrow> int \<times> system" where
  "resRelinquishCuList reservePoolId s =
     (if reservePoolId = 0 then (XRM_ERROR_INVALID, s)
      else case relinquish_devices reservePoolId [0..<nat (m_numDevice s)] s of
             (ok, s') \<Rightarrow> (if ok then XRM_SUCCESS else XRM_ERROR, s'))"

definition resRelinquishCuListV2 :: "u64 \<Rightarrow> system \<Rightarrow> int \<times> system" where
  "resRelinquishCuListV2 reservePoolId s = (case resRelinquishCuList reservePoolId s of (ret, s') \<Rightarrow> (ret, s'))"

definition resRelinquishCuPool :: "u64 \<Rightarrow> system \<Rightarrow> int \<times> system" where
  "resRelinquishCuPool reservePoolId s =
     (if reservePoolId = 0 then (XRM_ERROR_INVALID, s)
      else case relinquish_devices reservePoolId [0..<nat (m_numDevice s)] s of
             (ok, s') \<Rightarrow> (if ok then XRM_SUCCESS else XRM_ERROR, s'))"

definition resRelinquishCuPoolV2 :: "u64 \<Rightarrow> system \<Rightarrow> int \<times> system" where
  "resRelinquishCuPoolV2 reservePoolId s = (case resRelinquishCuPool reservePoolId s of (ret, s') \<Rightarrow> (ret, s'))"

text \<open>
  \<open>relinquishCuFromDev\<close> takes the first unused slot of the pool with exactly the requested load, of
  the first matching compute unit that has one.
\<close>

definition relinquish_on_cu :: "u64 \<Rightarrow> cuProperty \<Rightarrow> nat \<Rightarrow> nat \<Rightarrow> system \<Rightarrow> bool \<times> system" where
  "relinquish_on_cu reservePoolId prop d c s =
     (let cu = cu_at s d c
      in if \<not> kernel_matches prop cu then (False, s)
         else case first_index (nat (cu_numReserve cu)) (\<lambda>i.
                     rs_poolId (cu_reserves cu ! i) = reservePoolId \<and>
                     rs_loadUnified (cu_reserves cu ! i) = pr_requestLoadUnified prop \<and>
                     rs_usedLoadUnified (cu_reserves cu ! i) = 0) of
                None \<Rightarrow> (False, s)
              | Some i \<Rightarrow> (True, relinquish_slot d c i s))"

definition relinquishCuFromDev :: "u64 \<Rightarrow> int \<Rightarrow> cuProperty \<Rightarrow> system \<Rightarrow> int \<times> system" where
  "relinquishCuFromDev reservePoolId devId prop s =
     (let d = nat devId
      in if reservePoolId = 0 then (XRM_ERROR_INVALID, s)
         else if devId < 0 \<or> devId \<ge> m_numDevice s then (XRM_ERROR_INVALID, s)
         else if no_kernel prop then (XRM_ERROR_INVALID, s)
         else if \<not> dv_isLoaded (dev_at s d) then (XRM_ERROR, s)
         else case until_acquired (relinquish_on_cu reservePoolId prop d)
                     [0..<nat (numCu (dev_at s d))] s of
                (found, s') \<Rightarrow> (if found then XRM_SUCCESS else XRM_ERROR, s'))"

section \<open>Reserving lists\<close>

text \<open>Reserve the members in order; a failure is rolled back and ends the loop.\<close>

fun reserve_members :: "(cuProperty \<Rightarrow> 'x \<times> system \<Rightarrow> int \<times> 'x \<times> system) \<Rightarrow> u64 \<Rightarrow>
    cuProperty list \<Rightarrow> 'x \<times> system \<Rightarrow> int \<times> 'x \<times> system" where
  "reserve_members reserve reservePoolId [] (x, s) = (XRM_SUCCESS, x, s)"
| "reserve_members reserve reservePoolId (p # ps) (x, s) =
     (case reserve p (x, s) of
        (ret, x', s') \<Rightarrow>
          if ret \<noteq> XRM_SUCCESS then (ret, x', snd (resRelinquishCuList reservePoolId s'))
          else reserve_members reserve reservePoolId ps (x', s'))"

definition reserve_member_on :: "u64 \<Rightarrow> int \<Rightarrow> cuProperty \<Rightarrow> unit \<times> system \<Rightarrow> int \<times> unit \<times> system" where
  "reserve_member_on reservePoolId devId prop = (\<lambda>(x, s).
     case reserveCuFromDev reservePoolId devId prop s of (ret, s') \<Rightarrow> (ret, x, s'))"

definition reserve_list_try :: "u64 \<Rightarrow> cuProperty list \<Rightarrow> nat \<Rightarrow> int \<times> system \<Rightarrow>
    bool \<times> int \<times> system" where
  "reserve_list_try reservePoolId props d = (\<lambda>(ret0, s).
     case reserve_members (reserve_member_on reservePoolId (int d)) reservePoolId props ((), s) of
       (ret, _, s') \<Rightarrow> (ret = XRM_SUCCESS, ret, s'))"

definition resReserveCuList :: "u64 \<Rightarrow> cuListProperty \<Rightarrow> system \<Rightarrow> int \<times> system" where
  "resReserveCuList reservePoolId cuListProp s =
     (if lp_cuNum cuListProp \<le> 0 \<or> lp_cuNum cuListProp > int XRM_MAX_LIST_CU_NUM then (XRM_ERROR_INVALID, s)
      else (let props = take (nat (lp_cuNum cuListProp)) (lp_cuProps cuListProp)
            in if lp_sameDevice cuListProp then
                 snd (search_devices (reserve_list_try reservePoolId props) (props ! 0) (XRM_ERROR, s))
               else (case reserve_members (resReserveCu reservePoolId) reservePoolId props (0, s) of
                       (ret, fromDevId, s') \<Rightarrow> (ret, s'))))"

text \<open>
  A sub-list from one device that is not in use by another sub-list. Only the members reserved in
  this attempt are relinquished, one by one; if that fails the search ends with the error.
\<close>

fun relinquish_members :: "u64 \<Rightarrow> int \<Rightarrow> cuProperty list \<Rightarrow> system \<Rightarrow> bool \<times> system" where
  "relinquish_members reservePoolId devId [] s = (True, s)"
| "relinquish_members reservePoolId devId (p # ps) s =
     (case relinquishCuFromDev reservePoolId devId p s of
        (ret, s') \<Rightarrow> if ret \<noteq> XRM_SUCCESS then (False, s')
                    else relinquish_members reservePoolId devId ps s')"

fun reserve_sub_members :: "u64 \<Rightarrow> int \<Rightarrow> cuProperty list \<Rightarrow> cuProperty list \<Rightarrow> system \<Rightarrow>
    int \<times> bool \<times> system" where
  "reserve_sub_members reservePoolId devId done [] s = (XRM_SUCCESS, True, s)"
| "reserve_sub_members reservePoolId devId done (p # ps) s =
     (case reserveCuFromDev reservePoolId devId p s of
        (ret, s') \<Rightarrow>
          if ret \<noteq> XRM_SUCCESS
          then (case relinquish_members reservePoolId devId done s' of (ok, s'') \<Rightarrow> (ret, ok, s''))
          else reserve_sub_members reservePoolId devId (done @ [p]) ps s')"

text \<open>The search state is the result code with \<open>*fromDevId\<close>; the search stops on success or when
  relinquishing failed.\<close>

definition reserve_sublist_try :: "u64 \<Rightarrow> cuProperty list \<Rightarrow> deviceIdListPropertyV2 \<Rightarrow> nat \<Rightarrow>
    (int \<times> u64) \<times> system \<Rightarrow> bool \<times> (int \<times> u64) \<times> system" where
  "reserve_sublist_try reservePoolId props usedDevIdList d = (\<lambda>((ret0, fromDevId), s).
     if isInDeviceIdList usedDevIdList (int d) then (False, (ret0, fromDevId), s)
     else case reserve_sub_members reservePoolId (int d) [] props s of
            (ret, relinquished, s') \<Rightarrow>
              if ret = XRM_SUCCESS then (True, (ret, of_nat d), s')
              else (\<not> relinquished, (ret, fromDevId), s'))"

definition resReserveCuSubListFromSameDevice :: "u64 \<Rightarrow> cuSubListPropertyV2 \<Rightarrow> deviceIdListPropertyV2 \<Rightarrow>
    u64 \<times> system \<Rightarrow> int \<times> u64 \<times> system" where
  "resReserveCuSubListFromSameDevice reservePoolId sub usedDevIdList = (\<lambda>(fromDevId, s).
     if sl_cuNum sub \<le> 0 \<or> sl_cuNum sub > int XRM_MAX_LIST_CU_NUM_V2 \<or>
        dl_deviceNum usedDevIdList < 0 \<or> dl_deviceNum usedDevIdList > int XRM_MAX_XILINX_DEVICES
     then (XRM_ERROR_INVALID, fromDevId, s)
     else (let props = take (nat (sl_cuNum sub)) (sl_cuProps sub)
           in case search_devices (reserve_sublist_try reservePoolId props usedDevIdList) (props ! 0)
                     ((XRM_ERROR, fromDevId), s) of
                (_, (ret, fromDevId'), s') \<Rightarrow> (ret, fromDevId', s')))"

text \<open>
  The state of the version 2 loop: the flags, the used devices, the local \<open>fromDevId\<close>, the device
  ids reported per member, the system.
\<close>

type_synonym reserve_v2_state = "itemFlag list \<times> deviceIdListPropertyV2 \<times> u64 \<times> u64 list \<times> system"

definition reserve_v2_step :: "u64 \<Rightarrow> cuListPropertyV2 \<Rightarrow> nat \<Rightarrow> reserve_v2_state \<Rightarrow>
    int option \<times> reserve_v2_state" where
  "reserve_v2_step reservePoolId cuListProp index = (\<lambda>(flags0, used, fromDevId, infor, s).
     if it_handled (flags0 ! index) then (None, flags0, used, fromDevId, infor, s)
     else (let p = l2_cuProps cuListProp ! index; flags = set_handled index flags0
           in if deviceInfoConstraintType p = XRM_DEVICE_INFO_CONSTRAINT_TYPE_NULL then
                (case resReserveCu reservePoolId (cuPropertyCopyFromV2 p) (fromDevId, s) of
                   (ret, from', s') \<Rightarrow> (Some ret, flags, used, from', infor[index := from'], s'))
              else if deviceInfoConstraintType p = XRM_DEVICE_INFO_CONSTRAINT_TYPE_HARDWARE_DEVICE_INDEX then
                (case reserveCuFromDev reservePoolId (i32 (uint (deviceInfoDeviceIndex p)))
                        (cuPropertyCopyFromV2 p) s of
                   (ret, s') \<Rightarrow>
                     (Some ret, flags, used, fromDevId, infor[index := deviceInfoDeviceIndex p], s'))
              else if deviceInfoConstraintType p = XRM_DEVICE_INFO_CONSTRAINT_TYPE_VIRTUAL_DEVICE_INDEX then
                (let is = same_virtual cuListProp index flags; flags' = fold set_handled is flags
                 in case resReserveCuSubListFromSameDevice reservePoolId (make_sublist cuListProp is) used
                           (fromDevId, s) of
                      (ret, from', s') \<Rightarrow>
                        if ret = XRM_SUCCESS
                        then (Some ret, flags', snd (insertDeviceIdList used (i32 (uint from'))), from',
                              fold (\<lambda>i infor. infor[i := from']) is infor, s')
                        else (Some ret, flags', used, from', infor, s'))
              else (Some XRM_ERROR_INVALID, flags, used, fromDevId, infor, s)))"

definition resReserveCuListV2 :: "u64 \<Rightarrow> cuListPropertyV2 \<Rightarrow> u64 list \<times> system \<Rightarrow>
    int \<times> u64 list \<times> system" where
  "resReserveCuListV2 reservePoolId cuListProp = (\<lambda>(infor, s).
     if l2_cuNum cuListProp \<le> 0 \<or> l2_cuNum cuListProp > int XRM_MAX_LIST_CU_NUM_V2
     then (XRM_ERROR_INVALID, infor, s)
     else case until_error (reserve_v2_step reservePoolId cuListProp) [0..<nat (l2_cuNum cuListProp)]
                 (XRM_ERROR, itemFlags0, deviceIdList0, 0, infor, s) of
            (ret, flags, used, fromDevId, infor', s') \<Rightarrow>
              (ret, infor', if ret \<noteq> XRM_SUCCESS then snd (resRelinquishCuListV2 reservePoolId s') else s'))"

section \<open>Reserving whole devices\<close>

definition reserve_whole :: "u64 \<Rightarrow> u64 \<Rightarrow> int \<Rightarrow> nat \<Rightarrow> system \<Rightarrow> system" where
  "reserve_whole reservePoolId clientId clientProcessId d s =
     updateDeviceLoad (int d) 0 (numCu (dev_at s d) * XRM_MAX_LOAD)
       (fold (\<lambda>c. upd_cu d c (whole_reserve reservePoolId clientId clientProcessId))
          [0..<nat (numCu (dev_at s d))] s)"

definition resReserveCuOfXclbin :: "u64 \<Rightarrow> u8 list \<Rightarrow> u64 \<Rightarrow> int \<Rightarrow> u64 \<times> system \<Rightarrow>
    int \<times> u64 \<times> system" where
  "resReserveCuOfXclbin reservePoolId uuid clientId clientProcessId = (\<lambda>(fromDevId, s).
     if reservePoolId = 0 then (XRM_ERROR_INVALID, fromDevId, s)
     else case find (\<lambda>d. dv_isLoaded (dev_at s d) \<and> isDeviceLoadedXclbinWithUuid (int d) uuid s \<and>
                          \<not> isDeviceBusy (int d) s) [0..<nat (m_numDevice s)] of
            Some d \<Rightarrow> (XRM_SUCCESS, of_nat d, reserve_whole reservePoolId clientId clientProcessId d s)
          | None \<Rightarrow> (XRM_ERROR_NO_KERNEL, fromDevId, s))"

definition resReserveDevice :: "u64 \<Rightarrow> u64 \<Rightarrow> u64 \<Rightarrow> int \<Rightarrow> system \<Rightarrow> int \<times> system" where
  "resReserveDevice reservePoolId deviceId clientId clientProcessId s =
     (let devId = i32 (uint (and deviceId 0xFFFFFFFF))
      in if reservePoolId = 0 then (XRM_ERROR_INVALID, s)
         else if devId < 0 \<or> devId > int XRM_MAX_XILINX_DEVICES - 1 then (XRM_ERROR_INVALID, s)
         else if \<not> dv_isLoaded (dev_at s (nat devId)) then (XRM_ERROR_NO_KERNEL, s)
         else if isDeviceBusy devId s then (XRM_ERROR_NO_KERNEL, s)
         else (XRM_SUCCESS, reserve_whole reservePoolId clientId clientProcessId (nat devId) s))"

section \<open>Pools\<close>

record cuPoolProperty =
  pp_cuListProp :: cuListProperty
  pp_cuListNum :: int
  pp_xclbinUuid :: "u8 list"
  pp_xclbinNum :: int
  pp_clientId :: u64
  pp_clientProcessId :: int

text \<open>Run an operation \<open>n\<close> times as long as it succeeds.\<close>

fun repeat_ok :: "nat \<Rightarrow> (nat \<Rightarrow> 's \<Rightarrow> bool \<times> 's) \<Rightarrow> nat \<Rightarrow> 's \<Rightarrow> bool \<times> 's" where
  "repeat_ok 0 f k st = (True, st)"
| "repeat_ok (Suc n) f k st =
     (case f k st of (ok, st') \<Rightarrow> if ok then repeat_ok n f (k + 1) st' else (False, st'))"

definition resReserveCuPool :: "cuPoolProperty \<Rightarrow> system \<Rightarrow> u64 \<times> system" where
  "resReserveCuPool cuPoolProp s =
     (let cuListProp = pp_cuListProp cuPoolProp; reservePoolId = getNextReservePoolId s
      in if pp_cuListNum cuPoolProp < 0 \<or> pp_xclbinNum cuPoolProp < 0 then (0, s)
         else if lp_cuNum cuListProp < 0 \<or> lp_cuNum cuListProp > int XRM_MAX_LIST_CU_NUM then (0, s)
         else case repeat_ok (nat (pp_xclbinNum cuPoolProp))
                     (\<lambda>k s. case resReserveCuOfXclbin reservePoolId (pp_xclbinUuid cuPoolProp)
                                   (pp_clientId cuPoolProp) (pp_clientProcessId cuPoolProp) (0, s) of
                              (ret, _, s') \<Rightarrow> (ret = XRM_SUCCESS, s')) 0 s of
                (ok1, s1) \<Rightarrow>
                  if \<not> ok1 then (0, snd (resRelinquishCuPool reservePoolId s1))
                  else (case repeat_ok (nat (pp_cuListNum cuPoolProp))
                               (\<lambda>k s. case resReserveCuList reservePoolId cuListProp s of
                                        (ret, s') \<Rightarrow> (ret = XRM_SUCCESS, s')) 0 s1 of
                          (ok2, s2) \<Rightarrow>
                            if \<not> ok2 then (0, snd (resRelinquishCuPool reservePoolId s2))
                            else (reservePoolId, updateReservePoolId s2)))"

record cuPoolPropertyV2 =
  p3_cuListProp :: cuListPropertyV2
  p3_cuListNum :: int
  p3_xclbinUuid :: "u8 list"
  p3_xclbinNum :: int
  p3_deviceIdListProp :: deviceIdListPropertyV2
  p3_clientId :: u64
  p3_clientProcessId :: int

record cuListResInforV2 =
  lf_deviceIds :: "u64 list"
  lf_cuNum :: int

record cuPoolResInforV2 =
  pf_cuListResInfor :: "cuListResInforV2 list"
  pf_cuListNum :: int
  pf_xclbinDeviceIds :: "u64 list"
  pf_xclbinNum :: int

definition reserve_xclbin_v2 :: "u64 \<Rightarrow> cuPoolPropertyV2 \<Rightarrow> nat \<Rightarrow> cuPoolResInforV2 \<times> system \<Rightarrow>
    bool \<times> cuPoolResInforV2 \<times> system" where
  "reserve_xclbin_v2 reservePoolId prop k = (\<lambda>(infor, s).
     case resReserveCuOfXclbin reservePoolId (p3_xclbinUuid prop) (p3_clientId prop)
            (p3_clientProcessId prop) (0, s) of
       (ret, fromDevId, s') \<Rightarrow>
         if ret \<noteq> XRM_SUCCESS then (False, infor, s')
         else (True, infor\<lparr>pf_xclbinDeviceIds := (pf_xclbinDeviceIds infor)[k := fromDevId]\<rparr>, s'))"

text \<open>
  The code does not compare \<open>cuListNum\<close> with the size of the result array: one list more than it holds
  is a fault.
\<close>

definition reserve_list_v2 :: "u64 \<Rightarrow> cuPoolPropertyV2 \<Rightarrow> nat \<Rightarrow> cuPoolResInforV2 \<times> system \<Rightarrow>
    bool \<times> cuPoolResInforV2 \<times> system" where
  "reserve_list_v2 reservePoolId prop k = (\<lambda>(infor, s).
     let li = pf_cuListResInfor infor ! k
     in if k \<ge> length (pf_cuListResInfor infor) then (False, infor, fault s)
        else case resReserveCuListV2 reservePoolId (p3_cuListProp prop) (lf_deviceIds li, s) of
          (ret, ids, s') \<Rightarrow>
            if ret \<noteq> XRM_SUCCESS
            then (False, infor\<lparr>pf_cuListResInfor := (pf_cuListResInfor infor)[k := li\<lparr>lf_deviceIds := ids\<rparr>]\<rparr>, s')
            else (True, infor\<lparr>pf_cuListResInfor := (pf_cuListResInfor infor)[k :=
                    li\<lparr>lf_deviceIds := ids, lf_cuNum := l2_cuNum (p3_cuListProp prop)\<rparr>]\<rparr>, s'))"

definition resReserveCuPoolV2 :: "cuPoolPropertyV2 \<Rightarrow> cuPoolResInforV2 \<times> system \<Rightarrow>
    u64 \<times> cuPoolResInforV2 \<times> system" where
  "resReserveCuPoolV2 prop = (\<lambda>(infor, s).
     let reservePoolId = getNextReservePoolId s; cuListProp = p3_cuListProp prop;
         devIds = p3_deviceIdListProp prop;
         fail = (\<lambda>(infor, s). (0, infor, snd (resRelinquishCuPoolV2 reservePoolId s)))
     in if p3_cuListNum prop < 0 \<or> p3_xclbinNum prop < 0 \<or> dl_deviceNum devIds < 0 \<or>
           dl_deviceNum devIds > int XRM_MAX_XILINX_DEVICES then (0, infor, s)
        else if l2_cuNum cuListProp < 0 \<or> l2_cuNum cuListProp > int XRM_MAX_LIST_CU_NUM_V2 then (0, infor, s)
        else case repeat_ok (nat (dl_deviceNum devIds))
                    (\<lambda>k s. case resReserveDevice reservePoolId (dl_deviceIds devIds ! k)
                                  (p3_clientId prop) (p3_clientProcessId prop) s of
                             (ret, s') \<Rightarrow> (ret = XRM_SUCCESS, s')) 0 s of
          (ok0, s0) \<Rightarrow>
            if \<not> ok0 then fail (infor, s0)
            else (case repeat_ok (nat (p3_xclbinNum prop)) (reserve_xclbin_v2 reservePoolId prop) 0
                         (infor, s0) of
              (ok1, infor1, s1) \<Rightarrow>
                if \<not> ok1 then fail (infor1, s1)
                else (case repeat_ok (nat (p3_cuListNum prop)) (reserve_list_v2 reservePoolId prop) 0
                             (infor1\<lparr>pf_xclbinNum := p3_xclbinNum prop\<rparr>, s1) of
                  (ok2, infor2, s2) \<Rightarrow>
                    if \<not> ok2 then fail (infor2, s2)
                    else (reservePoolId, infor2\<lparr>pf_cuListNum := p3_cuListNum prop\<rparr>,
                          updateReservePoolId s2))))"

end
