(* ===== verification/Xrm_Reserve_Inv.thy ===== *)
theory Xrm_Reserve_Inv
  imports Xrm_Reserve
begin

text \<open>
  Correctness of reservation. The abstract view of the reservations of a compute unit is the finite
  map from pool ids to reserved load (\<open>pools\<close>): reserving adds load under one pool id, relinquishing
  removes the id, and neither touches a granted channel. A reservation that fails is undone
  completely: the compute units are exactly what they were.
\<close>

section \<open>The reservations of a compute unit as a map\<close>

definition pools :: "cuData \<Rightarrow> u64 \<Rightarrow> int option" where
  "pools cu = map_of (map (\<lambda>r. (rs_poolId r, rs_loadUnified r)) (act_reserves cu))"

definition reserved :: "system \<Rightarrow> nat \<times> nat \<Rightarrow> u64 \<Rightarrow> int option" where
  "reserved s = (\<lambda>(d, c) p. if valid_cu s d c then pools (cu_at s d c) p else None)"

lemma pools_dom: "dom (pools cu) = pool_ids cu"
  by (simp add: pools_def pool_ids_def dom_map_of_conv_image_fst image_image)

lemma pools_nth:
  assumes "reserves_inv cu" "k < nat (cu_numReserve cu)"
  shows "pools cu (rs_poolId (cu_reserves cu ! k)) = Some (rs_loadUnified (cu_reserves cu ! k))"
proof -
  note nth = act_reserves_nth [OF assms]
  have "distinct (map rs_poolId (act_reserves cu))" using assms(1) by (simp add: reserves_inv_def)
  moreover have "cu_reserves cu ! k \<in> set (act_reserves cu)" using nth by (metis nth_mem)
  ultimately show ?thesis by (auto simp: pools_def o_def intro!: map_of_is_SomeI)
qed

lemma map_of_remove_nth:
  assumes "distinct (map fst xs)" "i < length xs"
  shows "map_of (take i xs @ drop (Suc i) xs) = (map_of xs)(fst (xs ! i) := None)"
proof -
  have xs: "xs = take i xs @ xs ! i # drop (Suc i) xs" using assms(2) by (rule id_take_nth_drop)
  have d: "distinct (map fst (take i xs @ xs ! i # drop (Suc i) xs))" using assms(1) xs by metis
  then have "map_of (take i xs) (fst (xs ! i)) = None" "map_of (drop (Suc i) xs) (fst (xs ! i)) = None"
    by (auto simp: map_of_eq_None_iff)
  then have "map_of (take i xs @ drop (Suc i) xs) =
      (map_of (take i xs @ xs ! i # drop (Suc i) xs))(fst (xs ! i) := None)"
    by (intro ext) (auto simp: map_add_def split: option.splits)
  with xs show ?thesis by metis
qed

lemma pools_drop_reserve:
  assumes rs: "reserves_inv cu" and i: "i < nat (cu_numReserve cu)"
    and eq: "cu_reserves cu1 = cu_reserves cu" "cu_numReserve cu1 = cu_numReserve cu"
  shows "pools (drop_reserve i cu1) = (pools cu)(rs_poolId (cu_reserves cu ! i) := None)"
proof -
  have nl: "nat (cu_numReserve cu) \<le> length (cu_reserves cu)" using rs by (auto simp: reserves_inv_def)
  have "nat (cu_numReserve cu - 1) = nat (cu_numReserve cu) - 1" by simp
  then have act: "act_reserves (drop_reserve i cu1) =
      take i (act_reserves cu) @ drop (Suc i) (act_reserves cu)"
    using remove_slot_front(1) [OF i nl, of reserve0] by (simp add: act_reserves_def drop_reserve_def eq)
  note nth = act_reserves_nth [OF rs i]
  let ?f = "\<lambda>r. (rs_poolId r, rs_loadUnified r)"
  have "distinct (map fst (map ?f (act_reserves cu)))" using rs by (simp add: reserves_inv_def o_def)
  from map_of_remove_nth [OF this, of i] show ?thesis
    using nth by (simp add: pools_def act take_map drop_map)
qed

section \<open>Relinquishing one slot\<close>

lemma clients_inv_cong:
  assumes "cu_clients cu' = cu_clients cu" "cu_numClient cu' = cu_numClient cu"
    "cu_channels cu' = cu_channels cu"
  shows "clients_inv cu' = clients_inv cu"
proof -
  have "client_set cu' = client_set cu" "clients_arr cu' = clients_arr cu"
    by (simp_all add: clients_arr_def client_set_def assms)
  then show ?thesis by (simp add: clients_inv_def assms)
qed

lemma relinquish_slot_spec:
  assumes inv: "sys_inv s" and v: "valid_cu s d c" and i: "i < nat (cu_numReserve (cu_at s d c))"
    and free: "rs_usedLoadUnified (cu_reserves (cu_at s d c) ! i) = 0"
  defines "s' \<equiv> relinquish_slot d c i s"
  shows "cu_step d c s s'" "load_step d c s s'" "cu_at s' d c = close_reserve i (cu_at s d c)"
    "same_tables s s'"
proof -
  let ?cu = "cu_at s d c" and ?L = "rs_loadUnified (cu_reserves (cu_at s d c) ! i)"
  let ?f = "\<lambda>cu. cu\<lparr>cu_totalUsedLoadUnified := i32 (cu_totalUsedLoadUnified cu - ?L),
    cu_totalReservedLoadUnified := i32 (cu_totalReservedLoadUnified cu - ?L)\<rparr>"
  note vi = valid_cu_inv [OF inv v]
  have acct: "cu_acct ?cu" and ci: "clients_inv ?cu" using vi by (auto simp: cu_inv_def)
  note b = totals_bounds [OF acct] reserve_bounds [OF acct i]
  have c1: "drop_reserve i (?f ?cu) = close_reserve i ?cu"
    using b free by (simp add: close_reserve_def)
  have acct': "cu_acct (close_reserve i ?cu)" by (rule cu_acct_close_reserve [OF acct i])
  have inv': "cu_inv (close_reserve i ?cu)"
    using acct' ci clients_inv_cong [of "close_reserve i ?cu" ?cu] by (simp add: cu_inv_def)
  let ?t = "upd_cu d c ?f s"
  have sz: "d < length (m_devList ?t)" "0 < numCu (dev_at ?t d)"
    "numCu (dev_at ?t d) \<le> int XRM_MAX_XILINX_KERNELS"
    using vi v by (auto simp: dev_at_upd_cu valid_cu_def)
  let ?u = "updateDeviceLoad (int d) (- ?L) (- 1) ?t"
  note ld = site_load [OF sz, of "- ?L"]
  have s': "s' = upd_cu d c (drop_reserve i) ?u" by (simp add: s'_def relinquish_slot_def Let_def)
  have atu: "cu_at ?u d c = ?f ?cu" using same_cus_dev [OF ld(1), of d c] vi by (simp add: cu_at_upd_site)
  have fu: "cu_frame d c s ?u"
    using cu_frame_trans [OF cu_frame_upd [of d s c ?f] same_cus_frame [OF ld(1)]] vi by simp
  note szu = cu_frame_dev(2,8) [OF fu]
  have fr: "cu_frame d c s s'"
    using cu_frame_trans [OF fu cu_frame_upd [of d ?u c "drop_reserve i"]] vi szu by (simp add: s')
  show at': "cu_at s' d c = close_reserve i ?cu"
    using cu_at_upd_site [of d ?u c "drop_reserve i"] vi szu atu c1 by (simp add: s')
  show "cu_step d c s s'" using v fr inv' by (simp add: cu_step_def at')
  show "load_step d c s s'"
    unfolding load_step_def at' unfolding s' upd_cu_loads ld(2) using free by (simp add: upd_cu_loads)
  show "same_tables s s'"
    using same_tables_load [OF sz] unfolding s' by (blast intro: same_tables_trans same_tables_upd_cu)
qed

lemma close_reserve_pools:
  "cu_acct cu \<Longrightarrow> i < nat (cu_numReserve cu) \<Longrightarrow>
   pools (close_reserve i cu) = (pools cu)(rs_poolId (cu_reserves cu ! i) := None)"
  unfolding close_reserve_def by (rule pools_drop_reserve) (auto simp: cu_acct_def)

section \<open>Relations between the compute units before and after\<close>

definition cus_rel :: "(nat \<Rightarrow> nat \<Rightarrow> cuData \<Rightarrow> cuData \<Rightarrow> bool) \<Rightarrow> system \<Rightarrow> system \<Rightarrow> bool" where
  "cus_rel R s s' \<longleftrightarrow> sys_inv s' \<and> (load_inv s \<longrightarrow> load_inv s') \<and> m_numDevice s' = m_numDevice s \<and>
     m_reservePoolId s' = m_reservePoolId s \<and> m_allocServiceId s' = m_allocServiceId s \<and>
     (\<forall>d c. valid_cu s' d c = valid_cu s d c) \<and>
     (\<forall>d. dv_isLoaded (dev_at s' d) = dv_isLoaded (dev_at s d)) \<and> same_tables s s' \<and>
     (\<forall>d c. valid_cu s d c \<longrightarrow> R d c (cu_at s d c) (cu_at s' d c))"

lemma cus_relD:
  assumes "cus_rel R s s'"
  shows "sys_inv s'" "load_inv s \<Longrightarrow> load_inv s'" "m_numDevice s' = m_numDevice s"
    "m_reservePoolId s' = m_reservePoolId s" "m_allocServiceId s' = m_allocServiceId s"
    "valid_cu s' d c = valid_cu s d c" "dv_isLoaded (dev_at s' d) = dv_isLoaded (dev_at s d)"
    "same_tables s s'" "valid_cu s d c \<Longrightarrow> R d c (cu_at s d c) (cu_at s' d c)"
  using assms unfolding cus_rel_def by blast+

lemma cus_rel_refl: "sys_inv s \<Longrightarrow> (\<And>d c. valid_cu s d c \<Longrightarrow> R d c (cu_at s d c) (cu_at s d c)) \<Longrightarrow>
   cus_rel R s s"
  by (simp add: cus_rel_def)

lemma cus_rel_mono:
  "cus_rel R s s' \<Longrightarrow> (\<And>d c cu cu'. valid_cu s d c \<Longrightarrow> R d c cu cu' \<Longrightarrow> R' d c cu cu') \<Longrightarrow> cus_rel R' s s'"
  unfolding cus_rel_def by blast

lemma cus_rel_step:
  assumes r: "cus_rel R s t" and st: "cu_step d c t u" "load_step d c t u" "same_tables t u"
    and R: "R' d c (cu_at s d c) (cu_at u d c)"
    and mono: "\<And>d' c' cu cu'. (d', c') \<noteq> (d, c) \<Longrightarrow> R d' c' cu cu' \<Longrightarrow> R' d' c' cu cu'"
  shows "cus_rel R' s u"
proof -
  note D = cus_relD [OF r]
  have f: "cu_frame d c t u" using st(1) by (simp add: cu_step_def)
  note fr = cu_frame_dev [OF f]
  have "R' d' c' (cu_at s d' c') (cu_at u d' c')" if "valid_cu s d' c'" for d' c'
  proof (cases "(d', c') = (d, c)")
    case True
    with R show ?thesis by simp
  next
    case False
    with fr(11) [OF False] mono [OF False] D(9) [OF that] show ?thesis by simp
  qed
  then show ?thesis
    using cu_step_sys_inv [OF D(1) st(1)] load_step_inv [OF D(1) st(1,2)] D(2-8) fr(1,4,5,7,10)
      same_tables_trans [OF D(8) st(3)]
    by (auto simp: cus_rel_def)
qed

lemma cus_rel_grants:
  assumes "cus_rel R s s'" "\<And>d c. valid_cu s d c \<Longrightarrow> cu_channels (cu_at s' d c) = cu_channels (cu_at s d c)"
  shows "grants s' = grants s"
  using assms(2) cus_relD(6) [OF assms(1)] by (intro ext) (auto simp: grants_def chan_at_def)

section \<open>Relinquishing a pool\<close>

definition drops :: "u64 \<Rightarrow> cuData \<Rightarrow> cuData \<Rightarrow> bool" where
  "drops p cu cu' \<longleftrightarrow> pools cu' = (pools cu)(p := None) \<and> cu_channels cu' = cu_channels cu"

lemma relinquish_cu_spec:
  assumes inv: "sys_inv s" and v: "valid_cu s d c" and run: "relinquish_cu p d c s = Some s'"
  shows "cu_step d c s s'" "load_step d c s s'" "same_tables s s'"
    "drops p (cu_at s d c) (cu_at s' d c)"
proof -
  let ?cu = "cu_at s d c"
  have ci: "cu_inv ?cu" using valid_cu_inv [OF inv v] by simp
  then have acct: "cu_acct ?cu" and rs: "reserves_inv ?cu" by (auto simp: cu_inv_def cu_acct_def)
  have all: "cu_step d c s s' \<and> load_step d c s s' \<and> same_tables s s' \<and> drops p ?cu (cu_at s' d c)"
  proof (cases "first_index (nat (cu_numReserve ?cu)) (\<lambda>i. rs_poolId (cu_reserves ?cu ! i) = p)")
    case None
    have s': "s' = s" using run unfolding relinquish_cu_def None by simp
    have "p \<notin> pool_ids ?cu"
      using None by (auto simp: pool_ids_def act_reserves_def in_set_conv_nth) blast
    then have "pools ?cu p = None" using pools_dom [of ?cu] by blast
    then have "pools ?cu = (pools ?cu)(p := None)" by auto
    then show ?thesis using v ci by (simp add: s' drops_def cu_step_def cu_frame_refl)
  next
    case (Some i)
    then have i: "i < nat (cu_numReserve ?cu)" "rs_poolId (cu_reserves ?cu ! i) = p"
      by (auto dest: first_index_SomeD)
    have free: "rs_usedLoadUnified (cu_reserves ?cu ! i) = 0" and s': "s' = relinquish_slot d c i s"
      using run Some by (auto simp: relinquish_cu_def split: if_splits)
    note sp = relinquish_slot_spec [OF inv v i(1) free]
    show ?thesis
      using sp close_reserve_pools [OF acct i(1)] i(2) by (simp add: s' drops_def)
  qed
  then show "cu_step d c s s'" "load_step d c s s'" "same_tables s s'"
    "drops p (cu_at s d c) (cu_at s' d c)" by auto
qed

text \<open>
  The relation of the loops: on the compute units visited so far the pool is gone, the others are
  as they were. It is stated for any relation that the step on one compute unit establishes.
\<close>

definition keeps :: "(nat \<times> nat) set \<Rightarrow> (cuData \<Rightarrow> cuData \<Rightarrow> bool) \<Rightarrow> nat \<Rightarrow> nat \<Rightarrow>
    cuData \<Rightarrow> cuData \<Rightarrow> bool" where
  "keeps V R d c cu cu' \<longleftrightarrow> (if (d, c) \<in> V then R cu cu' else cu' = cu)"

lemma keeps_refl: "sys_inv s \<Longrightarrow> cus_rel (keeps {} R) s s"
  by (intro cus_rel_refl) (auto simp: keeps_def)

lemma keeps_step:
  assumes r: "cus_rel (keeps V R) s0 s" and c: "(d, c) \<notin> V" "valid_cu s0 d c"
    and st: "cu_step d c s s1" "load_step d c s s1" "same_tables s s1"
      "R (cu_at s d c) (cu_at s1 d c)"
  shows "cus_rel (keeps (insert (d, c) V) R) s0 s1"
proof -
  have same: "cu_at s d c = cu_at s0 d c" using cus_relD(9) [OF r c(2)] c(1) by (simp add: keeps_def)
  show ?thesis
    by (rule cus_rel_step [OF r st(1,2,3)]) (use st(4) same in \<open>auto simp: keeps_def\<close>)
qed

lemma relinquish_cus_spec:
  assumes "cus_rel (keeps V (drops p)) s0 s" "\<forall>c\<in>set cs. valid_cu s0 d c \<and> (d, c) \<notin> V" "distinct cs"
    and "relinquish_cus p d cs s = (ok, s')"
  shows "\<exists>W. V \<subseteq> W \<and> W \<subseteq> V \<union> {d} \<times> set cs \<and> cus_rel (keeps W (drops p)) s0 s' \<and>
      (ok \<longrightarrow> {d} \<times> set cs \<subseteq> W)"
  using assms
proof (induction cs arbitrary: s V)
  case Nil
  then show ?case by auto
next
  case (Cons c cs)
  show ?case
  proof (cases "relinquish_cu p d c s")
    case None
    with Cons.prems show ?thesis by (intro exI[of _ V]) auto
  next
    case (Some s1)
    then have run: "relinquish_cus p d cs s1 = (ok, s')" using Cons.prems(4) by simp
    note D = cus_relD [OF Cons.prems(1)]
    have v0: "valid_cu s0 d c" "(d, c) \<notin> V" using Cons.prems(2) by auto
    then have v: "valid_cu s d c" using D(6) by simp
    have 1: "cus_rel (keeps (insert (d, c) V) (drops p)) s0 s1"
      by (rule keeps_step [OF Cons.prems(1) v0(2,1) relinquish_cu_spec [OF D(1) v Some]])
    have 2: "\<forall>x\<in>set cs. valid_cu s0 d x \<and> (d, x) \<notin> insert (d, c) V" using Cons.prems(2,3) by auto
    have 3: "distinct cs" using Cons.prems(3) by simp
    from Cons.IH [OF 1 2 3 run] obtain W where W: "insert (d, c) V \<subseteq> W" "W \<subseteq> insert (d, c) V \<union> {d} \<times> set cs"
      "cus_rel (keeps W (drops p)) s0 s'" "ok \<longrightarrow> {d} \<times> set cs \<subseteq> W"
      by blast
    from W(1,2,4) have "V \<subseteq> W \<and> W \<subseteq> V \<union> {d} \<times> set (c # cs) \<and> (ok \<longrightarrow> {d} \<times> set (c # cs) \<subseteq> W)"
      by auto
    with W(3) show ?thesis by blast
  qed
qed

lemma relinquish_devices_spec:
  assumes "cus_rel (keeps V (drops p)) s0 s" "\<forall>d\<in>set ds. int d < m_numDevice s0"
    "\<forall>d\<in>set ds. \<forall>c. (d, c) \<notin> V" "distinct ds" "sys_inv s0"
    and "relinquish_devices p ds s = (ok, s')"
  shows "\<exists>W. V \<subseteq> W \<and> W \<subseteq> V \<union> set ds \<times> UNIV \<and> cus_rel (keeps W (drops p)) s0 s' \<and>
      (ok \<longrightarrow> (\<forall>d\<in>set ds. \<forall>c. valid_cu s0 d c \<longrightarrow> (d, c) \<in> W))"
  using assms
proof (induction ds arbitrary: s V)
  case Nil
  then show ?case by auto
next
  case (Cons d ds)
  note D = cus_relD [OF Cons.prems(1)]
  have d: "int d < m_numDevice s0" "\<And>c. (d, c) \<notin> V" using Cons.prems(2,3) by auto
  show ?case
  proof (cases "dv_isLoaded (dev_at s d)")
    case False
    then have "\<not> dv_isLoaded (dev_at s0 d)" using D(7) by simp
    then have nv: "\<not> valid_cu s0 d c" for c
      using sys_inv_dev [OF Cons.prems(5) d(1)] by (auto simp: dev_inv_def valid_cu_def)
    have "relinquish_devices p ds s = (ok, s')" using Cons.prems(6) False by simp
    from Cons.IH [OF Cons.prems(1) _ _ _ Cons.prems(5) this] Cons.prems(2-4)
    obtain W where W: "V \<subseteq> W" "W \<subseteq> V \<union> set ds \<times> UNIV" "cus_rel (keeps W (drops p)) s0 s'"
      "ok \<longrightarrow> (\<forall>d\<in>set ds. \<forall>c. valid_cu s0 d c \<longrightarrow> (d, c) \<in> W)" by auto
    from W(1,2,4) nv have "V \<subseteq> W \<and> W \<subseteq> V \<union> set (d # ds) \<times> UNIV \<and>
      (ok \<longrightarrow> (\<forall>x\<in>set (d # ds). \<forall>c. valid_cu s0 x c \<longrightarrow> (x, c) \<in> W))" by auto
    with W(3) show ?thesis by blast
  next
    case True
    let ?cs = "[0..<nat (numCu (dev_at s d))]"
    obtain ok1 s1 where run1: "relinquish_cus p d ?cs s = (ok1, s1)" by fastforce
    have v: "valid_cu s0 d c \<longleftrightarrow> c \<in> set ?cs" for c
      using D(3) D(6) [of d c] d(1) by (auto simp: valid_cu_def)
    then have "\<forall>c\<in>set ?cs. valid_cu s0 d c \<and> (d, c) \<notin> V" using d(2) by blast
    from relinquish_cus_spec [OF Cons.prems(1) this distinct_upt run1]
    obtain W1 where W1: "V \<subseteq> W1" "W1 \<subseteq> V \<union> {d} \<times> set ?cs" "cus_rel (keeps W1 (drops p)) s0 s1"
      "ok1 \<longrightarrow> {d} \<times> set ?cs \<subseteq> W1" by blast
    have up: "W1 \<subseteq> V \<union> set (d # ds) \<times> UNIV" using W1(2) by auto
    show ?thesis
    proof (cases ok1)
      case False
      with run1 Cons.prems(6) True have "ok = False" "s' = s1" by auto
      with W1 up show ?thesis by blast
    next
      case ok1: True
      with run1 Cons.prems(6) True have run: "relinquish_devices p ds s1 = (ok, s')" by simp
      have "\<forall>x\<in>set ds. \<forall>c. (x, c) \<notin> W1" using Cons.prems(3,4) W1(2) by auto
      from Cons.IH [OF W1(3) _ this _ Cons.prems(5) run] Cons.prems(2,4)
      obtain W where W: "W1 \<subseteq> W" "W \<subseteq> W1 \<union> set ds \<times> UNIV" "cus_rel (keeps W (drops p)) s0 s'"
        "ok \<longrightarrow> (\<forall>d\<in>set ds. \<forall>c. valid_cu s0 d c \<longrightarrow> (d, c) \<in> W)" by auto
      have "(d, c) \<in> W" if "valid_cu s0 d c" for c
      proof -
        have "(d, c) \<in> {d} \<times> set ?cs" using that v by blast
        then show ?thesis using W1(4) ok1 W(1) by blast
      qed
      then have "V \<subseteq> W \<and> W \<subseteq> V \<union> set (d # ds) \<times> UNIV \<and>
        (ok \<longrightarrow> (\<forall>x\<in>set (d # ds). \<forall>c. valid_cu s0 x c \<longrightarrow> (x, c) \<in> W))"
        using W(1,2,4) W1(1) up by auto
      with W(3) show ?thesis by blast
    qed
  qed
qed

lemma relinquish_spec:
  assumes inv: "sys_inv s" and run: "relinquish_devices p [0..<nat (m_numDevice s)] s = (ok, s')"
  shows "\<exists>W. cus_rel (keeps W (drops p)) s s' \<and> (ok \<longrightarrow> (\<forall>d c. valid_cu s d c \<longrightarrow> (d, c) \<in> W))"
proof -
  have "\<forall>d\<in>set [0..<nat (m_numDevice s)]. int d < m_numDevice s" by auto
  from relinquish_devices_spec [OF keeps_refl [OF inv] this _ distinct_upt inv run]
  obtain W where "cus_rel (keeps W (drops p)) s s'"
    "ok \<longrightarrow> (\<forall>d\<in>set [0..<nat (m_numDevice s)]. \<forall>c. valid_cu s d c \<longrightarrow> (d, c) \<in> W)" by auto
  moreover have "d \<in> set [0..<nat (m_numDevice s)]" if "valid_cu s d c" for d c
    using that by (auto simp: valid_cu_def)
  ultimately show ?thesis by blast
qed

text \<open>
  A successful relinquish removes the pool everywhere; a failing one stops at a compute unit whose
  part of the pool is in use. No grant changes, nor any other pool.
\<close>

lemma resRelinquishCuPool_spec:
  assumes inv: "sys_inv s" and run: "resRelinquishCuPool p s = (ret, s')"
  shows "sys_inv s'" "load_inv s \<Longrightarrow> load_inv s'" "grants s' = grants s"
    "ret = XRM_SUCCESS \<Longrightarrow> reserved s' = (\<lambda>dc. (reserved s dc)(p := None))"
    "q \<noteq> p \<Longrightarrow> reserved s' dc q = reserved s dc q"
proof -
  have rel: "\<exists>W. cus_rel (keeps W (drops p)) s s' \<and>
      (ret = XRM_SUCCESS \<longrightarrow> (\<forall>d c. valid_cu s d c \<longrightarrow> (d, c) \<in> W))"
  proof (cases "p = 0")
    case True
    with run keeps_refl [OF inv] show ?thesis by (auto simp: resRelinquishCuPool_def)
  next
    case False
    obtain ok s1 where 1: "relinquish_devices p [0..<nat (m_numDevice s)] s = (ok, s1)" by fastforce
    with run False have "s' = s1" "ret = XRM_SUCCESS \<longrightarrow> ok"
      by (auto simp: resRelinquishCuPool_def split: if_splits)
    with relinquish_spec [OF inv 1] show ?thesis by blast
  qed
  then obtain W where W: "cus_rel (keeps W (drops p)) s s'"
    "ret = XRM_SUCCESS \<longrightarrow> (\<forall>d c. valid_cu s d c \<longrightarrow> (d, c) \<in> W)" by blast
  note D = cus_relD [OF W(1)]
  show "sys_inv s'" "load_inv s \<Longrightarrow> load_inv s'" using D(1,2) by auto
  have R: "drops p (cu_at s d c) (cu_at s' d c) \<or> (d, c) \<notin> W \<and> cu_at s' d c = cu_at s d c"
    if "valid_cu s d c" for d c using D(9) [OF that] by (auto simp: keeps_def split: if_splits)
  show "grants s' = grants s" 
  proof (rule cus_rel_grants [OF W(1)])
    show "cu_channels (cu_at s' d c) = cu_channels (cu_at s d c)" if "valid_cu s d c" for d c
      using R [OF that] by (auto simp: drops_def)
  qed
  show "reserved s' = (\<lambda>dc. (reserved s dc)(p := None))" if "ret = XRM_SUCCESS"
    using R W(2) D(6) that by (intro ext) (auto simp: reserved_def drops_def)
  show "reserved s' dc q = reserved s dc q" if "q \<noteq> p"
  proof -
    obtain d c where dc: "dc = (d, c)" by fastforce
    show ?thesis using R [of d c] D(6) [of d c] that by (auto simp: dc reserved_def drops_def)
  qed
qed

section \<open>A compute unit with load reserved under a fresh pool\<close>

text \<open>
  \<open>pooled p cu0 cu\<close>: \<open>cu\<close> is \<open>cu0\<close>, or \<open>cu0\<close> with one more reservation, at the end, for the pool \<open>p\<close>,
  nothing of which is in use.
\<close>

definition with_slot :: "reserveData \<Rightarrow> cuData \<Rightarrow> cuData" where
  "with_slot r cu = cu\<lparr>
     cu_reserves := (cu_reserves cu)[nat (cu_numReserve cu) := r],
     cu_numReserve := cu_numReserve cu + 1,
     cu_totalUsedLoadUnified := cu_totalUsedLoadUnified cu + rs_loadUnified r,
     cu_totalReservedLoadUnified := cu_totalReservedLoadUnified cu + rs_loadUnified r\<rparr>"

definition pooled :: "u64 \<Rightarrow> cuData \<Rightarrow> cuData \<Rightarrow> bool" where
  "pooled p cu0 cu \<longleftrightarrow> cu = cu0 \<or> (cu_numReserve cu0 < int XRM_MAX_KERNEL_RESERVES \<and>
     (\<exists>r. rs_poolId r = p \<and> 0 < rs_loadUnified r \<and> rs_usedLoadUnified r = 0 \<and> cu = with_slot r cu0))"

definition fresh_in :: "u64 \<Rightarrow> cuData \<Rightarrow> bool" where
  "fresh_in p cu \<longleftrightarrow> p \<noteq> 0 \<and> p \<notin> pool_ids cu \<and> (\<forall>ch\<in>set (cu_channels cu). ch_poolId ch \<noteq> p)"

lemma with_slot_fields [simp]:
  "cu_channels (with_slot r cu) = cu_channels cu" "cu_clients (with_slot r cu) = cu_clients cu"
  "cu_numClient (with_slot r cu) = cu_numClient cu" "cu_deviceId (with_slot r cu) = cu_deviceId cu"
  "cu_numReserve (with_slot r cu) = cu_numReserve cu + 1"
  by (simp_all add: with_slot_def)

lemma pooled_channels:
  "pooled p cu0 cu \<Longrightarrow> cu_channels cu = cu_channels cu0 \<and> cu_clients cu = cu_clients cu0 \<and>
     cu_numClient cu = cu_numClient cu0 \<and> cu_deviceId cu = cu_deviceId cu0"
  by (auto simp: pooled_def)

lemma next_slot:
  assumes "reserves_inv cu" "cu_numReserve cu < int XRM_MAX_KERNEL_RESERVES"
  shows "nat (cu_numReserve cu) < length (cu_reserves cu)"
    "cu_reserves cu ! nat (cu_numReserve cu) = reserve0"
    "act_reserves (with_slot r cu) = act_reserves cu @ [r]"
proof -
  let ?n = "nat (cu_numReserve cu)"
  have len: "length (cu_reserves cu) = XRM_MAX_KERNEL_RESERVES" and n0: "0 \<le> cu_numReserve cu"
    and rest: "drop ?n (cu_reserves cu) = replicate (XRM_MAX_KERNEL_RESERVES - ?n) reserve0"
    using assms(1) by (auto simp: reserves_inv_def)
  show n: "?n < length (cu_reserves cu)" using assms(2) len n0 by linarith
  then show "cu_reserves cu ! ?n = reserve0"
    using rest len by (metis Cons_nth_drop_Suc Suc_diff_Suc list.inject replicate_Suc)
  have "nat (cu_numReserve cu + 1) = Suc ?n" using n0 by simp
  then show "act_reserves (with_slot r cu) = act_reserves cu @ [r]"
    using take_Suc_update [OF n, of r] by (simp add: act_reserves_def with_slot_def)
qed

lemma slot_index:
  assumes rs: "reserves_inv cu0" "reserves_inv (with_slot r cu0)"
    and room: "cu_numReserve cu0 < int XRM_MAX_KERNEL_RESERVES"
  shows "isReservePoolUsingCu (with_slot r cu0) (rs_poolId r) = cu_numReserve cu0"
proof -
  let ?cu = "with_slot r cu0" and ?n = "nat (cu_numReserve cu0)"
  note ns = next_slot [OF rs(1) room]
  have n0: "0 \<le> cu_numReserve cu0" using rs(1) by (simp add: reserves_inv_def)
  have "rs_poolId r \<in> pool_ids ?cu" by (simp add: pool_ids_def ns(3))
  then have nz: "isReservePoolUsingCu ?cu (rs_poolId r) \<noteq> - 1"
    using isReservePoolUsingCu_spec(1) [OF rs(2)] by blast
  note sp = isReservePoolUsingCu_spec(2) [OF rs(2) nz]
  have at: "cu_reserves ?cu ! ?n = r" using ns(1) by (simp add: with_slot_def)
  have "nat (isReservePoolUsingCu ?cu (rs_poolId r)) = ?n"
    by (rule reserve_unique [OF rs(2)]) (use sp at n0 in auto)
  with sp n0 show ?thesis by simp
qed

text \<open>Reserving more of a pooled compute unit leaves it pooled.\<close>

definition reserve_fun :: "u64 \<Rightarrow> cuProperty \<Rightarrow> int \<Rightarrow> cuData \<Rightarrow> cuData" where
  "reserve_fun p prop idx cu = (if idx \<noteq> - 1
     then grow_reserve (nat idx) (pr_requestLoadUnified prop) (add_reserved (pr_requestLoadUnified prop) cu)
     else open_reserve p prop (add_reserved (pr_requestLoadUnified prop) cu))"

lemma reserve_fun_apply:
  "idx \<noteq> - 1 \<Longrightarrow> reserve_fun p prop idx = (\<lambda>cu. grow_reserve (nat idx) (pr_requestLoadUnified prop)
     (add_reserved (pr_requestLoadUnified prop) cu))"
  "reserve_fun p prop (- 1) = (\<lambda>cu. open_reserve p prop (add_reserved (pr_requestLoadUnified prop) cu))"
  by (simp_all add: reserve_fun_def fun_eq_iff)

lemma reserve_fun_pooled:
  assumes inv0: "cu_acct cu0" and fresh: "fresh_in p cu0" and po: "pooled p cu0 cu" and inv: "cu_acct cu"
    and req: "0 < pr_requestLoadUnified prop"
    and fits: "cu_totalUsedLoadUnified cu + pr_requestLoadUnified prop \<le> XRM_MAX_LOAD"
    and room: "isReservePoolUsingCu cu p = - 1 \<Longrightarrow> cu_numReserve cu < int XRM_MAX_KERNEL_RESERVES"
  defines "cu' \<equiv> reserve_fun p prop (isReservePoolUsingCu cu p) cu"
  shows "cu_acct cu'" "pooled p cu0 cu'"
    "cu_totalUsedLoadUnified cu' = cu_totalUsedLoadUnified cu + pr_requestLoadUnified prop"
proof -
  let ?L = "pr_requestLoadUnified prop" and ?n = "nat (cu_numReserve cu0)"
  have rs0: "reserves_inv cu0" and rs: "reserves_inv cu" using inv0 inv by (auto simp: cu_acct_def)
  note b = totals_bounds [OF inv]
  have w: "i32 (cu_totalUsedLoadUnified cu + ?L) = cu_totalUsedLoadUnified cu + ?L"
    "i32 (cu_totalReservedLoadUnified cu + ?L) = cu_totalReservedLoadUnified cu + ?L"
    using b req fits by simp_all
  show "cu_totalUsedLoadUnified cu' = cu_totalUsedLoadUnified cu + ?L"
    by (simp add: cu'_def reserve_fun_def grow_reserve_def open_reserve_def add_reserved_def w Let_def)
  have "cu_acct cu' \<and> pooled p cu0 cu'"
  proof (cases "cu = cu0")
    case True
    then have idx: "isReservePoolUsingCu cu p = - 1"
      using isReservePoolUsingCu_spec(1) [OF rs0, of p] fresh by (simp add: fresh_in_def)
    have rm: "cu_numReserve cu0 < int XRM_MAX_KERNEL_RESERVES" using room [OF idx] True by simp
    have "cu_acct cu'"
      unfolding cu'_def reserve_fun_def using idx inv fresh req fits rm True
      by (simp add: fresh_in_def cu_acct_open)
    moreover
    let ?r = "\<lparr> rs_poolId = p, rs_loadUnified = ?L, rs_usedLoadUnified = 0, rs_clientIsActive = True,
      rs_clientId = pr_clientId prop, rs_clientProcessId = pr_clientProcessId prop \<rparr>"
    have "cu' = with_slot ?r cu0"
      using next_slot(2) [OF rs0 rm] w True idx
      by (simp add: cu'_def reserve_fun_def idx open_reserve_def add_reserved_def with_slot_def
          Let_def reserve0_def)
    then have "pooled p cu0 cu'" unfolding pooled_def using rm req by (auto intro!: exI[of _ ?r])
    ultimately show ?thesis by simp
  next
    case False
    then obtain r where r: "rs_poolId r = p" "0 < rs_loadUnified r" "rs_usedLoadUnified r = 0"
      "cu = with_slot r cu0" and rm: "cu_numReserve cu0 < int XRM_MAX_KERNEL_RESERVES"
      using po by (auto simp: pooled_def)
    have idx: "isReservePoolUsingCu cu p = cu_numReserve cu0"
      using slot_index [OF rs0 _ rm, of r] rs r(1,4) by simp
    have n0: "0 \<le> cu_numReserve cu0" using rs0 by (simp add: reserves_inv_def)
    have k: "?n < nat (cu_numReserve cu)" using n0 r(4) by simp
    have at: "cu_reserves cu ! ?n = r" using next_slot(1) [OF rs0 rm] by (simp add: r(4) with_slot_def)
    have w3: "i32 (rs_loadUnified r + ?L) = rs_loadUnified r + ?L"
      using reserve_bounds [OF inv k] req fits b unfolding at by simp
    have "cu_acct cu'"
      unfolding cu'_def reserve_fun_def using cu_acct_grow [OF inv k req fits] idx n0 by simp
    moreover have "cu' = with_slot (r\<lparr>rs_loadUnified := rs_loadUnified r + ?L\<rparr>) cu0"
      using w w3 at n0 unfolding cu'_def reserve_fun_def idx
      by (simp add: grow_reserve_def add_reserved_def r(4) with_slot_def algebra_simps)
    then have "pooled p cu0 cu'" unfolding pooled_def using rm req r(1-3)
      by (intro disjI2 conjI exI[of _ "r\<lparr>rs_loadUnified := rs_loadUnified r + ?L\<rparr>"]) simp_all
    ultimately show ?thesis by simp
  qed
  then show "cu_acct cu'" "pooled p cu0 cu'" by auto
qed

text \<open>Closing the slot of a fresh pool gives back exactly the compute unit there was.\<close>

lemma close_pooled:
  assumes rs: "reserves_inv cu0" and rm: "cu_numReserve cu0 < int XRM_MAX_KERNEL_RESERVES"
    and r: "rs_usedLoadUnified r = 0"
  shows "close_reserve (nat (cu_numReserve cu0)) (with_slot r cu0) = cu0"
proof -
  let ?n = "nat (cu_numReserve cu0)" and ?xs = "cu_reserves cu0"
  note ns = next_slot [OF rs rm]
  have n0: "0 \<le> cu_numReserve cu0" using rs by (simp add: reserves_inv_def)
  have "remove_slot ?n (Suc ?n) reserve0 (?xs[?n := r]) = take ?n ?xs @ reserve0 # drop (Suc ?n) ?xs"
    using ns(1) by (subst remove_slot_eq) (auto simp: take_Suc_update)
  also have "\<dots> = ?xs" using id_take_nth_drop [OF ns(1)] ns(2) by simp
  finally have "remove_slot ?n (Suc ?n) reserve0 (?xs[?n := r]) = ?xs" .
  moreover have "nat (cu_numReserve cu0 + 1) = Suc ?n" using n0 by simp
  ultimately show ?thesis
    using ns(1) r by (simp add: close_reserve_def drop_reserve_def with_slot_def)
qed

section \<open>The load in use\<close>

text \<open>The used load of all compute units: a reservation adds exactly the requested load to it.\<close>

definition cu_sites :: "system \<Rightarrow> (nat \<times> nat) set" where
  "cu_sites s = {(d, c). valid_cu s d c}"

definition used_total :: "system \<Rightarrow> int" where
  "used_total s = (\<Sum>(d, c)\<in>cu_sites s. cu_totalUsedLoadUnified (cu_at s d c))"

lemma finite_cu_sites [simp]: "finite (cu_sites s)"
proof -
  have "cu_sites s \<subseteq> (SIGMA d:{..<nat (m_numDevice s)}. {..<nat (numCu (dev_at s d))})"
    by (auto simp: cu_sites_def valid_cu_def)
  then show ?thesis by (rule finite_subset) simp
qed

lemma used_total_step:
  assumes "cu_step d c s s'"
  shows "used_total s' = used_total s + cu_totalUsedLoadUnified (cu_at s' d c) - cu_totalUsedLoadUnified (cu_at s d c)"
proof -
  have v: "(d, c) \<in> cu_sites s" and f: "cu_frame d c s s'"
    using assms by (auto simp: cu_step_def cu_sites_def)
  note fr = cu_frame_dev [OF f]
  have sites: "cu_sites s' = cu_sites s" by (simp add: cu_sites_def fr(10))
  let ?u = "\<lambda>s (d, c). cu_totalUsedLoadUnified (cu_at s d c)"
  have "sum (?u s') (cu_sites s - {(d, c)}) = sum (?u s) (cu_sites s - {(d, c)})"
  proof (rule sum.cong [OF refl])
    fix x assume x: "x \<in> cu_sites s - {(d, c)}"
    obtain d' c' where x': "x = (d', c')" by fastforce
    with x fr(11) [of d' c'] show "?u s' x = ?u s x" by simp
  qed
  then show ?thesis
    using sum.remove [OF finite_cu_sites v, of "?u s"] sum.remove [OF finite_cu_sites v, of "?u s'"]
    by (simp add: used_total_def sites)
qed

section \<open>Systems with load reserved under a fresh pool\<close>

definition fresh_pool :: "u64 \<Rightarrow> system \<Rightarrow> bool" where
  "fresh_pool p s \<longleftrightarrow> p \<noteq> 0 \<and> (\<forall>d c. valid_cu s d c \<longrightarrow> fresh_in p (cu_at s d c))"

definition pooled_sys :: "u64 \<Rightarrow> system \<Rightarrow> system \<Rightarrow> bool" where
  "pooled_sys p s0 s \<longleftrightarrow> sys_inv s0 \<and> fresh_pool p s0 \<and> cus_rel (\<lambda>d c. pooled p) s0 s"

definition restored :: "system \<Rightarrow> system \<Rightarrow> bool" where
  "restored s0 s \<longleftrightarrow> cus_rel (\<lambda>d c cu0 cu. cu = cu0) s0 s"

lemma pooled_sys_refl: "sys_inv s \<Longrightarrow> fresh_pool p s \<Longrightarrow> pooled_sys p s s"
  by (simp add: pooled_sys_def cus_rel_refl pooled_def)

lemma restored_pooled: "sys_inv s0 \<Longrightarrow> fresh_pool p s0 \<Longrightarrow> restored s0 s \<Longrightarrow> pooled_sys p s0 s"
  unfolding pooled_sys_def restored_def by (auto elim!: cus_rel_mono simp: pooled_def)

lemma pooled_sysD:
  assumes "pooled_sys p s0 s"
  shows "sys_inv s" "m_numDevice s = m_numDevice s0" "valid_cu s d c = valid_cu s0 d c"
    "valid_cu s d c \<Longrightarrow> pooled p (cu_at s0 d c) (cu_at s d c)"
    "valid_cu s d c \<Longrightarrow> cu_acct (cu_at s0 d c) \<and> fresh_in p (cu_at s0 d c)" "p \<noteq> 0"
proof -
  have r: "cus_rel (\<lambda>d c. pooled p) s0 s" and i0: "sys_inv s0" and f: "fresh_pool p s0"
    using assms by (auto simp: pooled_sys_def)
  note D = cus_relD [OF r]
  show "sys_inv s" "m_numDevice s = m_numDevice s0" "valid_cu s d c = valid_cu s0 d c"
    using D by auto
  show "valid_cu s d c \<Longrightarrow> pooled p (cu_at s0 d c) (cu_at s d c)" using D(6,9) by simp
  show "valid_cu s d c \<Longrightarrow> cu_acct (cu_at s0 d c) \<and> fresh_in p (cu_at s0 d c)" "p \<noteq> 0"
    using valid_cu_inv [OF i0, of d c] f D(6) by (auto simp: fresh_pool_def cu_inv_def)
qed

lemma pooled_sys_step:
  assumes "pooled_sys p s0 s" "cu_step d c s s'" "load_step d c s s'" "same_tables s s'"
    "pooled p (cu_at s0 d c) (cu_at s' d c)"
  shows "pooled_sys p s0 s'"
  using assms(1) cus_rel_step [OF _ assms(2-4), of "\<lambda>d c. pooled p" s0 "\<lambda>d c. pooled p"] assms(5)
  by (auto simp: pooled_sys_def)

text \<open>A reservation of one compute unit.\<close>

definition can_reserve :: "u64 \<Rightarrow> cuProperty \<Rightarrow> cuData \<Rightarrow> bool" where
  "can_reserve p prop cu \<longleftrightarrow> 0 < pr_requestLoadUnified prop \<and>
     cu_totalUsedLoadUnified cu + pr_requestLoadUnified prop \<le> XRM_MAX_LOAD \<and>
     (p \<in> pool_ids cu \<or> cu_numReserve cu < int XRM_MAX_KERNEL_RESERVES)"

lemma reserveLoadFromCu_spec:
  assumes ps: "pooled_sys p s0 s" and v: "valid_cu s d c"
    and run: "reserveLoadFromCu p d c prop s = (ret, s')"
  shows "ret = XRM_SUCCESS \<longleftrightarrow> can_reserve p prop (cu_at s d c)"
    "if ret = XRM_SUCCESS then pooled_sys p s0 s' \<and>
        used_total s' = used_total s + pr_requestLoadUnified prop
     else s' = s"
proof -
  let ?cu = "cu_at s d c" and ?L = "pr_requestLoadUnified prop"
  let ?idx = "isReservePoolUsingCu ?cu p"
  note D = pooled_sysD [OF ps]
  note vi = valid_cu_inv [OF D(1) v]
  have acct: "cu_acct ?cu" and ci: "clients_inv ?cu" and rs: "reserves_inv ?cu"
    using vi by (auto simp: cu_inv_def cu_acct_def)
  note b = totals_bounds [OF acct]
  have p1: "\<not> p < 1" using D(6) by (simp add: word_less_1)
  note si = isReservePoolUsingCu_spec(1) [OF rs, of p]
  have conds: "(i32 (cu_totalUsedLoadUnified ?cu + ?L) \<le> XRM_MAX_LOAD \<and>
      i32 (cu_totalReservedLoadUnified ?cu + ?L) \<le> XRM_MAX_LOAD) \<longleftrightarrow>
      cu_totalUsedLoadUnified ?cu + ?L \<le> XRM_MAX_LOAD" if "0 < ?L" "?L \<le> XRM_MAX_LOAD"
    using b that by auto
  have code: "reserveLoadFromCu p d c prop s =
      (if can_reserve p prop ?cu
       then (XRM_SUCCESS, updateDeviceLoad (int d) ?L (- 1) (upd_cu d c (reserve_fun p prop ?idx) s))
       else (ret, s))"
    using run p1 conds vi si b
    by (auto simp: reserveLoadFromCu_def Let_def can_reserve_def reserve_fun_apply split: if_splits)
  show res: "ret = XRM_SUCCESS \<longleftrightarrow> can_reserve p prop ?cu"
    using run p1 conds vi si b
    by (auto simp: reserveLoadFromCu_def Let_def can_reserve_def split: if_splits)
  show "if ret = XRM_SUCCESS then pooled_sys p s0 s' \<and>
        used_total s' = used_total s + ?L else s' = s"
  proof (cases "ret = XRM_SUCCESS")
    case False
    with code run res show ?thesis by simp
  next
    case True
    let ?f = "reserve_fun p prop ?idx"
    have can: "can_reserve p prop ?cu" using res True by simp
    then have s': "s' = updateDeviceLoad (int d) ?L (- 1) (upd_cu d c ?f s)" using code run by simp
    have room: "?idx = - 1 \<Longrightarrow> cu_numReserve ?cu < int XRM_MAX_KERNEL_RESERVES"
      using can si by (simp add: can_reserve_def)
    have "0 < ?L" "cu_totalUsedLoadUnified ?cu + ?L \<le> XRM_MAX_LOAD"
      using can by (auto simp: can_reserve_def)
    note rf = reserve_fun_pooled [OF _ _ D(4) [OF v] acct this room, folded]
    have ci': "clients_inv (?f ?cu)"
      using ci clients_inv_cong [of "?f ?cu" ?cu]
      by (simp add: reserve_fun_def grow_reserve_def open_reserve_def add_reserved_def Let_def)
    have dv: "cu_deviceId (?f ?cu) = cu_deviceId ?cu"
      by (simp add: reserve_fun_def grow_reserve_def open_reserve_def add_reserved_def Let_def)
    have rf': "cu_acct (?f ?cu)" "pooled p (cu_at s0 d c) (?f ?cu)"
      "cu_totalUsedLoadUnified (?f ?cu) = cu_totalUsedLoadUnified ?cu + ?L"
      using rf D(5) [OF v] by simp_all
    have inv': "cu_inv (?f ?cu)" using rf'(1) ci' by (simp add: cu_inv_def)
    have L: "?L = cu_totalUsedLoadUnified (?f ?cu) - cu_totalUsedLoadUnified ?cu" using rf'(3) by simp
    note st = cu_step_with_load [of s d c ?f, OF D(1) v inv' dv L, folded s']
    have "same_tables (upd_cu d c ?f s) s'"
      unfolding s' using vi v by (intro same_tables_load) (auto simp: dev_at_upd_cu valid_cu_def)
    then have "same_tables s s'" by (blast intro: same_tables_trans same_tables_upd_cu)
    then show ?thesis
      using True pooled_sys_step [OF ps st(1,2)] rf' st(3) used_total_step [OF st(1)] by simp
  qed
qed

definition pooled_total :: "u64 \<Rightarrow> system \<Rightarrow> int \<Rightarrow> system \<Rightarrow> bool" where
  "pooled_total p s0 U s \<longleftrightarrow> pooled_sys p s0 s \<and> used_total s = U"

section \<open>The searches keep the system pooled\<close>

text \<open>The scan of one device takes the first compute unit that passes and can reserve the load.\<close>

definition scan_takes :: "u64 \<Rightarrow> cuProperty \<Rightarrow> bool \<Rightarrow> cuData \<Rightarrow> bool" where
  "scan_takes p prop aff cu \<longleftrightarrow>
     \<not> affinity_skip aff cu \<and> kernel_matches prop cu \<and> can_reserve p prop cu"

lemma reserve_scan_spec:
  assumes ps: "pooled_sys p s0 s" and d: "int d < m_numDevice s" and run: "reserve_scan p prop aff d s = (b, s')"
  shows "if b then pooled_total p s0 (used_total s + pr_requestLoadUnified prop) s' \<and>
         (\<exists>c. valid_cu s d c \<and> scan_takes p prop aff (cu_at s d c))
     else s' = s \<and> (\<forall>c. valid_cu s d c \<longrightarrow> \<not> scan_takes p prop aff (cu_at s d c))"
proof -
  let ?Q = "\<lambda>c. pooled_total p s0 (used_total s + pr_requestLoadUnified prop)"
  have fit: "if b then \<exists>pre c post. cu_ids (dev_at s d) = pre @ c # post \<and> ?Q c s' \<and>
      scan_takes p prop aff (cu_at s d c) \<and> (\<forall>j\<in>set pre. \<not> scan_takes p prop aff (cu_at s d j))
    else s' = s \<and> (\<forall>c\<in>set (cu_ids (dev_at s d)). \<not> scan_takes p prop aff (cu_at s d c))"
  proof (rule first_fit [where R = "\<lambda>t. t = s", OF refl _ run [unfolded reserve_scan_def]])
    fix c t b1 t'
    assume c: "c \<in> set (cu_ids (dev_at s d))" and t: "t = s"
      and run1: "(if affinity_skip aff (cu_at t d c) then (False, t)
        else if \<not> kernel_matches prop (cu_at t d c) then (False, t)
        else case reserveLoadFromCu p d c prop t of (ret, s') \<Rightarrow> (ret = XRM_SUCCESS, s')) = (b1, t')"
    have v: "valid_cu s d c" using c valid_cu_ids [OF pooled_sysD(1) [OF ps] d] by simp
    obtain ret u where u: "reserveLoadFromCu p d c prop s = (ret, u)" by fastforce
    note sp = reserveLoadFromCu_spec [OF ps v u]
    show "b1 = scan_takes p prop aff (cu_at s d c) \<and> (if b1 then ?Q c t' else t' = s)"
      using run1 u sp unfolding t by (auto simp: scan_takes_def pooled_total_def split: if_splits)
  qed
  show ?thesis
  proof (cases b)
    case True
    with fit obtain pre c post where "cu_ids (dev_at s d) = pre @ c # post" "?Q c s'"
      "scan_takes p prop aff (cu_at s d c)"
      by (simp only: if_True) blast
    then have "c \<in> set (cu_ids (dev_at s d))" "?Q c s'" "scan_takes p prop aff (cu_at s d c)" by simp_all
    with True valid_cu_ids [OF pooled_sysD(1) [OF ps] d] show ?thesis by auto
  next
    case False
    with fit valid_cu_ids [OF pooled_sysD(1) [OF ps] d] show ?thesis by simp
  qed
qed

interpretation reserve_try: device_body "resReserveCu_try p aff prop"
    "\<lambda>_. pooled_total p s0 U" "\<lambda>_. pooled_total p s0 (U + pr_requestLoadUnified prop)" clientId
  for p :: u64 and aff :: bool and "prop" :: cuProperty and s0 :: system and U :: int and clientId :: u64
proof unfold_locales
  fix s s' :: system and d :: nat and a a' :: u64
  assume "pooled_total p s0 U s" and d: "int d < m_numDevice s"
  then have P: "pooled_sys p s0 s" "used_total s = U" by (simp_all add: pooled_total_def)
  have keep: "if b then pooled_total p s0 (U + pr_requestLoadUnified prop) s' else s' = s"
    if "resReserveCu_try p aff prop d (a, s) = (b, a', s')" for b
    using reserve_scan_spec [OF P(1) d, of "prop" aff] that P(2)
    by (auto simp: resReserveCu_try_def split: prod.splits if_splits)
  show "pooled_total p s0 U s' \<and> m_numDevice s' = m_numDevice s"
    if "resReserveCu_try p aff prop d (a, s) = (False, a', s')"
    using keep [OF that] P by (simp add: pooled_total_def)
  show "pooled_total p s0 (U + pr_requestLoadUnified prop) s'"
    if "resReserveCu_try p aff prop d (a, s) = (True, a', s')"
    using keep [OF that] by simp
qed

lemma resReserveCu_pooled:
  assumes ps: "pooled_total p s0 U s" and run: "resReserveCu p prop (x, s) = (ret, x', s')"
  shows "pooled_total p s0 (if ret = XRM_SUCCESS then U + pr_requestLoadUnified prop else U) s'"
proof (cases "no_kernel prop")
  case False
  obtain b1 x1 s1 where 1: "search_devices (resReserveCu_try p True prop) prop (x, s) = (b1, x1, s1)"
    by (metis prod_cases3)
  obtain b2 x2 s2 where 2: "search_devices (resReserveCu_try p False prop) prop (x1, s1) = (b2, x2, s2)"
    by (metis prod_cases3)
  have p1: "if b1 then pooled_total p s0 (U + pr_requestLoadUnified prop) s1 else pooled_total p s0 U s1"
    using reserve_try.search_devices_inv [OF ps refl 1] by simp
  show ?thesis
  proof (cases b1)
    case True
    with p1 1 run False show ?thesis by (simp add: resReserveCu_def)
  next
    case b1: False
    with p1 have "pooled_total p s0 U s1" by simp
    from reserve_try.search_devices_inv [OF this refl 2] b1 1 2 run False
    show ?thesis by (auto simp: resReserveCu_def split: if_splits)
  qed
qed (use run ps in \<open>auto simp: resReserveCu_def\<close>)

text \<open>
  From one device: a compute unit that matches and can reserve the load is found if there is one;
  otherwise the state is unchanged.
\<close>

lemma reserveCuFromDev_spec:
  assumes ps: "pooled_sys p s0 s" and run: "reserveCuFromDev p devId prop s = (ret, s')"
  shows "if ret = XRM_SUCCESS then pooled_total p s0 (used_total s + pr_requestLoadUnified prop) s' else s' = s"
    "0 \<le> devId \<Longrightarrow> devId < m_numDevice s \<Longrightarrow> \<not> no_kernel prop \<Longrightarrow>
      ret = XRM_SUCCESS \<longleftrightarrow> (\<exists>c. valid_cu s (nat devId) c \<and> kernel_matches prop (cu_at s (nat devId) c) \<and>
         can_reserve p prop (cu_at s (nat devId) c))"
proof -
  let ?d = "nat devId"
  let ?can = "\<exists>c. valid_cu s ?d c \<and> kernel_matches prop (cu_at s ?d c) \<and> can_reserve p prop (cu_at s ?d c)"
  have all: "(if ret = XRM_SUCCESS then pooled_total p s0 (used_total s + pr_requestLoadUnified prop) s'
      else s' = s) \<and> (ret = XRM_SUCCESS \<longleftrightarrow> ?can)"
    if ok: "0 \<le> devId" "devId < m_numDevice s" "\<not> no_kernel prop"
  proof -
    have d: "int ?d < m_numDevice s" using ok by simp
    obtain b1 s1 where 1: "reserve_scan p prop True ?d s = (b1, s1)" by fastforce
    obtain b2 s2 where 2: "reserve_scan p prop False ?d s1 = (b2, s2)" by fastforce
    note sp1 = reserve_scan_spec [OF ps d 1]
    show ?thesis
    proof (cases b1)
      case True
      have ?can using sp1 True by (auto simp: scan_takes_def)
      with sp1 True 1 run ok show ?thesis by (simp add: reserveCuFromDev_def)
    next
      case False
      with sp1 have s1: "s1 = s" by simp
      note 2 = 2 [unfolded s1] and sp2 = reserve_scan_spec [OF ps d 2 [unfolded s1]]
      have can: "?can \<longleftrightarrow> b2"
      proof
        assume b2
        then show ?can using sp2 by (auto simp: scan_takes_def)
      next
        assume ?can
        then obtain c where c: "valid_cu s ?d c" "kernel_matches prop (cu_at s ?d c)"
          "can_reserve p prop (cu_at s ?d c)" by blast
        then have "scan_takes p prop True (cu_at s ?d c) \<or> scan_takes p prop False (cu_at s ?d c)"
          by (auto simp: scan_takes_def affinity_skip_def)
        then show b2 using sp1 sp2 False c(1) by (cases b2) auto
      qed
      with sp2 False s1 1 2 run ok show ?thesis
        unfolding can by (auto simp: reserveCuFromDev_def split: if_splits)
    qed
  qed
  show "if ret = XRM_SUCCESS then pooled_total p s0 (used_total s + pr_requestLoadUnified prop) s' else s' = s"
  proof (cases "0 \<le> devId \<and> devId < m_numDevice s \<and> \<not> no_kernel prop")
    case False
    with run show ?thesis by (auto simp: reserveCuFromDev_def split: if_splits)
  qed (use all in blast)
  show "ret = XRM_SUCCESS \<longleftrightarrow> ?can" if "0 \<le> devId" "devId < m_numDevice s" "\<not> no_kernel prop"
    using all [OF that] by simp
qed

section \<open>Undoing a reservation\<close>

lemma first_index_unique:
  "k < n \<Longrightarrow> (\<And>j. j < n \<Longrightarrow> P j \<longleftrightarrow> j = k) \<Longrightarrow> first_index n P = Some k"
  by (simp add: first_index_Some_iff)

lemma relinquish_cu_pooled:
  assumes ps: "pooled_sys p s0 s" and v: "valid_cu s d c"
  shows "\<exists>s'. relinquish_cu p d c s = Some s' \<and> cu_step d c s s' \<and> load_step d c s s' \<and>
      same_tables s s' \<and> cu_at s' d c = cu_at s0 d c"
proof -
  let ?cu = "cu_at s d c" and ?old = "cu_at s0 d c"
  note D = pooled_sysD [OF ps]
  have ci: "cu_inv ?cu" using valid_cu_inv [OF D(1) v] by simp
  then have acct: "cu_acct ?cu" and rs: "reserves_inv ?cu" by (auto simp: cu_inv_def cu_acct_def)
  have rs0: "reserves_inv ?old" and fr: "p \<notin> pool_ids ?old"
    using D(5) [OF v] by (auto simp: cu_acct_def fresh_in_def)
  show ?thesis
  proof (cases "?cu = ?old")
    case True
    then have "\<forall>i<nat (cu_numReserve ?cu). rs_poolId (cu_reserves ?cu ! i) \<noteq> p"
      using act_reserve_ok(2) [OF rs0] fr by metis
    then have none: "first_index (nat (cu_numReserve ?cu)) (\<lambda>i. rs_poolId (cu_reserves ?cu ! i) = p) = None"
      by simp
    have "relinquish_cu p d c s = Some s" unfolding relinquish_cu_def none by simp
    then show ?thesis using v ci True by (auto simp: cu_step_def cu_frame_refl)
  next
    case False
    then obtain r where r: "rs_poolId r = p" "rs_usedLoadUnified r = 0" "?cu = with_slot r ?old"
      and rm: "cu_numReserve ?old < int XRM_MAX_KERNEL_RESERVES"
      using D(4) [OF v] by (auto simp: pooled_def)
    let ?n = "nat (cu_numReserve ?old)"
    have n0: "0 \<le> cu_numReserve ?old" using rs0 by (simp add: reserves_inv_def)
    have at: "cu_reserves ?cu ! ?n = r" using next_slot(1) [OF rs0 rm] by (simp add: r(3) with_slot_def)
    have n: "?n < nat (cu_numReserve ?cu)" using n0 r(3) by simp
    have "rs_poolId (cu_reserves ?cu ! j) = p \<longleftrightarrow> j = ?n" if "j < nat (cu_numReserve ?cu)" for j
      using reserve_unique [OF rs that n] at r(1) by auto
    then have fi: "first_index (nat (cu_numReserve ?cu)) (\<lambda>i. rs_poolId (cu_reserves ?cu ! i) = p) = Some ?n"
      by (intro first_index_unique n) auto
    have free: "rs_usedLoadUnified (cu_reserves ?cu ! ?n) = 0" using at r(2) by simp
    have "relinquish_cu p d c s = Some (relinquish_slot d c ?n s)"
      unfolding relinquish_cu_def fi using free by simp
    then show ?thesis
      using relinquish_slot_spec [OF D(1) v n free] close_pooled [OF rs0 rm r(2)] r(3) by simp
  qed
qed

definition undone :: "u64 \<Rightarrow> (nat \<times> nat) set \<Rightarrow> nat \<Rightarrow> nat \<Rightarrow> cuData \<Rightarrow> cuData \<Rightarrow> bool" where
  "undone p V d c cu0 cu \<longleftrightarrow> (if (d, c) \<in> V then cu = cu0 else pooled p cu0 cu)"

lemma undone_mono:
  assumes "undone p V d c cu0 cu" "(d, c) \<in> V \<longleftrightarrow> (d, c) \<in> W"
  shows "undone p W d c cu0 cu"
  using assms by (simp add: undone_def)

lemma undone_pooled: "cus_rel (undone p V) s0 s \<Longrightarrow> sys_inv s0 \<Longrightarrow> fresh_pool p s0 \<Longrightarrow> pooled_sys p s0 s"
  unfolding pooled_sys_def by (auto elim!: cus_rel_mono simp: undone_def pooled_def split: if_splits)

lemma relinquish_cus_undo:
  assumes "cus_rel (undone p V) s0 s" "sys_inv s0" "fresh_pool p s0" "\<forall>c\<in>set cs. valid_cu s0 d c"
  shows "\<exists>s'. relinquish_cus p d cs s = (True, s') \<and> cus_rel (undone p (V \<union> {d} \<times> set cs)) s0 s'"
  using assms(1,4)
proof (induction cs arbitrary: s V)
  case (Cons c cs)
  have ps: "pooled_sys p s0 s" by (rule undone_pooled [OF Cons.prems(1) assms(2,3)])
  have v: "valid_cu s d c" using Cons.prems(2) pooled_sysD(3) [OF ps] by simp
  obtain s1 where s1: "relinquish_cu p d c s = Some s1" "cu_step d c s s1" "load_step d c s s1"
    "same_tables s s1" "cu_at s1 d c = cu_at s0 d c"
    using relinquish_cu_pooled [OF ps v] by blast
  have "cus_rel (undone p (insert (d, c) V)) s0 s1"
    by (rule cus_rel_step [OF Cons.prems(1) s1(2,3,4)]) (auto simp: undone_def s1(5))
  moreover have "insert (d, c) V \<union> {d} \<times> set cs = V \<union> {d} \<times> set (c # cs)" by auto
  ultimately show ?case using Cons.IH [of "insert (d, c) V" s1] Cons.prems(2) s1(1) by simp
qed simp

lemma relinquish_devices_loaded:
  assumes "dv_isLoaded (dev_at s d)" "relinquish_cus p d [0..<nat (numCu (dev_at s d))] s = (True, t)"
  shows "relinquish_devices p (d # ds) s = relinquish_devices p ds t"
proof -
  have "relinquish_devices p (d # ds) s =
    (case relinquish_cus p d [0..<nat (numCu (dev_at s d))] s of
       (ok, s') \<Rightarrow> if ok then relinquish_devices p ds s' else (False, s'))"
    using assms(1) by (subst relinquish_devices.simps) (simp split: prod.split)
  then show ?thesis by (simp add: assms(2))
qed

lemma relinquish_devices_undo:
  assumes "cus_rel (undone p V) s0 s" "sys_inv s0" "fresh_pool p s0" "\<forall>d\<in>set ds. int d < m_numDevice s0"
  shows "\<exists>s'. relinquish_devices p ds s = (True, s') \<and> cus_rel (undone p (V \<union> set ds \<times> UNIV)) s0 s'"
  using assms(1,4)
proof (induction ds arbitrary: s V)
  case (Cons d ds)
  note D = cus_relD [OF Cons.prems(1)]
  have d: "int d < m_numDevice s0" using Cons.prems(2) by simp
  obtain s1 where s1: "relinquish_devices p (d # ds) s = relinquish_devices p ds s1"
    "cus_rel (undone p (V \<union> {d} \<times> UNIV)) s0 s1"
  proof (cases "dv_isLoaded (dev_at s d)")
    case False
    then have "\<not> valid_cu s0 d c" for c
      using D(7) sys_inv_dev [OF assms(2) d] by (auto simp: dev_inv_def valid_cu_def)
    then have "cus_rel (undone p (V \<union> {d} \<times> UNIV)) s0 s"
      by (intro cus_rel_mono [OF Cons.prems(1)]) (auto simp: undone_def)
    with False show ?thesis using that [of s] by simp
  next
    case True
    let ?cs = "[0..<nat (numCu (dev_at s d))]"
    have cs: "valid_cu s0 d c \<longleftrightarrow> c \<in> set ?cs" for c
      using D(3) D(6) [of d c] d by (auto simp: valid_cu_def)
    then have "\<forall>c\<in>set ?cs. valid_cu s0 d c" by blast
    from relinquish_cus_undo [OF Cons.prems(1) assms(2,3) this]
    obtain t where t: "relinquish_cus p d ?cs s = (True, t)"
      "cus_rel (undone p (V \<union> {d} \<times> set ?cs)) s0 t" by blast
    have "cus_rel (undone p (V \<union> {d} \<times> UNIV)) s0 t"
    proof (rule cus_rel_mono [OF t(2)])
      fix d' c' cu cu'
      assume "valid_cu s0 d' c'" "undone p (V \<union> {d} \<times> set ?cs) d' c' cu cu'"
      then show "undone p (V \<union> {d} \<times> UNIV) d' c' cu cu'"
        by (elim undone_mono) (use cs \<open>valid_cu s0 d' c'\<close> in blast)
    qed
    with relinquish_devices_loaded [OF True t(1)] show ?thesis by (rule that)
  qed
  have eq: "V \<union> {d} \<times> UNIV \<union> set ds \<times> UNIV = V \<union> set (d # ds) \<times> UNIV" by auto
  have "\<forall>d\<in>set ds. int d < m_numDevice s0" using Cons.prems(2) by simp
  from Cons.IH [OF s1(2) this] show ?case unfolding s1(1) eq .
qed simp

lemma relinquish_pooled:
  assumes ps: "pooled_sys p s0 s"
  shows "\<exists>s'. resRelinquishCuPool p s = (XRM_SUCCESS, s') \<and> resRelinquishCuList p s = (XRM_SUCCESS, s') \<and>
    restored s0 s'"
proof -
  have "undone p {} = (\<lambda>d c. pooled p)" by (simp add: undone_def fun_eq_iff)
  then have "cus_rel (undone p {}) s0 s" "sys_inv s0" "fresh_pool p s0"
    using ps by (auto simp: pooled_sys_def)
  moreover have "\<forall>d\<in>set [0..<nat (m_numDevice s)]. int d < m_numDevice s0"
    using pooled_sysD(2) [OF ps] by auto
  ultimately obtain s' where s': "relinquish_devices p [0..<nat (m_numDevice s)] s = (True, s')"
    "cus_rel (undone p ({} \<union> set [0..<nat (m_numDevice s)] \<times> UNIV)) s0 s'"
    using relinquish_devices_undo by blast
  have "restored s0 s'"
    unfolding restored_def
    by (rule cus_rel_mono [OF s'(2)]) (use pooled_sysD(2) [OF ps] in \<open>auto simp: undone_def valid_cu_def\<close>)
  with s'(1) pooled_sysD(6) [OF ps] show ?thesis
    by (simp add: resRelinquishCuPool_def resRelinquishCuList_def)
qed

end
