(* ===== verification/Xrm_Pool_Inv.thy ===== *)
theory Xrm_Pool_Inv
  imports Xrm_Reserve_Inv
begin

text \<open>
  Correctness of the reservation of whole devices, lists and pools: under a fresh pool id every
  operation leaves the system pooled (some compute units have one more, unused reservation of the
  pool), a failure leaves it restored, and \<open>resReserveCuPool\<close> reserves everything or nothing.
\<close>

section \<open>Whole devices\<close>

lemma idle_no_reserve:
  assumes acct: "cu_acct cu" and idle: "cu_totalUsedLoadUnified cu = 0"
  shows "cu_numReserve cu = 0" "\<forall>ch\<in>set (cu_channels cu). ch_loadUnified ch = 0"
proof -
  have rs: "reserves_inv cu" and chs: "\<forall>ch\<in>set (cu_channels cu). chan_ok ch" and tot: "totals_inv cu"
    using acct by (auto simp: cu_acct_def chans_inv_def)
  have n0: "0 \<le> cu_numReserve cu" using rs by (simp add: reserves_inv_def)
  have parts: "reserved_load cu = 0" "default_load (pool_ids cu) (cu_channels cu) = 0"
    using tot idle reserved_load_nonneg [OF rs] default_load_nonneg [OF chs, of "pool_ids cu"]
    by (auto simp: totals_inv_def)
  show z: "cu_numReserve cu = 0"
  proof (rule ccontr)
    assume "cu_numReserve cu \<noteq> 0"
    then have k: "0 < nat (cu_numReserve cu)" using n0 by simp
    have nn: "0 \<le> x" if "x \<in> set (map rs_loadUnified (act_reserves cu))" for x
      using that rs by (auto simp: reserves_inv_def reserve_ok_def less_imp_le)
    have "cu_reserves cu ! 0 \<in> set (act_reserves cu)"
      using act_reserves_nth [OF rs k] by (metis nth_mem)
    then have "rs_loadUnified (cu_reserves cu ! 0) \<le> reserved_load cu"
      unfolding reserved_load_def using nn by (intro sum_list_nonneg_member) auto
    with parts reserve_bounds(3) [OF acct k] show False by simp
  qed
  have ids: "pool_ids cu = {}" using z by (simp add: pool_ids_def act_reserves_def)
  show "\<forall>ch\<in>set (cu_channels cu). ch_loadUnified ch = 0"
  proof
    fix ch assume ch: "ch \<in> set (cu_channels cu)"
    have "ch_loadUnified ch \<le> 0"
      using default_load_member [OF chs ch, of "{}"] parts(2) ids by simp
    moreover have "0 \<le> ch_loadUnified ch" using chs ch by (auto simp: chan_ok_def)
    ultimately show "ch_loadUnified ch = 0" by simp
  qed
qed

definition whole_slot :: "u64 \<Rightarrow> u64 \<Rightarrow> int \<Rightarrow> reserveData" where
  "whole_slot p clientId clientProcessId = \<lparr> rs_poolId = p, rs_loadUnified = XRM_MAX_LOAD,
     rs_usedLoadUnified = 0, rs_clientIsActive = True, rs_clientId = clientId,
     rs_clientProcessId = clientProcessId \<rparr>"

lemma whole_reserve_idle:
  assumes acct: "cu_acct cu" and idle: "cu_totalUsedLoadUnified cu = 0" and fresh: "fresh_in p cu"
  shows "whole_reserve p cl pid cu = with_slot (whole_slot p cl pid) cu"
    "cu_acct (whole_reserve p cl pid cu)" "pooled p cu (whole_reserve p cl pid cu)"
proof -
  have z: "cu_numReserve cu = 0" by (rule idle_no_reserve [OF acct idle])
  have rs: "reserves_inv cu" using acct by (simp add: cu_acct_def)
  have room: "cu_numReserve cu < int XRM_MAX_KERNEL_RESERVES" using z by (simp add: limit_pos)
  have r0: "cu_totalReservedLoadUnified cu = 0" using totals_bounds [OF acct] idle by simp
  show eq: "whole_reserve p cl pid cu = with_slot (whole_slot p cl pid) cu"
    by (simp add: whole_reserve_def with_slot_def whole_slot_def z r0 idle)
  have M: "0 < XRM_MAX_LOAD" by simp
  obtain q :: cuProperty where q: "pr_requestLoadUnified q = XRM_MAX_LOAD" "pr_clientId q = cl" "pr_clientProcessId q = pid"
    by (rule that [of "undefined\<lparr>pr_requestLoadUnified := XRM_MAX_LOAD, pr_clientId := cl,
        pr_clientProcessId := pid\<rparr>"]) simp_all
  have "open_reserve p q (add_reserved XRM_MAX_LOAD cu) = with_slot (whole_slot p cl pid) cu"
    using next_slot(2) [OF rs room] z r0 idle
    by (simp add: open_reserve_def add_reserved_def with_slot_def whole_slot_def q Let_def reserve0_def)
  moreover have "cu_acct (open_reserve p q (add_reserved (pr_requestLoadUnified q) cu))"
    using fresh idle M by (intro cu_acct_open [OF acct _ _ _ room]) (auto simp: fresh_in_def q)
  ultimately show "cu_acct (whole_reserve p cl pid cu)" by (simp add: eq q)
  show "pooled p cu (whole_reserve p cl pid cu)"
    unfolding pooled_def eq using room M
    by (intro disjI2 conjI exI[of _ "whole_slot p cl pid"]) (simp_all add: whole_slot_def)
qed

text \<open>One function applied to every compute unit of a device.\<close>

definition upd_cus :: "nat \<Rightarrow> (cuData \<Rightarrow> cuData) \<Rightarrow> nat \<Rightarrow> system \<Rightarrow> system" where
  "upd_cus d f n s = fold (\<lambda>c. upd_cu d c f) [0..<n] s"

lemma upd_cus_frame:
  fixes f :: "cuData \<Rightarrow> cuData"
  assumes "d < length (m_devList s)" "n \<le> length (cuList (dev_at s d))"
  defines "t \<equiv> upd_cus d f n s"
  shows "length (m_devList t) = length (m_devList s) \<and> m_numDevice t = m_numDevice s \<and>
      m_fault t = m_fault s \<and> m_reservePoolId t = m_reservePoolId s \<and>
      m_devicesInited t = m_devicesInited s \<and> m_allocServiceId t = m_allocServiceId s"
    "numCu (dev_at t d') = numCu (dev_at s d') \<and> dv_isLoaded (dev_at t d') = dv_isLoaded (dev_at s d') \<and>
      length (cuList (dev_at t d')) = length (cuList (dev_at s d')) \<and>
      dv_clientProcs (dev_at t d') = dv_clientProcs (dev_at s d') \<and>
      dv_isExcl (dev_at t d') = dv_isExcl (dev_at s d') \<and>
      dv_devLoadInfo (dev_at t d') = dv_devLoadInfo (dev_at s d') \<and>
      dv_memBuffer (dev_at t d') = dv_memBuffer (dev_at s d')"
    "cu_at t d' c' = (if d' = d \<and> c' < n then f (cu_at s d c') else cu_at s d' c')"
proof -
  have all: "(length (m_devList t) = length (m_devList s) \<and> m_numDevice t = m_numDevice s \<and>
      m_fault t = m_fault s \<and> m_reservePoolId t = m_reservePoolId s \<and>
      m_devicesInited t = m_devicesInited s \<and> m_allocServiceId t = m_allocServiceId s) \<and>
    (\<forall>d'. numCu (dev_at t d') = numCu (dev_at s d') \<and> dv_isLoaded (dev_at t d') = dv_isLoaded (dev_at s d') \<and>
      length (cuList (dev_at t d')) = length (cuList (dev_at s d')) \<and>
      dv_clientProcs (dev_at t d') = dv_clientProcs (dev_at s d') \<and>
      dv_isExcl (dev_at t d') = dv_isExcl (dev_at s d') \<and>
      dv_devLoadInfo (dev_at t d') = dv_devLoadInfo (dev_at s d') \<and>
      dv_memBuffer (dev_at t d') = dv_memBuffer (dev_at s d')) \<and>
    (\<forall>d' c'. cu_at t d' c' = (if d' = d \<and> c' < n then f (cu_at s d c') else cu_at s d' c'))"
    using assms(1,2) unfolding t_def
  proof (induction n)
    case (Suc n)
    then show ?case by (auto simp: upd_cus_def dev_at_upd_cu cu_at_upd_cu less_Suc_eq)
  qed (simp add: upd_cus_def)
  then show "length (m_devList t) = length (m_devList s) \<and> m_numDevice t = m_numDevice s \<and>
      m_fault t = m_fault s \<and> m_reservePoolId t = m_reservePoolId s \<and>
      m_devicesInited t = m_devicesInited s \<and> m_allocServiceId t = m_allocServiceId s"
    "numCu (dev_at t d') = numCu (dev_at s d') \<and> dv_isLoaded (dev_at t d') = dv_isLoaded (dev_at s d') \<and>
      length (cuList (dev_at t d')) = length (cuList (dev_at s d')) \<and>
      dv_clientProcs (dev_at t d') = dv_clientProcs (dev_at s d') \<and>
      dv_isExcl (dev_at t d') = dv_isExcl (dev_at s d') \<and>
      dv_devLoadInfo (dev_at t d') = dv_devLoadInfo (dev_at s d') \<and>
      dv_memBuffer (dev_at t d') = dv_memBuffer (dev_at s d')"
    "cu_at t d' c' = (if d' = d \<and> c' < n then f (cu_at s d c') else cu_at s d' c')"
    by blast+
qed

lemma sys_inv_cus:
  assumes inv: "sys_inv s" and len: "length (m_devList t) = length (m_devList s)"
    and eq: "m_numDevice t = m_numDevice s" "m_fault t = m_fault s" "m_devicesInited t = m_devicesInited s"
    and dev: "\<And>d. numCu (dev_at t d) = numCu (dev_at s d) \<and> dv_isLoaded (dev_at t d) = dv_isLoaded (dev_at s d) \<and>
      length (cuList (dev_at t d)) = length (cuList (dev_at s d)) \<and>
      length (dv_clientProcs (dev_at t d)) = length (dv_clientProcs (dev_at s d)) \<and>
      dv_memBuffer (dev_at t d) = dv_memBuffer (dev_at s d) \<and>
      (\<not> dv_isLoaded (dev_at s d) \<longrightarrow> cuList (dev_at t d) = cuList (dev_at s d))"
    and cus: "\<And>d c. valid_cu s d c \<Longrightarrow> cu_inv (cu_at t d c) \<and> cu_deviceId (cu_at t d c) = int d"
  shows "sys_inv t"
proof -
  have "dev_inv d (dev_at t d)" if "int d < m_numDevice s" for d
  proof -
    have di: "dev_inv d (dev_at s d)" using sys_inv_dev [OF inv that] by simp
    have "cu_inv (cuList (dev_at t d) ! c) \<and> cu_deviceId (cuList (dev_at t d) ! c) = int d"
      if "c < nat (numCu (dev_at s d))" for c
      using cus [of d c] that \<open>int d < m_numDevice s\<close> by (auto simp: valid_cu_def cu_at_def)
    with di dev [of d] show ?thesis by (simp add: dev_inv_def)
  qed
  then show ?thesis using inv len eq dev by (auto simp: sys_inv_def)
qed

lemma upd_cus_sys_inv:
  assumes inv: "sys_inv s" and d: "int d < m_numDevice s" and loaded: "dv_isLoaded (dev_at s d)"
    and n: "n \<le> nat (numCu (dev_at s d))"
    and f: "\<And>c. c < n \<Longrightarrow> cu_inv (f (cu_at s d c)) \<and> cu_deviceId (f (cu_at s d c)) = int d"
  shows "sys_inv (upd_cus d f n s)"
proof -
  let ?t = "upd_cus d f n s"
  have dl: "d < length (m_devList s)" and len: "n \<le> length (cuList (dev_at s d))"
    using sys_inv_dev [OF inv d] n by (auto simp: dev_inv_def split: if_splits)
  note F = upd_cus_frame [OF dl len, where f = f]
  have other: "cuList (dev_at ?t d') = cuList (dev_at s d')" if "d' \<noteq> d" for d'
    using F(2) [of d'] F(3) [of d'] that by (intro nth_equalityI) (auto simp: cu_at_def)
  show ?thesis
  proof (rule sys_inv_cus [OF inv])
    show "numCu (dev_at ?t d') = numCu (dev_at s d') \<and>
        dv_isLoaded (dev_at ?t d') = dv_isLoaded (dev_at s d') \<and>
        length (cuList (dev_at ?t d')) = length (cuList (dev_at s d')) \<and>
        length (dv_clientProcs (dev_at ?t d')) = length (dv_clientProcs (dev_at s d')) \<and>
        dv_memBuffer (dev_at ?t d') = dv_memBuffer (dev_at s d') \<and>
        (\<not> dv_isLoaded (dev_at s d') \<longrightarrow> cuList (dev_at ?t d') = cuList (dev_at s d'))" for d'
      using F(2) [of d'] other [of d'] loaded by auto
    show "cu_inv (cu_at ?t d' c) \<and> cu_deviceId (cu_at ?t d' c) = int d'" if "valid_cu s d' c" for d' c
      using F(3) [of d' c] f [of c] valid_cu_inv [OF inv that] by auto
  qed (use F(1) in auto)
qed

lemma not_busy:
  "\<not> isDeviceBusy (int d) s \<Longrightarrow> valid_cu s d c \<Longrightarrow> cu_totalUsedLoadUnified (cu_at s d c) = 0"
  by (auto simp: isDeviceBusy_def valid_cu_def list_ex_iff nat_less_iff split: if_splits)

lemma idle_pooled_same:
  assumes ps: "pooled_sys p s0 s" and v: "valid_cu s d c" and idle: "cu_totalUsedLoadUnified (cu_at s d c) = 0"
  shows "cu_at s0 d c = cu_at s d c"
proof -
  have "cu_acct (cu_at s d c)" using valid_cu_inv [OF pooled_sysD(1) [OF ps] v] by (simp add: cu_inv_def)
  then have "cu_numReserve (cu_at s d c) = 0" using idle_no_reserve idle by blast
  moreover have "0 \<le> cu_numReserve (cu_at s0 d c)"
    using pooled_sysD(5) [OF ps v] by (simp add: cu_acct_def reserves_inv_def)
  ultimately show ?thesis using pooled_sysD(4) [OF ps v] by (auto simp: pooled_def)
qed

lemma sum_list_const: "(\<And>x. x \<in> set xs \<Longrightarrow> f x = k) \<Longrightarrow> sum_list (map f xs) = int (length xs) * k"
  by (induction xs) (auto simp: algebra_simps)

lemma take_map_cus:
  assumes "n \<le> length (cuList (dev_at s d))"
  shows "take n (cuList (dev_at s d)) = map (cu_at s d) [0..<n]"
  using assms by (intro nth_equalityI) (auto simp: cu_at_def)

text \<open>What \<open>reserve_whole\<close> changes: the compute units of the device, and its load.\<close>

lemma reserve_whole_frame:
  fixes p cl :: u64 and pid :: int
  assumes inv: "sys_inv s" and d: "int d < m_numDevice s" and loaded: "dv_isLoaded (dev_at s d)"
  defines "t \<equiv> upd_cus d (whole_reserve p cl pid) (nat (numCu (dev_at s d))) s"
    and "s' \<equiv> reserve_whole p cl pid d s"
  shows "same_cus t s'"
    "cu_at s' d' c = (if d' = d \<and> c < nat (numCu (dev_at s d)) then whole_reserve p cl pid (cu_at s d c) else cu_at s d' c)"
    "valid_cu s' d' c = valid_cu s d' c" "same_tables s s'"
    "m_numDevice s' = m_numDevice s \<and> m_reservePoolId s' = m_reservePoolId s \<and> m_allocServiceId s' = m_allocServiceId s \<and>
     dv_isLoaded (dev_at s' d') = dv_isLoaded (dev_at s d') \<and> numCu (dev_at s' d') = numCu (dev_at s d') \<and>
     length (cuList (dev_at s' d')) = length (cuList (dev_at s d'))"
    "li_devCurrentLoad (dv_devLoadInfo (dev_at s' d')) =
      (if d' = d then numCu (dev_at s d) * XRM_MAX_LOAD else li_devCurrentLoad (dv_devLoadInfo (dev_at s d')))"
proof -
  let ?n = "nat (numCu (dev_at s d))"
  have n: "d < length (m_devList s)" "0 < numCu (dev_at s d)" "numCu (dev_at s d) \<le> int XRM_MAX_XILINX_KERNELS"
    "?n \<le> length (cuList (dev_at s d))"
    using sys_inv_dev [OF inv d] loaded by (auto simp: dev_inv_def)
  note F = upd_cus_frame [OF n(1,4), where f = "whole_reserve p cl pid", folded t_def]
  have s': "s' = updateDeviceLoad (int d) 0 (numCu (dev_at s d) * XRM_MAX_LOAD) t"
    by (simp add: s'_def t_def reserve_whole_def upd_cus_def)
  have "nat (int d) < length (m_devList t)" "0 < numCu (dev_at t (nat (int d)))"
    "numCu (dev_at t (nat (int d))) \<le> int XRM_MAX_XILINX_KERNELS"
    using F(1) F(2) [of d] n by simp_all
  note U = updateDeviceLoad_frame [OF of_nat_0_le_iff this, of 0 "numCu (dev_at s d) * XRM_MAX_LOAD", folded s']
  show "same_cus t s'" by (rule U(1))
  show "cu_at s' d' c = (if d' = d \<and> c < ?n then whole_reserve p cl pid (cu_at s d c) else cu_at s d' c)"
    using same_cus_dev [OF U(1), of d' c] F(3) [of d' c] by simp
  show "valid_cu s' d' c = valid_cu s d' c"
    using same_cus_valid [OF U(1)] F(1) F(2) [of d'] by (simp add: valid_cu_def)
  show "same_tables s s'" using U(2,3) F(2) by (simp add: same_tables_def)
  show "m_numDevice s' = m_numDevice s \<and> m_reservePoolId s' = m_reservePoolId s \<and> m_allocServiceId s' = m_allocServiceId s \<and>
     dv_isLoaded (dev_at s' d') = dv_isLoaded (dev_at s d') \<and> numCu (dev_at s' d') = numCu (dev_at s d') \<and>
     length (cuList (dev_at s' d')) = length (cuList (dev_at s d'))"
    using same_cus_fields [OF U(1)] same_cus_dev [OF U(1), of d'] F(1) F(2) [of d'] by simp
  show "li_devCurrentLoad (dv_devLoadInfo (dev_at s' d')) =
      (if d' = d then numCu (dev_at s d) * XRM_MAX_LOAD else li_devCurrentLoad (dv_devLoadInfo (dev_at s d')))"
    using U(4) [of d'] F(2) [of d'] n(2) by simp
qed

lemma reserve_whole_load:
  fixes cl :: u64 and pid :: int
  assumes inv: "sys_inv s" and d: "int d < m_numDevice s" and loaded: "dv_isLoaded (dev_at s d)" and load: "load_inv s"
  shows "load_inv (reserve_whole p cl pid d s)"
proof -
  let ?s = "reserve_whole p cl pid d s" and ?n = "nat (numCu (dev_at s d))"
  note F = reserve_whole_frame [OF inv d loaded, where p = p and cl = cl and pid = pid]
  have n: "0 < numCu (dev_at s d)" "?n \<le> length (cuList (dev_at s d))"
    using sys_inv_dev [OF inv d] loaded by (auto simp: dev_inv_def)
  have "dev_load_ok (dev_at ?s d')" if d': "int d' < m_numDevice s" for d'
  proof (cases "d' = d")
    case True
    have "take ?n (cuList (dev_at ?s d)) = map (cu_at ?s d) [0..<?n]"
      using n(2) F(5) [of d] by (intro take_map_cus) simp
    then have "cu_load_sum (dev_at ?s d) = sum_list (map (cu_totalUsedLoadUnified \<circ> cu_at ?s d) [0..<?n])"
      using F(5) [of d] by (simp add: cu_load_sum_def)
    also have "\<dots> = int (length [0..<?n]) * XRM_MAX_LOAD"
      using F(2) [of d] by (intro sum_list_const) (auto simp: whole_reserve_def)
    finally show ?thesis using F(6) [of d] True n(1) by (simp add: dev_load_ok_def)
  next
    case False
    have "cuList (dev_at ?s d') = cuList (dev_at s d')"
      using F(2) [of d'] F(5) [of d'] False by (intro nth_equalityI) (auto simp: cu_at_def)
    then have "cu_load_sum (dev_at ?s d') = cu_load_sum (dev_at s d')" using F(5) [of d'] by (simp add: cu_load_sum_def)
    with F(6) [of d'] False d' load show ?thesis by (simp add: dev_load_ok_def load_inv_def)
  qed
  then show ?thesis using F(5) by (auto simp: load_inv_def)
qed

lemma reserve_whole_pooled:
  fixes cl :: u64 and pid :: int
  assumes ps: "pooled_sys p s0 s" and d: "int d < m_numDevice s" and loaded: "dv_isLoaded (dev_at s d)"
    and idle: "\<not> isDeviceBusy (int d) s"
  defines "s' \<equiv> reserve_whole p cl pid d s"
  shows "pooled_sys p s0 s'"
    "valid_cu s d c \<Longrightarrow> cu_at s' d c = with_slot (whole_slot p cl pid) (cu_at s d c)"
proof -
  let ?n = "nat (numCu (dev_at s d))" and ?w = "whole_reserve p cl pid"
  note D = pooled_sysD [OF ps]
  have r: "cus_rel (\<lambda>d c. pooled p) s0 s" and i0: "sys_inv s0" and f0: "fresh_pool p s0"
    using ps by (auto simp: pooled_sys_def)
  note R = cus_relD [OF r] and F = reserve_whole_frame [OF D(1) d loaded, where p = p and cl = cl and pid = pid, folded s'_def]
  have vd: "valid_cu s d c' \<longleftrightarrow> c' < ?n" for c' using d by (auto simp: valid_cu_def)
  have fresh: "fresh_in p (cu_at s d c')" "cu_acct (cu_at s d c')" "cu_totalUsedLoadUnified (cu_at s d c') = 0"
    "cu_at s0 d c' = cu_at s d c'" if "c' < ?n" for c'
  proof -
    have v: "valid_cu s d c'" using that vd by simp
    show u: "cu_totalUsedLoadUnified (cu_at s d c') = 0" by (rule not_busy [OF idle v])
    show e: "cu_at s0 d c' = cu_at s d c'" by (rule idle_pooled_same [OF ps v u])
    show "fresh_in p (cu_at s d c')" "cu_acct (cu_at s d c')" using D(5) [OF v] e by auto
  qed
  show "cu_at s' d c = with_slot (whole_slot p cl pid) (cu_at s d c)" if "valid_cu s d c"
    using whole_reserve_idle(1) fresh(1-3) F(2) [of d c] that vd by simp
  have "cu_inv (?w (cu_at s d c')) \<and> cu_deviceId (?w (cu_at s d c')) = int d" if c: "c' < ?n" for c'
  proof -
    have "cu_inv (cu_at s d c')" "cu_deviceId (cu_at s d c') = int d" using valid_cu_inv [OF D(1)] c vd by auto
    moreover have "cu_acct (?w (cu_at s d c'))" using whole_reserve_idle(2) fresh(1-3) [OF c] by blast
    moreover have "clients_inv (?w (cu_at s d c')) = clients_inv (cu_at s d c')"
      by (rule clients_inv_cong) (simp_all add: whole_reserve_def)
    ultimately show ?thesis by (simp add: cu_inv_def whole_reserve_def)
  qed
  then have inv': "sys_inv s'"
    using same_cus_sys_inv [OF F(1) upd_cus_sys_inv [OF D(1) d loaded order_refl]] by blast
  have P: "pooled p (cu_at s0 d' c') (cu_at s' d' c')" if v: "valid_cu s d' c'" for d' c'
    using F(2) [of d' c'] D(4) [OF v] fresh [of c'] whole_reserve_idle(3) by (cases "d' = d \<and> c' < ?n") auto
  have "cus_rel (\<lambda>d c. pooled p) s0 s'"
    unfolding cus_rel_def
    using inv' reserve_whole_load [OF D(1) d loaded, where p = p and cl = cl and pid = pid, folded s'_def] R(2-8) F(3,5) P same_tables_trans [OF R(8) F(4)] by auto
  then show "pooled_sys p s0 s'" using i0 f0 by (simp add: pooled_sys_def)
qed

text \<open>All the compute units of one idle device that has the xclbin are reserved.\<close>

lemma resReserveCuOfXclbin_spec:
  assumes ps: "pooled_sys p s0 s" and run: "resReserveCuOfXclbin p uuid cl pid (x, s) = (ret, x', s')"
  shows "pooled_sys p s0 s'" "ret \<noteq> XRM_SUCCESS \<Longrightarrow> s' = s"
    "ret = XRM_SUCCESS \<Longrightarrow> \<exists>d. x' = of_nat d \<and> int d < m_numDevice s \<and>
       isDeviceLoadedXclbinWithUuid (int d) uuid s \<and>
       (\<forall>c. valid_cu s d c \<longrightarrow> cu_totalUsedLoadUnified (cu_at s d c) = 0 \<and>
          cu_at s' d c = with_slot (whole_slot p cl pid) (cu_at s d c))"
proof -
  let ?P = "\<lambda>d. dv_isLoaded (dev_at s d) \<and> isDeviceLoadedXclbinWithUuid (int d) uuid s \<and> \<not> isDeviceBusy (int d) s"
  have p0: "p \<noteq> 0" using pooled_sysD(6) [OF ps] .
  have all: "pooled_sys p s0 s' \<and> (ret \<noteq> XRM_SUCCESS \<longrightarrow> s' = s) \<and>
    (ret = XRM_SUCCESS \<longrightarrow> (\<exists>d. x' = of_nat d \<and> int d < m_numDevice s \<and>
       isDeviceLoadedXclbinWithUuid (int d) uuid s \<and>
       (\<forall>c. valid_cu s d c \<longrightarrow> cu_totalUsedLoadUnified (cu_at s d c) = 0 \<and>
          cu_at s' d c = with_slot (whole_slot p cl pid) (cu_at s d c))))"
  proof (cases "find ?P [0..<nat (m_numDevice s)]")
    case None
    with run p0 ps show ?thesis by (simp add: resReserveCuOfXclbin_def)
  next
    case (Some d)
    then have d: "?P d" "int d < m_numDevice s" by (auto simp: find_Some_iff)
    from run p0 Some have r: "ret = XRM_SUCCESS" "x' = of_nat d" "s' = reserve_whole p cl pid d s"
      by (auto simp: resReserveCuOfXclbin_def)
    have idle: "\<not> isDeviceBusy (int d) s" and loaded: "dv_isLoaded (dev_at s d)" using d(1) by auto
    note w = reserve_whole_pooled [OF ps d(2) loaded idle, where cl = cl and pid = pid, folded r(3)]
    have "cu_totalUsedLoadUnified (cu_at s d c) = 0 \<and> cu_at s' d c = with_slot (whole_slot p cl pid) (cu_at s d c)"
      if "valid_cu s d c" for c
      using w(2) [OF that] not_busy [OF idle that] by simp
    with w(1) r(1,2) d show ?thesis by blast
  qed
  then show "pooled_sys p s0 s'" "ret \<noteq> XRM_SUCCESS \<Longrightarrow> s' = s"
    "ret = XRM_SUCCESS \<Longrightarrow> \<exists>d. x' = of_nat d \<and> int d < m_numDevice s \<and>
       isDeviceLoadedXclbinWithUuid (int d) uuid s \<and>
       (\<forall>c. valid_cu s d c \<longrightarrow> cu_totalUsedLoadUnified (cu_at s d c) = 0 \<and>
          cu_at s' d c = with_slot (whole_slot p cl pid) (cu_at s d c))"
    by simp_all
qed

section \<open>Lists\<close>

lemma pooled_totalD: "pooled_total p s0 U s \<Longrightarrow> pooled_sys p s0 s \<and> used_total s = U"
  by (simp add: pooled_total_def)

lemma restored_total:
  assumes "restored s0 s"
  shows "used_total s = used_total s0"
proof -
  note D = cus_relD [OF assms [unfolded restored_def]]
  show ?thesis
    unfolding used_total_def by (rule sum.cong) (use D(6,9) in \<open>auto simp: cu_sites_def\<close>)
qed

lemma reserve_members_spec:
  assumes step: "\<And>q x s ret x' s' U. q \<in> set props \<Longrightarrow> pooled_total p s0 U s \<Longrightarrow>
      reserve q (x, s) = (ret, x', s') \<Longrightarrow>
      pooled_total p s0 (if ret = XRM_SUCCESS then U + pr_requestLoadUnified q else U) s'"
    and "pooled_total p s0 U s" "reserve_members reserve p props (x, s) = (ret, x', s')"
  shows "if ret = XRM_SUCCESS
    then pooled_total p s0 (U + sum_list (map pr_requestLoadUnified props)) s' else restored s0 s'"
  using assms
proof (induction props arbitrary: U x s)
  case (Cons q props)
  obtain r1 x1 s1 where 1: "reserve q (x, s) = (r1, x1, s1)" by (metis prod_cases3)
  have q: "pooled_total p s0 (if r1 = XRM_SUCCESS then U + pr_requestLoadUnified q else U) s1"
    by (rule Cons.prems(1) [OF _ Cons.prems(2) 1]) simp
  show ?case
  proof (cases "r1 = XRM_SUCCESS")
    case False
    have "pooled_sys p s0 s1" using q pooled_totalD by blast
    then have "restored s0 (snd (resRelinquishCuList p s1))" using relinquish_pooled by fastforce
    with 1 False Cons.prems(3) show ?thesis by simp
  next
    case True
    with 1 Cons.prems(3) have run: "reserve_members reserve p props (x1, s1) = (ret, x', s')" by simp
    have q1: "pooled_total p s0 (U + pr_requestLoadUnified q) s1" using q True by simp
    have "if ret = XRM_SUCCESS
      then pooled_total p s0 (U + pr_requestLoadUnified q + sum_list (map pr_requestLoadUnified props)) s'
      else restored s0 s'"
      by (rule Cons.IH [OF _ q1 run]) (rule Cons.prems(1), auto)
    moreover have "U + pr_requestLoadUnified q + sum_list (map pr_requestLoadUnified props) =
        U + sum_list (map pr_requestLoadUnified (q # props))" by simp
    ultimately show ?thesis by metis
  qed
qed simp

lemma reserve_member_on_step:
  assumes "pooled_total p s0 U s" "reserve_member_on p devId q (x, s) = (ret, x', s')"
  shows "pooled_total p s0 (if ret = XRM_SUCCESS then U + pr_requestLoadUnified q else U) s'"
proof -
  have "reserveCuFromDev p devId q s = (ret, s')"
    using assms(2) by (auto simp: reserve_member_on_def split: prod.splits)
  with reserveCuFromDev_spec(1) [of p s0 s devId q ret s'] assms(1) show ?thesis
    by (auto simp: pooled_total_def split: if_splits)
qed

text \<open>
  One device of a same-device list. A failed attempt relinquishes the pool id, so it withdraws what
  the pool held before the attempt as well.
\<close>

lemma reserve_list_try_spec:
  assumes "pooled_total p s0 U s" "reserve_list_try p props d (r, s) = (b, ret, s')"
  shows "if b then ret = XRM_SUCCESS \<and> pooled_total p s0 (U + sum_list (map pr_requestLoadUnified props)) s'
     else restored s0 s'"
proof -
  obtain ret1 x1 s1 where 1: "reserve_members (reserve_member_on p (int d)) p props ((), s) = (ret1, x1, s1)"
    by (metis prod_cases3)
  have "if ret1 = XRM_SUCCESS
    then pooled_total p s0 (U + sum_list (map pr_requestLoadUnified props)) s1 else restored s0 s1"
    by (rule reserve_members_spec [OF _ assms(1) 1]) (rule reserve_member_on_step)
  with 1 assms(2) show ?thesis by (auto simp: reserve_list_try_def split: if_splits)
qed

definition total_or :: "u64 \<Rightarrow> system \<Rightarrow> int \<Rightarrow> int \<Rightarrow> system \<Rightarrow> bool" where
  "total_or p s0 U V s \<longleftrightarrow> pooled_total p s0 U s \<or> pooled_total p s0 V s"

interpretation reserve_list: device_body "reserve_list_try p props"
    "\<lambda>_. total_or p s0 U (used_total s0)"
    "\<lambda>ret s'. ret = XRM_SUCCESS \<and> total_or p s0 (U + sum_list (map pr_requestLoadUnified props))
       (used_total s0 + sum_list (map pr_requestLoadUnified props)) s'" clientId
  for p :: u64 and props :: "cuProperty list" and s0 :: system and U :: int and clientId :: u64
proof unfold_locales
  fix s s' :: system and d :: nat and a a' :: int
  assume P: "total_or p s0 U (used_total s0) s"
  then have ps: "pooled_sys p s0 s" by (auto simp: total_or_def pooled_total_def)
  then have s0: "sys_inv s0" "fresh_pool p s0" by (auto simp: pooled_sys_def)
  show "total_or p s0 U (used_total s0) s' \<and> m_numDevice s' = m_numDevice s"
    if run: "reserve_list_try p props d (a, s) = (False, a', s')"
  proof -
    have r: "restored s0 s'"
      using P reserve_list_try_spec [OF _ run] by (auto simp: total_or_def)
    then have "pooled_sys p s0 s'" by (rule restored_pooled [OF s0])
    then show ?thesis
      using restored_total [OF r] pooled_sysD(2) ps by (auto simp: total_or_def pooled_total_def)
  qed
  show "a' = XRM_SUCCESS \<and> total_or p s0 (U + sum_list (map pr_requestLoadUnified props))
      (used_total s0 + sum_list (map pr_requestLoadUnified props)) s'"
    if run: "reserve_list_try p props d (a, s) = (True, a', s')"
    using P reserve_list_try_spec [OF _ run] by (auto simp: total_or_def)
qed

text \<open>The result code of the search is the one of the last attempt.\<close>

lemma dev_search_result:
  assumes "r \<noteq> XRM_SUCCESS" "dev_search fuel (reserve_list_try p props) prop devId (r, s) = (b, ret, s')"
  shows "b \<longleftrightarrow> ret = XRM_SUCCESS"
  using assms
proof (induction fuel arbitrary: devId r s)
  case (Suc fuel)
  let ?d = "allocDevForClient devId prop s"
  obtain b1 r1 s1 where 1: "reserve_list_try p props (nat ?d) (r, s) = (b1, r1, s1)" by (metis prod_cases3)
  have b1: "b1 \<longleftrightarrow> r1 = XRM_SUCCESS" using 1 by (auto simp: reserve_list_try_def split: prod.splits)
  show ?case
    using Suc.prems 1 b1 Suc.IH [of r1 ?d s1] by (auto simp: Let_def split: if_splits)
qed simp

lemma reserve_list_search_result:
  "search_devices (reserve_list_try p props) prop (XRM_ERROR, s) = (b, ret, s') \<Longrightarrow> b \<longleftrightarrow> ret = XRM_SUCCESS"
  unfolding search_devices_def by (erule dev_search_result [rotated]) simp

abbreviation list_load :: "cuListProperty \<Rightarrow> int" where
  "list_load lp \<equiv> sum_list (map pr_requestLoadUnified (take (nat (lp_cuNum lp)) (lp_cuProps lp)))"

lemma resReserveCuList_spec:
  assumes pt: "pooled_total p s0 U s" and run: "resReserveCuList p lp s = (ret, s')"
  shows "pooled_sys p s0 s'"
    "ret = XRM_SUCCESS \<Longrightarrow> used_total s' = U + list_load lp \<or>
       lp_sameDevice lp \<and> used_total s' = used_total s0 + list_load lp"
proof -
  let ?props = "take (nat (lp_cuNum lp)) (lp_cuProps lp)"
  have ps: "pooled_sys p s0 s" using pt by (simp add: pooled_total_def)
  then have s0: "sys_inv s0" "fresh_pool p s0" by (auto simp: pooled_sys_def)
  have "pooled_sys p s0 s' \<and> (ret = XRM_SUCCESS \<longrightarrow> used_total s' = U + list_load lp \<or>
       lp_sameDevice lp \<and> used_total s' = used_total s0 + list_load lp)"
  proof (cases "lp_cuNum lp \<le> 0 \<or> lp_cuNum lp > int XRM_MAX_LIST_CU_NUM")
    case True
    with run ps show ?thesis by (auto simp: resReserveCuList_def)
  next
    case ok: False
    show ?thesis
    proof (cases "lp_sameDevice lp")
      case True
      obtain b r1 s1 where 1: "search_devices (reserve_list_try p ?props) (?props ! 0) (XRM_ERROR, s) = (b, r1, s1)"
        by (metis prod_cases3)
      have r: "ret = r1" "s' = s1" using run 1 ok True by (auto simp: resReserveCuList_def)
      have "total_or p s0 U (used_total s0) s" using pt by (simp add: total_or_def)
      from reserve_list.search_devices_inv [OF this refl 1]
      have q: "if b then r1 = XRM_SUCCESS \<and> total_or p s0 (U + list_load lp) (used_total s0 + list_load lp) s1
        else total_or p s0 U (used_total s0) s1" .
      have "b" if "ret = XRM_SUCCESS"
        using reserve_list_search_result [OF 1] that r by simp
      with q r True show ?thesis by (auto simp: total_or_def pooled_total_def split: if_splits)
    next
      case False
      obtain r1 x1 s1 where 1: "reserve_members (resReserveCu p) p ?props (0, s) = (r1, x1, s1)"
        by (metis prod_cases3)
      have r: "ret = r1" "s' = s1" using run 1 ok False by (auto simp: resReserveCuList_def)
      have "if r1 = XRM_SUCCESS then pooled_total p s0 (U + list_load lp) s1 else restored s0 s1"
        by (rule reserve_members_spec [OF _ pt 1]) (rule resReserveCu_pooled)
      then show ?thesis
        using r restored_pooled [OF s0] by (auto simp: pooled_total_def split: if_splits)
    qed
  qed
  then show "pooled_sys p s0 s'"
    "ret = XRM_SUCCESS \<Longrightarrow> used_total s' = U + list_load lp \<or>
       lp_sameDevice lp \<and> used_total s' = used_total s0 + list_load lp" by auto
qed

section \<open>Pools\<close>

lemma repeat_ok_inv:
  assumes "R k st"
    and "\<And>j st ok st'. R j st \<Longrightarrow> f j st = (ok, st') \<Longrightarrow> if ok then R (Suc j) st' else E st'"
    and "repeat_ok n f k st = (ok, st')"
  shows "if ok then R (k + n) st' else E st'"
  using assms
proof (induction n arbitrary: k st)
  case (Suc n)
  obtain ok1 st1 where 1: "f k st = (ok1, st1)" by fastforce
  note h = Suc.prems(2) [OF Suc.prems(1) 1]
  show ?case
  proof (cases ok1)
    case True
    with 1 Suc.prems(3) have run: "repeat_ok n f (Suc k) st1 = (ok, st')" by simp
    have "if ok then R (Suc k + n) st' else E st'"
      by (rule Suc.IH [OF _ Suc.prems(2) run]) (use h True in auto)
    then show ?thesis by (simp only: add_Suc_shift)
  next
    case False
    with 1 h Suc.prems(3) show ?thesis by auto
  qed
qed auto

text \<open>
  A pool is reserved completely under its fresh id, or nothing changes. For lists over any device the
  load reserved is what was requested.
\<close>

lemma resReserveCuPool_spec:
  assumes inv: "sys_inv s" and fresh: "fresh_pool (getNextReservePoolId s) s"
    and run: "resReserveCuPool pp s = (r, s')"
  shows "r = 0 \<Longrightarrow> restored s s'"
    "r \<noteq> 0 \<Longrightarrow> r = getNextReservePoolId s \<and> (\<exists>t. s' = updateReservePoolId t \<and> pooled_sys r s t \<and>
       (pp_xclbinNum pp = 0 \<longrightarrow> \<not> lp_sameDevice (pp_cuListProp pp) \<longrightarrow>
        used_total t = used_total s + pp_cuListNum pp * list_load (pp_cuListProp pp)))"
proof -
  let ?p = "getNextReservePoolId s" and ?lp = "pp_cuListProp pp"
  let ?ok = "0 \<le> pp_cuListNum pp \<and> 0 \<le> pp_xclbinNum pp \<and> 0 \<le> lp_cuNum ?lp \<and>
    lp_cuNum ?lp \<le> int XRM_MAX_LIST_CU_NUM"
  have p0: "?p \<noteq> 0" using fresh by (simp add: fresh_pool_def)
  have ps: "pooled_sys ?p s s" by (rule pooled_sys_refl [OF inv fresh])
  have undo: "restored s (snd (resRelinquishCuPool ?p t))" if "pooled_sys ?p s t" for t
    using relinquish_pooled [OF that] by fastforce
  let ?fx = "\<lambda>(k::nat) s. case resReserveCuOfXclbin ?p (pp_xclbinUuid pp) (pp_clientId pp)
      (pp_clientProcessId pp) (0, s) of (ret, _, s') \<Rightarrow> (ret = XRM_SUCCESS, s')"
  let ?fl = "\<lambda>(k::nat) s. case resReserveCuList ?p ?lp s of (ret, s') \<Rightarrow> (ret = XRM_SUCCESS, s')"
  obtain ok1 s1 where 1: "repeat_ok (nat (pp_xclbinNum pp)) ?fx 0 s = (ok1, s1)" by fastforce
  obtain ok2 s2 where 2: "repeat_ok (nat (pp_cuListNum pp)) ?fl 0 s1 = (ok2, s2)" by fastforce
  have P1: "pooled_sys ?p s s1"
  proof -
    have "if ok1 then pooled_sys ?p s s1 else pooled_sys ?p s s1"
    proof (rule repeat_ok_inv [where R = "\<lambda>_. pooled_sys ?p s", OF ps _ 1])
      fix t ok t' and j :: nat
      assume t: "pooled_sys ?p s t" and f: "?fx j t = (ok, t')"
      then obtain ret x where "resReserveCuOfXclbin ?p (pp_xclbinUuid pp) (pp_clientId pp)
          (pp_clientProcessId pp) (0, t) = (ret, x, t')"
        by (auto split: prod.splits)
      from resReserveCuOfXclbin_spec(1) [OF t this]
      show "if ok then pooled_sys ?p s t' else pooled_sys ?p s t'" by simp
    qed
    then show ?thesis by simp
  qed
  let ?R = "\<lambda>j t. pooled_sys ?p s t \<and> (\<not> lp_sameDevice ?lp \<longrightarrow> used_total t = used_total s1 + int j * list_load ?lp)"
  have P2: "if ok2 then ?R (nat (pp_cuListNum pp)) s2 else pooled_sys ?p s s2"
  proof -
    have R0: "?R 0 s1" using P1 by simp
    have "if ok2 then ?R (0 + nat (pp_cuListNum pp)) s2 else pooled_sys ?p s s2"
    proof (rule repeat_ok_inv [where R = ?R, OF R0 _ 2])
      fix t ok t' and j :: nat
      assume t: "?R j t" and f: "?fl j t = (ok, t')"
      then obtain ret where rl: "resReserveCuList ?p ?lp t = (ret, t')" and okr: "ok = (ret = XRM_SUCCESS)"
        by (auto split: prod.splits)
      have pt: "pooled_total ?p s (used_total t) t" using t by (simp add: pooled_total_def)
      note l = resReserveCuList_spec [OF pt rl]
      show "if ok then ?R (Suc j) t' else pooled_sys ?p s t'"
      proof (cases ok)
        case True
        then show ?thesis using l t okr by (auto simp: algebra_simps)
      qed (use l in simp)
    qed
    then show ?thesis by simp
  qed
  have T1: "used_total s1 = used_total s" if "pp_xclbinNum pp = 0" using 1 that by simp
  have code: "(r, s') = (if \<not> ?ok then (0, s) else if \<not> ok1 then (0, snd (resRelinquishCuPool ?p s1))
      else if \<not> ok2 then (0, snd (resRelinquishCuPool ?p s2)) else (?p, updateReservePoolId s2))"
    using run 1 2 unfolding resReserveCuPool_def Let_def by (auto split: if_splits)
  show "restored s s'" if "r = 0"
  proof -
    have "restored s s" using inv by (simp add: restored_def cus_rel_refl)
    then show ?thesis
      using code that p0 undo [OF P1] undo [of s2] P2 by (auto split: if_splits)
  qed
  show "r = ?p \<and> (\<exists>t. s' = updateReservePoolId t \<and> pooled_sys r s t \<and>
       (pp_xclbinNum pp = 0 \<longrightarrow> \<not> lp_sameDevice ?lp \<longrightarrow>
        used_total t = used_total s + pp_cuListNum pp * list_load ?lp))" if "r \<noteq> 0"
  proof -
    from code that have c: "?ok" "ok1" "ok2" "r = ?p" "s' = updateReservePoolId s2"
      by (auto split: if_splits)
    have "?R (nat (pp_cuListNum pp)) s2" using P2 c by simp
    with c T1 show ?thesis by auto
  qed
qed

end
