(* ===== verification/Xrm_Lists_Inv.thy ===== *)
theory Xrm_Lists_Inv
  imports Xrm_Lists
begin

text \<open>
  Correctness of the allocation of lists: while a list is built the system \<open>holds\<close> one grant more
  per member allocated so far, at the place the result list names, and nothing else of the grants
  changes. So a failed list, which releases its members, leaves the grants as they were, and a
  successful one adds exactly its members.
\<close>

section \<open>Holding grants\<close>

definition owns :: "cuResource \<Rightarrow> nat \<times> nat \<times> nat \<Rightarrow> system \<Rightarrow> bool" where
  "owns cuRes = (\<lambda>(d, c, i) s. revoked cuRes d c i s)"

text \<open>The slots \<open>A\<close> of the result list \<open>rs\<close> name distinct grants of \<open>s\<close> that \<open>s0\<close> does not have.\<close>

definition holding :: "system \<Rightarrow> nat set \<Rightarrow> cuResource list \<Rightarrow> system \<Rightarrow> bool" where
  "holding s0 A rs s \<longleftrightarrow> sys_inv s \<and> (load_inv s0 \<longrightarrow> load_inv s) \<and> m_numDevice s = m_numDevice s0 \<and>
     A \<subseteq> {..<length rs} \<and>
     (\<exists>key. inj_on key A \<and> (\<forall>i\<in>A. grants s0 (key i) = None \<and> owns (rs ! i) (key i) s) \<and>
        (\<forall>k. k \<notin> key ` A \<longrightarrow> grants s k = grants s0 k))"

lemma holdingE:
  assumes "holding s0 A rs s"
  obtains key where "inj_on key A" "\<And>i. i \<in> A \<Longrightarrow> grants s0 (key i) = None \<and> owns (rs ! i) (key i) s"
    "\<And>k. k \<notin> key ` A \<Longrightarrow> grants s k = grants s0 k"
  using assms unfolding holding_def by blast

lemma holdingI:
  assumes "sys_inv s" "load_inv s0 \<Longrightarrow> load_inv s" "m_numDevice s = m_numDevice s0" "A \<subseteq> {..<length rs}"
    "inj_on key A" "\<And>i. i \<in> A \<Longrightarrow> grants s0 (key i) = None \<and> owns (rs ! i) (key i) s"
    "\<And>k. k \<notin> key ` A \<Longrightarrow> grants s k = grants s0 k"
  shows "holding s0 A rs s"
  using assms unfolding holding_def by blast

lemma holding_parts:
  assumes "holding s0 A rs s"
  shows "sys_inv s" "load_inv s0 \<Longrightarrow> load_inv s" "m_numDevice s = m_numDevice s0" "A \<subseteq> {..<length rs}"
  using assms unfolding holding_def by blast+

lemma holding_refl: "sys_inv s \<Longrightarrow> holding s {} rs s"
  by (simp add: holding_def)

lemma holding_none:
  assumes "holding s0 {} rs s"
  shows "grants s = grants s0" "sys_inv s" "load_inv s0 \<Longrightarrow> load_inv s" "m_numDevice s = m_numDevice s0"
  using assms by (auto simp: holding_def)

lemma holding_any: "holding s0 {} rs s \<Longrightarrow> holding s0 {} rs' s"
  by (auto simp: holding_def)

lemmas holding_inv = holding_parts(1,3)

lemma owns_grants: "grants s' k = grants s k \<Longrightarrow> owns r k s' = owns r k s"
  by (cases k) (simp add: owns_def revoked_def)

lemma owns_some: "owns r k s \<Longrightarrow> grants s k \<noteq> None"
  by (cases k) (auto simp: owns_def revoked_def)

lemma holding_quiet:
  assumes h: "holding s0 A rs s" and q: "quiet s s'"
  shows "holding s0 A rs s'"
proof -
  note g = quiet_inv(5) [OF q] and H = holding_parts [OF h]
  have o: "owns r k s' = owns r k s" for r k by (rule owns_grants) (simp add: g)
  obtain key where key: "inj_on key A" "\<And>i. i \<in> A \<Longrightarrow> grants s0 (key i) = None \<and> owns (rs ! i) (key i) s"
    "\<And>k. k \<notin> key ` A \<Longrightarrow> grants s k = grants s0 k"
    using h by (rule holdingE) blast
  show ?thesis
  proof (rule holdingI [OF _ _ _ H(4) key(1)])
    show "sys_inv s'" using quiet_inv(1) [OF q H(1)] .
    show "load_inv s0 \<Longrightarrow> load_inv s'" using quiet_inv(2) [OF q H(2)] .
    show "m_numDevice s' = m_numDevice s0" using quiet_inv(3) [OF q] H(3) by simp
    show "grants s0 (key i) = None \<and> owns (rs ! i) (key i) s'" if "i \<in> A" for i
      using key(2) [OF that] o by simp
    show "grants s' k = grants s0 k" if "k \<notin> key ` A" for k using key(3) [OF that] g by simp
  qed
qed

text \<open>Only the identifying fields of a result matter.\<close>

definition same_ids :: "cuResource \<Rightarrow> cuResource \<Rightarrow> bool" where
  "same_ids r r' \<longleftrightarrow> re_deviceId r' = re_deviceId r \<and> re_cuId r' = re_cuId r \<and>
     re_channelId r' = re_channelId r \<and> re_allocServiceId r' = re_allocServiceId r \<and>
     re_poolId r' = re_poolId r \<and> re_clientId r' = re_clientId r"

lemma holding_same_ids:
  assumes h: "holding s0 A rs s" and len: "length rs' = length rs"
    and ids: "\<And>i. i \<in> A \<Longrightarrow> same_ids (rs ! i) (rs' ! i)"
  shows "holding s0 A rs' s"
proof -
  have "owns (rs' ! i) k s = owns (rs ! i) k s" if "i \<in> A" for i k
    using ids [OF that] by (cases k) (simp add: owns_def revoked_def same_ids_def release_matches_def)
  note o = this and H = holding_parts [OF h]
  obtain key where key: "inj_on key A" "\<And>i. i \<in> A \<Longrightarrow> grants s0 (key i) = None \<and> owns (rs ! i) (key i) s"
    "\<And>k. k \<notin> key ` A \<Longrightarrow> grants s k = grants s0 k"
    using h by (rule holdingE) blast
  show ?thesis
    by (rule holdingI [OF H(1,2,3) _ key(1)]) (use H(4) len key o in simp_all)
qed

lemma holding_move:
  assumes h: "holding s0 A rs s" and bij: "inj_on f A" and len: "f ` A \<subseteq> {..<length rs'}"
    and ids: "\<And>i. i \<in> A \<Longrightarrow> same_ids (rs ! i) (rs' ! f i)"
  shows "holding s0 (f ` A) rs' s"
proof -
  obtain key where key: "inj_on key A" "\<And>i. i \<in> A \<Longrightarrow> grants s0 (key i) = None \<and> owns (rs ! i) (key i) s"
    "\<And>k. k \<notin> key ` A \<Longrightarrow> grants s k = grants s0 k"
    using h by (rule holdingE) blast
  note H = holding_parts [OF h]
  let ?key = "key \<circ> inv_into A f"
  have k: "?key (f i) = key i" if "i \<in> A" for i using bij that by simp
  have "inj_on ?key (f ` A)" using key(1) k by (auto simp: inj_on_def)
  moreover have "?key ` (f ` A) = key ` A" using k by force
  moreover have "owns (rs' ! f i) x s = owns (rs ! i) x s" if "i \<in> A" for i x
    using ids [OF that] by (cases x) (simp add: owns_def revoked_def same_ids_def release_matches_def)
  then have "grants s0 (?key j) = None \<and> owns (rs' ! j) (?key j) s" if "j \<in> f ` A" for j
    using key(2) k that by (metis imageE)
  ultimately show ?thesis
    by (intro holdingI [where key = ?key, OF H(1,2,3) len]) (use key(3) in simp_all)
qed

text \<open>An allocation into a free slot.\<close>

lemma alloc_done_owns:
  assumes inv: "sys_inv s" and a: "alloc_done prop s r s'"
  shows "\<exists>k. grants s k = None \<and> owns r k s' \<and> (\<forall>k'. k' \<noteq> k \<longrightarrow> grants s' k' = grants s k')"
proof -
  obtain d c i where g: "grant_step prop d c i s s'" and f: "filled prop i (getNextAllocServiceId s) r"
    and l: "located d c r"
    using a by (auto simp: alloc_done_def alloc_on_def)
  note gs = grant_step_grants [OF inv g]
  have v: "valid_cu s d c" and i: "i < XRM_MAX_KERNEL_CHANNELS"
    using g by (auto simp: grant_step_def cu_step_def)
  have "chans_inv (cu_at s d c)" using valid_cu_inv [OF inv v] by (simp add: cu_inv_def cu_acct_def)
  then have "ch_channelId (chan_at s d c i) = int i"
    using i by (simp add: chans_inv_def chan_at_def)
  then have "owns r (d, c, i) s'"
    using f l gs(2) by (simp add: owns_def revoked_def filled_def located_def release_matches_def fill_channel_def)
  with gs show ?thesis by (intro exI[of _ "(d, c, i)"]) auto
qed

lemma holding_take:
  assumes h: "holding s0 A rs s" and i: "i \<notin> A" "i < length rs" and a: "alloc_done prop s r s'"
  shows "holding s0 (insert i A) (rs[i := r]) s'"
proof -
  note inv = holding_inv(1) [OF h]
  obtain k where k: "grants s k = None" "owns r k s'" "\<And>k'. k' \<noteq> k \<Longrightarrow> grants s' k' = grants s k'"
    using alloc_done_owns [OF inv a] by blast
  obtain key where key: "inj_on key A" "\<And>i. i \<in> A \<Longrightarrow> grants s0 (key i) = None \<and> owns (rs ! i) (key i) s"
    "\<And>k. k \<notin> key ` A \<Longrightarrow> grants s k = grants s0 k"
    using h by (rule holdingE) blast
  note H = holding_parts [OF h]
  have kA: "k \<notin> key ` A" using key(2) owns_some k(1) by blast
  obtain d c where ad: "alloc_on prop d c s r s'" using a by (auto simp: alloc_done_def)
  note st = alloc_on_inv [OF inv ad]
  let ?key = "key(i := k)"
  have img: "?key ` insert i A = insert k (key ` A)" using i(1) by auto
  have "inj_on ?key (insert i A)" using key(1) kA i(1) by (auto simp: inj_on_def)
  moreover have "grants s0 (?key j) = None \<and> owns (rs[i := r] ! j) (?key j) s'" if "j \<in> insert i A" for j
  proof (cases "j = i")
    case True
    with k(1,2) key(3) [OF kA] i show ?thesis by simp
  next
    case False
    then have j: "j \<in> A" "key j \<noteq> k" using that kA by auto
    have "owns (rs ! j) (key j) s' = owns (rs ! j) (key j) s" by (rule owns_grants) (rule k(3) [OF j(2)])
    with key(2) [OF j(1)] False show ?thesis by simp
  qed
  moreover have "grants s' x = grants s0 x" if "x \<notin> ?key ` insert i A" for x
    using that key(3) [of x] k(3) [of x] unfolding img by simp
  moreover have "insert i A \<subseteq> {..<length (rs[i := r])}" using H(4) i(2) by simp
  ultimately show ?thesis
    using st H(2,3) by (intro holdingI [where key = ?key]) simp_all
qed

text \<open>A release of a held slot.\<close>

lemma holding_release:
  assumes h: "holding s0 A rs s" and i: "i \<in> A" and run: "resReleaseCu (rs ! i) s = (ret, s')"
  shows "ret = XRM_SUCCESS" "holding s0 (A - {i}) rs s'"
proof -
  note inv = holding_inv(1) [OF h]
  obtain key where key: "inj_on key A" "\<And>i. i \<in> A \<Longrightarrow> grants s0 (key i) = None \<and> owns (rs ! i) (key i) s"
    "\<And>k. k \<notin> key ` A \<Longrightarrow> grants s k = grants s0 k"
    using h by (rule holdingE) blast
  note H = holding_parts [OF h]
  obtain d c k where dk: "key i = (d, c, k)" by (metis prod_cases3)
  have r: "revoked (rs ! i) d c k s" using key(2) [OF i] dk by (simp add: owns_def)
  note s = resReleaseCu_success [OF inv r run]
  show "ret = XRM_SUCCESS" by (rule s(1))
  note g = revoke_step_grants [OF inv s(2)]
  have sub: "key ` (A - {i}) = key ` A - {key i}"
    using key(1) i by (auto simp: inj_on_def)
  have "owns (rs ! j) (key j) s'" if "j \<in> A - {i}" for j
  proof -
    have "key j \<noteq> (d, c, k)" using that key(1) i dk by (auto simp: inj_on_def)
    then have "owns (rs ! j) (key j) s' = owns (rs ! j) (key j) s" by (intro owns_grants) (simp add: g)
    then show ?thesis using key(2) [of j] that by simp
  qed
  moreover have "grants s' x = grants s0 x" if "x \<notin> key ` (A - {i})" for x
    using that key(2) [OF i] key(3) [of x] g unfolding sub dk [symmetric] by (cases "x = key i") auto
  moreover have "inj_on key (A - {i})" using key(1) by (rule inj_on_subset) auto
  moreover have "A - {i} \<subseteq> {..<length rs}" using H(4) by blast
  ultimately show "holding s0 (A - {i}) rs s'"
    using revoke_step_inv(1,2) [OF inv s(2)] revoke_step_inv(3) [OF s(2)] key(2) H(2,3)
    by (intro holdingI [where key = key]) simp_all
qed

lemma holding_release_all:
  assumes "holding s0 {a..<n} rs s" "n \<le> length rs" "a \<le> n"
    and "release_all resReleaseCu (drop a (take n rs)) s = (ret, s')"
  shows "ret = XRM_SUCCESS \<and> holding s0 {} rs s'"
  using assms
proof (induction "n - a" arbitrary: a s)
  case 0
  then show ?case by simp
next
  case (Suc m)
  then have a: "a < n" by simp
  have dr: "drop a (take n rs) = rs ! a # drop (Suc a) (take n rs)"
    using a Suc.prems(2) by (simp add: Cons_nth_drop_Suc [symmetric])
  obtain r1 s1 where 1: "resReleaseCu (rs ! a) s = (r1, s1)" by fastforce
  have "a \<in> {a..<n}" using a by simp
  note h = holding_release [OF Suc.prems(1) this 1]
  have "{a..<n} - {a} = {Suc a..<n}" by auto
  with h have h1: "holding s0 {Suc a..<n} rs s1" by simp
  have "release_all resReleaseCu (drop (Suc a) (take n rs)) s1 = (ret, s')"
    using Suc.prems(4) 1 h(1) unfolding dr by simp
  with Suc.hyps(1) [of "Suc a" s1] h1 Suc.hyps(2) Suc.prems(2) a show ?case by simp
qed

section \<open>Lists\<close>

definition allocates :: "(cuProperty \<Rightarrow> cuResource \<times> system \<Rightarrow> int \<times> cuResource \<times> system) \<Rightarrow> bool" where
  "allocates alloc \<longleftrightarrow> (\<forall>prop cuRes s ret cuRes' s'. sys_inv s \<longrightarrow> prop_ok prop \<longrightarrow>
     alloc prop (cuRes, s) = (ret, cuRes', s') \<longrightarrow>
     (if ret = XRM_SUCCESS then alloc_done prop s cuRes' s' else quiet s s'))"

lemma allocatesD:
  "allocates alloc \<Longrightarrow> sys_inv s \<Longrightarrow> prop_ok prop \<Longrightarrow> alloc prop (cuRes, s) = (ret, cuRes', s') \<Longrightarrow>
   if ret = XRM_SUCCESS then alloc_done prop s cuRes' s' else quiet s s'"
  unfolding allocates_def by blast

lemma resAllocCu_allocates: "allocates (\<lambda>p. resAllocCu p False)"
  unfolding allocates_def
proof (intro allI impI)
  fix "prop" cuRes s ret cuRes' s'
  assume "sys_inv s" "prop_ok prop" "resAllocCu prop False (cuRes, s) = (ret, cuRes', s')"
  from resAllocCu_spec [OF this]
  show "if ret = XRM_SUCCESS then alloc_done prop s cuRes' s' else quiet s s'"
    by (auto simp: alloc_result_def split: if_splits)
qed

lemma resAllocCuFromDev_allocates: "allocates (\<lambda>p. resAllocCuFromDev d p False)"
  unfolding allocates_def
proof (intro allI impI)
  fix "prop" cuRes s ret cuRes' s'
  assume "sys_inv s" "prop_ok prop" "resAllocCuFromDev d prop False (cuRes, s) = (ret, cuRes', s')"
  from resAllocCuFromDev_spec(1) [OF this]
  show "if ret = XRM_SUCCESS then alloc_done prop s cuRes' s' else quiet s s'"
    by (auto simp: alloc_result_def split: if_splits)
qed

lemma alloc_member_on_allocates: "allocates (alloc_member_on devId)"
  unfolding allocates_def
proof (intro allI impI)
  fix "prop" cuRes s ret cuRes' s'
  assume inv: "sys_inv s" and ok: "prop_ok prop" and run: "alloc_member_on devId prop (cuRes, s) = (ret, cuRes', s')"
  obtain r1 s1 where 1: "allocClientFromDev devId prop s = (r1, s1)" by fastforce
  obtain r2 c2 s2 where 2: "allocCuFromDev devId prop (cuRes, s1) = (r2, c2, s2)" by (metis prod_cases3)
  have q: "quiet s s1" by (rule quiet_alloc_client [OF inv 1])
  note spec = allocCuFromDev_spec(1) [OF quiet_inv(1) [OF q inv] ok 2]
  have q3: "quiet s2 (snd (releaseClientOnDev devId (pr_clientId prop) s2))" by (rule quiet_release_client)
  show "if ret = XRM_SUCCESS then alloc_done prop s cuRes' s' else quiet s s'"
  proof (cases "r1 = XRM_SUCCESS \<and> r2 = XRM_SUCCESS")
    case True
    then have "alloc_done prop s1 c2 s2" using spec by (auto simp: alloc_done_def)
    then have "alloc_done prop s c2 s2" by (rule alloc_done_after [OF q])
    with True 1 2 run show ?thesis by (auto simp: alloc_member_on_def)
  next
    case False
    have "quiet s (snd (releaseClientOnDev devId (pr_clientId prop) s1))"
      using quiet_trans [OF q quiet_release_client] .
    with False 1 2 run spec q show ?thesis by (auto simp: alloc_member_on_def split: if_splits)
  qed
qed

text \<open>A release that gives the first members of a list back.\<close>

definition gives_back :: "nat \<Rightarrow> (cuListResource \<Rightarrow> system \<Rightarrow> int \<times> system) \<Rightarrow> bool" where
  "gives_back m release \<longleftrightarrow> (\<forall>lr n s0 s. holding s0 {..<n} (lr_cuResources lr) s \<longrightarrow> n \<le> m \<longrightarrow>
     n \<le> length (lr_cuResources lr) \<longrightarrow> lr_cuNum lr = int n \<longrightarrow> holding s0 {} [] (snd (release lr s)))"

lemma release_take:
  assumes "holding s0 {..<n} rs s" "n \<le> length rs"
  shows "holding s0 {} [] (snd (release_all resReleaseCu (take n rs) s))"
proof -
  obtain ret s' where r: "release_all resReleaseCu (drop 0 (take n rs)) s = (ret, s')" by fastforce
  have "holding s0 {0..<n} rs s" using assms(1) by (simp add: lessThan_atLeast0)
  from holding_release_all [OF this assms(2) _ r] r holding_any show ?thesis by auto
qed

lemma resReleaseCuList_gives_back: "gives_back XRM_MAX_LIST_CU_NUM resReleaseCuList"
  unfolding gives_back_def
proof (intro allI impI)
  fix lr :: cuListResource and n s0 s
  assume h: "holding s0 {..<n} (lr_cuResources lr) s" "n \<le> XRM_MAX_LIST_CU_NUM"
    "n \<le> length (lr_cuResources lr)" "lr_cuNum lr = int n"
  show "holding s0 {} [] (snd (resReleaseCuList lr s))"
  proof (cases "n = 0")
    case True
    with h holding_any show ?thesis by (auto simp: resReleaseCuList_def)
  next
    case False
    with h release_take [OF h(1,3)] show ?thesis by (simp add: resReleaseCuList_def)
  qed
qed

lemma resReleaseCuV2_same: "resReleaseCuV2 = resReleaseCu"
  by (intro ext) (simp add: resReleaseCuV2_def)

lemma resReleaseCuSubList_gives_back: "gives_back XRM_MAX_LIST_CU_NUM_V2 resReleaseCuSubList"
  unfolding gives_back_def
proof (intro allI impI)
  fix lr :: cuListResource and n s0 s
  assume h: "holding s0 {..<n} (lr_cuResources lr) s" "n \<le> XRM_MAX_LIST_CU_NUM_V2"
    "n \<le> length (lr_cuResources lr)" "lr_cuNum lr = int n"
  show "holding s0 {} [] (snd (resReleaseCuSubList lr s))"
  proof (cases "n = 0")
    case True
    with h holding_any show ?thesis by (auto simp: resReleaseCuSubList_def)
  next
    case False
    with h release_take [OF h(1,3)] show ?thesis by (simp add: resReleaseCuSubList_def resReleaseCuV2_same)
  qed
qed

text \<open>The loop over the members: all of them, or none.\<close>

lemma alloc_members_spec:
  assumes al: "allocates alloc" and gb: "gives_back m release"
    and ok: "\<forall>p\<in>set props. prop_ok p"
    and h: "holding s0 {..<i} (lr_cuResources lr) s"
    and room: "i + length props \<le> m" "m \<le> length (lr_cuResources lr)" and num: "lr_cuNum lr = int i"
    and run: "alloc_members alloc release n props i (lr, s) = (ret, lr', s')"
  shows "if ret = XRM_SUCCESS
    then holding s0 {..<i + length props} (lr_cuResources lr') s' \<and> lr_cuNum lr' = int (i + length props) \<and>
      length (lr_cuResources lr') = length (lr_cuResources lr)
    else holding s0 {} [] s' \<and> lr' = cuListResource0 n"
  using ok h room num run
proof (induction props arbitrary: i lr s)
  case (Cons p props)
  obtain r1 c1 s1 where 1: "alloc p (lr_cuResources lr ! i, s) = (r1, c1, s1)" by (metis prod_cases3)
  have pok: "prop_ok p" and pok': "\<forall>p\<in>set props. prop_ok p" using Cons.prems(1) by auto
  note a = allocatesD [OF al holding_inv(1) [OF Cons.prems(2)] pok 1]
  let ?lr1 = "lr\<lparr>lr_cuResources := (lr_cuResources lr)[i := c1]\<rparr>"
  have i: "i < length (lr_cuResources lr)" using Cons.prems(3,4) by simp
  show ?case
  proof (cases "r1 = XRM_SUCCESS")
    case False
    then have "quiet s s1" using a by simp
    then have "holding s0 {..<i} (lr_cuResources lr) s1" by (rule holding_quiet [OF Cons.prems(2)])
    then have "holding s0 {..<i} (lr_cuResources ?lr1) s1"
      by (rule holding_same_ids) (simp_all add: same_ids_def)
    then have "holding s0 {} [] (snd (release ?lr1 s1))"
      using gb Cons.prems(3-5) i unfolding gives_back_def by auto
    with 1 False Cons.prems(6) show ?thesis by (auto simp: Let_def)
  next
    case True
    then have "alloc_done p s c1 s1" using a by simp
    then have "holding s0 (insert i {..<i}) ((lr_cuResources lr)[i := c1]) s1"
      by (intro holding_take [OF Cons.prems(2) _ i]) simp
    then have h1: "holding s0 {..<Suc i} (lr_cuResources (?lr1\<lparr>lr_cuNum := lr_cuNum ?lr1 + 1\<rparr>)) s1"
      by (simp add: lessThan_Suc)
    have run1: "alloc_members alloc release n props (Suc i) (?lr1\<lparr>lr_cuNum := lr_cuNum ?lr1 + 1\<rparr>, s1) = (ret, lr', s')"
      using Cons.prems(6) 1 True by (simp add: Let_def)
    have "Suc i + length props \<le> m" "m \<le> length (lr_cuResources (?lr1\<lparr>lr_cuNum := lr_cuNum ?lr1 + 1\<rparr>))"
      "lr_cuNum (?lr1\<lparr>lr_cuNum := lr_cuNum ?lr1 + 1\<rparr>) = int (Suc i)" using Cons.prems(3-5) by simp_all
    from Cons.IH [OF pok' h1 this run1] show ?thesis by (simp split: if_splits)
  qed
qed simp

definition list_ready :: "nat \<Rightarrow> cuProperty list \<Rightarrow> system \<Rightarrow> cuListResource \<Rightarrow> system \<Rightarrow> bool" where
  "list_ready n props s0 lr s \<longleftrightarrow> (\<forall>p\<in>set props. prop_ok p) \<and> length props \<le> n \<and> holding s0 {} [] s \<and>
     lr_cuNum lr = 0 \<and> length (lr_cuResources lr) = n"

definition list_held :: "nat \<Rightarrow> cuProperty list \<Rightarrow> system \<Rightarrow> cuListResource \<Rightarrow> system \<Rightarrow> bool" where
  "list_held n props s0 lr s \<longleftrightarrow> holding s0 {..<length props} (lr_cuResources lr) s \<and>
     lr_cuNum lr = int (length props) \<and> length (lr_cuResources lr) = n"

lemma members_ready:
  assumes "allocates alloc" "gives_back n release" "list_ready n props s0 lr s"
    "alloc_members alloc release n props 0 (lr, s) = (ret, lr', s')"
  shows "if ret = XRM_SUCCESS then list_held n props s0 lr' s' else list_ready n props s0 lr' s'"
proof -
  have r: "\<forall>p\<in>set props. prop_ok p" "0 + length props \<le> n" "n \<le> length (lr_cuResources lr)"
    "holding s0 {..<0} (lr_cuResources lr) s" "lr_cuNum lr = int 0" "length (lr_cuResources lr) = n"
    using assms(3) holding_any by (auto simp: list_ready_def)
  from alloc_members_spec [OF assms(1,2) r(1,4,2,3,5) assms(4)] r
  show ?thesis by (auto simp: list_held_def list_ready_def cuListResource0_def split: if_splits)
qed

interpretation alloc_list: device_body "alloc_list_try props" "list_ready XRM_MAX_LIST_CU_NUM props s0"
    "list_held XRM_MAX_LIST_CU_NUM props s0" clientId
  for props :: "cuProperty list" and s0 :: system and clientId :: u64
proof unfold_locales
  fix s s' :: system and d :: nat and a a' :: cuListResource
  assume P: "list_ready XRM_MAX_LIST_CU_NUM props s0 a s"
  have keep: "if b then list_held XRM_MAX_LIST_CU_NUM props s0 a' s' else list_ready XRM_MAX_LIST_CU_NUM props s0 a' s'"
    if run: "alloc_list_try props d (a, s) = (b, a', s')" for b
  proof -
    obtain ret lr' t where r: "alloc_members (alloc_member_on (int d)) resReleaseCuList XRM_MAX_LIST_CU_NUM
        props 0 (a, s) = (ret, lr', t)" by (metis prod_cases3)
    from members_ready [OF alloc_member_on_allocates resReleaseCuList_gives_back P r] r run
    show ?thesis by (auto simp: alloc_list_try_def split: if_splits)
  qed
  show "list_ready XRM_MAX_LIST_CU_NUM props s0 a' s' \<and> m_numDevice s' = m_numDevice s"
    if "alloc_list_try props d (a, s) = (False, a', s')"
    using keep [OF that] P by (auto simp: list_ready_def dest!: holding_parts(3))
  show "list_held XRM_MAX_LIST_CU_NUM props s0 a' s'"
    if "alloc_list_try props d (a, s) = (True, a', s')"
    using keep [OF that] by simp
qed

text \<open>The grants a successful list adds.\<close>

definition adds_grants :: "nat \<Rightarrow> system \<Rightarrow> system \<Rightarrow> bool" where
  "adds_grants n s s' \<longleftrightarrow> grants s \<subseteq>\<^sub>m grants s' \<and> card (dom (grants s') - dom (grants s)) = n"

lemma holding_adds:
  assumes "holding s0 A rs s" "finite A"
  shows "adds_grants (card A) s0 s"
proof -
  obtain key where key: "inj_on key A" "\<And>i. i \<in> A \<Longrightarrow> grants s0 (key i) = None \<and> owns (rs ! i) (key i) s"
    "\<And>k. k \<notin> key ` A \<Longrightarrow> grants s k = grants s0 k"
    using assms(1) by (rule holdingE) blast
  have "grants s0 \<subseteq>\<^sub>m grants s"
    unfolding map_le_def using key(2,3) by (metis domIff imageE)
  moreover have "dom (grants s) - dom (grants s0) = key ` A"
  proof
    show "dom (grants s) - dom (grants s0) \<subseteq> key ` A" using key(3) by (auto simp: domIff)
    show "key ` A \<subseteq> dom (grants s) - dom (grants s0)"
    proof (rule image_subsetI)
      fix i assume "i \<in> A"
      then have "grants s0 (key i) = None" "grants s (key i) \<noteq> None" using key(2) owns_some by blast+
      then show "key i \<in> dom (grants s) - dom (grants s0)" by (simp add: domIff)
    qed
  qed
  ultimately show ?thesis using key(1) by (simp add: adds_grants_def card_image)
qed

lemma updateAllocServiceId_grants [simp]:
  "grants (updateAllocServiceId s) = grants s" "sys_inv (updateAllocServiceId s) = sys_inv s"
  "load_inv (updateAllocServiceId s) = load_inv s"
proof -
  have "dev_at (updateAllocServiceId s) d = dev_at s d" "cu_at (updateAllocServiceId s) d c = cu_at s d c" for d c
    by (simp_all add: dev_at_def cu_at_def)
  then show "grants (updateAllocServiceId s) = grants s" "sys_inv (updateAllocServiceId s) = sys_inv s"
    "load_inv (updateAllocServiceId s) = load_inv s"
    by (auto simp: grants_def valid_cu_def chan_at_def sys_inv_def load_inv_def fun_eq_iff)
qed

text \<open>A list is allocated completely, with a grant per member, or no grant changes.\<close>

definition list_ok :: "cuListProperty \<Rightarrow> bool" where
  "list_ok lp \<longleftrightarrow> length (lp_cuProps lp) = XRM_MAX_LIST_CU_NUM \<and>
     (\<forall>i<nat (lp_cuNum lp). i < length (lp_cuProps lp) \<longrightarrow> prop_ok (lp_cuProps lp ! i))"

text \<open>What the list operation leaves: every slot of the result holds a grant, or nothing is held.\<close>

lemma resAllocCuList_outcome:
  assumes inv: "sys_inv s" and ok: "list_ok lp" and len: "length (lr_cuResources lr) = XRM_MAX_LIST_CU_NUM"
    and run: "resAllocCuList lp (lr, s) = (ret, lr', s')"
  shows "if ret = XRM_SUCCESS
    then \<exists>t. holding s {..<nat (lp_cuNum lp)} (lr_cuResources lr') t \<and> lr_cuNum lr' = lp_cuNum lp \<and>
      length (lr_cuResources lr') = XRM_MAX_LIST_CU_NUM \<and> 0 < lp_cuNum lp \<and>
      lp_cuNum lp \<le> int XRM_MAX_LIST_CU_NUM \<and> s' = updateAllocServiceId t
    else holding s {} [] s'"
proof -
  let ?props = "take (nat (lp_cuNum lp)) (lp_cuProps lp)" and ?n = XRM_MAX_LIST_CU_NUM
  let ?lr = "lr\<lparr>lr_cuNum := 0\<rparr>"
  show ?thesis
  proof (cases "lp_cuNum lp \<le> 0 \<or> lp_cuNum lp > int ?n")
    case True
    with run holding_refl [OF inv] show ?thesis by (auto simp: resAllocCuList_def)
  next
    case False
    then have n: "0 < lp_cuNum lp" "nat (lp_cuNum lp) \<le> ?n" by auto
    have lp: "length ?props = nat (lp_cuNum lp)" using n ok by (auto simp: list_ok_def)
    have ready: "list_ready ?n ?props s ?lr s"
      using ok n lp len holding_refl [OF inv] by (auto simp: list_ready_def list_ok_def in_set_conv_nth)
    have held: ?thesis if h: "list_held ?n ?props s l t" and r: "ret = XRM_SUCCESS" "lr' = l" "s' = updateAllocServiceId t" for l t
      using h r lp n by (intro if_P [THEN iffD2]) (auto simp: list_held_def)
    have unheld: ?thesis if h: "list_ready ?n ?props s l t" and r: "ret \<noteq> XRM_SUCCESS" "s' = t" for l t
      using h r by (simp add: list_ready_def)
    show ?thesis
    proof (cases "lp_sameDevice lp")
      case True
      obtain b l t where r: "search_devices (alloc_list_try ?props) (?props ! 0) (?lr, s) = (b, l, t)"
        by (metis prod_cases3)
      note q = alloc_list.search_devices_inv [OF ready refl r]
      have e: "(ret, lr', s') = (if b then (XRM_SUCCESS, l, updateAllocServiceId t) else (XRM_ERROR_NO_KERNEL, l, t))"
        using run False True r by (simp add: resAllocCuList_def Let_def)
      show ?thesis
      proof (cases b)
        case b: True
        show ?thesis by (rule held [of l t]) (use q e b in simp_all)
      next
        case b: False
        show ?thesis by (rule unheld [of l t]) (use q e b in simp_all)
      qed
    next
      case nd: False
      obtain r1 l t where r: "alloc_members (\<lambda>p. resAllocCu p False) resReleaseCuList ?n ?props 0 (?lr, s) = (r1, l, t)"
        by (metis prod_cases3)
      note q = members_ready [OF resAllocCu_allocates resReleaseCuList_gives_back ready r]
      have e: "(ret, lr', s') = (if r1 = XRM_SUCCESS then (XRM_SUCCESS, l, updateAllocServiceId t)
          else (XRM_ERROR_NO_KERNEL, l, t))"
        using run False nd r by (cases "r1 = XRM_SUCCESS") (simp_all add: resAllocCuList_def Let_def)
      show ?thesis
      proof (cases "r1 = XRM_SUCCESS")
        case b: True
        show ?thesis by (rule held [of l t]) (use q e b in simp_all)
      next
        case b: False
        show ?thesis by (rule unheld [of l t]) (use q e b in simp_all)
      qed
    qed
  qed
qed

lemma holding_update_id: "holding s0 A rs (updateAllocServiceId s) = holding s0 A rs s"
  by (simp add: holding_def owns_def revoked_def split: prod.splits)

lemma resAllocCuList_spec:
  assumes "sys_inv s" "list_ok lp" "length (lr_cuResources lr) = XRM_MAX_LIST_CU_NUM"
    and "resAllocCuList lp (lr, s) = (ret, lr', s')"
  shows "sys_inv s'" "load_inv s \<Longrightarrow> load_inv s'"
    "if ret = XRM_SUCCESS then adds_grants (nat (lp_cuNum lp)) s s' \<and> lr_cuNum lr' = lp_cuNum lp
     else grants s' = grants s"
proof -
  note out = resAllocCuList_outcome [OF assms]
  have h: "holding s {..<nat (lp_cuNum lp)} (lr_cuResources lr') s' \<and> lr_cuNum lr' = lp_cuNum lp"
    if "ret = XRM_SUCCESS" using out that by (auto simp: holding_update_id)
  have n: "holding s {} [] s'" if "ret \<noteq> XRM_SUCCESS" using out that by simp
  show "sys_inv s'" "load_inv s \<Longrightarrow> load_inv s'"
    "if ret = XRM_SUCCESS then adds_grants (nat (lp_cuNum lp)) s s' \<and> lr_cuNum lr' = lp_cuNum lp
     else grants s' = grants s"
    using h n holding_parts(1,2) holding_none holding_adds [of s "{..<nat (lp_cuNum lp)}"]
    by (cases "ret = XRM_SUCCESS"; auto)+
qed

text \<open>The list release gives a complete result back.\<close>

lemma resAllocCuList_release:
  assumes "sys_inv s" "list_ok lp" "length (lr_cuResources lr) = XRM_MAX_LIST_CU_NUM"
    and "resAllocCuList lp (lr, s) = (XRM_SUCCESS, lr', s1)" "resReleaseCuList lr' s1 = (ret, s2)"
  shows "ret = XRM_SUCCESS" "holding s {} [] s2"
proof -
  let ?n = "nat (lp_cuNum lp)"
  have h: "holding s {..<?n} (lr_cuResources lr') s1" "lr_cuNum lr' = lp_cuNum lp" "0 < lp_cuNum lp"
    "lp_cuNum lp \<le> int XRM_MAX_LIST_CU_NUM" "length (lr_cuResources lr') = XRM_MAX_LIST_CU_NUM"
    using resAllocCuList_outcome [OF assms(1-4)] by (auto simp: holding_update_id)
  have n: "?n \<le> length (lr_cuResources lr')" using h by linarith
  have run: "release_all resReleaseCu (drop 0 (take ?n (lr_cuResources lr'))) s1 = (ret, s2)"
    using assms(5) h by (simp add: resReleaseCuList_def)
  have "holding s {0..<?n} (lr_cuResources lr') s1" using h(1) by (simp add: lessThan_atLeast0)
  from holding_release_all [OF this n _ run]
  show "ret = XRM_SUCCESS" "holding s {} [] s2" using holding_any by auto
qed

end
