(* ===== verification/Xrm_Effects.thy ===== *)
theory Xrm_Effects
  imports Xrm_Pool_Inv Xrm_Lists_Inv
begin

text \<open>
  The operations of different components one after the other: a release undoes the allocation whose
  result it is given, for single compute units and for lists, and relinquishing a pool undoes its
  reservation.
\<close>

lemma alloc_result_cases:
  assumes "alloc_result prop updateId s ret cuRes s'" "ret = XRM_SUCCESS"
  obtains t where "alloc_done prop s cuRes t" "s' = (if updateId then updateAllocServiceId t else t)"
  using assms by (auto simp: alloc_result_def)

lemma update_ids_eqs [simp]:
  "revoked r d c i (updateAllocServiceId s) = revoked r d c i s"
  "chan_at (updateAllocServiceId s) d c i = chan_at s d c i"
  by (auto simp: revoked_def chan_at_def)

lemma alloc_result_grants:
  assumes inv: "sys_inv s" and r: "alloc_result prop updateId s ret cuRes s'"
  shows "if ret = XRM_SUCCESS
    then \<exists>d c i. cu_matches prop (cu_at s d c) \<and> grants s (d, c, i) = None \<and>
      grants s' = (grants s)((d, c, i) \<mapsto> fill_channel prop (getNextAllocServiceId s) (chan_at s d c i)) \<and>
      revoked cuRes d c i s'
    else grants s' = grants s \<and> (\<forall>d c. cu_at s' d c = cu_at s d c)"
proof (cases "ret = XRM_SUCCESS")
  case False
  with r quiet_inv(4,5) [of s s'] show ?thesis by (auto simp: alloc_result_def)
next
  case True
  from r True obtain t where t: "alloc_done prop s cuRes t"
    "s' = (if updateId then updateAllocServiceId t else t)" by (rule alloc_result_cases)
  then obtain d c i where g: "grant_step prop d c i s t" and f: "filled prop i (getNextAllocServiceId s) cuRes"
    and l: "located d c cuRes" and m: "cu_matches prop (cu_at s d c)"
    by (auto simp: alloc_done_def alloc_on_def)
  note gs = grant_step_grants [OF inv g]
  have v: "valid_cu s d c" and i: "i < XRM_MAX_KERNEL_CHANNELS"
    using g by (auto simp: grant_step_def cu_step_def)
  have "ch_channelId (chan_at s d c i) = int i"
    using valid_cu_inv [OF inv v] i by (simp add: cu_inv_def cu_acct_def chans_inv_def chan_at_def)
  then have "revoked cuRes d c i t"
    using f l gs(2) by (simp add: revoked_def filled_def located_def release_matches_def fill_channel_def)
  then show ?thesis using True m gs t(2) by (intro if_P [THEN iffD2]) (auto split: if_splits)
qed

lemma alloc_result_release:
  assumes inv: "sys_inv s" and r: "alloc_result prop updateId s XRM_SUCCESS cuRes s1"
    and run: "resReleaseCu cuRes s1 = (ret, s2)"
  shows "ret = XRM_SUCCESS" "grants s2 = grants s" "sys_inv s2" "load_inv s \<Longrightarrow> load_inv s2"
proof -
  note i1 = alloc_result_inv [OF inv r]
  obtain d c i ch where g: "grants s (d, c, i) = None" "grants s1 = (grants s)((d, c, i) \<mapsto> ch)"
    "revoked cuRes d c i s1"
    using alloc_result_grants [OF inv r] by auto
  note rel = resReleaseCu_success [OF i1(1) g(3) run]
  show "ret = XRM_SUCCESS" by (rule rel(1))
  show "grants s2 = grants s"
    using revoke_step_grants [OF i1(1) rel(2)] g(1,2) by (simp add: fun_upd_idem)
  show "sys_inv s2" "load_inv s \<Longrightarrow> load_inv s2"
    using revoke_step_inv(1,2) [OF i1(1) rel(2)] i1(2) by blast+
qed

text \<open>Relinquishing the pool a reservation made gives the compute units back as they were.\<close>

lemma update_pool_id_eqs:
  "valid_cu (updateReservePoolId s) d c = valid_cu s d c"
  "same_tables (updateReservePoolId s) (updateReservePoolId t) = same_tables s t"
  "fresh_pool p (updateReservePoolId s) = fresh_pool p s"
  by (simp_all add: valid_cu_def same_tables_def fresh_pool_def)

lemma pooled_update_id:
  assumes "pooled_sys p s t"
  shows "pooled_sys p (updateReservePoolId s) (updateReservePoolId t)"
proof -
  have "m_reservePoolId t = m_reservePoolId s"
    using assms cus_relD(4) by (auto simp: pooled_sys_def)
  then have "m_reservePoolId (updateReservePoolId t) = m_reservePoolId (updateReservePoolId s)"
    by (simp add: updateReservePoolId_def)
  with assms show ?thesis
    unfolding pooled_sys_def cus_rel_def by (simp add: update_pool_id_eqs)
qed

lemma reserve_relinquish:
  assumes "sys_inv s" "fresh_pool (getNextReservePoolId s) s"
    and run: "resReserveCuPool pp s = (r, s1)" "r \<noteq> 0" "resRelinquishCuPool r s1 = (ret, s2)"
  shows "ret = XRM_SUCCESS" "restored (updateReservePoolId s) s2"
proof -
  obtain t where t: "s1 = updateReservePoolId t" "pooled_sys r s t"
    using resReserveCuPool_spec(2) [OF assms(1,2) run(1,2)] by blast
  from relinquish_pooled [OF pooled_update_id [OF t(2)]] run(3) t(1)
  show "ret = XRM_SUCCESS" "restored (updateReservePoolId s) s2" by auto
qed

lemma restored_cus:
  assumes "restored s0 s"
  shows "sys_inv s" "load_inv s0 \<Longrightarrow> load_inv s" "valid_cu s d c = valid_cu s0 d c"
    "valid_cu s0 d c \<Longrightarrow> cu_at s d c = cu_at s0 d c" "grants s = grants s0"
proof -
  note D = cus_relD [OF assms [unfolded restored_def]]
  show "sys_inv s" "load_inv s0 \<Longrightarrow> load_inv s" "valid_cu s d c = valid_cu s0 d c"
    "valid_cu s0 d c \<Longrightarrow> cu_at s d c = cu_at s0 d c" using D by auto
  show "grants s = grants s0"
    by (rule cus_rel_grants [OF assms [unfolded restored_def]]) (use D(9) in simp)
qed

lemma alloc_result_valid:
  assumes "alloc_result prop updateId s ret cuRes s'"
  shows "valid_cu s' d c = valid_cu s d c"
proof (cases "ret = XRM_SUCCESS")
  case False
  with assms quiet_inv(6) [of s s'] show ?thesis by (auto simp: alloc_result_def)
next
  case True
  from assms True obtain t where t: "alloc_done prop s cuRes t"
    "s' = (if updateId then updateAllocServiceId t else t)" by (rule alloc_result_cases)
  from t(1) obtain d' c' i where "grant_step prop d' c' i s t" by (auto simp: alloc_done_def alloc_on_def)
  then have "cu_frame d' c' s t" by (simp add: grant_step_def cu_step_def)
  from cu_frame_dev(10) [OF this] have "valid_cu t d c = valid_cu s d c" .
  with t(2) show ?thesis by (simp add: valid_cu_def)
qed

section \<open>The channels of a compute unit fit its capacity\<close>

lemma default_load_split:
  "distinct ps \<Longrightarrow> default_load {} chs = default_load (set ps) chs + sum_list (map (pool_load chs) ps)"
  by (induction ps) (simp_all add: default_load_insert del: default_load_empty)

lemma channel_loads_bound:
  assumes "sys_inv s" "valid_cu s d c"
  shows "(\<Sum>i<XRM_MAX_KERNEL_CHANNELS. ch_loadUnified (chan_at s d c i)) \<le> XRM_MAX_LOAD"
proof -
  let ?cu = "cu_at s d c" and ?rs = "act_reserves (cu_at s d c)"
  have acct: "cu_acct ?cu" using valid_cu_inv [OF assms] by (simp add: cu_inv_def)
  then have len: "length (cu_channels ?cu) = XRM_MAX_KERNEL_CHANNELS" and dist: "distinct (map rs_poolId ?rs)"
    and ok: "\<And>r. r \<in> set ?rs \<Longrightarrow> reserve_ok (cu_channels ?cu) r" by (auto simp: cu_unfold)
  have "default_load {} (cu_channels ?cu) =
      default_load (pool_ids ?cu) (cu_channels ?cu) + sum_list (map (pool_load (cu_channels ?cu)) (map rs_poolId ?rs))"
    using default_load_split [OF dist, of "cu_channels ?cu"] by (simp add: pool_ids_def)
  also have "sum_list (map (pool_load (cu_channels ?cu)) (map rs_poolId ?rs)) \<le> reserved_load ?cu"
  proof -
    have "pool_load (cu_channels ?cu) (rs_poolId r) \<le> rs_loadUnified r" if "r \<in> set ?rs" for r
      using ok [OF that] by (simp add: reserve_ok_def)
    then show ?thesis by (simp add: reserved_load_def o_def sum_list_mono)
  qed
  finally have "default_load {} (cu_channels ?cu) \<le> XRM_MAX_LOAD" using acct by (auto simp: cu_unfold)
  moreover have "default_load {} (cu_channels ?cu) = (\<Sum>i<XRM_MAX_KERNEL_CHANNELS. ch_loadUnified (chan_at s d c i))"
    using len by (simp add: chan_at_def sum_list_sum_nth atLeast0LessThan)
  ultimately show ?thesis by simp
qed

section \<open>Shared facts about single operations\<close>

lemma restored_update_id:
  assumes "restored (updateReservePoolId s) s2"
  shows "sys_inv s2 \<and> grants s2 = grants s \<and> (\<forall>d c. valid_cu s d c \<longrightarrow> cu_at s2 d c = cu_at s d c)"
proof -
  have "grants (updateReservePoolId s) = grants s"
    by (auto simp: grants_def fun_eq_iff update_pool_id_eqs chan_at_def)
  then show ?thesis using restored_cus [OF assms] by (simp add: update_pool_id_eqs)
qed

lemma act_reserves_drop:
  assumes "reserves_inv cu" "i < nat (cu_numReserve cu)"
  shows "act_reserves (drop_reserve i cu) = take i (act_reserves cu) @ drop (Suc i) (act_reserves cu)"
proof -
  have nl: "nat (cu_numReserve cu) \<le> length (cu_reserves cu)" using assms(1) by (auto simp: reserves_inv_def)
  have n1: "nat (cu_numReserve cu - 1) = nat (cu_numReserve cu) - 1" by simp
  show ?thesis
    using remove_slot_front(1) [OF assms(2) nl, of reserve0]
    by (simp add: act_reserves_def drop_reserve_def n1)
qed

lemma updateDeviceLoad_fault:
  assumes "0 \<le> devId" "nat devId < length (m_devList s)" "\<not> m_fault s"
    and "0 \<le> numCu (dev_at s (nat devId))" "numCu (dev_at s (nat devId)) \<le> int XRM_MAX_XILINX_KERNELS"
  shows "m_fault (updateDeviceLoad devId inc setv s) \<longleftrightarrow> numCu (dev_at s (nat devId)) = 0"
proof (cases "numCu (dev_at s (nat devId)) = 0")
  case True
  with assms show ?thesis by (simp add: updateDeviceLoad_def Let_def fault_def)
next
  case False
  with assms have "0 < numCu (dev_at s (nat devId))" by simp
  from updateDeviceLoad_frame(1) [OF assms(1,2) this assms(5), of inc setv] assms(3) False
  show ?thesis by (simp add: same_cus_def)
qed

end
