(* ===== verification/Xrm_Alloc_Complete.thy ===== *)
theory Xrm_Alloc_Complete
  imports Xrm_Alloc_Inv
begin

text \<open>
  The search over the devices misses nothing: when no device is held exclusively and the client can
  register on every loaded device, \<open>resAllocCu\<close> fails only if no compute unit of the system matches the
  request and can take its load.
\<close>

section \<open>The search tries every usable device\<close>

lemma allocDevForClient_le:
  assumes "dev_usable s (pr_clientId prop) d" "int d < m_numDevice s" "devId < int d" "- 1 \<le> devId"
  shows "0 \<le> allocDevForClient devId prop s" "allocDevForClient devId prop s \<le> int d"
proof -
  let ?lo = "if devId \<ge> 0 then nat (devId + 1) else 0"
  have mem: "d \<in> set [?lo..<nat (m_numDevice s)]" using assms by auto
  have "find (dev_usable s (pr_clientId prop)) [?lo..<nat (m_numDevice s)] \<noteq> None"
    using mem assms(1) by (metis find_None_iff)
  then obtain i where i: "find (dev_usable s (pr_clientId prop)) [?lo..<nat (m_numDevice s)] = Some i"
    by blast
  then obtain k where k: "k < length [?lo..<nat (m_numDevice s)]" "i = [?lo..<nat (m_numDevice s)] ! k"
    "\<forall>j<k. \<not> dev_usable s (pr_clientId prop) ([?lo..<nat (m_numDevice s)] ! j)"
    unfolding find_Some_iff by blast
  have "i \<le> d"
  proof (rule ccontr)
    assume "\<not> i \<le> d"
    then have "d - ?lo < k" "[?lo..<nat (m_numDevice s)] ! (d - ?lo) = d" using k(1,2) mem by auto
    with k(3) assms(1) show False by metis
  qed
  with i assms(2,3) show "0 \<le> allocDevForClient devId prop s" "allocDevForClient devId prop s \<le> int d"
    by (simp_all add: allocDevForClient_def getNextFreeDevForClient_def)
qed

context device_body
begin

lemma dev_search_tries:
  assumes usable: "\<And>a s. P a s \<Longrightarrow> dev_usable s clientId d"
    and rejects: "\<And>a s a' s'. P a s \<Longrightarrow> int d < m_numDevice s \<Longrightarrow> body d (a, s) = (False, a', s') \<Longrightarrow> R"
    and "P a s" "pr_clientId prop = clientId" "int d < m_numDevice s" "devId < int d" "- 1 \<le> devId"
    and "nat (m_numDevice s - devId) \<le> fuel" "dev_search fuel body prop devId (a, s) = (False, a', s')"
  shows R
  using assms(3-9)
proof (induction fuel arbitrary: devId a s)
  case 0
  then show ?case by simp
next
  case (Suc fuel)
  let ?d = "allocDevForClient devId prop s"
  have le: "0 \<le> ?d" "?d \<le> int d"
    using allocDevForClient_le [of s "prop" d devId] usable [OF Suc.prems(1)] Suc.prems(2-5) by auto
  note spec = allocDevForClient_spec [OF refl le(1)]
  obtain b1 a1 s1 where b1: "body (nat ?d) (a, s) = (b1, a1, s1)" by (metis prod_cases3)
  have nb: "\<not> b1" using b1 le Suc.prems(3,4,7) by (auto simp: Let_def)
  have run: "dev_search fuel body prop ?d (a1, s1) = (False, a', s')"
    using b1 nb le Suc.prems(3,4,7) by (simp add: Let_def)
  have step: "P a1 s1 \<and> m_numDevice s1 = m_numDevice s"
    using reject [OF Suc.prems(1), of "nat ?d" a1 s1] spec le Suc.prems(2) b1 nb by auto
  show ?case
  proof (cases "?d = int d")
    case True
    then have "body d (a, s) = (False, a1, s1)" using b1 nb by simp
    with rejects [OF Suc.prems(1,3)] show ?thesis .
  next
    case False
    show ?thesis
      by (rule Suc.IH [OF _ Suc.prems(2) _ _ _ _ run]) (use step spec le False Suc.prems in auto)
  qed
qed

lemma search_devices_tries:
  assumes "\<And>a s. P a s \<Longrightarrow> dev_usable s clientId d"
    and "\<And>a s a' s'. P a s \<Longrightarrow> int d < m_numDevice s \<Longrightarrow> body d (a, s) = (False, a', s') \<Longrightarrow> R"
    and "P a s" "pr_clientId prop = clientId" "int d < m_numDevice s"
    and "search_devices body prop (a, s) = (False, a', s')"
  shows R
proof -
  have "dev_search (Suc (nat (m_numDevice s))) body prop (- 1) (a, s) = (False, a', s')"
    using assms(6) by (simp only: search_devices_def snd_conv)
  note run = this
  show ?thesis
  proof (rule dev_search_tries [where devId = "- 1"])
    show "dev_usable s clientId d" if "P a s" for a s using that by (rule assms(1))
    show R if "P a s" "int d < m_numDevice s" "body d (a, s) = (False, a', s')" for a s a' s'
      using that by (rule assms(2))
    show "P a s" "pr_clientId prop = clientId" "int d < m_numDevice s" by (rule assms)+
    show "dev_search (Suc (nat (m_numDevice s))) body prop (- 1) (a, s) = (False, a', s')" by (rule run)
  qed (use assms(5) in auto)
qed

end

section \<open>Clients that can register everywhere\<close>

definition registrable :: "u64 \<Rightarrow> deviceData \<Rightarrow> bool" where
  "registrable clientId dev \<longleftrightarrow> \<not> dv_isExcl dev \<and>
     (\<exists>i<XRM_MAX_DEV_CLIENTS. cl_clientId (dv_clientProcs dev ! i) \<in> {clientId, 0})"

definition open_to :: "u64 \<Rightarrow> system \<Rightarrow> bool" where
  "open_to clientId s \<longleftrightarrow>
     (\<forall>d. int d < m_numDevice s \<longrightarrow> dv_isLoaded (dev_at s d) \<longrightarrow> registrable clientId (dev_at s d))"

lemma open_usable:
  "open_to clientId s \<Longrightarrow> int d < m_numDevice s \<Longrightarrow> dv_isLoaded (dev_at s d) \<Longrightarrow> dev_usable s clientId d"
  by (auto simp: open_to_def registrable_def dev_usable_def Let_def)

text \<open>Registering the client succeeds, and a slot for it remains after the registration is undone.\<close>

lemma dev_alloc_registrable:
  assumes "registrable c dev" "pr_clientId prop = c" "\<not> pr_devExcl prop" "dev_alloc_client prop dev = (ret, dev')"
    and "length (dv_clientProcs dev) = XRM_MAX_DEV_CLIENTS"
  shows "ret = XRM_SUCCESS" "registrable c dev'"
proof -
  let ?procs = "dv_clientProcs dev" and ?n = XRM_MAX_DEV_CLIENTS
  have "first_index ?n (\<lambda>i. cl_clientId (?procs ! i) = c) = None \<Longrightarrow>
      first_index ?n (\<lambda>i. cl_clientId (?procs ! i) = 0) \<noteq> None"
    using assms(1) by (auto simp: registrable_def)
  then have "ret = XRM_SUCCESS \<and> registrable c dev'"
    using assms
    by (auto simp: dev_alloc_client_def Let_def registrable_def nth_list_update split: option.splits
        dest!: first_index_SomeD)
  then show "ret = XRM_SUCCESS" "registrable c dev'" by auto
qed

lemma dev_release_registrable:
  assumes "registrable c dev" "dev_release_client c dev = (ret, dev')" "length (dv_clientProcs dev) = XRM_MAX_DEV_CLIENTS"
  shows "registrable c dev'"
  using assms
  by (auto simp: dev_release_client_def Let_def registrable_def unref_client_def nth_list_update
      split: option.splits if_splits dest!: first_index_SomeD)

lemma allocClient_open:
  assumes inv: "sys_inv s" and o: "open_to c s" and d: "int d < m_numDevice s" "dv_isLoaded (dev_at s d)"
    and p: "pr_clientId prop = c" "\<not> pr_devExcl prop" and run: "allocClientFromDev (int d) prop s = (ret, s1)"
  shows "ret = XRM_SUCCESS" "open_to c s1"
proof -
  have q: "quiet s s1" by (rule quiet_alloc_client [OF inv run])
  have ld: "dv_isLoaded (dev_at s1 x) = dv_isLoaded (dev_at s x)" for x
    using q by (simp add: quiet_def same_cus_def)
  obtain r dev where 1: "dev_alloc_client prop (dev_at s d) = (r, dev)" by fastforce
  have reg: "registrable c (dev_at s d)" using o d by (simp add: open_to_def)
  have len: "length (dv_clientProcs (dev_at s d)) = XRM_MAX_DEV_CLIENTS"
    using sys_inv_dev [OF inv d(1)] by (simp add: dev_inv_def)
  note res = dev_alloc_registrable [OF reg p 1 len]
  have s1: "ret = r" "s1 = upd_dev d (\<lambda>_. dev) s" using run 1 d by (auto simp: allocClientFromDev_def)
  then show "ret = XRM_SUCCESS" using res by simp
  have dl: "d < length (m_devList s)" using inv d(1) by (auto simp: sys_inv_def)
  show "open_to c s1"
    using o res(2) ld quiet_inv(3) [OF q] dl unfolding open_to_def s1(2)
    by (auto simp: dev_at_upd_dev)
qed

lemma releaseClient_open:
  assumes inv: "sys_inv s" and o: "open_to c s" and d: "int d < m_numDevice s"
    and run: "releaseClientOnDev (int d) c s = (ret, s1)"
  shows "open_to c s1"
proof -
  have q: "quiet s s1" using quiet_release_client [of s "int d" c] run by simp
  have ld: "dv_isLoaded (dev_at s1 x) = dv_isLoaded (dev_at s x)" for x
    using q by (simp add: quiet_def same_cus_def)
  obtain r dev where 1: "dev_release_client c (dev_at s d) = (r, dev)" by fastforce
  have s1: "s1 = upd_dev d (\<lambda>_. dev) s" using run 1 d by (auto simp: releaseClientOnDev_def)
  have len: "length (dv_clientProcs (dev_at s d)) = XRM_MAX_DEV_CLIENTS"
    using sys_inv_dev [OF inv d] by (simp add: dev_inv_def)
  have dl: "d < length (m_devList s)" using inv d by (auto simp: sys_inv_def)
  have "registrable c dev" if "dv_isLoaded (dev_at s d)"
    using dev_release_registrable [OF _ 1 len] o d that by (simp add: open_to_def)
  then show ?thesis
    using o ld quiet_inv(3) [OF q] dl unfolding open_to_def s1 by (auto simp: dev_at_upd_dev)
qed

section \<open>Completeness\<close>

text \<open>A failed attempt on one device: no compute unit of that pass fits, and the system stays open.\<close>

lemma resAllocCu_try_open:
  assumes inv: "sys_inv s" and o: "open_to (pr_clientId prop) s" and req: "prop_ok prop" "\<not> pr_devExcl prop"
    and d: "int d < m_numDevice s" "dv_isLoaded (dev_at s d)"
    and run: "resAllocCu_try aff prop d (cuRes, s) = (False, cuRes', s')"
  shows "open_to (pr_clientId prop) s'" "valid_cu s d c \<Longrightarrow> \<not> scan_can aff prop (cu_at s d c)"
proof -
  obtain ret s1 where a: "allocClientFromDev (int d) prop s = (ret, s1)" by fastforce
  obtain b2 r2 s2 where sc: "scan_cus aff prop d (cuRes, s1) = (b2, r2, s2)" by (metis prod_cases3)
  have q: "quiet s s1" by (rule quiet_alloc_client [OF inv a])
  note q1 = quiet_inv(1) [OF q inv] quiet_inv(3,4,6) [OF q]
  note al = allocClient_open [OF inv o d refl req(2) a]
  have b2: "\<not> b2" "s' = snd (releaseClientOnDev (int d) (pr_clientId prop) s2)"
    using run a sc al(1) by (auto simp: resAllocCu_try_def split: if_splits)
  have d1: "int d < m_numDevice s1" using d(1) q1(2) by simp
  note spec = scan_cus_spec [OF q1(1) d1 req(1) sc]
  have s2: "s2 = s1" using spec b2(1) by simp
  show "valid_cu s d c \<Longrightarrow> \<not> scan_can aff prop (cu_at s d c)" using spec b2(1) q1(3,4) by simp
  show "open_to (pr_clientId prop) s'"
    unfolding b2(2) s2 by (rule releaseClient_open [OF q1(1) al(2) d1 prod.collapse [symmetric]])
qed

interpretation alloc_try_open: device_body "resAllocCu_try aff prop"
    "\<lambda>_ s1. prop_ok prop \<and> \<not> pr_devExcl prop \<and> sys_inv s \<and> quiet s s1 \<and> open_to (pr_clientId prop) s1"
    "\<lambda>_ _. True" clientId
  for aff :: bool and "prop" :: cuProperty and s :: system and clientId :: u64
proof unfold_locales
  fix s1 s2 :: system and d :: nat and a a' :: cuResource
  assume P: "prop_ok prop \<and> \<not> pr_devExcl prop \<and> sys_inv s \<and> quiet s s1 \<and> open_to (pr_clientId prop) s1"
    and d: "int d < m_numDevice s1" and u: "dev_usable s1 clientId d"
  then have i1: "sys_inv s1" and q: "quiet s s1" and req: "prop_ok prop" using quiet_inv(1) by auto
  have ld: "dv_isLoaded (dev_at s1 d)" using u by (simp add: dev_usable_def Let_def)
  show "(prop_ok prop \<and> \<not> pr_devExcl prop \<and> sys_inv s \<and> quiet s s2 \<and> open_to (pr_clientId prop) s2) \<and>
      m_numDevice s2 = m_numDevice s1"
    if run: "resAllocCu_try aff prop d (a, s1) = (False, a', s2)"
    using resAllocCu_try_spec [OF i1 d req run] resAllocCu_try_open(1) [OF i1 _ req _ d ld run] P
      quiet_trans [OF q] quiet_inv(3) [of s1 s2] by simp
qed simp

lemma search_pass:
  assumes inv: "sys_inv s" and q: "quiet s s1" and o: "open_to (pr_clientId prop) s1"
    and req: "prop_ok prop" "\<not> pr_devExcl prop"
    and run: "search_devices (resAllocCu_try aff prop) prop (a, s1) = (False, a', s2)"
  shows "quiet s s2 \<and> open_to (pr_clientId prop) s2 \<and>
    (\<forall>d c. valid_cu s d c \<longrightarrow> \<not> scan_can aff prop (cu_at s d c))"
proof (intro conjI allI impI)
  let ?P = "\<lambda>s1. prop_ok prop \<and> \<not> pr_devExcl prop \<and> sys_inv s \<and> quiet s s1 \<and> open_to (pr_clientId prop) s1"
  have P: "?P s1" using assms by simp
  from alloc_try_open.search_devices_inv [OF P refl run]
  show "quiet s s2" "open_to (pr_clientId prop) s2" by simp_all
  fix d c assume v: "valid_cu s d c"
  have ld: "int d < m_numDevice t \<and> dv_isLoaded (dev_at t d)" if "quiet s t" for t
  proof -
    have "dv_isLoaded (dev_at s d)" using v sys_inv_dev [OF inv, of d] by (auto simp: valid_cu_def dev_inv_def)
    then show ?thesis using that v quiet_inv(3) [OF that] by (simp add: quiet_def same_cus_def valid_cu_def)
  qed
  show "\<not> scan_can aff prop (cu_at s d c)"
  proof (rule alloc_try_open.search_devices_tries [OF _ _ P refl _ run, of d])
    show "dev_usable t (pr_clientId prop) d" if "?P t" for t
      using open_usable [of "pr_clientId prop" t d] ld [of t] that by simp
    show "\<not> scan_can aff prop (cu_at s d c)"
      if "?P t" "resAllocCu_try aff prop d (x, t) = (False, x', t')" for x t x' t'
    proof -
      have t: "quiet s t" "sys_inv t" using that(1) quiet_inv(1) by auto
      from resAllocCu_try_open(2) [OF t(2) _ req _ _ that(2), of c] that(1) ld [OF t(1)] v
      show ?thesis using quiet_inv(4,6) [OF t(1)] by simp
    qed
    show "int d < m_numDevice s1" using ld [OF q] by simp
  qed
qed

lemma resAllocCu_complete:
  assumes inv: "sys_inv s" and o: "open_to (pr_clientId prop) s" and req: "prop_ok prop" "\<not> pr_devExcl prop"
    and n: "\<not> no_name prop" and run: "resAllocCu prop updateId (cuRes, s) = (ret, cuRes', s')"
  shows "ret = XRM_SUCCESS \<longleftrightarrow> (\<exists>d c. valid_cu s d c \<and> cu_matches prop (cu_at s d c) \<and> can_take prop (cu_at s d c))"
proof
  assume "ret = XRM_SUCCESS"
  with resAllocCu_spec [OF inv req(1) run]
  show "\<exists>d c. valid_cu s d c \<and> cu_matches prop (cu_at s d c) \<and> can_take prop (cu_at s d c)"
    by (auto simp: alloc_result_def alloc_done_def alloc_on_def)
next
  assume ex: "\<exists>d c. valid_cu s d c \<and> cu_matches prop (cu_at s d c) \<and> can_take prop (cu_at s d c)"
  obtain b1 r1 s1 where 1: "search_devices (resAllocCu_try True prop) prop (cuRes, s) = (b1, r1, s1)"
    by (metis prod_cases3)
  obtain b2 r2 s2 where 2: "search_devices (resAllocCu_try False prop) prop (r1, s1) = (b2, r2, s2)"
    by (metis prod_cases3)
  have "b1 \<or> b2"
  proof (rule ccontr)
    assume nb: "\<not> (b1 \<or> b2)"
    from search_pass [OF inv quiet_refl o req, of True cuRes r1 s1] 1 nb
    have p1: "quiet s s1" "open_to (pr_clientId prop) s1"
      "\<forall>d c. valid_cu s d c \<longrightarrow> \<not> scan_can True prop (cu_at s d c)" by auto
    from search_pass [OF inv p1(1,2) req, of False r1 r2 s2] 2 nb
    have "\<forall>d c. valid_cu s d c \<longrightarrow> \<not> scan_can False prop (cu_at s d c)" by auto
    with p1(3) ex scan_can_either valid_cu_inv [OF inv] show False by blast
  qed
  with 1 2 run n show "ret = XRM_SUCCESS" by (auto simp: resAllocCu_def split: if_splits)
qed

end
