(* ===== verification/Xrm_Load.thy ===== *)
theory Xrm_Load
  imports Xrm_Release_Inv
begin

text \<open>
  The life cycle of a device: probing and opening (\<open>initDevices\<close>), loading an xclbin and extracting its
  compute units (\<open>deviceLoadXclbin\<close>, \<open>xclbinGetInfo\<close>), clearing, unloading, enabling, disabling and
  resetting it. XRT (the driver library) and the xclbin section reader that comes with it are not
  part of the repository: the record \<open>xrt\<close> of their results is a parameter of the operations. Error
  messages are not modelled.
\<close>

section \<open>What XRT and the file system answer\<close>

datatype ip_type = IP_KERNEL | IP_PS_KERNEL | IP_OTHER

record ip_data =
  ip_m_type :: ip_type
  ip_m_name :: string
  ip_m_base_address :: u64

record soft_kernel =
  sk_mpo_name :: string
  sk_m_num_instances :: u32

record key_value =
  kv_key :: string
  kv_alias :: string
  kv_plugin :: string
  kv_maxCapacity :: string

text \<open>The function pointers \<open>dlsym\<close> found in the XRT core library, null when it has no such function.\<close>

record libVersionDepFunctionsData =
  libVersionDepFuncXclCuName2Index :: "(u64 \<Rightarrow> string \<Rightarrow> int \<times> u32) option"
  libVersionDepFuncXclIPName2Index25 :: "(u64 \<Rightarrow> string \<Rightarrow> int \<times> u32) option"
  libVersionDepFuncXclIPName2Index26 :: "(u64 \<Rightarrow> string \<Rightarrow> int) option"
  libVersionDepFuncXclLockDevice :: "(u64 \<Rightarrow> int) option"
  libVersionDepFuncXclUnlockDevice :: "(u64 \<Rightarrow> int) option"

datatype file_result = CannotOpen | CannotAlloc | CannotRead | FileData "u8 list"

record xrt =
  xclProbe :: int
  xclOpen :: "int \<Rightarrow> u64"
  xclGetDeviceInfo2 :: "u64 \<Rightarrow> int \<times> xclDeviceInfo2"
  xclLoadXclBin :: "u64 \<Rightarrow> u8 list \<Rightarrow> int"
  xclOpenContext :: "u64 \<Rightarrow> u8 list \<Rightarrow> int"
  xclCloseContext :: "u64 \<Rightarrow> u8 list \<Rightarrow> int"
  libVersionDepFuncs :: libVersionDepFunctionsData
  read_file :: "string \<Rightarrow> file_result"
  axlf_uuid :: "u8 list \<Rightarrow> u8 list"
  axlf_ip_layout :: "u8 list \<Rightarrow> ip_data list option"
  axlf_soft_kernels :: "u8 list \<Rightarrow> soft_kernel list"
  axlf_mem_topology :: "u8 list \<Rightarrow> memTopologyData list option"
  axlf_connectivity :: "u8 list \<Rightarrow> connectData list option"
  axlf_key_values :: "u8 list \<Rightarrow> key_value list option option"

text \<open>
  \<open>axlf_key_values\<close> stands for the JSON reader on the key value section: \<open>None\<close> is a section that is not
  well-formed, \<open>Some None\<close> no section or an empty one.
\<close>

definition wrapIPName2Index :: "libVersionDepFunctionsData \<Rightarrow> u64 \<Rightarrow> string \<Rightarrow> int" where
  "wrapIPName2Index lib handle ipName =
     (case libVersionDepFuncXclCuName2Index lib of
        Some f \<Rightarrow> (case f handle ipName of (ret, cuId) \<Rightarrow> if ret = 0 then i32 (uint cuId) else ret)
      | None \<Rightarrow>
         (case libVersionDepFuncXclIPName2Index25 lib of
            Some f \<Rightarrow> (case f handle ipName of (ret, cuId) \<Rightarrow> if ret = 0 then i32 (uint cuId) else ret)
          | None \<Rightarrow>
             (case libVersionDepFuncXclIPName2Index26 lib of
                Some f \<Rightarrow> f handle ipName
              | None \<Rightarrow> XRM_ERROR_INVALID)))"

definition wrapLockDevice :: "libVersionDepFunctionsData \<Rightarrow> u64 \<Rightarrow> int" where
  "wrapLockDevice lib handle =
     (case libVersionDepFuncXclLockDevice lib of Some f \<Rightarrow> f handle | None \<Rightarrow> 0)"

definition wrapUnlockDevice :: "libVersionDepFunctionsData \<Rightarrow> u64 \<Rightarrow> int" where
  "wrapUnlockDevice lib handle =
     (case libVersionDepFuncXclUnlockDevice lib of Some f \<Rightarrow> f handle | None \<Rightarrow> 0)"

section \<open>Versions\<close>

record version =
  ve_major :: int
  ve_minor :: int
  ve_revision :: int

text \<open>\<open>Version::operator<\<close>, as written: each component is compared on its own.\<close>

definition version_less :: "version \<Rightarrow> version \<Rightarrow> bool" where
  "version_less v other =
     (if ve_major v < ve_major other then True
      else if ve_minor v < ve_minor other then True
      else if ve_revision v < ve_revision other then True
      else False)"

definition version_equal :: "version \<Rightarrow> version \<Rightarrow> bool" where
  "version_equal v other \<longleftrightarrow> ve_major v = ve_major other \<and> ve_minor v = ve_minor other \<and>
     ve_revision v = ve_revision other"

section \<open>Hexadecimal strings\<close>

definition hex_digit :: "u8 \<Rightarrow> char" where
  "hex_digit w = ''0123456789abcdef'' ! unat (and w 0xF)"

definition binToHexstr :: "u8 list \<Rightarrow> string \<Rightarrow> string" where
  "binToHexstr bin outStr =
     fold (\<lambda>b out. (out @ [hex_digit (drop_bit 4 b)]) @ [hex_digit b]) bin outStr"

text \<open>
  \<open>hexstrToBin\<close>: a \<open>char\<close> is signed, the digit values are unsigned bytes. The bytes come two
  characters at a time from the string padded with zeros to \<open>insz\<close>.
\<close>

definition hex_value :: "char \<Rightarrow> u8" where
  "hex_value c =
     (let v = of_char c :: int; v = (if v \<ge> 128 then v - 256 else v)
      in if v < 97 then word_of_int (v - 48) else word_of_int (v - 97) + 10)"

definition strncpy_pad :: "nat \<Rightarrow> string \<Rightarrow> string" where
  "strncpy_pad n s = strncpy n s @ replicate (n - length (strncpy n s)) (CHR 0x00)"

fun hex_pairs :: "string \<Rightarrow> u8 list" where
  "hex_pairs (a # b # rest) =
     or (and (push_bit 4 (hex_value a)) 0xF0) (and (hex_value b) 0xF) # hex_pairs rest"
| "hex_pairs _ = []"

definition hexstrToBin :: "string \<Rightarrow> nat \<Rightarrow> u8 list" where
  "hexstrToBin inStr insz = hex_pairs (strncpy_pad insz inStr)"

section \<open>Opening and clearing devices\<close>

definition set_dev :: "int \<Rightarrow> (deviceData \<Rightarrow> deviceData) \<Rightarrow> system \<Rightarrow> system" where
  "set_dev devId f = upd_dev (nat devId) f"

definition in_range :: "int \<Rightarrow> system \<Rightarrow> bool" where
  "in_range devId s \<longleftrightarrow> 0 \<le> devId \<and> devId < m_numDevice s"

definition openDevice :: "xrt \<Rightarrow> int \<Rightarrow> system \<Rightarrow> int \<times> system" where
  "openDevice x devId s =
     (if \<not> in_range devId s then (XRM_ERROR_INVALID, s)
      else let handle = xclOpen x devId; (ret, info) = xclGetDeviceInfo2 x handle;
               s1 = set_dev devId (\<lambda>dev. dev\<lparr>dv_deviceHandle := handle, dv_deviceInfo := info\<rparr>) s
           in if ret \<noteq> 0 then (ret, s1)
              else (ret, set_dev devId (\<lambda>dev. dev\<lparr>dv_dsaName := di_mName info\<rparr>) s1))"

definition closeDevice :: "int \<Rightarrow> system \<Rightarrow> int \<times> system" where
  "closeDevice devId s =
     (if dv_deviceHandle (dev_at s (nat devId)) \<noteq> 0
      then (XRM_SUCCESS, set_dev devId (\<lambda>dev. dev\<lparr>dv_deviceHandle := 0,
              dv_deviceInfo := \<lparr> di_mName = [], di_mPciSlot = 0 \<rparr>\<rparr>) s)
      else (XRM_ERROR, s))"

text \<open>\<open>flushDevData\<close>: \<open>cuId\<close>, \<open>isDisabled\<close> and the device load are not touched.\<close>

definition flush_cu :: "int \<Rightarrow> cuData \<Rightarrow> cuData" where
  "flush_cu devId cu = cu\<lparr>
     cu_cuType := XRM_CU_NULL, cu_ipLayoutIndex := 0, cu_kernelName := [], cu_kernelAlias := [],
     cu_cuName := [], cu_instanceName := [], cu_kernelPluginFileName := [], cu_maxCapacity := 0,
     cu_baseAddr := 0, cu_membankId := 0, cu_membankType := 0, cu_membankSize := 0,
     cu_membankBaseAddr := 0,
     cu_channels := replicate XRM_MAX_KERNEL_CHANNELS channel0, cu_numChanInuse := 0,
     cu_clients := replicate XRM_MAX_KERNEL_CHANNELS 0, cu_numClient := 0,
     cu_totalUsedLoadUnified := 0, cu_totalReservedLoadUnified := 0,
     cu_totalReservedUsedLoadUnified := 0,
     cu_reserves := replicate XRM_MAX_KERNEL_RESERVES reserve0, cu_numReserve := 0,
     cu_deviceId := devId\<rparr>"

definition mem0 :: memTopologyData where
  "mem0 = \<lparr> mt_memType = 0, mt_memUsed = 0, mt_memSize = 0, mt_memBaseAddress = 0,
     mt_memTag = replicate 16 0 \<rparr>"

definition connect0 :: connectData where
  "connect0 = \<lparr> cn_argIndex = 0, cn_ipLayoutIndex = 0, cn_memDataIndex = 0 \<rparr>"

definition flush_xclbin :: "int \<Rightarrow> xclbinInformation \<Rightarrow> xclbinInformation" where
  "flush_xclbin devId xb = xb\<lparr>
     xb_uuid := replicate 16 0, xb_uuidStr := [], xb_numCu := 0, xb_numHardwareCu := 0,
     xb_numIPPSCu := 0, xb_numSoftwareCu := 0, xb_numMemBank := 0, xb_numConnect := 0,
     xb_memTopologyList := replicate XRM_MAX_DDR_MAP mem0,
     xb_connectList := replicate XRM_MAX_CONNECTION_ENTRIES connect0,
     xb_cuList := map (flush_cu devId) (xb_cuList xb)\<rparr>"

definition flush_dev :: "int \<Rightarrow> deviceData \<Rightarrow> deviceData" where
  "flush_dev devId dev = dev\<lparr>
     dv_dsaName := [], dv_xclbinName := [], dv_devId := 0, dv_isLoaded := False, dv_isExcl := False,
     dv_memBuffer := NoBuffer, dv_deviceHandle := 0,
     dv_deviceInfo := \<lparr> di_mName = [], di_mPciSlot = 0 \<rparr>,
     dv_clientProcs := replicate XRM_MAX_DEV_CLIENTS client0,
     dv_xclbinInfo := flush_xclbin devId (dv_xclbinInfo dev)\<rparr>"

definition flushDevData :: "int \<Rightarrow> system \<Rightarrow> system" where
  "flushDevData devId s = (if in_range devId s then set_dev devId (flush_dev devId) s else s)"

text \<open>\<open>free\<close> of a block that was freed before is a fault.\<close>

definition free_buffer :: "int \<Rightarrow> system \<Rightarrow> system" where
  "free_buffer devId s =
     (case dv_memBuffer (dev_at s (nat devId)) of
        NoBuffer \<Rightarrow> s
      | Buffer b \<Rightarrow> set_dev devId (\<lambda>dev. dev\<lparr>dv_memBuffer := NoBuffer\<rparr>) s
      | Freed \<Rightarrow> fault (set_dev devId (\<lambda>dev. dev\<lparr>dv_memBuffer := NoBuffer\<rparr>) s))"

definition deviceFreeBuffer :: "int \<Rightarrow> system \<Rightarrow> bool \<times> system" where
  "deviceFreeBuffer devId s = (if in_range devId s then (True, free_buffer devId s) else (False, s))"

text \<open>
  \<open>deviceClearInfo\<close>. When more compute units are counted than the array has, \<open>isDeviceBusy\<close> reads past
  its end.
\<close>

definition deviceClearInfo :: "int \<Rightarrow> system \<Rightarrow> bool \<times> system" where
  "deviceClearInfo devId s =
     (let dev = dev_at s (nat devId)
      in if \<not> in_range devId s then (False, s)
         else if numCu dev > int (length (cuList dev)) \<and>
             \<not> list_ex (\<lambda>cu. cu_totalUsedLoadUnified cu \<noteq> 0) (cuList dev) then (False, fault s)
         else if isDeviceBusy devId s then (False, s)
         else (True, set_dev devId (\<lambda>new. new\<lparr>dv_devId := devId, dv_dsaName := dv_dsaName dev,
                       dv_deviceHandle := dv_deviceHandle dev, dv_deviceInfo := dv_deviceInfo dev\<rparr>)
                 (flushDevData devId (free_buffer devId s))))"

definition initDevices :: "xrt \<Rightarrow> system \<Rightarrow> system" where
  "initDevices x s =
     (if m_devicesInited s then s
      else let numDevice = xclProbe x; s1 = s\<lparr>m_devicesInited := True\<rparr>
           in if numDevice \<le> 0 \<or> numDevice > int XRM_MAX_XILINX_DEVICES then s1
              else fold (\<lambda>d s. snd (openDevice x (int d)
                       (set_dev (int d) (\<lambda>dev. dev\<lparr>dv_devId := int d, dv_isDisabled := False,
                            dv_devLoadInfo := (dv_devLoadInfo dev)\<lparr>li_deviceId := int d,
                              li_devLoadRate := 0, li_devCurrentLoad := 0\<rparr>\<rparr>)
                         (flushDevData (int d) s))))
                     [0..<nat numDevice] (s1\<lparr>m_numDevice := numDevice\<rparr>))"

section \<open>Reading an xclbin\<close>

text \<open>A block freed after a failed read stays in \<open>memBuffer\<close>.\<close>

definition xclbinReadFile :: "xrt \<Rightarrow> int \<Rightarrow> string \<Rightarrow> system \<Rightarrow> int \<times> system" where
  "xclbinReadFile x devId name s =
     (if \<not> in_range devId s then (XRM_ERROR_INVALID, s)
      else case read_file x name of
             CannotOpen \<Rightarrow> (XRM_ERROR, s)
           | CannotAlloc \<Rightarrow> (XRM_ERROR, set_dev devId (\<lambda>dev. dev\<lparr>dv_memBuffer := NoBuffer\<rparr>) s)
           | CannotRead \<Rightarrow> (XRM_ERROR, set_dev devId (\<lambda>dev. dev\<lparr>dv_memBuffer := Freed\<rparr>) s)
           | FileData b \<Rightarrow> (XRM_SUCCESS, set_dev devId (\<lambda>dev. dev\<lparr>dv_memBuffer := Buffer b\<rparr>) s))"

definition xclbinFileReadUuid :: "xrt \<Rightarrow> string \<Rightarrow> string option" where
  "xclbinFileReadUuid x name =
     (case read_file x name of
        FileData b \<Rightarrow> Some (binToHexstr (axlf_uuid x b) [])
      | _ \<Rightarrow> None)"

definition the_buffer :: "int \<Rightarrow> system \<Rightarrow> u8 list" where
  "the_buffer devId s = (case dv_memBuffer (dev_at s (nat devId)) of Buffer b \<Rightarrow> b | _ \<Rightarrow> [])"

definition set_xclbin :: "int \<Rightarrow> (xclbinInformation \<Rightarrow> xclbinInformation) \<Rightarrow> system \<Rightarrow> system" where
  "set_xclbin devId f = set_dev devId (\<lambda>dev. dev\<lparr>dv_xclbinInfo := f (dv_xclbinInfo dev)\<rparr>)"

text \<open>Run a fallible step for the members of a list, until one fails.\<close>

fun all_ok :: "('i \<Rightarrow> 's \<Rightarrow> bool \<times> 's) \<Rightarrow> 'i list \<Rightarrow> 's \<Rightarrow> bool \<times> 's" where
  "all_ok f [] s = (True, s)"
| "all_ok f (i # is) s = (case f i s of (ok, s') \<Rightarrow> if ok then all_ok f is s' else (False, s'))"

text \<open>The statements that end the handling of every kind of kernel.\<close>

definition init_cu :: "int \<Rightarrow> cuData \<Rightarrow> cuData" where
  "init_cu devId cu = (cuInitChannels cu)\<lparr>
     cu_numClient := 0, cu_totalUsedLoadUnified := 0, cu_totalReservedLoadUnified := 0,
     cu_totalReservedUsedLoadUnified := 0,
     cu_reserves := replicate XRM_MAX_KERNEL_RESERVES reserve0, cu_numReserve := 0,
     cu_deviceId := devId\<rparr>"

definition fill_ip :: "int \<Rightarrow> xrmCuType \<Rightarrow> ip_data \<Rightarrow> int \<Rightarrow> int \<Rightarrow> cuData \<Rightarrow> cuData" where
  "fill_ip devId cuType ip cuId index cu =
     (let name = c_str (ip_m_name ip); kernel = takeWhile (\<lambda>c. c \<noteq> CHR '':'') name
      in init_cu devId (cu\<lparr>cu_cuId := cuId, cu_ipLayoutIndex := index, cu_cuType := cuType,
           cu_cuName := name, cu_kernelName := kernel,
           cu_instanceName := drop (length kernel + 1) name,
           cu_baseAddr := ip_m_base_address ip\<rparr>))"

text \<open>
  One entry of the layout: the index XRT gives is not compared with the size of the array. Soft
  kernel indices of a PS kernel come after the hardware ones.
\<close>

definition layout_ip :: "xrt \<Rightarrow> int \<Rightarrow> ip_type \<Rightarrow> ip_data \<Rightarrow> system \<Rightarrow> bool \<times> system" where
  "layout_ip x devId kind ip s =
     (if ip_m_type ip \<noteq> kind then (True, s)
      else let s1 = set_xclbin devId (\<lambda>xb. if kind = IP_KERNEL
                 then xb\<lparr>xb_numCu := xb_numCu xb + 1, xb_numHardwareCu := xb_numHardwareCu xb + 1\<rparr>
                 else xb\<lparr>xb_numCu := xb_numCu xb + 1, xb_numIPPSCu := xb_numIPPSCu xb + 1\<rparr>) s;
               dev = dev_at s1 (nat devId); n = numCu dev
           in if n > int XRM_MAX_XILINX_KERNELS then (False, s1)
              else let i = wrapIPName2Index (libVersionDepFuncs x) (dv_deviceHandle dev) (c_str (ip_m_name ip));
                       cuId = (if i < 0 then n - 1
                               else if kind = IP_KERNEL then i
                               else i32 (i + xb_numHardwareCu (dv_xclbinInfo dev)))
                   in if i < 0 \<and> i \<noteq> XRM_ERROR_INVALID then (False, s1)
                      else if cuId < 0 \<or> cuId \<ge> int (length (cuList dev)) then (False, fault s1)
                      else (True, upd_cu (nat devId) (nat cuId)
                              (fill_ip devId (if kind = IP_KERNEL then XRM_CU_IPKERNEL else XRM_CU_IPPSKERNEL)
                                 ip cuId (n - 1)) s1))"

definition layout_soft_cu :: "int \<Rightarrow> string \<Rightarrow> system \<Rightarrow> bool \<times> system" where
  "layout_soft_cu devId name s =
     (let s1 = set_xclbin devId (\<lambda>xb. xb\<lparr>xb_numCu := xb_numCu xb + 1,
                 xb_numSoftwareCu := xb_numSoftwareCu xb + 1\<rparr>) s;
          dev = dev_at s1 (nat devId); n = numCu dev
      in if n - 1 \<ge> int (length (cuList dev)) then (False, fault s1)
         else (True, upd_cu (nat devId) (nat (n - 1)) (\<lambda>cu. init_cu devId (cu\<lparr>
                 cu_cuId := n - 1, cu_ipLayoutIndex := n - 1, cu_cuType := XRM_CU_SOFTKERNEL,
                 cu_kernelName := c_str name, cu_cuName := c_str name\<rparr>)) s1))"

text \<open>The sum of the counter and the number of instances is computed in unsigned 32 bits.\<close>

definition layout_soft :: "int \<Rightarrow> soft_kernel \<Rightarrow> system \<Rightarrow> bool \<times> system" where
  "layout_soft devId sk s =
     (if (word_of_int (numCu (dev_at s (nat devId))) + sk_m_num_instances sk :: u32) >
           of_nat XRM_MAX_XILINX_KERNELS then (False, s)
      else all_ok (\<lambda>_. layout_soft_cu devId (sk_mpo_name sk)) [0..<unat (sk_m_num_instances sk)] s)"

definition xclbinGetLayout :: "xrt \<Rightarrow> int \<Rightarrow> system \<Rightarrow> int \<times> system" where
  "xclbinGetLayout x devId s =
     (if \<not> in_range devId s then (XRM_ERROR_INVALID, s)
      else let buffer = the_buffer devId s;
               s0 = set_xclbin devId (\<lambda>xb. xb\<lparr>xb_numCu := 0, xb_numHardwareCu := 0, xb_numSoftwareCu := 0\<rparr>) s
           in case axlf_ip_layout x buffer of
                None \<Rightarrow> (XRM_ERROR, updateDeviceLoad devId 0 0 s0)
              | Some ips \<Rightarrow>
                 (case all_ok (layout_ip x devId IP_KERNEL) ips s0 of
                    (ok1, s1) \<Rightarrow> if \<not> ok1 then (XRM_ERROR, s1)
                  else (case all_ok (layout_ip x devId IP_PS_KERNEL) ips s1 of
                    (ok2, s2) \<Rightarrow> if \<not> ok2 then (XRM_ERROR, s2)
                  else (case all_ok (layout_soft devId) (axlf_soft_kernels x buffer) s2 of
                    (ok3, s3) \<Rightarrow> if \<not> ok3 then (XRM_ERROR, s3)
                  else (if list_ex (\<lambda>ip. ip_m_type ip = IP_KERNEL \<or> ip_m_type ip = IP_PS_KERNEL) ips
                        then XRM_SUCCESS else XRM_ERROR,
                        updateDeviceLoad devId 0 0 s3)))))"

definition xclbinGetUuid :: "xrt \<Rightarrow> int \<Rightarrow> system \<Rightarrow> int \<times> system" where
  "xclbinGetUuid x devId s =
     (if \<not> in_range devId s then (XRM_ERROR_INVALID, s)
      else let uuid = axlf_uuid x (the_buffer devId s)
           in (XRM_SUCCESS, set_xclbin devId (\<lambda>xb. xb\<lparr>xb_uuid := uuid,
                 xb_uuidStr := binToHexstr uuid (xb_uuidStr xb)\<rparr>) s))"

text \<open>
  The two tables are filled without comparing their length with the array. (The tag of a memory
  bank is copied with the length of the whole table, 64 bytes instead of 16; what lands in the
  following entries is overwritten by their own turn, so only the tag is modelled, and a bank whose
  copy leaves the table is a fault.)
\<close>

definition xclbinGetMemTopology :: "xrt \<Rightarrow> int \<Rightarrow> system \<Rightarrow> int \<times> system" where
  "xclbinGetMemTopology x devId s =
     (if \<not> in_range devId s then (XRM_ERROR_INVALID, s)
      else case axlf_mem_topology x (the_buffer devId s) of
             None \<Rightarrow> (XRM_SUCCESS, s)
           | Some banks \<Rightarrow>
               (let s1 = set_xclbin devId (\<lambda>xb. xb\<lparr>xb_numMemBank := int (length banks),
                      xb_memTopologyList := banks @ drop (length banks) (xb_memTopologyList xb)\<rparr>) s
                in (XRM_SUCCESS, if length banks > XRM_MAX_DDR_MAP - 2 then fault s1 else s1)))"

definition xclbinGetConnectivity :: "xrt \<Rightarrow> int \<Rightarrow> system \<Rightarrow> int \<times> system" where
  "xclbinGetConnectivity x devId s =
     (if \<not> in_range devId s then (XRM_ERROR_INVALID, s)
      else case axlf_connectivity x (the_buffer devId s) of
             None \<Rightarrow> (XRM_SUCCESS, s)
           | Some conns \<Rightarrow>
               (let s1 = set_xclbin devId (\<lambda>xb. xb\<lparr>xb_numConnect := int (length conns),
                      xb_connectList := conns @ drop (length conns) (xb_connectList xb)\<rparr>) s
                in (XRM_SUCCESS, if length conns > XRM_MAX_CONNECTION_ENTRIES then fault s1 else s1)))"

text \<open>\<open>strtoull(s, NULL, 0)\<close> with the prefixes \<open>0x\<close> and \<open>0\<close>; the value saturates.\<close>

definition digit_value :: "char \<Rightarrow> nat option" where
  "digit_value c =
     (let v = of_char c :: nat
      in if 48 \<le> v \<and> v \<le> 57 then Some (v - 48)
         else if 97 \<le> v \<and> v \<le> 122 then Some (v - 97 + 10)
         else if 65 \<le> v \<and> v \<le> 90 then Some (v - 65 + 10) else None)"

fun parse_digits :: "nat \<Rightarrow> string \<Rightarrow> nat \<Rightarrow> nat" where
  "parse_digits base [] acc = acc"
| "parse_digits base (c # cs) acc =
     (case digit_value c of
        Some d \<Rightarrow> if d < base then parse_digits base cs (acc * base + d) else acc
      | None \<Rightarrow> acc)"

definition parse_unsigned :: "string \<Rightarrow> nat" where
  "parse_unsigned s =
     (case s of
        CHR ''0'' # c # rest \<Rightarrow>
          if (c = CHR ''x'' \<or> c = CHR ''X'') \<and>
             (case rest of h # _ \<Rightarrow> (case digit_value h of Some d \<Rightarrow> d < 16 | None \<Rightarrow> False) | [] \<Rightarrow> False)
          then parse_digits 16 rest 0 else parse_digits 8 (c # rest) 0
      | _ \<Rightarrow> parse_digits 10 s 0)"

definition strtoull :: "string \<Rightarrow> u64" where
  "strtoull str =
     (let s = dropWhile (\<lambda>c. c \<in> {CHR '' '', CHR 0x09, CHR 0x0A, CHR 0x0B, CHR 0x0C, CHR 0x0D}) str;
          (neg, s) = (case s of c # rest \<Rightarrow> if c = CHR ''-'' then (True, rest)
                                  else if c = CHR ''+'' then (False, rest) else (False, s)
                      | [] \<Rightarrow> (False, s));
          n = parse_unsigned s
      in if n \<ge> 2 ^ 64 then - 1 else if neg then - of_nat n else of_nat n)"

definition key_value_cu :: "key_value \<Rightarrow> cuData \<Rightarrow> cuData" where
  "key_value_cu kv cu =
     (if cu_kernelName cu \<noteq> kv_key kv then cu
      else let cu1 = (if kv_alias kv \<noteq> [] then cu\<lparr>cu_kernelAlias := kv_alias kv\<rparr> else cu);
               cu2 = (if kv_plugin kv \<noteq> [] then cu1\<lparr>cu_kernelPluginFileName := kv_plugin kv\<rparr> else cu1)
           in if kv_maxCapacity kv \<noteq> [] then cu2\<lparr>cu_maxCapacity := strtoull (kv_maxCapacity kv)\<rparr> else cu2)"

definition upd_all_cus :: "int \<Rightarrow> (cuData \<Rightarrow> cuData) \<Rightarrow> system \<Rightarrow> system" where
  "upd_all_cus devId f s =
     fold (\<lambda>c. upd_cu (nat devId) c f) [0..<nat (numCu (dev_at s (nat devId)))] s"

definition xclbinGetKeyvalues :: "xrt \<Rightarrow> int \<Rightarrow> system \<Rightarrow> int \<times> system" where
  "xclbinGetKeyvalues x devId s =
     (if \<not> in_range devId s then (XRM_ERROR_INVALID, s)
      else case axlf_key_values x (the_buffer devId s) of
             None \<Rightarrow> (XRM_ERROR_INVALID, s)
           | Some None \<Rightarrow> (XRM_SUCCESS, s)
           | Some (Some kvs) \<Rightarrow>
               (XRM_SUCCESS, fold (\<lambda>kv s. if kv_key kv = [] then s else upd_all_cus devId (key_value_cu kv) s)
                  kvs s))"

text \<open>The memory bank of a compute unit is the one of its last connection.\<close>

definition connect_cu :: "xclbinInformation \<Rightarrow> connectData \<Rightarrow> cuData \<Rightarrow> cuData" where
  "connect_cu xb conn cu =
     (if cn_ipLayoutIndex conn \<noteq> cu_ipLayoutIndex cu then cu
      else let topology = xb_memTopologyList xb ! nat (cn_memDataIndex conn)
           in cu\<lparr>cu_membankId := word_of_int (cn_memDataIndex conn),
                cu_membankType := ucast (mt_memType topology),
                cu_membankSize := mt_memSize topology,
                cu_membankBaseAddr := mt_memBaseAddress topology\<rparr>)"

definition bad_connection :: "deviceData \<Rightarrow> connectData \<Rightarrow> bool" where
  "bad_connection dev conn \<longleftrightarrow>
     (cn_memDataIndex conn < 0 \<or> cn_memDataIndex conn \<ge> int XRM_MAX_DDR_MAP) \<and>
     list_ex (\<lambda>c. cn_ipLayoutIndex conn = cu_ipLayoutIndex (cuList dev ! c)) [0..<nat (numCu dev)]"

definition xclbinGetInfo :: "xrt \<Rightarrow> int \<Rightarrow> system \<Rightarrow> int \<times> system" where
  "xclbinGetInfo x devId s =
     (if \<not> in_range devId s then (XRM_ERROR_INVALID, s)
      else case xclbinGetLayout x devId s of (r1, s1) \<Rightarrow> if r1 \<noteq> XRM_SUCCESS then (XRM_ERROR, s1)
      else (case xclbinGetUuid x devId s1 of (r2, s2) \<Rightarrow> if r2 \<noteq> XRM_SUCCESS then (XRM_ERROR, s2)
      else (case xclbinGetMemTopology x devId s2 of (r3, s3) \<Rightarrow> if r3 \<noteq> XRM_SUCCESS then (XRM_ERROR, s3)
      else (case xclbinGetConnectivity x devId s3 of (r4, s4) \<Rightarrow> if r4 \<noteq> XRM_SUCCESS then (XRM_ERROR, s4)
      else (case xclbinGetKeyvalues x devId s4 of (r5, s5) \<Rightarrow> if r5 \<noteq> XRM_SUCCESS then (XRM_ERROR, s5)
      else (let dev = dev_at s5 (nat devId); xb = dv_xclbinInfo dev;
                conns = map (\<lambda>i. xb_connectList xb ! i) [0..<nat (xb_numConnect xb)]
            in if list_ex (bad_connection dev) conns then (XRM_ERROR, fault s5)
               else (XRM_SUCCESS, upd_all_cus devId (\<lambda>cu. fold (connect_cu xb) conns cu) s5)))))))"

section \<open>Loading and unloading\<close>

definition xclbinLoadToDevice :: "xrt \<Rightarrow> int \<Rightarrow> system \<Rightarrow> int \<times> system" where
  "xclbinLoadToDevice x devId s =
     (if \<not> in_range devId s then (XRM_ERROR_INVALID, s)
      else let handle = dv_deviceHandle (dev_at s (nat devId));
               rc = wrapLockDevice (libVersionDepFuncs x) handle
           in if rc \<noteq> 0 then (rc, s) else (xclLoadXclBin x handle (the_buffer devId s), s))"

definition deviceLockXclbin :: "xrt \<Rightarrow> int \<Rightarrow> system \<Rightarrow> int" where
  "deviceLockXclbin x devId s =
     (if \<not> in_range devId s then XRM_ERROR_INVALID
      else let dev = dev_at s (nat devId)
           in xclOpenContext x (dv_deviceHandle dev) (xb_uuid (dv_xclbinInfo dev)))"

definition deviceUnlockXclbin :: "xrt \<Rightarrow> int \<Rightarrow> system \<Rightarrow> int" where
  "deviceUnlockXclbin x devId s =
     (let dev = dev_at s (nat devId)
      in if \<not> in_range devId s then XRM_ERROR_INVALID
         else if \<not> dv_isLoaded dev then XRM_SUCCESS
         else xclCloseContext x (dv_deviceHandle dev) (xb_uuid (dv_xclbinInfo dev)))"

text \<open>The steps of a load, and what follows when all of them succeed.\<close>

definition load_steps :: "xrt \<Rightarrow> int \<Rightarrow> string \<Rightarrow> system \<Rightarrow> bool \<times> system" where
  "load_steps x devId xclbin s =
     (case xclbinReadFile x devId xclbin s of (r1, s1) \<Rightarrow> if r1 \<noteq> XRM_SUCCESS then (False, s1)
      else (case xclbinLoadToDevice x devId s1 of (r2, s2) \<Rightarrow> if r2 \<noteq> XRM_SUCCESS then (False, s2)
      else (case xclbinGetInfo x devId s2 of (r3, s3) \<Rightarrow> if r3 \<noteq> XRM_SUCCESS then (False, s3)
      else (deviceLockXclbin x devId s3 = XRM_SUCCESS, s3))))"

definition deviceLoadXclbin :: "xrt \<Rightarrow> int \<Rightarrow> string \<Rightarrow> system \<Rightarrow> int \<times> system" where
  "deviceLoadXclbin x devId xclbin s =
     (let dev = dev_at s (nat devId)
      in if \<not> in_range devId s then (XRM_ERROR_INVALID, s)
         else if dv_isDisabled dev then (XRM_ERROR, s)
         else if dv_isLoaded dev then
           (case xclbinFileReadUuid x xclbin of
              None \<Rightarrow> (XRM_ERROR, s)
            | Some uuidStr \<Rightarrow>
                (if uuidStr = xb_uuidStr (dv_xclbinInfo dev) then XRM_SUCCESS else XRM_ERROR, s))
         else let s0 = (if dv_deviceHandle dev = 0 then snd (openDevice x devId s) else s)
              in case load_steps x devId xclbin s0 of
                   (ok, s1) \<Rightarrow>
                     if \<not> ok then (XRM_ERROR, snd (deviceClearInfo devId s1))
                     else (XRM_SUCCESS, set_dev devId (\<lambda>dev. dev\<lparr>dv_xclbinName := xclbin, dv_isLoaded := True\<rparr>)
                             (snd (deviceFreeBuffer devId s1))))"

definition unloadOneDevice :: "xrt \<Rightarrow> int \<Rightarrow> system \<Rightarrow> int \<times> system" where
  "unloadOneDevice x devId s0 =
     (let s = initDevices x s0
      in if \<not> in_range devId s then (XRM_ERROR_INVALID, s)
         else if \<not> dv_isLoaded (dev_at s (nat devId)) then (XRM_SUCCESS, snd (deviceClearInfo devId s))
         else if isDeviceBusy devId s then (XRM_ERROR_DEVICE_IS_BUSY, s)
         else if deviceUnlockXclbin x devId s \<noteq> 0 then (XRM_ERROR_DEVICE_IS_LOCKED, s)
         else (XRM_SUCCESS, snd (deviceClearInfo devId s)))"

definition set_disabled :: "int \<Rightarrow> bool \<Rightarrow> system \<Rightarrow> system" where
  "set_disabled devId b = set_dev devId (\<lambda>dev. dev\<lparr>dv_isDisabled := b\<rparr>)"

definition enableOneDevice :: "xrt \<Rightarrow> int \<Rightarrow> system \<Rightarrow> int \<times> system" where
  "enableOneDevice x devId s0 =
     (let s = initDevices x s0
      in if \<not> in_range devId s then (XRM_ERROR_INVALID, s)
         else (XRM_SUCCESS, set_disabled devId False s))"

definition disableOneDevice :: "xrt \<Rightarrow> int \<Rightarrow> system \<Rightarrow> int \<times> system" where
  "disableOneDevice x devId s0 =
     (let s = initDevices x s0; dev = dev_at s (nat devId)
      in if \<not> in_range devId s then (XRM_ERROR_INVALID, s)
         else if dv_isDisabled dev then (XRM_SUCCESS, s)
         else if \<not> dv_isLoaded dev then (XRM_SUCCESS, set_disabled devId True s)
         else if isDeviceBusy devId s then (XRM_ERROR_DEVICE_IS_BUSY, s)
         else if deviceUnlockXclbin x devId s \<noteq> 0 then (XRM_ERROR_DEVICE_IS_LOCKED, s)
         else (XRM_SUCCESS, set_disabled devId True (snd (deviceClearInfo devId s))))"

text \<open>
  \<open>loadAnyDevice\<close>: first the devices without an xclbin, then the ones not in use, which are unloaded for
  it. The state of both loops is \<open>ret\<close> with the system.
\<close>

definition load_unloaded :: "xrt \<Rightarrow> string \<Rightarrow> nat \<Rightarrow> int \<times> system \<Rightarrow> bool \<times> int \<times> system" where
  "load_unloaded x xclbin d = (\<lambda>(ret, s).
     if isDeviceLoaded (int d) s then (False, ret, s)
     else case deviceLoadXclbin x (int d) xclbin s of (ret, s') \<Rightarrow> (ret = XRM_SUCCESS, ret, s'))"

definition load_idle :: "xrt \<Rightarrow> string \<Rightarrow> nat \<Rightarrow> int \<times> system \<Rightarrow> bool \<times> int \<times> system" where
  "load_idle x xclbin d = (\<lambda>(ret, s).
     if isDeviceBusy (int d) s then (False, ret, s)
     else case unloadOneDevice x (int d) s of
            (r, s1) \<Rightarrow> if r \<noteq> XRM_SUCCESS then (False, ret, s1)
                      else case deviceLoadXclbin x (int d) xclbin s1 of
                             (ret, s') \<Rightarrow> (ret = XRM_SUCCESS, ret, s'))"

text \<open>A search over indices that also gives the index it stopped at.\<close>

fun find_index :: "(nat \<Rightarrow> 's \<Rightarrow> bool \<times> 's) \<Rightarrow> nat list \<Rightarrow> 's \<Rightarrow> nat option \<times> 's" where
  "find_index body [] st = (None, st)"
| "find_index body (i # is) st =
     (case body i st of (b, st') \<Rightarrow> if b then (Some i, st') else find_index body is st')"

definition loadAnyDevice :: "xrt \<Rightarrow> string \<Rightarrow> int \<Rightarrow> system \<Rightarrow> int \<times> int \<times> system" where
  "loadAnyDevice x xclbin devId s0 =
     (let s = initDevices x s0; ds = [0..<nat (m_numDevice s)]
      in if c_str xclbin = [] then (XRM_ERROR_INVALID, devId, s)
         else case find_index (load_unloaded x xclbin) ds (XRM_ERROR, s) of
                (Some d, ret, s1) \<Rightarrow> (ret, int d, s1)
              | (None, ret, s1) \<Rightarrow>
                  (case find_index (load_idle x xclbin) ds (ret, s1) of
                     (Some d, ret', s2) \<Rightarrow> (ret', int d, s2)
                   | (None, ret', s2) \<Rightarrow> (ret', devId, s2)))"

text \<open>The result is the device id, or the error code.\<close>

definition loadOneDevice :: "xrt \<Rightarrow> int \<Rightarrow> string \<Rightarrow> system \<Rightarrow> int \<times> system" where
  "loadOneDevice x devId xclbin s0 =
     (let s = initDevices x s0
      in if c_str xclbin = [] then (XRM_ERROR_INVALID, s)
         else if devId < - 1 \<or> devId \<ge> m_numDevice s then (XRM_ERROR_INVALID, s)
         else if devId \<noteq> - 1 then
           (case deviceLoadXclbin x devId xclbin s of
              (ret, s') \<Rightarrow> (if ret = XRM_SUCCESS then devId else ret, s'))
         else (case loadAnyDevice x xclbin devId s of
                 (ret, d, s') \<Rightarrow> (if ret = XRM_SUCCESS then d else ret, s')))"

text \<open>
  \<open>loadDevices\<close> over requests of a device (a number as text, -2 for all devices) and a file. \<open>std::stoi\<close>
  throws when there is no number or it does not fit; the exception is the result \<open>None\<close>.
\<close>

definition stoi :: "string \<Rightarrow> int option" where
  "stoi str =
     (let s = dropWhile (\<lambda>c. c \<in> {CHR '' '', CHR 0x09, CHR 0x0A, CHR 0x0B, CHR 0x0C, CHR 0x0D}) str;
          (neg, s) = (case s of c # rest \<Rightarrow> if c = CHR ''-'' then (True, rest)
                                  else if c = CHR ''+'' then (False, rest) else (False, s)
                      | [] \<Rightarrow> (False, s));
          n = int (parse_unsigned s); v = (if neg then - n else n)
      in case s of
           [] \<Rightarrow> None
         | c # _ \<Rightarrow> (case digit_value c of
              None \<Rightarrow> None
            | Some d \<Rightarrow> if d \<ge> 10 then None
                        else if v < - 2147483648 \<or> v > 2147483647 then None else Some v))"

definition load_all_devices :: "xrt \<Rightarrow> string \<Rightarrow> int \<times> system \<Rightarrow> int \<times> system" where
  "load_all_devices x xclbin = (\<lambda>(ret, s).
     case find_index (\<lambda>d (ret, s). case deviceLoadXclbin x (int d) xclbin s of
              (ret, s') \<Rightarrow> (ret \<noteq> XRM_SUCCESS, ret, s')) [0..<nat (m_numDevice s)] (ret, s) of
       (_, ret', s') \<Rightarrow> (ret', s'))"

fun load_requests :: "xrt \<Rightarrow> (string \<times> string) list \<Rightarrow> int \<times> system \<Rightarrow> int option \<times> system" where
  "load_requests x [] (ret, s) = (Some ret, s)"
| "load_requests x ((strDevId, xclbin) # rest) (ret, s) =
     (if c_str strDevId = [] then (Some XRM_ERROR_INVALID, s)
      else case stoi strDevId of
             None \<Rightarrow> (None, s)
           | Some devId \<Rightarrow>
               if devId < - 2 \<or> devId = - 1 \<or> devId \<ge> m_numDevice s then (Some XRM_ERROR_INVALID, s)
               else if c_str xclbin = [] then (Some XRM_ERROR_INVALID, s)
               else if devId = - 2 then load_requests x rest (load_all_devices x xclbin (ret, s))
               else (case deviceLoadXclbin x devId xclbin s of
                       (ret', s') \<Rightarrow> if ret' \<noteq> XRM_SUCCESS then (Some ret', s')
                                    else load_requests x rest (ret', s')))"

definition loadDevices :: "xrt \<Rightarrow> (string \<times> string) list \<Rightarrow> system \<Rightarrow> int option \<times> system" where
  "loadDevices x requests s = load_requests x requests (XRM_ERROR, initDevices x s)"

section \<open>Resetting a device\<close>

text \<open>
  The clients registered on the device are recycled, in the order of the table (their processes are
  then killed, which is not part of the state), the xclbin is unloaded and the device closed.
\<close>

definition device_clients :: "deviceData \<Rightarrow> u64 list" where
  "device_clients dev =
     filter (\<lambda>c. c \<noteq> 0) (map cl_clientId
       (if dv_isExcl dev then take 1 (dv_clientProcs dev)
        else take XRM_MAX_DEV_CLIENTS (dv_clientProcs dev)))"

definition resetDevice :: "xrt \<Rightarrow> int \<Rightarrow> system \<Rightarrow> int \<times> system" where
  "resetDevice x devId s =
     (let dev = dev_at s (nat devId)
      in if dv_deviceHandle dev = 0 then (XRM_ERROR, s)
         else (XRM_SUCCESS, snd (closeDevice devId (snd (unloadOneDevice x devId
                 (fold recycleResource (device_clients dev) s))))))"

definition getDeviceNumber :: "xrt \<Rightarrow> system \<Rightarrow> int \<times> system" where
  "getDeviceNumber x s = (let s' = initDevices x s in (m_numDevice s', s'))"

text \<open>\<open>deviceDumpResource\<close> logs the device; the one thing it writes is the sum of the used reserved load.\<close>

definition dump_cu :: "cuData \<Rightarrow> cuData" where
  "dump_cu cu = cu\<lparr>cu_totalReservedUsedLoadUnified :=
     fold (\<lambda>j t. i32 (t + rs_usedLoadUnified (cu_reserves cu ! j))) [0..<XRM_MAX_KERNEL_RESERVES] 0\<rparr>"

definition deviceDumpResource :: "int \<Rightarrow> system \<Rightarrow> system" where
  "deviceDumpResource devId s =
     (if \<not> in_range devId s then s
      else if \<not> dv_isLoaded (dev_at s (nat devId)) then s
      else upd_all_cus devId dump_cu s)"

definition listDevice :: "xrt \<Rightarrow> int \<Rightarrow> system \<Rightarrow> deviceData \<times> system" where
  "listDevice x devId s =
     (let s1 = (if dv_deviceHandle (dev_at s (nat devId)) = 0 then snd (openDevice x devId s) else s);
          s2 = deviceDumpResource devId s1
      in (dev_at s2 (nat devId), s2))"

end
