(* ===== verification/Xrm_ListsV2_Inv.thy ===== *)
theory Xrm_ListsV2_Inv
  imports Xrm_Lists_Inv
begin

text \<open>
  Correctness of the version 2 lists: the loop over the members, each allocated from any device, from one
  device, or with the members of the same virtual device as a sub-list; while it runs the system holds
  exactly the grants of the members flagged as allocated, so a failure that releases them leaves the
  grants as they were.
\<close>

section \<open>Joining two allocations\<close>

lemma holding_trans:
  assumes h: "holding s0 A rs s" and g: "holding s B rs t" and dj: "A \<inter> B = {}"
  shows "holding s0 (A \<union> B) rs t"
proof -
  obtain ka where ka: "inj_on ka A" "\<And>i. i \<in> A \<Longrightarrow> grants s0 (ka i) = None \<and> owns (rs ! i) (ka i) s"
    "\<And>k. k \<notin> ka ` A \<Longrightarrow> grants s k = grants s0 k"
    using h by (rule holdingE) blast
  obtain kb where kb: "inj_on kb B" "\<And>i. i \<in> B \<Longrightarrow> grants s (kb i) = None \<and> owns (rs ! i) (kb i) t"
    "\<And>k. k \<notin> kb ` B \<Longrightarrow> grants t k = grants s k"
    using g by (rule holdingE) blast
  have sep: "ka i \<noteq> kb j" if "i \<in> A" "j \<in> B" for i j
    using ka(2) [OF that(1)] kb(2) [OF that(2)] owns_some by metis
  let ?key = "\<lambda>i. if i \<in> A then ka i else kb i"
  have img: "?key ` (A \<union> B) = ka ` A \<union> kb ` B" using dj by (auto simp: image_iff)
  have "inj_on ?key (A \<union> B)"
    using ka(1) kb(1) sep sep [symmetric] by (auto simp: inj_on_def)
  moreover have "grants s0 (?key i) = None \<and> owns (rs ! i) (?key i) t" if i: "i \<in> A \<union> B" for i
  proof (cases "i \<in> A")
    case True
    then have "ka i \<notin> kb ` B" using sep by blast
    then have "owns (rs ! i) (ka i) t = owns (rs ! i) (ka i) s" by (intro owns_grants kb(3))
    with True ka(2) show ?thesis by simp
  next
    case False
    with i have b: "i \<in> B" by simp
    then have "kb i \<notin> ka ` A" using sep by (metis imageE)
    with ka(3) kb(2) [OF b] False show ?thesis by simp
  qed
  moreover have "grants t k = grants s0 k" if "k \<notin> ?key ` (A \<union> B)" for k
    using that ka(3) kb(3) unfolding img by simp
  ultimately show ?thesis
    using holding_parts [OF h] holding_parts [OF g] by (intro holdingI [where key = ?key]) auto
qed

lemma holding_join:
  assumes h: "holding s0 A rs s" and g: "holding s B sub t"
    and len: "length rs' = length rs" and inj: "inj_on f B" "f ` B \<subseteq> {..<length rs}" "A \<inter> f ` B = {}"
    and ids: "\<And>i. i \<in> A \<Longrightarrow> same_ids (rs ! i) (rs' ! i)" "\<And>i. i \<in> B \<Longrightarrow> same_ids (sub ! i) (rs' ! f i)"
  shows "holding s0 (A \<union> f ` B) rs' t"
proof (rule holding_trans)
  show "holding s0 A rs' s" by (rule holding_same_ids [OF h len ids(1)])
  show "holding s (f ` B) rs' t" by (rule holding_move [OF g inj(1) _ ids(2)]) (use inj(2) len in simp_all)
qed (rule inj(3))

section \<open>Sub-lists\<close>

interpretation alloc_sublist: device_body "alloc_sublist_try props used" "list_ready XRM_MAX_LIST_CU_NUM_V2 props s0"
    "list_held XRM_MAX_LIST_CU_NUM_V2 props s0" clientId
  for props :: "cuProperty list" and used :: deviceIdListPropertyV2 and s0 :: system and clientId :: u64
proof unfold_locales
  fix s s' :: system and d :: nat and a a' :: cuListResource
  let ?ready = "list_ready XRM_MAX_LIST_CU_NUM_V2 props s0" and ?held = "list_held XRM_MAX_LIST_CU_NUM_V2 props s0"
  assume P: "?ready a s"
  have keep: "if b then ?held a' s' else ?ready a' s'" if run: "alloc_sublist_try props used d (a, s) = (b, a', s')" for b
  proof (cases "isInDeviceIdList used (int d)")
    case True
    with run P show ?thesis by (auto simp: alloc_sublist_try_def)
  next
    case False
    obtain ret lr' t where r: "alloc_members (alloc_member_on (int d)) resReleaseCuSubList XRM_MAX_LIST_CU_NUM_V2
        props 0 (a, s) = (ret, lr', t)" by (metis prod_cases3)
    from members_ready [OF alloc_member_on_allocates resReleaseCuSubList_gives_back P r] r run False
    show ?thesis by (auto simp: alloc_sublist_try_def split: if_splits)
  qed
  show "?ready a' s' \<and> m_numDevice s' = m_numDevice s"
    if "alloc_sublist_try props used d (a, s) = (False, a', s')"
    using keep [OF that] P by (auto simp: list_ready_def dest!: holding_parts(3))
  show "?held a' s'" if "alloc_sublist_try props used d (a, s) = (True, a', s')"
    using keep [OF that] by simp
qed

lemma alloc_sublist_spec:
  assumes inv: "sys_inv s" and props: "\<forall>p\<in>set (sl_cuProps sub). prop_ok p"
    and num: "sl_cuNum sub = int (length (sl_cuProps sub))" "length (sl_cuProps sub) \<le> XRM_MAX_LIST_CU_NUM_V2"
    and run: "resAllocCuSubListFromSameDevice sub used (cuListResource0 XRM_MAX_LIST_CU_NUM_V2, s) = (ret, lr, s')"
  shows "if ret = XRM_SUCCESS
    then holding s {..<length (sl_cuProps sub)} (lr_cuResources lr) s' \<and> lr_cuNum lr = sl_cuNum sub
    else holding s {} [] s'"
proof -
  let ?props = "take (nat (sl_cuNum sub)) (sl_cuProps sub)" and ?lr0 = "cuListResource0 XRM_MAX_LIST_CU_NUM_V2"
  have ps: "?props = sl_cuProps sub" using num by simp
  show ?thesis
  proof (cases "sl_cuNum sub \<le> 0 \<or> sl_cuNum sub > int XRM_MAX_LIST_CU_NUM_V2 \<or>
      dl_deviceNum used < 0 \<or> dl_deviceNum used > int XRM_MAX_XILINX_DEVICES")
    case True
    with run holding_refl [OF inv] show ?thesis by (auto simp: resAllocCuSubListFromSameDevice_def)
  next
    case False
    obtain b l t where r: "search_devices (alloc_sublist_try ?props used) (?props ! 0) (?lr0, s) = (b, l, t)"
      by (metis prod_cases3)
    have ready: "list_ready XRM_MAX_LIST_CU_NUM_V2 ?props s ?lr0 s"
      using props num holding_refl [OF inv] by (simp add: list_ready_def ps cuListResource0_def)
    note q = alloc_sublist.search_devices_inv [OF ready refl r]
    have e: "(ret, lr, s') = (if b then XRM_SUCCESS else XRM_ERROR_NO_KERNEL, l, t)"
      using run False r by (simp add: resAllocCuSubListFromSameDevice_def Let_def split: if_splits)
    show ?thesis using q e num ps by (cases b) (auto simp: list_held_def list_ready_def)
  qed
qed

section \<open>The flags\<close>

definition allocated :: "itemFlag list \<Rightarrow> nat set" where
  "allocated flags = {i. i < length flags \<and> it_allocated (flags ! i)}"

definition handled :: "itemFlag list \<Rightarrow> nat set" where
  "handled flags = {i. i < length flags \<and> it_handled (flags ! i)}"

lemma set_handled_sets [simp]:
  "length (set_handled i flags) = length flags" "allocated (set_handled i flags) = allocated flags"
  "i < length flags \<Longrightarrow> handled (set_handled i flags) = insert i (handled flags)"
  by (cases "i < length flags"; auto simp: set_handled_def allocated_def handled_def nth_list_update list_update_beyond
    split: if_splits)+

lemma set_allocated_sets [simp]:
  "length (set_allocated i flags) = length flags" "handled (set_allocated i flags) = handled flags"
  "i < length flags \<Longrightarrow> allocated (set_allocated i flags) = insert i (allocated flags)"
  by (cases "i < length flags"; auto simp: set_allocated_def allocated_def handled_def nth_list_update list_update_beyond
    split: if_splits)+

lemma fold_set_handled:
  "set is \<subseteq> {..<length flags} \<Longrightarrow> length (fold set_handled is flags) = length flags \<and>
   allocated (fold set_handled is flags) = allocated flags \<and>
   handled (fold set_handled is flags) = set is \<union> handled flags"
  by (induction "is" arbitrary: flags) auto

lemma same_virtual_props:
  assumes "index < nat (l2_cuNum lp)" "nat (l2_cuNum lp) \<le> length flags"
  shows "distinct (same_virtual lp index flags)" "set (same_virtual lp index flags) \<subseteq> {..<nat (l2_cuNum lp)}"
    "set (same_virtual lp index flags) \<inter> handled flags \<subseteq> {index}" "index \<in> set (same_virtual lp index flags)"
    "length (same_virtual lp index flags) \<le> nat (l2_cuNum lp)"
proof -
  show d: "distinct (same_virtual lp index flags)" and sub: "set (same_virtual lp index flags) \<subseteq> {..<nat (l2_cuNum lp)}"
    and "set (same_virtual lp index flags) \<inter> handled flags \<subseteq> {index}" "index \<in> set (same_virtual lp index flags)"
    using assms by (auto simp: same_virtual_def handled_def)
  show "length (same_virtual lp index flags) \<le> nat (l2_cuNum lp)"
    using card_mono [OF _ sub] distinct_card [OF d] by simp
qed

text \<open>Copying the sub-list into the result.\<close>

lemma copy_sublist_fold:
  assumes "distinct is" "set is \<subseteq> {..<length (lr_cuResources lr)}" "length flags = length (lr_cuResources lr)"
    and "k \<le> length is"
    and "fold (\<lambda>i (flags, lr). (set_allocated (is ! i) flags,
      lr\<lparr>lr_cuResources := (lr_cuResources lr)[is ! i :=
           cuResourceCopy (lr_cuResources lr ! (is ! i)) (lr_cuResources sub ! i)]\<rparr>)) [0..<k] (flags, lr) = (flags', lr')"
  shows "length flags' = length flags \<and> handled flags' = handled flags \<and>
    allocated flags' = set (take k is) \<union> allocated flags \<and>
    length (lr_cuResources lr') = length (lr_cuResources lr) \<and> lr_cuNum lr' = lr_cuNum lr \<and>
    (\<forall>i<k. same_ids (lr_cuResources sub ! i) (lr_cuResources lr' ! (is ! i))) \<and>
    (\<forall>j. j \<notin> set (take k is) \<longrightarrow> lr_cuResources lr' ! j = lr_cuResources lr ! j)"
  using assms(4,5)
proof (induction k arbitrary: flags' lr')
  case (Suc k)
  let ?f = "\<lambda>i (flags, lr). (set_allocated (is ! i) flags,
      lr\<lparr>lr_cuResources := (lr_cuResources lr)[is ! i :=
           cuResourceCopy (lr_cuResources lr ! (is ! i)) (lr_cuResources sub ! i)]\<rparr>)"
  obtain fl l where 1: "fold ?f [0..<k] (flags, lr) = (fl, l)" by fastforce
  have k: "k < length is" using Suc.prems(1) by simp
  then have m: "is ! k \<in> set is" "is ! k < length (lr_cuResources lr)" using assms(2) nth_mem by force+
  have fresh: "is ! k \<notin> set (take k is)"
    using assms(1) k by (auto simp: in_set_conv_nth nth_eq_iff_index_eq)
  note IH = Suc.IH [OF _ 1]
  have e: "flags' = set_allocated (is ! k) fl" "lr' = l\<lparr>lr_cuResources := (lr_cuResources l)[is ! k :=
      cuResourceCopy (lr_cuResources l ! (is ! k)) (lr_cuResources sub ! k)]\<rparr>"
    using Suc.prems(2) 1 by simp_all
  have tk: "take (Suc k) is = take k is @ [is ! k]" using k by (rule take_Suc_conv_app_nth)
  have ne: "is ! k \<noteq> is ! i" if "i < k" for i using assms(1) k that by (simp add: nth_eq_iff_index_eq)
  have copy: "same_ids r (cuResourceCopy x r)" for x r by (simp add: same_ids_def cuResourceCopy_def)
  show ?case
    using IH Suc.prems(1) m fresh assms(2,3) ne copy by (auto simp: e tk less_Suc_eq)
qed (simp add: assms)

section \<open>The loop over the members\<close>

text \<open>
  A loop that stops at the first error: \<open>J k\<close> holds before the members from \<open>k\<close> on, \<open>F\<close> after an error.
\<close>

lemma until_error_rule:
  assumes "J a st" "\<And>k st st'. a \<le> k \<Longrightarrow> k < n \<Longrightarrow> J k st \<Longrightarrow> step k st = (None, st') \<Longrightarrow> J (Suc k) st'"
    and "\<And>k st r st'. a \<le> k \<Longrightarrow> k < n \<Longrightarrow> J k st \<Longrightarrow> step k st = (Some r, st') \<Longrightarrow>
      if r = XRM_SUCCESS then J (Suc k) st' else F st'"
    and "a \<le> n" "until_error step [a..<n] (ret0, st) = (ret, st')"
  shows "J n st' \<or> ret \<noteq> XRM_SUCCESS \<and> F st'"
  using assms
proof (induction "n - a" arbitrary: a st ret0)
  case 0
  then show ?case by simp
next
  case (Suc m)
  then have a: "a < n" by simp
  then have up: "[a..<n] = a # [Suc a..<n]" by (rule upt_conv_Cons)
  obtain o1 st1 where 1: "step a st = (o1, st1)" by fastforce
  have IH: "J n st' \<or> ret \<noteq> XRM_SUCCESS \<and> F st'"
    if "J (Suc a) st1" "until_error step [Suc a..<n] (r, st1) = (ret, st')" for r
    by (rule Suc.hyps(1) [OF _ that(1) Suc.prems(2,3) _ that(2)]) (use Suc.hyps(2) a in simp_all)
  show ?case
  proof (cases o1)
    case None
    with IH [of ret0] Suc.prems(2) [OF order_refl a Suc.prems(1)] Suc.prems(5) 1 show ?thesis by (simp add: up)
  next
    case (Some r)
    with Suc.prems(3) [OF order_refl a Suc.prems(1)] 1 have r: "if r = XRM_SUCCESS then J (Suc a) st1 else F st1"
      by simp
    show ?thesis
    proof (cases "r = XRM_SUCCESS")
      case True
      with IH [of r] r Some Suc.prems(5) 1 show ?thesis by (simp add: up)
    next
      case False
      with r Some Suc.prems(5) 1 show ?thesis by (simp add: up)
    qed
  qed
qed

definition listV2_ok :: "cuListPropertyV2 \<Rightarrow> bool" where
  "listV2_ok lp \<longleftrightarrow> length (l2_cuProps lp) = XRM_MAX_LIST_CU_NUM_V2 \<and>
     (\<forall>i<nat (l2_cuNum lp). i < length (l2_cuProps lp) \<longrightarrow> prop_ok (cuPropertyCopyFromV2 (l2_cuProps lp ! i)))"

definition v2_holds :: "system \<Rightarrow> alloc_v2_state \<Rightarrow> bool" where
  "v2_holds s0 = (\<lambda>(flags, used, lr, s). length flags = XRM_MAX_LIST_CU_NUM_V2 \<and>
     length (lr_cuResources lr) = XRM_MAX_LIST_CU_NUM_V2 \<and> holding s0 (allocated flags) (lr_cuResources lr) s)"

definition v2_done :: "cuListPropertyV2 \<Rightarrow> system \<Rightarrow> nat \<Rightarrow> alloc_v2_state \<Rightarrow> bool" where
  "v2_done lp s0 k = (\<lambda>(flags, used, lr, s). v2_holds s0 (flags, used, lr, s) \<and>
     allocated flags = handled flags \<and> {..<k} \<subseteq> handled flags \<and> handled flags \<subseteq> {..<nat (l2_cuNum lp)} \<and>
     lr_cuNum lr = int (card (handled flags)))"

definition v2_failed :: "cuListPropertyV2 \<Rightarrow> system \<Rightarrow> alloc_v2_state \<Rightarrow> bool" where
  "v2_failed lp s0 = (\<lambda>(flags, used, lr, s). v2_holds s0 (flags, used, lr, s) \<and>
     allocated flags \<subseteq> {..<nat (l2_cuNum lp)})"

text \<open>A member on its own.\<close>

lemma v2_one:
  assumes d: "v2_done lp s0 k (flags0, used, lr, s)" and k: "k < nat (l2_cuNum lp)" "k \<notin> handled flags0"
    and n: "nat (l2_cuNum lp) \<le> XRM_MAX_LIST_CU_NUM_V2"
    and r: "if ret = XRM_SUCCESS then alloc_done prop s cuRes' s' else quiet s s'"
  shows "if ret = XRM_SUCCESS
    then v2_done lp s0 (Suc k) (set_allocated k (set_handled k flags0), used,
      lr\<lparr>lr_cuResources := (lr_cuResources lr)[k := cuRes'], lr_cuNum := lr_cuNum lr + 1\<rparr>, s')
    else v2_failed lp s0 (set_handled k flags0, used, lr\<lparr>lr_cuResources := (lr_cuResources lr)[k := cuRes']\<rparr>, s')"
proof -
  have h: "holding s0 (allocated flags0) (lr_cuResources lr) s" "length flags0 = XRM_MAX_LIST_CU_NUM_V2"
    "length (lr_cuResources lr) = XRM_MAX_LIST_CU_NUM_V2" "allocated flags0 = handled flags0"
    "{..<k} \<subseteq> handled flags0" "handled flags0 \<subseteq> {..<nat (l2_cuNum lp)}" "lr_cuNum lr = int (card (handled flags0))"
    using d by (auto simp: v2_done_def v2_holds_def)
  have fin: "finite (handled flags0)" using h(6) finite_subset by blast
  have len: "k < length flags0" "k < length (lr_cuResources lr)" using k n h by simp_all
  show ?thesis
  proof (cases "ret = XRM_SUCCESS")
    case True
    with r have "alloc_done prop s cuRes' s'" by simp
    from holding_take [OF h(1) _ len(2) this] k(2) h(4)
    have "holding s0 (insert k (handled flags0)) ((lr_cuResources lr)[k := cuRes']) s'" by simp
    with True h k len fin show ?thesis by (auto simp: v2_done_def v2_holds_def less_Suc_eq card_insert_disjoint)
  next
    case False
    with r have "quiet s s'" by simp
    from holding_quiet [OF h(1) this] have q: "holding s0 (allocated flags0) (lr_cuResources lr) s'" .
    have ids: "same_ids (lr_cuResources lr ! i) ((lr_cuResources lr)[k := cuRes'] ! i)" if "i \<in> allocated flags0" for i
    proof -
      have "i \<noteq> k" using that k(2) h(4) by auto
      then show ?thesis by (simp add: same_ids_def)
    qed
    have "holding s0 (allocated flags0) ((lr_cuResources lr)[k := cuRes']) s'"
      by (rule holding_same_ids [OF q _ ids]) simp_all
    with False h len show ?thesis by (auto simp: v2_failed_def v2_holds_def)
  qed
qed

text \<open>The members of a virtual device.\<close>

lemma v2_sublist:
  assumes d: "v2_done lp s0 k (flags0, used, lr, s)" and k: "k < nat (l2_cuNum lp)" "k \<notin> handled flags0"
    and n: "nat (l2_cuNum lp) \<le> XRM_MAX_LIST_CU_NUM_V2" and ok: "listV2_ok lp"
    and iss: "is = same_virtual lp k (set_handled k flags0)"
    and fl: "flags' = fold set_handled is (set_handled k flags0)"
    and run: "resAllocCuSubListFromSameDevice (make_sublist lp is) used
      (cuListResource0 XRM_MAX_LIST_CU_NUM_V2, s) = (ret, sub, s')"
  shows "if ret = XRM_SUCCESS
    then case copy_sublist is sub (flags', lr) of (flags'', lr') \<Rightarrow>
      v2_done lp s0 (Suc k) (flags'', used', lr'\<lparr>lr_cuNum := lr_cuNum lr' + lr_cuNum sub\<rparr>, s')
    else v2_failed lp s0 (flags', used', lr, s')"
proof -
  let ?n = XRM_MAX_LIST_CU_NUM_V2
  have h: "holding s0 (allocated flags0) (lr_cuResources lr) s" "length flags0 = ?n"
    "length (lr_cuResources lr) = ?n" "allocated flags0 = handled flags0"
    "{..<k} \<subseteq> handled flags0" "handled flags0 \<subseteq> {..<nat (l2_cuNum lp)}" "lr_cuNum lr = int (card (handled flags0))"
    using d by (auto simp: v2_done_def v2_holds_def)
  have kf: "k < length flags0" using k n h by simp
  note sv = same_virtual_props [of k lp "set_handled k flags0", OF k(1), folded iss]
  have sv': "distinct is" "set is \<subseteq> {..<nat (l2_cuNum lp)}" "k \<in> set is" "length is \<le> nat (l2_cuNum lp)"
    "set is \<inter> handled flags0 = {}"
    using sv n h kf k(2) by auto
  have "set is \<subseteq> {..<length (set_handled k flags0)}" using sv'(2) n h(2) by auto
  then have fl': "length flags' = ?n" "allocated flags' = handled flags0" "handled flags' = set is \<union> handled flags0"
    using fold_set_handled [of "is" "set_handled k flags0"] sv'(3) h kf unfolding fl by auto
  have props: "\<forall>p\<in>set (sl_cuProps (make_sublist lp is)). prop_ok p"
    using ok sv'(2) n by (auto simp: make_sublist_def listV2_ok_def)
  have num: "sl_cuNum (make_sublist lp is) = int (length (sl_cuProps (make_sublist lp is)))"
    "length (sl_cuProps (make_sublist lp is)) = length is" "length is \<le> ?n"
    using sv'(4) n by (simp_all add: make_sublist_def)
  note sp = alloc_sublist_spec [OF holding_parts(1) [OF h(1)] props num(1) _ run, unfolded num(2), OF num(3)]
  show ?thesis
  proof (cases "ret = XRM_SUCCESS")
    case False
    then have "holding s {} (lr_cuResources lr) s'" using sp holding_any by simp
    from holding_trans [OF h(1) this] have "holding s0 (allocated flags0) (lr_cuResources lr) s'" by simp
    with False h fl' show ?thesis by (simp add: v2_failed_def v2_holds_def)
  next
    case True
    then have g: "holding s {..<length is} (lr_cuResources sub) s'" "lr_cuNum sub = int (length is)"
      using sp num by simp_all
    have sub: "set is \<subseteq> {..<length (lr_cuResources lr)}" using sv'(2) n h(3) by auto
    obtain fl2 lr2 where c: "copy_sublist is sub (flags', lr) = (fl2, lr2)" by fastforce
    have c': "length fl2 = ?n" "handled fl2 = set is \<union> handled flags0" "allocated fl2 = set is \<union> handled flags0"
      "length (lr_cuResources lr2) = ?n" "lr_cuNum lr2 = lr_cuNum lr"
      "\<And>i. i < length is \<Longrightarrow> same_ids (lr_cuResources sub ! i) (lr_cuResources lr2 ! (is ! i))"
      "\<And>j. j \<notin> set is \<Longrightarrow> lr_cuResources lr2 ! j = lr_cuResources lr ! j"
      using copy_sublist_fold [OF sv'(1) sub _ order_refl c [unfolded copy_sublist_def g(2) nat_int]] h fl'
      by simp_all
    have img: "(!) is ` {..<length is} = set is" by (auto simp: set_conv_nth)
    have "holding s0 (allocated flags0 \<union> (!) is ` {..<length is}) (lr_cuResources lr2) s'"
    proof (rule holding_join [OF h(1) g(1)])
      show "inj_on ((!) is) {..<length is}" using sv'(1) by (simp add: inj_on_nth)
      show "(!) is ` {..<length is} \<subseteq> {..<length (lr_cuResources lr)}" unfolding img using sv'(2) n h by auto
      show "allocated flags0 \<inter> (!) is ` {..<length is} = {}" unfolding img using sv'(5) h(4) by auto
      show "same_ids (lr_cuResources lr ! i) (lr_cuResources lr2 ! i)" if "i \<in> allocated flags0" for i
      proof -
        have "i \<notin> set is" using that sv'(5) h(4) by auto
        then show ?thesis using c'(7) by (simp add: same_ids_def)
      qed
    qed (use c' h in simp_all)
    moreover have "card (set is \<union> handled flags0) = length is + card (handled flags0)"
      using sv'(1,5) h(6) finite_subset [OF h(6)] by (simp add: card_Un_disjoint distinct_card)
    ultimately show ?thesis
      using True c c' h g(2) sv'(2,3) by (auto simp: v2_done_def v2_holds_def img less_Suc_eq Un_commute)
  qed
qed

text \<open>One round of the loop.\<close>

lemma alloc_v2_step_spec:
  assumes d: "v2_done lp s0 k (flags, used, lr, s)" and k: "k < nat (l2_cuNum lp)"
    and n: "nat (l2_cuNum lp) \<le> XRM_MAX_LIST_CU_NUM_V2" and ok: "listV2_ok lp"
    and run: "alloc_v2_step lp k (flags, used, lr, s) = (res, st')"
  shows "case res of None \<Rightarrow> v2_done lp s0 (Suc k) st'
    | Some r \<Rightarrow> if r = XRM_SUCCESS then v2_done lp s0 (Suc k) st' else v2_failed lp s0 st'"
proof (cases "it_handled (flags ! k)")
  case True
  moreover have "k \<in> handled flags" using True d k n by (auto simp: handled_def v2_done_def v2_holds_def)
  ultimately show ?thesis using run d by (auto simp: alloc_v2_step_def v2_done_def less_Suc_eq)
next
  case False
  then have nk: "k \<notin> handled flags" by (simp add: handled_def)
  let ?p = "l2_cuProps lp ! k" and ?q = "cuPropertyCopyFromV2 (l2_cuProps lp ! k)"
  have pok: "prop_ok ?q" using ok k n by (auto simp: listV2_ok_def)
  have inv: "sys_inv s" using d by (auto simp: v2_done_def v2_holds_def dest: holding_parts(1))
  have one: ?thesis
    if al: "allocates alloc" and run: "alloc ?q (lr_cuResources lr ! k, s) = (r1, c1, s1)"
      and e: "(res, st') = (if r1 = XRM_SUCCESS
        then (Some r1, set_allocated k (set_handled k flags), used,
              lr\<lparr>lr_cuResources := (lr_cuResources lr)[k := c1], lr_cuNum := lr_cuNum lr + 1\<rparr>, s1)
        else (Some r1, set_handled k flags, used, lr\<lparr>lr_cuResources := (lr_cuResources lr)[k := c1]\<rparr>, s1))"
    for alloc r1 c1 s1
    using v2_one [OF d k nk n allocatesD [OF al inv pok run]] e by (auto split: if_splits)
  consider (null) "deviceInfoConstraintType ?p = XRM_DEVICE_INFO_CONSTRAINT_TYPE_NULL"
    | (hw) "deviceInfoConstraintType ?p \<noteq> XRM_DEVICE_INFO_CONSTRAINT_TYPE_NULL"
        "deviceInfoConstraintType ?p = XRM_DEVICE_INFO_CONSTRAINT_TYPE_HARDWARE_DEVICE_INDEX"
    | (virt) "deviceInfoConstraintType ?p \<noteq> XRM_DEVICE_INFO_CONSTRAINT_TYPE_NULL"
        "deviceInfoConstraintType ?p \<noteq> XRM_DEVICE_INFO_CONSTRAINT_TYPE_HARDWARE_DEVICE_INDEX"
        "deviceInfoConstraintType ?p = XRM_DEVICE_INFO_CONSTRAINT_TYPE_VIRTUAL_DEVICE_INDEX"
    | (other) "deviceInfoConstraintType ?p \<noteq> XRM_DEVICE_INFO_CONSTRAINT_TYPE_NULL"
        "deviceInfoConstraintType ?p \<noteq> XRM_DEVICE_INFO_CONSTRAINT_TYPE_HARDWARE_DEVICE_INDEX"
        "deviceInfoConstraintType ?p \<noteq> XRM_DEVICE_INFO_CONSTRAINT_TYPE_VIRTUAL_DEVICE_INDEX" by blast
  then show ?thesis
  proof cases
    case null
    obtain r1 c1 s1 where a: "resAllocCu ?q False (lr_cuResources lr ! k, s) = (r1, c1, s1)" by (metis prod_cases3)
    show ?thesis by (rule one [OF resAllocCu_allocates a]) (use run False null a in \<open>simp add: alloc_v2_step_def Let_def\<close>)
  next
    case hw
    obtain r1 c1 s1 where a: "resAllocCuFromDev (i32 (uint (deviceInfoDeviceIndex ?p))) ?q False
        (lr_cuResources lr ! k, s) = (r1, c1, s1)" by (metis prod_cases3)
    show ?thesis
      by (rule one [OF resAllocCuFromDev_allocates a]) (use run False hw a in \<open>simp add: alloc_v2_step_def Let_def\<close>)
  next
    case virt
    let ?is = "same_virtual lp k (set_handled k flags)" and ?fl = "fold set_handled (same_virtual lp k (set_handled k flags)) (set_handled k flags)"
    obtain r1 sub s1 where a: "resAllocCuSubListFromSameDevice (make_sublist lp ?is) used
        (cuListResource0 XRM_MAX_LIST_CU_NUM_V2, s) = (r1, sub, s1)" by (metis prod_cases3)
    obtain fl2 lr2 where c: "copy_sublist ?is sub (?fl, lr) = (fl2, lr2)" by fastforce
    have e: "(res, st') = (if r1 = XRM_SUCCESS
        then (Some r1, fl2, snd (insertDeviceIdList used (re_deviceId (lr_cuResources sub ! 0))),
              lr2\<lparr>lr_cuNum := lr_cuNum lr2 + lr_cuNum sub\<rparr>, s1)
        else (Some r1, ?fl, used, lr, s1))"
      using run False virt a c by (cases "r1 = XRM_SUCCESS") (simp_all add: alloc_v2_step_def Let_def)
    show ?thesis
      using v2_sublist [OF d k nk n ok refl refl a] e c by (auto split: if_splits)
  next
    case other
    have "v2_failed lp s0 (set_handled k flags, used, lr, s)"
      using d by (auto simp: v2_done_def v2_failed_def v2_holds_def)
    with run False other show ?thesis by (auto simp: alloc_v2_step_def Let_def)
  qed
qed

lemma alloc_v2_step_cases:
  assumes "v2_done lp s0 k st" "k < nat (l2_cuNum lp)" "nat (l2_cuNum lp) \<le> XRM_MAX_LIST_CU_NUM_V2" "listV2_ok lp"
  shows "alloc_v2_step lp k st = (None, st') \<Longrightarrow> v2_done lp s0 (Suc k) st'"
    "alloc_v2_step lp k st = (Some r, st') \<Longrightarrow> if r = XRM_SUCCESS then v2_done lp s0 (Suc k) st' else v2_failed lp s0 st'"
proof -
  obtain fl used lr s where st: "st = (fl, used, lr, s)" by (metis prod_cases4)
  note sp = alloc_v2_step_spec [OF assms(1) [unfolded st] assms(2-4), folded st]
  show "alloc_v2_step lp k st = (None, st') \<Longrightarrow> v2_done lp s0 (Suc k) st'"
    by (drule sp) simp
  show "alloc_v2_step lp k st = (Some r, st') \<Longrightarrow> if r = XRM_SUCCESS then v2_done lp s0 (Suc k) st' else v2_failed lp s0 st'"
    by (drule sp) simp
qed

text \<open>After a failure the members that were allocated are released.\<close>

lemma release_allocated:
  assumes "holding s0 {i\<in>A. a \<le> i} rs s" "A \<subseteq> {..<n}" "a \<le> n"
  shows "holding s0 {} rs (fold (\<lambda>i s. if i \<in> A then snd (resReleaseCuV2 (rs ! i) s) else s) [a..<n] s)"
  using assms
proof (induction "n - a" arbitrary: a s)
  case 0
  then have "{i\<in>A. a \<le> i} = {}" by auto
  with 0 show ?case by simp
next
  case (Suc m)
  then have a: "a < n" by simp
  then have up: "[a..<n] = a # [Suc a..<n]" by (rule upt_conv_Cons)
  let ?t = "if a \<in> A then snd (resReleaseCuV2 (rs ! a) s) else s"
  have "holding s0 {i\<in>A. Suc a \<le> i} rs ?t"
  proof (cases "a \<in> A")
    case True
    then have "a \<in> {i\<in>A. a \<le> i}" by simp
    from holding_release(2) [OF Suc.prems(1) this, of "fst (resReleaseCu (rs ! a) s)"]
    have "holding s0 ({i\<in>A. a \<le> i} - {a}) rs (snd (resReleaseCu (rs ! a) s))" by simp
    moreover have "{i\<in>A. a \<le> i} - {a} = {i\<in>A. Suc a \<le> i}" by auto
    ultimately show ?thesis using True by (simp add: resReleaseCuV2_same)
  next
    case False
    then have "{i\<in>A. a \<le> i} = {i\<in>A. Suc a \<le> i}" by (auto simp: Suc_le_eq order.order_iff_strict)
    with False Suc.prems(1) show ?thesis by simp
  qed
  with Suc.hyps(1) [of "Suc a" ?t] Suc.hyps(2) Suc.prems(2) a show ?case by (simp add: up)
qed

lemma resAllocCuListV2_outcome:
  assumes inv: "sys_inv s" and ok: "listV2_ok lp"
    and lr: "length (lr_cuResources lr) = XRM_MAX_LIST_CU_NUM_V2" "lr_cuNum lr = 0"
    and run: "resAllocCuListV2 lp (lr, s) = (ret, lr', s')"
  shows "if ret = XRM_SUCCESS
    then \<exists>t. holding s {..<nat (l2_cuNum lp)} (lr_cuResources lr') t \<and> lr_cuNum lr' = l2_cuNum lp \<and>
      length (lr_cuResources lr') = XRM_MAX_LIST_CU_NUM_V2 \<and> 0 < l2_cuNum lp \<and>
      l2_cuNum lp \<le> int XRM_MAX_LIST_CU_NUM_V2 \<and> s' = updateAllocServiceId t
    else holding s {} [] s'"
proof (cases "l2_cuNum lp \<le> 0 \<or> l2_cuNum lp > int XRM_MAX_LIST_CU_NUM_V2")
  case True
  with run holding_refl [OF inv] show ?thesis by (auto simp: resAllocCuListV2_def)
next
  case False
  let ?n = "nat (l2_cuNum lp)"
  have n: "?n \<le> XRM_MAX_LIST_CU_NUM_V2" "0 < l2_cuNum lp" using False by auto
  obtain r fl used l t where loop: "until_error (alloc_v2_step lp) [0..<?n]
      (XRM_ERROR, itemFlags0, deviceIdList0, lr, s) = (r, fl, used, l, t)" by (metis prod_cases5)
  have "allocated itemFlags0 = {}" "handled itemFlags0 = {}"
    by (auto simp: allocated_def handled_def itemFlags0_def)
  then have start: "v2_done lp s 0 (itemFlags0, deviceIdList0, lr, s)"
    using holding_refl [OF inv] lr by (simp add: v2_done_def v2_holds_def itemFlags0_def)
  have st: "v2_done lp s ?n (fl, used, l, t) \<or> r \<noteq> XRM_SUCCESS \<and> v2_failed lp s (fl, used, l, t)"
  proof (rule until_error_rule [where J = "v2_done lp s" and F = "v2_failed lp s", OF start _ _ _ loop])
    show "v2_done lp s (Suc k) st'" if "k < ?n" "v2_done lp s k st" "alloc_v2_step lp k st = (None, st')" for k st st'
      by (rule alloc_v2_step_cases(1) [OF that(2,1) n(1) ok that(3)])
    show "if r = XRM_SUCCESS then v2_done lp s (Suc k) st' else v2_failed lp s st'"
      if "k < ?n" "v2_done lp s k st" "alloc_v2_step lp k st = (Some r, st')" for k st r st'
      by (rule alloc_v2_step_cases(2) [OF that(2,1) n(1) ok that(3)])
  qed simp
  have all: "allocated fl = {..<?n} \<and> lr_cuNum l = l2_cuNum lp" if "v2_done lp s ?n (fl, used, l, t)"
  proof -
    have "handled fl = {..<?n}" using that by (auto simp: v2_done_def)
    then show ?thesis using that n by (auto simp: v2_done_def)
  qed
  have "v2_holds s (fl, used, l, t) \<and> allocated fl \<subseteq> {..<?n}"
    using st by (elim disjE conjE) (simp_all add: v2_done_def v2_failed_def)
  then have h: "holding s (allocated fl) (lr_cuResources l) t" "length (lr_cuResources l) = XRM_MAX_LIST_CU_NUM_V2"
    "length fl = XRM_MAX_LIST_CU_NUM_V2" "allocated fl \<subseteq> {..<?n}"
    by (simp_all add: v2_holds_def)
  show ?thesis
  proof (cases "r = XRM_SUCCESS")
    case True
    with run False have e: "ret = XRM_SUCCESS" "lr' = l" "s' = updateAllocServiceId t"
      by (simp_all add: resAllocCuListV2_def loop)
    from st True have "v2_done lp s ?n (fl, used, l, t)" by simp
    from all [OF this] have "holding s {..<?n} (lr_cuResources lr') t" "lr_cuNum lr' = l2_cuNum lp"
      using h(1) e(2) by simp_all
    with e h(2) False show ?thesis
      by (intro if_P [THEN iffD2] exI [of _ t] conjI) simp_all
  next
    case F: False
    let ?rel = "\<lambda>i s. if i \<in> allocated fl then snd (resReleaseCuV2 (lr_cuResources l ! i) s) else s"
    have e: "ret = r" "s' = fold (\<lambda>i s. if it_allocated (fl ! i) then snd (resReleaseCuV2 (lr_cuResources l ! i) s) else s)
        [0..<?n] t"
      using run False F by (simp_all add: resAllocCuListV2_def loop)
    have "s' = fold ?rel [0..<?n] t"
    proof (unfold e(2), rule fold_cong)
      fix i assume "i \<in> set [0..<?n]"
      then have "i \<in> allocated fl \<longleftrightarrow> it_allocated (fl ! i)" using h(3) n(1) by (simp add: allocated_def)
      then show "(\<lambda>s. if it_allocated (fl ! i) then snd (resReleaseCuV2 (lr_cuResources l ! i) s) else s) = ?rel i"
        by simp
    qed simp_all
    moreover have "holding s {} (lr_cuResources l) (fold ?rel [0..<?n] t)"
      by (rule release_allocated) (use h in simp_all)
    ultimately show ?thesis using F e(1) holding_any by simp
  qed
qed

text \<open>A version 2 list is allocated completely or not at all, and its release gives it back.\<close>

lemma resAllocCuListV2_spec:
  assumes "sys_inv s" "listV2_ok lp" "length (lr_cuResources lr) = XRM_MAX_LIST_CU_NUM_V2" "lr_cuNum lr = 0"
    and "resAllocCuListV2 lp (lr, s) = (ret, lr', s')"
  shows "sys_inv s'" "load_inv s \<Longrightarrow> load_inv s'"
    "if ret = XRM_SUCCESS then adds_grants (nat (l2_cuNum lp)) s s' \<and> lr_cuNum lr' = l2_cuNum lp
     else grants s' = grants s"
proof -
  note out = resAllocCuListV2_outcome [OF assms]
  have h: "holding s {..<nat (l2_cuNum lp)} (lr_cuResources lr') s' \<and> lr_cuNum lr' = l2_cuNum lp"
    if "ret = XRM_SUCCESS" using out that by (auto simp: holding_update_id)
  have n: "holding s {} [] s'" if "ret \<noteq> XRM_SUCCESS" using out that by simp
  show "sys_inv s'" "load_inv s \<Longrightarrow> load_inv s'"
    "if ret = XRM_SUCCESS then adds_grants (nat (l2_cuNum lp)) s s' \<and> lr_cuNum lr' = l2_cuNum lp
     else grants s' = grants s"
    using h n holding_parts(1,2) holding_none holding_adds [of s "{..<nat (l2_cuNum lp)}"]
    by (cases "ret = XRM_SUCCESS"; auto)+
qed

lemma resAllocCuListV2_release:
  assumes "sys_inv s" "listV2_ok lp" "length (lr_cuResources lr) = XRM_MAX_LIST_CU_NUM_V2" "lr_cuNum lr = 0"
    and "resAllocCuListV2 lp (lr, s) = (XRM_SUCCESS, lr', s1)" "resReleaseCuListV2 lr' s1 = (ret, s2)"
  shows "ret = XRM_SUCCESS" "holding s {} [] s2"
proof -
  let ?n = "nat (l2_cuNum lp)"
  have h: "holding s {..<?n} (lr_cuResources lr') s1" "lr_cuNum lr' = l2_cuNum lp" "0 < l2_cuNum lp"
    "l2_cuNum lp \<le> int XRM_MAX_LIST_CU_NUM_V2" "length (lr_cuResources lr') = XRM_MAX_LIST_CU_NUM_V2"
    using resAllocCuListV2_outcome [OF assms(1-5)] by (auto simp: holding_update_id)
  have n: "?n \<le> length (lr_cuResources lr')" using h by linarith
  have run: "release_all resReleaseCu (drop 0 (take ?n (lr_cuResources lr'))) s1 = (ret, s2)"
    using assms(6) h by (simp add: resReleaseCuListV2_def resReleaseCuV2_same)
  have "holding s {0..<?n} (lr_cuResources lr') s1" using h(1) by (simp add: lessThan_atLeast0)
  from holding_release_all [OF this n _ run]
  show "ret = XRM_SUCCESS" "holding s {} [] s2" using holding_any by auto
qed

end
