(* ===== verification/Xrm_Tables.thy ===== *)
theory Xrm_Tables
  imports Xrm_Data
begin

text \<open>
  The slot tables of the daemon: the user defined compute unit groups, their version 2 and the plugins
  are each kept in an array with a counter, entries identified by name, new entries at the end, and a
  removal moving every later slot one step forward. The locale \<open>slot_table\<close> states what such a table
  promises, over the list of the entries in use; its lemmas show that the table refines a finite map from
  names to entries, for single operations and for any sequence of them.
\<close>

section \<open>Moving slots with a copy function\<close>

text \<open>
  The loop of \<open>resUdfCuGroupUndeclare\<close>: like the plain shift, but a slot is filled by a copy that keeps
  the part of the destination it does not write.
\<close>

function shift_with :: "('a \<Rightarrow> 'a \<Rightarrow> 'a) \<Rightarrow> nat \<Rightarrow> nat \<Rightarrow> 'a list \<Rightarrow> nat \<times> 'a list" where
  "shift_with cp i n xs =
     (if i + 1 < n then shift_with cp (i + 1) n (xs[i := cp (xs ! (i + 1)) (xs ! i)]) else (i, xs))"
  by pat_completeness auto
termination
  by (relation "measure (\<lambda>(cp, i, n, xs). n - i)") auto

declare shift_with.simps [simp del]

lemma shift_with_view:
  assumes "\<And>a. a \<in> set xs \<Longrightarrow> ok a"
    and "\<And>a b. ok a \<Longrightarrow> ok b \<Longrightarrow> view (cp a b) = view a \<and> ok (cp a b)"
    and "i < n" "n \<le> length xs" "shift_with cp i n xs = (j, ys)"
  shows "shift_loop i n (map view xs) = (j, map view ys)" "\<forall>a\<in>set ys. ok a" "length ys = length xs"
proof -
  have "shift_loop i n (map view xs) = (j, map view ys) \<and> (\<forall>a\<in>set ys. ok a) \<and> length ys = length xs"
    using assms
  proof (induction cp i n xs rule: shift_with.induct)
    case (1 cp i n xs)
    let ?xs = "xs[i := cp (xs ! (i + 1)) (xs ! i)]"
    show ?case
    proof (cases "i + 1 < n")
      case False
      with 1(2-) show ?thesis by (auto simp: shift_with.simps shift_loop.simps)
    next
      case True
      have m: "xs ! (i + 1) \<in> set xs" "xs ! i \<in> set xs" using True 1(5) by simp_all
      then have v: "view (cp (xs ! (i + 1)) (xs ! i)) = view (xs ! (i + 1)) \<and> ok (cp (xs ! (i + 1)) (xs ! i))"
        using 1(2,3) by blast
      have "map view ?xs = (map view xs)[i := map view xs ! (i + 1)]"
        using v True 1(5) by (simp add: map_update)
      moreover have "ok a" if "a \<in> set ?xs" for a
        using that v 1(2) set_update_subset_insert by fastforce
      moreover have "shift_with cp (i + 1) n ?xs = (j, ys)"
        using True 1(6) by (simp add: shift_with.simps [of cp i])
      ultimately show ?thesis
        using 1(1) [OF True] 1(3,5) True by (simp add: shift_loop.simps [of i])
    qed
  qed
  then show "shift_loop i n (map view xs) = (j, map view ys)" "\<forall>a\<in>set ys. ok a" "length ys = length xs"
    by simp_all
qed

text \<open>The removal as the code performs it, the last slot flushed by \<open>flush\<close>.\<close>

definition remove_with :: "('a \<Rightarrow> 'a \<Rightarrow> 'a) \<Rightarrow> ('a \<Rightarrow> 'a) \<Rightarrow> nat \<Rightarrow> nat \<Rightarrow> 'a list \<Rightarrow> 'a list" where
  "remove_with cp flush i n xs = (case shift_with cp i n xs of (j, ys) \<Rightarrow> ys[j := flush (ys ! j)])"

lemma remove_with_view:
  assumes "\<And>a. a \<in> set xs \<Longrightarrow> ok a"
    and "\<And>a b. ok a \<Longrightarrow> ok b \<Longrightarrow> view (cp a b) = view a \<and> ok (cp a b)"
    and "\<And>a. ok a \<Longrightarrow> ok (flush a)" "i < n" "n \<le> length xs"
  shows "map view (take (n - 1) (remove_with cp flush i n xs)) =
      take i (map view (take n xs)) @ drop (Suc i) (map view (take n xs))"
    "\<forall>a\<in>set (remove_with cp flush i n xs). ok a" "length (remove_with cp flush i n xs) = length xs"
proof -
  obtain j ys where run: "shift_with cp i n xs = (j, ys)" by fastforce
  note sh = shift_with_view [OF assms(1,2,4,5) run]
  have j: "j = n - 1" and ys: "map view ys = take i (map view xs) @ drop (Suc i) (take n (map view xs)) @
      drop (n - 1) (map view xs)"
    using sh(1) shift_loop_eq [of i n "map view xs"] assms(4,5) by auto
  have "map view (take (n - 1) (ys[n - 1 := flush (ys ! (n - 1))])) = take (n - 1) (map view ys)"
    by (simp add: take_map)
  also have "\<dots> = take i (map view (take n xs)) @ drop (Suc i) (map view (take n xs))"
    unfolding ys using assms(4,5) Suc_leI [of i n] by (simp add: take_map drop_map min.absorb2 min.absorb1)
  finally show "map view (take (n - 1) (remove_with cp flush i n xs)) =
      take i (map view (take n xs)) @ drop (Suc i) (map view (take n xs))"
    by (simp add: remove_with_def run j)
  show "length (remove_with cp flush i n xs) = length xs" using sh(3) by (simp add: remove_with_def run)
  have "ok (ys ! j)" using sh(2,3) j assms(4,5) by (metis diff_less less_le_trans nth_mem zero_less_one less_nat_zero_code not_gr_zero)
  then show "\<forall>a\<in>set (remove_with cp flush i n xs). ok a"
    using sh(2) assms(3) set_update_subset_insert [of ys j] by (fastforce simp: remove_with_def run)
qed

lemma shift_with_plain: "shift_with (\<lambda>a b. a) i n xs = shift_loop i n xs"
proof (induction i n xs rule: shift_loop.induct)
  case (1 i n xs)
  then show ?case by (simp add: shift_with.simps [of _ i] shift_loop.simps [of i])
qed

lemma remove_with_plain: "remove_with (\<lambda>a b. a) (\<lambda>a. z) i n xs = remove_slot i n z xs"
  by (simp add: remove_with_def remove_slot_def shift_with_plain)

section \<open>The contract of a slot table\<close>

datatype 'e table_op = Insert 'e | Delete string

text \<open>An operation on a table, the same operation on a finite map, and sequences of either.\<close>

fun table_step :: "('e \<Rightarrow> 't \<Rightarrow> int \<times> 't) \<Rightarrow> (string \<Rightarrow> 't \<Rightarrow> int \<times> 't) \<Rightarrow> 'e table_op \<Rightarrow> 't \<Rightarrow> bool \<times> 't" where
  "table_step ins del (Insert e) t = (case ins e t of (r, t') \<Rightarrow> (r = XRM_SUCCESS, t'))"
| "table_step ins del (Delete k) t = (case del k t of (r, t') \<Rightarrow> (r = XRM_SUCCESS, t'))"

fun map_step :: "('e \<Rightarrow> string) \<Rightarrow> ('e \<Rightarrow> 'e) \<Rightarrow> 'e table_op \<Rightarrow> (string \<rightharpoonup> 'e) \<Rightarrow> bool \<times> (string \<rightharpoonup> 'e)" where
  "map_step name stored (Insert e) m =
     (if m (name e) = None then (True, m(name e \<mapsto> stored e)) else (False, m))"
| "map_step name stored (Delete k) m = (m k \<noteq> None, m(k := None))"

fun run_steps :: "('o \<Rightarrow> 't \<Rightarrow> bool \<times> 't) \<Rightarrow> 'o list \<Rightarrow> 't \<Rightarrow> bool list \<times> 't" where
  "run_steps step [] t = ([], t)"
| "run_steps step (x # xs) t =
     (case step x t of (b, t') \<Rightarrow> (case run_steps step xs t' of (bs, t'') \<Rightarrow> (b # bs, t'')))"

fun admitted :: "('e \<Rightarrow> 't \<Rightarrow> bool) \<Rightarrow> ('e table_op \<Rightarrow> 't \<Rightarrow> bool \<times> 't) \<Rightarrow> 'e table_op list \<Rightarrow> 't \<Rightarrow> bool" where
  "admitted adm step [] t \<longleftrightarrow> True"
| "admitted adm step (x # xs) t \<longleftrightarrow>
     (case x of Insert e \<Rightarrow> adm e t | Delete k \<Rightarrow> CHR 0x00 \<notin> set k) \<and> admitted adm step xs (snd (step x t))"

text \<open>The finite map a list of entries stands for.\<close>

definition table_map :: "('e \<Rightarrow> string) \<Rightarrow> 'e list \<Rightarrow> string \<rightharpoonup> 'e" where
  "table_map name es = map_of (map (\<lambda>e. (name e, e)) es)"

lemma table_map_simps [simp]:
  "table_map name [] = Map.empty" "table_map name (e # es) = (table_map name es)(name e \<mapsto> e)"
  by (simp_all add: table_map_def)

lemma table_map_None [simp]: "table_map name es k = None \<longleftrightarrow> k \<notin> name ` set es"
  by (induction es) auto

lemma table_map_append:
  "name e \<notin> name ` set es \<Longrightarrow> table_map name (es @ [e]) = (table_map name es)(name e \<mapsto> e)"
  by (induction es) (auto simp: fun_upd_twist)

lemma table_map_remove:
  "distinct (map name (xs @ x # ys)) \<Longrightarrow>
   table_map name (xs @ ys) = (table_map name (xs @ x # ys))(name x := None)"
proof (induction xs)
  case Nil
  then show ?case by (auto simp: fun_eq_iff)
next
  case (Cons z zs)
  then show ?case by (auto simp: fun_upd_twist)
qed

lemma table_map_delete:
  assumes "distinct (map name es)" "i < length es"
  shows "table_map name (take i es @ drop (Suc i) es) = (table_map name es)(name (es ! i) := None)"
  using table_map_remove [of name "take i es" "es ! i" "drop (Suc i) es"] assms
  by (simp add: id_take_nth_drop [symmetric])

text \<open>
  Names are C strings, without a null character. \<open>entries\<close> is the list of entries in use, \<open>stored e\<close> what the table keeps of an entry \<open>e\<close>, \<open>admits\<close> the
  condition under which the code stays inside its arrays, \<open>ok\<close> the invariant of the table.
\<close>

locale slot_table =
  fixes entries :: "'t \<Rightarrow> 'e list"
    and name_of :: "'e \<Rightarrow> string"
    and stored :: "'e \<Rightarrow> 'e"
    and ok :: "'t \<Rightarrow> bool"
    and admits :: "'e \<Rightarrow> 't \<Rightarrow> bool"
    and insert_op :: "'e \<Rightarrow> 't \<Rightarrow> int \<times> 't"
    and delete_op :: "string \<Rightarrow> 't \<Rightarrow> int \<times> 't"
  assumes name_stored: "name_of (stored e) = name_of e"
    and distinct_names: "ok t \<Longrightarrow> distinct (map name_of (entries t))"
    and insert_new: "ok t \<Longrightarrow> admits e t \<Longrightarrow> name_of e \<notin> name_of ` set (entries t) \<Longrightarrow>
      insert_op e t = (r, t') \<Longrightarrow> ok t' \<and> r = XRM_SUCCESS \<and> entries t' = entries t @ [stored e]"
    and insert_dup: "ok t \<Longrightarrow> name_of e \<in> name_of ` set (entries t) \<Longrightarrow>
      insert_op e t = (r, t') \<Longrightarrow> t' = t \<and> r \<noteq> XRM_SUCCESS"
    and delete_old: "ok t \<Longrightarrow> i < length (entries t) \<Longrightarrow> name_of (entries t ! i) = k \<Longrightarrow>
      delete_op k t = (r, t') \<Longrightarrow>
      ok t' \<and> r = XRM_SUCCESS \<and> entries t' = take i (entries t) @ drop (Suc i) (entries t)"
    and delete_unknown: "ok t \<Longrightarrow> CHR 0x00 \<notin> set k \<Longrightarrow> k \<notin> name_of ` set (entries t) \<Longrightarrow>
      delete_op k t = (r, t') \<Longrightarrow> t' = t \<and> r \<noteq> XRM_SUCCESS"
begin

text \<open>Inserting is the update of the map at a name it does not hold, deleting the removal of the name.\<close>

lemma insert_table:
  assumes "ok t" "admits e t" "insert_op e t = (r, t')"
  shows "ok t' \<and> (r = XRM_SUCCESS, table_map name_of (entries t')) =
    map_step name_of stored (Insert e) (table_map name_of (entries t))"
proof (cases "name_of e \<in> name_of ` set (entries t)")
  case True
  with insert_dup [OF assms(1) True assms(3)] assms(1) show ?thesis by simp
next
  case False
  with insert_new [OF assms(1,2) False assms(3)] show ?thesis
    using table_map_append [of name_of "stored e" "entries t"] by (simp add: name_stored)
qed

lemma delete_table:
  assumes "ok t" "CHR 0x00 \<notin> set k" "delete_op k t = (r, t')"
  shows "ok t' \<and> (r = XRM_SUCCESS, table_map name_of (entries t')) =
    map_step name_of stored (Delete k) (table_map name_of (entries t))"
proof (cases "k \<in> name_of ` set (entries t)")
  case False
  with delete_unknown [OF assms(1,2) False assms(3)] assms(1) show ?thesis by (simp add: fun_upd_idem)
next
  case True
  then obtain i where i: "i < length (entries t)" "name_of (entries t ! i) = k"
    by (auto simp: in_set_conv_nth)
  with delete_old [OF assms(1) i assms(3)] table_map_delete [OF distinct_names [OF assms(1)] i(1)] True
  show ?thesis by simp
qed

text \<open>A name that was just inserted can be deleted, which restores the entries.\<close>

lemma insert_delete:
  assumes "ok t" "admits e t" "insert_op e t = (XRM_SUCCESS, t1)" "delete_op (name_of e) t1 = (r, t2)"
  shows "ok t2 \<and> r = XRM_SUCCESS \<and> entries t2 = entries t"
proof -
  have "name_of e \<notin> name_of ` set (entries t)" using insert_dup [OF assms(1) _ assms(3)] by auto
  note new = insert_new [OF assms(1,2) this assms(3)]
  have "length (entries t) < length (entries t1)" "name_of (entries t1 ! length (entries t)) = name_of e"
    using new by (simp_all add: name_stored)
  from delete_old [OF _ this assms(4)] new show ?thesis by simp
qed

text \<open>Every sequence of operations answers and ends as the same sequence on the map does.\<close>

lemma step_refines:
  assumes "ok t" "case x of Insert e \<Rightarrow> admits e t | Delete k \<Rightarrow> CHR 0x00 \<notin> set k"
    and "table_step insert_op delete_op x t = (b, t')"
  shows "ok t' \<and> (b, table_map name_of (entries t')) = map_step name_of stored x (table_map name_of (entries t))"
proof (cases x)
  case (Insert e)
  obtain r u where run: "insert_op e t = (r, u)" by fastforce
  from insert_table [OF assms(1) _ this] assms(2,3) run Insert show ?thesis by simp
next
  case (Delete k)
  obtain r u where run: "delete_op k t = (r, u)" by fastforce
  from delete_table [OF assms(1) _ this] assms(2,3) run Delete show ?thesis by simp
qed

lemma steps_refine:
  assumes "ok t" "admitted admits (table_step insert_op delete_op) xs t"
    and "run_steps (table_step insert_op delete_op) xs t = (bs, t')"
  shows "ok t' \<and> run_steps (map_step name_of stored) xs (table_map name_of (entries t)) =
    (bs, table_map name_of (entries t'))"
  using assms
proof (induction xs arbitrary: t bs t')
  case (Cons x xs)
  obtain b u where st: "table_step insert_op delete_op x t = (b, u)" by fastforce
  obtain cs v where rest: "run_steps (table_step insert_op delete_op) xs u = (cs, v)" by fastforce
  have x: "ok u \<and> (b, table_map name_of (entries u)) = map_step name_of stored x (table_map name_of (entries t))"
    by (rule step_refines [OF Cons.prems(1) _ st]) (use Cons.prems(2) in simp)
  have "ok v \<and> run_steps (map_step name_of stored) xs (table_map name_of (entries u)) =
      (cs, table_map name_of (entries v))"
    by (rule Cons.IH [OF _ _ rest]) (use x Cons.prems(2) st in auto)
  then show ?case using x [THEN conjunct2, symmetric] Cons.prems(3) st rest by simp
qed simp

end

section \<open>Tables kept in an array\<close>

text \<open>
  How the three tables are programmed: an array of slots and a counter, a linear search by name, an entry
  copied into the first slot that is not in use, a slot removed by copying every later one a step
  forward and flushing the last. \<open>cp src des\<close> is the copy into a slot, \<open>view\<close> the part of a slot that is
  used, \<open>fits\<close> the entries the code can store.
\<close>

locale array_table =
  fixes slots :: "'t \<Rightarrow> 'a list" and count :: "'t \<Rightarrow> nat" and put :: "'a list \<Rightarrow> nat \<Rightarrow> 't \<Rightarrow> 't"
    and cap :: nat
    and slot_name :: "'a \<Rightarrow> string" and cp :: "'a \<Rightarrow> 'a \<Rightarrow> 'a" and flush :: "'a \<Rightarrow> 'a"
    and view :: "'a \<Rightarrow> 'a" and slot_ok :: "'a \<Rightarrow> bool" and fits :: "'a \<Rightarrow> bool"
    and declare_op :: "'a \<Rightarrow> 't \<Rightarrow> int \<times> 't" and undeclare_op :: "string \<Rightarrow> 't \<Rightarrow> int \<times> 't"
  assumes put_get: "slots (put xs n t) = xs" "count (put xs n t) = n"
    and cp_ok: "slot_ok a \<Longrightarrow> slot_ok b \<Longrightarrow> view (cp a b) = view a \<and> slot_ok (cp a b)"
    and flush_ok: "slot_ok a \<Longrightarrow> slot_ok (flush a)"
    and view_name: "slot_name (view a) = slot_name a"
    and fits_ok: "fits a \<Longrightarrow> slot_ok a \<and> CHR 0x00 \<notin> set (slot_name a)"
    and declare_found: "first_index (count t) (\<lambda>i. slot_name (slots t ! i) = c_str (slot_name e)) \<noteq> None \<Longrightarrow>
      fst (declare_op e t) \<noteq> XRM_SUCCESS \<and> snd (declare_op e t) = t"
    and declare_free: "first_index (count t) (\<lambda>i. slot_name (slots t ! i) = c_str (slot_name e)) = None \<Longrightarrow>
      fits e \<Longrightarrow> count t < cap \<Longrightarrow>
      declare_op e t = (XRM_SUCCESS, put ((slots t)[count t := cp e (slots t ! count t)]) (count t + 1) t)"
    and undeclare_found: "first_index (count t) (\<lambda>i. slot_name (slots t ! i) = c_str k) = Some i \<Longrightarrow>
      undeclare_op k t = (XRM_SUCCESS, put (remove_with cp flush i (count t) (slots t)) (count t - 1) t)"
    and undeclare_unknown: "first_index (count t) (\<lambda>i. slot_name (slots t ! i) = c_str k) = None \<Longrightarrow>
      fst (undeclare_op k t) \<noteq> XRM_SUCCESS \<and> snd (undeclare_op k t) = t"
begin

definition in_use :: "'t \<Rightarrow> 'a list" where
  "in_use t = map view (take (count t) (slots t))"

definition table_ok :: "'t \<Rightarrow> bool" where
  "table_ok t \<longleftrightarrow> length (slots t) = cap \<and> count t \<le> cap \<and> (\<forall>a\<in>set (slots t). slot_ok a) \<and>
     (\<forall>a\<in>set (in_use t). CHR 0x00 \<notin> set (slot_name a)) \<and> distinct (map slot_name (in_use t))"

lemma in_use_nth: "table_ok t \<Longrightarrow> i < count t \<Longrightarrow> slot_name (slots t ! i) = slot_name (in_use t ! i)"
  by (simp add: in_use_def table_ok_def view_name)

lemma length_in_use: "table_ok t \<Longrightarrow> length (in_use t) = count t"
  by (simp add: in_use_def table_ok_def)

lemma found_None:
  assumes "table_ok t"
  shows "first_index (count t) (\<lambda>i. slot_name (slots t ! i) = k) = None \<longleftrightarrow> k \<notin> slot_name ` set (in_use t)"
  using length_in_use [OF assms]
  by (simp add: in_use_nth [OF assms]) (metis (no_types, lifting) imageE image_eqI in_set_conv_nth)

lemma found_Some:
  assumes "table_ok t" "i < length (in_use t)" "slot_name (in_use t ! i) = k"
  shows "first_index (count t) (\<lambda>i. slot_name (slots t ! i) = k) = Some i"
proof (rule first_indexI)
  show "i < count t" "slot_name (slots t ! i) = k" using assms by (auto simp: length_in_use in_use_nth)
  fix j assume j: "j < i"
  with assms have "map slot_name (in_use t) ! j \<noteq> map slot_name (in_use t) ! i"
    by (subst nth_eq_iff_index_eq) (auto simp: table_ok_def)
  with j assms show "slot_name (slots t ! j) \<noteq> k" by (simp add: length_in_use in_use_nth)
qed

lemma declare_new:
  assumes ok: "table_ok t" and e: "fits e" "count t < cap" "slot_name e \<notin> slot_name ` set (in_use t)"
    and run: "declare_op e t = (r, t')"
  shows "table_ok t' \<and> r = XRM_SUCCESS \<and> in_use t' = in_use t @ [view e]"
proof -
  let ?e = "cp e (slots t ! count t)"
  have ce: "c_str (slot_name e) = slot_name e" "CHR 0x00 \<notin> set (slot_name e)" "slot_ok e"
    using fits_ok [OF e(1)] by (simp_all add: c_str_no_nul)
  have s: "slot_ok (slots t ! count t)" using ok e(2) by (simp add: table_ok_def)
  note cp = cp_ok [OF ce(3) s]
  have r: "r = XRM_SUCCESS" "t' = put ((slots t)[count t := ?e]) (count t + 1) t"
    using declare_free [of t e] found_None [OF ok] e ce(1) run by simp_all
  have u: "in_use t' = in_use t @ [view e]"
    using ok e(2) cp by (simp add: r in_use_def put_get take_Suc_update table_ok_def)
  moreover have "table_ok t'"
    unfolding table_ok_def u using ok e cp ce(2) set_update_subset_insert [of "slots t" "count t" ?e]
    by (auto simp: table_ok_def r(2) put_get view_name)
  ultimately show ?thesis using r(1) by blast
qed

lemma undeclare_old:
  assumes ok: "table_ok t" and i: "i < length (in_use t)" "slot_name (in_use t ! i) = k"
    and run: "undeclare_op k t = (r, t')"
  shows "table_ok t' \<and> r = XRM_SUCCESS \<and> in_use t' = take i (in_use t) @ drop (Suc i) (in_use t)"
proof -
  have "CHR 0x00 \<notin> set k" using ok i by (auto simp: table_ok_def)
  then have "first_index (count t) (\<lambda>i. slot_name (slots t ! i) = c_str k) = Some i"
    using found_Some [OF ok i] by (simp add: c_str_no_nul)
  from undeclare_found [OF this] run have r: "r = XRM_SUCCESS"
    "t' = put (remove_with cp flush i (count t) (slots t)) (count t - 1) t" by simp_all
  have len: "i < count t" "count t \<le> length (slots t)" using ok i length_in_use by (auto simp: table_ok_def)
  have sok: "\<And>a. a \<in> set (slots t) \<Longrightarrow> slot_ok a" using ok by (simp add: table_ok_def)
  note rw = remove_with_view [of "slots t" slot_ok view cp flush, OF sok cp_ok flush_ok len]
  have u: "in_use t' = take i (in_use t) @ drop (Suc i) (in_use t)"
    using rw(1) by (simp add: r in_use_def put_get)
  have "set (in_use t') \<subseteq> set (in_use t)" unfolding u by (auto dest: in_set_takeD in_set_dropD)
  moreover have "distinct (map slot_name (in_use t'))"
    using distinct_take_drop_remove [of "map slot_name (in_use t)" i] ok i(1)
    by (simp add: u table_ok_def take_map drop_map)
  ultimately have "table_ok t'" using ok rw(2,3) len by (auto simp: table_ok_def r(2) put_get)
  with r u show ?thesis by blast
qed

text \<open>A table kept this way keeps the contract.\<close>

sublocale slot_table in_use slot_name view table_ok "\<lambda>e t. fits e \<and> count t < cap" declare_op undeclare_op
proof unfold_locales
  fix t t' e k r i
  show "slot_name (view e) = slot_name e" by (rule view_name)
  show "distinct (map slot_name (in_use t))" if "table_ok t" using that by (simp add: table_ok_def)
  show "table_ok t' \<and> r = XRM_SUCCESS \<and> in_use t' = in_use t @ [view e]"
    if "table_ok t" "fits e \<and> count t < cap" "slot_name e \<notin> slot_name ` set (in_use t)" "declare_op e t = (r, t')"
    using declare_new that by blast
  show "t' = t \<and> r \<noteq> XRM_SUCCESS"
    if "table_ok t" "slot_name e \<in> slot_name ` set (in_use t)" "declare_op e t = (r, t')"
  proof -
    have "CHR 0x00 \<notin> set (slot_name e)" using that(1,2) by (auto simp: table_ok_def)
    then show ?thesis
      using declare_found [of t e] found_None [OF that(1), of "slot_name e"] that(2,3) by (simp add: c_str_no_nul)
  qed
  show "table_ok t' \<and> r = XRM_SUCCESS \<and> in_use t' = take i (in_use t) @ drop (Suc i) (in_use t)"
    if "table_ok t" "i < length (in_use t)" "slot_name (in_use t ! i) = k" "undeclare_op k t = (r, t')"
    by (rule undeclare_old [OF that])
  show "t' = t \<and> r \<noteq> XRM_SUCCESS"
    if "table_ok t" "CHR 0x00 \<notin> set k" "k \<notin> slot_name ` set (in_use t)" "undeclare_op k t = (r, t')"
    using undeclare_unknown [of t k] found_None [OF that(1), of k] that(2-) by (simp add: c_str_no_nul)
qed

lemma lookup_in_use:
  assumes ok: "table_ok t"
  shows "table_map slot_name (in_use t) k =
    map_option (\<lambda>i. in_use t ! i) (first_index (count t) (\<lambda>i. slot_name (slots t ! i) = k))"
proof (cases "first_index (count t) (\<lambda>i. slot_name (slots t ! i) = k)")
  case None
  with found_None [OF ok] have "table_map slot_name (in_use t) k = None" by simp
  then show ?thesis unfolding None by simp
next
  case (Some i)
  then have i: "i < length (in_use t)" "slot_name (in_use t ! i) = k"
    using first_index_SomeD [OF Some] ok by (auto simp: length_in_use in_use_nth)
  have "distinct (map fst (map (\<lambda>e. (slot_name e, e)) (in_use t)))" using ok by (simp add: table_ok_def comp_def)
  moreover have "(k, in_use t ! i) \<in> set (map (\<lambda>e. (slot_name e, e)) (in_use t))"
    using i nth_mem [OF i(1)] by (auto simp: image_iff)
  ultimately show ?thesis using Some by (simp add: table_map_def)
qed

end

end
