(* ===== verification/Xrm_Groups.thy ===== *)
theory Xrm_Groups
  imports Xrm_Tables Xrm_ListsV2_Inv
begin

text \<open>
  User defined compute unit groups, versions 1 and 2: a group is a name with up to eight lists of compute
  units, and allocating the group tries its lists in order. The tables \<open>m_udfCuGroups\<close> and
  \<open>m_udfCuGroupsV2\<close> are kept in arrays; the code checks neither their room nor the sizes of a declared
  group, and leaving the bounds is the fault of the model.
\<close>

section \<open>Version 1\<close>

record cuGroupProperty =
  gp_udfCuGroupName :: string
  gp_clientId :: u64
  gp_clientProcessId :: int
  gp_poolId :: u64

text \<open>The members of a list are copied field by field into a zeroed list.\<close>

definition copy_group_prop :: "cuProperty \<Rightarrow> cuProperty" where
  "copy_group_prop p = cuProperty0\<lparr>
     pr_cuName := strncpy (XRM_MAX_NAME_LEN - 1) (pr_cuName p),
     pr_devExcl := pr_devExcl p,
     pr_requestLoadUnified := pr_requestLoadUnified p,
     pr_requestLoadOriginal := pr_requestLoadOriginal p\<rparr>"

definition copy_group_list :: "cuListProperty \<Rightarrow> cuListProperty" where
  "copy_group_list l = \<lparr>
     lp_cuProps = map copy_group_prop (take (nat (lp_cuNum l)) (lp_cuProps l)) @
       replicate (XRM_MAX_LIST_CU_NUM - nat (lp_cuNum l)) cuProperty0,
     lp_cuNum = lp_cuNum l, lp_sameDevice = lp_sameDevice l\<rparr>"

text \<open>The copy into a slot keeps the lists of the slot beyond the number of lists of the source.\<close>

definition copy_group :: "udfCuGroupInformation \<Rightarrow> udfCuGroupInformation \<Rightarrow> udfCuGroupInformation" where
  "copy_group src des = \<lparr>
     ug_udfCuGroupName = ug_udfCuGroupName src,
     ug_optionUdfCuListProps =
       map copy_group_list (take (nat (ug_optionUdfCuListNum src)) (ug_optionUdfCuListProps src)) @
       drop (nat (ug_optionUdfCuListNum src)) (ug_optionUdfCuListProps des),
     ug_optionUdfCuListNum = ug_optionUdfCuListNum src\<rparr>"

text \<open>
  \<open>flushUdfCuGroupInfo\<close> sets the number of lists to 0 before its loop over that many lists, which
  therefore clears none.
\<close>

definition flushed_group :: "udfCuGroupInformation \<Rightarrow> udfCuGroupInformation" where
  "flushed_group g =
     (let g = g\<lparr>ug_udfCuGroupName := [], ug_optionUdfCuListNum := 0\<rparr>
      in fold (\<lambda>i g. g\<lparr>ug_optionUdfCuListProps := (ug_optionUdfCuListProps g)[i := \<lparr>
             lp_cuProps = replicate XRM_MAX_LIST_CU_NUM cuProperty0, lp_cuNum = 0, lp_sameDevice = False\<rparr>]\<rparr>)
           [0..<nat (ug_optionUdfCuListNum g)] g)"

definition flushUdfCuGroupInfo :: "nat \<Rightarrow> system \<Rightarrow> system" where
  "flushUdfCuGroupInfo i s = s\<lparr>m_udfCuGroups := (m_udfCuGroups s)[i := flushed_group (m_udfCuGroups s ! i)]\<rparr>"

definition find_group :: "string \<Rightarrow> system \<Rightarrow> nat option" where
  "find_group name s =
     first_index (m_numUdfCuGroup s) (\<lambda>i. ug_udfCuGroupName (m_udfCuGroups s ! i) = c_str name)"

definition list_in_bounds :: "cuListProperty \<Rightarrow> bool" where
  "list_in_bounds l \<longleftrightarrow> lp_cuNum l \<le> int XRM_MAX_LIST_CU_NUM"

definition group_in_bounds :: "udfCuGroupInformation \<Rightarrow> bool" where
  "group_in_bounds g \<longleftrightarrow> ug_optionUdfCuListNum g \<le> int XRM_MAX_UDF_CU_GROUP_OPTION_LIST_NUM \<and>
     list_all list_in_bounds (take (nat (ug_optionUdfCuListNum g)) (ug_optionUdfCuListProps g))"

definition resUdfCuGroupDeclare :: "udfCuGroupInformation \<Rightarrow> system \<Rightarrow> int \<times> system" where
  "resUdfCuGroupDeclare g s =
     (if find_group (ug_udfCuGroupName g) s \<noteq> None then (XRM_ERROR_INVALID, s)
      else let n = m_numUdfCuGroup s
           in if n < XRM_MAX_UDF_CU_GROUP_NUM \<and> group_in_bounds g
              then (XRM_SUCCESS, s\<lparr>m_udfCuGroups := (m_udfCuGroups s)[n := copy_group g (m_udfCuGroups s ! n)],
                      m_numUdfCuGroup := n + 1\<rparr>)
              else (XRM_SUCCESS, fault s))"

definition resUdfCuGroupUndeclare :: "string \<Rightarrow> system \<Rightarrow> int \<times> system" where
  "resUdfCuGroupUndeclare name s =
     (case find_group name s of
        None \<Rightarrow> (XRM_ERROR_INVALID, s)
      | Some i \<Rightarrow> (XRM_SUCCESS, s\<lparr>
            m_udfCuGroups := remove_with copy_group flushed_group i (m_numUdfCuGroup s) (m_udfCuGroups s),
            m_numUdfCuGroup := m_numUdfCuGroup s - 1\<rparr>))"

text \<open>\<open>resAllocCuGroup\<close>: the lists of the group in order, until one is allocated.\<close>

definition group_member :: "cuGroupProperty \<Rightarrow> cuProperty \<Rightarrow> cuProperty" where
  "group_member gp p = (copy_group_prop p)\<lparr>
     pr_clientId := gp_clientId gp,
     pr_clientProcessId := gp_clientProcessId gp,
     pr_poolId := gp_poolId gp\<rparr>"

definition group_request :: "cuGroupProperty \<Rightarrow> cuListProperty \<Rightarrow> cuListProperty" where
  "group_request gp l = \<lparr>
     lp_cuProps = map (group_member gp) (take (nat (lp_cuNum l)) (lp_cuProps l)) @
       replicate (XRM_MAX_LIST_CU_NUM - nat (lp_cuNum l)) cuProperty0,
     lp_cuNum = lp_cuNum l, lp_sameDevice = lp_sameDevice l\<rparr>"

definition try_list :: "('l \<Rightarrow> cuListResource \<times> system \<Rightarrow> int \<times> cuListResource \<times> system) \<Rightarrow> cuListResource \<Rightarrow>
    'l \<Rightarrow> int \<times> cuListResource \<times> system \<Rightarrow> bool \<times> int \<times> cuListResource \<times> system" where
  "try_list alloc lr0 l = (\<lambda>(_, _, s). case alloc l (lr0, s) of (ret, res) \<Rightarrow> (ret = XRM_SUCCESS, ret, res))"

definition resAllocCuGroup :: "cuGroupProperty \<Rightarrow> cuListResource \<times> system \<Rightarrow> int \<times> cuListResource \<times> system" where
  "resAllocCuGroup gp = (\<lambda>(lr, s).
     case find_group (gp_udfCuGroupName gp) s of
       None \<Rightarrow> (XRM_ERROR_INVALID, lr, s)
     | Some i \<Rightarrow>
         let g = m_udfCuGroups s ! i
         in snd (until_acquired (try_list resAllocCuList (cuListResource0 XRM_MAX_GROUP_CU_NUM))
              (map (group_request gp) (take (nat (ug_optionUdfCuListNum g)) (ug_optionUdfCuListProps g)))
              (XRM_ERROR, lr, s)))"

section \<open>Version 2\<close>

record cuGroupPropertyV2 =
  g2_udfCuGroupName :: string
  g2_clientId :: u64
  g2_clientProcessId :: int
  g2_poolId :: u64

text \<open>The copy leaves \<open>policyInfo\<close> out, here and when a slot is moved.\<close>

definition copy_group_propV2 :: "cuPropertyV2 \<Rightarrow> cuPropertyV2" where
  "copy_group_propV2 p = cuPropertyV2_0\<lparr>
     pr_cuName := strncpy (XRM_MAX_NAME_LEN - 1) (pr_cuName p),
     pr_devExcl := pr_devExcl p,
     p2_deviceInfo := p2_deviceInfo p,
     p2_memoryInfo := p2_memoryInfo p,
     pr_requestLoadUnified := pr_requestLoadUnified p,
     pr_requestLoadOriginal := pr_requestLoadOriginal p\<rparr>"

definition copy_group_listV2 :: "cuListPropertyV2 \<Rightarrow> cuListPropertyV2" where
  "copy_group_listV2 l = \<lparr>
     l2_cuProps = map copy_group_propV2 (take (nat (l2_cuNum l)) (l2_cuProps l)) @
       replicate (XRM_MAX_LIST_CU_NUM_V2 - nat (l2_cuNum l)) cuPropertyV2_0,
     l2_cuNum = l2_cuNum l\<rparr>"

definition copy_groupV2 :: "udfCuGroupInformationV2 \<Rightarrow> udfCuGroupInformationV2 \<Rightarrow> udfCuGroupInformationV2" where
  "copy_groupV2 src des = \<lparr>
     u2_udfCuGroupName = u2_udfCuGroupName src,
     u2_optionUdfCuListProps =
       map copy_group_listV2 (take (nat (u2_optionUdfCuListNum src)) (u2_optionUdfCuListProps src)) @
       drop (nat (u2_optionUdfCuListNum src)) (u2_optionUdfCuListProps des),
     u2_optionUdfCuListNum = u2_optionUdfCuListNum src\<rparr>"

definition flushed_groupV2 :: "udfCuGroupInformationV2 \<Rightarrow> udfCuGroupInformationV2" where
  "flushed_groupV2 g =
     (let g = g\<lparr>u2_udfCuGroupName := [], u2_optionUdfCuListNum := 0\<rparr>
      in fold (\<lambda>i g. g\<lparr>u2_optionUdfCuListProps := (u2_optionUdfCuListProps g)[i := \<lparr>
             l2_cuProps = replicate XRM_MAX_LIST_CU_NUM_V2 cuPropertyV2_0, l2_cuNum = 0\<rparr>]\<rparr>)
           [0..<nat (u2_optionUdfCuListNum g)] g)"

definition flushUdfCuGroupInfoV2 :: "nat \<Rightarrow> system \<Rightarrow> system" where
  "flushUdfCuGroupInfoV2 i s =
     s\<lparr>m_udfCuGroupsV2 := (m_udfCuGroupsV2 s)[i := flushed_groupV2 (m_udfCuGroupsV2 s ! i)]\<rparr>"

definition find_groupV2 :: "string \<Rightarrow> system \<Rightarrow> nat option" where
  "find_groupV2 name s =
     first_index (m_numUdfCuGroupV2 s) (\<lambda>i. u2_udfCuGroupName (m_udfCuGroupsV2 s ! i) = c_str name)"

definition list_in_boundsV2 :: "cuListPropertyV2 \<Rightarrow> bool" where
  "list_in_boundsV2 l \<longleftrightarrow> l2_cuNum l \<le> int XRM_MAX_LIST_CU_NUM_V2"

definition group_in_boundsV2 :: "udfCuGroupInformationV2 \<Rightarrow> bool" where
  "group_in_boundsV2 g \<longleftrightarrow> u2_optionUdfCuListNum g \<le> int XRM_MAX_UDF_CU_GROUP_OPTION_LIST_NUM \<and>
     list_all list_in_boundsV2 (take (nat (u2_optionUdfCuListNum g)) (u2_optionUdfCuListProps g))"

definition resUdfCuGroupDeclareV2 :: "udfCuGroupInformationV2 \<Rightarrow> system \<Rightarrow> int \<times> system" where
  "resUdfCuGroupDeclareV2 g s =
     (if find_groupV2 (u2_udfCuGroupName g) s \<noteq> None then (XRM_ERROR_INVALID, s)
      else let n = m_numUdfCuGroupV2 s
           in if n < XRM_MAX_UDF_CU_GROUP_NUM_V2 \<and> group_in_boundsV2 g
              then (XRM_SUCCESS, s\<lparr>m_udfCuGroupsV2 := (m_udfCuGroupsV2 s)[n := copy_groupV2 g (m_udfCuGroupsV2 s ! n)],
                      m_numUdfCuGroupV2 := n + 1\<rparr>)
              else (XRM_SUCCESS, fault s))"

definition resUdfCuGroupUndeclareV2 :: "string \<Rightarrow> system \<Rightarrow> int \<times> system" where
  "resUdfCuGroupUndeclareV2 name s =
     (case find_groupV2 name s of
        None \<Rightarrow> (XRM_ERROR_INVALID, s)
      | Some i \<Rightarrow> (XRM_SUCCESS, s\<lparr>
            m_udfCuGroupsV2 := remove_with copy_groupV2 flushed_groupV2 i (m_numUdfCuGroupV2 s) (m_udfCuGroupsV2 s),
            m_numUdfCuGroupV2 := m_numUdfCuGroupV2 s - 1\<rparr>))"

definition group_memberV2 :: "cuGroupPropertyV2 \<Rightarrow> cuPropertyV2 \<Rightarrow> cuPropertyV2" where
  "group_memberV2 gp p = (copy_group_propV2 p)\<lparr>
     pr_clientId := g2_clientId gp,
     pr_clientProcessId := g2_clientProcessId gp,
     pr_poolId := g2_poolId gp\<rparr>"

definition group_requestV2 :: "cuGroupPropertyV2 \<Rightarrow> cuListPropertyV2 \<Rightarrow> cuListPropertyV2" where
  "group_requestV2 gp l = \<lparr>
     l2_cuProps = map (group_memberV2 gp) (take (nat (l2_cuNum l)) (l2_cuProps l)) @
       replicate (XRM_MAX_LIST_CU_NUM_V2 - nat (l2_cuNum l)) cuPropertyV2_0,
     l2_cuNum = l2_cuNum l\<rparr>"

definition resAllocCuGroupV2 :: "cuGroupPropertyV2 \<Rightarrow> cuListResource \<times> system \<Rightarrow> int \<times> cuListResource \<times> system" where
  "resAllocCuGroupV2 gp = (\<lambda>(lr, s).
     case find_groupV2 (g2_udfCuGroupName gp) s of
       None \<Rightarrow> (XRM_ERROR_INVALID, lr, s)
     | Some i \<Rightarrow>
         let g = m_udfCuGroupsV2 s ! i
         in snd (until_acquired (try_list resAllocCuListV2 (cuListResource0 XRM_MAX_GROUP_CU_NUM_V2))
              (map (group_requestV2 gp) (take (nat (u2_optionUdfCuListNum g)) (u2_optionUdfCuListProps g)))
              (XRM_ERROR, lr, s)))"

definition initUdfCuGroups :: "system \<Rightarrow> system" where
  "initUdfCuGroups s =
     (let s1 = fold flushUdfCuGroupInfo [0..<XRM_MAX_UDF_CU_GROUP_NUM] (s\<lparr>m_numUdfCuGroup := 0\<rparr>)
      in fold flushUdfCuGroupInfoV2 [0..<XRM_MAX_UDF_CU_GROUP_NUM_V2] (s1\<lparr>m_numUdfCuGroupV2 := 0\<rparr>))"

section \<open>The tables of groups\<close>

text \<open>A slot of the table: the arrays have their sizes and the counters are within them.\<close>

definition group_ok :: "udfCuGroupInformation \<Rightarrow> bool" where
  "group_ok g \<longleftrightarrow> group_in_bounds g \<and>
     length (ug_optionUdfCuListProps g) = XRM_MAX_UDF_CU_GROUP_OPTION_LIST_NUM \<and>
     (\<forall>l\<in>set (ug_optionUdfCuListProps g). length (lp_cuProps l) = XRM_MAX_LIST_CU_NUM)"

definition group_okV2 :: "udfCuGroupInformationV2 \<Rightarrow> bool" where
  "group_okV2 g \<longleftrightarrow> group_in_boundsV2 g \<and>
     length (u2_optionUdfCuListProps g) = XRM_MAX_UDF_CU_GROUP_OPTION_LIST_NUM \<and>
     (\<forall>l\<in>set (u2_optionUdfCuListProps g). length (l2_cuProps l) = XRM_MAX_LIST_CU_NUM_V2)"

text \<open>What the table stores of a group: its lists, each with its members copied.\<close>

definition group_view :: "udfCuGroupInformation \<Rightarrow> udfCuGroupInformation" where
  "group_view g = g\<lparr>ug_optionUdfCuListProps :=
     map copy_group_list (take (nat (ug_optionUdfCuListNum g)) (ug_optionUdfCuListProps g))\<rparr>"

definition group_viewV2 :: "udfCuGroupInformationV2 \<Rightarrow> udfCuGroupInformationV2" where
  "group_viewV2 g = g\<lparr>u2_optionUdfCuListProps :=
     map copy_group_listV2 (take (nat (u2_optionUdfCuListNum g)) (u2_optionUdfCuListProps g))\<rparr>"

lemma copy_group_list_copy:
  assumes "list_in_bounds l" "length (lp_cuProps l) = XRM_MAX_LIST_CU_NUM"
  shows "copy_group_list (copy_group_list l) = copy_group_list l"
    "length (lp_cuProps (copy_group_list l)) = XRM_MAX_LIST_CU_NUM" "list_in_bounds (copy_group_list l)"
  using assms by (auto simp: copy_group_list_def copy_group_prop_def list_in_bounds_def comp_def min_def)

lemma copy_group_listV2_copy:
  assumes "list_in_boundsV2 l" "length (l2_cuProps l) = XRM_MAX_LIST_CU_NUM_V2"
  shows "copy_group_listV2 (copy_group_listV2 l) = copy_group_listV2 l"
    "length (l2_cuProps (copy_group_listV2 l)) = XRM_MAX_LIST_CU_NUM_V2" "list_in_boundsV2 (copy_group_listV2 l)"
  using assms by (auto simp: copy_group_listV2_def copy_group_propV2_def list_in_boundsV2_def comp_def min_def)

lemma copy_group_ok:
  assumes a: "group_ok a" and b: "group_ok b"
  shows "group_view (copy_group a b) = group_view a \<and> group_ok (copy_group a b)"
proof -
  let ?n = "nat (ug_optionUdfCuListNum a)" and ?ls = "ug_optionUdfCuListProps a"
  have n: "?n \<le> length ?ls" "?n \<le> length (ug_optionUdfCuListProps b)"
    using a b by (auto simp: group_ok_def group_in_bounds_def)
  have ls: "list_in_bounds l \<and> length (lp_cuProps l) = XRM_MAX_LIST_CU_NUM" if "l \<in> set (take ?n ?ls)" for l
    using that a in_set_takeD [OF that] by (auto simp: group_ok_def group_in_bounds_def list_all_iff)
  have lists: "take ?n (ug_optionUdfCuListProps (copy_group a b)) = map copy_group_list (take ?n ?ls)"
    using n by (simp add: copy_group_def min_def)
  have "group_view (copy_group a b) = group_view a"
    using lists ls copy_group_list_copy(1) by (auto simp: group_view_def copy_group_def)
  moreover have "group_ok (copy_group a b)"
    using lists a b n ls copy_group_list_copy(2,3)
    by (auto simp: group_ok_def group_in_bounds_def list_all_iff copy_group_def dest: in_set_dropD)
  ultimately show ?thesis by blast
qed

lemma copy_groupV2_ok:
  assumes a: "group_okV2 a" and b: "group_okV2 b"
  shows "group_viewV2 (copy_groupV2 a b) = group_viewV2 a \<and> group_okV2 (copy_groupV2 a b)"
proof -
  let ?n = "nat (u2_optionUdfCuListNum a)" and ?ls = "u2_optionUdfCuListProps a"
  have n: "?n \<le> length ?ls" "?n \<le> length (u2_optionUdfCuListProps b)"
    using a b by (auto simp: group_okV2_def group_in_boundsV2_def)
  have ls: "list_in_boundsV2 l \<and> length (l2_cuProps l) = XRM_MAX_LIST_CU_NUM_V2" if "l \<in> set (take ?n ?ls)" for l
    using that a in_set_takeD [OF that] by (auto simp: group_okV2_def group_in_boundsV2_def list_all_iff)
  have lists: "take ?n (u2_optionUdfCuListProps (copy_groupV2 a b)) = map copy_group_listV2 (take ?n ?ls)"
    using n by (simp add: copy_groupV2_def min_def)
  have "group_viewV2 (copy_groupV2 a b) = group_viewV2 a"
    using lists ls copy_group_listV2_copy(1) by (auto simp: group_viewV2_def copy_groupV2_def)
  moreover have "group_okV2 (copy_groupV2 a b)"
    using lists a b n ls copy_group_listV2_copy(2,3)
    by (auto simp: group_okV2_def group_in_boundsV2_def list_all_iff copy_groupV2_def dest: in_set_dropD)
  ultimately show ?thesis by blast
qed

lemma flushed_group_eq:
  "flushed_group g = g\<lparr>ug_udfCuGroupName := [], ug_optionUdfCuListNum := 0\<rparr>"
  "flushed_groupV2 h = h\<lparr>u2_udfCuGroupName := [], u2_optionUdfCuListNum := 0\<rparr>"
  by (simp_all add: flushed_group_def flushed_groupV2_def)

interpretation groups: array_table m_udfCuGroups m_numUdfCuGroup
  "\<lambda>xs n s. s\<lparr>m_udfCuGroups := xs, m_numUdfCuGroup := n\<rparr>" XRM_MAX_UDF_CU_GROUP_NUM
  ug_udfCuGroupName copy_group flushed_group group_view group_ok
  "\<lambda>g. group_ok g \<and> CHR 0x00 \<notin> set (ug_udfCuGroupName g)" resUdfCuGroupDeclare resUdfCuGroupUndeclare
proof unfold_locales
  show "group_view (copy_group a b) = group_view a \<and> group_ok (copy_group a b)" if "group_ok a" "group_ok b" for a b
    by (rule copy_group_ok [OF that])
  fix s :: system and e k i
  let ?found = "\<lambda>k. first_index (m_numUdfCuGroup s) (\<lambda>i. ug_udfCuGroupName (m_udfCuGroups s ! i) = c_str k)"
  show "fst (resUdfCuGroupDeclare e s) \<noteq> XRM_SUCCESS \<and> snd (resUdfCuGroupDeclare e s) = s"
    if "?found (ug_udfCuGroupName e) \<noteq> None"
    using that unfolding resUdfCuGroupDeclare_def find_group_def by simp
  show "resUdfCuGroupDeclare e s = (XRM_SUCCESS, s\<lparr>m_udfCuGroups :=
      (m_udfCuGroups s)[m_numUdfCuGroup s := copy_group e (m_udfCuGroups s ! m_numUdfCuGroup s)],
      m_numUdfCuGroup := m_numUdfCuGroup s + 1\<rparr>)"
    if "?found (ug_udfCuGroupName e) = None" "group_ok e \<and> CHR 0x00 \<notin> set (ug_udfCuGroupName e)"
      "m_numUdfCuGroup s < XRM_MAX_UDF_CU_GROUP_NUM"
    using that unfolding resUdfCuGroupDeclare_def find_group_def by (simp add: Let_def group_ok_def)
  show "resUdfCuGroupUndeclare k s = (XRM_SUCCESS, s\<lparr>m_udfCuGroups :=
      remove_with copy_group flushed_group i (m_numUdfCuGroup s) (m_udfCuGroups s),
      m_numUdfCuGroup := m_numUdfCuGroup s - 1\<rparr>)" if "?found k = Some i"
    unfolding resUdfCuGroupUndeclare_def find_group_def that by simp
  show "fst (resUdfCuGroupUndeclare k s) \<noteq> XRM_SUCCESS \<and> snd (resUdfCuGroupUndeclare k s) = s" if "?found k = None"
    unfolding resUdfCuGroupUndeclare_def find_group_def that by simp
qed (auto simp: flushed_group_eq group_view_def group_ok_def group_in_bounds_def)

interpretation groupsV2: array_table m_udfCuGroupsV2 m_numUdfCuGroupV2
  "\<lambda>xs n s. s\<lparr>m_udfCuGroupsV2 := xs, m_numUdfCuGroupV2 := n\<rparr>" XRM_MAX_UDF_CU_GROUP_NUM_V2
  u2_udfCuGroupName copy_groupV2 flushed_groupV2 group_viewV2 group_okV2
  "\<lambda>g. group_okV2 g \<and> CHR 0x00 \<notin> set (u2_udfCuGroupName g)" resUdfCuGroupDeclareV2 resUdfCuGroupUndeclareV2
proof unfold_locales
  show "group_viewV2 (copy_groupV2 a b) = group_viewV2 a \<and> group_okV2 (copy_groupV2 a b)"
    if "group_okV2 a" "group_okV2 b" for a b
    by (rule copy_groupV2_ok [OF that])
  fix s :: system and e k i
  let ?found = "\<lambda>k. first_index (m_numUdfCuGroupV2 s) (\<lambda>i. u2_udfCuGroupName (m_udfCuGroupsV2 s ! i) = c_str k)"
  show "fst (resUdfCuGroupDeclareV2 e s) \<noteq> XRM_SUCCESS \<and> snd (resUdfCuGroupDeclareV2 e s) = s"
    if "?found (u2_udfCuGroupName e) \<noteq> None"
    using that unfolding resUdfCuGroupDeclareV2_def find_groupV2_def by simp
  show "resUdfCuGroupDeclareV2 e s = (XRM_SUCCESS, s\<lparr>m_udfCuGroupsV2 :=
      (m_udfCuGroupsV2 s)[m_numUdfCuGroupV2 s := copy_groupV2 e (m_udfCuGroupsV2 s ! m_numUdfCuGroupV2 s)],
      m_numUdfCuGroupV2 := m_numUdfCuGroupV2 s + 1\<rparr>)"
    if "?found (u2_udfCuGroupName e) = None" "group_okV2 e \<and> CHR 0x00 \<notin> set (u2_udfCuGroupName e)"
      "m_numUdfCuGroupV2 s < XRM_MAX_UDF_CU_GROUP_NUM_V2"
    using that unfolding resUdfCuGroupDeclareV2_def find_groupV2_def by (simp add: Let_def group_okV2_def)
  show "resUdfCuGroupUndeclareV2 k s = (XRM_SUCCESS, s\<lparr>m_udfCuGroupsV2 :=
      remove_with copy_groupV2 flushed_groupV2 i (m_numUdfCuGroupV2 s) (m_udfCuGroupsV2 s),
      m_numUdfCuGroupV2 := m_numUdfCuGroupV2 s - 1\<rparr>)" if "?found k = Some i"
    unfolding resUdfCuGroupUndeclareV2_def find_groupV2_def that by simp
  show "fst (resUdfCuGroupUndeclareV2 k s) \<noteq> XRM_SUCCESS \<and> snd (resUdfCuGroupUndeclareV2 k s) = s"
    if "?found k = None"
    unfolding resUdfCuGroupUndeclareV2_def find_groupV2_def that by simp
qed (auto simp: flushed_group_eq group_viewV2_def group_okV2_def group_in_boundsV2_def)

text \<open>The tables and their invariants, in terms of the model.\<close>

definition group_entries :: "system \<Rightarrow> udfCuGroupInformation list" where
  "group_entries s = map group_view (take (m_numUdfCuGroup s) (m_udfCuGroups s))"

definition group_table_inv :: "system \<Rightarrow> bool" where
  "group_table_inv s \<longleftrightarrow> length (m_udfCuGroups s) = XRM_MAX_UDF_CU_GROUP_NUM \<and>
     m_numUdfCuGroup s \<le> XRM_MAX_UDF_CU_GROUP_NUM \<and> (\<forall>g\<in>set (m_udfCuGroups s). group_ok g) \<and>
     (\<forall>g\<in>set (group_entries s). CHR 0x00 \<notin> set (ug_udfCuGroupName g)) \<and>
     distinct (map ug_udfCuGroupName (group_entries s))"

definition group_entriesV2 :: "system \<Rightarrow> udfCuGroupInformationV2 list" where
  "group_entriesV2 s = map group_viewV2 (take (m_numUdfCuGroupV2 s) (m_udfCuGroupsV2 s))"

definition group_table_invV2 :: "system \<Rightarrow> bool" where
  "group_table_invV2 s \<longleftrightarrow> length (m_udfCuGroupsV2 s) = XRM_MAX_UDF_CU_GROUP_NUM_V2 \<and>
     m_numUdfCuGroupV2 s \<le> XRM_MAX_UDF_CU_GROUP_NUM_V2 \<and> (\<forall>g\<in>set (m_udfCuGroupsV2 s). group_okV2 g) \<and>
     (\<forall>g\<in>set (group_entriesV2 s). CHR 0x00 \<notin> set (u2_udfCuGroupName g)) \<and>
     distinct (map u2_udfCuGroupName (group_entriesV2 s))"

lemma group_entries_eq: "groups.in_use = group_entries" "groupsV2.in_use = group_entriesV2"
  by (simp_all add: fun_eq_iff groups.in_use_def group_entries_def groupsV2.in_use_def group_entriesV2_def)

lemma group_table_inv_eq: "groups.table_ok = group_table_inv" "groupsV2.table_ok = group_table_invV2"
  by (simp_all add: fun_eq_iff groups.table_ok_def group_table_inv_def groupsV2.table_ok_def group_table_invV2_def
      group_entries_eq)

section \<open>Allocating one of several lists\<close>

text \<open>
  What the group allocation needs of the list allocation, versions 1 and 2: a list is taken completely or
  not at all, and its release gives it back.
\<close>

locale list_provider =
  fixes alloc :: "'l \<Rightarrow> cuListResource \<times> system \<Rightarrow> int \<times> cuListResource \<times> system"
    and release :: "cuListResource \<Rightarrow> system \<Rightarrow> int \<times> system"
    and num :: "'l \<Rightarrow> int" and ok :: "'l \<Rightarrow> bool" and lr0 :: cuListResource
  assumes takes: "sys_inv s \<Longrightarrow> ok l \<Longrightarrow> alloc l (lr0, s) = (ret, lr, s') \<Longrightarrow>
      sys_inv s' \<and> (load_inv s \<longrightarrow> load_inv s') \<and>
      (if ret = XRM_SUCCESS then adds_grants (nat (num l)) s s' \<and> lr_cuNum lr = num l else grants s' = grants s)"
    and gives: "sys_inv s \<Longrightarrow> ok l \<Longrightarrow> alloc l (lr0, s) = (XRM_SUCCESS, lr, s') \<Longrightarrow> release lr s' = (ret, s2) \<Longrightarrow>
      ret = XRM_SUCCESS \<and> holding s {} [] s2"
begin

definition untaken :: "system \<Rightarrow> int \<times> cuListResource \<times> system \<Rightarrow> bool" where
  "untaken s = (\<lambda>(ret, lr, s'). ret \<noteq> XRM_SUCCESS \<and> sys_inv s' \<and> (load_inv s \<longrightarrow> load_inv s') \<and> grants s' = grants s)"

definition taken :: "system \<Rightarrow> 'l \<Rightarrow> int \<times> cuListResource \<times> system \<Rightarrow> bool" where
  "taken s l = (\<lambda>(ret, lr, s'). ret = XRM_SUCCESS \<and> sys_inv s' \<and> (load_inv s \<longrightarrow> load_inv s') \<and>
     adds_grants (nat (num l)) s s' \<and> lr_cuNum lr = num l \<and>
     fst (release lr s') = XRM_SUCCESS \<and> grants (snd (release lr s')) = grants s)"

lemma try_list_spec:
  assumes u: "untaken s x" and l: "ok l" and run: "try_list alloc lr0 l x = (b, y)"
  shows "if b then taken s l y else untaken s y"
proof -
  obtain r0 lr1 t where x: "x = (r0, lr1, t)" by (cases x)
  obtain r lr t' where al: "alloc l (lr0, t) = (r, lr, t')" by (metis prod_cases3)
  have y: "b = (r = XRM_SUCCESS)" "y = (r, lr, t')" using run x al by (auto simp: try_list_def)
  have t: "sys_inv t" "load_inv s \<longrightarrow> load_inv t" "grants t = grants s" using u x by (auto simp: untaken_def)
  note sp = takes [OF t(1) l al]
  show ?thesis
  proof (cases b)
    case False
    with y sp t show ?thesis by (simp add: untaken_def)
  next
    case True
    with y have r: "r = XRM_SUCCESS" by simp
    from gives [OF t(1) l al [unfolded r] prod.collapse [symmetric]]
    have "fst (release lr t') = XRM_SUCCESS \<and> grants (snd (release lr t')) = grants s"
      using holding_none(1) t(3) by fastforce
    with True y r sp t show ?thesis by (simp add: taken_def adds_grants_def)
  qed
qed

text \<open>The lists are tried in order: one of them is taken, or nothing is.\<close>

lemma try_all:
  assumes inv: "sys_inv s" and ls: "\<And>l. l \<in> set ls \<Longrightarrow> ok l"
    and run: "snd (until_acquired (try_list alloc lr0) ls (XRM_ERROR, lr, s)) = (ret, lr', s')"
  shows "if ret = XRM_SUCCESS then \<exists>l\<in>set ls. taken s l (ret, lr', s') else untaken s (ret, lr', s')"
proof -
  obtain b where loop: "until_acquired (try_list alloc lr0) ls (XRM_ERROR, lr, s) = (b, ret, lr', s')"
    using run by (metis prod.collapse)
  have "if b then \<exists>l\<in>set ls. taken s l (ret, lr', s') else untaken s (ret, lr', s')"
  proof (rule until_acquired_rule [OF _ _ _ loop])
    show "untaken s (XRM_ERROR, lr, s)" using inv by (simp add: untaken_def)
    show "untaken s y" if "k \<in> set ls" "untaken s x" "try_list alloc lr0 k x = (False, y)" for k x y
      using try_list_spec [OF that(2) ls [OF that(1)] that(3)] by simp
    show "taken s k y" if "k \<in> set ls" "untaken s x" "try_list alloc lr0 k x = (True, y)" for k x y
      using try_list_spec [OF that(2) ls [OF that(1)] that(3)] by simp
  qed
  then show ?thesis by (cases b) (auto simp: taken_def untaken_def)
qed

end

interpretation lists: list_provider resAllocCuList resReleaseCuGroup lp_cuNum list_ok "cuListResource0 XRM_MAX_GROUP_CU_NUM"
proof unfold_locales
  have len: "length (lr_cuResources (cuListResource0 XRM_MAX_GROUP_CU_NUM)) = XRM_MAX_LIST_CU_NUM"
    by (simp add: cuListResource0_def XRM_MAX_GROUP_CU_NUM_def XRM_MAX_LIST_CU_NUM_def)
  fix s l ret lr s' s2
  assume l: "sys_inv s" "list_ok l"
  show "sys_inv s' \<and> (load_inv s \<longrightarrow> load_inv s') \<and>
      (if ret = XRM_SUCCESS then adds_grants (nat (lp_cuNum l)) s s' \<and> lr_cuNum lr = lp_cuNum l
       else grants s' = grants s)"
    if "resAllocCuList l (cuListResource0 XRM_MAX_GROUP_CU_NUM, s) = (ret, lr, s')"
    using resAllocCuList_spec [OF l len that] by blast
  show "ret = XRM_SUCCESS \<and> holding s {} [] s2"
    if "resAllocCuList l (cuListResource0 XRM_MAX_GROUP_CU_NUM, s) = (XRM_SUCCESS, lr, s')" "resReleaseCuGroup lr s' = (ret, s2)"
  proof -
    have "resReleaseCuGroup = resReleaseCuList"
      by (simp add: fun_eq_iff resReleaseCuGroup_def resReleaseCuList_def XRM_MAX_GROUP_CU_NUM_def XRM_MAX_LIST_CU_NUM_def)
    then show ?thesis using resAllocCuList_release [OF l len that(1)] that(2) by simp
  qed
qed

interpretation listsV2: list_provider resAllocCuListV2 resReleaseCuGroupV2 l2_cuNum listV2_ok
  "cuListResource0 XRM_MAX_GROUP_CU_NUM_V2"
proof unfold_locales
  have len: "length (lr_cuResources (cuListResource0 XRM_MAX_GROUP_CU_NUM_V2)) = XRM_MAX_LIST_CU_NUM_V2"
    "lr_cuNum (cuListResource0 XRM_MAX_GROUP_CU_NUM_V2) = 0"
    by (simp_all add: cuListResource0_def XRM_MAX_GROUP_CU_NUM_V2_def XRM_MAX_LIST_CU_NUM_V2_def)
  fix s l ret lr s' s2
  assume l: "sys_inv s" "listV2_ok l"
  show "sys_inv s' \<and> (load_inv s \<longrightarrow> load_inv s') \<and>
      (if ret = XRM_SUCCESS then adds_grants (nat (l2_cuNum l)) s s' \<and> lr_cuNum lr = l2_cuNum l
       else grants s' = grants s)"
    if "resAllocCuListV2 l (cuListResource0 XRM_MAX_GROUP_CU_NUM_V2, s) = (ret, lr, s')"
    using resAllocCuListV2_spec [OF l len that] by blast
  show "ret = XRM_SUCCESS \<and> holding s {} [] s2"
    if "resAllocCuListV2 l (cuListResource0 XRM_MAX_GROUP_CU_NUM_V2, s) = (XRM_SUCCESS, lr, s')"
      "resReleaseCuGroupV2 lr s' = (ret, s2)"
  proof -
    have "resReleaseCuGroupV2 = resReleaseCuListV2"
      by (simp add: fun_eq_iff resReleaseCuGroupV2_def resReleaseCuListV2_def XRM_MAX_GROUP_CU_NUM_V2_def
          XRM_MAX_LIST_CU_NUM_V2_def)
    then show ?thesis using resAllocCuListV2_release [OF l len that(1)] that(2) by simp
  qed
qed

section \<open>Allocating a group\<close>

text \<open>The loads of the members in use leave room below the 32-bit limit.\<close>

definition member_loads_ok :: "cuProperty list \<Rightarrow> bool" where
  "member_loads_ok ps \<longleftrightarrow> (\<forall>p\<in>set ps. pr_requestLoadUnified p + XRM_MAX_LOAD \<le> 2147483647)"

definition groups_inv :: "system \<Rightarrow> bool" where
  "groups_inv s \<longleftrightarrow> group_table_inv s \<and> (\<forall>g\<in>set (group_entries s). \<forall>l\<in>set (ug_optionUdfCuListProps g).
     member_loads_ok (lp_cuProps l))"

lemma group_request_ok:
  assumes "list_in_bounds l" "length (lp_cuProps l) = XRM_MAX_LIST_CU_NUM" "gp_clientId gp \<noteq> 0"
    and "member_loads_ok (lp_cuProps (copy_group_list l))"
  shows "list_ok (group_request gp l)" "lp_cuNum (group_request gp l) = lp_cuNum l"
proof -
  let ?n = "nat (lp_cuNum l)"
  have n: "?n \<le> XRM_MAX_LIST_CU_NUM" using assms(1) by (simp add: list_in_bounds_def)
  have "prop_ok (lp_cuProps (group_request gp l) ! i)" if i: "i < ?n" for i
  proof -
    have "copy_group_prop (lp_cuProps l ! i) \<in> set (lp_cuProps (copy_group_list l))"
      using i n assms(2) nth_mem [of i "take ?n (lp_cuProps l)"] by (simp add: copy_group_list_def)
    then have "pr_requestLoadUnified (copy_group_prop (lp_cuProps l ! i)) + XRM_MAX_LOAD \<le> 2147483647"
      using assms(4) by (simp add: member_loads_ok_def)
    then show ?thesis
      using i n assms(2,3) by (simp add: group_request_def nth_append group_member_def prop_ok_def)
  qed
  with n assms(2) show "list_ok (group_request gp l)" "lp_cuNum (group_request gp l) = lp_cuNum l"
    by (auto simp: list_ok_def group_request_def)
qed

text \<open>
  A declared group is allocated by one of its lists, completely, and released with the record of the
  allocation; otherwise no grant changes.
\<close>

lemma resAllocCuGroup_spec:
  assumes inv: "sys_inv s" and gr: "groups_inv s" and c: "gp_clientId gp \<noteq> 0"
    and run: "resAllocCuGroup gp (lr, s) = (ret, lr', s')"
  shows "if ret = XRM_SUCCESS
    then \<exists>g l. table_map ug_udfCuGroupName (group_entries s) (c_str (gp_udfCuGroupName gp)) = Some g \<and>
      l \<in> set (ug_optionUdfCuListProps g) \<and> lists.taken s (group_request gp l) (ret, lr', s')
    else lists.untaken s (ret, lr', s')"
proof (cases "find_group (gp_udfCuGroupName gp) s")
  case None
  with run inv show ?thesis by (simp add: resAllocCuGroup_def lists.untaken_def)
next
  case (Some i)
  let ?g = "m_udfCuGroups s ! i"
  let ?ls = "take (nat (ug_optionUdfCuListNum ?g)) (ug_optionUdfCuListProps ?g)"
  note eqs = group_entries_eq(1) [symmetric] group_table_inv_eq(1) [symmetric]
  have ok: "groups.table_ok s" using gr by (simp add: groups_inv_def eqs)
  have i: "i < m_numUdfCuGroup s" using Some unfolding find_group_def by (auto dest: first_index_SomeD)
  have look: "table_map ug_udfCuGroupName (group_entries s) (c_str (gp_udfCuGroupName gp)) = Some (group_view ?g)"
    using groups.lookup_in_use [OF ok, of "c_str (gp_udfCuGroupName gp)"] Some i ok
    by (simp add: find_group_def eqs groups.in_use_def groups.table_ok_def)
  have v: "group_view ?g \<in> set (group_entries s)"
    using i ok nth_mem [of i "take (m_numUdfCuGroup s) (m_udfCuGroups s)"]
    by (simp add: group_entries_def groups.table_ok_def)
  have g: "group_ok ?g" using i ok nth_mem [of i "m_udfCuGroups s"] by (simp add: groups.table_ok_def)
  have l: "list_in_bounds l" "length (lp_cuProps l) = XRM_MAX_LIST_CU_NUM"
      "member_loads_ok (lp_cuProps (copy_group_list l))" if "l \<in> set ?ls" for l
    using that in_set_takeD [OF that] g gr v
    by (auto simp: group_ok_def group_in_bounds_def list_all_iff groups_inv_def group_view_def)
  have req: "group_request gp (copy_group_list l) = group_request gp l" if "l \<in> set ?ls" for l
    using l(1,2) [OF that]
    by (auto simp: group_request_def copy_group_list_def list_in_bounds_def comp_def group_member_def copy_group_prop_def min_def)
  have rq: "r \<in> set (map (group_request gp) ?ls) \<Longrightarrow> list_ok r" for r
    using group_request_ok(1) [OF l(1,2) c l(3)] by auto
  have loop: "snd (until_acquired (try_list resAllocCuList (cuListResource0 XRM_MAX_GROUP_CU_NUM))
      (map (group_request gp) ?ls) (XRM_ERROR, lr, s)) = (ret, lr', s')"
    using run Some by (simp add: resAllocCuGroup_def Let_def)
  have res: "if ret = XRM_SUCCESS then \<exists>l\<in>set ?ls. lists.taken s (group_request gp l) (ret, lr', s')
      else lists.untaken s (ret, lr', s')"
    using lists.try_all [OF inv rq loop] by (cases "ret = XRM_SUCCESS") auto
  show ?thesis
  proof (cases "ret = XRM_SUCCESS")
    case True
    with res obtain l where l: "l \<in> set ?ls" "lists.taken s (group_request gp l) (ret, lr', s')" by auto
    then have "copy_group_list l \<in> set (ug_optionUdfCuListProps (group_view ?g))"
      by (simp add: group_view_def)
    with True look l req show ?thesis by (simp only: if_True) (metis (no_types, lifting))
  qed (use res in simp)
qed

section \<open>Version 2 groups cannot be allocated\<close>

text \<open>
  \<open>resAllocCuGroupV2\<close> identifies the members of a list by \<open>cuName\<close> alone, and \<open>cuPropertyCopyFromV2\<close>,
  through which \<open>resAllocCuListV2\<close> passes every member, drops \<open>cuName\<close>: each member is refused for having
  none of the three names, so no version 2 group is ever allocated.
\<close>

lemma dev_search_never:
  "(\<And>d st. \<not> fst (body d st)) \<Longrightarrow> \<not> fst (dev_search fuel body prop devId st)"
proof (induction fuel arbitrary: devId st)
  case (Suc fuel)
  obtain a s where st: "st = (a, s)" by (cases st)
  obtain b y where b: "body (nat (allocDevForClient devId prop s)) (a, s) = (b, y)" by (meson surj_pair)
  have "\<not> b" using Suc.prems [of _ "(a, s)"] b by (metis fst_conv)
  with Suc b st show ?case by (simp add: Let_def)
qed (simp add: case_prod_unfold)

lemma no_name_refused:
  assumes "no_name prop"
  shows "fst (resAllocCu prop u st) \<noteq> XRM_SUCCESS" "fst (resAllocCuFromDev d prop u st) \<noteq> XRM_SUCCESS"
    "fst (alloc_member_on d prop st) \<noteq> XRM_SUCCESS"
proof -
  show "fst (resAllocCu prop u st) \<noteq> XRM_SUCCESS" using assms by (simp add: resAllocCu_def)
  show "fst (resAllocCuFromDev d prop u st) \<noteq> XRM_SUCCESS"
    using assms by (auto simp: resAllocCuFromDev_def dev_refuses_def Let_def split: prod.splits)
  have "fst (allocCuFromDev d prop x) \<noteq> XRM_SUCCESS" for x
    using assms by (simp add: allocCuFromDev_def split: prod.splits)
  then show "fst (alloc_member_on d prop st) \<noteq> XRM_SUCCESS"
    by (auto simp: alloc_member_on_def split: prod.splits) (metis fst_conv)
qed

lemma sublist_refused:
  assumes "sl_cuProps sub = p # ps" "no_name p"
  shows "fst (resAllocCuSubListFromSameDevice sub used st) \<noteq> XRM_SUCCESS"
proof -
  let ?qs = "take (nat (sl_cuNum sub)) (p # ps)"
  have never: "\<not> fst (alloc_sublist_try (p # qs) used d st)" for qs d st
  proof -
    obtain lr s where st: "st = (lr, s)" by (cases st)
    obtain ret c s' where m: "alloc_member_on (int d) p (lr_cuResources lr ! 0, s) = (ret, c, s')" by (metis prod_cases3)
    have "ret \<noteq> XRM_SUCCESS" using no_name_refused(3) [OF assms(2), of "int d" "(lr_cuResources lr ! 0, s)"] m by simp
    then show ?thesis by (simp add: alloc_sublist_try_def st m Let_def)
  qed
  show ?thesis
  proof (cases "0 < sl_cuNum sub")
    case True
    then have qs: "?qs = p # take (nat (sl_cuNum sub) - 1) ps" by (simp add: take_Cons')
    obtain b st' where r: "search_devices (alloc_sublist_try ?qs used) (?qs ! 0) st = (b, st')" by (meson surj_pair)
    have "\<not> fst (search_devices (alloc_sublist_try ?qs used) (?qs ! 0) st)"
      unfolding search_devices_def qs by (rule dev_search_never) (rule never)
    with r have "\<not> b" by simp
    then show ?thesis using r assms(1) qs by (simp add: resAllocCuSubListFromSameDevice_def Let_def)
  qed (simp add: resAllocCuSubListFromSameDevice_def)
qed

lemma listV2_refused:
  assumes "0 < l2_cuNum lp" "no_name (cuPropertyCopyFromV2 (l2_cuProps lp ! 0))"
  shows "fst (resAllocCuListV2 lp (lr, s)) \<noteq> XRM_SUCCESS"
proof (cases "l2_cuNum lp > int XRM_MAX_LIST_CU_NUM_V2")
  case False
  let ?fl = "set_handled 0 itemFlags0"
  have "\<not> it_handled (itemFlags0 ! 0)" by (simp add: itemFlags0_def XRM_MAX_LIST_CU_NUM_V2_def)
  moreover have "sl_cuProps (make_sublist lp (same_virtual lp 0 ?fl)) =
      cuPropertyCopyFromV2 (l2_cuProps lp ! 0) # tl (sl_cuProps (make_sublist lp (same_virtual lp 0 ?fl)))"
    by (simp add: make_sublist_def same_virtual_def)
  note sub = sublist_refused [OF this assms(2)]
  obtain res st where step: "alloc_v2_step lp 0 (itemFlags0, deviceIdList0, lr, s) = (res, st)" by (meson surj_pair)
  ultimately have "\<exists>r. res = Some r \<and> r \<noteq> XRM_SUCCESS"
    using no_name_refused(1) [OF assms(2), of False "(lr_cuResources lr ! 0, s)"]
      no_name_refused(2) [OF assms(2), of "i32 (uint (deviceInfoDeviceIndex (l2_cuProps lp ! 0)))" False "(lr_cuResources lr ! 0, s)"]
      sub [of deviceIdList0 "(cuListResource0 XRM_MAX_LIST_CU_NUM_V2, s)"]
    by (auto simp: alloc_v2_step_def Let_def split: prod.splits if_splits)
  moreover have "[0..<nat (l2_cuNum lp)] = 0 # [1..<nat (l2_cuNum lp)]" using assms(1) by (simp add: upt_conv_Cons)
  ultimately show ?thesis
    using step False assms(1) by (auto simp: resAllocCuListV2_def split: prod.splits)
qed (simp add: resAllocCuListV2_def)

text \<open>The arrays of the table have their sizes.\<close>

definition groupsV2_sized :: "system \<Rightarrow> bool" where
  "groupsV2_sized s \<longleftrightarrow> m_numUdfCuGroupV2 s \<le> length (m_udfCuGroupsV2 s) \<and>
     (\<forall>g\<in>set (m_udfCuGroupsV2 s). \<forall>l\<in>set (u2_optionUdfCuListProps g). length (l2_cuProps l) = XRM_MAX_LIST_CU_NUM_V2)"

lemma groupV2_request_refused:
  assumes "length (l2_cuProps l) = XRM_MAX_LIST_CU_NUM_V2"
  shows "fst (resAllocCuListV2 (group_requestV2 gp l) (lr, s)) \<noteq> XRM_SUCCESS"
proof (cases "0 < l2_cuNum l")
  case True
  then have "l2_cuProps (group_requestV2 gp l) ! 0 = group_memberV2 gp (l2_cuProps l ! 0)"
    using assms by (simp add: group_requestV2_def nth_append XRM_MAX_LIST_CU_NUM_V2_def)
  moreover have "no_name (cuPropertyCopyFromV2 (group_memberV2 gp p))" for p
    by (simp add: no_name_def cuPropertyCopyFromV2_def group_memberV2_def copy_group_propV2_def cuPropertyV2_0_def)
  ultimately show ?thesis using True by (intro listV2_refused) (simp_all add: group_requestV2_def)
qed (simp add: resAllocCuListV2_def group_requestV2_def)

lemma resAllocCuGroupV2_never:
  assumes sz: "groupsV2_sized s"
  shows "fst (resAllocCuGroupV2 gp (lr, s)) \<noteq> XRM_SUCCESS"
proof (cases "find_groupV2 (g2_udfCuGroupName gp) s")
  case None
  then show ?thesis by (simp add: resAllocCuGroupV2_def)
next
  case (Some i)
  let ?g = "m_udfCuGroupsV2 s ! i"
  let ?ls = "take (nat (u2_optionUdfCuListNum ?g)) (u2_optionUdfCuListProps ?g)"
  let ?attempt = "try_list resAllocCuListV2 (cuListResource0 XRM_MAX_GROUP_CU_NUM_V2)"
  have "i < length (m_udfCuGroupsV2 s)"
    using Some sz unfolding find_groupV2_def by (auto simp: groupsV2_sized_def dest: first_index_SomeD)
  then have "?g \<in> set (m_udfCuGroupsV2 s)" by (rule nth_mem)
  then have len: "length (l2_cuProps l) = XRM_MAX_LIST_CU_NUM_V2" if "l \<in> set ?ls" for l
    using in_set_takeD [OF that] sz by (simp add: groupsV2_sized_def)
  obtain b x where loop: "until_acquired ?attempt (map (group_requestV2 gp) ?ls) (XRM_ERROR, lr, s) = (b, x)"
    by (meson surj_pair)
  have "fst x \<noteq> XRM_SUCCESS"
  proof (rule until_acquired_inv [OF _ _ loop])
    fix l x c y
    assume "l \<in> set (map (group_requestV2 gp) ?ls)" and run: "?attempt l x = (c, y)"
    then obtain l0 where "l0 \<in> set ?ls" "l = group_requestV2 gp l0" by auto
    then have "fst (resAllocCuListV2 l (z, t)) \<noteq> XRM_SUCCESS" for z t
      using groupV2_request_refused len by blast
    moreover obtain r0 z t ret res where "x = (r0, z, t)" "resAllocCuListV2 l (cuListResource0 XRM_MAX_GROUP_CU_NUM_V2, t) = (ret, res)"
      by (metis prod_cases3 surj_pair)
    ultimately show "fst y \<noteq> XRM_SUCCESS" using run by (auto simp: try_list_def)
  qed simp
  then show ?thesis using Some loop by (simp add: resAllocCuGroupV2_def Let_def)
qed

text \<open>Still, trying keeps the invariants and the grants.\<close>

definition groupsV2_loads_ok :: "system \<Rightarrow> bool" where
  "groupsV2_loads_ok s \<longleftrightarrow> (\<forall>g\<in>set (m_udfCuGroupsV2 s). \<forall>l\<in>set (u2_optionUdfCuListProps g).
     l2_cuNum l \<le> int XRM_MAX_LIST_CU_NUM_V2 \<and>
     (\<forall>p\<in>set (l2_cuProps l). pr_requestLoadUnified p + XRM_MAX_LOAD \<le> 2147483647))"

lemma resAllocCuGroupV2_spec:
  assumes inv: "sys_inv s" and sz: "groupsV2_sized s" and loads: "groupsV2_loads_ok s" and c: "g2_clientId gp \<noteq> 0"
    and run: "resAllocCuGroupV2 gp (lr, s) = (ret, lr', s')"
  shows "listsV2.untaken s (ret, lr', s')"
proof (cases "find_groupV2 (g2_udfCuGroupName gp) s")
  case None
  with run inv show ?thesis by (simp add: resAllocCuGroupV2_def listsV2.untaken_def)
next
  case (Some i)
  let ?g = "m_udfCuGroupsV2 s ! i"
  let ?ls = "take (nat (u2_optionUdfCuListNum ?g)) (u2_optionUdfCuListProps ?g)"
  have "i < length (m_udfCuGroupsV2 s)"
    using Some sz unfolding find_groupV2_def by (auto simp: groupsV2_sized_def dest: first_index_SomeD)
  then have g: "?g \<in> set (m_udfCuGroupsV2 s)" by (rule nth_mem)
  have "listV2_ok (group_requestV2 gp l)" if l: "l \<in> set ?ls" for l
  proof -
    have n: "nat (l2_cuNum l) \<le> XRM_MAX_LIST_CU_NUM_V2" "length (l2_cuProps l) = XRM_MAX_LIST_CU_NUM_V2"
      "\<forall>p\<in>set (l2_cuProps l). pr_requestLoadUnified p + XRM_MAX_LOAD \<le> 2147483647"
      using in_set_takeD [OF l] g sz loads by (auto simp: groupsV2_sized_def groupsV2_loads_ok_def nat_le_iff)
    then show ?thesis
      using c by (auto simp: listV2_ok_def group_requestV2_def nth_append prop_ok_def cuPropertyCopyFromV2_def
        group_memberV2_def copy_group_propV2_def)
  qed
  then have rq: "r \<in> set (map (group_requestV2 gp) ?ls) \<Longrightarrow> listV2_ok r" for r by auto
  have "snd (until_acquired (try_list resAllocCuListV2 (cuListResource0 XRM_MAX_GROUP_CU_NUM_V2))
      (map (group_requestV2 gp) ?ls) (XRM_ERROR, lr, s)) = (ret, lr', s')"
    using run Some by (simp add: resAllocCuGroupV2_def Let_def)
  from listsV2.try_all [OF inv rq this] resAllocCuGroupV2_never [OF sz, of gp lr] run
  show ?thesis by simp
qed

end
