(* ===== verification/Xrm_Query.thy ===== *)
theory Xrm_Query
  imports Xrm_Groups Xrm_Load Xrm_Reserve_Inv
begin

text \<open>
  The operations that only read the resource tables: whether compute units, lists and groups exist, the
  status and capacity of a compute unit, and the queries of the channels of an allocation and of the
  compute units of a reservation. The queries are nested loops that copy every hit into the next slot of
  the result; they are shown to return exactly the hits.
\<close>

section \<open>Existence\<close>

text \<open>\<open>None\<close> of the bounded loop is the compute unit that is not found.\<close>

definition resIsCuExistingOnDev :: "nat \<Rightarrow> cuProperty \<Rightarrow> system \<Rightarrow> bool" where
  "resIsCuExistingOnDev d prop s =
     (if no_name prop then False
      else list_ex (\<lambda>c. cu_matches prop (cu_at s d c)) (cu_ids (dev_at s d)))"

text \<open>The loop over the devices: the ones without an xclbin are passed over.\<close>

definition cu_on_any_device :: "cuProperty \<Rightarrow> system \<Rightarrow> bool" where
  "cu_on_any_device prop s =
     list_ex (\<lambda>d. dv_isLoaded (dev_at s d) \<and> resIsCuExistingOnDev d prop s) [0..<nat (m_numDevice s)]"

definition resIsCuExisting :: "cuProperty \<Rightarrow> system \<Rightarrow> bool" where
  "resIsCuExisting prop s = (if no_name prop then False else cu_on_any_device prop s)"

text \<open>
  The loop over the members of a list on any device: \<open>cuFound\<close> is declared outside the loop and not
  cleared, so that once a member is found the search for the later ones is skipped.
\<close>

fun any_device_members :: "cuProperty list \<Rightarrow> bool \<Rightarrow> system \<Rightarrow> bool" where
  "any_device_members [] cuFound s = True"
| "any_device_members (p # ps) cuFound s =
     (let cuFound = (if cuFound then True else cu_on_any_device p s)
      in if \<not> cuFound then False else any_device_members ps cuFound s)"

definition resIsCuListExisting :: "cuListProperty \<Rightarrow> system \<Rightarrow> bool" where
  "resIsCuListExisting cuListProp s =
     (if lp_cuNum cuListProp \<le> 0 \<or> lp_cuNum cuListProp > int XRM_MAX_LIST_CU_NUM then False
      else let props = take (nat (lp_cuNum cuListProp)) (lp_cuProps cuListProp)
           in if lp_sameDevice cuListProp
              then list_ex (\<lambda>d. dv_isLoaded (dev_at s d) \<and> list_all (\<lambda>p. resIsCuExistingOnDev d p s) props)
                     [0..<nat (m_numDevice s)]
              else any_device_members props False s)"

definition name_only :: "cuProperty \<Rightarrow> cuProperty" where
  "name_only p = cuProperty0\<lparr>pr_cuName := strncpy (XRM_MAX_NAME_LEN - 1) (pr_cuName p)\<rparr>"

definition name_list :: "cuListProperty \<Rightarrow> cuListProperty" where
  "name_list l = \<lparr>
     lp_cuProps = map name_only (take (nat (lp_cuNum l)) (lp_cuProps l)) @
       replicate (XRM_MAX_LIST_CU_NUM - nat (lp_cuNum l)) cuProperty0,
     lp_cuNum = lp_cuNum l, lp_sameDevice = lp_sameDevice l\<rparr>"

definition resIsCuGroupExisting :: "cuGroupProperty \<Rightarrow> system \<Rightarrow> bool" where
  "resIsCuGroupExisting gp s =
     (case find_group (gp_udfCuGroupName gp) s of
        None \<Rightarrow> False
      | Some i \<Rightarrow>
          let g = m_udfCuGroups s ! i
          in list_ex (\<lambda>l. resIsCuListExisting (name_list l) s)
               (take (nat (ug_optionUdfCuListNum g)) (ug_optionUdfCuListProps g)))"

section \<open>Status and capacity\<close>

record cuStatus =
  st_isBusy :: bool
  st_usedLoadUnified :: int
  st_usedLoadOriginal :: int

text \<open>The ids are compared with \<open>>\<close>; \<open>None\<close> is the read beyond the end of an array that lets through.\<close>

definition checkCuStat :: "cuResource \<Rightarrow> cuStatus \<Rightarrow> system \<Rightarrow> (int \<times> cuStatus) option" where
  "checkCuStat cuRes cuStat s =
     (let devId = re_deviceId cuRes; cuId = re_cuId cuRes
      in if devId < 0 \<or> devId > m_numDevice s then Some (XRM_ERROR_INVALID, cuStat)
         else if cuId < 0 \<or> cuId > int XRM_MAX_XILINX_KERNELS then Some (XRM_ERROR_INVALID, cuStat)
         else if devId \<ge> int (length (m_devList s)) \<or> cuId = int XRM_MAX_XILINX_KERNELS then None
         else let load = cu_totalUsedLoadUnified (cu_at s (nat devId) (nat cuId))
              in Some (XRM_SUCCESS, cuStat\<lparr>st_isBusy := (load > 0), st_usedLoadUnified := load,
                   st_usedLoadOriginal := i32 (load * 256)\<rparr>))"

definition find_capacity :: "(cuData \<Rightarrow> bool) \<Rightarrow> system \<Rightarrow> u64 option" where
  "find_capacity P s =
     map_option (\<lambda>(d, c). cu_maxCapacity (cu_at s d c))
       (find (\<lambda>(d, c). P (cu_at s d c))
         (concat (map (\<lambda>d. map (Pair d) [0..<nat (numCu (dev_at s d))])
           (filter (\<lambda>d. dv_isLoaded (dev_at s d)) [0..<nat (m_numDevice s)]))))"

definition getCuMaxCapacity :: "cuProperty \<Rightarrow> system \<Rightarrow> u64" where
  "getCuMaxCapacity prop s =
     (let name = c_str (pr_kernelName prop); alias = c_str (pr_kernelAlias prop);
          byName = find_capacity (\<lambda>cu. name = c_str (cu_kernelName cu)) s;
          byAlias = find_capacity (\<lambda>cu. alias = c_str (cu_kernelAlias cu)) s;
          value = (\<lambda>x. case x of None \<Rightarrow> 0 | Some v \<Rightarrow> v)
      in if name = [] \<and> alias = [] then 0
         else if name \<noteq> [] then
           (if alias \<noteq> [] then (if value byName \<noteq> value byAlias then 0 else value byName) else value byName)
         else value byAlias)"

definition getNumConcurrentClient :: "system \<Rightarrow> u32" where
  "getNumConcurrentClient s = m_numConcurrentClient s"

section \<open>Queries\<close>

record allocationQueryInfo =
  aq_allocServiceId :: u64
  aq_kernelName :: string
  aq_kernelAlias :: string

record reservationQueryInfoV2 =
  rq_poolId :: u64
  rq_kernelName :: string
  rq_kernelAlias :: string

definition names_match :: "string \<Rightarrow> string \<Rightarrow> cuData \<Rightarrow> bool" where
  "names_match name alias cu \<longleftrightarrow>
     (name \<noteq> [] \<longrightarrow> cu_kernelName cu = name) \<and> (alias \<noteq> [] \<longrightarrow> cu_kernelAlias cu = alias)"

text \<open>The fields both queries write.\<close>

definition query_cu :: "deviceData \<Rightarrow> nat \<Rightarrow> nat \<Rightarrow> cuData \<Rightarrow> cuResource \<Rightarrow> cuResource" where
  "query_cu dev d c cu r = r\<lparr>
     re_xclbinFileName := strncpy (XRM_MAX_NAME_LEN - 1) (dv_xclbinName dev),
     re_uuidStr := strncpy (XRM_MAX_NAME_LEN - 1) (xb_uuidStr (dv_xclbinInfo dev)),
     re_kernelPluginFileName := strncpy (XRM_MAX_NAME_LEN - 1) (cu_kernelPluginFileName cu),
     re_kernelName := strncpy (XRM_MAX_NAME_LEN - 1) (cu_kernelName cu),
     re_instanceName := strncpy (XRM_MAX_NAME_LEN - 1) (cu_instanceName cu),
     re_kernelAlias := strncpy (XRM_MAX_NAME_LEN - 1) (cu_kernelAlias cu),
     re_cuName := strncpy (XRM_MAX_NAME_LEN - 1) (cu_cuName cu),
     re_cuType := cu_cuType cu,
     re_baseAddr := cu_baseAddr cu,
     re_membankId := cu_membankId cu,
     re_membankType := cu_membankType cu,
     re_membankSize := cu_membankSize cu,
     re_membankBaseAddr := cu_membankBaseAddr cu,
     re_deviceId := int d,
     re_cuId := int c\<rparr>"

definition query_channel :: "u64 \<Rightarrow> system \<Rightarrow> nat \<times> nat \<times> nat \<Rightarrow> cuResource \<Rightarrow> cuResource" where
  "query_channel svc s = (\<lambda>(d, c, i) r.
     let ch = cu_channels (cu_at s d c) ! i
     in (query_cu (dev_at s d) d c (cu_at s d c) r)\<lparr>
          re_channelId := int i,
          re_allocServiceId := svc,
          re_poolId := ch_poolId ch,
          re_clientId := ch_clientId ch,
          re_channelLoadUnified := ch_loadUnified ch,
          re_channelLoadOriginal := ch_loadOriginal ch\<rparr>)"

definition query_reserve :: "u64 \<Rightarrow> system \<Rightarrow> nat \<times> nat \<times> nat \<Rightarrow> cuResource \<Rightarrow> cuResource" where
  "query_reserve pool s = (\<lambda>(d, c, j) r. (query_cu (dev_at s d) d c (cu_at s d c) r)\<lparr>re_poolId := pool\<rparr>)"

text \<open>
  A hit is written to the next slot. When the result is full, the allocation query ends with an error
  (\<open>None\<close>), the reservation query goes on without writing.
\<close>

definition put_hit :: "bool \<Rightarrow> nat \<Rightarrow> (cuResource \<Rightarrow> cuResource) \<Rightarrow> (nat \<times> cuResource list) option \<Rightarrow>
    (nat \<times> cuResource list) option" where
  "put_hit full_fails limit w st =
     (case st of
        None \<Rightarrow> None
      | Some (n, rs) \<Rightarrow> if n \<ge> limit then (if full_fails then None else st)
                        else Some (n + 1, rs[n := w (rs ! n)]))"

definition alloc_query_loop :: "nat \<Rightarrow> u64 \<Rightarrow> string \<Rightarrow> string \<Rightarrow> system \<Rightarrow> (nat \<times> cuResource list) option" where
  "alloc_query_loop limit svc name alias s =
     fold (\<lambda>d st. fold (\<lambda>c st.
         if \<not> names_match name alias (cu_at s d c) then st
         else fold (\<lambda>i st. if ch_allocServiceId (cu_channels (cu_at s d c) ! i) = svc
                            then put_hit True limit (query_channel svc s (d, c, i)) st else st)
                [0..<XRM_MAX_KERNEL_CHANNELS] st)
         [0..<nat (numCu (dev_at s d))] st)
       [0..<nat (m_numDevice s)] (Some (0, replicate limit cuResource0))"

definition reserve_query_loop :: "nat \<Rightarrow> u64 \<Rightarrow> string \<Rightarrow> string \<Rightarrow> system \<Rightarrow> (nat \<times> cuResource list) option" where
  "reserve_query_loop limit pool name alias s =
     fold (\<lambda>d st. fold (\<lambda>c st.
         if \<not> names_match name alias (cu_at s d c) then st
         else fold (\<lambda>j st. if rs_poolId (cu_reserves (cu_at s d c) ! j) = pool
                            then put_hit False limit (query_reserve pool s (d, c, j)) st else st)
                [0..<nat (cu_numReserve (cu_at s d c))] st)
         [0..<nat (numCu (dev_at s d))] st)
       [0..<nat (m_numDevice s)] (Some (0, replicate limit cuResource0))"

definition query_result :: "nat \<Rightarrow> (nat \<times> cuResource list) option \<Rightarrow> int \<times> cuListResource" where
  "query_result limit r =
     (case r of
        None \<Rightarrow> (XRM_ERROR, cuListResource0 limit)
      | Some (n, rs) \<Rightarrow> (XRM_SUCCESS, \<lparr> lr_cuResources = rs, lr_cuNum = int n \<rparr>))"

definition resAllocationQuery :: "allocationQueryInfo \<Rightarrow> cuListResource \<Rightarrow> system \<Rightarrow> int \<times> cuListResource" where
  "resAllocationQuery q lr s =
     (if aq_allocServiceId q = 0 then (XRM_ERROR_INVALID, lr)
      else query_result XRM_MAX_LIST_CU_NUM
             (alloc_query_loop XRM_MAX_LIST_CU_NUM (aq_allocServiceId q) (aq_kernelName q) (aq_kernelAlias q) s))"

text \<open>
  Version 2 clears, on the error, the size of a version 1 list: the first entries of the result only. The
  result code tells the caller not to use it, and what is left in it is not modelled: \<open>None\<close>.
\<close>

definition resAllocationQueryV2 :: "allocationQueryInfo \<Rightarrow> cuListResource \<Rightarrow> system \<Rightarrow> int \<times> cuListResource option" where
  "resAllocationQueryV2 q lr s =
     (if aq_allocServiceId q = 0 then (XRM_ERROR_INVALID, Some lr)
      else case alloc_query_loop XRM_MAX_LIST_CU_NUM_V2 (aq_allocServiceId q) (aq_kernelName q) (aq_kernelAlias q) s of
             None \<Rightarrow> (XRM_ERROR, None)
           | Some (n, rs) \<Rightarrow> (XRM_SUCCESS, Some \<lparr> lr_cuResources = rs, lr_cuNum = int n \<rparr>))"

definition resReservationQuery :: "u64 \<Rightarrow> cuListResource \<Rightarrow> system \<Rightarrow> int \<times> cuListResource" where
  "resReservationQuery reservePoolId lr s =
     (if reservePoolId = 0 then (XRM_ERROR_INVALID, lr)
      else query_result XRM_MAX_POOL_CU_NUM (reserve_query_loop XRM_MAX_POOL_CU_NUM reservePoolId [] [] s))"

definition resReservationQueryV2 :: "reservationQueryInfoV2 \<Rightarrow> cuListResource \<Rightarrow> system \<Rightarrow> int \<times> cuListResource" where
  "resReservationQueryV2 q lr s =
     (if rq_poolId q = 0 then (XRM_ERROR_INVALID, lr)
      else query_result XRM_MAX_POOL_CU_NUM_V2
             (reserve_query_loop XRM_MAX_POOL_CU_NUM_V2 (rq_poolId q) (rq_kernelName q) (rq_kernelAlias q) s))"

section \<open>The loops return the hits\<close>

lemma fold_map_pair: "fold (\<lambda>x. f (g x)) xs st = fold f (map g xs) st"
  by (simp add: fold_map comp_def)

lemma fold_concat_map: "fold (\<lambda>x st. fold f (g x) st) xs st = fold f (concat (map g xs)) st"
  by (induction xs arbitrary: st) simp_all

lemma fold_filter_if: "fold (\<lambda>x st. if P x then f x st else st) xs st = fold f (filter P xs) st"
  by (induction xs arbitrary: st) simp_all

lemma list_update_append_here: "n = length xs \<Longrightarrow> (xs @ y # ys)[n := z] = xs @ z # ys"
  by simp

text \<open>The hits, in the order of the loops.\<close>

definition cu_places :: "(cuData \<Rightarrow> bool) \<Rightarrow> (cuData \<Rightarrow> nat) \<Rightarrow> system \<Rightarrow> (nat \<times> nat \<times> nat) list" where
  "cu_places P len s = concat (map (\<lambda>d. concat (map (\<lambda>c. map (\<lambda>i. (d, c, i)) [0..<len (cu_at s d c)])
     (filter (\<lambda>c. P (cu_at s d c)) [0..<nat (numCu (dev_at s d))]))) [0..<nat (m_numDevice s)])"

definition alloc_hits :: "u64 \<Rightarrow> string \<Rightarrow> string \<Rightarrow> system \<Rightarrow> (nat \<times> nat \<times> nat) list" where
  "alloc_hits svc name alias s =
     filter (\<lambda>(d, c, i). ch_allocServiceId (cu_channels (cu_at s d c) ! i) = svc)
       (cu_places (names_match name alias) (\<lambda>_. XRM_MAX_KERNEL_CHANNELS) s)"

definition reserve_hits :: "u64 \<Rightarrow> string \<Rightarrow> string \<Rightarrow> system \<Rightarrow> (nat \<times> nat \<times> nat) list" where
  "reserve_hits pool name alias s =
     filter (\<lambda>(d, c, j). rs_poolId (cu_reserves (cu_at s d c) ! j) = pool)
       (cu_places (names_match name alias) (\<lambda>cu. nat (cu_numReserve cu)) s)"

lemma places_fold:
  "fold (\<lambda>d st. fold (\<lambda>c st. if \<not> P (cu_at s d c) then st
       else fold (\<lambda>i st. if Q (d, c, i) then f (d, c, i) st else st) [0..<len (cu_at s d c)] st)
     [0..<nat (numCu (dev_at s d))] st) [0..<nat (m_numDevice s)] st0 =
   fold f (filter Q (cu_places P len s)) st0"
proof -
  let ?ids = "\<lambda>d. [0..<nat (numCu (dev_at s d))]"
  have inner: "fold (\<lambda>i st. if Q (d, c, i) then f (d, c, i) st else st) xs st =
      fold f (filter Q (map (\<lambda>i. (d, c, i)) xs)) st" for d c xs st
    by (induction xs arbitrary: st) simp_all
  have mid: "fold (\<lambda>c st. if \<not> P (cu_at s d c) then st
       else fold (\<lambda>i st. if Q (d, c, i) then f (d, c, i) st else st) [0..<len (cu_at s d c)] st) cs st =
      fold f (filter Q (concat (map (\<lambda>c. map (\<lambda>i. (d, c, i)) [0..<len (cu_at s d c)])
        (filter (\<lambda>c. P (cu_at s d c)) cs)))) st" for d cs st
    unfolding inner by (induction cs arbitrary: st) simp_all
  show ?thesis
    unfolding mid cu_places_def by (simp add: fold_concat_map filter_concat map_map comp_def)
qed

lemma put_hits:
  assumes "length rs = limit" "n \<le> limit"
  shows "fold (\<lambda>h. put_hit ff limit (w h)) hs (Some (n, rs)) =
    (if ff \<and> n + length hs > limit then None
     else let k = min limit (n + length hs)
          in Some (k, take n rs @ map2 w (take (k - n) hs) (take (k - n) (drop n rs)) @ drop k rs))"
  using assms
proof (induction hs arbitrary: n rs)
  case (Cons h hs)
  show ?case
  proof (cases "n < limit")
    case False
    then have n: "n = limit" using Cons.prems by simp
    have stay: "fold (\<lambda>h. put_hit False limit (w h)) hs (Some (limit, rs)) = Some (limit, rs)"
      by (induction hs) (simp_all add: put_hit_def)
    have none: "fold (\<lambda>h. put_hit True limit (w h)) hs None = None"
      by (induction hs) (simp_all add: put_hit_def)
    have step: "put_hit b limit (w h) (Some (limit, rs)) = (if b then None else Some (limit, rs))" for b
      by (simp add: put_hit_def)
    show ?thesis using n Cons.prems by (cases ff) (simp_all add: step stay none)
  next
    case True
    let ?rs = "rs[n := w h (rs ! n)]"
    have st: "fold (\<lambda>h. put_hit ff limit (w h)) (h # hs) (Some (n, rs)) =
        fold (\<lambda>h. put_hit ff limit (w h)) hs (Some (Suc n, ?rs))"
      using True by (simp add: put_hit_def)
    have tk: "take (Suc n) ?rs = take n rs @ [w h (rs ! n)]"
      using True Cons.prems(1) by (simp add: take_Suc_update)
    have dr: "drop m ?rs = drop m rs" if "Suc n \<le> m" for m using that by (simp add: drop_update_cancel)
    have cons: "drop n rs = rs ! n # drop (Suc n) rs" using True Cons.prems(1) by (simp add: Cons_nth_drop_Suc)
    have k: "min limit (Suc (n + length hs)) - n = Suc (min limit (Suc (n + length hs)) - Suc n)"
      "Suc n \<le> min limit (Suc (n + length hs))" using True by auto
    show ?thesis
      unfolding st using Cons.IH [of ?rs "Suc n"] Cons.prems True
      by (simp add: Let_def tk dr k cons)
  qed
qed simp

lemma map2_replicate: "n = length xs \<Longrightarrow> map2 w xs (replicate n x) = map (\<lambda>h. w h x) xs"
  by (induction xs arbitrary: n) auto

text \<open>So the allocation query returns its hits, each in a cleared slot, or fails when they are too many.\<close>

lemma alloc_query_loop_eq:
  "alloc_query_loop limit svc name alias s =
     (let hs = alloc_hits svc name alias s
      in if length hs > limit then None
         else Some (length hs, map (\<lambda>h. query_channel svc s h cuResource0) hs @
                replicate (limit - length hs) cuResource0))"
proof -
  have "alloc_query_loop limit svc name alias s =
      fold (\<lambda>h. put_hit True limit (query_channel svc s h)) (alloc_hits svc name alias s)
        (Some (0, replicate limit cuResource0))"
    unfolding alloc_query_loop_def alloc_hits_def
    by (subst places_fold [symmetric, where len = "\<lambda>_. XRM_MAX_KERNEL_CHANNELS"]) (simp only: prod.case)
  then show ?thesis
    by (simp add: put_hits Let_def map2_replicate min_def not_less)
qed

lemma reserve_query_loop_eq:
  "reserve_query_loop limit pool name alias s =
     (let hs = take limit (reserve_hits pool name alias s)
      in Some (length hs, map (\<lambda>h. query_reserve pool s h cuResource0) hs @
           replicate (limit - length hs) cuResource0))"
proof -
  have "reserve_query_loop limit pool name alias s =
      fold (\<lambda>h. put_hit False limit (query_reserve pool s h)) (reserve_hits pool name alias s)
        (Some (0, replicate limit cuResource0))"
    unfolding reserve_query_loop_def reserve_hits_def
    by (subst places_fold [symmetric, where len = "\<lambda>cu. nat (cu_numReserve cu)"]) (simp only: prod.case)
  then show ?thesis
    by (simp add: put_hits Let_def map2_replicate min_def)
qed

section \<open>What the queries find\<close>

lemma set_places:
  "set (cu_places P len s) = {(d, c, i). valid_cu s d c \<and> P (cu_at s d c) \<and> i < len (cu_at s d c)}"
  by (auto simp: cu_places_def valid_cu_def image_iff nat_less_iff)

lemma distinct_places: "distinct (cu_places P len s)"
proof -
  have d: "distinct (concat (map g xs))"
    if "distinct xs" "\<And>x. distinct (g x)" "\<And>x y z. z \<in> set (g x) \<Longrightarrow> z \<in> set (g y) \<Longrightarrow> x = y"
    for g :: "nat \<Rightarrow> (nat \<times> nat \<times> nat) list" and xs
    using that(1) by (induction xs) (use that(2,3) in \<open>auto, blast\<close>)
  show ?thesis
    unfolding cu_places_def
    by (intro d) (auto simp: distinct_map inj_on_def)
qed

lemma alloc_hits_grants:
  assumes inv: "sys_inv s" and svc: "svc \<noteq> 0"
  shows "set (alloc_hits svc name alias s) = {(d, c, i). \<exists>ch. grants s (d, c, i) = Some ch \<and>
    ch_allocServiceId ch = svc \<and> names_match name alias (cu_at s d c)}"
proof -
  have "in_use (chan_at s d c i)"
    if v: "valid_cu s d c" and i: "i < XRM_MAX_KERNEL_CHANNELS" and m: "ch_allocServiceId (chan_at s d c i) = svc" for d c i
  proof -
    have "chans_inv (cu_at s d c)" using valid_cu_inv [OF inv v] by (simp add: cu_inv_def cu_acct_def)
    then have "chan_ok (chan_at s d c i)" using i by (simp add: chans_inv_def chan_at_def)
    then show ?thesis using m svc by (auto simp: chan_ok_def in_use_def split: if_splits)
  qed
  then show ?thesis
    by (auto simp: alloc_hits_def set_places grants_def chan_at_def split: if_splits)
qed

lemma distinct_alloc_hits: "distinct (alloc_hits svc name alias s)"
  by (simp add: alloc_hits_def distinct_places)

text \<open>A record the query returns names its grant: it can be given to the release.\<close>

lemma query_channel_revoked:
  assumes inv: "sys_inv s" and svc: "svc \<noteq> 0" and h: "(d, c, i) \<in> set (alloc_hits svc name alias s)"
  shows "revoked (query_channel svc s (d, c, i) r) d c i s"
proof -
  obtain ch where g: "grants s (d, c, i) = Some ch" "ch_allocServiceId ch = svc"
    using h alloc_hits_grants [OF inv svc] by auto
  then have ch: "ch = chan_at s d c i" "valid_cu s d c" "i < XRM_MAX_KERNEL_CHANNELS"
    by (auto simp: grants_def split: if_splits)
  have "ch_channelId (chan_at s d c i) = int i"
    using valid_cu_inv [OF inv ch(2)] ch(3) by (simp add: cu_inv_def cu_acct_def chans_inv_def chan_at_def)
  with g ch show ?thesis
    by (simp add: revoked_def query_channel_def query_cu_def release_matches_def chan_at_def Let_def)
qed

definition service_grants :: "u64 \<Rightarrow> string \<Rightarrow> string \<Rightarrow> system \<Rightarrow> (nat \<times> nat \<times> nat) set" where
  "service_grants svc name alias s = {(d, c, i). \<exists>ch. grants s (d, c, i) = Some ch \<and>
     ch_allocServiceId ch = svc \<and> names_match name alias (cu_at s d c)}"

lemma resAllocationQuery_spec:
  assumes inv: "sys_inv s" and q: "aq_allocServiceId q \<noteq> 0"
    and G: "G = service_grants (aq_allocServiceId q) (aq_kernelName q) (aq_kernelAlias q) s"
    and run: "resAllocationQuery q lr s = (ret, lr')"
  shows "finite G" "ret = XRM_SUCCESS \<longleftrightarrow> card G \<le> XRM_MAX_LIST_CU_NUM"
    "ret = XRM_SUCCESS \<Longrightarrow> lr_cuNum lr' = int (card G) \<and>
      (\<exists>hs. set hs = G \<and> length hs = card G \<and>
        (\<forall>j<length hs. case hs ! j of (d, c, i) \<Rightarrow> revoked (lr_cuResources lr' ! j) d c i s))"
proof -
  let ?svc = "aq_allocServiceId q" and ?hs = "alloc_hits (aq_allocServiceId q) (aq_kernelName q) (aq_kernelAlias q) s"
  have hs: "set ?hs = G" "length ?hs = card G"
    using alloc_hits_grants [OF inv q] distinct_card [OF distinct_alloc_hits] by (auto simp: G service_grants_def) metis
  show "finite G" using hs(1) by (metis List.finite_set)
  have e: "(ret, lr') = (if length ?hs > XRM_MAX_LIST_CU_NUM then (XRM_ERROR, cuListResource0 XRM_MAX_LIST_CU_NUM)
      else (XRM_SUCCESS, \<lparr> lr_cuResources = map (\<lambda>h. query_channel ?svc s h cuResource0) ?hs @
        replicate (XRM_MAX_LIST_CU_NUM - length ?hs) cuResource0, lr_cuNum = int (length ?hs) \<rparr>))"
    using run q by (auto simp: resAllocationQuery_def query_result_def alloc_query_loop_eq Let_def split: if_splits)
  then show "ret = XRM_SUCCESS \<longleftrightarrow> card G \<le> XRM_MAX_LIST_CU_NUM" using hs(2) by (simp add: not_less split: if_splits)
  assume "ret = XRM_SUCCESS"
  with e have lr: "lr_cuNum lr' = int (length ?hs)"
    "lr_cuResources lr' = map (\<lambda>h. query_channel ?svc s h cuResource0) ?hs @
        replicate (XRM_MAX_LIST_CU_NUM - length ?hs) cuResource0" by (simp_all split: if_splits)
  have "case ?hs ! j of (d, c, i) \<Rightarrow> revoked (lr_cuResources lr' ! j) d c i s" if j: "j < length ?hs" for j
  proof -
    obtain d c i where h: "?hs ! j = (d, c, i)" by (metis prod_cases3)
    then have "(d, c, i) \<in> set ?hs" using nth_mem [OF j] by simp
    from query_channel_revoked [OF inv q this] show ?thesis using j h by (simp add: lr(2) nth_append)
  qed
  with lr(1) hs show "lr_cuNum lr' = int (card G) \<and> (\<exists>hs. set hs = G \<and> length hs = card G \<and>
        (\<forall>j<length hs. case hs ! j of (d, c, i) \<Rightarrow> revoked (lr_cuResources lr' ! j) d c i s))"
    by (intro conjI exI [of _ ?hs]) auto
qed

text \<open>Once one member of a list is found, the others are not looked for.\<close>

lemma any_device_members_found [simp]: "any_device_members ps True s"
  by (induction ps) (simp_all add: Let_def)

lemma resIsCuListExisting_first:
  assumes "\<not> lp_sameDevice lp" "length (lp_cuProps lp) = XRM_MAX_LIST_CU_NUM"
  shows "resIsCuListExisting lp s \<longleftrightarrow> 0 < lp_cuNum lp \<and> lp_cuNum lp \<le> int XRM_MAX_LIST_CU_NUM \<and>
    cu_on_any_device (lp_cuProps lp ! 0) s"
proof (cases "0 < lp_cuNum lp \<and> lp_cuNum lp \<le> int XRM_MAX_LIST_CU_NUM")
  case True
  then have "take (nat (lp_cuNum lp)) (lp_cuProps lp) = lp_cuProps lp ! 0 # tl (take (nat (lp_cuNum lp)) (lp_cuProps lp))"
    using assms(2) by (cases "lp_cuProps lp") (auto simp: XRM_MAX_LIST_CU_NUM_def take_Cons' split: nat.splits)
  with True assms(1) show ?thesis
    by (simp add: resIsCuListExisting_def Let_def) (metis (full_types) any_device_members.simps(2) any_device_members_found)
qed (auto simp: resIsCuListExisting_def)

text \<open>A compute unit that is allocated exists.\<close>

lemma resIsCuExisting_matches:
  assumes inv: "sys_inv s" and v: "valid_cu s d c" and m: "cu_matches prop (cu_at s d c)" and n: "\<not> no_name prop"
  shows "resIsCuExisting prop s"
proof -
  have d: "int d < m_numDevice s" "int c < numCu (dev_at s d)" using v by (auto simp: valid_cu_def)
  then have "dev_inv d (dev_at s d)" using inv by (auto simp: sys_inv_def)
  then have "dv_isLoaded (dev_at s d)" "c \<in> set (cu_ids (dev_at s d))"
    using d by (auto simp: dev_inv_def set_cu_ids)
  with m n have "dv_isLoaded (dev_at s d) \<and> resIsCuExistingOnDev d prop s"
    by (auto simp: resIsCuExistingOnDev_def list_ex_iff)
  with n d(1) show ?thesis
    by (auto simp: resIsCuExisting_def cu_on_any_device_def list_ex_iff intro!: bexI [of _ d])
qed

text \<open>The reservation query lists the compute units that hold a part of the pool, each once.\<close>

lemma reserve_hits_reserved:
  assumes inv: "sys_inv s"
  shows "(\<lambda>(d, c, j). (d, c)) ` set (reserve_hits pool name alias s) =
      {(d, c). reserved s (d, c) pool \<noteq> None \<and> names_match name alias (cu_at s d c)}"
    "inj_on (\<lambda>(d, c, j). (d, c)) (set (reserve_hits pool name alias s))"
proof -
  have len: "nat (cu_numReserve (cu_at s d c)) \<le> length (cu_reserves (cu_at s d c))"
    and dist: "distinct (map rs_poolId (act_reserves (cu_at s d c)))" if "valid_cu s d c" for d c
    using valid_cu_inv [OF inv that] by (auto simp: cu_inv_def cu_acct_def reserves_inv_def)
  have mem: "reserved s (d, c) pool \<noteq> None \<longleftrightarrow> valid_cu s d c \<and>
      (\<exists>j<nat (cu_numReserve (cu_at s d c)). rs_poolId (cu_reserves (cu_at s d c) ! j) = pool)" for d c
  proof (cases "valid_cu s d c")
    case True
    have "reserved s (d, c) pool \<noteq> None \<longleftrightarrow> pool \<in> pool_ids (cu_at s d c)"
      using True by (simp add: reserved_def pools_dom [symmetric] domIff)
    also have "\<dots> \<longleftrightarrow> (\<exists>j<nat (cu_numReserve (cu_at s d c)). rs_poolId (cu_reserves (cu_at s d c) ! j) = pool)"
      unfolding pool_ids_def act_reserves_def image_set_take [OF len [OF True]] by auto
    finally show ?thesis using True by simp
  qed (simp add: reserved_def)
  show "(\<lambda>(d, c, j). (d, c)) ` set (reserve_hits pool name alias s) =
      {(d, c). reserved s (d, c) pool \<noteq> None \<and> names_match name alias (cu_at s d c)}"
    unfolding mem by (force simp: reserve_hits_def set_places image_iff)
  have "j = j'" if v: "valid_cu s d c" and j: "j < nat (cu_numReserve (cu_at s d c))" "j' < nat (cu_numReserve (cu_at s d c))"
      and e: "rs_poolId (cu_reserves (cu_at s d c) ! j) = rs_poolId (cu_reserves (cu_at s d c) ! j')" for d c j j'
  proof -
    have "map rs_poolId (act_reserves (cu_at s d c)) ! j = map rs_poolId (act_reserves (cu_at s d c)) ! j'"
      using j e len [OF v] by (simp add: act_reserves_def)
    then show ?thesis using nth_eq_iff_index_eq [OF dist [OF v]] j len [OF v] by (simp add: act_reserves_def)
  qed
  then show "inj_on (\<lambda>(d, c, j). (d, c)) (set (reserve_hits pool name alias s))"
    by (auto simp: inj_on_def reserve_hits_def set_places)
qed

lemma resReservationQuery_spec:
  assumes inv: "sys_inv s" and p: "pool \<noteq> 0" and D: "D = {dc. reserved s dc pool \<noteq> None}"
    and fit: "card D \<le> XRM_MAX_POOL_CU_NUM" and run: "resReservationQuery pool lr s = (ret, lr')"
  shows "ret = XRM_SUCCESS" "finite D" "lr_cuNum lr' = int (card D)"
    "(\<lambda>r. (nat (re_deviceId r), nat (re_cuId r))) ` set (take (card D) (lr_cuResources lr')) = D"
    "\<forall>r\<in>set (take (card D) (lr_cuResources lr')). re_poolId r = pool"
proof -
  let ?hs = "reserve_hits pool [] [] s" and ?dc = "\<lambda>(d, c, j :: nat). (d :: nat, c :: nat)"
  have img: "?dc ` set ?hs = D"
    using reserve_hits_reserved(1) [OF inv, of pool "[]" "[]"] by (auto simp: D names_match_def)
  then show fin: "finite D" by (metis List.finite_set finite_imageI)
  have "distinct ?hs" by (simp add: reserve_hits_def distinct_places)
  then have len: "length ?hs = card D"
    using card_image [OF reserve_hits_reserved(2) [OF inv, of pool "[]" "[]"]] img by (simp add: distinct_card)
  have e: "(ret, lr') = (XRM_SUCCESS, \<lparr> lr_cuResources = map (\<lambda>h. query_reserve pool s h cuResource0) ?hs @
        replicate (XRM_MAX_POOL_CU_NUM - length ?hs) cuResource0, lr_cuNum = int (length ?hs) \<rparr>)"
    using run p fit len by (simp add: resReservationQuery_def query_result_def reserve_query_loop_eq Let_def)
  then show "ret = XRM_SUCCESS" "lr_cuNum lr' = int (card D)" using len by simp_all
  have tk: "take (card D) (lr_cuResources lr') = map (\<lambda>h. query_reserve pool s h cuResource0) ?hs"
    using e len by simp
  have "(\<lambda>r. (nat (re_deviceId r), nat (re_cuId r))) (query_reserve pool s h cuResource0) = ?dc h" for h
    by (cases h) (simp add: query_reserve_def query_cu_def)
  then have "(\<lambda>r. (nat (re_deviceId r), nat (re_cuId r))) ` set (take (card D) (lr_cuResources lr')) = ?dc ` set ?hs"
    unfolding tk by (simp add: image_image)
  with img show "(\<lambda>r. (nat (re_deviceId r), nat (re_cuId r))) ` set (take (card D) (lr_cuResources lr')) = D"
    by simp
  show "\<forall>r\<in>set (take (card D) (lr_cuResources lr')). re_poolId r = pool"
    unfolding tk by (auto simp: query_reserve_def)
qed

end
