(* ===== verification/Xrm_Policy.thy ===== *)
theory Xrm_Policy
  imports Xrm_Lists_Inv
begin

text \<open>
  Allocation of one compute unit by a version 2 request (\<open>resAllocCuV2\<close>): the device may be given, and a
  policy prefers the most or the least used devices (\<open>resAllocCuByDevLoad\<close>) or compute units
  (\<open>resAllocCuByCuLoad\<close>, \<open>resAllocCuFromDevByCuLoad\<close>). A compute unit that fits but is not the best possible
  one is remembered in \<open>preCu\<close> and taken at the end. Each operation is shown to make one grant, or none, or
  to report a success without a grant.
\<close>

section \<open>The scan with a remembered compute unit\<close>

text \<open>
  The body of the compute unit loops. The variables \<open>preDevId\<close> and \<open>preCuId\<close>, written whenever \<open>preCu\<close> changes,
  are the two components of the remembered pointer.
\<close>

type_synonym policy_state = "(nat \<times> nat) option \<times> cuResource"

definition policy_cu :: "cuProperty \<Rightarrow> u64 \<Rightarrow> nat \<Rightarrow> nat \<Rightarrow> policy_state \<times> system \<Rightarrow> bool \<times> policy_state \<times> system" where
  "policy_cu prop policyInfo d c = (\<lambda>((preCu, cuRes), s).
     if \<not> cu_matches prop (cu_at s d c) then (False, (preCu, cuRes), s)
     else case allocChanClientFromCu d c prop policyInfo preCu (cuRes, s) of
            (ret, preCu', cuRes', s') \<Rightarrow>
              if ret \<noteq> XRM_SUCCESS then (False, (preCu', cuRes'), s')
              else (True, (None, locate_cuRes (dev_at s' d) d c cuRes'), s'))"

definition policy_scan :: "bool \<Rightarrow> cuProperty \<Rightarrow> u64 \<Rightarrow> nat \<Rightarrow> policy_state \<times> system \<Rightarrow> bool \<times> policy_state \<times> system" where
  "policy_scan cuAffinityPass prop policyInfo d = (\<lambda>(st, s).
     until_acquired
       (\<lambda>c (st, s). if affinity_skip cuAffinityPass (cu_at s d c) then (False, st, s)
                     else policy_cu prop policyInfo d c (st, s))
       (cu_ids (dev_at s d)) (st, s))"

text \<open>
  Taking the remembered compute unit. The result of the allocation is not looked at: the record is
  filled and the call counts as a success in any case.
\<close>

definition take_preCu :: "cuProperty \<Rightarrow> bool \<times> policy_state \<times> system \<Rightarrow> bool \<times> cuResource \<times> system" where
  "take_preCu prop = (\<lambda>(acquired, (preCu, cuRes), s).
     case preCu of
       None \<Rightarrow> (acquired, cuRes, s)
     | Some (pd, pc) \<Rightarrow>
         (case allocChan pd pc prop (cuRes, s) of
            (_, cuRes', s') \<Rightarrow> (True, locate_cuRes (dev_at s' pd) pd pc cuRes', s')))"

definition finish_alloc :: "bool \<Rightarrow> bool \<times> cuResource \<times> system \<Rightarrow> int \<times> cuResource \<times> system" where
  "finish_alloc updateId = (\<lambda>(acquired, cuRes, s).
     if acquired then (XRM_SUCCESS, cuRes, if updateId then updateAllocServiceId s else s)
     else (XRM_ERROR_NO_KERNEL, cuRes, s))"

section \<open>By the load of the compute units\<close>

definition policy_try :: "bool \<Rightarrow> cuProperty \<Rightarrow> u64 \<Rightarrow> nat \<Rightarrow> policy_state \<times> system \<Rightarrow> bool \<times> policy_state \<times> system" where
  "policy_try cuAffinityPass prop policyInfo d = (\<lambda>(st, s).
     case allocClientFromDev (int d) prop s of
       (ret, s1) \<Rightarrow>
         if ret < 0 then (False, st, s1)
         else case policy_scan cuAffinityPass prop policyInfo d (st, s1) of
                (acquired, st', s2) \<Rightarrow>
                  if acquired then (True, st', s2)
                  else (False, st', snd (releaseClientOnDev (int d) (pr_clientId prop) s2)))"

text \<open>Here \<open>preCu\<close> is taken after the search, when the client is no longer registered on its device.\<close>

definition resAllocCuByCuLoad :: "cuPropertyV2 \<Rightarrow> bool \<Rightarrow> cuResource \<times> system \<Rightarrow> int \<times> cuResource \<times> system" where
  "resAllocCuByCuLoad cuPropV2 updateId = (\<lambda>(cuRes, s).
     let prop = cuPropertyCopyFromV2 cuPropV2; policyInfo = p2_policyInfo cuPropV2
     in case search_devices (policy_try True prop policyInfo) prop ((None, cuRes), s) of
          (acquired1, st1) \<Rightarrow>
            finish_alloc updateId (take_preCu prop
              (if acquired1 then (True, st1) else search_devices (policy_try False prop policyInfo) prop st1)))"

definition resAllocCuFromDevByCuLoad :: "int \<Rightarrow> cuPropertyV2 \<Rightarrow> bool \<Rightarrow> cuResource \<times> system \<Rightarrow>
    int \<times> cuResource \<times> system" where
  "resAllocCuFromDevByCuLoad deviceId cuPropV2 updateId = (\<lambda>(cuRes, s).
     let prop = cuPropertyCopyFromV2 cuPropV2; policyInfo = p2_policyInfo cuPropV2; d = nat deviceId
     in case dev_refuses deviceId prop s of
          Some err \<Rightarrow> (err, cuRes, s)
        | None \<Rightarrow>
            (case allocClientFromDev deviceId prop s of
               (ret, s1) \<Rightarrow>
                 if ret < 0 then (XRM_ERROR_NO_DEV, cuRes, s1)
                 else case policy_scan True prop policyInfo d ((None, cuRes), s1) of
                        (acquired1, st1) \<Rightarrow>
                          (case take_preCu prop (if acquired1 then (True, st1)
                                   else policy_scan False prop policyInfo d st1) of
                             (acquired, cuRes', s2) \<Rightarrow>
                               if acquired then finish_alloc updateId (acquired, cuRes', s2)
                               else (XRM_ERROR_NO_KERNEL, cuRes',
                                     snd (releaseClientOnDev deviceId (pr_clientId prop) s2)))))"

section \<open>By the load of the devices\<close>

text \<open>
  \<open>deviceLoadInfo::operator<\<close>, as written, and \<open>std::sort\<close> on the at most 16 devices: for up to 16 elements the
  library's algorithm is the insertion sort below, which compares the new element with the first
  one before it looks for its place from the end, so it stays in bounds for any comparison.
\<close>

definition load_less :: "deviceLoadInfo \<Rightarrow> deviceLoadInfo \<Rightarrow> bool" where
  "load_less a b \<longleftrightarrow> li_devLoadRate a < li_devLoadRate b \<or> li_deviceId a < li_deviceId b"

definition sort_insert :: "('a \<Rightarrow> 'a \<Rightarrow> bool) \<Rightarrow> 'a \<Rightarrow> 'a list \<Rightarrow> 'a list" where
  "sort_insert lt v xs =
     (case xs of
        [] \<Rightarrow> [v]
      | x # _ \<Rightarrow>
          if lt v x then v # xs
          else let moved = takeWhile (lt v) (rev xs)
               in take (length xs - length moved) xs @ v # rev moved)"

definition std_sort :: "('a \<Rightarrow> 'a \<Rightarrow> bool) \<Rightarrow> 'a list \<Rightarrow> 'a list" where
  "std_sort lt xs = fold (sort_insert lt) xs []"

definition device_order :: "u64 \<Rightarrow> system \<Rightarrow> int list" where
  "device_order policyInfo s =
     (let devLoadArray = std_sort load_less
            (map (\<lambda>d. dv_devLoadInfo (dev_at s d)) [0..<nat (m_numDevice s)]);
          ids = map li_deviceId devLoadArray
      in if policyInfo = XRM_POLICY_INFO_CONSTRAINT_TYPE_DEV_LEAST_USED_FIRST then ids else rev ids)"

text \<open>One device: the loop body has no affinity test, and \<open>preCu\<close> is taken while the client is registered.\<close>

definition dev_load_try :: "cuProperty \<Rightarrow> u64 \<Rightarrow> int \<Rightarrow> cuResource \<times> system \<Rightarrow> bool \<times> cuResource \<times> system" where
  "dev_load_try prop policyInfo devId = (\<lambda>(cuRes, s).
     case allocClientFromDev devId prop s of
       (ret, s1) \<Rightarrow>
         if ret < 0 then (False, cuRes, s1)
         else case take_preCu prop (until_acquired (policy_cu prop policyInfo (nat devId))
                     (cu_ids (dev_at s1 (nat devId))) ((None, cuRes), s1)) of
                (acquired, cuRes', s2) \<Rightarrow>
                  if acquired then (True, cuRes', s2)
                  else (False, cuRes', snd (releaseClientOnDev devId (pr_clientId prop) s2)))"

definition resAllocCuByDevLoad :: "cuPropertyV2 \<Rightarrow> bool \<Rightarrow> cuResource \<times> system \<Rightarrow> int \<times> cuResource \<times> system" where
  "resAllocCuByDevLoad cuPropV2 updateId = (\<lambda>(cuRes, s).
     let prop = cuPropertyCopyFromV2 cuPropV2; policyInfo = p2_policyInfo cuPropV2
     in finish_alloc updateId (until_acquired (dev_load_try prop policyInfo) (device_order policyInfo s) (cuRes, s)))"

definition resAllocCuV2 :: "cuPropertyV2 \<Rightarrow> bool \<Rightarrow> cuResource \<times> system \<Rightarrow> int \<times> cuResource \<times> system" where
  "resAllocCuV2 cuPropV2 updateId st =
     (let policyInfo = p2_policyInfo cuPropV2; constraint = deviceInfoConstraintType cuPropV2
      in if pr_kernelName cuPropV2 = [] \<and> pr_kernelAlias cuPropV2 = [] \<and> pr_cuName cuPropV2 = []
         then (XRM_ERROR_INVALID, st)
         else if constraint = XRM_DEVICE_INFO_CONSTRAINT_TYPE_NULL then
           (if policyInfo = XRM_POLICY_INFO_CONSTRAINT_TYPE_DEV_MOST_USED_FIRST \<or>
               policyInfo = XRM_POLICY_INFO_CONSTRAINT_TYPE_DEV_LEAST_USED_FIRST
            then resAllocCuByDevLoad cuPropV2 updateId st
            else if policyInfo = XRM_POLICY_INFO_CONSTRAINT_TYPE_CU_MOST_USED_FIRST \<or>
                    policyInfo = XRM_POLICY_INFO_CONSTRAINT_TYPE_CU_LEAST_USED_FIRST
            then resAllocCuByCuLoad cuPropV2 updateId st
            else resAllocCu (cuPropertyCopyFromV2 cuPropV2) updateId st)
         else if constraint = XRM_DEVICE_INFO_CONSTRAINT_TYPE_HARDWARE_DEVICE_INDEX
         then resAllocCuFromDevByCuLoad (i32 (uint (deviceInfoDeviceIndex cuPropV2))) cuPropV2 updateId st
         else (XRM_ERROR_INVALID, st))"

end
