(* ===== verification/Xrm_Policy_Inv.thy ===== *)
theory Xrm_Policy_Inv
  imports Xrm_Policy Xrm_Effects
begin

text \<open>
  Correctness of the allocation by policy: whatever the policy, one grant is made, or none; and the policies
  on compute units choose the most or the least used one of the device.
\<close>

section \<open>One grant, or none\<close>

text \<open>The request fits the load of the compute unit; a free channel is what is missing to take it.\<close>

definition load_fits :: "cuProperty \<Rightarrow> cuData \<Rightarrow> bool" where
  "load_fits prop cu \<longleftrightarrow> can_take prop (cu\<lparr>cu_numChanInuse := 0\<rparr>)"

lemma can_take_fits: "can_take prop cu \<longleftrightarrow> load_fits prop cu \<and> cu_numChanInuse cu < int XRM_MAX_KERNEL_CHANNELS"
  by (auto simp: load_fits_def can_take_def XRM_MAX_KERNEL_CHANNELS_def act_reserves_def)

lemma load_fits_pool:
  assumes rs: "reserves_inv cu" and p: "pr_poolId prop \<noteq> 0" and k: "isReservePoolUsingCu cu (pr_poolId prop) \<noteq> - 1"
  defines "r \<equiv> cu_reserves cu ! nat (isReservePoolUsingCu cu (pr_poolId prop))"
  shows "load_fits prop cu \<longleftrightarrow> 0 < pr_requestLoadUnified prop \<and>
      rs_usedLoadUnified r + pr_requestLoadUnified prop \<le> rs_loadUnified r"
proof -
  let ?cu = "cu\<lparr>cu_numChanInuse := 0\<rparr>"
  have "reserves_inv ?cu" "isReservePoolUsingCu ?cu (pr_poolId prop) = isReservePoolUsingCu cu (pr_poolId prop)"
    using rs by (simp_all add: reserves_inv_def act_reserves_def isReservePoolUsingCu_def)
  then show ?thesis
    using can_take_pool [of ?cu "prop"] p k by (simp add: load_fits_def r_def XRM_MAX_KERNEL_CHANNELS_def)
qed

lemma allocChanClientFromCu_pre:
  assumes inv: "sys_inv s" and v: "valid_cu s d c" and req: "prop_ok prop"
    and run: "allocChanClientFromCu d c prop policyInfo preCu (cuRes, s) = (ret, preCu', cuRes', s')"
  shows "preCu' = preCu \<or> preCu' = Some (d, c) \<and> load_fits prop (cu_at s d c)"
proof -
  let ?cu = "cu_at s d c" and ?req = "pr_requestLoadUnified prop" and ?p = "pr_poolId prop"
  have acct: "cu_acct ?cu" and rs: "reserves_inv ?cu"
    using valid_cu_inv [OF inv v] by (auto simp: cu_inv_def cu_acct_def)
  have rq: "?req + XRM_MAX_LOAD \<le> 2147483647" using req by (auto simp: prop_ok_def)
  consider "?req \<le> 0" | "0 < ?req" "?p = 0" | "0 < ?req" "?p \<noteq> 0" "isReservePoolUsingCu ?cu ?p = - 1"
    | "0 < ?req" "?p \<noteq> 0" "isReservePoolUsingCu ?cu ?p \<noteq> - 1" by linarith
  then show ?thesis
  proof cases
    case 2
    then have "i32 (cu_totalUsedLoadUnified ?cu + ?req) = cu_totalUsedLoadUnified ?cu + ?req"
      using totals_bounds [OF acct] rq by simp
    with 2 run show ?thesis
      by (auto simp: allocChanClientFromCu_def Let_def load_fits_def can_take_def XRM_MAX_KERNEL_CHANNELS_def
          split: if_splits prod.splits option.splits)
  next
    case 4
    let ?r = "cu_reserves ?cu ! nat (isReservePoolUsingCu ?cu ?p)"
    note spec = isReservePoolUsingCu_spec(2) [OF rs 4(3)]
    have "i32 (rs_usedLoadUnified ?r + ?req) = rs_usedLoadUnified ?r + ?req"
      using reserve_bounds [OF acct spec [THEN conjunct1]] rq 4(1) by simp
    with 4 run show ?thesis
      unfolding load_fits_pool [OF rs 4(2,3)]
      by (auto simp: allocChanClientFromCu_def Let_def split: if_splits prod.splits option.splits)
  qed (use run in \<open>auto simp: allocChanClientFromCu_def Let_def\<close>)
qed

definition pre_ok :: "cuProperty \<Rightarrow> system \<Rightarrow> (nat \<times> nat) option \<Rightarrow> bool" where
  "pre_ok prop s pre \<longleftrightarrow> (\<forall>d c. pre = Some (d, c) \<longrightarrow>
     valid_cu s d c \<and> cu_matches prop (cu_at s d c) \<and> load_fits prop (cu_at s d c))"

lemma pre_ok_simps [simp]: "pre_ok prop s None"
  "pre_ok prop s (Some (d, c)) \<longleftrightarrow> valid_cu s d c \<and> cu_matches prop (cu_at s d c) \<and> load_fits prop (cu_at s d c)"
  by (auto simp: pre_ok_def)

lemma pre_ok_quiet: "quiet s s' \<Longrightarrow> pre_ok prop s' pre = pre_ok prop s pre"
  by (simp add: pre_ok_def quiet_inv(4,6))

lemma policy_cu_spec:
  assumes inv: "sys_inv s" and v: "valid_cu s d c" and req: "prop_ok prop" and pre: "pre_ok prop s preCu"
    and run: "policy_cu prop policyInfo d c ((preCu, cuRes), s) = (b, (preCu', cuRes'), s')"
  shows "if b then alloc_on prop d c s cuRes' s' \<and> preCu' = None else s' = s \<and> cuRes' = cuRes \<and> pre_ok prop s preCu'"
proof (cases "cu_matches prop (cu_at s d c)")
  case False
  with run pre show ?thesis by (auto simp: policy_cu_def)
next
  case True
  obtain ret p r t where a: "allocChanClientFromCu d c prop policyInfo preCu (cuRes, s) = (ret, p, r, t)"
    by (metis prod_cases4)
  note spec = allocChanClientFromCu_spec [OF inv v req a] allocChanClientFromCu_pre [OF inv v req a]
  show ?thesis
    using run a spec True v pre
    by (auto simp: policy_cu_def alloc_on_def granted_at_def split: if_splits)
qed

lemma policy_loop_spec:
  assumes inv: "sys_inv s" and d: "int d < m_numDevice s" and req: "prop_ok prop" and pre: "pre_ok prop s preCu"
    and cs: "set cs \<subseteq> set (cu_ids (dev_at s d))"
    and run: "until_acquired (\<lambda>c (st, s). if skip (cu_at s d c) then (False, st, s) else policy_cu prop policyInfo d c (st, s))
      cs ((preCu, cuRes), s) = (b, (preCu', cuRes'), s')"
  shows "if b then (\<exists>c. alloc_on prop d c s cuRes' s') \<and> preCu' = None else s' = s \<and> cuRes' = cuRes \<and> pre_ok prop s preCu'"
proof -
  let ?P = "\<lambda>((p, r), t). t = s \<and> r = cuRes \<and> pre_ok prop s p"
  let ?Q = "\<lambda>c ((p, r), t). alloc_on prop d c s r t \<and> p = None"
  let ?body = "\<lambda>c (st, s). if skip (cu_at s d c) then (False, st, s) else policy_cu prop policyInfo d c (st, s)"
  have step: "if b1 then ?Q c x' else ?P x'" if c: "c \<in> set cs" and P: "?P x" and rn: "?body c x = (b1, x')" for c x b1 x'
  proof (cases "skip (cu_at s d c)")
    case True
    with P rn show ?thesis by auto
  next
    case False
    obtain p r t where x': "x' = ((p, r), t)" by (metis prod.collapse)
    obtain p0 where x: "x = ((p0, cuRes), s)" "pre_ok prop s p0" using P by auto
    have "valid_cu s d c" using c cs valid_cu_ids [OF inv d] by auto
    from policy_cu_spec [OF inv this req x(2)] False rn show ?thesis by (auto simp: x(1) x')
  qed
  have "if b then \<exists>c\<in>set cs. ?Q c ((preCu', cuRes'), s') else ?P ((preCu', cuRes'), s')"
  proof (rule until_acquired_rule [where P = ?P and Q = ?Q, OF _ _ _ run])
    show "?P ((preCu, cuRes), s)" using pre by simp
    show "?P x'" if "c \<in> set cs" "?P x" "?body c x = (False, x')" for c x x' using step [OF that] by simp
    show "?Q c x'" if "c \<in> set cs" "?P x" "?body c x = (True, x')" for c x x' using step [OF that] by simp
  qed
  then show ?thesis by (auto split: if_splits)
qed

lemma policy_scan_spec:
  assumes "sys_inv s" "int d < m_numDevice s" "prop_ok prop" "pre_ok prop s preCu"
    and "policy_scan aff prop policyInfo d ((preCu, cuRes), s) = (b, (preCu', cuRes'), s')"
  shows "if b then (\<exists>c. alloc_on prop d c s cuRes' s') \<and> preCu' = None else s' = s \<and> cuRes' = cuRes \<and> pre_ok prop s preCu'"
  using policy_loop_spec [OF assms(1-4) subset_refl] assms(5) by (simp add: policy_scan_def)

text \<open>
  A compute unit whose load fits the request but whose channels are all taken: only then a success
  without a grant is possible.
\<close>

definition crowded :: "cuProperty \<Rightarrow> system \<Rightarrow> bool" where
  "crowded prop s \<longleftrightarrow> (\<exists>d c. valid_cu s d c \<and> cu_matches prop (cu_at s d c) \<and> load_fits prop (cu_at s d c) \<and>
     cu_numChanInuse (cu_at s d c) \<ge> int XRM_MAX_KERNEL_CHANNELS)"

definition policy_taken :: "cuProperty \<Rightarrow> system \<Rightarrow> bool \<Rightarrow> cuResource \<Rightarrow> system \<Rightarrow> bool" where
  "policy_taken prop s b cuRes s' \<longleftrightarrow>
     (if b then alloc_done prop s cuRes s' \<or> quiet s s' \<and> crowded prop s else quiet s s')"

definition policy_state_ok :: "cuProperty \<Rightarrow> system \<Rightarrow> bool \<Rightarrow> policy_state \<Rightarrow> system \<Rightarrow> bool" where
  "policy_state_ok prop s b = (\<lambda>(preCu, cuRes) s'.
     if b then alloc_done prop s cuRes s' \<and> preCu = None else quiet s s' \<and> pre_ok prop s preCu)"

lemma take_preCu_spec:
  assumes inv: "sys_inv s" and req: "prop_ok prop" and st: "policy_state_ok prop s b st t"
    and run: "take_preCu prop (b, st, t) = (b', cuRes', s')"
  shows "policy_taken prop s b' cuRes' s'"
proof -
  obtain preCu cuRes where e: "st = (preCu, cuRes)" by fastforce
  show ?thesis
  proof (cases preCu)
    case None
    with run st show ?thesis by (auto simp: e take_preCu_def policy_taken_def policy_state_ok_def)
  next
    case (Some x)
    obtain d c where x: "preCu = Some (d, c)" using Some by (cases x) auto
    then have q: "quiet s t" and v: "valid_cu s d c" and m: "cu_matches prop (cu_at s d c)"
      and f: "load_fits prop (cu_at s d c)" using st by (auto simp: e policy_state_ok_def split: if_splits)
    note q1 = quiet_inv(1) [OF q inv] quiet_inv(4,6) [OF q]
    obtain ret r u where a: "allocChan d c prop (cuRes, t) = (ret, r, u)" by (metis prod_cases3)
    note spec = allocChan_spec [OF q1(1) _ req a, unfolded q1(2,3), OF v]
    have "b'" and r': "cuRes' = locate_cuRes (dev_at u d) d c r" and s': "s' = u"
      using run a x by (auto simp: e take_preCu_def)
    show ?thesis
    proof (cases "can_take prop (cu_at s d c)")
      case True
      then have "alloc_on prop d c t cuRes' s'"
        using spec v m q1(2,3) by (auto simp: alloc_on_def granted_at_def r' s')
      then have "alloc_done prop s cuRes' s'" using alloc_on_after [OF q] unfolding alloc_done_def by blast
      with \<open>b'\<close> show ?thesis by (simp add: policy_taken_def)
    next
      case False
      then have "int XRM_MAX_KERNEL_CHANNELS \<le> cu_numChanInuse (cu_at s d c)"
        using f by (simp add: can_take_fits)
      then have "crowded prop s" using v m f unfolding crowded_def by blast
      with False spec q \<open>b'\<close> show ?thesis by (simp add: policy_taken_def s')
    qed
  qed
qed

definition policy_result :: "cuProperty \<Rightarrow> bool \<Rightarrow> system \<Rightarrow> int \<Rightarrow> cuResource \<Rightarrow> system \<Rightarrow> bool" where
  "policy_result prop updateId s ret cuRes s' \<longleftrightarrow>
     (if ret = XRM_SUCCESS
      then \<exists>t. policy_taken prop s True cuRes t \<and> s' = (if updateId then updateAllocServiceId t else t)
      else quiet s s')"

lemma alloc_policy_result: "alloc_result prop updateId s ret cuRes s' \<Longrightarrow> policy_result prop updateId s ret cuRes s'"
  unfolding alloc_result_def policy_result_def policy_taken_def if_True by (cases "ret = XRM_SUCCESS") auto

lemma finish_alloc_result:
  "policy_taken prop s b cuRes t \<Longrightarrow> finish_alloc updateId (b, cuRes, t) = (ret, cuRes', s') \<Longrightarrow>
   policy_result prop updateId s ret cuRes' s'"
  by (cases b) (auto simp: finish_alloc_def policy_result_def policy_taken_def)

section \<open>The operations\<close>

lemma policy_try_spec:
  assumes inv: "sys_inv s" and q0: "quiet s s1" and d: "int d < m_numDevice s" and req: "prop_ok prop"
    and pre: "pre_ok prop s (fst st)" and run: "policy_try aff prop policyInfo d (st, s1) = (b, st', s')"
  shows "policy_state_ok prop s b st' s'"
proof -
  obtain ret s2 where a: "allocClientFromDev (int d) prop s1 = (ret, s2)" by fastforce
  obtain b2 p2 r2 s3 where sc: "policy_scan aff prop policyInfo d (st, s2) = (b2, (p2, r2), s3)" by (metis prod.collapse)
  have q: "quiet s s2" by (rule quiet_trans [OF q0 quiet_alloc_client [OF quiet_inv(1) [OF q0 inv] a]])
  note q1 = quiet_inv(1) [OF q inv] quiet_inv(3) [OF q]
  have "policy_scan aff prop policyInfo d ((fst st, snd st), s2) = (b2, (p2, r2), s3)" using sc by simp
  note spec = policy_scan_spec [OF q1(1) _ req _ this, unfolded pre_ok_quiet [OF q], unfolded q1(2), OF d pre]
  have "policy_state_ok prop s b2 (p2, r2) s3"
  proof (cases b2)
    case True
    then obtain c where "alloc_on prop d c s2 r2 s3" "p2 = None" using spec by auto
    then have "alloc_done prop s r2 s3" using alloc_on_after [OF q] unfolding alloc_done_def by blast
    with True \<open>p2 = None\<close> show ?thesis by (simp add: policy_state_ok_def)
  qed (use spec q in \<open>simp add: policy_state_ok_def\<close>)
  then show ?thesis
    using run a sc pre q quiet_trans [OF _ quiet_release_client]
    by (cases st) (auto simp: policy_try_def policy_state_ok_def split: if_splits)
qed

interpretation policy_body: device_body "policy_try aff prop policyInfo"
    "\<lambda>st s1. prop_ok prop \<and> sys_inv s \<and> policy_state_ok prop s False st s1"
    "\<lambda>st s1. policy_state_ok prop s True st s1" clientId
  for aff :: bool and "prop" :: cuProperty and policyInfo :: u64 and s :: system and clientId :: u64
proof unfold_locales
  fix s1 s2 :: system and d :: nat and a a' :: policy_state
  assume P: "prop_ok prop \<and> sys_inv s \<and> policy_state_ok prop s False a s1" and d: "int d < m_numDevice s1"
  then have i: "sys_inv s" and q: "quiet s s1" and req: "prop_ok prop" and pre: "pre_ok prop s (fst a)"
    by (auto simp: policy_state_ok_def)
  have d0: "int d < m_numDevice s" using d quiet_inv(3) [OF q] by simp
  note spec = policy_try_spec [OF i q d0 req pre]
  show "(prop_ok prop \<and> sys_inv s \<and> policy_state_ok prop s False a' s2) \<and> m_numDevice s2 = m_numDevice s1"
    if "policy_try aff prop policyInfo d (a, s1) = (False, a', s2)"
    using spec [OF that] i req quiet_inv(3) [OF q] quiet_inv(3) [of s s2]
    by (auto simp: policy_state_ok_def)
  show "policy_state_ok prop s True a' s2" if "policy_try aff prop policyInfo d (a, s1) = (True, a', s2)"
    using spec [OF that] .
qed

lemma resAllocCuByCuLoad_spec:
  assumes inv: "sys_inv s" and req: "prop_ok (cuPropertyCopyFromV2 p2)"
    and run: "resAllocCuByCuLoad p2 updateId (cuRes, s) = (ret, cuRes', s')"
  shows "policy_result (cuPropertyCopyFromV2 p2) updateId s ret cuRes' s'"
proof -
  let ?rq = "cuPropertyCopyFromV2 p2" and ?pol = "p2_policyInfo p2"
  obtain b1 a1 s1 where 1: "search_devices (policy_try True ?rq ?pol) ?rq ((None, cuRes), s) = (b1, a1, s1)"
    by (metis prod_cases3)
  obtain b2 a2 s2 where 2: "(if b1 then (True, a1, s1) else search_devices (policy_try False ?rq ?pol) ?rq (a1, s1)) = (b2, a2, s2)"
    by (metis prod_cases3)
  obtain b3 r3 s3 where 3: "take_preCu ?rq (b2, a2, s2) = (b3, r3, s3)" by (metis prod_cases3)
  have st1: "policy_state_ok ?rq s b1 a1 s1"
    using policy_body.search_devices_inv [of ?rq s "(None, cuRes)" s, OF _ refl 1] inv req
    by (cases b1) (simp_all add: policy_state_ok_def)
  have "policy_state_ok ?rq s b2 a2 s2"
  proof (cases b1)
    case True
    with st1 2 show ?thesis by auto
  next
    case False
    then have "search_devices (policy_try False ?rq ?pol) ?rq (a1, s1) = (b2, a2, s2)" using 2 by simp
    note sd = policy_body.search_devices_inv [OF _ refl this]
    have "prop_ok ?rq \<and> sys_inv s \<and> policy_state_ok ?rq s False a1 s1" using st1 False inv req by simp
    from sd [OF this] show ?thesis by (cases b2) simp_all
  qed
  from take_preCu_spec [OF inv req this 3] have "policy_taken ?rq s b3 r3 s3" .
  moreover have "finish_alloc updateId (b3, r3, s3) = (ret, cuRes', s')"
    using run 1 2 3 by (cases b1) (simp_all add: resAllocCuByCuLoad_def Let_def)
  ultimately show ?thesis by (rule finish_alloc_result)
qed

lemma policy_state_scanned:
  assumes "quiet s t" and "if b then (\<exists>c. alloc_on prop d c t cuRes' s') \<and> preCu' = None
      else s' = t \<and> cuRes' = cuRes \<and> pre_ok prop t preCu'"
  shows "policy_state_ok prop s b (preCu', cuRes') s'"
proof (cases b)
  case True
  then obtain c where "alloc_on prop d c t cuRes' s'" "preCu' = None" using assms(2) by auto
  then have "alloc_done prop s cuRes' s'" using alloc_on_after [OF assms(1)] unfolding alloc_done_def by blast
  with True \<open>preCu' = None\<close> show ?thesis by (simp add: policy_state_ok_def)
qed (use assms in \<open>simp add: policy_state_ok_def pre_ok_quiet\<close>)

lemma resAllocCuFromDevByCuLoad_spec:
  assumes inv: "sys_inv s" and req: "prop_ok (cuPropertyCopyFromV2 p2)"
    and run: "resAllocCuFromDevByCuLoad deviceId p2 updateId (cuRes, s) = (ret, cuRes', s')"
  shows "policy_result (cuPropertyCopyFromV2 p2) updateId s ret cuRes' s'"
proof (cases "dev_refuses deviceId (cuPropertyCopyFromV2 p2) s")
  case (Some err)
  then have "err \<noteq> XRM_SUCCESS" by (auto simp: dev_refuses_def Let_def split: if_splits)
  with Some run show ?thesis by (auto simp: resAllocCuFromDevByCuLoad_def Let_def policy_result_def)
next
  case None
  let ?rq = "cuPropertyCopyFromV2 p2" and ?pol = "p2_policyInfo p2" and ?d = "nat deviceId"
  have d: "int ?d < m_numDevice s" using None by (auto simp: dev_refuses_def Let_def split: if_splits)
  obtain r0 s1 where a: "allocClientFromDev deviceId ?rq s = (r0, s1)" by fastforce
  have q: "quiet s s1" by (rule quiet_alloc_client [OF inv a])
  note q1 = quiet_inv(1) [OF q inv] quiet_inv(3) [OF q]
  have d1: "int ?d < m_numDevice s1" using d q1(2) by simp
  obtain b1 p1 r1 t1 where 1: "policy_scan True ?rq ?pol ?d ((None, cuRes), s1) = (b1, (p1, r1), t1)"
    by (metis prod.collapse)
  note spec1 = policy_scan_spec [OF q1(1) d1 req _ 1, simplified]
  obtain b2 p2' r2 t2 where 2: "(if b1 then (True, (p1, r1), t1) else policy_scan False ?rq ?pol ?d ((p1, r1), t1)) =
      (b2, (p2', r2), t2)" by (metis prod.collapse)
  have "if b2 then (\<exists>c. alloc_on ?rq ?d c s1 r2 t2) \<and> p2' = None else t2 = s1 \<and> r2 = cuRes \<and> pre_ok ?rq s1 p2'"
  proof (cases b1)
    case True
    with 2 spec1 show ?thesis by auto
  next
    case False
    then have sc: "policy_scan False ?rq ?pol ?d ((p1, cuRes), s1) = (b2, (p2', r2), t2)"
      and p: "pre_ok ?rq s1 p1" using 2 spec1 by simp_all
    from policy_scan_spec [OF q1(1) d1 req p sc] show ?thesis .
  qed
  from policy_state_scanned [OF q this] have st: "policy_state_ok ?rq s b2 (p2', r2) t2" .
  obtain b3 r3 t3 where 3: "take_preCu ?rq (b2, (p2', r2), t2) = (b3, r3, t3)" by (metis prod_cases3)
  note tk = take_preCu_spec [OF inv req st 3]
  show ?thesis
  proof (cases "r0 < 0")
    case True
    with run None a q show ?thesis by (auto simp: resAllocCuFromDevByCuLoad_def Let_def policy_result_def)
  next
    case False
    have e: "(if b3 then finish_alloc updateId (b3, r3, t3)
        else (XRM_ERROR_NO_KERNEL, r3, snd (releaseClientOnDev deviceId (pr_clientId ?rq) t3))) = (ret, cuRes', s')"
      using run None a False 1 2 3 by (cases b1) (simp_all add: resAllocCuFromDevByCuLoad_def Let_def)
    show ?thesis
    proof (cases b3)
      case True
      with e tk finish_alloc_result [of ?rq s b3 r3 t3] show ?thesis by simp
    next
      case b3: False
      then have "quiet s t3" using tk by (simp add: policy_taken_def)
      from quiet_trans [OF this quiet_release_client] e b3 show ?thesis by (auto simp: policy_result_def)
    qed
  qed
qed

lemma policy_taken_after:
  assumes "quiet s t" "policy_taken prop t b cuRes s'"
  shows "policy_taken prop s b cuRes s'"
proof -
  have "crowded prop t = crowded prop s" by (simp add: crowded_def quiet_inv(4,6) [OF assms(1)])
  then show ?thesis
    using assms(2) alloc_done_after [OF assms(1), of "prop" cuRes s'] quiet_trans [OF assms(1), of s']
    by (cases b) (auto simp: policy_taken_def)
qed

lemma dev_load_try_spec:
  assumes inv: "sys_inv s" and req: "prop_ok prop"
    and run: "dev_load_try prop policyInfo devId (cuRes, s) = (b, cuRes', s')"
  shows "policy_taken prop s b cuRes' s'"
proof -
  obtain r0 s1 where a: "allocClientFromDev devId prop s = (r0, s1)" by fastforce
  have q: "quiet s s1" by (rule quiet_alloc_client [OF inv a])
  show ?thesis
  proof (cases "r0 < 0")
    case True
    with run a q show ?thesis by (auto simp: dev_load_try_def policy_taken_def)
  next
    case False
    then have d: "int (nat devId) < m_numDevice s"
      using a by (auto simp: allocClientFromDev_def split: if_splits)
    note q1 = quiet_inv(1) [OF q inv] quiet_inv(3) [OF q]
    obtain b1 p1 r1 t1 where 1: "until_acquired (policy_cu prop policyInfo (nat devId)) (cu_ids (dev_at s1 (nat devId)))
        ((None, cuRes), s1) = (b1, (p1, r1), t1)" by (metis prod.collapse)
    have "until_acquired (\<lambda>c (st, s). if False then (False, st, s) else policy_cu prop policyInfo (nat devId) c (st, s))
        (cu_ids (dev_at s1 (nat devId))) ((None, cuRes), s1) = (b1, (p1, r1), t1)" using 1 by (simp add: case_prod_eta)
    from policy_state_scanned [OF q policy_loop_spec [OF q1(1) _ req _ subset_refl this]] d q1(2)
    have st: "policy_state_ok prop s b1 (p1, r1) t1" by simp
    obtain b2 r2 t2 where 2: "take_preCu prop (b1, (p1, r1), t1) = (b2, r2, t2)" by (metis prod_cases3)
    from take_preCu_spec [OF inv req st 2] show ?thesis
      using run a False 1 2 quiet_trans [OF _ quiet_release_client]
      by (auto simp: dev_load_try_def policy_taken_def split: if_splits)
  qed
qed

lemma resAllocCuByDevLoad_spec:
  assumes inv: "sys_inv s" and req: "prop_ok (cuPropertyCopyFromV2 p2)"
    and run: "resAllocCuByDevLoad p2 updateId (cuRes, s) = (ret, cuRes', s')"
  shows "policy_result (cuPropertyCopyFromV2 p2) updateId s ret cuRes' s'"
proof -
  let ?rq = "cuPropertyCopyFromV2 p2" and ?pol = "p2_policyInfo p2"
  obtain b r t where u: "until_acquired (dev_load_try ?rq ?pol) (device_order ?pol s) (cuRes, s) = (b, r, t)"
    by (metis prod_cases3)
  let ?P = "\<lambda>(r, t). quiet s t" and ?Q = "\<lambda>_ (r, t). policy_taken ?rq s True r t"
  have step: "policy_taken ?rq s b1 r1 t1"
    if "quiet s t0" "dev_load_try ?rq ?pol i (r0, t0) = (b1, r1, t1)" for i r0 t0 b1 r1 t1
    by (rule policy_taken_after [OF that(1) dev_load_try_spec [OF quiet_inv(1) [OF that(1) inv] req that(2)]])
  have "if b then \<exists>i\<in>set (device_order ?pol s). ?Q i (r, t) else ?P (r, t)"
  proof (rule until_acquired_rule [where P = ?P and Q = ?Q, OF _ _ _ u])
    show "?P x'" if "?P x" "dev_load_try ?rq ?pol i x = (False, x')" for i x x'
      using step [of "snd x" i "fst x" False "fst x'" "snd x'"] that by (auto simp: policy_taken_def)
    show "?Q i x'" if "?P x" "dev_load_try ?rq ?pol i x = (True, x')" for i x x'
      using step [of "snd x" i "fst x" True "fst x'" "snd x'"] that by auto
  qed simp
  then have "policy_taken ?rq s b r t" by (cases b) (auto simp: policy_taken_def)
  moreover have "finish_alloc updateId (b, r, t) = (ret, cuRes', s')"
    using run u by (simp add: resAllocCuByDevLoad_def Let_def)
  ultimately show ?thesis by (rule finish_alloc_result)
qed

lemma policy_refused: "policy_result prop updateId s XRM_ERROR_INVALID cuRes s"
  by (simp add: policy_result_def)

lemma resAllocCuV2_spec:
  assumes "sys_inv s" "prop_ok (cuPropertyCopyFromV2 p2)" "resAllocCuV2 p2 updateId (cuRes, s) = (ret, cuRes', s')"
  shows "policy_result (cuPropertyCopyFromV2 p2) updateId s ret cuRes' s'"
  using assms(3) resAllocCuByDevLoad_spec [OF assms(1,2)] resAllocCuByCuLoad_spec [OF assms(1,2)]
    resAllocCuFromDevByCuLoad_spec [OF assms(1,2)] alloc_policy_result [OF resAllocCu_spec [OF assms(1,2)]]
    policy_refused [of "cuPropertyCopyFromV2 p2" updateId s cuRes]
  by (auto simp: resAllocCuV2_def Let_def split: if_splits)

lemma policy_result_inv:
  assumes "sys_inv s" "policy_result prop updateId s ret cuRes s'"
  shows "sys_inv s'" "load_inv s \<Longrightarrow> load_inv s'"
proof -
  obtain t where t: "alloc_done prop s cuRes t \<or> quiet s t"
      "s' = t \<or> s' = updateAllocServiceId t"
    using assms(2) by (cases "ret = XRM_SUCCESS"; cases updateId) (auto simp: policy_result_def policy_taken_def)
  have "sys_inv t \<and> (load_inv s \<longrightarrow> load_inv t)"
    using t(1) alloc_on_inv(1,2) [OF assms(1)] quiet_inv(1,2) [of s t] assms(1) unfolding alloc_done_def by blast
  then show "sys_inv s'" "load_inv s \<Longrightarrow> load_inv s'" using t(2) by auto
qed

lemma policy_result_alloc:
  "policy_result prop updateId s ret cuRes s' \<Longrightarrow> \<not> crowded prop s \<Longrightarrow> alloc_result prop updateId s ret cuRes s'"
  by (cases "ret = XRM_SUCCESS") (auto simp: alloc_result_def policy_result_def policy_taken_def)

section \<open>The choice of the policy\<close>

text \<open>
  On a given device, without a pool: the compute unit granted is one of the most used, or of the least used,
  among those of the device that match and whose load fits, when all of them have a free channel.
\<close>

definition at_least_as_good :: "u64 \<Rightarrow> cuData \<Rightarrow> cuData \<Rightarrow> bool" where
  "at_least_as_good policyInfo a b \<longleftrightarrow>
     (most_used_first policyInfo \<longrightarrow> cu_totalUsedLoadUnified b \<le> cu_totalUsedLoadUnified a) \<and>
     (least_used_first policyInfo \<longrightarrow> cu_totalUsedLoadUnified a \<le> cu_totalUsedLoadUnified b)"

lemma not_both: "\<not> (most_used_first p \<and> least_used_first p)"
  by (auto simp: most_used_first_def least_used_first_def policy_defs)

lemma at_least_as_good_trans:
  "at_least_as_good p a b \<Longrightarrow> at_least_as_good p b c \<Longrightarrow> at_least_as_good p a c"
  by (auto simp: at_least_as_good_def)

definition candidate :: "cuProperty \<Rightarrow> nat \<Rightarrow> system \<Rightarrow> nat \<Rightarrow> bool" where
  "candidate prop d s c \<longleftrightarrow> valid_cu s d c \<and> cu_matches prop (cu_at s d c) \<and> load_fits prop (cu_at s d c)"

text \<open>What is remembered after the compute units in \<open>V\<close> were looked at: none fits, or the best that does.\<close>

definition pre_best :: "cuProperty \<Rightarrow> u64 \<Rightarrow> nat \<Rightarrow> system \<Rightarrow> nat set \<Rightarrow> (nat \<times> nat) option \<Rightarrow> bool" where
  "pre_best prop policyInfo d s V pre \<longleftrightarrow>
     (case pre of
        None \<Rightarrow> \<forall>c\<in>V. \<not> candidate prop d s c
      | Some (d', c) \<Rightarrow> d' = d \<and> c \<in> V \<and> candidate prop d s c \<and>
          (\<forall>c'\<in>V. candidate prop d s c' \<longrightarrow> at_least_as_good policyInfo (cu_at s d c) (cu_at s d c')))"

lemma allocChanClientFromCu_best:
  assumes inv: "sys_inv s" and v: "valid_cu s d c" and req: "prop_ok prop" and p: "pr_poolId prop = 0"
    and pol: "most_used_first policyInfo \<or> least_used_first policyInfo"
    and roomy: "cu_numChanInuse (cu_at s d c) < int XRM_MAX_KERNEL_CHANNELS"
    and m: "cu_matches prop (cu_at s d c)" and pre: "pre_best prop policyInfo d s V preCu"
    and run: "allocChanClientFromCu d c prop policyInfo preCu (cuRes, s) = (ret, preCu', cuRes', s')"
  shows "if ret = XRM_SUCCESS then \<forall>c'. candidate prop d s c' \<longrightarrow> at_least_as_good policyInfo (cu_at s d c) (cu_at s d c')
    else pre_best prop policyInfo d s (insert c V) preCu'"
proof -
  let ?cu = "cu_at s d c" and ?req = "pr_requestLoadUnified prop"
  have acct: "cu_acct (cu_at s d c')" if "valid_cu s d c'" for c'
    using valid_cu_inv [OF inv that] by (auto simp: cu_inv_def)
  have rq: "?req + XRM_MAX_LOAD \<le> 2147483647" using req by (auto simp: prop_ok_def)
  have fit: "candidate prop d s c' \<longleftrightarrow> valid_cu s d c' \<and> cu_matches prop (cu_at s d c') \<and> 0 < ?req \<and>
      cu_totalUsedLoadUnified (cu_at s d c') + ?req \<le> XRM_MAX_LOAD" for c'
    by (simp add: candidate_def load_fits_def can_take_def p XRM_MAX_KERNEL_CHANNELS_def)
  have w: "i32 (cu_totalUsedLoadUnified ?cu + ?req) = cu_totalUsedLoadUnified ?cu + ?req" if "0 < ?req"
    using totals_bounds [OF acct [OF v]] rq that by simp
  show ?thesis
  proof (cases "candidate prop d s c")
    case False
    then have nf: "\<not> load_fits prop ?cu" using v m by (simp add: candidate_def)
    then have "preCu' = preCu" using allocChanClientFromCu_pre [OF inv v req run] by blast
    moreover have "ret \<noteq> XRM_SUCCESS"
      using allocChanClientFromCu_spec [OF inv v req run] nf by (auto simp: can_take_fits split: if_splits)
    ultimately show ?thesis using pre False by (auto simp: pre_best_def split: option.splits)
  next
    case True
    then have r: "0 < ?req" "cu_totalUsedLoadUnified ?cu + ?req \<le> XRM_MAX_LOAD" by (simp_all add: fit)
    let ?most = "most_used_first policyInfo \<and> cu_totalUsedLoadUnified ?cu + ?req \<noteq> XRM_MAX_LOAD"
    let ?least = "least_used_first policyInfo \<and> cu_totalUsedLoadUnified ?cu \<noteq> 0"
    have ct: "can_take prop ?cu" using True roomy by (simp add: candidate_def can_take_fits)
    show ?thesis
    proof (cases "?most \<or> ?least")
      case False
      then have "at_least_as_good policyInfo ?cu (cu_at s d c')" if "candidate prop d s c'" for c'
        using that totals_bounds [OF acct, of c'] by (auto simp: at_least_as_good_def fit)
      moreover have "ret = XRM_SUCCESS"
      proof -
        obtain r0 c0 t0 where tf: "take_free_channel d c 0 prop (cuRes, s) = (r0, c0, t0)" by (metis prod_cases3)
        have "fits_at 0 prop ?cu" "pr_clientId prop \<noteq> 0" using p r req by (simp_all add: fits_at_def prop_ok_def)
        then have "r0 = XRM_SUCCESS" using take_free_channel_spec [OF inv v _ r(1) _ tf] roomy by simp
        then show ?thesis using run r p w False tf by (auto simp: allocChanClientFromCu_def Let_def split: if_splits)
      qed
      ultimately show ?thesis by simp
    next
      case f: True
      let ?new = "case preCu of None \<Rightarrow> Some (d, c)
         | Some (pd, pc) \<Rightarrow> if (most_used_first policyInfo \<and> cu_totalUsedLoadUnified ?cu > cu_totalUsedLoadUnified (cu_at s pd pc)) \<or>
                               (least_used_first policyInfo \<and> cu_totalUsedLoadUnified ?cu < cu_totalUsedLoadUnified (cu_at s pd pc))
                            then Some (d, c) else preCu"
      have e: "ret \<noteq> XRM_SUCCESS \<and> preCu' = ?new"
        using run r p w f not_both [of policyInfo]
        by (auto simp: allocChanClientFromCu_def Let_def split: prod.splits if_splits option.splits)
      have "pre_best prop policyInfo d s (insert c V) ?new"
      proof (cases preCu)
        case None
        with pre True show ?thesis by (auto simp: pre_best_def at_least_as_good_def)
      next
        case (Some x)
        with pre True pol not_both [of policyInfo] show ?thesis
          by (cases x) (force simp: pre_best_def at_least_as_good_def)
      qed
      with e show ?thesis by simp
    qed
  qed
qed

lemma policy_cu_best:
  assumes inv: "sys_inv s" and v: "valid_cu s d c" and req: "prop_ok prop" and p: "pr_poolId prop = 0"
    and pol: "most_used_first policyInfo \<or> least_used_first policyInfo"
    and roomy: "cu_numChanInuse (cu_at s d c) < int XRM_MAX_KERNEL_CHANNELS"
    and pre: "pre_best prop policyInfo d s V preCu" and ok: "pre_ok prop s preCu"
    and run: "policy_cu prop policyInfo d c ((preCu, cuRes), s) = (b, (preCu', cuRes'), s')"
  shows "if b then alloc_on prop d c s cuRes' s' \<and> preCu' = None \<and>
      (\<forall>c'. candidate prop d s c' \<longrightarrow> at_least_as_good policyInfo (cu_at s d c) (cu_at s d c'))
    else s' = s \<and> cuRes' = cuRes \<and> pre_best prop policyInfo d s (insert c V) preCu' \<and> pre_ok prop s preCu'"
proof (cases "cu_matches prop (cu_at s d c)")
  case False
  with run pre ok show ?thesis
    by (auto simp: policy_cu_def pre_best_def candidate_def split: option.splits)
next
  case True
  obtain ret p1 r t where a: "allocChanClientFromCu d c prop policyInfo preCu (cuRes, s) = (ret, p1, r, t)"
    by (metis prod_cases4)
  note best = allocChanClientFromCu_best [OF inv v req p pol roomy True pre a]
  show ?thesis
    using policy_cu_spec [OF inv v req ok run] run a best True
    by (auto simp: policy_cu_def split: if_splits)
qed

text \<open>One pass of the scan looks at the compute units it does not skip.\<close>

definition looked_at :: "bool \<Rightarrow> nat \<Rightarrow> system \<Rightarrow> nat set" where
  "looked_at aff d s = {c. valid_cu s d c \<and> \<not> affinity_skip aff (cu_at s d c)}"

definition chosen_best :: "cuProperty \<Rightarrow> u64 \<Rightarrow> nat \<Rightarrow> system \<Rightarrow> cuResource \<Rightarrow> system \<Rightarrow> bool" where
  "chosen_best prop policyInfo d s cuRes s' \<longleftrightarrow> (\<exists>c. alloc_on prop d c s cuRes s' \<and>
     (\<forall>c'. candidate prop d s c' \<longrightarrow> at_least_as_good policyInfo (cu_at s d c) (cu_at s d c')))"

lemma policy_scan_best:
  assumes inv: "sys_inv s" and d: "int d < m_numDevice s" and req: "prop_ok prop" and p: "pr_poolId prop = 0"
    and pol: "most_used_first policyInfo \<or> least_used_first policyInfo"
    and roomy: "\<forall>c. valid_cu s d c \<longrightarrow> cu_numChanInuse (cu_at s d c) < int XRM_MAX_KERNEL_CHANNELS"
    and pre: "pre_best prop policyInfo d s V preCu" and ok: "pre_ok prop s preCu"
    and run: "policy_scan aff prop policyInfo d ((preCu, cuRes), s) = (b, (preCu', cuRes'), s')"
  shows "if b then chosen_best prop policyInfo d s cuRes' s' \<and> preCu' = None
    else s' = s \<and> cuRes' = cuRes \<and> pre_best prop policyInfo d s (V \<union> looked_at aff d s) preCu' \<and> pre_ok prop s preCu'"
proof -
  let ?body = "\<lambda>c (st, s). if affinity_skip aff (cu_at s d c) then (False, st, s) else policy_cu prop policyInfo d c (st, s)"
  have gen: "if b then chosen_best prop policyInfo d s cuRes' s' \<and> preCu' = None
      else s' = s \<and> cuRes' = cuRes \<and> pre_ok prop s preCu' \<and>
        pre_best prop policyInfo d s (V \<union> {c \<in> set cs. \<not> affinity_skip aff (cu_at s d c)}) preCu'"
    if cs: "set cs \<subseteq> set (cu_ids (dev_at s d))" and "pre_best prop policyInfo d s V preCu" "pre_ok prop s preCu"
      and "until_acquired ?body cs ((preCu, cuRes), s) = (b, (preCu', cuRes'), s')" for cs V preCu
    using that
  proof (induction cs arbitrary: V preCu)
    case Nil
    then show ?case by simp
  next
    case (Cons c cs)
    have v: "valid_cu s d c" using Cons.prems(1) valid_cu_ids [OF inv d] by auto
    show ?case
    proof (cases "affinity_skip aff (cu_at s d c)")
      case True
      with Cons.prems have "until_acquired ?body cs ((preCu, cuRes), s) = (b, (preCu', cuRes'), s')" by simp
      moreover have "{c' \<in> set (c # cs). \<not> affinity_skip aff (cu_at s d c')} = {c' \<in> set cs. \<not> affinity_skip aff (cu_at s d c')}"
        using True by auto
      ultimately show ?thesis using Cons.IH [of V preCu] Cons.prems(1-3) by simp
    next
      case False
      obtain b1 p1 r1 t1 where b1: "policy_cu prop policyInfo d c ((preCu, cuRes), s) = (b1, (p1, r1), t1)"
        by (metis prod.collapse)
      note step = policy_cu_best [OF inv v req p pol roomy [rule_format, OF v] Cons.prems(2,3) b1]
      show ?thesis
      proof (cases b1)
        case True
        with step b1 False Cons.prems(4) show ?thesis by (auto simp: chosen_best_def)
      next
        case nb: False
        then have "until_acquired ?body cs ((p1, cuRes), s) = (b, (preCu', cuRes'), s')"
          using step b1 False Cons.prems(4) by auto
        moreover have "pre_best prop policyInfo d s (insert c V) p1" "pre_ok prop s p1" using step nb by auto
        moreover have e: "V \<union> {c' \<in> set (c # cs). \<not> affinity_skip aff (cu_at s d c')} =
            insert c V \<union> {c' \<in> set cs. \<not> affinity_skip aff (cu_at s d c')}" using False by auto
        ultimately show ?thesis unfolding e using Cons.IH [of "insert c V" p1] Cons.prems(1) by simp
      qed
    qed
  qed
  have e: "{c \<in> set (cu_ids (dev_at s d)). \<not> affinity_skip aff (cu_at s d c)} = looked_at aff d s"
    using valid_cu_ids [OF inv d] by (auto simp: looked_at_def)
  have "until_acquired ?body (cu_ids (dev_at s d)) ((preCu, cuRes), s) = (b, (preCu', cuRes'), s')"
    using run by (simp add: policy_scan_def)
  from gen [OF subset_refl pre ok this, unfolded e] show ?thesis by auto
qed

lemma looked_at_all: "sys_inv s \<Longrightarrow> looked_at True d s \<union> looked_at False d s = {c. valid_cu s d c}"
  using valid_cu_inv [of s d]
  by (fastforce simp: looked_at_def affinity_skip_def cu_inv_def clients_inv_def clients_arr_def)

lemma chosen_best_after:
  assumes "quiet s t" "chosen_best prop policyInfo d t cuRes s'"
  shows "chosen_best prop policyInfo d s cuRes s'"
  using assms(2) alloc_on_after [OF assms(1)] quiet_inv(4,6) [OF assms(1)]
  unfolding chosen_best_def candidate_def by (simp only:) blast

lemma resAllocCuFromDevByCuLoad_choice:
  assumes inv: "sys_inv s" and req: "prop_ok (cuPropertyCopyFromV2 p2)" and p: "pr_poolId p2 = 0"
    and pol: "most_used_first (p2_policyInfo p2) \<or> least_used_first (p2_policyInfo p2)"
    and roomy: "\<forall>c. valid_cu s (nat deviceId) c \<longrightarrow>
      cu_numChanInuse (cu_at s (nat deviceId) c) < int XRM_MAX_KERNEL_CHANNELS"
    and fine: "dev_refuses deviceId (cuPropertyCopyFromV2 p2) s = None"
    and reg: "\<not> fst (allocClientFromDev deviceId (cuPropertyCopyFromV2 p2) s) < 0"
    and run: "resAllocCuFromDevByCuLoad deviceId p2 updateId (cuRes, s) = (ret, cuRes', s')"
  shows "if ret = XRM_SUCCESS
    then \<exists>t. s' = (if updateId then updateAllocServiceId t else t) \<and>
      chosen_best (cuPropertyCopyFromV2 p2) (p2_policyInfo p2) (nat deviceId) s cuRes' t
    else \<not> (\<exists>c. candidate (cuPropertyCopyFromV2 p2) (nat deviceId) s c)"
proof -
  let ?rq = "cuPropertyCopyFromV2 p2" and ?pol = "p2_policyInfo p2" and ?d = "nat deviceId"
  have d: "int ?d < m_numDevice s" using fine by (auto simp: dev_refuses_def Let_def split: if_splits)
  obtain r0 s1 where a: "allocClientFromDev deviceId ?rq s = (r0, s1)" by fastforce
  have q: "quiet s s1" by (rule quiet_alloc_client [OF inv a])
  note q1 = quiet_inv(1) [OF q inv]
  have d1: "int ?d < m_numDevice s1" using d quiet_inv(3) [OF q] by simp
  have p0: "pr_poolId ?rq = 0" using p by (simp add: cuPropertyCopyFromV2_def)
  have roomy1: "\<forall>c. valid_cu s1 ?d c \<longrightarrow> cu_numChanInuse (cu_at s1 ?d c) < int XRM_MAX_KERNEL_CHANNELS"
    using roomy by (simp add: quiet_inv(4,6) [OF q])
  obtain b1 p1 r1 t1 where 1: "policy_scan True ?rq ?pol ?d ((None, cuRes), s1) = (b1, (p1, r1), t1)"
    by (metis prod.collapse)
  have e0: "pre_best ?rq ?pol ?d s1 {} None" by (simp add: pre_best_def)
  note scan1 = policy_scan_best [OF q1 d1 req p0 pol roomy1 e0 pre_ok_simps(1) 1]
  obtain b2 p2' r2 t2 where 2: "(if b1 then (True, (p1, r1), t1) else policy_scan False ?rq ?pol ?d ((p1, r1), t1)) =
      (b2, (p2', r2), t2)" by (metis prod.collapse)
  have r0: "\<not> r0 < 0" using reg a by simp
  obtain b3 r3 t3 where 3: "take_preCu ?rq (b2, (p2', r2), t2) = (b3, r3, t3)" by (metis prod_cases3)
  have res: "if b3 then ret = XRM_SUCCESS \<and> cuRes' = r3 \<and> s' = (if updateId then updateAllocServiceId t3 else t3)
      else ret \<noteq> XRM_SUCCESS"
    using run fine a r0 1 2 3
    by (cases b1; cases b3; simp add: resAllocCuFromDevByCuLoad_def Let_def finish_alloc_def)+
  have both: "if b2 then chosen_best ?rq ?pol ?d s1 r2 t2 \<and> p2' = None
    else t2 = s1 \<and> r2 = cuRes \<and> pre_best ?rq ?pol ?d s1 {c. valid_cu s1 ?d c} p2' \<and> pre_ok ?rq s1 p2'"
  proof (cases b1)
    case True
    with 2 scan1 show ?thesis by auto
  next
    case False
    then have sc: "policy_scan False ?rq ?pol ?d ((p1, cuRes), s1) = (b2, (p2', r2), t2)"
      and pb: "pre_best ?rq ?pol ?d s1 (looked_at True ?d s1) p1" "pre_ok ?rq s1 p1" using 2 scan1 by auto
    from policy_scan_best [OF q1 d1 req p0 pol roomy1 pb sc] show ?thesis
      unfolding looked_at_all [OF q1] by auto
  qed
  show ?thesis
  proof (cases b3)
    case False
    then have "\<not> b2" "p2' = None" using 3 by (auto simp: take_preCu_def split: option.splits prod.splits)
    then have "\<not> candidate ?rq ?d s1 c" for c using both by (auto simp: pre_best_def candidate_def)
    with False res quiet_inv(4,6) [OF q] show ?thesis by (simp add: candidate_def)
  next
    case b3: True
    have "chosen_best ?rq ?pol ?d s1 r3 t3"
    proof (cases b2)
      case True
      with both 3 show ?thesis by (simp add: take_preCu_def)
    next
      case False
      with 3 b3 obtain c where c: "p2' = Some (?d, c)" "candidate ?rq ?d s1 c"
        "\<forall>c'. candidate ?rq ?d s1 c' \<longrightarrow> at_least_as_good ?pol (cu_at s1 ?d c) (cu_at s1 ?d c')"
        using both by (auto simp: take_preCu_def pre_best_def candidate_def split: option.splits if_splits)
      obtain ret r u where al: "allocChan ?d c ?rq (cuRes, s1) = (ret, r, u)" by (metis prod_cases3)
      have v: "valid_cu s1 ?d c" "can_take ?rq (cu_at s1 ?d c)" "cu_matches ?rq (cu_at s1 ?d c)"
        using c(2) roomy1 by (auto simp: candidate_def can_take_fits)
      have "r3 = locate_cuRes (dev_at u ?d) ?d c r" "t3 = u" using 3 c(1) False both al by (auto simp: take_preCu_def)
      then have "alloc_on ?rq ?d c s1 r3 t3"
        using allocChan_spec [OF q1 v(1) req al] v by (auto simp: alloc_on_def granted_at_def)
      with c(3) show ?thesis unfolding chosen_best_def by blast
    qed
    with chosen_best_after [OF q] res b3 show ?thesis by auto
  qed
qed

lemma resAllocCuFromDevByCuLoad_best:
  assumes "sys_inv s" "prop_ok (cuPropertyCopyFromV2 p2)" "pr_poolId p2 = 0"
    and "most_used_first (p2_policyInfo p2) \<or> least_used_first (p2_policyInfo p2)"
    and "\<forall>c. valid_cu s (nat deviceId) c \<longrightarrow> cu_numChanInuse (cu_at s (nat deviceId) c) < int XRM_MAX_KERNEL_CHANNELS"
    and run: "resAllocCuFromDevByCuLoad deviceId p2 updateId (cuRes, s) = (XRM_SUCCESS, cuRes', s')"
  shows "\<exists>t. s' = (if updateId then updateAllocServiceId t else t) \<and>
    chosen_best (cuPropertyCopyFromV2 p2) (p2_policyInfo p2) (nat deviceId) s cuRes' t"
proof -
  have fine: "dev_refuses deviceId (cuPropertyCopyFromV2 p2) s = None"
    using run by (auto simp: resAllocCuFromDevByCuLoad_def Let_def dev_refuses_def split: if_splits)
  moreover have "\<not> fst (allocClientFromDev deviceId (cuPropertyCopyFromV2 p2) s) < 0"
    using run fine by (auto simp: resAllocCuFromDevByCuLoad_def Let_def split: if_splits prod.splits)
  ultimately show ?thesis using resAllocCuFromDevByCuLoad_choice [OF assms(1-5) _ _ run] by simp
qed

end
