(* ===== verification/Xrm_Policy_Leak.thy ===== *)
theory Xrm_Policy_Leak
  imports Xrm_Policy_Inv
begin

text \<open>
  A compute unit taken through \<open>preCu\<close> by \<open>resAllocCuByCuLoad\<close> is allocated when the client is no longer
  registered on the device. \<open>recycleResource\<close> releases channels only on devices where the client is
  registered, so the channel is not given back when the client disconnects.
\<close>

section \<open>Client tables\<close>

lemma upd_dev_tables:
  assumes "dv_clientProcs (f (dev_at s d)) = dv_clientProcs (dev_at s d)" "dv_isExcl (f (dev_at s d)) = dv_isExcl (dev_at s d)"
  shows "same_tables s (upd_dev d f s)"
proof (cases "d < length (m_devList s)")
  case True
  with assms show ?thesis by (auto simp: same_tables_def upd_dev_def dev_at_def nth_list_update)
next
  case False
  then have "(m_devList s)[d := f (dev_at s d)] = m_devList s" by (intro list_update_beyond) simp
  then show ?thesis by (simp add: same_tables_def upd_dev_def dev_at_def)
qed

lemma updateDeviceLoad_tables [simp]: "same_tables s (updateDeviceLoad devId v w s)"
  by (auto simp: updateDeviceLoad_def Let_def intro!: upd_dev_tables) (simp_all add: same_tables_def dev_at_def fault_def)

lemma fault_tables [simp]: "same_tables s (fault s)"
  by (simp add: same_tables_def dev_at_def fault_def)

lemma assign_channel_tables:
  assumes "assign_channel d c k i prop (cuRes, s) = (ret, cuRes', s')"
  shows "same_tables s s'"
proof -
  let ?s1 = "if pr_poolId prop \<noteq> 0
     then upd_cu d c (\<lambda>cu. take_channel prop (getNextAllocServiceId s) i (use_reserve k (pr_requestLoadUnified prop) cu)) s
     else updateDeviceLoad (cu_deviceId (cu_at s d c)) (pr_requestLoadUnified prop) (- 1)
       (upd_cu d c (\<lambda>cu. take_channel prop (getNextAllocServiceId s) i (use_default (pr_requestLoadUnified prop) cu)) s)"
  have 1: "same_tables s ?s1" using same_tables_trans [OF same_tables_upd_cu updateDeviceLoad_tables] by simp
  have "same_tables ?s1 s'"
    using assms by (auto simp: assign_channel_def Let_def split: option.splits)
  with 1 show ?thesis by (rule same_tables_trans)
qed

lemma allocChan_tables:
  assumes "allocChan d c prop (cuRes, s) = (ret, cuRes', s')"
  shows "same_tables s s'"
  using assms assign_channel_tables
  by (auto simp: allocChan_def allocChanClientFromCu_def take_free_channel_def Let_def
      split: prod.splits if_splits option.splits)

text \<open>The client is on no device, and no device is held exclusively.\<close>

definition absent_on :: "u64 \<Rightarrow> deviceData \<Rightarrow> bool" where
  "absent_on clientId dev \<longleftrightarrow> \<not> dv_isExcl dev \<and> (\<forall>i<XRM_MAX_DEV_CLIENTS. cl_clientId (dv_clientProcs dev ! i) \<noteq> clientId)"

definition absent :: "u64 \<Rightarrow> system \<Rightarrow> bool" where
  "absent clientId s \<longleftrightarrow> (\<forall>d<nat (m_numDevice s). absent_on clientId (dev_at s d))"

lemma absent_same: "absent c s \<Longrightarrow> same_tables s s' \<Longrightarrow> m_numDevice s' = m_numDevice s \<Longrightarrow> absent c s'"
  by (simp add: absent_def absent_on_def same_tables_def)

text \<open>Registering an absent client and releasing it again leaves it absent.\<close>

lemma register_unregister:
  assumes a: "absent_on (pr_clientId prop) dev" and l: "dv_isLoaded dev" and e: "\<not> pr_devExcl prop"
    and c: "pr_clientId prop \<noteq> 0" and len: "length (dv_clientProcs dev) = XRM_MAX_DEV_CLIENTS"
    and 1: "dev_alloc_client prop dev = (ret, dev1)"
  shows "if ret < 0 then dev1 = dev else absent_on (pr_clientId prop) (snd (dev_release_client (pr_clientId prop) dev1))"
proof -
  let ?procs = "dv_clientProcs dev" and ?c = "pr_clientId prop"
  have nf: "first_index XRM_MAX_DEV_CLIENTS (\<lambda>i. cl_clientId (?procs ! i) = ?c) = None"
    using a by (auto simp: absent_on_def)
  let ?new = "\<lparr> cl_clientId = ?c, cl_clientProcessId = pr_clientProcessId prop, cl_ref = 1 \<rparr>"
  have x: "\<not> dv_isExcl dev" using a by (simp add: absent_on_def)
  have alloc: "(ret, dev1) = (case first_index XRM_MAX_DEV_CLIENTS (\<lambda>i. cl_clientId (?procs ! i) = 0) of
      Some i \<Rightarrow> (XRM_SUCCESS, dev\<lparr>dv_clientProcs := ?procs[i := ?new]\<rparr>) | None \<Rightarrow> (XRM_ERROR_NO_DEV, dev))"
    unfolding 1 [symmetric] dev_alloc_client_def Let_def nf by (simp only: x e if_False option.case)
  show ?thesis
  proof (cases "first_index XRM_MAX_DEV_CLIENTS (\<lambda>i. cl_clientId (?procs ! i) = 0)")
    case None
    then show ?thesis using alloc unfolding None by simp
  next
    case (Some i)
    have i: "i < XRM_MAX_DEV_CLIENTS" "cl_clientId (?procs ! i) = 0" using first_index_SomeD [OF Some] by simp_all
    have ret: "ret = XRM_SUCCESS" "dev1 = dev\<lparr>dv_clientProcs := ?procs[i := ?new]\<rparr>"
      using alloc unfolding Some by simp_all
    have at: "?procs[i := ?new] ! j = (if j = i then ?new else ?procs ! j)" if "j < XRM_MAX_DEV_CLIENTS" for j
      using that i(1) len by (simp add: nth_list_update)
    have "first_index XRM_MAX_DEV_CLIENTS (\<lambda>j. cl_clientId (?procs[i := ?new] ! j) = ?c) = Some i"
      by (rule first_indexI) (use i at a in \<open>auto simp: absent_on_def\<close>)
    then have "snd (dev_release_client ?c dev1) = dev\<lparr>dv_clientProcs := ?procs[i := unref_client ?new]\<rparr>"
      using ret l a at [OF i(1)] by (simp add: dev_release_client_def Let_def absent_on_def)
    moreover have "cl_clientId (?procs[i := unref_client ?new] ! j) \<noteq> ?c" if "j < XRM_MAX_DEV_CLIENTS" for j
      using that i(1) len a c by (simp add: nth_list_update unref_client_def Let_def absent_on_def)
    ultimately show ?thesis using ret a by (simp add: absent_on_def)
  qed
qed

section \<open>The search that only remembers\<close>

text \<open>No matching compute unit is the best possible one, so the policy never takes one on the way.\<close>

definition never_best :: "u64 \<Rightarrow> cuProperty \<Rightarrow> system \<Rightarrow> bool" where
  "never_best policyInfo prop s \<longleftrightarrow> (\<forall>d c. valid_cu s d c \<longrightarrow> cu_matches prop (cu_at s d c) \<longrightarrow>
     most_used_first policyInfo \<and> cu_totalUsedLoadUnified (cu_at s d c) + pr_requestLoadUnified prop \<noteq> XRM_MAX_LOAD \<or>
     least_used_first policyInfo \<and> cu_totalUsedLoadUnified (cu_at s d c) \<noteq> 0)"

lemma never_best_quiet: "quiet s s' \<Longrightarrow> never_best policyInfo prop s' = never_best policyInfo prop s"
  by (simp add: never_best_def quiet_inv(4,6))

lemma never_best_scan:
  assumes inv: "sys_inv s" and d: "int d < m_numDevice s" and req: "prop_ok prop" "pr_poolId prop = 0"
    and pre: "pre_ok prop s preCu" and nb: "never_best policyInfo prop s"
    and run: "policy_scan aff prop policyInfo d ((preCu, cuRes), s) = (b, (preCu', cuRes'), s')"
  shows "\<not> b"
proof -
  let ?P = "\<lambda>((p, r), t). t = s \<and> pre_ok prop s p"
  have "\<not> b1 \<and> ?P x'"
    if c: "c \<in> set (cu_ids (dev_at s d))" and P: "?P x"
      and rn: "(\<lambda>(st, s). if affinity_skip aff (cu_at s d c) then (False, st, s) else policy_cu prop policyInfo d c (st, s)) x = (b1, x')"
    for c x b1 x'
  proof (cases "affinity_skip aff (cu_at s d c)")
    case True
    with P rn show ?thesis by auto
  next
    case False
    obtain p r t where x': "x' = ((p, r), t)" by (metis prod.collapse)
    obtain p0 r0 where x: "x = ((p0, r0), s)" "pre_ok prop s p0" using P by auto
    have v: "valid_cu s d c" using c valid_cu_ids [OF inv d] by auto
    have rn1: "policy_cu prop policyInfo d c ((p0, r0), s) = (b1, (p, r), t)" using rn False by (simp add: x(1) x')
    have "\<not> b1"
    proof (cases "cu_matches prop (cu_at s d c)")
      case False
      with rn1 show ?thesis by (simp add: policy_cu_def)
    next
      case True
      obtain ret p1 r1 t1 where a: "allocChanClientFromCu d c prop policyInfo p0 (r0, s) = (ret, p1, r1, t1)"
        by (metis prod_cases4)
      have "cu_acct (cu_at s d c)" using valid_cu_inv [OF inv v] by (auto simp: cu_inv_def)
      then have "i32 (cu_totalUsedLoadUnified (cu_at s d c) + pr_requestLoadUnified prop) =
          cu_totalUsedLoadUnified (cu_at s d c) + pr_requestLoadUnified prop" if "0 < pr_requestLoadUnified prop"
        using totals_bounds [of "cu_at s d c"] that req(1) by (simp add: prop_ok_def)
      then have "ret \<noteq> XRM_SUCCESS"
        using a req(2) nb v True by (auto simp: allocChanClientFromCu_def Let_def never_best_def split: if_splits)
      with rn1 a True show ?thesis by (simp add: policy_cu_def)
    qed
    with policy_cu_spec [OF inv v req(1) x(2) rn1] show ?thesis by (simp add: x')
  qed
  then have step: "\<And>c x b1 x'. c \<in> set (cu_ids (dev_at s d)) \<Longrightarrow> ?P x \<Longrightarrow>
      (\<lambda>(st, s). if affinity_skip aff (cu_at s d c) then (False, st, s) else policy_cu prop policyInfo d c (st, s)) x = (b1, x') \<Longrightarrow>
      \<not> b1 \<and> ?P x'" by blast
  have "if b then \<exists>c\<in>set (cu_ids (dev_at s d)). False else ?P ((preCu', cuRes'), s')"
  proof (rule until_acquired_rule [where P = ?P and Q = "\<lambda>_ _. False"])
    show "until_acquired (\<lambda>c (st, s). if affinity_skip aff (cu_at s d c) then (False, st, s) else policy_cu prop policyInfo d c (st, s))
        (cu_ids (dev_at s d)) ((preCu, cuRes), s) = (b, (preCu', cuRes'), s')" using run by (simp add: policy_scan_def)
  qed (use step pre in \<open>blast | simp\<close>)+
  then show ?thesis by (auto split: if_splits)
qed

definition searching :: "cuProperty \<Rightarrow> u64 \<Rightarrow> system \<Rightarrow> policy_state \<Rightarrow> system \<Rightarrow> bool" where
  "searching prop policyInfo s st s1 \<longleftrightarrow> sys_inv s \<and> prop_ok prop \<and> pr_poolId prop = 0 \<and> \<not> pr_devExcl prop \<and>
     never_best policyInfo prop s \<and> policy_state_ok prop s False st s1 \<and> absent (pr_clientId prop) s1"

lemma policy_try_absent:
  assumes st: "searching prop policyInfo s st s1" and d: "int d < m_numDevice s1" and l: "dv_isLoaded (dev_at s1 d)"
    and run: "policy_try aff prop policyInfo d (st, s1) = (b, st', s')"
  shows "\<not> b" "searching prop policyInfo s st' s'" "m_numDevice s' = m_numDevice s1"
proof -
  let ?c = "pr_clientId prop"
  have inv: "sys_inv s" and req: "prop_ok prop" "pr_poolId prop = 0" "\<not> pr_devExcl prop" and c0: "?c \<noteq> 0"
    and nb: "never_best policyInfo prop s" and q0: "quiet s s1" and pre: "pre_ok prop s (fst st)" and ab: "absent ?c s1"
    using st by (auto simp: searching_def policy_state_ok_def prop_ok_def)
  obtain ret s2 where a: "allocClientFromDev (int d) prop s1 = (ret, s2)" by fastforce
  obtain ret0 dev1 where da: "dev_alloc_client prop (dev_at s1 d) = (ret0, dev1)" by fastforce
  have s2: "ret = ret0" "s2 = upd_dev d (\<lambda>_. dev1) s1" using a da d by (auto simp: allocClientFromDev_def)
  have q: "quiet s s2" by (rule quiet_trans [OF q0 quiet_alloc_client [OF quiet_inv(1) [OF q0 inv] a]])
  note q1 = quiet_inv(1) [OF q inv] quiet_inv(3) [OF q]
  have d2: "int d < m_numDevice s2" using d quiet_inv(3) [OF q0] q1(2) by simp
  obtain b2 p2 r2 s3 where sc: "policy_scan aff prop policyInfo d (st, s2) = (b2, (p2, r2), s3)" by (metis prod.collapse)
  have sc': "policy_scan aff prop policyInfo d ((fst st, snd st), s2) = (b2, (p2, r2), s3)" using sc by simp
  have pre2: "pre_ok prop s2 (fst st)" using pre by (simp add: pre_ok_quiet [OF q])
  have nb2: "\<not> b2" by (rule never_best_scan [OF q1(1) d2 req(1,2) pre2 _ sc']) (simp add: never_best_quiet [OF q] nb)
  then have same: "s3 = s2" using policy_scan_spec [OF q1(1) d2 req(1) pre2 sc'] by simp
  have res: "(b, st', s') = (if ret < 0 then (False, st, s2)
      else (False, (p2, r2), snd (releaseClientOnDev (int d) ?c s2)))"
    using run a sc nb2 same by (auto simp: policy_try_def split: if_splits)
  then show "\<not> b" by (simp split: if_splits)
  have i1: "sys_inv s1" by (rule quiet_inv(1) [OF q0 inv])
  have len: "length (dv_clientProcs (dev_at s1 d)) = XRM_MAX_DEV_CLIENTS" and dl: "d < length (m_devList s1)"
    using sys_inv_dev [OF i1, of d] d by (auto simp: dev_inv_def)
  have abd: "absent_on ?c (dev_at s1 d)" using ab d by (simp add: absent_def)
  note reg = register_unregister [OF abd l req(3) c0 len da]
  have n: "m_numDevice s' = m_numDevice s1" and st2: "policy_state_ok prop s False st' s'"
    using res policy_try_spec [OF inv q0 _ req(1) pre run] d quiet_inv(3) [OF q0] quiet_inv(3) [of s s'] \<open>\<not> b\<close>
    by (auto simp: policy_state_ok_def split: if_splits)
  have at: "dev_at s' x = dev_at s1 x" if "x \<noteq> d" for x
    using res that by (auto simp: releaseClientOnDev_def s2(2) dev_at_upd_dev split: if_splits prod.splits)
  have "absent_on ?c (dev_at s' d)"
    using res reg abd d d2 dl by (auto simp: releaseClientOnDev_def s2 dev_at_upd_dev split: if_splits prod.splits)
  with at ab n have "absent ?c s'" unfolding absent_def by metis
  then show "searching prop policyInfo s st' s'" using st st2 by (simp add: searching_def)
  show "m_numDevice s' = m_numDevice s1" by (rule n)
qed

interpretation remembering: device_body "policy_try aff prop policyInfo" "searching prop policyInfo s" "\<lambda>_ _. False" "pr_clientId prop"
  for aff :: bool and "prop" :: cuProperty and policyInfo :: u64 and s :: system
proof unfold_locales
  fix s1 s2 :: system and d :: nat and a a' :: policy_state
  assume P: "searching prop policyInfo s a s1" and d: "int d < m_numDevice s1" and "dev_usable s1 (pr_clientId prop) d"
  then have l: "dv_isLoaded (dev_at s1 d)" by (auto simp: dev_usable_def Let_def)
  show "searching prop policyInfo s a' s2 \<and> m_numDevice s2 = m_numDevice s1"
    if "policy_try aff prop policyInfo d (a, s1) = (False, a', s2)"
    using policy_try_absent(2,3) [OF P d l that] by simp
  show False if "policy_try aff prop policyInfo d (a, s1) = (True, a', s2)"
    using policy_try_absent(1) [OF P d l that] by simp
qed

section \<open>The leak\<close>

lemma recycle_clients_absent:
  assumes a: "absent_on clientId (dev_at s d)"
  shows "recycle_clients clientId d s = Some s"
proof -
  have "fold (\<lambda>i s. let p = dv_clientProcs (dev_at s d) ! i
      in if cl_ref p \<noteq> 0 \<and> cl_clientId p = clientId
         then upd_dev d (\<lambda>dev. dev\<lparr>dv_clientProcs := (dv_clientProcs dev)[i := client0]\<rparr>)
                (releaseAllCuChanClientOnDev d clientId s) else s) is s = s"
    if "\<forall>i\<in>set is. i < XRM_MAX_DEV_CLIENTS" for "is"
    using that a by (induction "is") (simp_all add: absent_on_def Let_def)
  then show ?thesis using a by (simp add: recycle_clients_def absent_on_def Let_def)
qed

lemma recycle_devices_absent:
  assumes "sys_inv s" "absent clientId s" "\<forall>d\<in>set ds. int d < m_numDevice s"
  shows "grants (recycle_devices clientId ds (t, s)) = grants s"
  using assms
proof (induction ds arbitrary: t s)
  case (Cons d ds)
  show ?case
  proof (cases "dv_isLoaded (dev_at s d)")
    case False
    with Cons show ?thesis by simp
  next
    case True
    have d: "int d < m_numDevice s" using Cons.prems(3) by simp
    obtain t1 s1 where 1: "fold (recycle_cu clientId d) [0..<nat (numCu (dev_at s d))] (t, s) = (t1, s1)" by fastforce
    let ?s2 = "updateDeviceLoad (int d) t1 0 s1"
    note st = recycle_device_step [OF Cons.prems(1) d True 1]
    have "absent clientId ?s2"
      using Cons.prems(2) st(1) by (simp add: absent_def absent_on_def recycles_def)
    moreover have "int d < m_numDevice ?s2" "sys_inv ?s2" using st(1) d by (auto simp: recycles_def)
    ultimately have "recycle_clients clientId d ?s2 = Some ?s2"
      by (intro recycle_clients_absent) (simp add: absent_def)
    with 1 True have e: "recycle_devices clientId (d # ds) (t, s) = recycle_devices clientId ds (t1, ?s2)" by simp
    have "\<forall>d\<in>set ds. int d < m_numDevice ?s2" using Cons.prems(3) st(1) by (simp add: recycles_def)
    from Cons.IH [OF \<open>sys_inv ?s2\<close> \<open>absent clientId ?s2\<close> this] st(2) show ?thesis unfolding e by simp
  qed
qed simp

lemma recycleResource_absent:
  assumes "sys_inv s" "absent clientId s"
  shows "grants (recycleResource clientId s) = grants s"
proof -
  have "grants (snd (decNumConcurrentClient t)) = grants t" for t :: system
    by (auto simp: decNumConcurrentClient_def grants_def valid_cu_def chan_at_def cu_at_def dev_at_def fun_eq_iff)
  moreover have "\<forall>d\<in>set [0..<nat (m_numDevice s)]. int d < m_numDevice s" by auto
  ultimately show ?thesis using recycle_devices_absent [OF assms] by (simp add: recycleResource_def)
qed

lemma take_preCu_tables: "take_preCu prop (b, st, s) = (b', cuRes, s') \<Longrightarrow> same_tables s s'"
  by (cases st) (auto simp: take_preCu_def split: option.splits prod.splits dest: allocChan_tables)

lemma resAllocCuByCuLoad_leak:
  assumes inv: "sys_inv s" and ab: "absent (pr_clientId p2) s" and req: "prop_ok (cuPropertyCopyFromV2 p2)"
    and p: "pr_poolId p2 = 0" "\<not> pr_devExcl p2"
    and nb: "never_best (p2_policyInfo p2) (cuPropertyCopyFromV2 p2) s"
    and run: "resAllocCuByCuLoad p2 updateId (cuRes, s) = (ret, cuRes', s')"
  shows "grants (recycleResource (pr_clientId p2) s') = grants s'"
proof -
  let ?rq = "cuPropertyCopyFromV2 p2" and ?pol = "p2_policyInfo p2"
  have e: "pr_clientId ?rq = pr_clientId p2" by (simp add: cuPropertyCopyFromV2_def)
  obtain b1 a1 s1 where 1: "search_devices (policy_try True ?rq ?pol) ?rq ((None, cuRes), s) = (b1, a1, s1)"
    by (metis prod_cases3)
  have "searching ?rq ?pol s (None, cuRes) s"
    using assms by (simp add: searching_def policy_state_ok_def e) (simp add: cuPropertyCopyFromV2_def)
  from remembering.search_devices_inv [OF this refl 1] have b1: "\<not> b1" "searching ?rq ?pol s a1 s1"
    by (simp_all split: if_splits)
  obtain b2 a2 s2 where 2: "search_devices (policy_try False ?rq ?pol) ?rq (a1, s1) = (b2, a2, s2)"
    by (metis prod_cases3)
  from remembering.search_devices_inv [OF b1(2) refl 2] have b2: "\<not> b2" "searching ?rq ?pol s a2 s2"
    by (simp_all split: if_splits)
  obtain b3 r3 s3 where 3: "take_preCu ?rq (b2, a2, s2) = (b3, r3, s3)" by (metis prod_cases3)
  have s': "s' = s3 \<or> s' = updateAllocServiceId s3"
    using run 1 b1(1) 2 3 by (auto simp: resAllocCuByCuLoad_def Let_def finish_alloc_def split: if_splits)
  have sd: "m_numDevice s3 = m_numDevice s2" and q: "sys_inv s3"
  proof -
    have "policy_state_ok ?rq s b2 a2 s2" using b2 by (simp add: searching_def)
    from take_preCu_spec [OF inv req this 3] have "policy_taken ?rq s b3 r3 s3" .
    then have "sys_inv s3 \<and> m_numDevice s3 = m_numDevice s"
      using alloc_on_inv(1,3) [OF inv] quiet_inv(1,3) [of s s3] inv
      unfolding policy_taken_def alloc_done_def by (auto split: if_splits)
    moreover have "m_numDevice s2 = m_numDevice s"
      using b2 quiet_inv(3) [of s s2] by (auto simp: searching_def policy_state_ok_def)
    ultimately show "m_numDevice s3 = m_numDevice s2" "sys_inv s3" by simp_all
  qed
  have "absent (pr_clientId p2) s3"
    using absent_same [OF _ take_preCu_tables [OF 3] sd] b2(2) by (auto simp: searching_def e)
  then have "sys_inv s' \<and> absent (pr_clientId p2) s'" using s' q by (auto simp: absent_def)
  then show ?thesis using recycleResource_absent by blast
qed

end
