(* ===== verification/Xrm_Load_Alloc.thy ===== *)
theory Xrm_Load_Alloc
  imports Xrm_Load Xrm_Policy_Inv
begin

text \<open>
  Allocation that may load an xclbin: \<open>resAllocCuWithLoad\<close>, which loads the given xclbin to a device when no
  compute unit is free, \<open>resAllocCuLeastUsedWithLoad\<close>, which prefers unused compute units of the devices
  loaded with it and shares the least used one as a last resort, and \<open>resLoadAndAllocAllCu\<close>, which loads an
  xclbin and takes the compute units of the device. The results of the driver are the parameter
  \<open>xrt\<close> of the load.
\<close>

section \<open>Load on demand\<close>

text \<open>
  After the load the client is registered on the device and its compute units are scanned by \<open>scan\<close>: the
  result code and whether a compute unit was taken.
\<close>

definition alloc_loaded :: "(nat \<Rightarrow> cuResource \<times> system \<Rightarrow> bool \<times> cuResource \<times> system) \<Rightarrow> cuProperty \<Rightarrow>
    bool \<Rightarrow> int \<Rightarrow> cuResource \<times> system \<Rightarrow> int \<times> cuResource \<times> system" where
  "alloc_loaded scan prop updateId devId = (\<lambda>(cuRes, s).
     case allocClientFromDev devId prop s of
       (ret, s1) \<Rightarrow>
         if ret < 0 then (ret, cuRes, s1)
         else case scan (nat devId) (cuRes, s1) of
                (acquired, cuRes', s2) \<Rightarrow>
                  if acquired then (XRM_SUCCESS, cuRes', if updateId then updateAllocServiceId s2 else s2)
                  else (XRM_ERROR_NO_KERNEL, cuRes', snd (releaseClientOnDev devId (pr_clientId prop) s2)))"

text \<open>\<open>cuAffinityPass\<close> is false by then, so that the scan of the loaded device takes unused compute units only.\<close>

definition resAllocCuWithLoad :: "xrt \<Rightarrow> cuProperty \<Rightarrow> string \<Rightarrow> bool \<Rightarrow> cuResource \<times> system \<Rightarrow>
    int \<times> cuResource \<times> system" where
  "resAllocCuWithLoad x prop xclbin updateId st =
     (if no_name prop then (XRM_ERROR_INVALID, st)
      else case search_devices (resAllocCu_try True prop) prop st of
             (acquired1, st1) \<Rightarrow>
               (case (if acquired1 then (True, st1)
                      else search_devices (resAllocCu_try False prop) prop st1) of
                  (acquired, cuRes, s) \<Rightarrow>
                    if acquired
                    then (XRM_SUCCESS, cuRes, if updateId then updateAllocServiceId s else s)
                    else (case loadAnyDevice x xclbin (- 1) s of
                            (ret, devId, s1) \<Rightarrow>
                              if ret \<noteq> XRM_SUCCESS then (ret, cuRes, s1)
                              else alloc_loaded (scan_cus False prop) prop updateId devId (cuRes, s1))))"

section \<open>The least used compute unit, with load\<close>

text \<open>Devices loaded with another xclbin are passed over.\<close>

definition unused_try :: "cuProperty \<Rightarrow> string \<Rightarrow> nat \<Rightarrow> cuResource \<times> system \<Rightarrow> bool \<times> cuResource \<times> system" where
  "unused_try prop xclbin d = (\<lambda>(cuRes, s).
     if dv_xclbinName (dev_at s d) \<noteq> xclbin then (False, cuRes, s)
     else resAllocCu_try False prop d (cuRes, s))"

definition scan_all :: "cuProperty \<Rightarrow> nat \<Rightarrow> cuResource \<times> system \<Rightarrow> bool \<times> cuResource \<times> system" where
  "scan_all prop d = (\<lambda>(cuRes, s). until_acquired (try_cu prop d) (cu_ids (dev_at s d)) (cuRes, s))"

text \<open>
  The collection of the candidates: the triples of used load, device and compute unit, of the devices where
  the client can be registered (it is released at once).
\<close>

definition device_candidates :: "cuProperty \<Rightarrow> nat \<Rightarrow> system \<Rightarrow> (int \<times> nat \<times> nat) list" where
  "device_candidates prop d s =
     map (\<lambda>c. (cu_totalUsedLoadUnified (cu_at s d c), d, c))
       (filter (\<lambda>c. cu_matches prop (cu_at s d c) \<and>
            i32 (pr_requestLoadUnified prop + cu_totalUsedLoadUnified (cu_at s d c)) \<le> XRM_MAX_LOAD)
          (cu_ids (dev_at s d)))"

definition collect_try :: "cuProperty \<Rightarrow> string \<Rightarrow> nat \<Rightarrow> (int \<times> nat \<times> nat) list \<times> system \<Rightarrow>
    bool \<times> (int \<times> nat \<times> nat) list \<times> system" where
  "collect_try prop xclbin d = (\<lambda>(leastUsedCus, s).
     if dv_xclbinName (dev_at s d) \<noteq> xclbin then (False, leastUsedCus, s)
     else case allocClientFromDev (int d) prop s of
            (ret, s1) \<Rightarrow>
              if ret < 0 then (False, leastUsedCus, s1)
              else (False, leastUsedCus @ device_candidates prop d s1,
                    snd (releaseClientOnDev (int d) (pr_clientId prop) s1)))"

text \<open>The candidates in their order: the result code of the last attempt is the result of the call.\<close>

fun try_candidates :: "cuProperty \<Rightarrow> bool \<Rightarrow> (int \<times> nat \<times> nat) list \<Rightarrow> int \<times> cuResource \<times> system \<Rightarrow>
    int \<times> cuResource \<times> system" where
  "try_candidates prop updateId [] st = st"
| "try_candidates prop updateId ((_, d, c) # rest) (_, cuRes, s) =
     (case allocClientFromDev (int d) prop s of
        (ret, s1) \<Rightarrow>
          if ret < 0 then try_candidates prop updateId rest (ret, cuRes, s1)
          else case allocChan d c prop (cuRes, s1) of
                 (ret, cuRes', s2) \<Rightarrow>
                   if ret \<noteq> XRM_SUCCESS
                   then try_candidates prop updateId rest
                          (ret, cuRes', snd (releaseClientOnDev (int d) (pr_clientId prop) s2))
                   else (XRM_SUCCESS, locate_cuRes (dev_at s2 d) d c cuRes',
                         if updateId then updateAllocServiceId s2 else s2))"

definition share_least_used :: "cuProperty \<Rightarrow> string \<Rightarrow> bool \<Rightarrow> cuResource \<times> system \<Rightarrow> int \<times> cuResource \<times> system" where
  "share_least_used prop xclbin updateId = (\<lambda>(cuRes, s).
     case search_devices (collect_try prop xclbin) prop ([], s) of
       (_, leastUsedCus, s1) \<Rightarrow>
         try_candidates prop updateId (sort leastUsedCus) (XRM_ERROR_NO_KERNEL, cuRes, s1))"

definition resAllocCuLeastUsedWithLoad :: "xrt \<Rightarrow> cuProperty \<Rightarrow> string \<Rightarrow> bool \<Rightarrow> cuResource \<times> system \<Rightarrow>
    int \<times> cuResource \<times> system" where
  "resAllocCuLeastUsedWithLoad x prop xclbin updateId st =
     (if no_name prop then (XRM_ERROR_INVALID, st)
      else case search_devices (unused_try prop xclbin) prop st of
             (acquired, cuRes, s) \<Rightarrow>
               if acquired then (XRM_SUCCESS, cuRes, if updateId then updateAllocServiceId s else s)
               else (case loadAnyDevice x xclbin (- 1) s of
                       (ret, devId, s1) \<Rightarrow>
                         if ret \<noteq> XRM_SUCCESS then share_least_used prop xclbin updateId (cuRes, s1)
                         else (case alloc_loaded (scan_all prop) prop updateId devId (cuRes, s1) of
                                 (ret, cuRes', s2) \<Rightarrow>
                                   if ret = XRM_SUCCESS then (ret, cuRes', s2)
                                   else share_least_used prop xclbin updateId (cuRes', s2))))"

section \<open>Load an xclbin and take everything\<close>

text \<open>
  The first compute units of the device, as many as a list holds, are written directly: the first client
  slot of the device and of the compute units, and channel 0 (its pool id is not written).
\<close>

definition own_device :: "u64 \<Rightarrow> int \<Rightarrow> deviceData \<Rightarrow> deviceData" where
  "own_device clientId clientProcessId dev = dev\<lparr>dv_clientProcs := (dv_clientProcs dev)
     [0 := \<lparr> cl_clientId = clientId, cl_clientProcessId = clientProcessId, cl_ref = 1 \<rparr>]\<rparr>"

definition own_cu :: "u64 \<Rightarrow> int \<Rightarrow> u64 \<Rightarrow> cuData \<Rightarrow> cuData" where
  "own_cu clientId clientProcessId svc cu = cu\<lparr>
     cu_totalUsedLoadUnified := XRM_MAX_LOAD,
     cu_numChanInuse := 1,
     cu_clients := (cu_clients cu)[0 := clientId],
     cu_numClient := 1,
     cu_channels := (cu_channels cu)[0 := (cu_channels cu ! 0)\<lparr>
       ch_loadUnified := XRM_MAX_LOAD, ch_loadOriginal := 100, ch_allocServiceId := svc,
       ch_clientId := clientId, ch_clientProcessId := clientProcessId\<rparr>]\<rparr>"

definition own_cuRes :: "deviceData \<Rightarrow> int \<Rightarrow> nat \<Rightarrow> u64 \<Rightarrow> u64 \<Rightarrow> cuData \<Rightarrow> cuResource \<Rightarrow> cuResource" where
  "own_cuRes dev devId i clientId svc cu cuRes = cuRes\<lparr>
     re_xclbinFileName := strncpy (XRM_MAX_NAME_LEN - 1) (dv_xclbinName dev),
     re_kernelName := strncpy (XRM_MAX_NAME_LEN - 1) (cu_kernelName cu),
     re_instanceName := strncpy (XRM_MAX_NAME_LEN - 1) (cu_instanceName cu),
     re_kernelAlias := strncpy (XRM_MAX_NAME_LEN - 1) (cu_kernelAlias cu),
     re_cuName := strncpy (XRM_MAX_NAME_LEN - 1) (cu_cuName cu),
     re_kernelPluginFileName := strncpy (XRM_MAX_NAME_LEN - 1) (cu_kernelPluginFileName cu),
     re_uuidStr := strncpy (XRM_MAX_NAME_LEN - 1) (xb_uuidStr (dv_xclbinInfo dev)),
     re_deviceId := devId, re_cuId := int i, re_cuType := cu_cuType cu, re_channelId := 0,
     re_clientId := clientId, re_channelLoadUnified := XRM_MAX_LOAD, re_channelLoadOriginal := 100,
     re_allocServiceId := svc, re_baseAddr := cu_baseAddr cu, re_membankId := cu_membankId cu,
     re_membankType := cu_membankType cu, re_membankSize := cu_membankSize cu,
     re_membankBaseAddr := cu_membankBaseAddr cu, re_poolId := 0\<rparr>"

definition resLoadAndAllocAllCu :: "xrt \<Rightarrow> string \<Rightarrow> u64 \<Rightarrow> int \<Rightarrow> cuListResource \<times> system \<Rightarrow>
    int \<times> cuListResource \<times> system" where
  "resLoadAndAllocAllCu x xclbin clientId clientProcessId = (\<lambda>(lr, s).
     case loadAnyDevice x xclbin (- 1) s of
       (ret, devId, s1) \<Rightarrow>
         if ret \<noteq> XRM_SUCCESS then (ret, lr, s1)
         else (let d = nat devId;
                   s2 = upd_dev d (own_device clientId clientProcessId) s1;
                   num = min (numCu (dev_at s2 d)) (int XRM_MAX_LIST_CU_NUM);
                   svc = getNextAllocServiceId s2
               in case fold (\<lambda>i (lr, s).
                      (lr\<lparr>lr_cuResources := (lr_cuResources lr)[i :=
                          own_cuRes (dev_at s d) devId i clientId svc (cu_at s d i) (lr_cuResources lr ! i)]\<rparr>,
                       upd_cu d i (own_cu clientId clientProcessId svc) s))
                      [0..<nat num] (lr\<lparr>lr_cuNum := num\<rparr>, s2) of
                    (lr', s3) \<Rightarrow>
                      (XRM_SUCCESS, lr', updateAllocServiceId (updateDeviceLoad devId 0 (XRM_MAX_LOAD * num) s3))))"

end
