(* ===== verification/Xrm_Layout_Inv.thy ===== *)
theory Xrm_Layout_Inv
  imports Xrm_Load Xrm_Pool_Inv
begin

text \<open>
  A device while an xclbin is loaded to it. Its invariant does not hold then; \<open>laying d n I\<close> describes it,
  with \<open>n\<close> compute units counted and those of \<open>I\<close> initialised. Every step of the load keeps it and changes
  that device only (\<open>only_dev\<close>), for an xclbin whose layout and tables fit those of the daemon
  (\<open>xclbin_ok\<close>); after the last step the compute units that are counted are exactly those that are
  initialised (\<open>laid\<close>).
\<close>

section \<open>Steps that change one device\<close>

definition only_dev :: "nat \<Rightarrow> system \<Rightarrow> system \<Rightarrow> bool" where
  "only_dev d s s' \<longleftrightarrow> s' = upd_dev d (\<lambda>_. dev_at s' d) s"

lemma only_dev_refl [simp]: "only_dev d s s"
  by (simp add: only_dev_def upd_dev_def dev_at_def)

lemma upd_dev_twice: "upd_dev d (\<lambda>_. y) (upd_dev d (\<lambda>_. x) s) = upd_dev d (\<lambda>_. y) s"
  by (simp add: upd_dev_def)

lemma only_dev_trans:
  assumes "only_dev d s t" "only_dev d t u"
  shows "only_dev d s u"
proof -
  have t: "t = upd_dev d (\<lambda>_. dev_at t d) s" and u: "u = upd_dev d (\<lambda>_. dev_at u d) t"
    using assms by (simp_all add: only_dev_def)
  have "u = upd_dev d (\<lambda>_. dev_at u d) (upd_dev d (\<lambda>_. dev_at t d) s)" using u t by metis
  then show ?thesis by (simp add: only_dev_def upd_dev_twice)
qed

lemma only_dev_fields:
  assumes "only_dev d s s'"
  shows "m_numDevice s' = m_numDevice s" "m_fault s' = m_fault s" "length (m_devList s') = length (m_devList s)"
    "m_devicesInited s' = m_devicesInited s" "d' \<noteq> d \<Longrightarrow> dev_at s' d' = dev_at s d'"
    "d' \<noteq> d \<Longrightarrow> cu_at s' d' c = cu_at s d' c"
proof -
  have e: "s' = upd_dev d (\<lambda>_. dev_at s' d) s" using assms by (simp add: only_dev_def)
  show "m_numDevice s' = m_numDevice s" "m_fault s' = m_fault s" "length (m_devList s') = length (m_devList s)"
    "m_devicesInited s' = m_devicesInited s" by (subst e, simp)+
  show o: "dev_at s' d' = dev_at s d'" if "d' \<noteq> d" for d' using that by (subst e) (simp add: dev_at_upd_dev)
  show "d' \<noteq> d \<Longrightarrow> cu_at s' d' c = cu_at s d' c" using o by (simp add: cu_at_def)
qed

lemma only_dev_upd:
  assumes "d < length (m_devList s)"
  shows "only_dev d s (upd_dev d f s)" "dev_at (upd_dev d f s) d = f (dev_at s d)"
  using assms by (simp_all add: only_dev_def dev_at_upd_dev) (simp add: upd_dev_def)

lemma only_dev_sys_inv:
  assumes "sys_inv s" "only_dev d s s'" "int d < m_numDevice s" "dev_inv d (dev_at s' d)"
  shows "sys_inv s'"
proof -
  have "dev_inv d' (dev_at s' d')" if "d' < nat (m_numDevice s)" for d'
    using assms that only_dev_fields(5) [OF assms(2), of d'] by (cases "d' = d") (auto simp: sys_inv_def)
  moreover have "length (cuList (dev_at s' d')) = XRM_MAX_XILINX_KERNELS" if "d' < XRM_MAX_XILINX_DEVICES" for d'
    using assms that only_dev_fields(5) [OF assms(2), of d']
    by (cases "d' = d") (auto simp: sys_inv_def dev_inv_def)
  ultimately show ?thesis
    using assms(1) only_dev_fields(1-4) [OF assms(2)] by (auto simp: sys_inv_def)
qed

text \<open>A device whose compute units are all idle has no grant.\<close>

definition idle_dev :: "deviceData \<Rightarrow> bool" where
  "idle_dev dev \<longleftrightarrow> (\<forall>c<nat (numCu dev). cu_totalUsedLoadUnified (cuList dev ! c) = 0)"

lemma idle_dev_grants:
  assumes inv: "sys_inv s" and idle: "idle_dev (dev_at s d)"
  shows "grants s (d, c, i) = None"
proof (rule ccontr)
  assume "\<not> ?thesis"
  then have g: "valid_cu s d c" "i < XRM_MAX_KERNEL_CHANNELS" "in_use (chan_at s d c i)"
    by (auto simp: grants_def split: if_splits)
  have ci: "cu_inv (cu_at s d c)" using valid_cu_inv [OF inv g(1)] by simp
  have "cu_totalUsedLoadUnified (cu_at s d c) = 0"
    using idle g(1) by (auto simp: idle_dev_def valid_cu_def cu_at_def)
  then have "\<forall>ch\<in>set (cu_channels (cu_at s d c)). ch_loadUnified ch = 0"
    using idle_no_reserve(2) ci unfolding cu_inv_def by blast
  moreover have "chan_at s d c i \<in> set (cu_channels (cu_at s d c))"
    using ci g(2) by (simp add: chan_at_def cu_inv_def cu_unfold)
  ultimately show False using g(3) by (auto simp: in_use_def)
qed

lemma only_dev_grants:
  assumes inv: "sys_inv s" "sys_inv s'" and o: "only_dev d s s'"
    and idle: "idle_dev (dev_at s d)" "idle_dev (dev_at s' d)"
  shows "grants s' = grants s"
proof
  fix k :: "nat \<times> nat \<times> nat"
  obtain d' c i where k: "k = (d', c, i)" by (metis prod_cases3)
  show "grants s' k = grants s k"
  proof (cases "d' = d")
    case True
    with k idle_dev_grants inv idle show ?thesis by simp
  next
    case False
    then show ?thesis using k only_dev_fields(1) [OF o] only_dev_fields(5,6) [OF o, of d'] by (simp add: grants_def valid_cu_def chan_at_def)
  qed
qed

section \<open>Fresh compute units\<close>

lemma init_cu_inv:
  assumes "cu_clients cu = replicate XRM_MAX_KERNEL_CHANNELS 0"
  shows "cu_inv (init_cu devId cu)" "cu_deviceId (init_cu devId cu) = devId"
    "cu_totalUsedLoadUnified (init_cu devId cu) = 0" "pool_ids (init_cu devId cu) = {}"
    "ch \<in> set (cu_channels (init_cu devId cu)) \<Longrightarrow> ch_loadUnified ch = 0 \<and> ch_poolId ch = 0 \<and> ch_clientId ch = 0"
proof -
  let ?cu = "init_cu devId cu"
  have chs: "cu_channels ?cu = map (\<lambda>i. channel0\<lparr>ch_channelId := int i\<rparr>) [0..<XRM_MAX_KERNEL_CHANNELS]"
    by (simp add: init_cu_def cuInitChannels_def)
  have zero: "ch_loadUnified ch = 0 \<and> ch_poolId ch = 0 \<and> ch_clientId ch = 0 \<and> ch_allocServiceId ch = 0"
    if "ch \<in> set (cu_channels ?cu)" for ch using that by (auto simp: chs channel0_def)
  have none: "filter in_use (cu_channels ?cu) = []" using zero by (auto simp: filter_empty_conv in_use_def)
  have loads: "sum_list (map ch_loadUnified (cu_channels ?cu)) = 0"
  proof -
    have e: "map ch_loadUnified (cu_channels ?cu) = map (\<lambda>_. 0) (cu_channels ?cu)"
      using zero by (intro map_cong) auto
    show ?thesis unfolding e by simp
  qed
  have "chans_inv ?cu"
    unfolding chans_inv_def none using zero
    by (auto simp: chan_ok_def chs) (simp add: init_cu_def cuInitChannels_def)
  moreover have act: "act_reserves ?cu = []" by (simp add: act_reserves_def init_cu_def)
  moreover have "reserves_inv ?cu" by (simp add: reserves_inv_def act) (simp add: init_cu_def)
  moreover have "totals_inv ?cu"
    using loads by (simp add: totals_inv_def reserved_load_def act pool_ids_def) (simp add: init_cu_def)
  moreover have "clients_inv ?cu"
    using none assms by (auto simp: clients_inv_def clients_arr_def client_set_def chan_clients_def
        filter_empty_conv init_cu_def cuInitChannels_def)
  ultimately show "cu_inv ?cu" by (simp add: cu_inv_def cu_acct_def)
  show "cu_deviceId ?cu = devId" "cu_totalUsedLoadUnified ?cu = 0" by (simp_all add: init_cu_def)
  show "pool_ids ?cu = {}" by (simp add: pool_ids_def act)
  show "ch_loadUnified ch = 0 \<and> ch_poolId ch = 0 \<and> ch_clientId ch = 0" if "ch \<in> set (cu_channels ?cu)"
    using zero that by blast
qed

lemma init_cu_slot: "blank_slot cu \<Longrightarrow> blank_slot (init_cu devId cu)"
  by (simp add: blank_slot_def init_cu_def cuInitChannels_def)

section \<open>A device while it is loaded\<close>

definition laying :: "nat \<Rightarrow> int \<Rightarrow> nat set \<Rightarrow> deviceData \<Rightarrow> bool" where
  "laying d n I dev \<longleftrightarrow> length (cuList dev) = XRM_MAX_XILINX_KERNELS \<and>
     length (dv_clientProcs dev) = XRM_MAX_DEV_CLIENTS \<and> \<not> dv_isLoaded dev \<and> dv_memBuffer dev \<noteq> Freed \<and>
     (\<forall>cu\<in>set (cuList dev). blank_slot cu) \<and> numCu dev = n \<and> 0 \<le> n \<and> n \<le> int XRM_MAX_XILINX_KERNELS \<and>
     (\<forall>c\<in>I. c < XRM_MAX_XILINX_KERNELS \<and> cu_inv (cuList dev ! c) \<and> cu_deviceId (cuList dev ! c) = int d)"

lemma laying_cong:
  assumes "laying d n I dev" "cuList dev' = cuList dev" "numCu dev' = numCu dev"
    "dv_clientProcs dev' = dv_clientProcs dev" "dv_isLoaded dev' = dv_isLoaded dev" "dv_memBuffer dev' \<noteq> Freed"
  shows "laying d n I dev'"
  using assms by (simp add: laying_def)

text \<open>One compute unit is initialised.\<close>

lemma laying_init:
  assumes "laying d n I dev" "c < XRM_MAX_XILINX_KERNELS"
    and f: "f (cuList dev ! c) = init_cu (int d) cu'" "cu_clients cu' = cu_clients (cuList dev ! c)"
  shows "laying d n (insert c I) (dev_upd_cu c f dev)"
proof -
  have slot: "blank_slot (cuList dev ! c)" using assms(1,2) by (simp add: laying_def)
  then have "cu_inv (init_cu (int d) cu')" "cu_deviceId (init_cu (int d) cu') = int d"
    "blank_slot (init_cu (int d) cu')"
    using init_cu_inv(1,2) [of cu' "int d"] f(2)
    by (simp_all add: blank_slot_def) (simp_all add: init_cu_def cuInitChannels_def)
  then show ?thesis using assms
    by (auto simp: laying_def cuList_dev_upd_cu nth_list_update dest!: subsetD [OF set_update_subset_insert])
qed

lemma dev_upd_cu_keeps:
  "dv_deviceHandle (dev_upd_cu c f dev) = dv_deviceHandle dev"
  "xb_numHardwareCu (dv_xclbinInfo (dev_upd_cu c f dev)) = xb_numHardwareCu (dv_xclbinInfo dev)"
  "dv_memBuffer (dev_upd_cu c f dev) = dv_memBuffer dev"
  by (simp_all add: dev_upd_cu_def)

lemma count_cu:
  assumes "laying d n I dev" "n < int XRM_MAX_XILINX_KERNELS" "cuList dev' = cuList dev" "numCu dev' = n + 1"
    "dv_clientProcs dev' = dv_clientProcs dev" "dv_isLoaded dev' = dv_isLoaded dev" "dv_memBuffer dev' = dv_memBuffer dev"
  shows "laying d (n + 1) I dev'"
  using assms by (simp add: laying_def)

section \<open>The layout\<close>

text \<open>
  The index of the compute unit of an entry of the layout, \<open>n\<close> compute units and \<open>hw\<close> hardware kernels being
  counted before it.
\<close>

definition pick_cu :: "xrt \<Rightarrow> u64 \<Rightarrow> ip_type \<Rightarrow> int \<Rightarrow> int \<Rightarrow> ip_data \<Rightarrow> int" where
  "pick_cu x handle kind hw n ip =
     (let i = wrapIPName2Index (libVersionDepFuncs x) handle (c_str (ip_m_name ip))
      in if i < 0 then n else if kind = IP_KERNEL then i else i32 (i + hw))"

fun layout_ids :: "xrt \<Rightarrow> u64 \<Rightarrow> ip_type \<Rightarrow> int \<Rightarrow> int \<Rightarrow> ip_data list \<Rightarrow> int list" where
  "layout_ids x handle kind hw n [] = []"
| "layout_ids x handle kind hw n (ip # ips) =
     (if ip_m_type ip = kind then pick_cu x handle kind hw n ip # layout_ids x handle kind hw (n + 1) ips
      else layout_ids x handle kind hw n ips)"

lemma layout_ip_spec:
  assumes lay: "laying d n I (dev_at s d)" and dl: "d < length (m_devList s)"
    and ip: "ip_m_type ip = kind" and room: "n < int XRM_MAX_XILINX_KERNELS"
    and hw: "kind \<noteq> IP_KERNEL \<longrightarrow> xb_numHardwareCu (dv_xclbinInfo (dev_at s d)) = hw"
    and i: "pick_cu x (dv_deviceHandle (dev_at s d)) kind hw n ip = i" "0 \<le> i" "i < int XRM_MAX_XILINX_KERNELS"
    and run: "layout_ip x (int d) kind ip s = (ok, s')"
  shows "only_dev d s s'" "laying d (n + 1) (if ok then insert (nat i) I else I) (dev_at s' d)"
    "dv_deviceHandle (dev_at s' d) = dv_deviceHandle (dev_at s d)"
    "kind \<noteq> IP_KERNEL \<longrightarrow> xb_numHardwareCu (dv_xclbinInfo (dev_at s' d)) = hw"
    "kind = IP_KERNEL \<longrightarrow> xb_numHardwareCu (dv_xclbinInfo (dev_at s' d)) =
       xb_numHardwareCu (dv_xclbinInfo (dev_at s d)) + 1"
    "dv_memBuffer (dev_at s' d) = dv_memBuffer (dev_at s d)"
proof -
  let ?f = "\<lambda>xb. if kind = IP_KERNEL
      then xb\<lparr>xb_numCu := xb_numCu xb + 1, xb_numHardwareCu := xb_numHardwareCu xb + 1\<rparr>
      else xb\<lparr>xb_numCu := xb_numCu xb + 1, xb_numIPPSCu := xb_numIPPSCu xb + 1\<rparr>"
  let ?s1 = "set_xclbin (int d) ?f s"
  let ?type = "if kind = IP_KERNEL then XRM_CU_IPKERNEL else XRM_CU_IPPSKERNEL"
  have s1: "only_dev d s ?s1" "dev_at ?s1 d = (dev_at s d)\<lparr>dv_xclbinInfo := ?f (dv_xclbinInfo (dev_at s d))\<rparr>"
    using only_dev_upd [OF dl] by (simp_all add: set_xclbin_def set_dev_def)
  have n: "numCu (dev_at s d) = n" "length (cuList (dev_at s d)) = XRM_MAX_XILINX_KERNELS"
    using lay by (simp_all add: laying_def)
  have n1: "numCu (dev_at ?s1 d) = n + 1" "cuList (dev_at ?s1 d) = cuList (dev_at s d)"
    using s1(2) n(1) by (auto simp: numCu_def cuList_def)
  have lay1: "laying d (n + 1) I (dev_at ?s1 d)"
    by (rule count_cu [OF lay room n1(2,1)]) (simp_all add: s1(2))
  have dl1: "d < length (m_devList ?s1)" using dl only_dev_fields(3) [OF s1(1)] by simp
  let ?j = "wrapIPName2Index (libVersionDepFuncs x) (dv_deviceHandle (dev_at s d)) (c_str (ip_m_name ip))"
  let ?g = "fill_ip (int d) ?type ip i n"
  have eq: "layout_ip x (int d) kind ip s =
      (if ?j < 0 \<and> ?j \<noteq> XRM_ERROR_INVALID then (False, ?s1) else (True, upd_cu d (nat i) ?g ?s1))"
  proof -
    define s1 where "s1 = ?s1"
    note n1' = n1 [folded s1_def] and s1' = s1(2) [folded s1_def]
    define cuId where "cuId = (if ?j < 0 then n else if kind = IP_KERNEL then ?j
        else i32 (?j + xb_numHardwareCu (dv_xclbinInfo (dev_at s1 d))))"
    have "cuId = i" using i(1) hw by (auto simp: cuId_def s1' pick_cu_def Let_def)
    moreover have "dv_deviceHandle (dev_at s1 d) = dv_deviceHandle (dev_at s d)" by (simp add: s1')
    then have "layout_ip x (int d) kind ip s = (if ?j < 0 \<and> ?j \<noteq> XRM_ERROR_INVALID then (False, s1)
        else if cuId < 0 \<or> cuId \<ge> int XRM_MAX_XILINX_KERNELS then (False, fault s1)
        else (True, upd_cu d (nat cuId) (fill_ip (int d) ?type ip cuId n) s1))"
      using ip room n n1' unfolding layout_ip_def Let_def s1_def [symmetric] cuId_def by simp
    ultimately show ?thesis using i(2,3) unfolding s1_def [symmetric] by simp
  qed
  have fill: "?g cu = init_cu (int d) (cu\<lparr>cu_cuId := i, cu_ipLayoutIndex := n, cu_cuType := ?type,
           cu_cuName := c_str (ip_m_name ip), cu_kernelName := takeWhile (\<lambda>c. c \<noteq> CHR '':'') (c_str (ip_m_name ip)),
           cu_instanceName := drop (length (takeWhile (\<lambda>c. c \<noteq> CHR '':'') (c_str (ip_m_name ip))) + 1) (c_str (ip_m_name ip)),
           cu_baseAddr := ip_m_base_address ip\<rparr>)" for cu
    by (simp add: fill_ip_def Let_def)
  have ni: "nat i < XRM_MAX_XILINX_KERNELS" using i(2,3) by linarith
  have lay2: "laying d (n + 1) (insert (nat i) I) (dev_upd_cu (nat i) ?g (dev_at ?s1 d))"
    by (rule laying_init [OF lay1 ni fill]) simp
  have o2: "only_dev d s (upd_cu d (nat i) ?g ?s1)" "dev_at (upd_cu d (nat i) ?g ?s1) d = dev_upd_cu (nat i) ?g (dev_at ?s1 d)"
    using only_dev_trans [OF s1(1)] only_dev_upd [OF dl1] by (simp_all add: upd_cu_def)
  have keep: "dv_deviceHandle (dev_at ?s1 d) = dv_deviceHandle (dev_at s d)"
    "dv_memBuffer (dev_at ?s1 d) = dv_memBuffer (dev_at s d)"
    "kind \<noteq> IP_KERNEL \<longrightarrow> xb_numHardwareCu (dv_xclbinInfo (dev_at ?s1 d)) = hw"
    "kind = IP_KERNEL \<longrightarrow> xb_numHardwareCu (dv_xclbinInfo (dev_at ?s1 d)) =
       xb_numHardwareCu (dv_xclbinInfo (dev_at s d)) + 1"
    unfolding s1(2) using hw by auto
  have res: "(if ?j < 0 \<and> ?j \<noteq> XRM_ERROR_INVALID then ok = False \<and> s' = ?s1 else ok = True \<and> s' = upd_cu d (nat i) ?g ?s1)"
    using run unfolding eq by (auto split: if_splits)
  show "only_dev d s s'" "laying d (n + 1) (if ok then insert (nat i) I else I) (dev_at s' d)"
    "dv_deviceHandle (dev_at s' d) = dv_deviceHandle (dev_at s d)"
    "kind \<noteq> IP_KERNEL \<longrightarrow> xb_numHardwareCu (dv_xclbinInfo (dev_at s' d)) = hw"
    "kind = IP_KERNEL \<longrightarrow> xb_numHardwareCu (dv_xclbinInfo (dev_at s' d)) =
       xb_numHardwareCu (dv_xclbinInfo (dev_at s d)) + 1"
    "dv_memBuffer (dev_at s' d) = dv_memBuffer (dev_at s d)"
    using res s1(1) lay1 o2(1) lay2 keep
    by (cases "?j < 0 \<and> ?j \<noteq> XRM_ERROR_INVALID"; simp only: o2(2) if_True if_False dev_upd_cu_keeps simp_thms)+
qed

lemma layout_pass:
  assumes "laying d n I (dev_at s d)" "d < length (m_devList s)" "dv_deviceHandle (dev_at s d) = h"
    and "kind \<noteq> IP_KERNEL \<longrightarrow> xb_numHardwareCu (dv_xclbinInfo (dev_at s d)) = hw"
    and "n + int (length (filter (\<lambda>ip. ip_m_type ip = kind) ips)) \<le> int XRM_MAX_XILINX_KERNELS"
    and "\<forall>i\<in>set (layout_ids x h kind hw n ips). 0 \<le> i \<and> i < int XRM_MAX_XILINX_KERNELS"
    and "all_ok (layout_ip x (int d) kind) ips s = (ok, s')"
  shows "only_dev d s s' \<and> dv_deviceHandle (dev_at s' d) = h \<and> dv_memBuffer (dev_at s' d) = dv_memBuffer (dev_at s d) \<and>
    (\<exists>n' I'. laying d n' I' (dev_at s' d)) \<and>
    (ok \<longrightarrow> laying d (n + int (length (filter (\<lambda>ip. ip_m_type ip = kind) ips)))
         (I \<union> nat ` set (layout_ids x h kind hw n ips)) (dev_at s' d) \<and>
       xb_numHardwareCu (dv_xclbinInfo (dev_at s' d)) = xb_numHardwareCu (dv_xclbinInfo (dev_at s d)) +
         (if kind = IP_KERNEL then int (length (filter (\<lambda>ip. ip_m_type ip = kind) ips)) else 0))"
  using assms
proof (induction ips arbitrary: s n I)
  case (Cons ip ips)
  show ?case
  proof (cases "ip_m_type ip = kind")
    case False
    then have "layout_ip x (int d) kind ip s = (True, s)" by (simp add: layout_ip_def)
    then have run: "all_ok (layout_ip x (int d) kind) ips s = (ok, s')" using Cons.prems(7) by simp
    have e: "filter (\<lambda>ip. ip_m_type ip = kind) (ip # ips) = filter (\<lambda>ip. ip_m_type ip = kind) ips"
      "layout_ids x h kind hw n (ip # ips) = layout_ids x h kind hw n ips"
      using False by simp_all
    show ?thesis using Cons.prems(5,6) unfolding e by (intro Cons.IH [OF Cons.prems(1-4) _ _ run])
  next
    case True
    obtain ok1 s1 where st: "layout_ip x (int d) kind ip s = (ok1, s1)" by fastforce
    let ?i = "pick_cu x (dv_deviceHandle (dev_at s d)) kind hw n ip"
    have i: "?i \<in> set (layout_ids x h kind hw n (ip # ips))" using True Cons.prems(3) by simp
    have "n < int XRM_MAX_XILINX_KERNELS" using Cons.prems(5) True by simp
    note L = layout_ip_spec [OF Cons.prems(1,2) True this Cons.prems(4) refl _ _ st]
    have i': "0 \<le> ?i" "?i < int XRM_MAX_XILINX_KERNELS" using i Cons.prems(6) by blast+
    note L = L [OF i']
    show ?thesis
    proof (cases ok1)
      case False
      then have "ok = False \<and> s' = s1" using Cons.prems(7) st by simp
      with L(1-3,6) Cons.prems(3) False show ?thesis by auto
    next
      case ok1: True
      then have run: "all_ok (layout_ip x (int d) kind) ips s1 = (ok, s')" using Cons.prems(7) st by simp
      have dl: "d < length (m_devList s1)" using Cons.prems(2) only_dev_fields(3) [OF L(1)] by simp
      have lay: "laying d (n + 1) (insert (nat ?i) I) (dev_at s1 d)" using L(2) ok1 by simp
      have IH: "only_dev d s1 s' \<and> dv_deviceHandle (dev_at s' d) = h \<and>
          dv_memBuffer (dev_at s' d) = dv_memBuffer (dev_at s1 d) \<and>
          (\<exists>n' I'. laying d n' I' (dev_at s' d)) \<and>
          (ok \<longrightarrow> laying d (n + 1 + int (length (filter (\<lambda>ip. ip_m_type ip = kind) ips)))
               (insert (nat ?i) I \<union> nat ` set (layout_ids x h kind hw (n + 1) ips)) (dev_at s' d) \<and>
             xb_numHardwareCu (dv_xclbinInfo (dev_at s' d)) = xb_numHardwareCu (dv_xclbinInfo (dev_at s1 d)) +
               (if kind = IP_KERNEL then int (length (filter (\<lambda>ip. ip_m_type ip = kind) ips)) else 0))"
        using Cons.prems(3,5,6) L(3) True by (intro Cons.IH [OF lay dl _ L(4) _ _ run]) simp_all
      have "insert (nat ?i) I \<union> nat ` set (layout_ids x h kind hw (n + 1) ips) =
          I \<union> nat ` set (layout_ids x h kind hw n (ip # ips))"
        using True Cons.prems(3) by auto
      then show ?thesis
        using IH only_dev_trans [OF L(1)] L(4-6) True Cons.prems(4) by (auto simp: ac_simps)
    qed
  qed
qed auto

text \<open>Soft kernels are numbered after the others.\<close>

lemma layout_soft_cus:
  assumes "laying d n I (dev_at s d)" "d < length (m_devList s)" "n + int k \<le> int XRM_MAX_XILINX_KERNELS"
    and "length is = k" "all_ok (\<lambda>_. layout_soft_cu (int d) name) is s = (ok, s')"
  shows "ok \<and> only_dev d s s' \<and> laying d (n + int k) (I \<union> {nat n..<nat n + k}) (dev_at s' d)"
  using assms
proof (induction "is" arbitrary: s n I k)
  case (Cons i "is")
  let ?f = "\<lambda>xb. xb\<lparr>xb_numCu := xb_numCu xb + 1, xb_numSoftwareCu := xb_numSoftwareCu xb + 1\<rparr>"
  let ?s1 = "set_xclbin (int d) ?f s"
  let ?g = "\<lambda>cu. init_cu (int d) (cu\<lparr>cu_cuId := n, cu_ipLayoutIndex := n, cu_cuType := XRM_CU_SOFTKERNEL,
      cu_kernelName := c_str name, cu_cuName := c_str name\<rparr>)"
  let ?s2 = "upd_cu d (nat n) ?g ?s1"
  have s1: "only_dev d s ?s1" "dev_at ?s1 d = (dev_at s d)\<lparr>dv_xclbinInfo := ?f (dv_xclbinInfo (dev_at s d))\<rparr>"
    using only_dev_upd [OF Cons.prems(2)] by (simp_all add: set_xclbin_def set_dev_def)
  have n: "numCu (dev_at s d) = n" "0 \<le> n" "length (cuList (dev_at s d)) = XRM_MAX_XILINX_KERNELS"
    "n < int XRM_MAX_XILINX_KERNELS"
    using Cons.prems(1,3,4) by (auto simp: laying_def)
  have n1: "numCu (dev_at ?s1 d) = n + 1" "cuList (dev_at ?s1 d) = cuList (dev_at s d)"
    unfolding s1(2) using n(1) by (auto simp: numCu_def cuList_def)
  have lay1: "laying d (n + 1) I (dev_at ?s1 d)"
    by (rule count_cu [OF Cons.prems(1) n(4) n1(2,1)]) (simp_all add: s1(2))
  have dl1: "d < length (m_devList ?s1)" using Cons.prems(2) only_dev_fields(3) [OF s1(1)] by simp
  have nn: "nat n < XRM_MAX_XILINX_KERNELS" using n by linarith
  have "laying d (n + 1) (insert (nat n) I) (dev_upd_cu (nat n) ?g (dev_at ?s1 d))"
    by (rule laying_init [OF lay1 nn refl]) simp
  then have lay2: "laying d (n + 1) (insert (nat n) I) (dev_at ?s2 d)"
    using only_dev_upd(2) [OF dl1] by (simp add: upd_cu_def)
  have o2: "only_dev d s ?s2" using only_dev_trans [OF s1(1)] only_dev_upd(1) [OF dl1] by (simp add: upd_cu_def)
  have dl2: "d < length (m_devList ?s2)" using dl1 by simp
  have "layout_soft_cu (int d) name s = (True, ?s2)"
    using n n1 unfolding layout_soft_cu_def Let_def by simp
  then have run: "all_ok (\<lambda>_. layout_soft_cu (int d) name) is ?s2 = (ok, s')" using Cons.prems(5) by simp
  have len: "n + 1 + int (length is) \<le> int XRM_MAX_XILINX_KERNELS" using Cons.prems(3,4) by simp
  note IH = Cons.IH [OF lay2 dl2 len refl run]
  have "insert (nat n) I \<union> {nat (n + 1)..<nat (n + 1) + length is} = I \<union> {nat n..<nat n + k}"
    using n(2) Cons.prems(4) by auto
  then show ?case using IH only_dev_trans [OF o2] Cons.prems(4) by (auto simp: ac_simps)
qed auto

lemma layout_softs:
  assumes "laying d n I (dev_at s d)" "d < length (m_devList s)"
    and "n + (\<Sum>sk\<leftarrow>sks. uint (sk_m_num_instances sk)) \<le> int XRM_MAX_XILINX_KERNELS"
    and "all_ok (layout_soft (int d)) sks s = (ok, s')"
  shows "ok \<and> only_dev d s s' \<and> laying d (n + (\<Sum>sk\<leftarrow>sks. uint (sk_m_num_instances sk)))
    (I \<union> {nat n..<nat (n + (\<Sum>sk\<leftarrow>sks. uint (sk_m_num_instances sk)))}) (dev_at s' d)"
  using assms
proof (induction sks arbitrary: s n I)
  case (Cons sk sks)
  define k where "k = unat (sk_m_num_instances sk)"
  have k: "uint (sk_m_num_instances sk) = int k" by (simp add: k_def)
  have pos: "0 \<le> (\<Sum>sk\<leftarrow>sks. uint (sk_m_num_instances sk))" by (rule sum_list_nonneg) auto
  have n: "numCu (dev_at s d) = n" "0 \<le> n" "n + int k \<le> int XRM_MAX_XILINX_KERNELS"
    using Cons.prems(1,3) pos by (auto simp: laying_def k)
  obtain ok1 s1 where st: "all_ok (\<lambda>_. layout_soft_cu (int d) (sk_mpo_name sk)) [0..<k] s = (ok1, s1)" by fastforce
  note L = layout_soft_cus [OF Cons.prems(1,2) n(3) _ st]
  have L: "ok1" "only_dev d s s1" "laying d (n + int k) (I \<union> {nat n..<nat n + k}) (dev_at s1 d)"
    using L by simp_all
  have "\<not> (word_of_int n + sk_m_num_instances sk :: u32) > of_nat XRM_MAX_XILINX_KERNELS"
  proof -
    have "uint (word_of_int n + sk_m_num_instances sk :: u32) = n + int k"
      using n(2,3) unfolding uint_word_ariths k uint_word_of_int
      by (simp add: XRM_MAX_XILINX_KERNELS_def)
    moreover have "uint (of_nat XRM_MAX_XILINX_KERNELS :: u32) = int XRM_MAX_XILINX_KERNELS"
      by (simp add: XRM_MAX_XILINX_KERNELS_def)
    ultimately show ?thesis using n(3) by (simp add: word_less_def)
  qed
  then have "layout_soft (int d) sk s = (True, s1)" using st L(1) n(1) by (simp add: layout_soft_def k_def)
  then have run: "all_ok (layout_soft (int d)) sks s1 = (ok, s')" using Cons.prems(4) by simp
  have dl: "d < length (m_devList s1)" using Cons.prems(2) only_dev_fields(3) [OF L(2)] by simp
  have "n + int k + (\<Sum>sk\<leftarrow>sks. uint (sk_m_num_instances sk)) \<le> int XRM_MAX_XILINX_KERNELS"
    using Cons.prems(3) by (simp add: k)
  note IH = Cons.IH [OF L(3) dl this run]
  have "I \<union> {nat n..<nat n + k} \<union> {nat (n + int k)..<nat (n + int k + (\<Sum>sk\<leftarrow>sks. uint (sk_m_num_instances sk)))} =
      I \<union> {nat n..<nat (n + (\<Sum>sk\<leftarrow>sk # sks. uint (sk_m_num_instances sk)))}"
    using n(2) pos by (auto simp: k nat_add_distrib)
  then show ?case using IH only_dev_trans [OF L(2)] by (auto simp: k ac_simps)
qed auto

section \<open>Names and memory banks\<close>

text \<open>What follows the layout writes nothing the accounting reads.\<close>

definition same_acct :: "cuData \<Rightarrow> cuData \<Rightarrow> bool" where
  "same_acct cu cu' \<longleftrightarrow> cu_channels cu' = cu_channels cu \<and> cu_numChanInuse cu' = cu_numChanInuse cu \<and>
     cu_clients cu' = cu_clients cu \<and> cu_numClient cu' = cu_numClient cu \<and>
     cu_reserves cu' = cu_reserves cu \<and> cu_numReserve cu' = cu_numReserve cu \<and>
     cu_totalUsedLoadUnified cu' = cu_totalUsedLoadUnified cu \<and>
     cu_totalReservedLoadUnified cu' = cu_totalReservedLoadUnified cu \<and>
     cu_totalReservedUsedLoadUnified cu' = cu_totalReservedUsedLoadUnified cu \<and>
     cu_deviceId cu' = cu_deviceId cu"

lemma same_acct_inv:
  assumes "same_acct cu cu'"
  shows "cu_inv cu' = cu_inv cu" "blank_slot cu' = blank_slot cu" "cu_deviceId cu' = cu_deviceId cu"
proof -
  have e: "act_reserves cu' = act_reserves cu" "client_set cu' = client_set cu" "clients_arr cu' = clients_arr cu"
    "pool_ids cu' = pool_ids cu" "reserved_load cu' = reserved_load cu"
    using assms by (simp_all add: same_acct_def act_reserves_def client_set_def clients_arr_def pool_ids_def
        reserved_load_def)
  show "cu_inv cu' = cu_inv cu" "blank_slot cu' = blank_slot cu" "cu_deviceId cu' = cu_deviceId cu"
    using assms by (simp_all add: same_acct_def cu_inv_def cu_acct_def chans_inv_def reserves_inv_def totals_inv_def
        clients_inv_def blank_slot_def e)
qed

lemma same_acct_refl [simp]: "same_acct cu cu"
  by (simp add: same_acct_def)

lemma same_acct_trans: "same_acct a b \<Longrightarrow> same_acct b c \<Longrightarrow> same_acct a c"
  by (simp add: same_acct_def)

lemma key_value_acct: "same_acct cu (key_value_cu kv cu)"
  by (simp add: same_acct_def key_value_cu_def Let_def)

lemma connect_acct: "same_acct cu (fold (connect_cu xb) conns cu)"
proof (induction conns arbitrary: cu)
  case (Cons conn conns)
  have "same_acct cu (connect_cu xb conn cu)" by (simp add: same_acct_def connect_cu_def Let_def)
  then show ?case using Cons same_acct_trans by simp
qed simp

text \<open>The connections a device has recorded.\<close>

definition connections :: "deviceData \<Rightarrow> connectData list" where
  "connections dev = map (\<lambda>i. xb_connectList (dv_xclbinInfo dev) ! i) [0..<nat (xb_numConnect (dv_xclbinInfo dev))]"

lemma laying_upd_all:
  assumes lay: "laying d n I (dev_at s d)" and dl: "d < length (m_devList s)" and f: "\<And>cu. same_acct cu (f cu)"
  shows "only_dev d s (upd_all_cus (int d) f s) \<and> laying d n I (dev_at (upd_all_cus (int d) f s) d) \<and>
    dv_memBuffer (dev_at (upd_all_cus (int d) f s) d) = dv_memBuffer (dev_at s d) \<and>
    connections (dev_at (upd_all_cus (int d) f s) d) = connections (dev_at s d)"
proof -
  have "only_dev d s (fold (\<lambda>c. upd_cu d c f) cs s) \<and> laying d n I (dev_at (fold (\<lambda>c. upd_cu d c f) cs s) d) \<and>
      dv_memBuffer (dev_at (fold (\<lambda>c. upd_cu d c f) cs s) d) = dv_memBuffer (dev_at s d) \<and>
      connections (dev_at (fold (\<lambda>c. upd_cu d c f) cs s) d) = connections (dev_at s d)" for cs
    using lay dl
  proof (induction cs arbitrary: s)
    case (Cons c cs)
    let ?t = "upd_cu d c f s"
    have t: "only_dev d s ?t" "dev_at ?t d = dev_upd_cu c f (dev_at s d)"
      using only_dev_upd [OF Cons.prems(2)] by (simp_all add: upd_cu_def)
    have inv: "cu_inv (f cu) = cu_inv cu" "blank_slot (f cu) = blank_slot cu" "cu_deviceId (f cu) = cu_deviceId cu" for cu
      using same_acct_inv [OF f] by simp_all
    have "laying d n I (dev_upd_cu c f (dev_at s d))"
    proof -
      let ?cs = "cuList (dev_at s d)" and ?cs' = "cuList (dev_upd_cu c f (dev_at s d))"
      have L: "length ?cs = XRM_MAX_XILINX_KERNELS" "\<forall>cu\<in>set ?cs. blank_slot cu"
        "\<forall>c\<in>I. c < XRM_MAX_XILINX_KERNELS \<and> cu_inv (?cs ! c) \<and> cu_deviceId (?cs ! c) = int d"
        using Cons.prems(1) by (simp_all add: laying_def)
      have e: "?cs' ! j = (if j = c then f (?cs ! j) else ?cs ! j)" if "j < length ?cs" for j
        using that by (simp add: cuList_dev_upd_cu nth_list_update)
      have "blank_slot (?cs ! j)" if "j < length ?cs" for j using L(2) that by simp
      then have "\<forall>cu\<in>set ?cs'. blank_slot cu"
        using inv(2) e by (auto simp: in_set_conv_nth)
      moreover have "\<forall>c\<in>I. c < XRM_MAX_XILINX_KERNELS \<and> cu_inv (?cs' ! c) \<and> cu_deviceId (?cs' ! c) = int d"
        using L(1,3) inv(1,3) e by auto
      ultimately show ?thesis using Cons.prems(1) by (simp add: laying_def)
    qed
    then have "laying d n I (dev_at ?t d)" by (simp add: t(2))
    from Cons.IH [OF this] Cons.prems(2) only_dev_trans [OF t(1)] t(2) show ?case
      by (simp add: connections_def) (simp add: dev_upd_cu_def)
  qed simp
  then show ?thesis by (simp add: upd_all_cus_def)
qed

lemma laying_set_xclbin:
  assumes "laying d n I (dev_at s d)" "d < length (m_devList s)"
    and "xb_cuList (f (dv_xclbinInfo (dev_at s d))) = xb_cuList (dv_xclbinInfo (dev_at s d))"
      "xb_numCu (f (dv_xclbinInfo (dev_at s d))) = xb_numCu (dv_xclbinInfo (dev_at s d))"
  shows "only_dev d s (set_xclbin (int d) f s) \<and> laying d n I (dev_at (set_xclbin (int d) f s) d) \<and>
    dv_memBuffer (dev_at (set_xclbin (int d) f s) d) = dv_memBuffer (dev_at s d)"
proof -
  have t: "only_dev d s (set_xclbin (int d) f s)" "dev_at (set_xclbin (int d) f s) d =
      (dev_at s d)\<lparr>dv_xclbinInfo := f (dv_xclbinInfo (dev_at s d))\<rparr>"
    using only_dev_upd [OF assms(2)] by (simp_all add: set_xclbin_def set_dev_def)
  have "laying d n I (dev_at (set_xclbin (int d) f s) d)"
    using assms(1) by (rule laying_cong) (use assms in \<open>auto simp: t(2) cuList_def numCu_def laying_def\<close>)
  with t show ?thesis by simp
qed

lemma fault_not_only: "only_dev d s s' \<Longrightarrow> \<not> m_fault s \<Longrightarrow> s' \<noteq> fault t"
  using only_dev_fields(2) [of d s s'] by auto

section \<open>The promises of the driver\<close>

abbreviation kernel_count :: "ip_type \<Rightarrow> ip_data list \<Rightarrow> int" where
  "kernel_count kind ips \<equiv> int (length (filter (\<lambda>ip. ip_m_type ip = kind) ips))"

definition soft_count :: "soft_kernel list \<Rightarrow> int" where
  "soft_count sks = (\<Sum>sk\<leftarrow>sks. uint (sk_m_num_instances sk))"

definition xclbin_ok :: "xrt \<Rightarrow> u8 list \<Rightarrow> bool" where
  "xclbin_ok x b \<longleftrightarrow>
     (case axlf_ip_layout x b of
        None \<Rightarrow> False
      | Some ips \<Rightarrow>
         (let nk = kernel_count IP_KERNEL ips; np = kernel_count IP_PS_KERNEL ips; ns = soft_count (axlf_soft_kernels x b)
          in 0 < nk + np + ns \<and> nk + np + ns \<le> int XRM_MAX_XILINX_KERNELS \<and>
             (\<forall>h. set (layout_ids x h IP_KERNEL 0 0 ips) \<union> set (layout_ids x h IP_PS_KERNEL nk nk ips) = {0..<nk + np}))) \<and>
     (case axlf_mem_topology x b of None \<Rightarrow> True | Some banks \<Rightarrow> length banks \<le> XRM_MAX_DDR_MAP - 2) \<and>
     (case axlf_connectivity x b of
        None \<Rightarrow> False
      | Some conns \<Rightarrow> length conns \<le> XRM_MAX_CONNECTION_ENTRIES \<and>
          (\<forall>conn\<in>set conns. 0 \<le> cn_memDataIndex conn \<and> cn_memDataIndex conn < int XRM_MAX_DDR_MAP))"

definition driver_ok :: "xrt \<Rightarrow> bool" where
  "driver_ok x \<longleftrightarrow> (\<forall>name. read_file x name \<noteq> CannotRead \<and> (\<forall>b. read_file x name = FileData b \<longrightarrow> xclbin_ok x b))"

definition cu_count :: "xrt \<Rightarrow> u8 list \<Rightarrow> int" where
  "cu_count x b = (case axlf_ip_layout x b of None \<Rightarrow> 0 | Some ips \<Rightarrow>
     kernel_count IP_KERNEL ips + kernel_count IP_PS_KERNEL ips + soft_count (axlf_soft_kernels x b))"

section \<open>Loading an xclbin\<close>

text \<open>The state of a device of which the compute units \<open>0 \<le> c < n\<close> are initialised.\<close>

definition laid :: "nat \<Rightarrow> int \<Rightarrow> deviceData \<Rightarrow> bool" where
  "laid d n dev \<longleftrightarrow> laying d n {0..<nat n} dev"

lemma nat_image_range: "0 \<le> n \<Longrightarrow> nat ` {0..<n} = {0..<nat n}"
  by (auto simp: image_iff intro!: bexI [of _ "int _"])

text \<open>The buffer is not touched by the layout of the soft kernels.\<close>

lemma layout_softs_buffer:
  assumes "d < length (m_devList s)" "all_ok (layout_soft (int d)) sks s = (ok, s')"
  shows "dv_memBuffer (dev_at s' d) = dv_memBuffer (dev_at s d)"
proof -
  have cus: "dv_memBuffer (dev_at s' d) = dv_memBuffer (dev_at s d) \<and> length (m_devList s') = length (m_devList s)"
    if "all_ok (\<lambda>_. layout_soft_cu (int d) name) is s = (ok, s')" "d < length (m_devList s)" for name "is" s s' ok
    using that
    by (induction "is" arbitrary: s)
      (auto simp: layout_soft_cu_def Let_def set_xclbin_def set_dev_def dev_at_upd_cu dev_at_upd_dev
        split: if_splits prod.splits)
  show ?thesis using assms
  proof (induction sks arbitrary: s)
    case (Cons sk sks)
    obtain ok1 s1 where st: "layout_soft (int d) sk s = (ok1, s1)" by fastforce
    have "dv_memBuffer (dev_at s1 d) = dv_memBuffer (dev_at s d) \<and> length (m_devList s1) = length (m_devList s)"
    proof (cases "all_ok (\<lambda>_. layout_soft_cu (int d) (sk_mpo_name sk)) [0..<unat (sk_m_num_instances sk)] s = (ok1, s1)")
      case True
      then show ?thesis by (rule cus [OF _ Cons.prems(1)])
    next
      case False
      with st show ?thesis by (auto simp: layout_soft_def split: if_splits)
    qed
    then show ?case using Cons.IH [of s1] Cons.prems st by (cases ok1) simp_all
  qed auto
qed

text \<open>The two passes over the layout and the soft kernels number the compute units without a gap.\<close>

lemma numbered_without_gap:
  assumes "ids \<union> ps = {0..<n :: int}" "0 \<le> n" "0 \<le> k"
  shows "nat ` ids \<union> nat ` ps \<union> {nat n..<nat (n + k)} = {0..<nat (n + k)}"
proof -
  have "nat ` ids \<union> nat ` ps = {0..<nat n}" using nat_image_range [OF assms(2)] assms(1) by (simp flip: image_Un)
  then show ?thesis using assms(2,3) by auto
qed

lemma laid_reset_load:
  assumes "laid d n (dev_at s d)" "d < length (m_devList s)" "0 < n" "n \<le> int XRM_MAX_XILINX_KERNELS"
  shows "only_dev d s (updateDeviceLoad (int d) 0 0 s) \<and> laid d n (dev_at (updateDeviceLoad (int d) 0 0 s) d) \<and>
    dv_memBuffer (dev_at (updateDeviceLoad (int d) 0 0 s) d) = dv_memBuffer (dev_at s d)"
proof -
  have n: "numCu (dev_at s d) = n" using assms(1) by (simp add: laid_def laying_def)
  then have "i32 (numCu (dev_at s d) * XRM_MAX_LOAD) \<noteq> 0" using assms(3,4) by (simp add: XRM_MAX_XILINX_KERNELS_def)
  then have e: "updateDeviceLoad (int d) 0 0 s = upd_dev d (\<lambda>dev. dev\<lparr>dv_devLoadInfo := (dv_devLoadInfo dev)\<lparr>
      li_devCurrentLoad := 0, li_devLoadRate := i32 (0 sdiv i32 (numCu (dev_at s d) * XRM_MAX_LOAD))\<rparr>\<rparr>) s"
    using assms(2) by (simp add: updateDeviceLoad_def Let_def)
  show ?thesis unfolding e using only_dev_upd [OF assms(2)] assms(1)
    by (simp add: laid_def laying_def cuList_def numCu_def)
qed

lemma layout_spec:
  assumes lay: "laying d n I (dev_at s d)" and d: "int d < m_numDevice s" "d < length (m_devList s)"
    and buf: "dv_memBuffer (dev_at s d) = Buffer b" and ok: "xclbin_ok x b"
    and run: "xclbinGetLayout x (int d) s = (r, s')"
  shows "only_dev d s s'" "\<exists>n I. laying d n I (dev_at s' d)" "dv_memBuffer (dev_at s' d) = Buffer b"
    "r = XRM_SUCCESS \<Longrightarrow> laid d (cu_count x b) (dev_at s' d) \<and> 0 < cu_count x b"
proof -
  obtain ips where ips: "axlf_ip_layout x b = Some ips" using ok by (auto simp: xclbin_ok_def split: option.splits)
  let ?h = "dv_deviceHandle (dev_at s d)" and ?nk = "kernel_count IP_KERNEL ips" and ?np = "kernel_count IP_PS_KERNEL ips"
  let ?sks = "axlf_soft_kernels x b"
  let ?ns = "soft_count ?sks"
  let ?ids = "set (layout_ids x ?h IP_KERNEL 0 0 ips)" and ?ps = "set (layout_ids x ?h IP_PS_KERNEL ?nk ?nk ips)"
  have fit: "0 < ?nk + ?np + ?ns" "?nk + ?np + ?ns \<le> int XRM_MAX_XILINX_KERNELS" "?ids \<union> ?ps = {0..<?nk + ?np}"
    using ok ips by (auto simp: xclbin_ok_def Let_def)
  have ns: "0 \<le> ?ns" unfolding soft_count_def by (rule sum_list_nonneg) auto
  let ?f = "\<lambda>xb. xb\<lparr>xb_numCu := 0, xb_numHardwareCu := 0, xb_numSoftwareCu := 0\<rparr>"
  let ?s0 = "set_xclbin (int d) ?f s"
  have s0: "only_dev d s ?s0" "dev_at ?s0 d = (dev_at s d)\<lparr>dv_xclbinInfo := ?f (dv_xclbinInfo (dev_at s d))\<rparr>"
    using only_dev_upd [OF d(2)] by (simp_all add: set_xclbin_def set_dev_def)
  have l0: "laying d 0 {} (dev_at ?s0 d)" using lay by (simp add: laying_def s0(2) cuList_def numCu_def)
  have dl0: "d < length (m_devList ?s0)" using d(2) only_dev_fields(3) [OF s0(1)] by simp
  have bounds: "\<forall>i\<in>?ids. 0 \<le> i \<and> i < int XRM_MAX_XILINX_KERNELS" "\<forall>i\<in>?ps. 0 \<le> i \<and> i < int XRM_MAX_XILINX_KERNELS"
  proof -
    have "0 \<le> i \<and> i < int XRM_MAX_XILINX_KERNELS" if "i \<in> ?ids \<union> ?ps" for i
      using that fit(2) ns unfolding fit(3) by auto
    then show "\<forall>i\<in>?ids. 0 \<le> i \<and> i < int XRM_MAX_XILINX_KERNELS" "\<forall>i\<in>?ps. 0 \<le> i \<and> i < int XRM_MAX_XILINX_KERNELS"
      by blast+
  qed
  obtain ok1 s1 where p1: "all_ok (layout_ip x (int d) IP_KERNEL) ips ?s0 = (ok1, s1)" by fastforce
  have h0: "dv_deviceHandle (dev_at ?s0 d) = ?h" by (simp add: s0(2))
  have "0 + ?nk \<le> int XRM_MAX_XILINX_KERNELS" using fit(2) ns by simp
  note A = layout_pass [OF l0 dl0 h0 _ this bounds(1) p1]
  have A: "only_dev d ?s0 s1" "dv_deviceHandle (dev_at s1 d) = ?h" "dv_memBuffer (dev_at s1 d) = Buffer b"
    "\<exists>n I. laying d n I (dev_at s1 d)"
    "ok1 \<Longrightarrow> laying d ?nk (nat ` ?ids) (dev_at s1 d) \<and> xb_numHardwareCu (dv_xclbinInfo (dev_at s1 d)) = ?nk"
    using A buf by (auto simp: s0(2))
  have o1: "only_dev d s s1" by (rule only_dev_trans [OF s0(1) A(1)])
  have dl1: "d < length (m_devList s1)" using d(2) only_dev_fields(3) [OF o1] by simp
  obtain ok2 s2 where p2: "all_ok (layout_ip x (int d) IP_PS_KERNEL) ips s1 = (ok2, s2)" by fastforce
  have B: "only_dev d s1 s2" "dv_memBuffer (dev_at s2 d) = Buffer b" "\<exists>n I. laying d n I (dev_at s2 d)"
    "ok2 \<Longrightarrow> laying d (?nk + ?np) (nat ` ?ids \<union> nat ` ?ps) (dev_at s2 d)" if "ok1"
  proof -
    have l: "laying d ?nk (nat ` ?ids) (dev_at s1 d)"
      "IP_PS_KERNEL \<noteq> IP_KERNEL \<longrightarrow> xb_numHardwareCu (dv_xclbinInfo (dev_at s1 d)) = ?nk" using A(5) [OF that] by simp_all
    have "?nk + ?np \<le> int XRM_MAX_XILINX_KERNELS" using fit(2) ns by simp
    note B = layout_pass [OF l(1) dl1 A(2) l(2) this bounds(2) p2]
    then show "only_dev d s1 s2" "dv_memBuffer (dev_at s2 d) = Buffer b" "\<exists>n I. laying d n I (dev_at s2 d)"
      "ok2 \<Longrightarrow> laying d (?nk + ?np) (nat ` ?ids \<union> nat ` ?ps) (dev_at s2 d)"
      using A(3) by auto
  qed
  obtain ok3 s3 where p3: "all_ok (layout_soft (int d)) ?sks s2 = (ok3, s3)" by fastforce
  have C: "ok3" "only_dev d s2 s3" "laid d (?nk + ?np + ?ns) (dev_at s3 d)"
    "dv_memBuffer (dev_at s3 d) = Buffer b" if "ok1" "ok2"
  proof -
    have dl2: "d < length (m_devList s2)" using dl1 only_dev_fields(3) [OF B(1)] that by simp
    have l: "laying d (?nk + ?np) (nat ` ?ids \<union> nat ` ?ps) (dev_at s2 d)" using B(4) that by simp
    have "?nk + ?np + (\<Sum>sk\<leftarrow>?sks. uint (sk_m_num_instances sk)) \<le> int XRM_MAX_XILINX_KERNELS"
      using fit(2) by (simp add: soft_count_def)
    note C = layout_softs [OF l dl2 this p3, folded soft_count_def]
    have "nat ` ?ids \<union> nat ` ?ps \<union> {nat (?nk + ?np)..<nat (?nk + ?np + ?ns)} = {0..<nat (?nk + ?np + ?ns)}"
      by (rule numbered_without_gap [OF fit(3) _ ns]) simp
    then show "ok3" "only_dev d s2 s3" "laid d (?nk + ?np + ?ns) (dev_at s3 d)"
      using C by (auto simp: laid_def)
    show "dv_memBuffer (dev_at s3 d) = Buffer b" using layout_softs_buffer [OF dl2 p3] B(2) that by simp
  qed
  let ?n = "?nk + ?np + ?ns"
  have D: "only_dev d s3 (updateDeviceLoad (int d) 0 0 s3) \<and> laid d ?n (dev_at (updateDeviceLoad (int d) 0 0 s3) d) \<and>
      dv_memBuffer (dev_at (updateDeviceLoad (int d) 0 0 s3) d) = Buffer b" if "ok1" "ok2"
  proof -
    have "d < length (m_devList s3)"
      using dl1 only_dev_fields(3) [OF B(1)] only_dev_fields(3) [OF C(2)] that by simp
    from laid_reset_load [OF C(3) [OF that] this fit(1,2)] C(4) [OF that] show ?thesis by simp
  qed
  have cnt: "cu_count x b = ?n" by (simp add: cu_count_def ips)
  have in_range: "in_range (int d) s" using d(1) by (simp add: in_range_def)
  have e: "xclbinGetLayout x (int d) s =
      (if \<not> ok1 then (XRM_ERROR, s1) else if \<not> ok2 then (XRM_ERROR, s2) else
       (if list_ex (\<lambda>ip. ip_m_type ip = IP_KERNEL \<or> ip_m_type ip = IP_PS_KERNEL) ips then XRM_SUCCESS else XRM_ERROR,
        updateDeviceLoad (int d) 0 0 s3))"
    using in_range C(1) buf by (simp add: xclbinGetLayout_def the_buffer_def ips p1 p2 p3)
  have oD: "only_dev d s (updateDeviceLoad (int d) 0 0 s3)" if "ok1" "ok2"
    using only_dev_trans [OF o1] only_dev_trans [OF B(1)] only_dev_trans [OF C(2)] D that by blast
  show "only_dev d s s'" "\<exists>n I. laying d n I (dev_at s' d)" "dv_memBuffer (dev_at s' d) = Buffer b"
    "r = XRM_SUCCESS \<Longrightarrow> laid d (cu_count x b) (dev_at s' d) \<and> 0 < cu_count x b"
    using run o1 A(3,4) only_dev_trans [OF o1 B(1)] B(2,3) oD D fit(1) unfolding e cnt
    by (auto simp: laid_def split: if_splits)
qed

text \<open>The sections of the xclbin that are read after the layout.\<close>

lemma get_uuid_step:
  assumes lay: "laying d n I (dev_at s d)" and d: "int d < m_numDevice s" "d < length (m_devList s)"
    and buf: "dv_memBuffer (dev_at s d) = Buffer b" and run: "xclbinGetUuid x (int d) s = (r, s')"
  shows "only_dev d s s' \<and> laying d n I (dev_at s' d) \<and> dv_memBuffer (dev_at s' d) = Buffer b"
proof -
  have "in_range (int d) s" "the_buffer (int d) s = b" using d(1) buf by (simp_all add: in_range_def the_buffer_def)
  then show ?thesis
    using run buf laying_set_xclbin [OF lay d(2), of "\<lambda>xb. xb\<lparr>xb_uuid := axlf_uuid x b,
      xb_uuidStr := binToHexstr (axlf_uuid x b) (xb_uuidStr xb)\<rparr>"]
    by (simp add: xclbinGetUuid_def Let_def)
qed

lemma get_memory_step:
  assumes lay: "laying d n I (dev_at s d)" and d: "int d < m_numDevice s" "d < length (m_devList s)"
    and buf: "dv_memBuffer (dev_at s d) = Buffer b" and ok: "xclbin_ok x b"
    and run: "xclbinGetMemTopology x (int d) s = (r, s')"
  shows "only_dev d s s' \<and> laying d n I (dev_at s' d) \<and> dv_memBuffer (dev_at s' d) = Buffer b"
proof -
  have r: "in_range (int d) s" "the_buffer (int d) s = b" using d(1) buf by (simp_all add: in_range_def the_buffer_def)
  let ?mem = "\<lambda>banks xb. xb\<lparr>xb_numMemBank := int (length banks),
      xb_memTopologyList := banks @ drop (length banks) (xb_memTopologyList xb)\<rparr>"
  show ?thesis
  proof (cases "axlf_mem_topology x b")
    case None
    with run r lay buf show ?thesis by (simp add: xclbinGetMemTopology_def)
  next
    case (Some banks)
    then have "s' = set_xclbin (int d) (?mem banks) s"
      using run r ok by (auto simp: xclbinGetMemTopology_def xclbin_ok_def Let_def)
    with laying_set_xclbin [OF lay d(2), of "?mem banks"] buf show ?thesis by simp
  qed
qed

lemma get_connectivity_step:
  assumes lay: "laying d n I (dev_at s d)" and d: "int d < m_numDevice s" "d < length (m_devList s)"
    and buf: "dv_memBuffer (dev_at s d) = Buffer b" and ok: "xclbin_ok x b"
    and run: "xclbinGetConnectivity x (int d) s = (r, s')"
  shows "only_dev d s s' \<and> laying d n I (dev_at s' d) \<and> dv_memBuffer (dev_at s' d) = Buffer b \<and>
    (\<forall>conn\<in>set (connections (dev_at s' d)). 0 \<le> cn_memDataIndex conn \<and> cn_memDataIndex conn < int XRM_MAX_DDR_MAP)"
proof -
  have r: "in_range (int d) s" "the_buffer (int d) s = b" using d(1) buf by (simp_all add: in_range_def the_buffer_def)
  let ?conn = "\<lambda>conns xb. xb\<lparr>xb_numConnect := int (length conns),
      xb_connectList := conns @ drop (length conns) (xb_connectList xb)\<rparr>"
  obtain conns where c: "axlf_connectivity x b = Some conns" "length conns \<le> XRM_MAX_CONNECTION_ENTRIES"
    "\<forall>conn\<in>set conns. 0 \<le> cn_memDataIndex conn \<and> cn_memDataIndex conn < int XRM_MAX_DDR_MAP"
    using ok by (auto simp: xclbin_ok_def split: option.splits)
  then have s': "s' = set_xclbin (int d) (?conn conns) s"
    using run r by (auto simp: xclbinGetConnectivity_def Let_def)
  have "connections (dev_at s' d) = map (\<lambda>i. (conns @ drop (length conns) (xb_connectList (dv_xclbinInfo (dev_at s d)))) ! i)
      [0..<length conns]"
    unfolding s' connections_def using only_dev_upd(2) [OF d(2)] by (simp add: set_xclbin_def set_dev_def)
  also have "\<dots> = conns" by (rule nth_equalityI) (simp_all add: nth_append)
  finally have "connections (dev_at s' d) = conns" .
  with laying_set_xclbin [OF lay d(2), of "?conn conns"] buf c(3) show ?thesis by (simp add: s')
qed

lemma get_keyvalues_step:
  assumes lay: "laying d n I (dev_at s d)" and d: "int d < m_numDevice s" "d < length (m_devList s)"
    and buf: "dv_memBuffer (dev_at s d) = Buffer b" and run: "xclbinGetKeyvalues x (int d) s = (r, s')"
  shows "only_dev d s s' \<and> laying d n I (dev_at s' d) \<and> dv_memBuffer (dev_at s' d) = Buffer b \<and>
    connections (dev_at s' d) = connections (dev_at s d)"
proof -
  have r: "in_range (int d) s" "the_buffer (int d) s = b" using d(1) buf by (simp_all add: in_range_def the_buffer_def)
  let ?step = "\<lambda>kv s. if kv_key kv = [] then s else upd_all_cus (int d) (key_value_cu kv) s"
  have "only_dev d s (fold ?step kvs s) \<and> laying d n I (dev_at (fold ?step kvs s) d) \<and>
      dv_memBuffer (dev_at (fold ?step kvs s) d) = Buffer b \<and>
      connections (dev_at (fold ?step kvs s) d) = connections (dev_at s d)" for kvs
    using lay d(2) buf
  proof (induction kvs arbitrary: s)
    case (Cons kv kvs)
    define t where "t = ?step kv s"
    have st: "only_dev d s t \<and> laying d n I (dev_at t d) \<and>
        dv_memBuffer (dev_at t d) = Buffer b \<and> connections (dev_at t d) = connections (dev_at s d)"
      using laying_upd_all [OF Cons.prems(1,2) key_value_acct] Cons.prems by (simp add: t_def)
    then have dl: "d < length (m_devList t)" using only_dev_fields(3) Cons.prems(2) by metis
    have IH: "only_dev d t (fold ?step kvs t) \<and> laying d n I (dev_at (fold ?step kvs t) d) \<and>
        dv_memBuffer (dev_at (fold ?step kvs t) d) = Buffer b \<and>
        connections (dev_at (fold ?step kvs t) d) = connections (dev_at t d)"
      using st dl by (intro Cons.IH) blast+
    have "fold ?step (kv # kvs) s = fold ?step kvs t" by (simp add: t_def)
    then show ?case using IH st only_dev_trans [of d s t "fold ?step kvs t"] by (simp only: simp_thms)
  qed simp
  then show ?thesis using run r lay buf by (auto simp: xclbinGetKeyvalues_def split: option.splits)
qed

lemma get_info_spec:
  assumes lay: "laying d n I (dev_at s d)" and d: "int d < m_numDevice s" "d < length (m_devList s)"
    and buf: "dv_memBuffer (dev_at s d) = Buffer b" and ok: "xclbin_ok x b"
    and run: "xclbinGetInfo x (int d) s = (r, s')"
  shows "only_dev d s s' \<and> (\<exists>n I. laying d n I (dev_at s' d)) \<and>
    (r = XRM_SUCCESS \<longrightarrow> laid d (cu_count x b) (dev_at s' d) \<and> 0 < cu_count x b)"
proof -
  have range: "in_range (int d) s" using d(1) by (simp add: in_range_def)
  obtain r1 s1 where e1: "xclbinGetLayout x (int d) s = (r1, s1)" by fastforce
  note L1 = layout_spec [OF lay d buf ok e1]
  have f1: "int d < m_numDevice s1" "d < length (m_devList s1)" using d only_dev_fields(1,3) [OF L1(1)] by simp_all
  show ?thesis
  proof (cases "r1 = XRM_SUCCESS")
    case False
    with run e1 range L1 show ?thesis by (auto simp: xclbinGetInfo_def)
  next
    case True
    have l1: "laying d (cu_count x b) {0..<nat (cu_count x b)} (dev_at s1 d)" and pos: "0 < cu_count x b"
      using L1(4) True by (simp_all add: laid_def)
    obtain r2 s2 where e2: "xclbinGetUuid x (int d) s1 = (r2, s2)" by fastforce
    note I2 = get_uuid_step [OF l1 f1 L1(3) e2]
    have L2: "only_dev d s s2" "laying d (cu_count x b) {0..<nat (cu_count x b)} (dev_at s2 d)"
      "dv_memBuffer (dev_at s2 d) = Buffer b" using I2 only_dev_trans [OF L1(1), of s2] by simp_all
    have f2: "int d < m_numDevice s2" "d < length (m_devList s2)" using d only_dev_fields(1,3) [OF L2(1)] by simp_all
    obtain r3 s3 where e3: "xclbinGetMemTopology x (int d) s2 = (r3, s3)" by fastforce
    note I3 = get_memory_step [OF L2(2) f2 L2(3) ok e3]
    have L3: "only_dev d s s3" "laying d (cu_count x b) {0..<nat (cu_count x b)} (dev_at s3 d)"
      "dv_memBuffer (dev_at s3 d) = Buffer b" using I3 only_dev_trans [OF L2(1), of s3] by simp_all
    have f3: "int d < m_numDevice s3" "d < length (m_devList s3)" using d only_dev_fields(1,3) [OF L3(1)] by simp_all
    obtain r4 s4 where e4: "xclbinGetConnectivity x (int d) s3 = (r4, s4)" by fastforce
    note I4 = get_connectivity_step [OF L3(2) f3 L3(3) ok e4]
    have L4: "only_dev d s s4" "laying d (cu_count x b) {0..<nat (cu_count x b)} (dev_at s4 d)"
      "dv_memBuffer (dev_at s4 d) = Buffer b" using I4 only_dev_trans [OF L3(1), of s4] by simp_all
    have f4: "int d < m_numDevice s4" "d < length (m_devList s4)" using d only_dev_fields(1,3) [OF L4(1)] by simp_all
    obtain r5 s5 where e5: "xclbinGetKeyvalues x (int d) s4 = (r5, s5)" by fastforce
    note I5 = get_keyvalues_step [OF L4(2) f4 L4(3) e5]
    have L5: "only_dev d s s5" "laying d (cu_count x b) {0..<nat (cu_count x b)} (dev_at s5 d)"
      using I5 only_dev_trans [OF L4(1), of s5] by simp_all
    have f5: "d < length (m_devList s5)" using d only_dev_fields(3) [OF L5(1)] by simp
    let ?xb = "dv_xclbinInfo (dev_at s5 d)" and ?conns = "connections (dev_at s5 d)"
    have good: "\<not> list_ex (bad_connection (dev_at s5 d)) ?conns"
    proof -
      have "\<forall>conn\<in>set ?conns. 0 \<le> cn_memDataIndex conn \<and> cn_memDataIndex conn < int XRM_MAX_DDR_MAP"
        using I4 I5 by simp
      then show ?thesis unfolding list_ex_iff bad_connection_def by fastforce
    qed
    have e: "xclbinGetInfo x (int d) s =
        (if r2 \<noteq> XRM_SUCCESS then (XRM_ERROR, s2) else if r3 \<noteq> XRM_SUCCESS then (XRM_ERROR, s3)
         else if r4 \<noteq> XRM_SUCCESS then (XRM_ERROR, s4) else if r5 \<noteq> XRM_SUCCESS then (XRM_ERROR, s5)
         else (XRM_SUCCESS, upd_all_cus (int d) (\<lambda>cu. fold (connect_cu ?xb) ?conns cu) s5))"
      using good
      by (simp only: xclbinGetInfo_def range e1 True e2 e3 e4 e5 nat_int prod.case simp_thms if_True if_False
          Let_def connections_def [symmetric])
    have L6: "only_dev d s (upd_all_cus (int d) (\<lambda>cu. fold (connect_cu ?xb) ?conns cu) s5)"
      "laying d (cu_count x b) {0..<nat (cu_count x b)}
        (dev_at (upd_all_cus (int d) (\<lambda>cu. fold (connect_cu ?xb) ?conns cu) s5) d)"
      using laying_upd_all [OF L5(2) f5 connect_acct [of _ ?xb ?conns]]
        only_dev_trans [OF L5(1), of "upd_all_cus (int d) (\<lambda>cu. fold (connect_cu ?xb) ?conns cu) s5"] by simp_all
    have alt: "s' = s2 \<or> s' = s3 \<or> s' = s4 \<or> s' = s5 \<or> s' = upd_all_cus (int d) (\<lambda>cu. fold (connect_cu ?xb) ?conns cu) s5"
      "r = XRM_SUCCESS \<Longrightarrow> s' = upd_all_cus (int d) (\<lambda>cu. fold (connect_cu ?xb) ?conns cu) s5"
      using run unfolding e by (auto split: if_splits)
    have "only_dev d s s' \<and> laying d (cu_count x b) {0..<nat (cu_count x b)} (dev_at s' d)"
      using alt(1) by (elim disjE) (simp_all only: L2 L3 L4 L5 L6 simp_thms)
    with pos show ?thesis by (auto simp: laid_def)
  qed
qed

end
