(* ===== verification/Xrm_Load_Inv.thy ===== *)
theory Xrm_Load_Inv
  imports Xrm_Layout_Inv
begin

text \<open>
  Loading, unloading, enabling and disabling devices keep the system invariant and every grant
  (\<open>dev_step\<close>), for a driver that keeps the promises of \<open>driver_ok\<close>: a file that opens is read in
  full, and what an xclbin declares fits the tables of the daemon. A load that succeeds leaves the device
  loaded with the xclbin asked for and idle.
\<close>

section \<open>Clearing a device\<close>

lemma flush_inv:
  assumes "length (cuList dev) = XRM_MAX_XILINX_KERNELS"
  shows "dev_inv d (flush_dev devId dev)" "numCu (flush_dev devId dev) = 0" "\<not> dv_isLoaded (flush_dev devId dev)"
  using assms by (auto simp: dev_inv_def flush_dev_def flush_xclbin_def flush_cu_def blank_slot_def numCu_def cuList_def)

lemma dev_inv_cong:
  assumes "dev_inv d dev" "dv_xclbinInfo dev' = dv_xclbinInfo dev" "dv_isLoaded dev' = dv_isLoaded dev"
    "dv_clientProcs dev' = dv_clientProcs dev" "dv_memBuffer dev' \<noteq> Freed"
  shows "dev_inv d dev'"
  using assms by (simp add: dev_inv_def numCu_def cuList_def)

lemma clear_spec:
  assumes d: "int d < m_numDevice s" "d < length (m_devList s)"
    and len: "length (cuList (dev_at s d)) = XRM_MAX_XILINX_KERNELS" "numCu (dev_at s d) \<le> int XRM_MAX_XILINX_KERNELS"
    and buf: "dv_memBuffer (dev_at s d) \<noteq> Freed" and busy: "\<not> isDeviceBusy (int d) s"
    and run: "deviceClearInfo (int d) s = (ok, s')"
  shows "ok" "only_dev d s s'" "dev_inv d (dev_at s' d)" "numCu (dev_at s' d) = 0"
    "dv_isDisabled (dev_at s' d) = dv_isDisabled (dev_at s d)"
proof -
  let ?dev = "dev_at s d"
  let ?s1 = "free_buffer (int d) s"
  have s1: "only_dev d s ?s1" "dev_at ?s1 d = ?dev\<lparr>dv_memBuffer := NoBuffer\<rparr>"
    using buf only_dev_upd [OF d(2)] by (auto simp: free_buffer_def set_dev_def split: buffer.splits)
  have d1: "in_range (int d) ?s1" "d < length (m_devList ?s1)"
    using d only_dev_fields(1,3) [OF s1(1)] by (simp_all add: in_range_def)
  let ?s2 = "flushDevData (int d) ?s1"
  have s2: "only_dev d ?s1 ?s2" "dev_at ?s2 d = flush_dev (int d) (dev_at ?s1 d)"
    using only_dev_upd [OF d1(2)] d1(1) by (simp_all add: flushDevData_def set_dev_def)
  have l1: "length (cuList (dev_at ?s1 d)) = XRM_MAX_XILINX_KERNELS" using len(1) by (simp add: s1(2) cuList_def)
  have d2: "d < length (m_devList ?s2)" using d1(2) only_dev_fields(3) [OF s2(1)] by simp
  let ?g = "\<lambda>new. new\<lparr>dv_devId := int d, dv_dsaName := dv_dsaName ?dev,
      dv_deviceHandle := dv_deviceHandle ?dev, dv_deviceInfo := dv_deviceInfo ?dev\<rparr>"
  let ?s3 = "set_dev (int d) ?g ?s2"
  have s3: "only_dev d ?s2 ?s3" "dev_at ?s3 d = ?g (dev_at ?s2 d)"
    using only_dev_upd [OF d2] by (simp_all add: set_dev_def)
  have "deviceClearInfo (int d) s = (True, ?s3)"
    using d(1) len busy by (simp add: deviceClearInfo_def Let_def in_range_def)
  then have r: "ok" "s' = ?s3" using run by simp_all
  show "ok" by (rule r(1))
  show "only_dev d s s'" unfolding r(2) by (rule only_dev_trans [OF only_dev_trans [OF s1(1) s2(1)] s3(1)])
  have fl: "dev_inv d (dev_at ?s2 d)" "numCu (dev_at ?s2 d) = 0" unfolding s2(2) using flush_inv [OF l1] by blast+
  show "dev_inv d (dev_at s' d)" unfolding r(2) s3(2)
    by (rule dev_inv_cong [OF fl(1)]) (simp_all add: s2(2) flush_dev_def)
  show "numCu (dev_at s' d) = 0" using fl(2) by (simp add: r(2) s3(2) numCu_def)
  show "dv_isDisabled (dev_at s' d) = dv_isDisabled (dev_at s d)"
    by (simp add: r(2) s3(2) s2(2) flush_dev_def s1(2))
qed

lemma laying_not_busy: "laying d n I (dev_at s d) \<Longrightarrow> \<not> isDeviceBusy (int d) s"
  by (auto simp: isDeviceBusy_def list_ex_iff laying_def blank_slot_def cu_at_def)

lemma laying_clear:
  assumes "laying d n I (dev_at s d)" "int d < m_numDevice s" "d < length (m_devList s)"
    and "deviceClearInfo (int d) s = (ok, s')"
  shows "only_dev d s s' \<and> dev_inv d (dev_at s' d) \<and> numCu (dev_at s' d) = 0"
  using clear_spec [OF assms(2,3) _ _ _ laying_not_busy [OF assms(1)] assms(4)] assms(1) by (simp add: laying_def)

text \<open>A loaded device none of whose compute units is in use has no grants, and an unloaded one has none either.\<close>

lemma not_busy_idle: "sys_inv s \<Longrightarrow> int d < m_numDevice s \<Longrightarrow> \<not> isDeviceBusy (int d) s \<Longrightarrow> idle_dev (dev_at s d)"
  by (auto simp: isDeviceBusy_def idle_dev_def list_ex_iff cu_at_def)

lemma no_cu_idle: "numCu dev = 0 \<Longrightarrow> idle_dev dev"
  by (simp add: idle_dev_def)

section \<open>Loading\<close>

lemma open_spec:
  assumes "int d < m_numDevice s" "d < length (m_devList s)" "openDevice x (int d) s = (ret, s')"
  shows "only_dev d s s'" "dv_xclbinInfo (dev_at s' d) = dv_xclbinInfo (dev_at s d)"
    "dv_isLoaded (dev_at s' d) = dv_isLoaded (dev_at s d)" "dv_clientProcs (dev_at s' d) = dv_clientProcs (dev_at s d)"
    "dv_memBuffer (dev_at s' d) = dv_memBuffer (dev_at s d)" "dv_isDisabled (dev_at s' d) = dv_isDisabled (dev_at s d)"
proof -
  obtain r info where info: "xclGetDeviceInfo2 x (xclOpen x (int d)) = (r, info)" by fastforce
  let ?f = "\<lambda>dev. dev\<lparr>dv_deviceHandle := xclOpen x (int d), dv_deviceInfo := info\<rparr>"
  let ?s1 = "upd_dev d ?f s"
  have alt: "s' = ?s1 \<or> s' = upd_dev d (\<lambda>dev. dev\<lparr>dv_dsaName := di_mName info\<rparr>) ?s1"
    using assms(1,3) info by (auto simp: openDevice_def in_range_def set_dev_def Let_def split: if_splits)
  have o1: "only_dev d s ?s1" "dev_at ?s1 d = ?f (dev_at s d)" using only_dev_upd [OF assms(2)] by simp_all
  have dl: "d < length (m_devList ?s1)" using assms(2) by simp
  note o2 = only_dev_upd [OF dl, of "\<lambda>dev. dev\<lparr>dv_dsaName := di_mName info\<rparr>"]
  show "only_dev d s s'" using alt o1(1) only_dev_trans [OF o1(1) o2(1)] by (elim disjE) (simp_all only:)
  show "dv_xclbinInfo (dev_at s' d) = dv_xclbinInfo (dev_at s d)"
    "dv_isLoaded (dev_at s' d) = dv_isLoaded (dev_at s d)" "dv_clientProcs (dev_at s' d) = dv_clientProcs (dev_at s d)"
    "dv_memBuffer (dev_at s' d) = dv_memBuffer (dev_at s d)" "dv_isDisabled (dev_at s' d) = dv_isDisabled (dev_at s d)"
    using alt o1(2) o2(2) by auto
qed

lemma unloaded_laying:
  assumes "dev_inv d dev" "\<not> dv_isLoaded dev"
  shows "laying d 0 {} dev"
  using assms by (simp add: dev_inv_def laying_def)

lemma laid_loaded:
  assumes "laid d n dev" "0 < n" "dv_xclbinInfo dev' = dv_xclbinInfo dev" "dv_isLoaded dev'"
    "dv_clientProcs dev' = dv_clientProcs dev" "dv_memBuffer dev' = NoBuffer"
  shows "dev_inv d dev'" "idle_dev dev'" "numCu dev' = n"
proof -
  have l: "laying d n {0..<nat n} dev" using assms(1) by (simp add: laid_def)
  show "dev_inv d dev'" using l assms(2-6) by (auto simp: laying_def dev_inv_def numCu_def cuList_def)
  show "numCu dev' = n" using l assms(3) by (simp add: laying_def numCu_def)
  show "idle_dev dev'" using l assms(3) by (auto simp: laying_def idle_dev_def blank_slot_def numCu_def cuList_def)
qed

lemma load_steps_spec:
  assumes lay: "laying d 0 {} (dev_at s d)" and d: "int d < m_numDevice s" "d < length (m_devList s)"
    and drv: "driver_ok x" and run: "load_steps x (int d) xclbin s = (ok, s')"
  shows "only_dev d s s'" "\<exists>n I. laying d n I (dev_at s' d)"
    "ok \<Longrightarrow> \<exists>b. read_file x xclbin = FileData b \<and> laid d (cu_count x b) (dev_at s' d) \<and> 0 < cu_count x b"
proof -
  have range: "in_range (int d) s" using d(1) by (simp add: in_range_def)
  have all: "only_dev d s s' \<and> (\<exists>n I. laying d n I (dev_at s' d)) \<and>
    (ok \<longrightarrow> (\<exists>b. read_file x xclbin = FileData b \<and> laid d (cu_count x b) (dev_at s' d) \<and> 0 < cu_count x b))"
  proof (cases "read_file x xclbin")
    case CannotOpen
    then have "s' = s" "\<not> ok" using run range by (simp_all add: load_steps_def xclbinReadFile_def)
    with lay show ?thesis by auto
  next
    case CannotRead
    with drv show ?thesis by (simp add: driver_ok_def)
  next
    case CannotAlloc
    then have s': "s' = upd_dev d (\<lambda>dev. dev\<lparr>dv_memBuffer := NoBuffer\<rparr>) s" "\<not> ok"
      using run range by (simp_all add: load_steps_def xclbinReadFile_def set_dev_def)
    have "laying d 0 {} (dev_at s' d)" unfolding s'(1) only_dev_upd(2) [OF d(2)]
      by (rule laying_cong [OF lay]) (simp_all add: cuList_def numCu_def)
    with only_dev_upd(1) [OF d(2)] s' show ?thesis by auto
  next
    case (FileData b)
    let ?s1 = "upd_dev d (\<lambda>dev. dev\<lparr>dv_memBuffer := Buffer b\<rparr>) s"
    have ok: "xclbin_ok x b" using drv FileData by (simp add: driver_ok_def)
    have o1: "only_dev d s ?s1" "dev_at ?s1 d = (dev_at s d)\<lparr>dv_memBuffer := Buffer b\<rparr>"
      using only_dev_upd [OF d(2)] by simp_all
    have l1: "laying d 0 {} (dev_at ?s1 d)" unfolding o1(2)
      by (rule laying_cong [OF lay]) (simp_all add: cuList_def numCu_def)
    have rd: "xclbinReadFile x (int d) xclbin s = (XRM_SUCCESS, ?s1)"
      using range FileData by (simp add: xclbinReadFile_def set_dev_def)
    obtain r2 where ld: "xclbinLoadToDevice x (int d) ?s1 = (r2, ?s1)"
    proof -
      have "snd (xclbinLoadToDevice x (int d) ?s1) = ?s1" by (simp add: xclbinLoadToDevice_def Let_def)
      then show ?thesis using that by (metis prod.collapse)
    qed
    have d1: "int d < m_numDevice ?s1" "d < length (m_devList ?s1)" using d by simp_all
    show ?thesis
    proof (cases "r2 = XRM_SUCCESS")
      case False
      then have "s' = ?s1" "\<not> ok" using run rd ld by (simp_all add: load_steps_def)
      with o1(1) l1 show ?thesis by auto
    next
      case True
      obtain r3 s3 where e3: "xclbinGetInfo x (int d) ?s1 = (r3, s3)" by fastforce
      have buf: "dv_memBuffer (dev_at ?s1 d) = Buffer b" by (simp add: o1(2))
      note I = get_info_spec [OF l1 d1 buf ok e3]
      have s': "s' = s3" "ok \<Longrightarrow> r3 = XRM_SUCCESS"
        using run rd ld e3 True by (auto simp: load_steps_def split: if_splits)
      with I only_dev_trans [OF o1(1)] FileData show ?thesis by auto
    qed
  qed
  then show "only_dev d s s'" "\<exists>n I. laying d n I (dev_at s' d)"
    "ok \<Longrightarrow> \<exists>b. read_file x xclbin = FileData b \<and> laid d (cu_count x b) (dev_at s' d) \<and> 0 < cu_count x b"
    by blast+
qed

text \<open>
  A step of the device life cycle: the invariant and every grant stay, and so does the number of devices once it
  is known.
\<close>

definition dev_step :: "system \<Rightarrow> system \<Rightarrow> bool" where
  "dev_step s s' \<longleftrightarrow> sys_inv s' \<and> grants s' = grants s \<and>
     (m_devicesInited s \<longrightarrow> m_numDevice s' = m_numDevice s \<and> m_devicesInited s')"

lemma dev_step_refl: "sys_inv s \<Longrightarrow> dev_step s s"
  by (simp add: dev_step_def)

lemma dev_step_trans: "dev_step s t \<Longrightarrow> dev_step t u \<Longrightarrow> dev_step s u"
  by (simp add: dev_step_def)

lemma dev_stepI:
  assumes "sys_inv s" "only_dev d s s'" "int d < m_numDevice s" "dev_inv d (dev_at s' d)"
    and "idle_dev (dev_at s d)" "idle_dev (dev_at s' d)"
  shows "dev_step s s'"
  using only_dev_sys_inv [OF assms(1-4)] only_dev_grants [OF assms(1) _ assms(2,5,6)] only_dev_fields(1,4) [OF assms(2)]
  by (simp add: dev_step_def)

lemma unloaded_idle: "sys_inv s \<Longrightarrow> int d < m_numDevice s \<Longrightarrow> \<not> dv_isLoaded (dev_at s d) \<Longrightarrow> idle_dev (dev_at s d)"
  using sys_inv_dev [of s d] by (auto simp: dev_inv_def intro!: no_cu_idle)

text \<open>An unloaded device is opened when it has no handle, and is then ready to be laid out.\<close>

lemma opened_laying:
  fixes x :: xrt
  assumes inv: "sys_inv s" and d: "int d < m_numDevice s" and un: "\<not> dv_isLoaded (dev_at s d)"
  defines "s0 \<equiv> if dv_deviceHandle (dev_at s d) = 0 then snd (openDevice x (int d) s) else s"
  shows "only_dev d s s0 \<and> laying d 0 {} (dev_at s0 d)"
proof -
  have di: "dev_inv d (dev_at s d)" and dl: "d < length (m_devList s)" using sys_inv_dev [OF inv d] by simp_all
  show ?thesis
  proof (cases "dv_deviceHandle (dev_at s d) = 0")
    case True
    obtain r t where o: "openDevice x (int d) s = (r, t)" by fastforce
    note O = open_spec [OF d dl o]
    have "laying d 0 {} (dev_at t d)"
      by (rule laying_cong [OF unloaded_laying [OF di]])
        (use un O di in \<open>auto simp: cuList_def numCu_def dev_inv_def\<close>)
    with O(1) o True show ?thesis by (simp add: s0_def)
  next
    case False
    with unloaded_laying [OF di] un show ?thesis by (simp add: s0_def)
  qed
qed

text \<open>When the steps of the load succeeded the buffer is freed and the device is marked as loaded.\<close>

lemma load_finished:
  assumes laid: "laid d n (dev_at s d)" "0 < n" and d: "int d < m_numDevice s" "d < length (m_devList s)"
    and s': "s' = set_dev (int d) (\<lambda>dev. dev\<lparr>dv_xclbinName := xclbin, dv_isLoaded := True\<rparr>) (snd (deviceFreeBuffer (int d) s))"
  shows "only_dev d s s'" "dv_isLoaded (dev_at s' d) \<and> dv_xclbinName (dev_at s' d) = xclbin"
    "dev_inv d (dev_at s' d)" "idle_dev (dev_at s' d)" "numCu (dev_at s' d) = n"
proof -
  have nf: "dv_memBuffer (dev_at s d) \<noteq> Freed" using laid(1) by (simp add: laid_def laying_def)
  let ?t = "free_buffer (int d) s"
  have t: "only_dev d s ?t" "dev_at ?t d = (dev_at s d)\<lparr>dv_memBuffer := NoBuffer\<rparr>"
    using nf only_dev_upd [OF d(2)] by (auto simp: free_buffer_def set_dev_def split: buffer.splits)
  have dt: "d < length (m_devList ?t)" using d(2) only_dev_fields(3) [OF t(1)] by simp
  have u: "s' = upd_dev d (\<lambda>dev. dev\<lparr>dv_xclbinName := xclbin, dv_isLoaded := True\<rparr>) ?t"
    using d(1) by (simp add: s' deviceFreeBuffer_def in_range_def set_dev_def)
  have at: "dev_at s' d = (dev_at s d)\<lparr>dv_memBuffer := NoBuffer, dv_xclbinName := xclbin, dv_isLoaded := True\<rparr>"
    unfolding u only_dev_upd(2) [OF dt] t(2) by simp
  show "only_dev d s s'" using only_dev_trans [OF t(1) only_dev_upd(1) [OF dt]] u by simp
  show "dv_isLoaded (dev_at s' d) \<and> dv_xclbinName (dev_at s' d) = xclbin" by (simp add: at)
  show "dev_inv d (dev_at s' d)" "idle_dev (dev_at s' d)" "numCu (dev_at s' d) = n"
    using laid_loaded [OF laid, of "dev_at s' d"] at by simp_all
qed

lemma deviceLoadXclbin_spec:
  assumes inv: "sys_inv s" and drv: "driver_ok x" and d: "int d < m_numDevice s"
    and run: "deviceLoadXclbin x (int d) xclbin s = (ret, s')"
  shows "dev_step s s'" "only_dev d s s'"
    "ret = XRM_SUCCESS \<Longrightarrow> dv_isLoaded (dev_at s' d)"
    "dv_isLoaded (dev_at s d) \<Longrightarrow> s' = s"
    "ret = XRM_SUCCESS \<Longrightarrow> \<not> dv_isLoaded (dev_at s d) \<Longrightarrow> idle_dev (dev_at s' d) \<and>
       dv_xclbinName (dev_at s' d) = xclbin \<and> (\<exists>b. read_file x xclbin = FileData b \<and> numCu (dev_at s' d) = cu_count x b)"
proof -
  have dl: "d < length (m_devList s)" using sys_inv_dev [OF inv d] by simp
  have range: "in_range (int d) s" using d by (simp add: in_range_def)
  have all: "dev_step s s' \<and> only_dev d s s' \<and> (ret = XRM_SUCCESS \<longrightarrow> dv_isLoaded (dev_at s' d)) \<and>
        (dv_isLoaded (dev_at s d) \<longrightarrow> s' = s) \<and> (ret = XRM_SUCCESS \<longrightarrow> \<not> dv_isLoaded (dev_at s d) \<longrightarrow>
          idle_dev (dev_at s' d) \<and> dv_xclbinName (dev_at s' d) = xclbin \<and>
          (\<exists>b. read_file x xclbin = FileData b \<and> numCu (dev_at s' d) = cu_count x b))"
  proof (cases "dv_isDisabled (dev_at s d) \<or> dv_isLoaded (dev_at s d)")
    case True
    then have "s' = s" "ret = XRM_SUCCESS \<longrightarrow> dv_isLoaded (dev_at s d)"
      using run range by (auto simp: deviceLoadXclbin_def Let_def split: if_splits option.splits)
    then show ?thesis using dev_step_refl [OF inv] by auto
  next
    case False
    define s0 where "s0 = (if dv_deviceHandle (dev_at s d) = 0 then snd (openDevice x (int d) s) else s)"
    have s0: "only_dev d s s0 \<and> laying d 0 {} (dev_at s0 d)"
      using opened_laying [OF inv d, of x] False unfolding s0_def by blast
    have d0: "int d < m_numDevice s0" "d < length (m_devList s0)"
      using d dl only_dev_fields(1,3) [of d s s0] s0 by simp_all
    obtain ok s1 where ls: "load_steps x (int d) xclbin s0 = (ok, s1)" by fastforce
    note L = load_steps_spec [OF conjunct2 [OF s0] d0 drv ls]
    have o1: "only_dev d s s1" using only_dev_trans s0 L(1) by blast
    have d1: "int d < m_numDevice s1" "d < length (m_devList s1)" using d dl only_dev_fields(1,3) [OF o1] by simp_all
    have idle: "idle_dev (dev_at s d)" using unloaded_idle [OF inv d] False by simp
    have e: "deviceLoadXclbin x (int d) xclbin s =
        (if \<not> ok then (XRM_ERROR, snd (deviceClearInfo (int d) s1))
         else (XRM_SUCCESS, set_dev (int d) (\<lambda>dev. dev\<lparr>dv_xclbinName := xclbin, dv_isLoaded := True\<rparr>)
                 (snd (deviceFreeBuffer (int d) s1))))"
      using False range ls by (simp add: deviceLoadXclbin_def Let_def s0_def)
    show ?thesis
    proof (cases ok)
      case no: False
      obtain b t where c: "deviceClearInfo (int d) s1 = (b, t)" by fastforce
      obtain n I where "laying d n I (dev_at s1 d)" using L(2) by blast
      note C = laying_clear [OF this d1 c]
      have r: "ret = XRM_ERROR" "s' = t" using run no c unfolding e by simp_all
      have o: "only_dev d s s'" using only_dev_trans [OF o1] C r(2) by blast
      have i: "idle_dev (dev_at s' d)" using C r(2) by (auto intro: no_cu_idle)
      have "dev_inv d (dev_at s' d)" using C r(2) by simp
      from dev_stepI [OF inv o d this idle i] o r(1) False show ?thesis by simp
    next
      case yes: True
      obtain b where b: "read_file x xclbin = FileData b" "laid d (cu_count x b) (dev_at s1 d)" "0 < cu_count x b"
        using L(3) yes by blast
      have r: "ret = XRM_SUCCESS" "s' = set_dev (int d) (\<lambda>dev. dev\<lparr>dv_xclbinName := xclbin, dv_isLoaded := True\<rparr>)
          (snd (deviceFreeBuffer (int d) s1))" using run yes unfolding e by simp_all
      note F = load_finished [OF b(2,3) d1 r(2)]
      have o: "only_dev d s s'" by (rule only_dev_trans [OF o1 F(1)])
      from dev_stepI [OF inv o d F(3) idle F(4)] o F b(1) False show ?thesis by simp
    qed
  qed
  show "dev_step s s'" "only_dev d s s'"
    "ret = XRM_SUCCESS \<Longrightarrow> dv_isLoaded (dev_at s' d)" "dv_isLoaded (dev_at s d) \<Longrightarrow> s' = s"
    "ret = XRM_SUCCESS \<Longrightarrow> \<not> dv_isLoaded (dev_at s d) \<Longrightarrow> idle_dev (dev_at s' d) \<and>
       dv_xclbinName (dev_at s' d) = xclbin \<and> (\<exists>b. read_file x xclbin = FileData b \<and> numCu (dev_at s' d) = cu_count x b)"
    using all by blast+
qed

lemma deviceLoadXclbin_out: "\<not> in_range devId s \<Longrightarrow> deviceLoadXclbin x devId xclbin s = (XRM_ERROR_INVALID, s)"
  by (simp add: deviceLoadXclbin_def Let_def)

lemma deviceLoadXclbin_step:
  assumes "sys_inv s" "driver_ok x"
  shows "dev_step s (snd (deviceLoadXclbin x devId xclbin s))"
proof (cases "in_range devId s")
  case False
  with dev_step_refl [OF assms(1)] show ?thesis by (simp add: deviceLoadXclbin_out)
next
  case True
  then have e: "devId = int (nat devId)" "int (nat devId) < m_numDevice s" by (auto simp: in_range_def)
  show ?thesis using deviceLoadXclbin_spec(1) [OF assms e(2) prod.collapse [symmetric]] e(1) by simp
qed

section \<open>The other operations on devices\<close>

lemma init_devices_inited [simp]: "m_devicesInited (initDevices x s)"
proof -
  have "m_devicesInited (fold (\<lambda>d s. snd (openDevice x (int d) (set_dev (int d) (f d) (flushDevData (int d) s)))) ds t)"
    if "m_devicesInited t" for f ds t
    using that
    by (induction ds arbitrary: t) (auto simp: openDevice_def flushDevData_def set_dev_def Let_def split: prod.splits)
  then show ?thesis by (simp add: initDevices_def Let_def)
qed

lemma init_devices_id: "m_devicesInited s \<Longrightarrow> initDevices x s = s"
  by (simp add: initDevices_def)

text \<open>The first call of \<open>initDevices\<close> clears every device the driver reports, one after the other.\<close>

definition init_one :: "xrt \<Rightarrow> nat \<Rightarrow> system \<Rightarrow> system" where
  "init_one x d s = snd (openDevice x (int d) (set_dev (int d) (\<lambda>dev. dev\<lparr>dv_devId := int d, dv_isDisabled := False,
      dv_devLoadInfo := (dv_devLoadInfo dev)\<lparr>li_deviceId := int d, li_devLoadRate := 0, li_devCurrentLoad := 0\<rparr>\<rparr>)
      (flushDevData (int d) s)))"

definition inited_to :: "xrt \<Rightarrow> nat \<Rightarrow> system \<Rightarrow> bool" where
  "inited_to x k t \<longleftrightarrow> length (m_devList t) = XRM_MAX_XILINX_DEVICES \<and> m_numDevice t = xclProbe x \<and>
     \<not> m_fault t \<and> (\<forall>d<XRM_MAX_XILINX_DEVICES. length (cuList (dev_at t d)) = XRM_MAX_XILINX_KERNELS) \<and>
     (\<forall>d<k. dev_inv d (dev_at t d) \<and> numCu (dev_at t d) = 0) \<and> m_devicesInited t"

lemma init_one_step:
  assumes g: "inited_to x k t" and k: "int k < xclProbe x" and max: "xclProbe x \<le> int XRM_MAX_XILINX_DEVICES"
  shows "inited_to x (Suc k) (init_one x k t)"
proof -
  have k': "int k < m_numDevice t" "k < length (m_devList t)" "in_range (int k) t" "k < XRM_MAX_XILINX_DEVICES"
    using g k max by (auto simp: inited_to_def in_range_def)
  let ?t1 = "flushDevData (int k) t"
  let ?f = "\<lambda>dev. dev\<lparr>dv_devId := int k, dv_isDisabled := False,
    dv_devLoadInfo := (dv_devLoadInfo dev)\<lparr>li_deviceId := int k, li_devLoadRate := 0, li_devCurrentLoad := 0\<rparr>\<rparr>"
  have t1: "only_dev k t ?t1" "dev_at ?t1 k = flush_dev (int k) (dev_at t k)"
    using only_dev_upd [OF k'(2)] k'(3) by (simp_all add: flushDevData_def set_dev_def)
  have k1: "k < length (m_devList ?t1)" using k'(2) only_dev_fields(3) [OF t1(1)] by simp
  let ?t2 = "set_dev (int k) ?f ?t1"
  have t2: "only_dev k ?t1 ?t2" "dev_at ?t2 k = ?f (dev_at ?t1 k)" using only_dev_upd [OF k1] by (simp_all add: set_dev_def)
  obtain r t3 where o: "openDevice x (int k) ?t2 = (r, t3)" by fastforce
  have o12: "only_dev k t ?t2" by (rule only_dev_trans [OF t1(1) t2(1)])
  have k2: "int k < m_numDevice ?t2" "k < length (m_devList ?t2)"
    using k' only_dev_fields(1,3) [OF o12] by simp_all
  note O = open_spec [OF k2 o]
  have o3: "only_dev k t t3" by (rule only_dev_trans [OF o12 O(1)])
  have len: "length (cuList (dev_at t k)) = XRM_MAX_XILINX_KERNELS" using g k'(4) by (simp add: inited_to_def)
  have d1: "dev_inv k (dev_at ?t1 k)" unfolding t1(2) by (rule flush_inv(1) [OF len])
  have di: "dev_inv k (dev_at t3 k)"
    by (rule dev_inv_cong [OF d1]) (use O(2-5) t2(2) d1 in \<open>simp_all add: dev_inv_def\<close>)
  have "numCu (dev_at t3 k) = 0"
    using flush_inv(2) [OF len] O(2) t2(2) by (simp add: numCu_def t1(2))
  then have "dev_inv d (dev_at t3 d) \<and> numCu (dev_at t3 d) = 0" if "d < Suc k" for d
    using that di g only_dev_fields(5) [OF o3, of d] by (cases "d = k") (auto simp: inited_to_def less_Suc_eq)
  moreover have "length (cuList (dev_at t3 d)) = XRM_MAX_XILINX_KERNELS" if "d < XRM_MAX_XILINX_DEVICES" for d
    using that di g only_dev_fields(5) [OF o3, of d] by (cases "d = k") (auto simp: inited_to_def dev_inv_def)
  moreover have "init_one x k t = t3" by (simp add: init_one_def o)
  ultimately show ?thesis using g only_dev_fields(1-4) [OF o3] by (simp add: inited_to_def)
qed

lemma init_devices_step:
  assumes inv: "sys_inv s"
  shows "dev_step s (initDevices x s)"
proof (cases "m_devicesInited s \<or> xclProbe x \<le> 0 \<or> xclProbe x > int XRM_MAX_XILINX_DEVICES")
  case True
  then have "initDevices x s = s \<or> initDevices x s = s\<lparr>m_devicesInited := True\<rparr>"
    by (auto simp: initDevices_def Let_def)
  moreover have "sys_inv (s\<lparr>m_devicesInited := True\<rparr>)" "grants (s\<lparr>m_devicesInited := True\<rparr>) = grants s"
    using inv by (auto simp: sys_inv_def dev_at_def grants_def valid_cu_def chan_at_def cu_at_def)
  ultimately show ?thesis using dev_step_refl [OF inv] by (auto simp: dev_step_def)
next
  case False
  let ?n = "nat (xclProbe x)" and ?t0 = "s\<lparr>m_devicesInited := True, m_numDevice := xclProbe x\<rparr>"
  have "inited_to x 0 ?t0" using inv by (auto simp: inited_to_def sys_inv_def dev_at_def)
  then have "inited_to x k (fold (init_one x) [0..<k] ?t0)" if "k \<le> ?n" for k
    using that False by (induction k) (auto intro: init_one_step)
  from this [of ?n] have "inited_to x ?n (fold (init_one x) [0..<?n] ?t0)" by simp
  moreover have "initDevices x s = fold (init_one x) [0..<?n] ?t0"
    using False by (simp add: initDevices_def Let_def init_one_def [abs_def])
  ultimately have res: "inited_to x ?n (initDevices x s)" by simp
  then have i: "sys_inv (initDevices x s)" using False by (auto simp: inited_to_def sys_inv_def)
  have "\<not> valid_cu s d c" for d c using inv False by (auto simp: valid_cu_def sys_inv_def)
  moreover have "\<not> valid_cu (initDevices x s) d c" for d c using res by (auto simp: valid_cu_def inited_to_def)
  ultimately have "grants (initDevices x s) = grants s" by (auto simp: grants_def fun_eq_iff)
  with i False show ?thesis by (simp add: dev_step_def)
qed

lemma clear_step:
  assumes inv: "sys_inv s" and d: "int d < m_numDevice s" and busy: "\<not> isDeviceBusy (int d) s"
    and run: "deviceClearInfo (int d) s = (ok, s')"
  shows "dev_step s s'" "only_dev d s s'" "numCu (dev_at s' d) = 0"
proof -
  have di: "dev_inv d (dev_at s d)" "d < length (m_devList s)" using sys_inv_dev [OF inv d] by simp_all
  then have pre: "length (cuList (dev_at s d)) = XRM_MAX_XILINX_KERNELS" "numCu (dev_at s d) \<le> int XRM_MAX_XILINX_KERNELS"
    "dv_memBuffer (dev_at s d) \<noteq> Freed" by (simp_all add: dev_inv_def)
  note C = clear_spec [OF d di(2) pre busy run]
  show "dev_step s s'" by (rule dev_stepI [OF inv C(2) d C(3) not_busy_idle [OF inv d busy] no_cu_idle [OF C(4)]])
  show "only_dev d s s'" "numCu (dev_at s' d) = 0" by (rule C)+
qed

lemma unloaded_not_busy:
  assumes "sys_inv s" "int d < m_numDevice s" "\<not> dv_isLoaded (dev_at s d)"
  shows "\<not> isDeviceBusy (int d) s"
  using sys_inv_dev [OF assms(1,2)] assms(3) by (auto simp: isDeviceBusy_def dev_inv_def)

text \<open>Unloading: the result is busy exactly when some compute unit is used, and success leaves the device empty.\<close>

lemma unloadOneDevice_spec:
  assumes inv: "sys_inv s" and init: "m_devicesInited s" and run: "unloadOneDevice x devId s = (ret, s')"
  shows "dev_step s s'" "in_range devId s \<Longrightarrow> ret = XRM_SUCCESS \<Longrightarrow> numCu (dev_at s' (nat devId)) = 0"
    "ret \<noteq> XRM_SUCCESS \<Longrightarrow> s' = s"
    "ret = XRM_ERROR_DEVICE_IS_BUSY \<longleftrightarrow> in_range devId s \<and> isDeviceBusy devId s"
proof -
  have all: "dev_step s s' \<and> (in_range devId s \<longrightarrow> ret = XRM_SUCCESS \<longrightarrow> numCu (dev_at s' (nat devId)) = 0) \<and>
    (ret \<noteq> XRM_SUCCESS \<longrightarrow> s' = s) \<and> (ret = XRM_ERROR_DEVICE_IS_BUSY \<longleftrightarrow> in_range devId s \<and> isDeviceBusy devId s)"
  proof (cases "in_range devId s")
    case False
    then have "ret = XRM_ERROR_INVALID" "s' = s"
      using run by (simp_all add: unloadOneDevice_def init_devices_id [OF init])
    with False dev_step_refl [OF inv] show ?thesis by simp
  next
    case True
    then have d: "int (nat devId) < m_numDevice s" "devId = int (nat devId)" by (auto simp: in_range_def)
    have e: "unloadOneDevice x devId s = (if \<not> dv_isLoaded (dev_at s (nat devId)) then (XRM_SUCCESS, snd (deviceClearInfo devId s))
         else if isDeviceBusy devId s then (XRM_ERROR_DEVICE_IS_BUSY, s)
         else if deviceUnlockXclbin x devId s \<noteq> 0 then (XRM_ERROR_DEVICE_IS_LOCKED, s)
         else (XRM_SUCCESS, snd (deviceClearInfo devId s)))"
      using True by (simp add: unloadOneDevice_def init_devices_id [OF init] Let_def)
    have nb: "\<not> isDeviceBusy devId s" if "\<not> dv_isLoaded (dev_at s (nat devId))"
      using unloaded_not_busy [OF inv d(1) that] d(2) by simp
    have C: "dev_step s (snd (deviceClearInfo devId s))" "numCu (dev_at (snd (deviceClearInfo devId s)) (nat devId)) = 0"
      if "\<not> isDeviceBusy devId s"
    proof -
      have "\<not> isDeviceBusy (int (nat devId)) s" using that d(2) by simp
      from clear_step [OF inv d(1) this prod.collapse [symmetric]]
      show "dev_step s (snd (deviceClearInfo devId s))" "numCu (dev_at (snd (deviceClearInfo devId s)) (nat devId)) = 0"
        using d(2) by simp_all
    qed
    show ?thesis using run nb C dev_step_refl [OF inv] True unfolding e by (auto split: if_splits)
  qed
  then show "dev_step s s'" "in_range devId s \<Longrightarrow> ret = XRM_SUCCESS \<Longrightarrow> numCu (dev_at s' (nat devId)) = 0"
    "ret \<noteq> XRM_SUCCESS \<Longrightarrow> s' = s"
    "ret = XRM_ERROR_DEVICE_IS_BUSY \<longleftrightarrow> in_range devId s \<and> isDeviceBusy devId s"
    by blast+
qed

lemma set_disabled_step:
  assumes inv: "sys_inv s" and d: "in_range devId s"
  shows "dev_step s (set_disabled devId b s)"
proof -
  have d': "int (nat devId) < m_numDevice s" using d by (auto simp: in_range_def)
  have same: "only_dev (nat devId) s (set_disabled devId b s)"
    "dev_at (set_disabled devId b s) (nat devId) = (dev_at s (nat devId))\<lparr>dv_isDisabled := b\<rparr>"
    using only_dev_upd sys_inv_dev [OF inv d'] by (simp_all add: set_disabled_def set_dev_def)
  have "dev_inv (nat devId) (dev_at (set_disabled devId b s) (nat devId))"
    by (rule dev_inv_cong [OF conjunct1 [OF sys_inv_dev [OF inv d']]])
      (use sys_inv_dev [OF inv d'] in \<open>simp_all add: same(2) dev_inv_def\<close>)
  then have i: "sys_inv (set_disabled devId b s)" by (rule only_dev_sys_inv [OF inv same(1) d'])
  have "cu_at (set_disabled devId b s) d c = cu_at s d c \<and> numCu (dev_at (set_disabled devId b s) d) = numCu (dev_at s d)" for d c
    using same(2) only_dev_fields(5,6) [OF same(1), of d]
    by (cases "d = nat devId") (simp_all add: cu_at_def cuList_def numCu_def)
  then have "grants (set_disabled devId b s) = grants s"
    using only_dev_fields(1) [OF same(1)] by (auto simp: grants_def valid_cu_def chan_at_def)
  with i only_dev_fields(1,4) [OF same(1)] show ?thesis by (simp add: dev_step_def)
qed

lemma enableOneDevice_step:
  "sys_inv s \<Longrightarrow> m_devicesInited s \<Longrightarrow> dev_step s (snd (enableOneDevice x devId s))"
  by (simp add: enableOneDevice_def init_devices_id Let_def dev_step_refl set_disabled_step)

lemma disableOneDevice_step:
  assumes inv: "sys_inv s" and init: "m_devicesInited s"
  shows "dev_step s (snd (disableOneDevice x devId s))"
proof (cases "in_range devId s")
  case False
  with dev_step_refl [OF inv] show ?thesis by (simp add: disableOneDevice_def init_devices_id [OF init])
next
  case True
  then have d: "int (nat devId) < m_numDevice s" "devId = int (nat devId)" by (auto simp: in_range_def)
  have clear: "dev_step s (set_disabled devId True (snd (deviceClearInfo devId s)))" if "\<not> isDeviceBusy devId s"
  proof -
    have "\<not> isDeviceBusy (int (nat devId)) s" using that d(2) by simp
    from clear_step(1) [OF inv d(1) this prod.collapse [symmetric]] d(2)
    have st: "dev_step s (snd (deviceClearInfo devId s))" by simp
    then have "in_range devId (snd (deviceClearInfo devId s))" using True init by (simp add: dev_step_def in_range_def)
    then show ?thesis using dev_step_trans [OF st set_disabled_step] st by (simp add: dev_step_def)
  qed
  show ?thesis using True dev_step_refl [OF inv] set_disabled_step [OF inv True] clear
    by (simp add: disableOneDevice_def init_devices_id [OF init] Let_def)
qed

section \<open>Searches for a device to load\<close>

lemma find_index_rule:
  assumes "P st" and "\<And>i st b st'. i \<in> set is \<Longrightarrow> P st \<Longrightarrow> body i st = (b, st') \<Longrightarrow> if b then Q i st' else P st'"
    and "find_index body is st = (r, st')"
  shows "case r of None \<Rightarrow> P st' | Some i \<Rightarrow> i \<in> set is \<and> Q i st'"
  using assms
proof (induction "is" arbitrary: st)
  case (Cons i "is")
  obtain b st1 where st: "body i st = (b, st1)" by fastforce
  have P: "if b then Q i st1 else P st1" using Cons.prems(2) [OF _ Cons.prems(1) st] by simp
  show ?case
  proof (cases b)
    case True
    with P st Cons.prems(3) show ?thesis by auto
  next
    case False
    with st Cons.prems(3) have "find_index body is st1 = (r, st')" by simp
    moreover have "P st1" using P False by simp
    ultimately have "case r of None \<Rightarrow> P st' | Some i \<Rightarrow> i \<in> set is \<and> Q i st'"
      using Cons.IH [of st1] Cons.prems(2) by (meson list.set_intros(2))
    then show ?thesis by (auto split: option.splits)
  qed
qed auto

text \<open>What a device is after it was loaded for a request: loaded with that xclbin, and idle.\<close>

definition freshly_loaded :: "string \<Rightarrow> nat \<Rightarrow> system \<Rightarrow> bool" where
  "freshly_loaded xclbin d s \<longleftrightarrow> int d < m_numDevice s \<and> dv_isLoaded (dev_at s d) \<and> idle_dev (dev_at s d) \<and>
     dv_xclbinName (dev_at s d) = xclbin"

lemma load_fresh:
  assumes inv: "sys_inv s" and drv: "driver_ok x" and d: "int d < m_numDevice s" "\<not> dv_isLoaded (dev_at s d)"
    and run: "deviceLoadXclbin x (int d) xclbin s = (ret, s')"
  shows "dev_step s s'" "ret = XRM_SUCCESS \<Longrightarrow> freshly_loaded xclbin d s'"
proof -
  note L = deviceLoadXclbin_spec [OF inv drv d(1) run]
  show "dev_step s s'" by (rule L(1))
  show "freshly_loaded xclbin d s'" if "ret = XRM_SUCCESS"
    using L(3) [OF that] L(5) [OF that d(2)] d(1) only_dev_fields(1) [OF L(2)] by (simp add: freshly_loaded_def)
qed

text \<open>The two searches of \<open>loadAnyDevice\<close>: until one device was loaded, only steps on devices were made.\<close>

definition not_yet :: "system \<Rightarrow> int \<times> system \<Rightarrow> bool" where
  "not_yet s = (\<lambda>(ret, t). dev_step s t \<and> ret \<noteq> XRM_SUCCESS)"

definition loaded_on :: "string \<Rightarrow> system \<Rightarrow> nat \<Rightarrow> int \<times> system \<Rightarrow> bool" where
  "loaded_on xclbin s d = (\<lambda>(ret, t). dev_step s t \<and> ret = XRM_SUCCESS \<and> freshly_loaded xclbin d t)"

lemma load_unloaded_step:
  assumes drv: "driver_ok x" and init: "m_devicesInited s" and d: "int d < m_numDevice s" and P: "not_yet s st"
    and b: "load_unloaded x xclbin d st = (b, st')"
  shows "if b then loaded_on xclbin s d st' else not_yet s st'"
proof -
  obtain r t where st: "st = (r, t)" by fastforce
  then have t: "dev_step s t" "r \<noteq> XRM_SUCCESS" using P by (auto simp: not_yet_def)
  have n: "int d < m_numDevice t" "sys_inv t" using t(1) d init by (auto simp: dev_step_def)
  show ?thesis
  proof (cases "isDeviceLoaded (int d) t")
    case True
    with b st P show ?thesis by (auto simp: load_unloaded_def)
  next
    case False
    then have nl: "\<not> dv_isLoaded (dev_at t d)" using n(1) by (simp add: isDeviceLoaded_def)
    obtain r' t' where l: "deviceLoadXclbin x (int d) xclbin t = (r', t')" by fastforce
    note L = load_fresh [OF n(2) drv n(1) nl l]
    have "b \<longleftrightarrow> r' = XRM_SUCCESS" "st' = (r', t')" using b st False l by (auto simp: load_unloaded_def)
    with L dev_step_trans [OF t(1) L(1)] show ?thesis by (auto simp: not_yet_def loaded_on_def)
  qed
qed

lemma load_idle_step:
  assumes drv: "driver_ok x" and init: "m_devicesInited s" and d: "int d < m_numDevice s" and P: "not_yet s st"
    and b: "load_idle x xclbin d st = (b, st')"
  shows "if b then loaded_on xclbin s d st' else not_yet s st'"
proof -
  obtain r t where st: "st = (r, t)" by fastforce
  then have t: "dev_step s t" "r \<noteq> XRM_SUCCESS" using P by (auto simp: not_yet_def)
  have num: "int d < m_numDevice u" "sys_inv u" "m_devicesInited u" if "dev_step s u" for u
    using that d init by (auto simp: dev_step_def)
  note n = num [OF t(1)]
  obtain r1 t1 where u: "unloadOneDevice x (int d) t = (r1, t1)" by fastforce
  note U = unloadOneDevice_spec [OF n(2,3) u]
  have t1: "dev_step s t1" by (rule dev_step_trans [OF t(1) U(1)])
  note n1 = num [OF t1]
  show ?thesis
  proof (cases "isDeviceBusy (int d) t \<or> r1 \<noteq> XRM_SUCCESS")
    case True
    with b st P u t t1 show ?thesis by (auto simp: load_idle_def not_yet_def split: if_splits)
  next
    case False
    have "numCu (dev_at t1 d) = 0" using U(2) n(1) False by (simp add: in_range_def)
    then have nl: "\<not> dv_isLoaded (dev_at t1 d)" using sys_inv_dev [OF n1(2,1)] by (auto simp: dev_inv_def)
    obtain r' t' where l: "deviceLoadXclbin x (int d) xclbin t1 = (r', t')" by fastforce
    note L = load_fresh [OF n1(2) drv n1(1) nl l]
    have "b \<longleftrightarrow> r' = XRM_SUCCESS" "st' = (r', t')" using b st False l u by (auto simp: load_idle_def)
    with L dev_step_trans [OF t1 L(1)] show ?thesis by (auto simp: not_yet_def loaded_on_def)
  qed
qed

lemma loadAnyDevice_spec:
  assumes inv: "sys_inv s" and init: "m_devicesInited s" and drv: "driver_ok x"
    and run: "loadAnyDevice x xclbin devId s = (ret, devId', s')"
  shows "dev_step s s'" "ret = XRM_SUCCESS \<Longrightarrow> \<exists>d. devId' = int d \<and> freshly_loaded xclbin d s'"
proof -
  let ?ds = "[0..<nat (m_numDevice s)]"
  let ?P = "not_yet s" and ?Q = "loaded_on xclbin s"
  have step1: "if b then ?Q d st' else ?P st'"
    if d: "d \<in> set ?ds" and P: "?P st" and b: "load_unloaded x xclbin d st = (b, st')" for d st b st'
    by (rule load_unloaded_step [OF drv init _ P b]) (use d in auto)
  have step2: "if b then ?Q d st' else ?P st'"
    if d: "d \<in> set ?ds" and P: "?P st" and b: "load_idle x xclbin d st = (b, st')" for d st b st'
    by (rule load_idle_step [OF drv init _ P b]) (use d in auto)
  have all: "dev_step s s' \<and> (ret = XRM_SUCCESS \<longrightarrow> (\<exists>d. devId' = int d \<and> freshly_loaded xclbin d s'))"
  proof (cases "c_str xclbin = []")
    case True
    then have "ret = XRM_ERROR_INVALID" "s' = s" using run by (simp_all add: loadAnyDevice_def init_devices_id [OF init])
    with dev_step_refl [OF inv] show ?thesis by simp
  next
    case False
    obtain i1 r1 s1 where f1: "find_index (load_unloaded x xclbin) ?ds (XRM_ERROR, s) = (i1, r1, s1)" by (metis prod_cases3)
    have P0: "?P (XRM_ERROR, s)" using dev_step_refl [OF inv] by (simp add: not_yet_def)
    have F1: "case i1 of None \<Rightarrow> ?P (r1, s1) | Some d \<Rightarrow> d \<in> set ?ds \<and> ?Q d (r1, s1)"
      by (rule find_index_rule [where P = ?P and Q = ?Q, OF P0 step1 f1])
    show ?thesis
    proof (cases i1)
      case (Some d)
      then have "ret = r1" "devId' = int d" "s' = s1"
        using run False f1 by (simp_all add: loadAnyDevice_def init_devices_id [OF init] Let_def)
      with F1 Some show ?thesis by (auto simp: loaded_on_def)
    next
      case None
      obtain i2 r2 s2 where f2: "find_index (load_idle x xclbin) ?ds (r1, s1) = (i2, r2, s2)" by (metis prod_cases3)
      have P1: "?P (r1, s1)" using F1 None by simp
      have F2: "case i2 of None \<Rightarrow> ?P (r2, s2) | Some d \<Rightarrow> d \<in> set ?ds \<and> ?Q d (r2, s2)"
        by (rule find_index_rule [where P = ?P and Q = ?Q, OF P1 step2 f2])
      have "ret = r2" "s' = s2" "\<forall>d. i2 = Some d \<longrightarrow> devId' = int d"
        using run False f1 f2 None
        by (auto simp: loadAnyDevice_def init_devices_id [OF init] Let_def split: option.splits)
      with F2 show ?thesis by (cases i2) (auto simp: not_yet_def loaded_on_def)
    qed
  qed
  then show "dev_step s s'" "ret = XRM_SUCCESS \<Longrightarrow> \<exists>d. devId' = int d \<and> freshly_loaded xclbin d s'" by blast+
qed

lemma loadOneDevice_step:
  assumes inv: "sys_inv s" and init: "m_devicesInited s" and drv: "driver_ok x"
  shows "dev_step s (snd (loadOneDevice x devId xclbin s))"
proof -
  obtain r d t where a: "loadAnyDevice x xclbin devId s = (r, d, t)" by (metis prod_cases3)
  obtain r' t' where l: "deviceLoadXclbin x devId xclbin s = (r', t')" by fastforce
  have "dev_step s t" by (rule loadAnyDevice_spec(1) [OF inv init drv a])
  moreover have "dev_step s t'" using deviceLoadXclbin_step [OF inv drv, of devId xclbin] l by simp
  ultimately show ?thesis using dev_step_refl [OF inv] a l
    by (cases "devId = - 1") (simp_all add: loadOneDevice_def init_devices_id [OF init] Let_def)
qed

lemma find_index_inv:
  assumes "P st" and "\<And>i st. P st \<Longrightarrow> P (snd (body i st))"
  shows "P (snd (find_index body is st))"
  using assms(1)
proof (induction "is" arbitrary: st)
  case (Cons i "is")
  obtain b st1 where st: "body i st = (b, st1)" by (metis prod.collapse)
  with assms(2) [OF Cons.prems, of i] have "P st1" by simp
  from Cons.prems Cons.IH [OF this] this st show ?case by simp
qed simp

lemma load_all_step:
  assumes inv: "sys_inv s" and drv: "driver_ok x"
  shows "dev_step s (snd (load_all_devices x xclbin (ret, s)))"
proof -
  define body where "body d st = (case st of (ret :: int, s) \<Rightarrow>
      case deviceLoadXclbin x (int d) xclbin s of (ret, s') \<Rightarrow> (ret \<noteq> XRM_SUCCESS, ret, s'))" for d :: nat and st
  let ?r = "find_index body [0..<nat (m_numDevice s)] (ret, s)"
  have "dev_step s (snd (snd ?r))"
  proof (rule find_index_inv [where P = "\<lambda>st. dev_step s (snd st)"])
    show "dev_step s (snd (ret, s))" using dev_step_refl [OF inv] by simp
    show "dev_step s (snd (snd (body d st)))" if "dev_step s (snd st)" for d st
    proof -
      have "sys_inv (snd st)" using that by (simp add: dev_step_def)
      from dev_step_trans [OF that deviceLoadXclbin_step [OF this drv, of "int d" xclbin]]
      show ?thesis by (simp add: body_def split_def)
    qed
  qed
  moreover have "snd (load_all_devices x xclbin (ret, s)) = snd (snd ?r)"
    by (simp add: load_all_devices_def body_def [abs_def] split_def)
  ultimately show ?thesis by simp
qed

lemma loadDevices_step:
  assumes inv: "sys_inv s" and init: "m_devicesInited s" and drv: "driver_ok x"
  shows "dev_step s (snd (loadDevices x requests s))"
proof -
  have "dev_step s (snd (load_requests x requests (ret, t)))" if "dev_step s t" for ret t
    using that
  proof (induction requests arbitrary: ret t)
    case (Cons req rest)
    obtain strDevId xclbin where req: "req = (strDevId, xclbin)" by fastforce
    have t: "sys_inv t" using Cons.prems by (simp add: dev_step_def)
    obtain ret1 t1 where all: "load_all_devices x xclbin (ret, t) = (ret1, t1)" by fastforce
    have s1: "dev_step s t1" using dev_step_trans [OF Cons.prems load_all_step [OF t drv, of xclbin ret]] all by simp
    show ?case
    proof (cases "stoi strDevId")
      case None
      with Cons.prems req show ?thesis by simp
    next
      case (Some devId)
      obtain ret2 t2 where one: "deviceLoadXclbin x devId xclbin t = (ret2, t2)" by fastforce
      have s2: "dev_step s t2"
        using dev_step_trans [OF Cons.prems deviceLoadXclbin_step [OF t drv, of devId xclbin]] one by simp
      show ?thesis using Some req all one Cons.prems s1 s2 Cons.IH [OF s1] Cons.IH [OF s2] by simp
    qed
  qed simp
  then show ?thesis using dev_step_refl [OF inv] by (simp add: loadDevices_def init_devices_id [OF init])
qed

section \<open>Before the devices are initialised\<close>

text \<open>Every operation initialises the devices first, so that the steps hold in any state.\<close>

lemma after_init:
  "unloadOneDevice x devId (initDevices x s) = unloadOneDevice x devId s"
  "enableOneDevice x devId (initDevices x s) = enableOneDevice x devId s"
  "disableOneDevice x devId (initDevices x s) = disableOneDevice x devId s"
  "loadAnyDevice x xclbin devId (initDevices x s) = loadAnyDevice x xclbin devId s"
  "loadOneDevice x devId xclbin (initDevices x s) = loadOneDevice x devId xclbin s"
  "loadDevices x requests (initDevices x s) = loadDevices x requests s"
  by (simp_all add: unloadOneDevice_def enableOneDevice_def disableOneDevice_def loadAnyDevice_def loadOneDevice_def
      loadDevices_def init_devices_id)

lemma device_operations_step:
  assumes inv: "sys_inv s" and drv: "driver_ok x"
  shows "dev_step s (snd (unloadOneDevice x devId s))" "dev_step s (snd (enableOneDevice x devId s))"
    "dev_step s (snd (disableOneDevice x devId s))" "dev_step s (snd (snd (loadAnyDevice x xclbin devId s)))"
    "dev_step s (snd (loadOneDevice x devId xclbin s))" "dev_step s (snd (loadDevices x requests s))"
    "dev_step s (snd (getDeviceNumber x s))"
proof -
  let ?t = "initDevices x s"
  have t: "dev_step s ?t" by (rule init_devices_step [OF inv])
  then have i: "sys_inv ?t" by (simp add: dev_step_def)
  note tr = dev_step_trans [OF t]
  have "dev_step s (snd (unloadOneDevice x devId ?t))"
    by (rule tr [OF unloadOneDevice_spec(1) [OF i init_devices_inited prod.collapse [symmetric]]])
  then show "dev_step s (snd (unloadOneDevice x devId s))" by (simp only: after_init)
  have "dev_step s (snd (enableOneDevice x devId ?t))" by (rule tr [OF enableOneDevice_step [OF i init_devices_inited]])
  then show "dev_step s (snd (enableOneDevice x devId s))" by (simp only: after_init)
  have "dev_step s (snd (disableOneDevice x devId ?t))" by (rule tr [OF disableOneDevice_step [OF i init_devices_inited]])
  then show "dev_step s (snd (disableOneDevice x devId s))" by (simp only: after_init)
  obtain r d t where any: "loadAnyDevice x xclbin devId ?t = (r, d, t)" by (metis prod_cases3)
  have "dev_step s (snd (snd (loadAnyDevice x xclbin devId ?t)))"
    using tr [OF loadAnyDevice_spec(1) [OF i init_devices_inited drv any]] any by simp
  then show "dev_step s (snd (snd (loadAnyDevice x xclbin devId s)))" by (simp only: after_init)
  have "dev_step s (snd (loadOneDevice x devId xclbin ?t))" by (rule tr [OF loadOneDevice_step [OF i init_devices_inited drv]])
  then show "dev_step s (snd (loadOneDevice x devId xclbin s))" by (simp only: after_init)
  have "dev_step s (snd (loadDevices x requests ?t))" by (rule tr [OF loadDevices_step [OF i init_devices_inited drv]])
  then show "dev_step s (snd (loadDevices x requests s))" by (simp only: after_init)
  show "dev_step s (snd (getDeviceNumber x s))" using t by (simp add: getDeviceNumber_def Let_def)
qed

text \<open>The device an xclbin was loaded to on demand.\<close>

lemma loadAnyDevice_fresh:
  assumes "sys_inv s" "driver_ok x" "loadAnyDevice x xclbin devId s = (XRM_SUCCESS, devId', s')"
  shows "\<exists>d. devId' = int d \<and> freshly_loaded xclbin d s'"
proof -
  have "sys_inv (initDevices x s)" using init_devices_step [OF assms(1)] by (simp add: dev_step_def)
  moreover have "loadAnyDevice x xclbin devId (initDevices x s) = (XRM_SUCCESS, devId', s')"
    using assms(3) by (simp only: after_init)
  ultimately show ?thesis using loadAnyDevice_spec(2) init_devices_inited assms(2) by blast
qed

text \<open>The dump only rewrites a sum that no operation reads.\<close>

lemma deviceDumpResource_step:
  assumes inv: "sys_inv s"
  shows "dev_step s (deviceDumpResource devId s)"
proof (cases "in_range devId s \<and> dv_isLoaded (dev_at s (nat devId))")
  case False
  with dev_step_refl [OF inv] show ?thesis by (auto simp: deviceDumpResource_def)
next
  case True
  let ?d = "nat devId" and ?n = "nat (numCu (dev_at s (nat devId)))"
  have d: "int ?d < m_numDevice s" "devId = int ?d" using True by (auto simp: in_range_def)
  have di: "dev_inv ?d (dev_at s ?d)" "?d < length (m_devList s)" using sys_inv_dev [OF inv d(1)] by simp_all
  let ?t = "upd_cus ?d dump_cu ?n s"
  have e: "deviceDumpResource devId s = ?t" using True by (simp add: deviceDumpResource_def upd_all_cus_def upd_cus_def)
  have "numCu (dev_at s ?d) \<le> int XRM_MAX_XILINX_KERNELS" "length (cuList (dev_at s ?d)) = XRM_MAX_XILINX_KERNELS"
    using di(1) by (simp_all only: dev_inv_def)
  then have n: "?n \<le> length (cuList (dev_at s ?d))" by linarith
  note F = upd_cus_frame [OF di(2) n, where f = dump_cu]
  have dump: "cu_inv (dump_cu cu) = cu_inv cu" "cu_deviceId (dump_cu cu) = cu_deviceId cu"
    "cu_channels (dump_cu cu) = cu_channels cu" for cu
  proof -
    have "act_reserves (dump_cu cu) = act_reserves cu" "client_set (dump_cu cu) = client_set cu"
      "clients_arr (dump_cu cu) = clients_arr cu" "pool_ids (dump_cu cu) = pool_ids cu"
      "reserved_load (dump_cu cu) = reserved_load cu"
      by (simp_all add: dump_cu_def act_reserves_def client_set_def clients_arr_def pool_ids_def reserved_load_def)
    then show "cu_inv (dump_cu cu) = cu_inv cu"
      by (simp add: cu_inv_def cu_acct_def chans_inv_def reserves_inv_def totals_inv_def clients_inv_def)
        (simp add: dump_cu_def)
  qed (simp_all add: dump_cu_def)
  have "sys_inv ?t"
    by (rule upd_cus_sys_inv [OF inv d(1) _ order_refl])
      (use True dump valid_cu_inv [OF inv, of ?d] d(1) in \<open>auto simp: valid_cu_def\<close>)
  moreover have "grants ?t = grants s"
  proof -
    have "chan_at ?t d' c' i = chan_at s d' c' i" "valid_cu ?t d' c' = valid_cu s d' c'" for d' c' i
      using F(1) F(2) [of d'] F(3) [of d' c'] dump(3) by (simp_all add: chan_at_def valid_cu_def)
    then show ?thesis unfolding grants_def by presburger
  qed
  ultimately show ?thesis using F(1) unfolding e by (simp add: dev_step_def)
qed

lemma listDevice_step:
  assumes inv: "sys_inv s"
  shows "dev_step s (snd (listDevice x devId s))"
proof -
  have o: "dev_step s (snd (openDevice x devId s))"
  proof (cases "in_range devId s")
    case False
    with dev_step_refl [OF inv] show ?thesis by (simp add: openDevice_def)
  next
    case True
    then have d: "int (nat devId) < m_numDevice s" "devId = int (nat devId)" by (auto simp: in_range_def)
    have di: "dev_inv (nat devId) (dev_at s (nat devId))" "nat devId < length (m_devList s)"
      using sys_inv_dev [OF inv d(1)] by simp_all
    have run: "openDevice x (int (nat devId)) s = (fst (openDevice x devId s), snd (openDevice x devId s))"
      using d(2) by simp
    note O = open_spec [OF d(1) di(2) run]
    let ?t = "snd (openDevice x devId s)"
    have "dev_inv (nat devId) (dev_at ?t (nat devId))"
      by (rule dev_inv_cong [OF di(1)]) (use O(2-5) di(1) in \<open>simp_all add: dev_inv_def\<close>)
    then have i: "sys_inv ?t" by (rule only_dev_sys_inv [OF inv O(1) d(1)])
    have "cu_at ?t d' c = cu_at s d' c \<and> numCu (dev_at ?t d') = numCu (dev_at s d')" for d' c
      using O(2) only_dev_fields(5,6) [OF O(1), of d']
      by (cases "d' = nat devId") (simp_all add: cu_at_def cuList_def numCu_def)
    then have "chan_at ?t d' c i = chan_at s d' c i" "valid_cu ?t d' c = valid_cu s d' c" for d' c i
      using only_dev_fields(1) [OF O(1)] by (simp_all add: valid_cu_def chan_at_def)
    then have "grants ?t = grants s" unfolding grants_def by presburger
    with only_dev_fields(1,4) [OF O(1)] i show ?thesis by (simp add: dev_step_def)
  qed
  have "sys_inv (snd (openDevice x devId s))" using o by (simp add: dev_step_def)
  from dev_step_trans [OF o deviceDumpResource_step [OF this]] deviceDumpResource_step [OF inv]
  show ?thesis by (simp add: listDevice_def Let_def)
qed

end
