(* ===== verification/Xrm_Load_Alloc_Inv.thy ===== *)
theory Xrm_Load_Alloc_Inv
  imports Xrm_Load_Alloc Xrm_Load_Inv
begin

text \<open>
  Correctness of the allocations that may load an xclbin. Whatever the driver answers, a call first makes
  a step that changes no grant (it may load or unload idle devices) and then either adds exactly one grant
  and reports success, or changes no grant and reports an error. \<open>resLoadAndAllocAllCu\<close> takes channel 0 of
  each of the first compute units of a device that was idle.
\<close>

section \<open>A quiet start, then at most one grant\<close>

lemma quiet_dev_step: "sys_inv s \<Longrightarrow> quiet s s' \<Longrightarrow> dev_step s s'"
  using quiet_inv(1,3,5) [of s s'] same_cus_fields(7) [of s s'] by (simp add: dev_step_def quiet_def)

definition loading_result :: "cuProperty \<Rightarrow> bool \<Rightarrow> system \<Rightarrow> int \<Rightarrow> cuResource \<Rightarrow> system \<Rightarrow> bool" where
  "loading_result prop updateId s ret cuRes s' \<longleftrightarrow>
     (if ret = XRM_SUCCESS
      then \<exists>t u. dev_step s t \<and> alloc_done prop t cuRes u \<and> s' = (if updateId then updateAllocServiceId u else u)
      else dev_step s s')"

lemma loading_after:
  assumes "dev_step s t" "loading_result prop updateId t ret cuRes s'"
  shows "loading_result prop updateId s ret cuRes s'"
  using assms(2) dev_step_trans [OF assms(1)] unfolding loading_result_def by (auto split: if_splits)

lemma loading_refused: "sys_inv s \<Longrightarrow> ret \<noteq> XRM_SUCCESS \<Longrightarrow> loading_result prop updateId s ret cuRes s"
  by (simp add: loading_result_def dev_step_refl)

lemma loading_granted:
  "sys_inv s \<Longrightarrow> alloc_done prop s cuRes u \<Longrightarrow>
   loading_result prop updateId s XRM_SUCCESS cuRes (if updateId then updateAllocServiceId u else u)"
  unfolding loading_result_def using dev_step_refl by auto

lemma loading_quiet:
  assumes inv: "sys_inv s" and a: "alloc_result prop updateId s ret cuRes s'"
  shows "loading_result prop updateId s ret cuRes s'"
proof (cases "ret = XRM_SUCCESS")
  case True
  with a show ?thesis using dev_step_refl [OF inv] unfolding alloc_result_def loading_result_def by auto metis
qed (use a quiet_dev_step [OF inv] in \<open>simp add: alloc_result_def loading_result_def\<close>)

text \<open>What the caller sees of it.\<close>

lemma loading_result_inv:
  assumes "loading_result prop updateId s ret cuRes s'"
  shows "sys_inv s'"
    "if ret = XRM_SUCCESS
     then \<exists>t d c i. dev_step s t \<and> cu_matches prop (cu_at t d c) \<and> grants s (d, c, i) = None \<and>
       grants s' = (grants s)((d, c, i) \<mapsto> fill_channel prop (getNextAllocServiceId t) (chan_at t d c i))
     else grants s' = grants s"
proof -
  have "sys_inv s' \<and> (\<exists>t d c i. dev_step s t \<and> cu_matches prop (cu_at t d c) \<and> grants s (d, c, i) = None \<and>
       grants s' = (grants s)((d, c, i) \<mapsto> fill_channel prop (getNextAllocServiceId t) (chan_at t d c i)))"
    if ok: "ret = XRM_SUCCESS"
  proof -
    obtain t u where t: "dev_step s t" "alloc_done prop t cuRes u" "s' = (if updateId then updateAllocServiceId u else u)"
      using assms ok by (auto simp: loading_result_def)
    have i: "sys_inv t" and g: "grants t = grants s" using t(1) by (simp_all add: dev_step_def)
    have ar: "alloc_result prop updateId t XRM_SUCCESS cuRes s'" using t(2,3) by (auto simp: alloc_result_def)
    show ?thesis
      using alloc_result_inv(1) [OF i ar] alloc_result_grants [OF i ar] t(1) unfolding g if_P [OF refl] by blast
  qed
  moreover have "sys_inv s' \<and> grants s' = grants s" if "ret \<noteq> XRM_SUCCESS"
    using assms that by (simp add: loading_result_def dev_step_def)
  ultimately show "sys_inv s'"
    "if ret = XRM_SUCCESS
     then \<exists>t d c i. dev_step s t \<and> cu_matches prop (cu_at t d c) \<and> grants s (d, c, i) = None \<and>
       grants s' = (grants s)((d, c, i) \<mapsto> fill_channel prop (getNextAllocServiceId t) (chan_at t d c i))
     else grants s' = grants s" by (cases "ret = XRM_SUCCESS"; simp)+
qed

section \<open>After the load\<close>

text \<open>A scan either allocates on the device or changes nothing.\<close>

definition scan_ok :: "cuProperty \<Rightarrow> (nat \<Rightarrow> cuResource \<times> system \<Rightarrow> bool \<times> cuResource \<times> system) \<Rightarrow> bool" where
  "scan_ok prop scan \<longleftrightarrow> (\<forall>s d cuRes b cuRes' s'. sys_inv s \<longrightarrow> int d < m_numDevice s \<longrightarrow>
     scan d (cuRes, s) = (b, cuRes', s') \<longrightarrow> (if b then alloc_done prop s cuRes' s' else s' = s))"

lemma scan_ok_cus: "prop_ok prop \<Longrightarrow> scan_ok prop (scan_cus aff prop)"
  unfolding scan_ok_def alloc_done_def by (intro allI impI, drule (3) scan_cus_spec) (auto split: if_splits)

lemma scan_all_spec:
  assumes inv: "sys_inv s" and d: "int d < m_numDevice s" and req: "prop_ok prop"
    and run: "scan_all prop d (cuRes, s) = (b, cuRes', s')"
  shows "if b then alloc_done prop s cuRes' s' else s' = s"
proof -
  have ua: "until_acquired (try_cu prop d) (cu_ids (dev_at s d)) (cuRes, s) = (b, (cuRes', s'))"
    using run by (simp add: scan_all_def)
  have step: "if b1 then alloc_done prop s (fst x') (snd x') else snd x' = s"
    if c: "c \<in> set (cu_ids (dev_at s d))" and x: "snd x = s" and run1: "try_cu prop d c x = (b1, x')" for c x b1 x'
  proof -
    have "try_cu prop d c (fst x, s) = (b1, fst x', snd x')" using run1 x by (metis prod.collapse)
    from try_cu_spec(1) [OF inv c [unfolded valid_cu_ids [OF inv d]] req this] show ?thesis
      unfolding alloc_done_def by (auto split: if_splits)
  qed
  have "if b then \<exists>c\<in>set (cu_ids (dev_at s d)). alloc_done prop s (fst (cuRes', s')) (snd (cuRes', s'))
      else snd (cuRes', s') = s"
  proof (rule until_acquired_rule [where P = "\<lambda>x. snd x = s" and Q = "\<lambda>_ x. alloc_done prop s (fst x) (snd x)", OF _ _ _ ua])
    show "snd x' = s" if "c \<in> set (cu_ids (dev_at s d))" "snd x = s" "try_cu prop d c x = (False, x')" for c x x'
      using step [OF that] by simp
    show "alloc_done prop s (fst x') (snd x')"
      if "c \<in> set (cu_ids (dev_at s d))" "snd x = s" "try_cu prop d c x = (True, x')" for c x x'
      using step [OF that] by simp
  qed simp
  then show ?thesis by (auto split: if_splits)
qed

lemma scan_ok_all: "prop_ok prop \<Longrightarrow> scan_ok prop (scan_all prop)"
  unfolding scan_ok_def using scan_all_spec by blast

lemma alloc_loaded_spec:
  assumes inv: "sys_inv s" and d: "devId = int d" "int d < m_numDevice s" and scan: "scan_ok prop scan"
    and run: "alloc_loaded scan prop updateId devId (cuRes, s) = (ret, cuRes', s')"
  shows "alloc_result prop updateId s ret cuRes' s'"
proof -
  obtain r0 s1 where a: "allocClientFromDev devId prop s = (r0, s1)" by fastforce
  obtain b r2 s2 where sc: "scan d (cuRes, s1) = (b, r2, s2)" by (metis prod_cases3)
  have q: "quiet s s1" by (rule quiet_alloc_client [OF inv a])
  have dn: "int d < m_numDevice s1" using d(2) quiet_inv(3) [OF q] by simp
  have spec: "if b then alloc_done prop s1 r2 s2 else s2 = s1"
    using scan sc dn quiet_inv(1) [OF q inv] unfolding scan_ok_def by blast
  have refused: "ret = r0" "s' = s1" if "r0 < 0" using run a that by (simp_all add: alloc_loaded_def d)
  have found: "ret = XRM_SUCCESS" "cuRes' = r2" "s' = (if updateId then updateAllocServiceId s2 else s2)" if "\<not> r0 < 0" b
    using run a sc that by (simp_all add: alloc_loaded_def d)
  have none: "ret = XRM_ERROR_NO_KERNEL" "s' = snd (releaseClientOnDev devId (pr_clientId prop) s2)" if "\<not> r0 < 0" "\<not> b"
    using run a sc that by (simp_all add: alloc_loaded_def d)
  consider "r0 < 0" | "\<not> r0 < 0" b | "\<not> r0 < 0" "\<not> b" by blast
  then show ?thesis
  proof cases
    case 1
    with refused q show ?thesis by (simp add: alloc_result_def)
  next
    case 2
    then have "alloc_done prop s r2 s2" using spec alloc_done_after [OF q] by simp
    with found [OF 2] show ?thesis by (auto simp: alloc_result_def)
  next
    case 3
    with none [OF 3] spec quiet_trans [OF q quiet_release_client] show ?thesis by (simp add: alloc_result_def)
  qed
qed

text \<open>The load on demand: a device that exists, or an error.\<close>

lemma load_on_demand:
  assumes inv: "sys_inv s" and drv: "driver_ok x" and run: "loadAnyDevice x xclbin (- 1) s = (ret, devId, s1)"
  shows "dev_step s s1" "ret = XRM_SUCCESS \<Longrightarrow> \<exists>d. devId = int d \<and> int d < m_numDevice s1"
proof -
  show "dev_step s s1" using device_operations_step(4) [OF inv drv, of xclbin "- 1"] run by simp
  show "\<exists>d. devId = int d \<and> int d < m_numDevice s1" if "ret = XRM_SUCCESS"
    using loadAnyDevice_fresh [OF inv drv] run that unfolding freshly_loaded_def by metis
qed

lemma load_and_alloc_spec:
  assumes inv: "sys_inv s" and drv: "driver_ok x" and scan: "scan_ok prop scan"
    and load: "loadAnyDevice x xclbin (- 1) s = (XRM_SUCCESS, devId, s1)"
    and run: "alloc_loaded scan prop updateId devId (cuRes, s1) = (ret, cuRes', s')"
  shows "loading_result prop updateId s ret cuRes' s'"
proof -
  note L = load_on_demand [OF inv drv load]
  have i: "sys_inv s1" using L(1) by (simp add: dev_step_def)
  obtain d where "devId = int d" "int d < m_numDevice s1" using L(2) by auto
  from alloc_loaded_spec [OF i this scan run] have "alloc_result prop updateId s1 ret cuRes' s'" .
  then show ?thesis by (rule loading_after [OF L(1) loading_quiet [OF i]])
qed

theorem resAllocCuWithLoad_spec:
  assumes inv: "sys_inv s" and drv: "driver_ok x" and req: "prop_ok prop"
    and run: "resAllocCuWithLoad x prop xclbin updateId (cuRes, s) = (ret, cuRes', s')"
  shows "loading_result prop updateId s ret cuRes' s'"
proof (cases "no_name prop")
  case True
  with run loading_refused [OF inv] show ?thesis by (auto simp: resAllocCuWithLoad_def)
next
  case False
  obtain b1 r1 s1 where 1: "search_devices (resAllocCu_try True prop) prop (cuRes, s) = (b1, r1, s1)"
    by (metis prod_cases3)
  obtain b r t where 2: "(if b1 then (True, r1, s1) else search_devices (resAllocCu_try False prop) prop (r1, s1)) = (b, r, t)"
    by (metis prod_cases3)
  note first = alloc_try.search_devices_inv [of "prop" s s, OF _ refl 1]
  have bt: "if b then alloc_done prop s r t else quiet s t"
  proof (cases b1)
    case True
    with first 2 inv req show ?thesis by auto
  next
    case False
    then have P: "prop_ok prop \<and> sys_inv s \<and> quiet s s1" using first inv req by simp
    have "search_devices (resAllocCu_try False prop) prop (r1, s1) = (b, r, t)" using 2 False by simp
    from alloc_try.search_devices_inv [OF P refl this] show ?thesis by (simp split: if_splits)
  qed
  obtain ret2 devId s2 where L: "loadAnyDevice x xclbin (- 1) t = (ret2, devId, s2)" by (metis prod_cases3)
  have out: "(if b then (XRM_SUCCESS, r, if updateId then updateAllocServiceId t else t)
      else if ret2 \<noteq> XRM_SUCCESS then (ret2, r, s2)
      else alloc_loaded (scan_cus False prop) prop updateId devId (r, s2)) = (ret, cuRes', s')"
    using run 1 2 L False by (simp add: resAllocCuWithLoad_def cong: if_cong)
  show ?thesis
  proof (cases b)
    case True
    with out bt loading_granted [OF inv] show ?thesis by auto
  next
    case nb: False
    then have st: "dev_step s t" using bt quiet_dev_step [OF inv] by simp
    then have i: "sys_inv t" by (simp add: dev_step_def)
    show ?thesis
    proof (cases "ret2 = XRM_SUCCESS")
      case False
      then have "ret = ret2 \<and> s' = s2" using out nb by simp
      with False dev_step_trans [OF st load_on_demand(1) [OF i drv L]] show ?thesis by (simp add: loading_result_def)
    next
      case True
      then have "alloc_loaded (scan_cus False prop) prop updateId devId (r, s2) = (ret, cuRes', s')" using out nb by simp
      from load_and_alloc_spec [OF i drv scan_ok_cus [OF req] L [unfolded True] this]
      show ?thesis by (rule loading_after [OF st])
    qed
  qed
qed

section \<open>The least used compute unit\<close>

interpretation unused_search: device_body "unused_try prop xclbin"
    "\<lambda>_ s1. prop_ok prop \<and> sys_inv s \<and> quiet s s1" "alloc_done prop s" clientId
  for "prop" :: cuProperty and xclbin :: string and s :: system and clientId :: u64
proof unfold_locales
  fix s1 s2 :: system and d :: nat and a a' :: cuResource
  assume P: "prop_ok prop \<and> sys_inv s \<and> quiet s s1" and d: "int d < m_numDevice s1" and u: "dev_usable s1 clientId d"
  show "(prop_ok prop \<and> sys_inv s \<and> quiet s s2) \<and> m_numDevice s2 = m_numDevice s1"
    if run: "unused_try prop xclbin d (a, s1) = (False, a', s2)"
  proof (cases "dv_xclbinName (dev_at s1 d) = xclbin")
    case True
    with run have "resAllocCu_try False prop d (a, s1) = (False, a', s2)" by (simp add: unused_try_def)
    from alloc_try.reject [OF P d u this] show ?thesis .
  qed (use run P in \<open>simp add: unused_try_def\<close>)
  show "alloc_done prop s a' s2" if run: "unused_try prop xclbin d (a, s1) = (True, a', s2)"
  proof -
    have "resAllocCu_try False prop d (a, s1) = (True, a', s2)"
      using run by (simp add: unused_try_def split: if_splits)
    from alloc_try.accept [OF P d u this] show ?thesis .
  qed
qed

text \<open>The candidates are compute units that match, with their loads.\<close>

definition listed :: "cuProperty \<Rightarrow> system \<Rightarrow> int \<times> nat \<times> nat \<Rightarrow> bool" where
  "listed prop s = (\<lambda>(load, d, c). valid_cu s d c \<and> cu_matches prop (cu_at s d c) \<and>
     load = cu_totalUsedLoadUnified (cu_at s d c))"

lemma listed_quiet: "quiet s t \<Longrightarrow> listed prop t = listed prop s"
  by (auto simp: listed_def fun_eq_iff quiet_inv(4,6))

lemma device_candidates_listed:
  "sys_inv s \<Longrightarrow> int d < m_numDevice s \<Longrightarrow> \<forall>x\<in>set (device_candidates prop d s). listed prop s x"
  using valid_cu_ids by (auto simp: device_candidates_def listed_def)

interpretation collect_search: device_body "collect_try prop xclbin"
    "\<lambda>xs s1. sys_inv s \<and> quiet s s1 \<and> (\<forall>x\<in>set xs. listed prop s x)" "\<lambda>_ _. False" clientId
  for "prop" :: cuProperty and xclbin :: string and s :: system and clientId :: u64
proof unfold_locales
  fix s1 s2 :: system and d :: nat and a a' :: "(int \<times> nat \<times> nat) list"
  assume P: "sys_inv s \<and> quiet s s1 \<and> (\<forall>x\<in>set a. listed prop s x)" and d: "int d < m_numDevice s1"
  then have i: "sys_inv s1" and q: "quiet s s1" using quiet_inv(1) by auto
  obtain r t where a: "allocClientFromDev (int d) prop s1 = (r, t)" by fastforce
  have q1: "quiet s1 t" by (rule quiet_alloc_client [OF i a])
  have qt: "quiet s t" by (rule quiet_trans [OF q q1])
  have it: "sys_inv t" "int d < m_numDevice t" using quiet_inv(1) [OF q1 i] quiet_inv(3) [OF q1] d by simp_all
  note cand = device_candidates_listed [OF it, unfolded listed_quiet [OF qt]]
  note qr = quiet_trans [OF qt quiet_release_client]
  show "(sys_inv s \<and> quiet s s2 \<and> (\<forall>x\<in>set a'. listed prop s x)) \<and> m_numDevice s2 = m_numDevice s1"
    if run: "collect_try prop xclbin d (a, s1) = (False, a', s2)"
  proof -
    have "quiet s s2 \<and> (\<forall>x\<in>set a'. listed prop s x)"
      using run a P qt cand qr by (auto simp: collect_try_def split: if_splits)
    then show ?thesis using P quiet_inv(3) [of s s1] quiet_inv(3) [of s s2] by simp
  qed
  show False if "collect_try prop xclbin d (a, s1) = (True, a', s2)"
    using that a by (auto simp: collect_try_def split: if_splits)
qed

text \<open>
  Among the candidates in their order, the first that the request can use is taken; so with the sorted
  list no less used compute unit was refused for lack of a channel or load.
\<close>

lemma try_candidates_spec:
  assumes inv: "sys_inv s" and req: "prop_ok prop"
    and "quiet s s1" "\<forall>x\<in>set xs. listed prop s x" "ret0 \<noteq> XRM_SUCCESS"
    and "try_candidates prop updateId xs (ret0, cuRes, s1) = (ret, cuRes', s')"
  shows "alloc_result prop updateId s ret cuRes' s'"
  using assms(3-)
proof (induction xs arbitrary: ret0 cuRes s1)
  case Nil
  then show ?case by (simp add: alloc_result_def)
next
  case (Cons x xs)
  obtain l d c where x: "x = (l, d, c)" by (metis prod_cases3)
  have v: "valid_cu s d c" "cu_matches prop (cu_at s d c)" using Cons.prems(2) by (auto simp: x listed_def)
  obtain r t where a: "allocClientFromDev (int d) prop s1 = (r, t)" by fastforce
  obtain r2 res2 t2 where ch: "allocChan d c prop (cuRes, t) = (r2, res2, t2)" by (metis prod_cases3)
  have i1: "sys_inv s1" using quiet_inv(1) [OF Cons.prems(1) inv] .
  have q: "quiet s t" by (rule quiet_trans [OF Cons.prems(1) quiet_alloc_client [OF i1 a]])
  note eqs = quiet_inv(4,6) [OF q]
  have it: "sys_inv t" by (rule quiet_inv(1) [OF q inv])
  note spec = allocChan_spec [OF it _ req ch, unfolded eqs, OF v(1)]
  consider "r < 0" | "\<not> r < 0" "r2 \<noteq> XRM_SUCCESS" | "\<not> r < 0" "r2 = XRM_SUCCESS" by blast
  then show ?case
  proof cases
    case 1
    then have "try_candidates prop updateId xs (r, cuRes, t) = (ret, cuRes', s')" "r \<noteq> XRM_SUCCESS"
      using Cons.prems(4) a x by simp_all
    with Cons.IH q Cons.prems(2) show ?thesis by simp
  next
    case 2
    then have "t2 = t" using spec by (auto split: if_splits)
    then have q2: "quiet s (snd (releaseClientOnDev (int d) (pr_clientId prop) t2))"
      using quiet_trans [OF q quiet_release_client] by simp
    have "try_candidates prop updateId xs (r2, res2, snd (releaseClientOnDev (int d) (pr_clientId prop) t2)) = (ret, cuRes', s')"
      using Cons.prems(4) a ch x 2 by simp
    with Cons.IH [OF q2 _ 2(2)] Cons.prems(2) show ?thesis by simp
  next
    case 3
    then have g: "can_take prop (cu_at s d c)" "granted_at prop d c cuRes t res2 t2"
      using spec by (auto split: if_splits)
    have e: "ret = XRM_SUCCESS" "cuRes' = locate_cuRes (dev_at t2 d) d c res2"
      "s' = (if updateId then updateAllocServiceId t2 else t2)"
      using Cons.prems(4) a ch x 3 by simp_all
    have "alloc_on prop d c t cuRes' t2" using g v eqs by (auto simp: alloc_on_def granted_at_def e(2))
    then have "alloc_done prop s cuRes' t2" using alloc_on_after [OF q] unfolding alloc_done_def by blast
    with e show ?thesis by (auto simp: alloc_result_def)
  qed
qed

lemma share_least_used_spec:
  assumes inv: "sys_inv s" and req: "prop_ok prop"
    and run: "share_least_used prop xclbin updateId (cuRes, s) = (ret, cuRes', s')"
  shows "alloc_result prop updateId s ret cuRes' s'"
proof -
  obtain b xs s1 where sd: "search_devices (collect_try prop xclbin) prop ([], s) = (b, xs, s1)" by (metis prod_cases3)
  have "\<not> b \<and> quiet s s1 \<and> (\<forall>x\<in>set xs. listed prop s x)"
    using collect_search.search_devices_inv [of s s "[]" "prop", OF _ refl sd] inv by (auto split: if_splits)
  moreover have "try_candidates prop updateId (sort xs) (XRM_ERROR_NO_KERNEL, cuRes, s1) = (ret, cuRes', s')"
    using run sd by (simp add: share_least_used_def)
  ultimately show ?thesis using try_candidates_spec [OF inv req, of s1 "sort xs" "XRM_ERROR_NO_KERNEL"] by simp
qed

theorem resAllocCuLeastUsedWithLoad_spec:
  assumes inv: "sys_inv s" and drv: "driver_ok x" and req: "prop_ok prop"
    and run: "resAllocCuLeastUsedWithLoad x prop xclbin updateId (cuRes, s) = (ret, cuRes', s')"
  shows "loading_result prop updateId s ret cuRes' s'"
proof (cases "no_name prop")
  case True
  with run loading_refused [OF inv] show ?thesis by (auto simp: resAllocCuLeastUsedWithLoad_def)
next
  case False
  obtain b r t where 1: "search_devices (unused_try prop xclbin) prop (cuRes, s) = (b, r, t)" by (metis prod_cases3)
  obtain ret2 devId s2 where L: "loadAnyDevice x xclbin (- 1) t = (ret2, devId, s2)" by (metis prod_cases3)
  obtain ret3 r3 s3 where A: "alloc_loaded (scan_all prop) prop updateId devId (r, s2) = (ret3, r3, s3)" by (metis prod_cases3)
  have out: "(if b then (XRM_SUCCESS, r, if updateId then updateAllocServiceId t else t)
      else if ret2 \<noteq> XRM_SUCCESS then share_least_used prop xclbin updateId (r, s2)
      else if ret3 = XRM_SUCCESS then (ret3, r3, s3) else share_least_used prop xclbin updateId (r3, s3)) = (ret, cuRes', s')"
    using run 1 L A False by (simp add: resAllocCuLeastUsedWithLoad_def cong: if_cong)
  have bt: "if b then alloc_done prop s r t else quiet s t"
  proof -
    have P: "prop_ok prop \<and> sys_inv s \<and> quiet s s" using inv req by simp
    from unused_search.search_devices_inv [OF P refl 1] show ?thesis by (simp split: if_splits)
  qed
  show ?thesis
  proof (cases b)
    case True
    with out bt loading_granted [OF inv] show ?thesis by auto
  next
    case nb: False
    then have st: "dev_step s t" using bt quiet_dev_step [OF inv] by simp
    then have i: "sys_inv t" by (simp add: dev_step_def)
    have share: "loading_result prop updateId s ret cuRes' s'"
      if "dev_step s u" "share_least_used prop xclbin updateId (r0, u) = (ret, cuRes', s')" for u r0
    proof -
      have iu: "sys_inv u" using that(1) by (simp add: dev_step_def)
      show ?thesis by (rule loading_after [OF that(1) loading_quiet [OF iu share_least_used_spec [OF iu req that(2)]]])
    qed
    show ?thesis
    proof (cases "ret2 = XRM_SUCCESS")
      case False
      then have "share_least_used prop xclbin updateId (r, s2) = (ret, cuRes', s')" using out nb by simp
      then show ?thesis by (rule share [OF dev_step_trans [OF st load_on_demand(1) [OF i drv L]]])
    next
      case True
      note la = loading_after [OF st load_and_alloc_spec [OF i drv scan_ok_all [OF req] L [unfolded True] A]]
      show ?thesis
      proof (cases "ret3 = XRM_SUCCESS")
        case r3: True
        then have "ret = ret3 \<and> cuRes' = r3 \<and> s' = s3" using out nb True by simp
        with la show ?thesis by simp
      next
        case r3: False
        then have "share_least_used prop xclbin updateId (r3, s3) = (ret, cuRes', s')" using out nb True by simp
        moreover have "dev_step s s3" using la r3 by (simp add: loading_result_def)
        ultimately show ?thesis using share by blast
      qed
    qed
  qed
qed

section \<open>Everything on a device\<close>

text \<open>An idle compute unit whose channel 0 is taken for the whole load.\<close>

definition owner_channel :: "u64 \<Rightarrow> int \<Rightarrow> u64 \<Rightarrow> channelData \<Rightarrow> channelData" where
  "owner_channel clientId pid svc ch = ch\<lparr>ch_loadUnified := XRM_MAX_LOAD, ch_loadOriginal := 100,
     ch_allocServiceId := svc, ch_clientId := clientId, ch_clientProcessId := pid\<rparr>"

lemma in_use_update:
  assumes "\<forall>ch\<in>set chs. \<not> in_use ch" "0 < length chs" "in_use ch'"
  shows "length (filter in_use (chs[0 := ch'])) = 1" "chan_clients (chs[0 := ch']) = {ch_clientId ch'}"
proof -
  obtain c cs where chs: "chs = c # cs" using assms(2) by (cases chs) auto
  have "filter in_use cs = []" using assms(1) by (simp add: chs filter_empty_conv)
  then show "length (filter in_use (chs[0 := ch'])) = 1" "chan_clients (chs[0 := ch']) = {ch_clientId ch'}"
    using assms(1,3) by (auto simp: chs chan_clients_def)
qed

lemma own_cu_fields:
  "cu_channels (own_cu clientId pid svc cu) = (cu_channels cu)[0 := owner_channel clientId pid svc (cu_channels cu ! 0)]"
  "cu_deviceId (own_cu clientId pid svc cu) = cu_deviceId cu" "cu_numChanInuse (own_cu clientId pid svc cu) = 1"
  "cu_reserves (own_cu clientId pid svc cu) = cu_reserves cu" "cu_numReserve (own_cu clientId pid svc cu) = cu_numReserve cu"
  "cu_totalReservedLoadUnified (own_cu clientId pid svc cu) = cu_totalReservedLoadUnified cu"
  "cu_totalUsedLoadUnified (own_cu clientId pid svc cu) = XRM_MAX_LOAD"
  "cu_clients (own_cu clientId pid svc cu) = (cu_clients cu)[0 := clientId]" "cu_numClient (own_cu clientId pid svc cu) = 1"
  by (simp_all add: own_cu_def owner_channel_def)

lemma own_clients:
  assumes arr: "clients_arr cu" and none: "client_set cu = {}" and client: "clientId \<noteq> 0"
  shows "clients_arr (own_cu clientId pid svc cu)" "client_set (own_cu clientId pid svc cu) = {clientId}"
proof -
  have len: "length (cu_clients cu) = XRM_MAX_KERNEL_CHANNELS" using arr by (simp only: clients_arr_def)
  have n: "0 \<le> cu_numClient cu" using arr by (simp only: clients_arr_def)
  have "take (nat (cu_numClient cu)) (cu_clients cu) = []" using none by (simp add: client_set_def)
  then have n0: "nat (cu_numClient cu) = 0" using len limit_pos(3) by (auto simp: take_eq_Nil)
  have "drop (nat (cu_numClient cu)) (cu_clients cu) = replicate (XRM_MAX_KERNEL_CHANNELS - nat (cu_numClient cu)) 0"
    using arr by (simp only: clients_arr_def)
  then have rep: "cu_clients cu = replicate XRM_MAX_KERNEL_CHANNELS 0" using n0 by simp
  obtain k where k: "XRM_MAX_KERNEL_CHANNELS = Suc k" using limit_pos(3) by (cases XRM_MAX_KERNEL_CHANNELS) simp_all
  have cl: "cu_clients (own_cu clientId pid svc cu) = clientId # replicate k 0"
    unfolding own_cu_fields rep k by simp
  show set1: "client_set (own_cu clientId pid svc cu) = {clientId}"
    unfolding client_set_def cl by (simp add: own_cu_fields)
  show "clients_arr (own_cu clientId pid svc cu)"
    unfolding clients_arr_def set1 cl k using client by (simp add: own_cu_fields)
qed

lemma own_cu_idle:
  assumes inv: "cu_inv cu" and idle: "cu_totalUsedLoadUnified cu = 0" and client: "clientId \<noteq> 0"
  shows "cu_inv (own_cu clientId pid svc cu)"
proof -
  let ?cu = "own_cu clientId pid svc cu" and ?ch = "owner_channel clientId pid svc (cu_channels cu ! 0)"
  note ch = own_cu_fields(1) [of clientId pid svc cu]
  have acct: "cu_acct cu" and cl: "clients_inv cu" using inv by (simp_all add: cu_inv_def)
  note z = idle_no_reserve [OF acct idle]
  have chs: "length (cu_channels cu) = XRM_MAX_KERNEL_CHANNELS" "\<forall>c\<in>set (cu_channels cu). chan_ok c"
    "\<forall>i<XRM_MAX_KERNEL_CHANNELS. ch_channelId (cu_channels cu ! i) = int i"
    using acct unfolding cu_acct_def chans_inv_def by blast+
  have free: "\<forall>c\<in>set (cu_channels cu). \<not> in_use c" using z(2) by (simp add: in_use_def)
  have p: "0 < length (cu_channels cu)" using chs(1) limit_pos by simp
  have "cu_channels cu ! 0 \<in> set (cu_channels cu)" using p by simp
  then have pool0: "ch_poolId (cu_channels cu ! 0) = 0" using chs(2) z(2) by (auto simp: chan_ok_def)
  have u: "in_use ?ch" "chan_ok ?ch" using client by (simp_all add: in_use_def chan_ok_def owner_channel_def)
  note iu = in_use_update [OF free p u(1)]
  have "\<forall>c\<in>set ((cu_channels cu)[0 := ?ch]). chan_ok c"
    using chs(2) u(2) set_update_subset_insert [of "cu_channels cu" 0 ?ch] by blast
  moreover have "\<forall>i<XRM_MAX_KERNEL_CHANNELS. ch_channelId ((cu_channels cu)[0 := ?ch] ! i) = int i"
    using chs(1,3) p by (simp add: nth_list_update owner_channel_def)
  ultimately have cs: "chans_inv ?cu" unfolding chans_inv_def own_cu_fields using chs(1) iu(1) by simp
  have acts: "act_reserves ?cu = []" "act_reserves cu = []" using z(1) by (simp_all add: act_reserves_def own_cu_fields)
  have rs0: "reserves_inv cu" using acct by (simp only: cu_acct_def)
  then have rs: "reserves_inv ?cu" unfolding reserves_inv_def own_cu_fields acts by simp
  have r0: "cu_totalReservedLoadUnified cu = 0"
    using acct acts(2) by (simp add: cu_acct_def totals_inv_def reserved_load_def)
  obtain c xs where cc: "cu_channels cu = c # xs" using p by (cases "cu_channels cu") auto
  have "\<forall>ch\<in>set xs. ch_loadUnified ch = 0" using z(2) by (simp add: cc)
  then have "default_load {} xs = 0" by (induction xs) (simp_all add: default_load_def)
  then have "default_load {} (cu_channels ?cu) = XRM_MAX_LOAD"
    unfolding ch by (simp add: cc default_load_def owner_channel_def)
  then have tot: "totals_inv ?cu"
    unfolding totals_inv_def pool_ids_def reserved_load_def acts own_cu_fields(6,7) r0 by simp
  have "chan_clients (cu_channels cu) = {}" using free by (auto simp: chan_clients_def)
  then have "client_set cu = {}" and arr: "clients_arr cu" using cl by (simp_all only: clients_inv_def)
  note oc = own_clients [OF arr this(1) client, of pid svc]
  have "clients_inv ?cu" unfolding clients_inv_def oc(2) using oc(1) iu(2) by (simp add: ch) (simp add: owner_channel_def)
  with cs rs tot show ?thesis by (simp only: cu_inv_def cu_acct_def)
qed

lemma own_fold_state:
  "snd (fold (\<lambda>i (lr, s). (F i lr s, upd_cu d i f s)) is (lr, s)) = fold (\<lambda>i. upd_cu d i f) is s"
  by (induction "is" arbitrary: lr s) auto

text \<open>
  The call takes an idle device and grants channel 0 of its first compute units, as many as a list holds,
  under one service id; a failure changes no grant.
\<close>

definition owned_grants :: "nat \<Rightarrow> nat \<Rightarrow> u64 \<Rightarrow> int \<Rightarrow> system \<Rightarrow> (nat \<times> nat \<times> nat \<Rightarrow> channelData option) \<Rightarrow>
    nat \<times> nat \<times> nat \<Rightarrow> channelData option" where
  "owned_grants d n clientId pid t g = (\<lambda>(d', c, i).
     if d' = d \<and> c < n \<and> i = 0 then Some (owner_channel clientId pid (getNextAllocServiceId t) (chan_at t d c 0))
     else g (d', c, i))"

definition own_all :: "nat \<Rightarrow> int \<Rightarrow> u64 \<Rightarrow> int \<Rightarrow> system \<Rightarrow> system" where
  "own_all d n clientId pid t = updateAllocServiceId (updateDeviceLoad (int d) 0 (XRM_MAX_LOAD * n)
     (upd_cus d (own_cu clientId pid (getNextAllocServiceId t)) (nat n) (upd_dev d (own_device clientId pid) t)))"

text \<open>The call is the load, and then this step on the device that was loaded.\<close>

lemma own_all_run:
  assumes load: "loadAnyDevice x xclbin (- 1) s = (XRM_SUCCESS, int d, t)"
    and run: "resLoadAndAllocAllCu x xclbin clientId pid (lr, s) = (ret, lr', s')"
  defines "n \<equiv> min (numCu (dev_at t d)) (int XRM_MAX_LIST_CU_NUM)"
  shows "ret = XRM_SUCCESS \<and> lr_cuNum lr' = n \<and> s' = own_all d n clientId pid t"
proof -
  let ?t1 = "upd_dev d (own_device clientId pid) t" and ?svc = "getNextAllocServiceId t"
  have sc: "same_cus t ?t1" by (rule same_cus_upd_dev) (simp_all add: own_device_def)
  let ?F = "\<lambda>i lr (s :: system). lr\<lparr>lr_cuResources := (lr_cuResources lr)[i :=
      own_cuRes (dev_at s d) (int d) i clientId ?svc (cu_at s d i) (lr_cuResources lr ! i)]\<rparr>"
  let ?fold = "\<lambda>is. fold (\<lambda>i (lr, s). (?F i lr s, upd_cu d i (own_cu clientId pid ?svc) s)) is"
  obtain l3 s3 where f: "?fold [0..<nat n] (lr\<lparr>lr_cuNum := n\<rparr>, ?t1) = (l3, s3)" by fastforce
  have code: "(ret, lr', s') = (XRM_SUCCESS, l3, updateAllocServiceId (updateDeviceLoad (int d) 0 (XRM_MAX_LOAD * n) s3))"
    using load f run same_cus_dev [OF sc, of d] same_cus_service [OF sc]
    by (simp add: resLoadAndAllocAllCu_def Let_def n_def)
  have "lr_cuNum (fst (?fold is (r, u))) = lr_cuNum r" for "is" r u
    by (induction "is" arbitrary: r u) simp_all
  from this [of "[0..<nat n]" "lr\<lparr>lr_cuNum := n\<rparr>" ?t1] f have "lr_cuNum l3 = n" by simp
  moreover have "s3 = upd_cus d (own_cu clientId pid ?svc) (nat n) ?t1"
    using own_fold_state [of ?F d "own_cu clientId pid ?svc" "[0..<nat n]" "lr\<lparr>lr_cuNum := n\<rparr>" ?t1] f
    by (simp add: upd_cus_def)
  ultimately show ?thesis using code by (simp add: own_all_def)
qed

lemma owned_idle:
  assumes it: "sys_inv t" and d: "int d < m_numDevice t" and idle: "idle_dev (dev_at t d)" and client: "clientId \<noteq> 0"
    and c: "c < nat (numCu (dev_at t d))"
  shows "cu_inv (own_cu clientId pid svc (cu_at t d c)) \<and> cu_deviceId (own_cu clientId pid svc (cu_at t d c)) = int d"
proof -
  have "cu_inv (cu_at t d c) \<and> cu_deviceId (cu_at t d c) = int d"
    using valid_cu_inv [OF it, of d c] d c by (simp add: valid_cu_def)
  moreover have "cu_totalUsedLoadUnified (cu_at t d c) = 0" using idle c by (simp add: idle_dev_def cu_at_def)
  ultimately show ?thesis using own_cu_idle [OF _ _ client] own_cu_fields(2) by simp
qed

text \<open>The compute units after the step.\<close>

lemma own_all_frame:
  assumes it: "sys_inv t" and d: "int d < m_numDevice t" and loaded: "dv_isLoaded (dev_at t d)"
    and n: "n \<le> numCu (dev_at t d)"
  shows "cu_at (own_all d n clientId pid t) d' c =
      (if d' = d \<and> c < nat n then own_cu clientId pid (getNextAllocServiceId t) (cu_at t d c) else cu_at t d' c)"
    "valid_cu (own_all d n clientId pid t) d' c = valid_cu t d' c"
    "(\<And>c. c < nat n \<Longrightarrow> cu_inv (own_cu clientId pid (getNextAllocServiceId t) (cu_at t d c)) \<and>
       cu_deviceId (own_cu clientId pid (getNextAllocServiceId t) (cu_at t d c)) = int d) \<Longrightarrow>
     sys_inv (own_all d n clientId pid t)"
proof -
  let ?t1 = "upd_dev d (own_device clientId pid) t" and ?own = "own_cu clientId pid (getNextAllocServiceId t)"
  let ?t2 = "upd_cus d ?own (nat n) ?t1" let ?t3 = "updateDeviceLoad (int d) 0 (XRM_MAX_LOAD * n) ?t2"
  have sc: "same_cus t ?t1" by (rule same_cus_upd_dev) (simp_all add: own_device_def)
  note C = same_cus_dev [OF sc] and V = same_cus_valid [OF sc] and I = same_cus_sys_inv [OF sc it] and E = same_cus_fields [OF sc]
  have bounds: "d < length (m_devList ?t1)" "0 < numCu (dev_at t d)" "numCu (dev_at t d) \<le> int XRM_MAX_XILINX_KERNELS"
    "length (cuList (dev_at ?t1 d)) = XRM_MAX_XILINX_KERNELS"
    using sys_inv_dev [OF it d] loaded C [of d] E by (simp_all add: dev_inv_def)
  have len: "nat n \<le> length (cuList (dev_at ?t1 d))" using bounds(3,4) n by linarith
  note F = upd_cus_frame [OF bounds(1) len, where f = ?own]
  have sc3: "same_cus ?t2 ?t3"
    by (rule updateDeviceLoad_frame) (use bounds F(1) F(2) [of d] C [of d] in simp_all)
  have own_cus: "cu_at (own_all d n clientId pid t) d' c = cu_at ?t3 d' c" for d' c by (simp add: own_all_def)
  show "cu_at (own_all d n clientId pid t) d' c = (if d' = d \<and> c < nat n then ?own (cu_at t d c) else cu_at t d' c)"
    using own_cus same_cus_dev [OF sc3, of d' c] F(3) [of d' c] C [of d c] C [of d' c] by simp
  show "valid_cu (own_all d n clientId pid t) d' c = valid_cu t d' c"
    using same_cus_valid [OF sc3] F(1) F(2) [of d'] C [of d'] E by (simp add: valid_cu_def own_all_def)
  show "sys_inv (own_all d n clientId pid t)"
    if "\<And>c. c < nat n \<Longrightarrow> cu_inv (?own (cu_at t d c)) \<and> cu_deviceId (?own (cu_at t d c)) = int d"
  proof -
    have "sys_inv ?t2"
      by (rule upd_cus_sys_inv [OF I]) (use d loaded n C [of d] E that in \<open>simp_all add: nat_mono\<close>)
    from same_cus_sys_inv [OF sc3 this] show ?thesis by (simp add: own_all_def sys_inv_def)
  qed
qed

lemma own_all_grants:
  assumes it: "sys_inv t" and d: "int d < m_numDevice t" and loaded: "dv_isLoaded (dev_at t d)"
    and n: "n \<le> numCu (dev_at t d)"
  shows "grants (own_all d n clientId pid t) = owned_grants d (nat n) clientId pid t (grants t)"
proof
  fix k :: "nat \<times> nat \<times> nat"
  obtain d' c i where k: "k = (d', c, i)" by (metis prod_cases3)
  let ?s = "own_all d n clientId pid t"
  note F = own_all_frame [OF assms, where clientId = clientId and pid = pid]
  show "grants ?s k = owned_grants d (nat n) clientId pid t (grants t) k"
  proof (cases "d' = d \<and> c < nat n")
    case False
    then have "chan_at ?s d' c i = chan_at t d' c i" using F(1) [of d' c] by (auto simp: chan_at_def)
    with False F(2) show ?thesis by (auto simp: k grants_def owned_grants_def)
  next
    case True
    then have vt: "valid_cu t d c" using d n by (auto simp: valid_cu_def)
    have l: "length (cu_channels (cu_at t d c)) = XRM_MAX_KERNEL_CHANNELS"
      using valid_cu_inv [OF it vt] by (simp add: cu_inv_def cu_acct_def chans_inv_def)
    have ch: "chan_at ?s d c i = (if i = 0 then owner_channel clientId pid (getNextAllocServiceId t) (chan_at t d c 0)
        else chan_at t d c i)" if "i < XRM_MAX_KERNEL_CHANNELS"
      using F(1) [of d c] own_cu_fields(1) True that l by (simp add: chan_at_def)
    have "in_use (owner_channel clientId pid svc ch)" for svc ch by (simp add: in_use_def owner_channel_def)
    then show ?thesis using True F(2) vt ch limit_pos by (auto simp: k grants_def owned_grants_def)
  qed
qed

lemma resLoadAndAllocAllCu_spec:
  assumes inv: "sys_inv s" and drv: "driver_ok x" and client: "clientId \<noteq> 0"
    and run: "resLoadAndAllocAllCu x xclbin clientId pid (lr, s) = (ret, lr', s')"
  shows "sys_inv s'"
    "if ret = XRM_SUCCESS
     then \<exists>t d. dev_step s t \<and> freshly_loaded xclbin d t \<and>
       lr_cuNum lr' = min (numCu (dev_at t d)) (int XRM_MAX_LIST_CU_NUM) \<and>
       grants s' = owned_grants d (nat (lr_cuNum lr')) clientId pid t (grants s)
     else grants s' = grants s"
proof -
  obtain r devId t where load: "loadAnyDevice x xclbin (- 1) s = (r, devId, t)" by (metis prod_cases3)
  note L = load_on_demand [OF inv drv load]
  have both: "sys_inv s' \<and> (if ret = XRM_SUCCESS
     then \<exists>t d. dev_step s t \<and> freshly_loaded xclbin d t \<and>
       lr_cuNum lr' = min (numCu (dev_at t d)) (int XRM_MAX_LIST_CU_NUM) \<and>
       grants s' = owned_grants d (nat (lr_cuNum lr')) clientId pid t (grants s)
     else grants s' = grants s)"
  proof (cases "r = XRM_SUCCESS")
    case False
    then have "ret = r \<and> s' = t" using run load by (simp add: resLoadAndAllocAllCu_def)
    with False L(1) show ?thesis by (simp add: dev_step_def)
  next
    case True
    obtain d where d: "devId = int d" and fresh: "freshly_loaded xclbin d t"
      using loadAnyDevice_fresh [OF inv drv] load True by blast
    have it: "sys_inv t" and gt: "grants t = grants s" using L(1) by (simp_all add: dev_step_def)
    have dn: "int d < m_numDevice t" and idle: "idle_dev (dev_at t d)" and loaded: "dv_isLoaded (dev_at t d)"
      using fresh by (simp_all add: freshly_loaded_def)
    let ?n = "min (numCu (dev_at t d)) (int XRM_MAX_LIST_CU_NUM)"
    have n: "?n \<le> numCu (dev_at t d)" by simp
    have r: "ret = XRM_SUCCESS" "lr_cuNum lr' = ?n" "s' = own_all d ?n clientId pid t"
      using own_all_run [OF _ run] load True d by simp_all
    have "sys_inv s'" unfolding r(3)
      by (rule own_all_frame(3) [OF it dn loaded n]) (rule owned_idle [OF it dn idle client], simp)
    moreover have "grants s' = owned_grants d (nat (lr_cuNum lr')) clientId pid t (grants s)"
      using own_all_grants [OF it dn loaded n, of clientId pid] gt r(2,3) by simp
    ultimately show ?thesis using r L(1) fresh unfolding if_P [OF r(1)] by blast
  qed
  show "sys_inv s'" using both by simp
  show "if ret = XRM_SUCCESS
     then \<exists>t d. dev_step s t \<and> freshly_loaded xclbin d t \<and>
       lr_cuNum lr' = min (numCu (dev_at t d)) (int XRM_MAX_LIST_CU_NUM) \<and>
       grants s' = owned_grants d (nat (lr_cuNum lr')) clientId pid t (grants s)
     else grants s' = grants s" using both by (rule conjunct2)
qed

end
