(* ===== verification/Xrm_Plugins.thy ===== *)
theory Xrm_Plugins
  imports Xrm_Tables
begin

text \<open>
  The plugins: \<open>loadXrmPlugins\<close>, \<open>unloadXrmPlugins\<close>, \<open>execXrmPluginFunc\<close> and their parts, over the table
  \<open>m_xrmPluginList\<close>. The dynamic loader is a parameter of the model: the file name gives a handle or an
  error, the handle and the plugin name the table of entry points or an error. Log and error texts are left
  out. The table is an instance of the slot table.
\<close>

section \<open>The operations\<close>

text \<open>\<open>dlopen\<close> of a file, then \<open>dlsym\<close> of a symbol of it; \<open>None\<close> is the error of either.\<close>

type_synonym loader = "string \<Rightarrow> (string \<Rightarrow> xrmPluginData option) option"

definition XRM_API_VERSION_1 :: int where "XRM_API_VERSION_1 = 1"

definition flushed_plugin :: pluginInformation where
  "flushed_plugin = \<lparr> pl_xrmPluginName = [], pl_xrmPluginFileName = [],
     pl_pluginData = \<lparr> pg_pluginVersion = None, pg_apiVersion = None,
       pg_pluginFunc = replicate (XRM_MAX_PLUGIN_FUNC_ID + 1) None \<rparr> \<rparr>"

definition flushXrmPluginInfo :: "nat \<Rightarrow> system \<Rightarrow> system" where
  "flushXrmPluginInfo i s = s\<lparr>m_xrmPluginList := (m_xrmPluginList s)[i := flushed_plugin]\<rparr>"

definition initXrmPlugins :: "system \<Rightarrow> system" where
  "initXrmPlugins s = fold flushXrmPluginInfo [0..<XRM_MAX_PLUGIN_NUM] (s\<lparr>m_numXrmPlugin := 0\<rparr>)"

definition find_plugin :: "string \<Rightarrow> system \<Rightarrow> nat option" where
  "find_plugin name s =
     first_index (m_numXrmPlugin s) (\<lambda>i. pl_xrmPluginName (m_xrmPluginList s ! i) = c_str name)"

definition loadOneXrmPlugin :: "loader \<Rightarrow> string \<Rightarrow> string \<Rightarrow> system \<Rightarrow> int \<times> system" where
  "loadOneXrmPlugin dl fileName name s =
     (if m_numXrmPlugin s \<ge> XRM_MAX_PLUGIN_NUM then (XRM_ERROR, s)
      else if find_plugin name s \<noteq> None then (XRM_ERROR, s)
      else case dl (c_str fileName) of
             None \<Rightarrow> (XRM_ERROR, s)
           | Some dlsym \<Rightarrow>
               (case dlsym (c_str name) of
                  None \<Rightarrow> (XRM_ERROR, s)
                | Some plugin \<Rightarrow>
                    if pg_apiVersion plugin = None then (XRM_ERROR, s)
                    else if pg_apiVersion plugin \<noteq> Some XRM_API_VERSION_1 then (XRM_ERROR, s)
                    else if pg_pluginVersion plugin = None then (XRM_ERROR, s)
                    else (XRM_SUCCESS,
                          s\<lparr>m_xrmPluginList := (m_xrmPluginList s)[m_numXrmPlugin s := \<lparr>
                               pl_xrmPluginName = name, pl_xrmPluginFileName = fileName,
                               pl_pluginData = plugin\<rparr>],
                            m_numXrmPlugin := m_numXrmPlugin s + 1\<rparr>)))"

fun loadXrmPlugins :: "loader \<Rightarrow> (string \<times> string) list \<Rightarrow> int \<times> system \<Rightarrow> int \<times> system" where
  "loadXrmPlugins dl [] (ret, s) = (ret, s)"
| "loadXrmPlugins dl ((fileName, name) # rest) (ret, s) =
     (if c_str fileName = [] then (XRM_ERROR_INVALID, s)
      else if c_str name = [] then (XRM_ERROR_INVALID, s)
      else case loadOneXrmPlugin dl fileName name s of
             (ret', s') \<Rightarrow> if ret' \<noteq> XRM_SUCCESS then (ret', s') else loadXrmPlugins dl rest (ret', s'))"

definition unloadOneXrmPlugin :: "string \<Rightarrow> system \<Rightarrow> int \<times> system" where
  "unloadOneXrmPlugin name s =
     (case find_plugin name s of
        None \<Rightarrow> (XRM_ERROR, s)
      | Some i \<Rightarrow> (XRM_SUCCESS, s\<lparr>
            m_xrmPluginList := remove_slot i (m_numXrmPlugin s) flushed_plugin (m_xrmPluginList s),
            m_numXrmPlugin := m_numXrmPlugin s - 1\<rparr>))"

fun unloadXrmPlugins :: "string list \<Rightarrow> int \<times> system \<Rightarrow> int \<times> system" where
  "unloadXrmPlugins [] (ret, s) = (ret, s)"
| "unloadXrmPlugins (name # rest) (ret, s) =
     (if c_str name = [] then (XRM_ERROR_INVALID, s)
      else case unloadOneXrmPlugin name s of
             (ret', s') \<Rightarrow> if ret' \<noteq> XRM_SUCCESS then (ret', s') else unloadXrmPlugins rest (ret', s'))"

definition listXrmPlugin :: "nat \<Rightarrow> system \<Rightarrow> pluginInformation" where
  "listXrmPlugin pluginId s = m_xrmPluginList s ! pluginId"

definition getXrmPluginNumber :: "system \<Rightarrow> nat" where
  "getXrmPluginNumber s = m_numXrmPlugin s"

text \<open>\<open>execXrmPluginFunc\<close>: the function gets the parameter block and may write it.\<close>

definition execXrmPluginFunc :: "string \<Rightarrow> u32 \<Rightarrow> xrmPluginFuncParam \<Rightarrow> system \<Rightarrow> int \<times> xrmPluginFuncParam" where
  "execXrmPluginFunc name funcId param s =
     (if c_str name = [] then (XRM_ERROR_INVALID, param)
      else if unat funcId > XRM_MAX_PLUGIN_FUNC_ID then (XRM_ERROR_INVALID, param)
      else case find_plugin name s of
             None \<Rightarrow> (XRM_ERROR_INVALID, param)
           | Some i \<Rightarrow>
               (case pg_pluginFunc (pl_pluginData (m_xrmPluginList s ! i)) ! unat funcId of
                  None \<Rightarrow> (XRM_ERROR_INVALID, param)
                | Some f \<Rightarrow> f param))"

section \<open>The table of plugins\<close>

text \<open>
  A plugin can be loaded when the loader gives its entry points, for version 1 of the interface. The names
  of a request have no null character.
\<close>

definition plugin_ok :: "pluginInformation \<Rightarrow> bool" where
  "plugin_ok p \<longleftrightarrow> length (pg_pluginFunc (pl_pluginData p)) = XRM_MAX_PLUGIN_FUNC_ID + 1"

definition provides :: "loader \<Rightarrow> pluginInformation \<Rightarrow> bool" where
  "provides dl p \<longleftrightarrow> CHR 0x00 \<notin> set (pl_xrmPluginName p) \<and>
     (case dl (c_str (pl_xrmPluginFileName p)) of
        None \<Rightarrow> False | Some dlsym \<Rightarrow> dlsym (pl_xrmPluginName p) = Some (pl_pluginData p)) \<and>
     pg_apiVersion (pl_pluginData p) = Some XRM_API_VERSION_1 \<and> pg_pluginVersion (pl_pluginData p) \<noteq> None \<and>
     plugin_ok p"

lemma load_free:
  assumes "find_plugin (pl_xrmPluginName p) s = None" "provides dl p" "m_numXrmPlugin s < XRM_MAX_PLUGIN_NUM"
  shows "loadOneXrmPlugin dl (pl_xrmPluginFileName p) (pl_xrmPluginName p) s = (XRM_SUCCESS, s\<lparr>
      m_xrmPluginList := (m_xrmPluginList s)[m_numXrmPlugin s := p], m_numXrmPlugin := m_numXrmPlugin s + 1\<rparr>)"
proof -
  have eta: "\<lparr>pl_xrmPluginName = pl_xrmPluginName p, pl_xrmPluginFileName = pl_xrmPluginFileName p,
      pl_pluginData = pl_pluginData p\<rparr> = p" by simp
  have "c_str (pl_xrmPluginName p) = pl_xrmPluginName p" using assms(2) by (simp add: provides_def c_str_no_nul)
  with assms show ?thesis
    by (auto simp: loadOneXrmPlugin_def provides_def eta split: option.splits)
qed

interpretation plugin_table: array_table m_xrmPluginList m_numXrmPlugin
  "\<lambda>xs n. m_xrmPluginList_update (\<lambda>_. xs) \<circ> m_numXrmPlugin_update (\<lambda>_. n)" XRM_MAX_PLUGIN_NUM
  pl_xrmPluginName "\<lambda>a b. a" "\<lambda>a. flushed_plugin" "\<lambda>p. p" plugin_ok "provides dl"
  "\<lambda>p. loadOneXrmPlugin dl (pl_xrmPluginFileName p) (pl_xrmPluginName p)" unloadOneXrmPlugin for dl
proof unfold_locales
  fix s :: system and e :: pluginInformation
  let ?found = "first_index (m_numXrmPlugin s) (\<lambda>i. pl_xrmPluginName (m_xrmPluginList s ! i) = c_str (pl_xrmPluginName e))"
  show "loadOneXrmPlugin dl (pl_xrmPluginFileName e) (pl_xrmPluginName e) s = (XRM_SUCCESS,
      (m_xrmPluginList_update (\<lambda>_. (m_xrmPluginList s)[m_numXrmPlugin s := e]) \<circ>
       m_numXrmPlugin_update (\<lambda>_. m_numXrmPlugin s + 1)) s)"
    if "?found = None" "provides dl e" "m_numXrmPlugin s < XRM_MAX_PLUGIN_NUM"
    using load_free [of e s dl] that unfolding find_plugin_def by simp
  show "fst (loadOneXrmPlugin dl (pl_xrmPluginFileName e) (pl_xrmPluginName e) s) \<noteq> XRM_SUCCESS \<and>
      snd (loadOneXrmPlugin dl (pl_xrmPluginFileName e) (pl_xrmPluginName e) s) = s" if "?found \<noteq> None"
    using that unfolding loadOneXrmPlugin_def find_plugin_def by simp
  fix k i
  let ?found = "first_index (m_numXrmPlugin s) (\<lambda>i. pl_xrmPluginName (m_xrmPluginList s ! i) = c_str k)"
  show "unloadOneXrmPlugin k s = (XRM_SUCCESS,
      (m_xrmPluginList_update (\<lambda>_. remove_with (\<lambda>a b. a) (\<lambda>a. flushed_plugin) i (m_numXrmPlugin s) (m_xrmPluginList s)) \<circ>
       m_numXrmPlugin_update (\<lambda>_. m_numXrmPlugin s - 1)) s)" if "?found = Some i"
    using that unfolding unloadOneXrmPlugin_def find_plugin_def by (simp add: remove_with_plain)
  show "fst (unloadOneXrmPlugin k s) \<noteq> XRM_SUCCESS \<and> snd (unloadOneXrmPlugin k s) = s" if "?found = None"
    unfolding unloadOneXrmPlugin_def find_plugin_def that by simp
qed (auto simp: provides_def plugin_ok_def flushed_plugin_def)

text \<open>The table and its invariant, in terms of the model.\<close>

definition plugins :: "system \<Rightarrow> pluginInformation list" where
  "plugins s = take (m_numXrmPlugin s) (m_xrmPluginList s)"

definition plugins_inv :: "system \<Rightarrow> bool" where
  "plugins_inv s \<longleftrightarrow> length (m_xrmPluginList s) = XRM_MAX_PLUGIN_NUM \<and>
     m_numXrmPlugin s \<le> XRM_MAX_PLUGIN_NUM \<and> (\<forall>p\<in>set (m_xrmPluginList s). plugin_ok p) \<and>
     (\<forall>p\<in>set (plugins s). CHR 0x00 \<notin> set (pl_xrmPluginName p)) \<and> distinct (map pl_xrmPluginName (plugins s))"

lemma plugins_eq: "plugin_table.in_use = plugins"
  by (simp add: fun_eq_iff plugin_table.in_use_def plugins_def)

lemma plugins_inv_eq: "plugin_table.table_ok = plugins_inv"
  by (simp add: fun_eq_iff plugin_table.table_ok_def plugins_inv_def plugins_eq)

section \<open>Executing a plugin function\<close>

text \<open>
  The execution depends on the table only through its map: it runs the function of the plugin with
  that name, and answers with an error when the name, the number or the function is missing.
\<close>

lemma execXrmPluginFunc_table:
  assumes inv: "plugins_inv s"
  shows "execXrmPluginFunc name funcId param s =
    (if c_str name = [] \<or> unat funcId > XRM_MAX_PLUGIN_FUNC_ID then (XRM_ERROR_INVALID, param)
     else case table_map pl_xrmPluginName (plugins s) (c_str name) of
            None \<Rightarrow> (XRM_ERROR_INVALID, param)
          | Some p \<Rightarrow> (case pg_pluginFunc (pl_pluginData p) ! unat funcId of
                         None \<Rightarrow> (XRM_ERROR_INVALID, param) | Some f \<Rightarrow> f param))"
proof -
  have ok: "plugin_table.table_ok s" using inv by (simp add: plugins_inv_eq)
  have "plugins s ! i = m_xrmPluginList s ! i" if "find_plugin name s = Some i" for i
    using that unfolding find_plugin_def plugins_def by (auto dest: first_index_SomeD)
  then have "table_map pl_xrmPluginName (plugins s) (c_str name) =
      map_option (\<lambda>i. m_xrmPluginList s ! i) (find_plugin name s)"
    unfolding plugins_eq [symmetric] plugin_table.lookup_in_use [OF ok] find_plugin_def [symmetric]
    by (auto simp: plugins_eq intro: option.map_cong0)
  then show ?thesis by (auto simp: execXrmPluginFunc_def split: option.splits)
qed

lemma initXrmPlugins_inv:
  assumes "length (m_xrmPluginList s) = XRM_MAX_PLUGIN_NUM"
  shows "plugins_inv (initXrmPlugins s)" "plugins (initXrmPlugins s) = []"
proof -
  have flush: "length xs = n \<Longrightarrow> k \<le> n \<Longrightarrow>
      fold flushXrmPluginInfo [0..<k] (t\<lparr>m_xrmPluginList := xs\<rparr>) =
      t\<lparr>m_xrmPluginList := replicate k flushed_plugin @ drop k xs\<rparr>" for xs n k t
    by (induction k)
      (auto simp: flushXrmPluginInfo_def list_update_append replicate_append_same
        Cons_nth_drop_Suc [symmetric])
  have "initXrmPlugins s = s\<lparr>m_xrmPluginList := replicate XRM_MAX_PLUGIN_NUM flushed_plugin, m_numXrmPlugin := 0\<rparr>"
    using flush [OF assms order_refl, of "s\<lparr>m_numXrmPlugin := 0\<rparr>"] assms by (simp add: initXrmPlugins_def)
  then show "plugins_inv (initXrmPlugins s)" "plugins (initXrmPlugins s) = []"
    by (simp_all add: plugins_inv_def plugins_def plugin_ok_def flushed_plugin_def)
qed

end
