(* ===== verification/Xrm_Plugin_Example.thy ===== *)
theory Xrm_Plugin_Example
  imports Xrm_Plugins
begin

text \<open>
  The plugin that comes with the daemon (xrm_plugin_example.cpp): eight functions that copy their input to their
  output. The loader accepts it, and a request for any of its functions runs it.
\<close>

section \<open>The plugin\<close>

definition EXAMPLE_PLUGIN_VERSION :: int where "EXAMPLE_PLUGIN_VERSION = 1"

definition xrmPluginExamplePluginVersion :: int where
  "xrmPluginExamplePluginVersion = EXAMPLE_PLUGIN_VERSION"

definition xrmPluginExampleApiVersion :: int where
  "xrmPluginExampleApiVersion = XRM_API_VERSION_1"

text \<open>\<open>memcpy\<close> copies the whole buffer, and with it its text.\<close>

definition xrmPluginExampleFunc_0 :: "xrmPluginFuncParam \<Rightarrow> int \<times> xrmPluginFuncParam" where
  "xrmPluginExampleFunc_0 param = (XRM_SUCCESS, param\<lparr>pf_output := pf_input param\<rparr>)"

definition xrmPluginExampleFunc_1 :: "xrmPluginFuncParam \<Rightarrow> int \<times> xrmPluginFuncParam" where
  "xrmPluginExampleFunc_1 param = (XRM_SUCCESS, param\<lparr>pf_output := pf_input param\<rparr>)"

definition xrmPluginExampleFunc_2 :: "xrmPluginFuncParam \<Rightarrow> int \<times> xrmPluginFuncParam" where
  "xrmPluginExampleFunc_2 param = (XRM_SUCCESS, param\<lparr>pf_output := pf_input param\<rparr>)"

definition xrmPluginExampleFunc_3 :: "xrmPluginFuncParam \<Rightarrow> int \<times> xrmPluginFuncParam" where
  "xrmPluginExampleFunc_3 param = (XRM_SUCCESS, param\<lparr>pf_output := pf_input param\<rparr>)"

definition xrmPluginExampleFunc_4 :: "xrmPluginFuncParam \<Rightarrow> int \<times> xrmPluginFuncParam" where
  "xrmPluginExampleFunc_4 param = (XRM_SUCCESS, param\<lparr>pf_output := pf_input param\<rparr>)"

definition xrmPluginExampleFunc_5 :: "xrmPluginFuncParam \<Rightarrow> int \<times> xrmPluginFuncParam" where
  "xrmPluginExampleFunc_5 param = (XRM_SUCCESS, param\<lparr>pf_output := pf_input param\<rparr>)"

definition xrmPluginExampleFunc_6 :: "xrmPluginFuncParam \<Rightarrow> int \<times> xrmPluginFuncParam" where
  "xrmPluginExampleFunc_6 param = (XRM_SUCCESS, param\<lparr>pf_output := pf_input param\<rparr>)"

definition xrmPluginExampleFunc_7 :: "xrmPluginFuncParam \<Rightarrow> int \<times> xrmPluginFuncParam" where
  "xrmPluginExampleFunc_7 param = (XRM_SUCCESS, param\<lparr>pf_output := pf_input param\<rparr>)"

definition xrmPluginExample :: xrmPluginData where
  "xrmPluginExample = \<lparr> pg_pluginVersion = Some xrmPluginExamplePluginVersion,
     pg_apiVersion = Some xrmPluginExampleApiVersion,
     pg_pluginFunc = [Some xrmPluginExampleFunc_0, Some xrmPluginExampleFunc_1, Some xrmPluginExampleFunc_2,
       Some xrmPluginExampleFunc_3, Some xrmPluginExampleFunc_4, Some xrmPluginExampleFunc_5,
       Some xrmPluginExampleFunc_6, Some xrmPluginExampleFunc_7] \<rparr>"

section \<open>The plugin in the daemon\<close>

lemmas example_functions = xrmPluginExampleFunc_0_def xrmPluginExampleFunc_1_def xrmPluginExampleFunc_2_def
  xrmPluginExampleFunc_3_def xrmPluginExampleFunc_4_def xrmPluginExampleFunc_5_def xrmPluginExampleFunc_6_def
  xrmPluginExampleFunc_7_def

lemma example_function:
  assumes "n \<le> XRM_MAX_PLUGIN_FUNC_ID"
  shows "\<exists>f. pg_pluginFunc xrmPluginExample ! n = Some f \<and> (\<forall>param. f param = (XRM_SUCCESS, param\<lparr>pf_output := pf_input param\<rparr>))"
proof -
  have "n \<in> {0, 1, 2, 3, 4, 5, 6, 7}" using assms by (auto simp: XRM_MAX_PLUGIN_FUNC_ID_def)
  then show ?thesis by (elim insertE emptyE) (simp_all add: xrmPluginExample_def example_functions)
qed

text \<open>The library file, under any name without a null character, provides the plugin under its symbol.\<close>

definition example_plugin :: "string \<Rightarrow> pluginInformation" where
  "example_plugin fileName = \<lparr> pl_xrmPluginName = ''xrmPluginExample'', pl_xrmPluginFileName = fileName,
     pl_pluginData = xrmPluginExample \<rparr>"

lemma example_provided:
  assumes "dl (c_str fileName) = Some dlsym" "dlsym ''xrmPluginExample'' = Some xrmPluginExample"
  shows "provides dl (example_plugin fileName)"
  using assms by (simp add: provides_def example_plugin_def xrmPluginExample_def xrmPluginExampleApiVersion_def plugin_ok_def
      XRM_MAX_PLUGIN_FUNC_ID_def)

text \<open>Once it is in the table, every one of its functions answers with its input.\<close>

lemma example_executes:
  assumes "plugins_inv s" "unat funcId \<le> XRM_MAX_PLUGIN_FUNC_ID"
    and "table_map pl_xrmPluginName (plugins s) ''xrmPluginExample'' = Some (example_plugin fileName)"
  shows "execXrmPluginFunc ''xrmPluginExample'' funcId param s = (XRM_SUCCESS, param\<lparr>pf_output := pf_input param\<rparr>)"
proof -
  obtain f where f: "pg_pluginFunc xrmPluginExample ! unat funcId = Some f"
    "\<forall>param. f param = (XRM_SUCCESS, param\<lparr>pf_output := pf_input param\<rparr>)"
    using example_function [OF assms(2)] by blast
  have "c_str ''xrmPluginExample'' = ''xrmPluginExample''" by (simp add: c_str_def)
  then show ?thesis
    using assms f by (simp add: execXrmPluginFunc_table [OF assms(1)] example_plugin_def not_less [symmetric] del: not_less)
qed

end
