(* ===== verification/Xrm_Wire.thy ===== *)
theory Xrm_Wire
  imports Xrm_Reserve "HOL-Library.Monad_Syntax"
begin

text \<open>
  The messages between the client library and the daemon. Both sides keep a message as a
  \<open>boost::property_tree::ptree\<close>: a tree of strings addressed by dotted paths, whose numbers are written by
  \<open>std::to_string\<close> or \<open>operator<<\<close> and read back by \<open>operator>>\<close>. The tree itself is a library the code only calls,
  the parameter \<open>ptree\<close> below; the text of the numbers is modelled, and reading a written number gives it
  back.
\<close>

section \<open>Numbers as text\<close>

definition digit_char :: "nat \<Rightarrow> char" where
  "digit_char d = char_of (48 + d)"

fun show_nat :: "nat \<Rightarrow> string" where
  "show_nat n = (if n < 10 then [digit_char n] else show_nat (n div 10) @ [digit_char (n mod 10)])"

declare show_nat.simps [simp del]

definition show_int :: "int \<Rightarrow> string" where
  "show_int i = (if i < 0 then CHR ''-'' # show_nat (nat (- i)) else show_nat (nat i))"

definition show_word :: "'a :: len word \<Rightarrow> string" where
  "show_word w = show_nat (unat w)"

definition is_space :: "char \<Rightarrow> bool" where
  "is_space c \<longleftrightarrow> c \<in> {CHR '' '', CHR 0x09, CHR 0x0A, CHR 0x0B, CHR 0x0C, CHR 0x0D}"

definition is_digit :: "char \<Rightarrow> bool" where
  "is_digit c \<longleftrightarrow> 48 \<le> (of_char c :: nat) \<and> (of_char c :: nat) \<le> 57"

definition digits_value :: "string \<Rightarrow> nat" where
  "digits_value ds = fold (\<lambda>c n. 10 * n + (of_char c - 48)) ds 0"

text \<open>
  \<open>ptree::get<T>\<close> for a number: blanks, a sign, digits, blanks, and the end of the text. The result is the sign
  and the magnitude; what follows the number but a blank is an error.
\<close>

definition scan_number :: "string \<Rightarrow> (bool \<times> nat) option" where
  "scan_number text =
     (let s = dropWhile is_space text;
          (neg, s) = (case s of c # rest \<Rightarrow> if c = CHR ''-'' then (True, rest)
                                  else if c = CHR ''+'' then (False, rest) else (False, s)
                      | [] \<Rightarrow> (False, s));
          ds = takeWhile is_digit s
      in if ds = [] \<or> dropWhile is_space (dropWhile is_digit s) \<noteq> [] then None
         else Some (neg, digits_value ds))"

definition read_signed :: "int \<Rightarrow> string \<Rightarrow> int option" where
  "read_signed bound s =
     (case scan_number s of
        None \<Rightarrow> None
      | Some (neg, n) \<Rightarrow> let v = (if neg then - int n else int n)
                          in if v < - bound \<or> bound \<le> v then None else Some v)"

definition read_i32 :: "string \<Rightarrow> int option" where
  "read_i32 = read_signed 2147483648"

definition read_i64 :: "string \<Rightarrow> int option" where
  "read_i64 = read_signed 9223372036854775808"

text \<open>An unsigned number may have a minus sign: it is negated in its width.\<close>

definition read_unsigned :: "string \<Rightarrow> 'a :: len word option" where
  "read_unsigned s =
     (case scan_number s of
        None \<Rightarrow> None
      | Some (neg, n) \<Rightarrow> if 2 ^ LENGTH('a) \<le> n then None
                          else Some (if neg then - of_nat n else of_nat n))"

definition read_u64 :: "string \<Rightarrow> u64 option" where
  "read_u64 = read_unsigned"

definition read_u32 :: "string \<Rightarrow> u32 option" where
  "read_u32 = read_unsigned"

section \<open>The property tree\<close>

text \<open>
  What the code uses of the tree: \<open>put\<close>, the text at a path (\<open>None\<close> when there is no such node; the empty path
  is the node itself), and the children of a node in their order (\<open>get_child_optional\<close> and the iteration). A path
  that ends in a dot is the path without it.
\<close>

record 'm ptree =
  pt_empty :: 'm
  pt_put :: "string \<Rightarrow> string \<Rightarrow> 'm \<Rightarrow> 'm"
  pt_get :: "string \<Rightarrow> 'm \<Rightarrow> string option"
  pt_children :: "string \<Rightarrow> 'm \<Rightarrow> 'm list option"

text \<open>
  The documented behaviour the code relies on: a value that was put is there, and a \<open>put\<close> changes no other path
  but those it extends, which it creates when they are missing (and the same path with a dot at its end). The empty
  tree has no node but its root.
\<close>

definition extends :: "string \<Rightarrow> string \<Rightarrow> bool" where
  "extends p q \<longleftrightarrow> take (length q + 1) p = q @ ''.'' \<or> q = p @ ''.''"

definition ptree_ok :: "'m ptree \<Rightarrow> bool" where
  "ptree_ok P \<longleftrightarrow>
     (\<forall>p v m. pt_get P p (pt_put P p v m) = Some v) \<and>
     (\<forall>p q v m. p \<noteq> q \<longrightarrow> \<not> extends p q \<longrightarrow> pt_get P q (pt_put P p v m) = pt_get P q m) \<and>
     (\<forall>p. p \<noteq> [] \<longrightarrow> last p \<noteq> CHR ''.'' \<longrightarrow> pt_get P p (pt_empty P) = None)"

fun put_all :: "'m ptree \<Rightarrow> (string \<times> string) list \<Rightarrow> 'm \<Rightarrow> 'm" where
  "put_all P [] m = m"
| "put_all P ((p, v) # rest) m = put_all P rest (pt_put P p v m)"

definition get_str :: "'m ptree \<Rightarrow> string \<Rightarrow> 'm \<Rightarrow> string option" where
  "get_str P path m = pt_get P path m"

definition get_i32 :: "'m ptree \<Rightarrow> string \<Rightarrow> 'm \<Rightarrow> int option" where
  "get_i32 P path m = Option.bind (pt_get P path m) read_i32"

definition get_i64 :: "'m ptree \<Rightarrow> string \<Rightarrow> 'm \<Rightarrow> int option" where
  "get_i64 P path m = Option.bind (pt_get P path m) read_i64"

definition get_u64 :: "'m ptree \<Rightarrow> string \<Rightarrow> 'm \<Rightarrow> u64 option" where
  "get_u64 P path m = Option.bind (pt_get P path m) read_u64"

definition get_u32 :: "'m ptree \<Rightarrow> string \<Rightarrow> 'm \<Rightarrow> u32 option" where
  "get_u32 P path m = Option.bind (pt_get P path m) read_u32"

text \<open>\<open>get(path, "")\<close>\<close>

definition get_or_empty :: "'m ptree \<Rightarrow> string \<Rightarrow> 'm \<Rightarrow> string" where
  "get_or_empty P path m = (case pt_get P path m of None \<Rightarrow> [] | Some v \<Rightarrow> v)"

section \<open>Reading a request\<close>

text \<open>
  A request that cannot be read throws (a missing or ill-typed parameter). The members of a list are read
  into an array: the number of members comes from the message, and the member past the end is written
  out of bounds.
\<close>

datatype 'a parsed = Throws | Overruns | Parsed 'a

fun and_then :: "'a parsed \<Rightarrow> ('a \<Rightarrow> 'b parsed) \<Rightarrow> 'b parsed" where
  "and_then Throws f = Throws"
| "and_then Overruns f = Overruns"
| "and_then (Parsed a) f = f a"

definition of_option :: "'a option \<Rightarrow> 'a parsed" where
  "of_option opt = (case opt of None \<Rightarrow> Throws | Some a \<Rightarrow> Parsed a)"

definition map_parsed :: "('a \<Rightarrow> 'b) \<Rightarrow> 'a parsed \<Rightarrow> 'b parsed" where
  "map_parsed f p = and_then p (\<lambda>a. Parsed (f a))"

text \<open>
  The loop over the members: \<open>rd i\<close> reads what member \<open>i\<close> needs before its first write, and gives the
  change of the array element.
\<close>

fun read_into :: "(nat \<Rightarrow> ('a \<Rightarrow> 'a parsed) option) \<Rightarrow> nat list \<Rightarrow> 'a list \<Rightarrow> 'a list parsed" where
  "read_into rd [] xs = Parsed xs"
| "read_into rd (i # is) xs =
     (case rd i of
        None \<Rightarrow> Throws
      | Some f \<Rightarrow> if length xs \<le> i then Overruns
                   else and_then (f (xs ! i)) (\<lambda>x. read_into rd is (xs[i := x])))"

definition read_members :: "(nat \<Rightarrow> ('a \<Rightarrow> 'a) option) \<Rightarrow> int \<Rightarrow> 'a list \<Rightarrow> 'a list parsed" where
  "read_members rd n xs = read_into (\<lambda>i. map_option (\<lambda>f x. Parsed (f x)) (rd i)) [0..<nat n] xs"

section \<open>Properties of the numbers\<close>

lemma digit_char_value: "d < 10 \<Longrightarrow> of_char (digit_char d) = (48 + d :: nat)"
  by (simp add: digit_char_def)

lemma digit_char_is_digit: "d < 10 \<Longrightarrow> is_digit (digit_char d)"
  by (simp add: is_digit_def digit_char_value)

lemma show_nat_digits: "set (show_nat n) \<subseteq> Collect is_digit \<and> show_nat n \<noteq> []"
proof (induction n rule: show_nat.induct)
  case (1 n)
  then show ?case
    by (subst (1 2) show_nat.simps) (auto simp: digit_char_is_digit)
qed

lemma digits_value_snoc: "digits_value (ds @ [c]) = 10 * digits_value ds + (of_char c - 48)"
  by (simp add: digits_value_def)

lemma digits_value_show: "digits_value (show_nat n) = n"
proof (induction n rule: show_nat.induct)
  case (1 n)
  show ?case
  proof (cases "n < 10")
    case True
    then show ?thesis by (subst show_nat.simps) (simp add: digits_value_def digit_char_value)
  next
    case False
    then have "digits_value (show_nat n) = 10 * (n div 10) + n mod 10"
      by (subst show_nat.simps) (simp add: digits_value_snoc 1 digit_char_value)
    then show ?thesis by simp
  qed
qed

lemma digit_not_special: "is_digit c \<Longrightarrow> \<not> is_space c \<and> c \<noteq> CHR ''-'' \<and> c \<noteq> CHR ''+'' \<and> c \<noteq> CHR 0x00 \<and> c \<noteq> CHR ''.''"
  by (auto simp: is_digit_def is_space_def)

lemma show_nat_head: "\<exists>c cs. show_nat n = c # cs \<and> is_digit c"
  using show_nat_digits [of n] by (cases "show_nat n") auto

lemma scan_show_nat: "scan_number (show_nat n) = Some (False, n)"
proof -
  obtain c cs where c: "show_nat n = c # cs" "is_digit c" using show_nat_head by blast
  have "\<forall>x\<in>set cs. is_digit x" using show_nat_digits [of n] c(1) by auto
  then have tw: "takeWhile is_digit cs = cs" "dropWhile is_digit cs = []"
    by (simp_all add: takeWhile_eq_all_conv dropWhile_eq_Nil_conv)
  show ?thesis
    using digit_not_special [OF c(2)] c digits_value_show [of n] by (simp add: scan_number_def tw)
qed

lemma scan_show_int: "scan_number (show_int i) = Some (i < 0, nat \<bar>i\<bar>)"
proof (cases "i < 0")
  case False
  then show ?thesis using scan_show_nat [of "nat i"] by (simp add: show_int_def)
next
  case True
  have ds: "takeWhile is_digit (show_nat n) = show_nat n" "dropWhile is_digit (show_nat n) = []" for n
    using show_nat_digits [of n] by (auto simp: takeWhile_eq_all_conv dropWhile_eq_Nil_conv)
  have "\<not> is_space (CHR ''-'')" by (simp add: is_space_def)
  then show ?thesis using True show_nat_digits [of "nat (- i)"]
    by (simp add: show_int_def scan_number_def ds digits_value_show)
qed

lemma read_i32_show [simp]: "- 2147483648 \<le> i \<Longrightarrow> i < 2147483648 \<Longrightarrow> read_i32 (show_int i) = Some i"
  by (simp add: read_i32_def read_signed_def scan_show_int Let_def)

lemma read_i64_show [simp]:
  "- 9223372036854775808 \<le> i \<Longrightarrow> i < 9223372036854775808 \<Longrightarrow> read_i64 (show_int i) = Some i"
  by (simp add: read_i64_def read_signed_def scan_show_int Let_def)

lemma read_unsigned_show: "read_unsigned (show_word (w :: 'a :: len word)) = Some w"
proof -
  have "\<not> 2 ^ LENGTH('a) \<le> unat w" by (simp add: not_le)
  then show ?thesis by (simp only: read_unsigned_def show_word_def scan_show_nat) simp
qed

lemma read_words_show [simp]: "read_u64 (show_word w64) = Some w64" "read_u32 (show_word w32) = Some w32"
  by (simp_all add: read_u64_def read_u32_def read_unsigned_show)

lemma show_nat_inj: "show_nat m = show_nat n \<Longrightarrow> m = n"
  by (metis digits_value_show)

section \<open>Properties of the tree\<close>

text \<open>
  The paths of a message never extend one another: then the message holds the last value put at each of them,
  whatever else was put.
\<close>

definition flat_paths :: "string set \<Rightarrow> bool" where
  "flat_paths K \<longleftrightarrow> (\<forall>p\<in>K. \<forall>q\<in>K. \<not> extends p q)"

lemma get_put_other:
  "ptree_ok P \<Longrightarrow> q \<notin> fst ` set kvs \<Longrightarrow> (\<forall>p\<in>fst ` set kvs. \<not> extends p q) \<Longrightarrow>
   pt_get P q (put_all P kvs m) = pt_get P q m"
proof (induction kvs arbitrary: m)
  case (Cons kv kvs)
  obtain p v where kv: "kv = (p, v)" by fastforce
  have "pt_get P q (pt_put P p v m) = pt_get P q m"
    using Cons.prems by (auto simp: ptree_ok_def kv)
  with Cons show ?case by (simp add: kv)
qed simp

lemma get_put_all:
  assumes ok: "ptree_ok P" and "distinct (map fst kvs)" "flat_paths (fst ` set kvs)" "map_of kvs q = Some v"
  shows "pt_get P q (put_all P kvs m) = Some v"
  using assms(2-)
proof (induction kvs arbitrary: m)
  case (Cons kv kvs)
  obtain p w where kv: "kv = (p, w)" by fastforce
  show ?case
  proof (cases "q = p")
    case True
    then have "q \<notin> fst ` set kvs" using Cons.prems(1) by (auto simp: kv)
    moreover have "\<forall>p\<in>fst ` set kvs. \<not> extends p q"
      using Cons.prems(2) True by (auto simp: kv flat_paths_def)
    ultimately have "pt_get P q (put_all P kvs (pt_put P p w m)) = pt_get P q (pt_put P p w m)"
      by (rule get_put_other [OF ok])
    with ok True Cons.prems(3) show ?thesis by (simp add: kv ptree_ok_def)
  next
    case False
    have "flat_paths (fst ` set kvs)" using Cons.prems(2) by (auto simp: flat_paths_def)
    with Cons False show ?thesis by (simp add: kv)
  qed
qed simp

text \<open>An instance of the parameter: a message as a map from paths to texts.\<close>

definition flat_tree :: "(string \<rightharpoonup> string) ptree" where
  "flat_tree = \<lparr> pt_empty = Map.empty, pt_put = (\<lambda>p v m. m(p \<mapsto> v)), pt_get = (\<lambda>p m. m p),
     pt_children = (\<lambda>_ _. None) \<rparr>"

lemma flat_tree_ok: "ptree_ok flat_tree"
  by (simp add: ptree_ok_def flat_tree_def)

lemma read_into_no_overrun:
  assumes "\<forall>i\<in>set is. i < length xs" "\<And>i f x. rd i = Some f \<Longrightarrow> f x \<noteq> Overruns"
  shows "read_into rd is xs \<noteq> Overruns"
  using assms(1)
proof (induction "is" arbitrary: xs)
  case (Cons i "is")
  show ?case
  proof (cases "rd i")
    case (Some f)
    show ?thesis
    proof (cases "f (xs ! i)")
      case (Parsed x)
      with Cons Some show ?thesis by simp
    qed (use Cons Some assms(2) in auto)
  qed simp
qed simp

lemma read_members_no_overrun: "nat n \<le> length xs \<Longrightarrow> read_members rd n xs \<noteq> Overruns"
  unfolding read_members_def by (rule read_into_no_overrun) auto

end
