(* ===== verification/Xrm_Commands.thy ===== *)
theory Xrm_Commands
  imports Xrm_Wire Xrm_Query Xrm_Policy Xrm_Load_Alloc Xrm_Plugins
begin

text \<open>
  The request handlers of the daemon for contexts and compute units (xrm_command_resource.cpp): each reads its
  parameters from the request, runs one operation of the system under the lock, and answers with the status and
  the result. The answer is the list of the values put into the reply, in order.
\<close>

section \<open>Handlers\<close>

text \<open>
  What a handler depends on besides the request and the system: the tree library with its JSON reader (whose
  errors have a text) and writer, the driver, the plugin loader, the first line of a file of the kernel, the text of the error the operation reports
  (\<open>errmsg\<close>, not modelled), and what the locals that the code does not initialise hold.
\<close>

record 'm host =
  h_tree :: "'m ptree"
  h_read_json :: "string \<Rightarrow> string + 'm"
  h_write_json :: "'m \<Rightarrow> string"
  h_xrt :: xrt
  h_loader :: loader
  h_sysfs :: "string \<Rightarrow> string option"
  h_errmsg :: string
  h_int :: int
  h_char :: char
  h_cuProp :: cuProperty
  h_cuPropV2 :: cuPropertyV2
  h_cuRes :: cuResource
  h_cuStat :: cuStatus
  h_groupInfo :: udfCuGroupInformation
  h_groupInfoV2 :: udfCuGroupInformationV2

text \<open>
  A handler answers, or an exception leaves it (nothing catches it before \<open>main\<close>, which then ends the daemon),
  or it never returns.
\<close>

datatype outcome = Reply "(string \<times> string) list" | Escapes | Hangs

type_synonym 'm handler = "'m host \<Rightarrow> 'm \<Rightarrow> system \<Rightarrow> outcome \<times> system"

text \<open>The parameters are read before the operation; the write past an array is a fault.\<close>

definition serve :: "'a parsed \<Rightarrow> ('a \<Rightarrow> system \<Rightarrow> (string \<times> string) list \<times> system) \<Rightarrow> system \<Rightarrow> outcome \<times> system" where
  "serve request run s =
     (case request of
        Throws \<Rightarrow> (Escapes, s)
      | Overruns \<Rightarrow> (Escapes, fault s)
      | Parsed a \<Rightarrow> (case run a s of (r, s') \<Rightarrow> (Reply r, s')))"

definition par :: "string \<Rightarrow> string" where
  "par key = ''request.parameters.'' @ key"

definition dat :: "string \<Rightarrow> string" where
  "dat key = ''response.data.'' @ key"

definition status :: "int \<Rightarrow> (string \<times> string) list" where
  "status ret = [(''response.status.value'', show_int ret)]"

section \<open>Reading properties and resources\<close>

text \<open>The name and load parameters of a compute unit request, under a prefix and with an index suffix.\<close>

definition read_cuProperty :: "'m ptree \<Rightarrow> string \<Rightarrow> string \<Rightarrow> 'm \<Rightarrow> ('a cuProperty_scheme \<Rightarrow> 'a cuProperty_scheme) option" where
  "read_cuProperty P pre sfx m = do {
     kernelName \<leftarrow> get_str P (pre @ ''kernelName'' @ sfx) m;
     kernelAlias \<leftarrow> get_str P (pre @ ''kernelAlias'' @ sfx) m;
     devExcl \<leftarrow> get_i32 P (pre @ ''devExcl'' @ sfx) m;
     requestLoadUnified \<leftarrow> get_i32 P (pre @ ''requestLoadUnified'' @ sfx) m;
     requestLoadOriginal \<leftarrow> get_i32 P (pre @ ''requestLoadOriginal'' @ sfx) m;
     Some (\<lambda>p. p\<lparr>pr_kernelName := strncpy (XRM_MAX_NAME_LEN - 1) kernelName,
       pr_kernelAlias := strncpy (XRM_MAX_NAME_LEN - 1) kernelAlias, pr_cuName := [],
       pr_devExcl := devExcl \<noteq> 0, pr_requestLoadUnified := requestLoadUnified,
       pr_requestLoadOriginal := requestLoadOriginal\<rparr>)
   }"

definition set_client :: "u64 \<Rightarrow> int \<Rightarrow> u64 \<Rightarrow> 'a cuProperty_scheme \<Rightarrow> 'a cuProperty_scheme" where
  "set_client clientId clientProcessId poolId p =
     p\<lparr>pr_clientId := clientId, pr_clientProcessId := clientProcessId, pr_poolId := poolId\<rparr>"

text \<open>The three policy parameters are read as signed numbers into unsigned fields.\<close>

definition read_infos :: "'m ptree \<Rightarrow> string \<Rightarrow> string \<Rightarrow> 'm \<Rightarrow> (cuPropertyV2 \<Rightarrow> cuPropertyV2) option" where
  "read_infos P pre sfx m = do {
     deviceInfo \<leftarrow> get_i64 P (pre @ ''deviceInfo'' @ sfx) m;
     memoryInfo \<leftarrow> get_i64 P (pre @ ''memoryInfo'' @ sfx) m;
     policyInfo \<leftarrow> get_i64 P (pre @ ''policyInfo'' @ sfx) m;
     Some (\<lambda>p. p\<lparr>p2_deviceInfo := word_of_int deviceInfo, p2_memoryInfo := word_of_int memoryInfo,
       p2_policyInfo := word_of_int policyInfo\<rparr>)
   }"

text \<open>The request for one compute unit.\<close>

definition read_request :: "'m ptree \<Rightarrow> 'm \<Rightarrow> 'a cuProperty_scheme \<Rightarrow> 'a cuProperty_scheme option" where
  "read_request P m p = do {
     f \<leftarrow> read_cuProperty P (par []) [] m;
     clientId \<leftarrow> get_u64 P (par ''clientId'') m;
     clientProcessId \<leftarrow> get_i32 P (par ''clientProcessId'') m;
     poolId \<leftarrow> get_u64 P (par ''poolId'') m;
     Some (set_client clientId clientProcessId poolId (f p))
   }"

definition read_requestV2 :: "'m ptree \<Rightarrow> 'm \<Rightarrow> cuPropertyV2 \<Rightarrow> cuPropertyV2 option" where
  "read_requestV2 P m p = do {
     q \<leftarrow> read_request P m p;
     g \<leftarrow> read_infos P (par []) [] m;
     Some (g q)
   }"

text \<open>The members of a list; the members of a pool have no pool of their own.\<close>

definition read_list :: "'m ptree \<Rightarrow> string \<Rightarrow> bool \<Rightarrow> u64 \<Rightarrow> int \<Rightarrow> 'm \<Rightarrow> int \<Rightarrow> cuProperty list parsed" where
  "read_list P pre ownPool clientId clientProcessId m cuNum =
     read_members (\<lambda>i. do {
       f \<leftarrow> read_cuProperty P pre (show_nat i) m;
       poolId \<leftarrow> (if ownPool then get_u64 P (pre @ ''poolId'' @ show_nat i) m else Some 0);
       Some (\<lambda>p. set_client clientId clientProcessId poolId (f p))
     }) cuNum (replicate XRM_MAX_LIST_CU_NUM cuProperty0)"

definition read_listV2 :: "'m ptree \<Rightarrow> string \<Rightarrow> bool \<Rightarrow> u64 \<Rightarrow> int \<Rightarrow> 'm \<Rightarrow> int \<Rightarrow> cuPropertyV2 list parsed" where
  "read_listV2 P pre ownPool clientId clientProcessId m cuNum =
     read_members (\<lambda>i. do {
       f \<leftarrow> read_cuProperty P pre (show_nat i) m;
       g \<leftarrow> read_infos P pre (show_nat i) m;
       poolId \<leftarrow> (if ownPool then get_u64 P (pre @ ''poolId'' @ show_nat i) m else Some 0);
       Some (\<lambda>p. set_client clientId clientProcessId poolId (g (f p)))
     }) cuNum (replicate XRM_MAX_LIST_CU_NUM_V2 cuPropertyV2_0)"

text \<open>
  The parameters of a resource that is given back. The enumeration is the number that was sent; the operations
  read no compute unit type, and the numbers that are no constructor stand for the empty one.
\<close>

definition cuType_of :: "int \<Rightarrow> xrmCuType" where
  "cuType_of n = (if n = 1 then XRM_CU_IPKERNEL else if n = 2 then XRM_CU_SOFTKERNEL
     else if n = 3 then XRM_CU_IPPSKERNEL else XRM_CU_NULL)"

definition cuType_num :: "xrmCuType \<Rightarrow> int" where
  "cuType_num t = (case t of XRM_CU_NULL \<Rightarrow> 0 | XRM_CU_IPKERNEL \<Rightarrow> 1 | XRM_CU_SOFTKERNEL \<Rightarrow> 2 | XRM_CU_IPPSKERNEL \<Rightarrow> 3)"

definition read_cuResource :: "'m ptree \<Rightarrow> string \<Rightarrow> u64 \<Rightarrow> 'm \<Rightarrow> (cuResource \<Rightarrow> cuResource) option" where
  "read_cuResource P sfx clientId m = do {
     deviceId \<leftarrow> get_i32 P (par ''deviceId'' @ sfx) m;
     cuId \<leftarrow> get_i32 P (par ''cuId'' @ sfx) m;
     channelId \<leftarrow> get_i32 P (par ''channelId'' @ sfx) m;
     cuType \<leftarrow> get_i32 P (par ''cuType'' @ sfx) m;
     allocServiceId \<leftarrow> get_u64 P (par ''allocServiceId'' @ sfx) m;
     channelLoadUnified \<leftarrow> get_i32 P (par ''channelLoadUnified'' @ sfx) m;
     channelLoadOriginal \<leftarrow> get_i32 P (par ''channelLoadOriginal'' @ sfx) m;
     poolId \<leftarrow> get_u64 P (par ''poolId'' @ sfx) m;
     Some (\<lambda>r. r\<lparr>re_deviceId := deviceId, re_cuId := cuId, re_channelId := channelId,
       re_cuType := cuType_of cuType, re_allocServiceId := allocServiceId, re_clientId := clientId,
       re_channelLoadUnified := channelLoadUnified, re_channelLoadOriginal := channelLoadOriginal,
       re_poolId := poolId\<rparr>)
   }"

text \<open>The resources of a list, into a zeroed array of the given size.\<close>

definition read_resources :: "'m ptree \<Rightarrow> nat \<Rightarrow> 'm \<Rightarrow> cuListResource parsed" where
  "read_resources P limit m =
     and_then (of_option (do {
       cuNum \<leftarrow> get_i32 P (par ''cuNum'') m;
       clientId \<leftarrow> get_u64 P (par ''clientId'') m;
       Some (cuNum, clientId)
     })) (\<lambda>(cuNum, clientId).
       map_parsed (\<lambda>rs. \<lparr> lr_cuResources = rs, lr_cuNum = cuNum \<rparr>)
         (read_members (\<lambda>i. read_cuResource P (show_nat i) clientId m) cuNum (replicate limit cuResource0)))"

section \<open>Writing resources\<close>

text \<open>The fields of a resource every answer has; the queries cast the addresses to 32 bits.\<close>

definition show_cu :: "bool \<Rightarrow> string \<Rightarrow> cuResource \<Rightarrow> (string \<times> string) list" where
  "show_cu narrow sfx r =
     (let word = (\<lambda>w. if narrow then show_int (i32 (uint w)) else show_word w);
          word32 = (\<lambda>w. if narrow then show_int (i32 (uint w)) else show_word w)
      in [(dat ''xclbinFileName'' @ sfx, re_xclbinFileName r), (dat ''uuidStr'' @ sfx, re_uuidStr r),
          (dat ''kernelPluginFileName'' @ sfx, re_kernelPluginFileName r),
          (dat ''kernelName'' @ sfx, re_kernelName r), (dat ''instanceName'' @ sfx, re_instanceName r),
          (dat ''cuName'' @ sfx, re_cuName r), (dat ''kernelAlias'' @ sfx, re_kernelAlias r),
          (dat ''deviceId'' @ sfx, show_int (re_deviceId r)), (dat ''cuId'' @ sfx, show_int (re_cuId r)),
          (dat ''cuType'' @ sfx, show_int (cuType_num (re_cuType r))),
          (dat ''baseAddr'' @ sfx, word (re_baseAddr r)), (dat ''membankId'' @ sfx, word32 (re_membankId r)),
          (dat ''membankType'' @ sfx, word32 (re_membankType r)),
          (dat ''membankSize'' @ sfx, word (re_membankSize r)),
          (dat ''membankBaseAddr'' @ sfx, word (re_membankBaseAddr r)),
          (dat ''poolId'' @ sfx, show_word (re_poolId r))])"

definition show_channel :: "string \<Rightarrow> cuResource \<Rightarrow> (string \<times> string) list" where
  "show_channel sfx r =
     [(dat ''channelId'' @ sfx, show_int (re_channelId r)),
      (dat ''allocServiceId'' @ sfx, show_word (re_allocServiceId r)),
      (dat ''channelLoadOriginal'' @ sfx, show_int (re_channelLoadOriginal r))]"

definition show_granted :: "bool \<Rightarrow> string \<Rightarrow> cuResource \<Rightarrow> (string \<times> string) list" where
  "show_granted narrow sfx r = show_cu narrow sfx r @ show_channel sfx r"

definition show_resources :: "(string \<Rightarrow> cuResource \<Rightarrow> (string \<times> string) list) \<Rightarrow> int \<Rightarrow> cuListResource \<Rightarrow> (string \<times> string) list" where
  "show_resources show_res num lr =
     (dat ''cuNum'', show_int num) #
     concat (map (\<lambda>i. show_res (show_nat i) (lr_cuResources lr ! i)) [0..<nat num])"

definition list_reply :: "int \<Rightarrow> cuListResource \<Rightarrow> (string \<times> string) list" where
  "list_reply ret lr =
     status ret @ (if ret = XRM_SUCCESS then show_resources (show_granted False) (lr_cuNum lr) lr else [])"

definition cu_reply :: "int \<Rightarrow> cuResource \<Rightarrow> (string \<times> string) list" where
  "cu_reply ret r = status ret @ (if ret = XRM_SUCCESS then show_granted False [] r else [])"

text \<open>A pool query shows at most 48 compute units, and no channels.\<close>

definition pool_reply :: "int \<Rightarrow> cuListResource \<Rightarrow> (string \<times> string) list" where
  "pool_reply ret lr =
     status ret @ (if ret = XRM_SUCCESS then show_resources (show_cu False) (min 48 (lr_cuNum lr)) lr else [])"

section \<open>Contexts\<close>

definition getLogLevel :: "system \<Rightarrow> int" where
  "getLogLevel s = i32 (uint (m_logLevel s))"

definition createContextCommand :: "'m handler" where
  "createContextCommand h m s =
     serve (of_option (get_str (h_tree h) (par ''context'') m)) (\<lambda>_ s.
       case incNumConcurrentClient s of
         (ok, s1) \<Rightarrow>
           (case (if ok then getNewClientId s1 else (0, s1)) of
              (clientId, s2) \<Rightarrow>
                (status (getLogLevel s) @ [(dat ''clientId'', show_word clientId)], s2))) s"

definition echoContextCommand :: "'m handler" where
  "echoContextCommand h m s =
     serve (of_option (get_str (h_tree h) (par ''context'') m)) (\<lambda>_ s. (status XRM_SUCCESS, s)) s"

definition destroyContextCommand :: "'m handler" where
  "destroyContextCommand h m s =
     serve (of_option (do {
       _ \<leftarrow> get_str (h_tree h) (par ''context'') m;
       get_u64 (h_tree h) (par ''clientId'') m
     })) (\<lambda>clientId s.
       (status XRM_SUCCESS, if clientId \<noteq> 0 then recycleResource clientId s else s)) s"

definition isDaemonRunningCommand :: "'m handler" where
  "isDaemonRunningCommand h m s =
     serve (of_option (get_str (h_tree h) (par ''echo'') m)) (\<lambda>echo s.
       (status (if c_str echo = [] then XRM_ERROR else XRM_SUCCESS), s)) s"

section \<open>Allocation\<close>

definition serve_cu :: "(cuResource \<times> system \<Rightarrow> int \<times> cuResource \<times> system) \<Rightarrow> cuResource \<Rightarrow> system \<Rightarrow>
    (string \<times> string) list \<times> system" where
  "serve_cu alloc r s = (case alloc (r, s) of (ret, r', s') \<Rightarrow> (cu_reply ret r', s'))"

definition serve_list :: "(cuListResource \<times> system \<Rightarrow> int \<times> cuListResource \<times> system) \<Rightarrow> nat \<Rightarrow> system \<Rightarrow>
    (string \<times> string) list \<times> system" where
  "serve_list alloc limit s =
     (case alloc (cuListResource0 limit, s) of (ret, lr, s') \<Rightarrow> (list_reply ret lr, s'))"

definition cuAllocCommand :: "'m handler" where
  "cuAllocCommand h m s =
     serve (of_option (read_request (h_tree h) m (h_cuProp h))) (\<lambda>cuProp.
       serve_cu (resAllocCu cuProp True) (h_cuRes h)) s"

definition read_on_device :: "'m ptree \<Rightarrow> 'm \<Rightarrow> cuProperty \<Rightarrow> (int \<times> cuProperty) option" where
  "read_on_device P m p = do {
     deviceId \<leftarrow> get_i32 P (par ''deviceId'') m;
     q \<leftarrow> read_request P m p;
     Some (deviceId, q)
   }"

definition cuAllocFromDevCommand :: "'m handler" where
  "cuAllocFromDevCommand h m s =
     serve (of_option (read_on_device (h_tree h) m (h_cuProp h))) (\<lambda>(deviceId, cuProp).
       serve_cu (resAllocCuFromDev deviceId cuProp True) (h_cuRes h)) s"

definition cuAllocLeastUsedFromDevCommand :: "'m handler" where
  "cuAllocLeastUsedFromDevCommand h m s =
     serve (of_option (read_on_device (h_tree h) m (h_cuProp h))) (\<lambda>(deviceId, cuProp).
       serve_cu (resAllocLeastUsedCuFromDev deviceId cuProp True) (h_cuRes h)) s"

definition read_with_xclbin :: "'m ptree \<Rightarrow> 'm \<Rightarrow> cuProperty \<Rightarrow> (cuProperty \<times> string) option" where
  "read_with_xclbin P m p = do {
     q \<leftarrow> read_request P m p;
     xclbin \<leftarrow> get_str P (par ''xclbinFileName'') m;
     Some (q, xclbin)
   }"

definition cuAllocWithLoadCommand :: "'m handler" where
  "cuAllocWithLoadCommand h m s =
     serve (of_option (read_with_xclbin (h_tree h) m (h_cuProp h))) (\<lambda>(cuProp, xclbin).
       serve_cu (resAllocCuWithLoad (h_xrt h) cuProp xclbin True) (h_cuRes h)) s"

definition cuAllocLeastUsedWithLoadCommand :: "'m handler" where
  "cuAllocLeastUsedWithLoadCommand h m s =
     serve (of_option (read_with_xclbin (h_tree h) m (h_cuProp h))) (\<lambda>(cuProp, xclbin).
       serve_cu (resAllocCuLeastUsedWithLoad (h_xrt h) cuProp xclbin True) (h_cuRes h)) s"

definition loadAndAllCuAllocCommand :: "'m handler" where
  "loadAndAllCuAllocCommand h m s =
     serve (of_option (do {
       xclbin \<leftarrow> get_str (h_tree h) (par ''xclbinFileName'') m;
       clientId \<leftarrow> get_u64 (h_tree h) (par ''clientId'') m;
       clientProcessId \<leftarrow> get_i32 (h_tree h) (par ''clientProcessId'') m;
       Some (xclbin, clientId, clientProcessId)
     })) (\<lambda>(xclbin, clientId, clientProcessId).
       serve_list (resLoadAndAllocAllCu (h_xrt h) xclbin clientId clientProcessId) XRM_MAX_LIST_CU_NUM) s"

definition cuAllocV2Command :: "'m handler" where
  "cuAllocV2Command h m s =
     serve (of_option (read_requestV2 (h_tree h) m (h_cuPropV2 h))) (\<lambda>cuProp.
       serve_cu (resAllocCuV2 cuProp True) (h_cuRes h)) s"

text \<open>The list requests; the version 1 list has the flag for one device.\<close>

definition read_cuList :: "'m ptree \<Rightarrow> 'm \<Rightarrow> cuListProperty parsed" where
  "read_cuList P m =
     and_then (of_option (do {
       cuNum \<leftarrow> get_i32 P (par ''cuNum'') m;
       sameDevice \<leftarrow> get_i32 P (par ''sameDevice'') m;
       clientId \<leftarrow> get_u64 P (par ''clientId'') m;
       clientProcessId \<leftarrow> get_i32 P (par ''clientProcessId'') m;
       Some (cuNum, sameDevice, clientId, clientProcessId)
     })) (\<lambda>(cuNum, sameDevice, clientId, clientProcessId).
       map_parsed (\<lambda>ps. \<lparr> lp_cuProps = ps, lp_cuNum = cuNum, lp_sameDevice = (sameDevice \<noteq> 0) \<rparr>)
         (read_list P (par []) True clientId clientProcessId m cuNum))"

definition read_cuListV2 :: "'m ptree \<Rightarrow> 'm \<Rightarrow> cuListPropertyV2 parsed" where
  "read_cuListV2 P m =
     and_then (of_option (do {
       cuNum \<leftarrow> get_i32 P (par ''cuNum'') m;
       clientId \<leftarrow> get_u64 P (par ''clientId'') m;
       clientProcessId \<leftarrow> get_i32 P (par ''clientProcessId'') m;
       Some (cuNum, clientId, clientProcessId)
     })) (\<lambda>(cuNum, clientId, clientProcessId).
       map_parsed (\<lambda>ps. \<lparr> l2_cuProps = ps, l2_cuNum = cuNum \<rparr>)
         (read_listV2 P (par []) True clientId clientProcessId m cuNum))"

definition cuListAllocCommand :: "'m handler" where
  "cuListAllocCommand h m s =
     serve (read_cuList (h_tree h) m) (\<lambda>cuListProp. serve_list (resAllocCuList cuListProp) XRM_MAX_LIST_CU_NUM) s"

definition cuListAllocV2Command :: "'m handler" where
  "cuListAllocV2Command h m s =
     serve (read_cuListV2 (h_tree h) m) (\<lambda>cuListProp. serve_list (resAllocCuListV2 cuListProp) XRM_MAX_LIST_CU_NUM_V2) s"

definition read_group :: "'m ptree \<Rightarrow> 'm \<Rightarrow> (string \<times> u64 \<times> int \<times> u64) option" where
  "read_group P m = do {
     udfCuGroupName \<leftarrow> get_str P (par ''udfCuGroupName'') m;
     clientId \<leftarrow> get_u64 P (par ''clientId'') m;
     clientProcessId \<leftarrow> get_i32 P (par ''clientProcessId'') m;
     poolId \<leftarrow> get_u64 P (par ''poolId'') m;
     Some (udfCuGroupName, clientId, clientProcessId, poolId)
   }"

definition group_property :: "string \<times> u64 \<times> int \<times> u64 \<Rightarrow> cuGroupProperty" where
  "group_property = (\<lambda>(name, clientId, clientProcessId, poolId).
     \<lparr> gp_udfCuGroupName = name, gp_clientId = clientId, gp_clientProcessId = clientProcessId, gp_poolId = poolId \<rparr>)"

definition group_propertyV2 :: "string \<times> u64 \<times> int \<times> u64 \<Rightarrow> cuGroupPropertyV2" where
  "group_propertyV2 = (\<lambda>(name, clientId, clientProcessId, poolId).
     \<lparr> g2_udfCuGroupName = name, g2_clientId = clientId, g2_clientProcessId = clientProcessId, g2_poolId = poolId \<rparr>)"

definition cuGroupAllocCommand :: "'m handler" where
  "cuGroupAllocCommand h m s =
     serve (of_option (read_group (h_tree h) m)) (\<lambda>g.
       serve_list (resAllocCuGroup (group_property g)) XRM_MAX_GROUP_CU_NUM) s"

definition cuGroupAllocV2Command :: "'m handler" where
  "cuGroupAllocV2Command h m s =
     serve (of_option (read_group (h_tree h) m)) (\<lambda>g.
       serve_list (resAllocCuGroupV2 (group_propertyV2 g)) XRM_MAX_GROUP_CU_NUM_V2) s"

section \<open>Release\<close>

definition serve_status :: "('a \<Rightarrow> system \<Rightarrow> int \<times> system) \<Rightarrow> 'a \<Rightarrow> system \<Rightarrow> (string \<times> string) list \<times> system" where
  "serve_status operation a s = (case operation a s of (ret, s') \<Rightarrow> (status ret, s'))"

definition read_release :: "'m ptree \<Rightarrow> 'm \<Rightarrow> cuResource \<Rightarrow> cuResource option" where
  "read_release P m r = do {
     clientId \<leftarrow> get_u64 P (par ''clientId'') m;
     f \<leftarrow> read_cuResource P [] clientId m;
     Some (f r)
   }"

definition cuReleaseCommand :: "'m handler" where
  "cuReleaseCommand h m s =
     serve (of_option (read_release (h_tree h) m (h_cuRes h))) (serve_status resReleaseCu) s"

definition cuReleaseV2Command :: "'m handler" where
  "cuReleaseV2Command h m s =
     serve (of_option (read_release (h_tree h) m (h_cuRes h))) (serve_status resReleaseCuV2) s"

definition cuListReleaseCommand :: "'m handler" where
  "cuListReleaseCommand h m s =
     serve (read_resources (h_tree h) XRM_MAX_LIST_CU_NUM m) (serve_status resReleaseCuList) s"

definition cuListReleaseV2Command :: "'m handler" where
  "cuListReleaseV2Command h m s =
     serve (read_resources (h_tree h) XRM_MAX_LIST_CU_NUM_V2 m) (serve_status resReleaseCuListV2) s"

definition cuGroupReleaseCommand :: "'m handler" where
  "cuGroupReleaseCommand h m s =
     serve (read_resources (h_tree h) XRM_MAX_GROUP_CU_NUM m) (serve_status resReleaseCuGroup) s"

definition cuGroupReleaseV2Command :: "'m handler" where
  "cuGroupReleaseV2Command h m s =
     serve (read_resources (h_tree h) XRM_MAX_GROUP_CU_NUM_V2 m) (serve_status resReleaseCuGroupV2) s"

section \<open>User defined groups\<close>

text \<open>
  The option lists are read into a structure that is not initialised: only the named fields of the named
  members are written.
\<close>

definition read_member :: "'m ptree \<Rightarrow> string \<Rightarrow> string \<Rightarrow> 'm \<Rightarrow> ('a cuProperty_scheme \<Rightarrow> 'a cuProperty_scheme) option" where
  "read_member P pre sfx m = do {
     cuName \<leftarrow> get_str P (pre @ ''.cuName'' @ sfx) m;
     devExcl \<leftarrow> get_i32 P (pre @ ''.devExcl'' @ sfx) m;
     requestLoadUnified \<leftarrow> get_i32 P (pre @ ''.requestLoadUnified'' @ sfx) m;
     requestLoadOriginal \<leftarrow> get_i32 P (pre @ ''.requestLoadOriginal'' @ sfx) m;
     Some (\<lambda>p. p\<lparr>pr_cuName := strncpy (XRM_MAX_NAME_LEN - 1) cuName, pr_devExcl := devExcl \<noteq> 0,
       pr_requestLoadUnified := requestLoadUnified, pr_requestLoadOriginal := requestLoadOriginal\<rparr>)
   }"

text \<open>An array of the uninitialised structure has its length whatever it holds.\<close>

definition sized :: "nat \<Rightarrow> 'a \<Rightarrow> 'a list \<Rightarrow> 'a list" where
  "sized n z xs = take n xs @ replicate (n - length xs) z"

definition option_list :: "nat \<Rightarrow> string" where
  "option_list i = par ''optionUdfCuListProps'' @ show_nat i"

definition read_option :: "'m ptree \<Rightarrow> 'm \<Rightarrow> nat \<Rightarrow> (cuListProperty \<Rightarrow> cuListProperty parsed) option" where
  "read_option P m i = do {
     sameDevice \<leftarrow> get_i32 P (option_list i @ ''.sameDevice'') m;
     Some (\<lambda>l. and_then (of_option (get_i32 P (option_list i @ ''.cuNum'') m)) (\<lambda>cuNum.
       map_parsed (\<lambda>ps. \<lparr> lp_cuProps = ps, lp_cuNum = cuNum, lp_sameDevice = (sameDevice \<noteq> 0) \<rparr>)
         (read_members (\<lambda>j. read_member P (option_list i) (show_nat j) m) cuNum
           (sized XRM_MAX_LIST_CU_NUM cuProperty0 (lp_cuProps l)))))
   }"

definition cuListProperty0 :: cuListProperty where
  "cuListProperty0 = \<lparr> lp_cuProps = replicate XRM_MAX_LIST_CU_NUM cuProperty0, lp_cuNum = 0, lp_sameDevice = False \<rparr>"

definition cuListPropertyV2_0 :: cuListPropertyV2 where
  "cuListPropertyV2_0 = \<lparr> l2_cuProps = replicate XRM_MAX_LIST_CU_NUM_V2 cuPropertyV2_0, l2_cuNum = 0 \<rparr>"

definition read_declare :: "'m ptree \<Rightarrow> udfCuGroupInformation \<Rightarrow> 'm \<Rightarrow> udfCuGroupInformation parsed" where
  "read_declare P g m =
     and_then (of_option (do {
       udfCuGroupName \<leftarrow> get_str P (par ''udfCuGroupName'') m;
       optionUdfCuListNum \<leftarrow> get_i32 P (par ''optionUdfCuListNum'') m;
       Some (udfCuGroupName, optionUdfCuListNum)
     })) (\<lambda>(name, num).
       map_parsed (\<lambda>ls. \<lparr> ug_udfCuGroupName = name, ug_optionUdfCuListProps = ls, ug_optionUdfCuListNum = num \<rparr>)
         (read_into (read_option P m) [0..<nat num]
           (sized XRM_MAX_UDF_CU_GROUP_OPTION_LIST_NUM cuListProperty0 (ug_optionUdfCuListProps g))))"

definition declare_reply :: "string \<Rightarrow> int \<Rightarrow> (string \<times> string) list" where
  "declare_reply text ret = status ret @ (if ret \<noteq> XRM_SUCCESS then [(dat ''failed'', text)] else [])"

definition udfCuGroupDeclareCommand :: "'m handler" where
  "udfCuGroupDeclareCommand h m s =
     serve (read_declare (h_tree h) (h_groupInfo h) m) (\<lambda>g s.
       case resUdfCuGroupDeclare g s of
         (ret, s') \<Rightarrow> (declare_reply ''failed to declare user defined cu group'' ret, s')) s"

definition udfCuGroupUndeclareCommand :: "'m handler" where
  "udfCuGroupUndeclareCommand h m s =
     serve (of_option (get_str (h_tree h) (par ''udfCuGroupName'') m)) (\<lambda>name s.
       case resUdfCuGroupUndeclare name s of
         (ret, s') \<Rightarrow> (declare_reply ''failed to undeclare user defined cu group'' ret, s')) s"

definition read_memberV2 :: "'m ptree \<Rightarrow> string \<Rightarrow> string \<Rightarrow> 'm \<Rightarrow> (cuPropertyV2 \<Rightarrow> cuPropertyV2) option" where
  "read_memberV2 P pre sfx m = do {
     f \<leftarrow> read_member P pre sfx m;
     deviceInfo \<leftarrow> get_i64 P (pre @ ''.deviceInfo'' @ sfx) m;
     memoryInfo \<leftarrow> get_i64 P (pre @ ''.memoryInfo'' @ sfx) m;
     Some (\<lambda>p. (f p)\<lparr>p2_deviceInfo := word_of_int deviceInfo, p2_memoryInfo := word_of_int memoryInfo\<rparr>)
   }"

definition read_optionV2 :: "'m ptree \<Rightarrow> 'm \<Rightarrow> nat \<Rightarrow> (cuListPropertyV2 \<Rightarrow> cuListPropertyV2 parsed) option" where
  "read_optionV2 P m i = do {
     cuNum \<leftarrow> get_i32 P (option_list i @ ''.cuNum'') m;
     Some (\<lambda>l. map_parsed (\<lambda>ps. \<lparr> l2_cuProps = ps, l2_cuNum = cuNum \<rparr>)
         (read_members (\<lambda>j. read_memberV2 P (option_list i) (show_nat j) m) cuNum
           (sized XRM_MAX_LIST_CU_NUM_V2 cuPropertyV2_0 (l2_cuProps l))))
   }"

definition read_declareV2 :: "'m ptree \<Rightarrow> udfCuGroupInformationV2 \<Rightarrow> 'm \<Rightarrow> udfCuGroupInformationV2 parsed" where
  "read_declareV2 P g m =
     and_then (of_option (do {
       udfCuGroupName \<leftarrow> get_str P (par ''udfCuGroupName'') m;
       optionUdfCuListNum \<leftarrow> get_i32 P (par ''optionUdfCuListNum'') m;
       Some (udfCuGroupName, optionUdfCuListNum)
     })) (\<lambda>(name, num).
       map_parsed (\<lambda>ls. \<lparr> u2_udfCuGroupName = name, u2_optionUdfCuListProps = ls, u2_optionUdfCuListNum = num \<rparr>)
         (read_into (read_optionV2 P m) [0..<nat num]
           (sized XRM_MAX_UDF_CU_GROUP_OPTION_LIST_NUM cuListPropertyV2_0 (u2_optionUdfCuListProps g))))"

definition udfCuGroupDeclareV2Command :: "'m handler" where
  "udfCuGroupDeclareV2Command h m s =
     serve (read_declareV2 (h_tree h) (h_groupInfoV2 h) m) (\<lambda>g s.
       case resUdfCuGroupDeclareV2 g s of
         (ret, s') \<Rightarrow> (declare_reply ''failed to declare user defined cu group'' ret, s')) s"

definition udfCuGroupUndeclareV2Command :: "'m handler" where
  "udfCuGroupUndeclareV2Command h m s =
     serve (of_option (get_str (h_tree h) (par ''udfCuGroupName'') m)) (\<lambda>name s.
       case resUdfCuGroupUndeclareV2 name s of
         (ret, s') \<Rightarrow> (declare_reply ''failed to undeclare user defined cu group'' ret, s')) s"

section \<open>Queries\<close>

definition read_names :: "'m ptree \<Rightarrow> 'm \<Rightarrow> cuProperty \<Rightarrow> cuProperty option" where
  "read_names P m p = do {
     kernelName \<leftarrow> get_str P (par ''kernelName'') m;
     kernelAlias \<leftarrow> get_str P (par ''kernelAlias'') m;
     Some (p\<lparr>pr_kernelName := strncpy (XRM_MAX_NAME_LEN - 1) kernelName,
             pr_kernelAlias := strncpy (XRM_MAX_NAME_LEN - 1) kernelAlias\<rparr>)
   }"

definition cuGetMaxCapacityCommand :: "'m handler" where
  "cuGetMaxCapacityCommand h m s =
     serve (of_option (read_names (h_tree h) m (h_cuProp h))) (\<lambda>cuProp s.
       ([(''response.status.value'', show_word (getCuMaxCapacity cuProp s))], s)) s"

definition cuCheckStatusCommand :: "'m handler" where
  "cuCheckStatusCommand h m s =
     (let P = h_tree h in
      serve (of_option (do {
        deviceId \<leftarrow> get_i32 P (par ''deviceId'') m;
        cuId \<leftarrow> get_i32 P (par ''cuId'') m;
        channelId \<leftarrow> get_i32 P (par ''channelId'') m;
        cuType \<leftarrow> get_i32 P (par ''cuType'') m;
        allocServiceId \<leftarrow> get_u64 P (par ''allocServiceId'') m;
        Some ((h_cuRes h)\<lparr>re_deviceId := deviceId, re_cuId := cuId, re_channelId := channelId,
          re_cuType := cuType_of cuType, re_allocServiceId := allocServiceId\<rparr>)
      })) (\<lambda>cuRes s.
        case checkCuStat cuRes (h_cuStat h) s of
          None \<Rightarrow> ([], fault s)
        | Some (ret, st) \<Rightarrow>
            (status ret @
             (if ret = XRM_SUCCESS
              then [(dat ''isBusy'', show_int (if st_isBusy st then 1 else 0)),
                    (dat ''usedLoadOriginal'', show_int (st_usedLoadOriginal st))]
              else [(dat ''failed'', ''failed to check cu status'')]), s)) s)"

definition read_allocationQuery :: "'m ptree \<Rightarrow> 'm \<Rightarrow> allocationQueryInfo option" where
  "read_allocationQuery P m = do {
     allocServiceId \<leftarrow> get_u64 P (par ''allocServiceId'') m;
     kernelName \<leftarrow> get_str P (par ''kernelName'') m;
     kernelAlias \<leftarrow> get_str P (par ''kernelAlias'') m;
     Some \<lparr> aq_allocServiceId = allocServiceId, aq_kernelName = strncpy (XRM_MAX_NAME_LEN - 1) kernelName,
            aq_kernelAlias = strncpy (XRM_MAX_NAME_LEN - 1) kernelAlias \<rparr>
   }"

definition query_reply :: "int \<Rightarrow> cuListResource \<Rightarrow> (string \<times> string) list" where
  "query_reply ret lr =
     status ret @ (if ret = XRM_SUCCESS then show_resources (show_granted True) (lr_cuNum lr) lr else [])"

definition allocationQueryCommand :: "'m handler" where
  "allocationQueryCommand h m s =
     serve (of_option (read_allocationQuery (h_tree h) m)) (\<lambda>q s.
       case resAllocationQuery q (cuListResource0 XRM_MAX_LIST_CU_NUM) s of (ret, lr) \<Rightarrow> (query_reply ret lr, s)) s"

definition allocationQueryV2Command :: "'m handler" where
  "allocationQueryV2Command h m s =
     serve (of_option (read_allocationQuery (h_tree h) m)) (\<lambda>q s.
       case resAllocationQueryV2 q (cuListResource0 XRM_MAX_LIST_CU_NUM_V2) s of
         (ret, None) \<Rightarrow> (status ret, s)
       | (ret, Some lr) \<Rightarrow> (query_reply ret lr, s)) s"

definition isCuExistingCommand :: "'m handler" where
  "isCuExistingCommand h m s =
     serve (of_option (read_names (h_tree h) m ((h_cuProp h)\<lparr>pr_cuName := []\<rparr>))) (\<lambda>cuProp s.
       (status XRM_SUCCESS @ [(dat ''isCuExisting'', show_int (if resIsCuExisting cuProp s then 1 else 0))], s)) s"

definition isCuListExistingCommand :: "'m handler" where
  "isCuListExistingCommand h m s =
     (let P = h_tree h in
      serve (and_then (of_option (do {
          cuNum \<leftarrow> get_i32 P (par ''cuNum'') m;
          sameDevice \<leftarrow> get_i32 P (par ''sameDevice'') m;
          Some (cuNum, sameDevice)
        })) (\<lambda>(cuNum, sameDevice).
          map_parsed (\<lambda>ps. \<lparr> lp_cuProps = ps, lp_cuNum = cuNum, lp_sameDevice = (sameDevice \<noteq> 0) \<rparr>)
            (read_members (\<lambda>i. do {
               kernelName \<leftarrow> get_str P (par ''kernelName'' @ show_nat i) m;
               kernelAlias \<leftarrow> get_str P (par ''kernelAlias'' @ show_nat i) m;
               Some (\<lambda>p. p\<lparr>pr_kernelName := strncpy (XRM_MAX_NAME_LEN - 1) kernelName,
                 pr_kernelAlias := strncpy (XRM_MAX_NAME_LEN - 1) kernelAlias, pr_cuName := []\<rparr>)
             }) cuNum (replicate XRM_MAX_LIST_CU_NUM cuProperty0))))
        (\<lambda>cuListProp s.
          (status XRM_SUCCESS @
           [(dat ''isCuListExisting'', show_int (if resIsCuListExisting cuListProp s then 1 else 0))], s)) s)"

text \<open>Only the group name of the property is written; the query reads nothing else.\<close>

definition isCuGroupExistingCommand :: "'m handler" where
  "isCuGroupExistingCommand h m s =
     serve (of_option (get_str (h_tree h) (par ''udfCuGroupName'') m)) (\<lambda>name s.
       (status XRM_SUCCESS @
        [(dat ''isCuGroupExisting'',
          show_int (if resIsCuGroupExisting (group_property (name, 0, 0, 0)) s then 1 else 0))], s)) s"

definition reservationQueryCommand :: "'m handler" where
  "reservationQueryCommand h m s =
     serve (of_option (get_u64 (h_tree h) (par ''poolId'') m)) (\<lambda>poolId s.
       case resReservationQuery poolId (cuListResource0 XRM_MAX_POOL_CU_NUM) s of
         (ret, lr) \<Rightarrow> (pool_reply ret lr, s)) s"

definition reservationQueryV2Command :: "'m handler" where
  "reservationQueryV2Command h m s =
     (let P = h_tree h in
      serve (of_option (do {
        poolId \<leftarrow> get_u64 P (par ''poolId'') m;
        kernelName \<leftarrow> get_str P (par ''kernelName'') m;
        kernelAlias \<leftarrow> get_str P (par ''kernelAlias'') m;
        Some \<lparr> rq_poolId = poolId, rq_kernelName = strncpy (XRM_MAX_NAME_LEN - 1) kernelName,
               rq_kernelAlias = strncpy (XRM_MAX_NAME_LEN - 1) kernelAlias \<rparr>
      })) (\<lambda>q s.
        case resReservationQueryV2 q (cuListResource0 XRM_MAX_POOL_CU_NUM_V2) s of
          (ret, lr) \<Rightarrow> (pool_reply ret lr, s)) s)"

end
