(* ===== verification/Xrm_Probes.thy ===== *)
theory Xrm_Probes
  imports Xrm_Commands
begin

text \<open>
  The handlers for pools, and the handlers that count what is available: they allocate (or reserve) until the
  operation fails, count the successes, and give everything back, all under one lock. The loop has no bound of
  its own; a run that never fails is the outcome \<open>Hangs\<close>.
\<close>

section \<open>Counting\<close>

text \<open>\<open>Inr r\<close> is a success that \<open>r\<close> gives back, \<open>Inl e\<close> the failure that ends the loop.\<close>

partial_function (option) take_all :: "('s \<Rightarrow> ('e + 'r) \<times> 's) \<Rightarrow> 'r list \<Rightarrow> 's \<Rightarrow> ('e \<times> 'r list \<times> 's) option" where
  "take_all body taken s =
     (case body s of
        (Inl e, s') \<Rightarrow> Some (e, taken, s')
      | (Inr r, s') \<Rightarrow> take_all body (taken @ [r]) s')"

definition serve_probe :: "'a parsed \<Rightarrow> ('a \<Rightarrow> system \<Rightarrow> outcome \<times> system) \<Rightarrow> system \<Rightarrow> outcome \<times> system" where
  "serve_probe request run s =
     (case request of
        Throws \<Rightarrow> (Escapes, s)
      | Overruns \<Rightarrow> (Escapes, fault s)
      | Parsed a \<Rightarrow> run a s)"

definition count_all :: "(system \<Rightarrow> (int + 'r) \<times> system) \<Rightarrow> ('r \<Rightarrow> system \<Rightarrow> system) \<Rightarrow>
    (int \<Rightarrow> nat \<Rightarrow> (string \<times> string) list) \<Rightarrow> system \<Rightarrow> outcome \<times> system" where
  "count_all body undo reply s =
     (case take_all body [] s of
        None \<Rightarrow> (Hangs, s)
      | Some (e, taken, s') \<Rightarrow> (Reply (reply e (length taken)), fold undo taken s'))"

text \<open>No success and an invalid request is the one error of a count.\<close>

definition count_reply :: "string \<Rightarrow> string \<Rightarrow> int \<Rightarrow> nat \<Rightarrow> (string \<times> string) list" where
  "count_reply key text ret num =
     (if num = 0 \<and> ret = XRM_ERROR_INVALID then status XRM_ERROR_INVALID @ [(dat ''failed'', text)]
      else status XRM_SUCCESS @ [(dat key, show_nat num)])"

text \<open>One turn of the loop: an allocation into a zeroed result.\<close>

definition turn :: "('r \<times> system \<Rightarrow> int \<times> 'r \<times> system) \<Rightarrow> 'r \<Rightarrow> system \<Rightarrow> (int + 'r) \<times> system" where
  "turn alloc zero s =
     (case alloc (zero, s) of (ret, r, s') \<Rightarrow> (if ret = XRM_SUCCESS then Inr r else Inl ret, s'))"

definition checkCuAvailableNumCommand :: "'m handler" where
  "checkCuAvailableNumCommand h m s =
     serve_probe (of_option (read_request (h_tree h) m (h_cuProp h))) (\<lambda>cuProp.
       count_all (turn (resAllocCu cuProp True) cuResource0) (\<lambda>r s. snd (resReleaseCu r s))
         (count_reply ''availableCuNum'' ''failed to check available cu number'')) s"

definition checkCuListAvailableNumCommand :: "'m handler" where
  "checkCuListAvailableNumCommand h m s =
     serve_probe (read_cuList (h_tree h) m) (\<lambda>cuListProp.
       count_all (turn (resAllocCuList cuListProp) (cuListResource0 XRM_MAX_LIST_CU_NUM))
         (\<lambda>r s. snd (resReleaseCuList r s))
         (count_reply ''availableListNum'' ''failed to check available cu list number'')) s"

definition checkCuGroupAvailableNumCommand :: "'m handler" where
  "checkCuGroupAvailableNumCommand h m s =
     serve_probe (of_option (read_group (h_tree h) m)) (\<lambda>g.
       count_all (turn (resAllocCuGroup (group_property g)) (cuListResource0 XRM_MAX_GROUP_CU_NUM))
         (\<lambda>r s. snd (resReleaseCuGroup r s))
         (count_reply ''availableGroupNum'' ''failed to check available cu group number'')) s"

definition checkCuAvailableNumV2Command :: "'m handler" where
  "checkCuAvailableNumV2Command h m s =
     serve_probe (of_option (read_requestV2 (h_tree h) m (h_cuPropV2 h))) (\<lambda>cuProp.
       count_all (turn (resAllocCuV2 cuProp True) cuResource0) (\<lambda>r s. snd (resReleaseCuV2 r s))
         (count_reply ''availableCuNum'' ''failed to check available cu number'')) s"

definition checkCuListAvailableNumV2Command :: "'m handler" where
  "checkCuListAvailableNumV2Command h m s =
     serve_probe (read_cuListV2 (h_tree h) m) (\<lambda>cuListProp.
       count_all (turn (resAllocCuListV2 cuListProp) (cuListResource0 XRM_MAX_LIST_CU_NUM_V2))
         (\<lambda>r s. snd (resReleaseCuListV2 r s))
         (count_reply ''availableListNum'' ''failed to check available cu list number'')) s"

definition checkCuGroupAvailableNumV2Command :: "'m handler" where
  "checkCuGroupAvailableNumV2Command h m s =
     serve_probe (of_option (read_group (h_tree h) m)) (\<lambda>g.
       count_all (turn (resAllocCuGroupV2 (group_propertyV2 g)) (cuListResource0 XRM_MAX_GROUP_CU_NUM_V2))
         (\<lambda>r s. snd (resReleaseCuGroupV2 r s))
         (count_reply ''availableGroupNum'' ''failed to check available cu group number'')) s"

section \<open>Pools\<close>

text \<open>
  The pool requests. The names of the members stand under \<open>cuList\<close> in the reserve requests, and directly under
  the parameters in the count requests; the count sets no client of the pool.
\<close>

definition read_pool :: "'m ptree \<Rightarrow> string \<Rightarrow> bool \<Rightarrow> 'm \<Rightarrow> cuPoolProperty parsed" where
  "read_pool P pre owned m =
     and_then (of_option (do {
       cuListNum \<leftarrow> get_i32 P (par ''cuListNum'') m;
       cuNum \<leftarrow> get_i32 P (pre @ ''cuNum'') m;
       sameDevice \<leftarrow> get_i32 P (pre @ ''sameDevice'') m;
       clientId \<leftarrow> get_u64 P (par ''clientId'') m;
       clientProcessId \<leftarrow> get_i32 P (par ''clientProcessId'') m;
       Some (cuListNum, cuNum, sameDevice, clientId, clientProcessId)
     })) (\<lambda>(cuListNum, cuNum, sameDevice, clientId, clientProcessId).
       and_then (read_list P pre False clientId clientProcessId m cuNum) (\<lambda>ps.
         of_option (do {
           uuidStr \<leftarrow> get_str P (par ''xclbinUuidStr'') m;
           xclbinNum \<leftarrow> get_i32 P (par ''xclbinNum'') m;
           Some \<lparr> pp_cuListProp = \<lparr> lp_cuProps = ps, lp_cuNum = cuNum, lp_sameDevice = (sameDevice \<noteq> 0) \<rparr>,
                  pp_cuListNum = cuListNum, pp_xclbinUuid = hexstrToBin uuidStr 32, pp_xclbinNum = xclbinNum,
                  pp_clientId = (if owned then clientId else 0),
                  pp_clientProcessId = (if owned then clientProcessId else 0) \<rparr>
         })))"

definition reserve_turn :: "cuPoolProperty \<Rightarrow> system \<Rightarrow> (int + u64) \<times> system" where
  "reserve_turn pool s =
     (case resReserveCuPool pool s of (poolId, s') \<Rightarrow> (if poolId \<noteq> 0 then Inr poolId else Inl XRM_SUCCESS, s'))"

definition pool_count_reply :: "int \<Rightarrow> nat \<Rightarrow> (string \<times> string) list" where
  "pool_count_reply ret num = status XRM_SUCCESS @ [(dat ''availablePoolNum'', show_nat num)]"

definition checkCuPoolAvailableNumCommand :: "'m handler" where
  "checkCuPoolAvailableNumCommand h m s =
     serve_probe (read_pool (h_tree h) (par []) False m) (\<lambda>pool.
       count_all (reserve_turn pool) (\<lambda>poolId s. snd (resRelinquishCuPool poolId s)) pool_count_reply) s"

definition cuPoolReserveCommand :: "'m handler" where
  "cuPoolReserveCommand h m s =
     serve (read_pool (h_tree h) (par ''cuList.'') True m) (\<lambda>pool s.
       case resReserveCuPool pool s of
         (poolId, s') \<Rightarrow>
           (if poolId > 0 then status XRM_SUCCESS @ [(dat ''poolId'', show_word poolId)] else status XRM_ERROR, s')) s"

definition cuPoolRelinquishCommand :: "'m handler" where
  "cuPoolRelinquishCommand h m s =
     serve (of_option (get_u64 (h_tree h) (par ''poolId'') m)) (serve_status resRelinquishCuPool) s"

definition cuPoolRelinquishV2Command :: "'m handler" where
  "cuPoolRelinquishV2Command h m s =
     serve (of_option (get_u64 (h_tree h) (par ''poolId'') m)) (serve_status resRelinquishCuPoolV2) s"

definition read_poolV2 :: "'m ptree \<Rightarrow> string \<Rightarrow> bool \<Rightarrow> 'm \<Rightarrow> cuPoolPropertyV2 parsed" where
  "read_poolV2 P pre owned m =
     and_then (of_option (do {
       cuListNum \<leftarrow> get_i32 P (par ''cuListNum'') m;
       cuNum \<leftarrow> get_i32 P (par ''cuList.cuNum'') m;
       deviceNum \<leftarrow> get_i32 P (par ''deviceIdList.deviceNum'') m;
       clientId \<leftarrow> get_u64 P (par ''clientId'') m;
       clientProcessId \<leftarrow> get_i32 P (par ''clientProcessId'') m;
       Some (cuListNum, cuNum, deviceNum, clientId, clientProcessId)
     })) (\<lambda>(cuListNum, cuNum, deviceNum, clientId, clientProcessId).
       and_then (read_listV2 P pre False clientId clientProcessId m cuNum) (\<lambda>ps.
         and_then (read_members (\<lambda>i. do {
             deviceId \<leftarrow> get_u64 P (par ''deviceIdList.deviceIds'' @ show_nat i) m;
             Some (\<lambda>_. deviceId)
           }) deviceNum (replicate XRM_MAX_XILINX_DEVICES 0)) (\<lambda>ids.
           of_option (do {
             uuidStr \<leftarrow> get_str P (par ''xclbinUuidStr'') m;
             xclbinNum \<leftarrow> get_i32 P (par ''xclbinNum'') m;
             Some \<lparr> p3_cuListProp = \<lparr> l2_cuProps = ps, l2_cuNum = cuNum \<rparr>, p3_cuListNum = cuListNum,
                    p3_xclbinUuid = hexstrToBin uuidStr 32, p3_xclbinNum = xclbinNum,
                    p3_deviceIdListProp = \<lparr> dl_deviceIds = ids, dl_deviceNum = deviceNum \<rparr>,
                    p3_clientId = (if owned then clientId else 0),
                    p3_clientProcessId = (if owned then clientProcessId else 0) \<rparr>
           }))))"

definition XRM_MAX_POOL_CU_LIST_NUM_V2 :: nat where "XRM_MAX_POOL_CU_LIST_NUM_V2 = 8"

definition cuPoolResInforV2_0 :: cuPoolResInforV2 where
  "cuPoolResInforV2_0 = \<lparr> pf_cuListResInfor = replicate XRM_MAX_POOL_CU_LIST_NUM_V2
       \<lparr> lf_deviceIds = replicate XRM_MAX_LIST_CU_NUM_V2 0, lf_cuNum = 0 \<rparr>, pf_cuListNum = 0,
     pf_xclbinDeviceIds = replicate XRM_MAX_XILINX_DEVICES 0, pf_xclbinNum = 0 \<rparr>"

text \<open>The result structure is used again in every turn.\<close>

definition reserve_turnV2 :: "cuPoolPropertyV2 \<Rightarrow> cuPoolResInforV2 \<times> system \<Rightarrow> (int + u64) \<times> cuPoolResInforV2 \<times> system" where
  "reserve_turnV2 pool st =
     (case resReserveCuPoolV2 pool st of (poolId, st') \<Rightarrow> (if poolId \<noteq> 0 then Inr poolId else Inl XRM_SUCCESS, st'))"

definition checkCuPoolAvailableNumV2Command :: "'m handler" where
  "checkCuPoolAvailableNumV2Command h m s =
     serve_probe (read_poolV2 (h_tree h) (par []) False m) (\<lambda>pool s.
       case take_all (reserve_turnV2 pool) [] (cuPoolResInforV2_0, s) of
         None \<Rightarrow> (Hangs, s)
       | Some (e, taken, _, s') \<Rightarrow>
           (Reply (pool_count_reply e (length taken)),
            fold (\<lambda>poolId s. snd (resRelinquishCuPoolV2 poolId s)) taken s')) s"

text \<open>The keys of the device ids join the list and the member number without a separator.\<close>

definition show_reserved :: "cuPoolResInforV2 \<Rightarrow> (string \<times> string) list" where
  "show_reserved infor =
     [(dat ''cuListNum'', show_int (pf_cuListNum infor))] @
     concat (map (\<lambda>i. let l = pf_cuListResInfor infor ! i
       in (dat ''cuList.cuNum'' @ show_nat i, show_int (lf_cuNum l)) #
          map (\<lambda>j. (dat ''cuList.deviceId'' @ show_nat i @ show_nat j, show_word (lf_deviceIds l ! j)))
            [0..<nat (lf_cuNum l)]) [0..<nat (pf_cuListNum infor)]) @
     [(dat ''xclbinNum'', show_int (pf_xclbinNum infor))] @
     map (\<lambda>i. (dat ''xclbin.deviceId'' @ show_nat i, show_word (pf_xclbinDeviceIds infor ! i)))
       [0..<nat (pf_xclbinNum infor)]"

definition cuPoolReserveV2Command :: "'m handler" where
  "cuPoolReserveV2Command h m s =
     serve (read_poolV2 (h_tree h) (par ''cuList.'') True m) (\<lambda>pool s.
       case resReserveCuPoolV2 pool (cuPoolResInforV2_0, s) of
         (poolId, infor, s') \<Rightarrow>
           (if poolId > 0 then status XRM_SUCCESS @ [(dat ''poolId'', show_word poolId)] @ show_reserved infor
            else status XRM_ERROR, s')) s"

end
