(* ===== verification/Xrm_Admin.thy ===== *)
theory Xrm_Admin
  imports Xrm_Probes
begin

text \<open>
  The request handlers of the administration tool: loading and unloading xclbins, enabling and disabling devices
  (xrm_command_load.cpp, xrm_command_unload.cpp, xrm_command_control.cpp), plugins (xrm_command_plugin.cpp) and
  the listing of the devices (xrm_command_list.cpp).
\<close>

section \<open>Answers\<close>

definition heading :: "string \<Rightarrow> int \<Rightarrow> (string \<times> string) list" where
  "heading name requestId = [(''response.name'', name), (''response.requestId'', show_int requestId)]"

definition failed :: "string \<Rightarrow> (string \<times> string) list" where
  "failed text = [(''response.status'', ''failed''), (dat ''failed'', text)]"

definition completed :: "string \<Rightarrow> (string \<times> string) list" where
  "completed text = [(''response.status'', ''ok''), (dat ''ok'', text)]"

text \<open>A handler that numbers its answer with the request: \<open>None\<close> is an exception of the operation.\<close>

definition serve_admin :: "string \<Rightarrow> ('m \<Rightarrow> int \<Rightarrow> system \<Rightarrow> (string \<times> string) list option \<times> system) \<Rightarrow>
    'm ptree \<Rightarrow> 'm \<Rightarrow> system \<Rightarrow> outcome \<times> system" where
  "serve_admin name run P m s =
     (case get_i32 P ''request.requestId'' m of
        None \<Rightarrow> (Escapes, s)
      | Some requestId \<Rightarrow>
          (case run m requestId s of
             (None, s') \<Rightarrow> (Escapes, s')
           | (Some r, s') \<Rightarrow> (Reply (heading name requestId @ r), s')))"

text \<open>The children of a node of the request, or the answer that there is none.\<close>

definition with_children :: "'m ptree \<Rightarrow> string \<Rightarrow> string \<Rightarrow> ('m list \<Rightarrow> system \<Rightarrow> (string \<times> string) list option \<times> system) \<Rightarrow>
    (string \<times> string) list \<Rightarrow> 'm \<Rightarrow> int \<Rightarrow> system \<Rightarrow> (string \<times> string) list option \<times> system" where
  "with_children P path text run missing m requestId s =
     (case pt_children P path m of
        None \<Rightarrow> (Some (missing @ [(dat ''failed'', text)]), s)
      | Some kids \<Rightarrow> run kids s)"

section \<open>Enabling and disabling\<close>

text \<open>The devices one after the other; the id is read as unsigned and passed as signed.\<close>

fun control_devices :: "'m ptree \<Rightarrow> string \<Rightarrow> string \<Rightarrow> (int \<Rightarrow> system \<Rightarrow> int \<times> system) \<Rightarrow> 'm list \<Rightarrow> system \<Rightarrow>
    (string \<times> string) list option \<times> system" where
  "control_devices P done errmsg operation [] s = (Some (completed done), s)"
| "control_devices P done errmsg operation (kid # kids) s =
     (case get_u32 P [] kid of
        None \<Rightarrow> (None, s)
      | Some devId \<Rightarrow>
          (case operation (i32 (uint devId)) s of
             (ret, s') \<Rightarrow> if ret \<noteq> XRM_SUCCESS then (Some (failed errmsg), s')
                          else control_devices P done errmsg operation kids s'))"

definition control_one :: "'m ptree \<Rightarrow> string \<Rightarrow> string \<Rightarrow> (int \<Rightarrow> system \<Rightarrow> int \<times> system) \<Rightarrow> 'm \<Rightarrow> int \<Rightarrow> system \<Rightarrow>
    (string \<times> string) list option \<times> system" where
  "control_one P done errmsg operation m requestId s =
     (case get_i32 P (par ''deviceId'') m of
        None \<Rightarrow> (None, s)
      | Some devId \<Rightarrow>
          (case operation devId s of
             (ret, s') \<Rightarrow> (Some (if ret \<noteq> XRM_SUCCESS then status ret @ [(dat ''failed'', errmsg)]
                                else status XRM_SUCCESS @ [(dat ''ok'', done)]), s')))"

definition no_device_text :: string where
  "no_device_text = ''request parameters device is not provided''"

definition enableDevicesCommand :: "'m handler" where
  "enableDevicesCommand h m s =
     (let P = h_tree h in
      serve_admin ''enableDevices'' (with_children P (par ''device'') no_device_text
        (control_devices P ''enable devices completed'' (h_errmsg h) (enableOneDevice (h_xrt h)))
        [(''response.status'', ''failed'')]) P m s)"

definition disableDevicesCommand :: "'m handler" where
  "disableDevicesCommand h m s =
     (let P = h_tree h in
      serve_admin ''disableDevices'' (with_children P (par ''device'') no_device_text
        (control_devices P ''disable devices completed'' (h_errmsg h) (disableOneDevice (h_xrt h)))
        [(''response.status'', ''failed'')]) P m s)"

definition enableOneDeviceCommand :: "'m handler" where
  "enableOneDeviceCommand h m s =
     serve_admin ''enableOneDevice'' (control_one (h_tree h) ''enable one device completed'' (h_errmsg h)
       (enableOneDevice (h_xrt h))) (h_tree h) m s"

definition disableOneDeviceCommand :: "'m handler" where
  "disableOneDeviceCommand h m s =
     serve_admin ''disableOneDevice'' (control_one (h_tree h) ''disable one device completed'' (h_errmsg h)
       (disableOneDevice (h_xrt h))) (h_tree h) m s"

section \<open>Loading\<close>

definition no_parameters_text :: string where
  "no_parameters_text = ''request parameters is not provided''"

definition loadCommand :: "'m handler" where
  "loadCommand h m s =
     (let P = h_tree h in
      serve_admin ''load'' (with_children P (par []) no_parameters_text (\<lambda>kids s.
        case loadDevices (h_xrt h) (map (\<lambda>kid. (get_or_empty P ''device'' kid, get_or_empty P ''xclbin'' kid)) kids) s of
          (None, s') \<Rightarrow> (None, s')
        | (Some ret, s') \<Rightarrow>
            (Some (if ret = XRM_SUCCESS then [(''response.status'', ''ok'')] else failed (h_errmsg h)), s'))
        [(''response.status'', ''failed'')]) P m s)"

text \<open>
  The missing parameters are a status of their own here. The operation initialises the devices before it reads its
  parameters, so that a request without them throws after that.
\<close>

definition loadOneDeviceCommand :: "'m handler" where
  "loadOneDeviceCommand h m s =
     (let P = h_tree h in
      serve_admin ''loadOneDevice'' (with_children P (par []) no_parameters_text (\<lambda>_ s.
        let s1 = initDevices (h_xrt h) s in
        case (do {
            xclbin \<leftarrow> get_str P (par ''xclbinFileName'') m;
            devId \<leftarrow> get_i32 P (par ''deviceId'') m;
            Some (xclbin, devId)
          }) of
          None \<Rightarrow> (None, s1)
        | Some (xclbin, devId) \<Rightarrow>
            (case loadOneDevice (h_xrt h) devId xclbin s of
               (ret, s') \<Rightarrow>
                 (Some (if ret \<ge> 0 then status XRM_SUCCESS @ [(dat ''deviceId'', show_int ret)]
                        else status XRM_ERROR @ [(dat ''failed'', h_errmsg h)]), s')))
        (status XRM_ERROR)) P m s)"

section \<open>Unloading\<close>

definition unload_answer :: "string \<Rightarrow> int \<Rightarrow> (string \<times> string) list" where
  "unload_answer errmsg ret = (if ret \<noteq> XRM_SUCCESS then failed errmsg else completed ''unload completed'')"

text \<open>
  The devices of the list, with -2 for all devices, which ends the list. With no device the result of "all" is
  the one of the device before it, or what the local variable held.
\<close>

fun unload_list :: "'m ptree \<Rightarrow> xrt \<Rightarrow> string \<Rightarrow> 'm list \<Rightarrow> int \<times> system \<Rightarrow> (string \<times> string) list option \<times> system" where
  "unload_list P x errmsg [] (ret, s) = (Some (completed ''unload completed''), s)"
| "unload_list P x errmsg (kid # kids) (ret, s) =
     (case get_i32 P [] kid of
        None \<Rightarrow> (None, s)
      | Some devId \<Rightarrow>
          if devId = - 2 then
            (case getDeviceNumber x s of
               (numDev, s1) \<Rightarrow>
                 (case find_index (\<lambda>d (ret, s). case unloadOneDevice x (int d) s of
                          (ret', s') \<Rightarrow> (ret' \<noteq> XRM_SUCCESS, ret', s')) [0..<nat numDev] (ret, s1) of
                    (_, ret', s') \<Rightarrow> (Some (unload_answer errmsg ret'), s')))
          else (case unloadOneDevice x devId s of
                  (ret', s') \<Rightarrow> if ret' \<noteq> XRM_SUCCESS then (Some (failed errmsg), s')
                               else unload_list P x errmsg kids (ret', s')))"

definition unloadCommand :: "'m handler" where
  "unloadCommand h m s =
     (let P = h_tree h in
      serve_admin ''unload'' (with_children P (par ''device'') no_device_text
        (\<lambda>kids s. unload_list P (h_xrt h) (h_errmsg h) kids (h_int h, s)) [(''response.status'', ''failed'')]) P m s)"

definition unloadOneDeviceCommand :: "'m handler" where
  "unloadOneDeviceCommand h m s =
     serve_admin ''unloadOneDevice'' (control_one (h_tree h) ''unload completed'' (h_errmsg h)
       (unloadOneDevice (h_xrt h))) (h_tree h) m s"

section \<open>Plugins\<close>

definition plugin_answer :: "string \<Rightarrow> int \<Rightarrow> (string \<times> string) list" where
  "plugin_answer errmsg ret = (if ret = XRM_SUCCESS then [(''response.status'', ''ok'')] else failed errmsg)"

definition loadXrmPluginsCommand :: "'m handler" where
  "loadXrmPluginsCommand h m s =
     (let P = h_tree h in
      serve_admin ''loadXrmPlugins'' (with_children P (par []) no_parameters_text (\<lambda>kids s.
        case loadXrmPlugins (h_loader h)
               (map (\<lambda>kid. (get_or_empty P ''xrmPluginFileName'' kid, get_or_empty P ''xrmPluginName'' kid)) kids)
               (XRM_ERROR, s) of
          (ret, s') \<Rightarrow> (Some (plugin_answer (h_errmsg h) ret), s')) [(''response.status'', ''failed'')]) P m s)"

definition unloadXrmPluginsCommand :: "'m handler" where
  "unloadXrmPluginsCommand h m s =
     (let P = h_tree h in
      serve_admin ''unloadXrmPlugins'' (with_children P (par []) no_parameters_text (\<lambda>kids s.
        case unloadXrmPlugins (map (get_or_empty P ''xrmPluginName'') kids) (XRM_ERROR, s) of
          (ret, s') \<Rightarrow> (Some (plugin_answer (h_errmsg h) ret), s')) [(''response.status'', ''failed'')]) P m s)"

definition XRM_MAX_PLUGIN_FUNC_PARAM_LEN :: nat where "XRM_MAX_PLUGIN_FUNC_PARAM_LEN = 16384"

text \<open>The plugin runs without the lock.\<close>

definition execXrmPluginFuncCommand :: "'m handler" where
  "execXrmPluginFuncCommand h m s =
     (let P = h_tree h in
      serve_admin ''execXrmPluginFunc'' (\<lambda>m requestId s.
        case (do {
            name \<leftarrow> get_str P (par ''xrmPluginName'') m;
            funcId \<leftarrow> get_u32 P (par ''funcId'') m;
            input \<leftarrow> get_str P (par ''input'') m;
            Some (name, funcId, input)
          }) of
          None \<Rightarrow> (None, s)
        | Some (name, funcId, input) \<Rightarrow>
            (case execXrmPluginFunc (c_str name) funcId
                    \<lparr> pf_input = strncpy (XRM_MAX_PLUGIN_FUNC_PARAM_LEN - 1) input, pf_output = [] \<rparr> s of
               (ret, param) \<Rightarrow>
                 (Some (status ret @ (if ret = XRM_SUCCESS then [(dat ''output'', c_str (pf_output param))]
                                      else [(dat ''failed'', h_errmsg h)])), s))) P m s)"

section \<open>Listing\<close>

definition device_node :: "nat \<Rightarrow> string" where
  "device_node d = dat ''device_'' @ show_nat d"

definition cuType_text :: "xrmCuType \<Rightarrow> string" where
  "cuType_text t = (case t of XRM_CU_NULL \<Rightarrow> ''Empty Kernel'' | XRM_CU_IPKERNEL \<Rightarrow> ''IP Kernel''
     | XRM_CU_IPPSKERNEL \<Rightarrow> ''IP PS Kernel'' | XRM_CU_SOFTKERNEL \<Rightarrow> ''Soft Kernel'')"

definition list_cu :: "string \<Rightarrow> cuData \<Rightarrow> (string \<times> string) list" where
  "list_cu node cu =
     [(node @ ''.cuId         '', show_int (cu_cuId cu)),
      (node @ ''.cuType       '', cuType_text (cu_cuType cu)),
      (node @ ''.kernelName   '', cu_kernelName cu),
      (node @ ''.kernelAlias  '', cu_kernelAlias cu),
      (node @ ''.instanceName '', cu_instanceName cu),
      (node @ ''.cuName       '', cu_cuName cu),
      (node @ ''.kernelPlugin '', cu_kernelPluginFileName cu),
      (node @ ''.maxCapacity  '', if cu_maxCapacity cu \<noteq> 0 then show_word (cu_maxCapacity cu) else []),
      (node @ ''.numChanInuse '', show_int (cu_numChanInuse cu)),
      (node @ ''.usedLoad     '', show_int (cu_totalUsedLoadUnified cu) @ '' of 1000000''),
      (node @ ''.reservedLoad '', show_int (cu_totalReservedLoadUnified cu) @ '' of 1000000''),
      (node @ ''.resrvUsedLoad'', show_int (cu_totalReservedUsedLoadUnified cu) @ '' of 1000000'')]"

text \<open>With several devices only the first compute units of each are shown.\<close>

definition list_cus :: "nat \<Rightarrow> nat \<Rightarrow> deviceData \<Rightarrow> (string \<times> string) list" where
  "list_cus listNumDev d dev =
     (let listCuLimit = (if listNumDev > 10 then 4 else 7 :: nat); n = nat (numCu dev);
          cut = (listNumDev > 1 \<and> n > listCuLimit + 1)
      in concat (map (\<lambda>c. list_cu (device_node d @ ''.cu_'' @ show_nat c) (cuList dev ! c))
           [0..<if cut then listCuLimit + 1 else n]) @
         (if cut then [(device_node d @ ''.cu_others.other cu     '',
             ''details are omitted due to large number of cu'')] else []))"

definition show_bool :: "bool \<Rightarrow> string" where
  "show_bool b = (if b then ''true'' else ''false'')"

definition list_one :: "nat \<Rightarrow> nat \<Rightarrow> deviceData \<Rightarrow> (string \<times> string) list" where
  "list_one listNumDev d dev =
     (device_node d @ ''.dsaName    '', dv_dsaName dev) #
     (if dv_isLoaded dev then
        [(device_node d @ ''.xclbinName '', dv_xclbinName dev),
         (device_node d @ ''.uuid       '', xb_uuidStr (dv_xclbinInfo dev)),
         (device_node d @ ''.isExclusive'', show_bool (dv_isExcl dev)),
         (device_node d @ ''.cuNumber   '', show_int (numCu dev))] @ list_cus listNumDev d dev
      else
        [(device_node d @ ''.xclbin     '',
          if dv_isDisabled dev then ''device is disabled, xclbin can'' @ [CHR 0x27] @ ''t be loaded'' else ''is NOT loaded'')])"

fun list_devices :: "xrt \<Rightarrow> nat \<Rightarrow> nat list \<Rightarrow> system \<Rightarrow> (string \<times> string) list \<times> system" where
  "list_devices x listNumDev [] s = ([], s)"
| "list_devices x listNumDev (d # ds) s =
     (case listDevice x (int d) s of
        (dev, s1) \<Rightarrow>
          (case list_devices x listNumDev ds s1 of (r, s2) \<Rightarrow> (list_one listNumDev d dev @ r, s2)))"

definition list_plugin :: "nat \<Rightarrow> system \<Rightarrow> (string \<times> string) list" where
  "list_plugin i s =
     (let node = dat ''xrmPlugin_'' @ show_nat i; p = listXrmPlugin i s
      in [(node @ ''.xrmPluginName    '', pl_xrmPluginName p),
          (node @ ''.xrmPluginFileName'', pl_xrmPluginFileName p)])"

text \<open>The devices are counted (and initialised) before the request is read.\<close>

definition listCommand :: "'m handler" where
  "listCommand h m s =
     (let P = h_tree h in
      case getDeviceNumber (h_xrt h) s of
        (numDev, s1) \<Rightarrow>
          let show_all = (\<lambda>requestId start stop.
            let listNumDev = stop - start in
            case list_devices (h_xrt h) listNumDev [start..<stop] s1 of
              (devices, s2) \<Rightarrow>
                (Reply (heading ''list'' requestId @ [(''response.status'', ''ok''),
                    (dat ''deviceNumber'', show_int numDev)] @ devices @
                    [(dat ''xrmPluginNumber'', show_nat (getXrmPluginNumber s))] @
                    concat (map (\<lambda>i. list_plugin i s) [0..<getXrmPluginNumber s])), s2))
          in case get_i32 P ''request.requestId'' m of
               None \<Rightarrow> (Escapes, s1)
             | Some requestId \<Rightarrow>
                 (let strDevId = get_or_empty P ''request.device'' m in
                  if c_str strDevId = [] then show_all requestId 0 (nat numDev)
                  else case stoi strDevId of
                         None \<Rightarrow> (Escapes, s1)
                       | Some devId \<Rightarrow>
                           if devId < 0 \<or> devId \<ge> numDev
                           then (Reply (heading ''list'' requestId @
                                   failed (''device '' @ show_int devId @ '' not found'')), s1)
                           else show_all requestId (nat devId) (nat devId + 1)))"

end
