(* ===== verification/Xrm_Daemon.thy ===== *)
theory Xrm_Daemon
  imports Xrm_Admin
begin

text \<open>
  The daemon around the handlers: the registry of the commands (xrm_command_registry.cpp), the session of a
  connection, which reads a request, dispatches it and writes the framed answer, and recycles its client when the
  connection breaks (xrm_tcp_session.cpp), and the worker that resets devices (xrm_main.cpp). The sessions and the
  worker run one at a time under the lock, so that a run of the daemon is a sequence of such steps.
\<close>

section \<open>The registry\<close>

definition registerAll :: "(string \<times> 'm handler) list" where
  "registerAll = [
     (''list'', listCommand),
     (''load'', loadCommand),
     (''loadOneDevice'', loadOneDeviceCommand),
     (''unload'', unloadCommand),
     (''unloadOneDevice'', unloadOneDeviceCommand),
     (''enableDevices'', enableDevicesCommand),
     (''disableDevices'', disableDevicesCommand),
     (''enableOneDevice'', enableOneDeviceCommand),
     (''disableOneDevice'', disableOneDeviceCommand),
     (''createContext'', createContextCommand),
     (''echoContext'', echoContextCommand),
     (''destroyContext'', destroyContextCommand),
     (''isDaemonRunning'', isDaemonRunningCommand),
     (''isCuExisting'', isCuExistingCommand),
     (''isCuListExisting'', isCuListExistingCommand),
     (''isCuGroupExisting'', isCuGroupExistingCommand),
     (''cuAlloc'', cuAllocCommand),
     (''cuAllocFromDev'', cuAllocFromDevCommand),
     (''cuAllocLeastUsedFromDev'', cuAllocLeastUsedFromDevCommand),
     (''cuRelease'', cuReleaseCommand),
     (''cuListAlloc'', cuListAllocCommand),
     (''cuListRelease'', cuListReleaseCommand),
     (''udfCuGroupDeclare'', udfCuGroupDeclareCommand),
     (''udfCuGroupUndeclare'', udfCuGroupUndeclareCommand),
     (''cuGroupAlloc'', cuGroupAllocCommand),
     (''cuGroupRelease'', cuGroupReleaseCommand),
     (''cuPoolReserve'', cuPoolReserveCommand),
     (''cuPoolRelinquish'', cuPoolRelinquishCommand),
     (''cuGetMaxCapacity'', cuGetMaxCapacityCommand),
     (''cuCheckStatus'', cuCheckStatusCommand),
     (''allocationQuery'', allocationQueryCommand),
     (''reservationQuery'', reservationQueryCommand),
     (''checkCuAvailableNum'', checkCuAvailableNumCommand),
     (''checkCuListAvailableNum'', checkCuListAvailableNumCommand),
     (''checkCuGroupAvailableNum'', checkCuGroupAvailableNumCommand),
     (''checkCuPoolAvailableNum'', checkCuPoolAvailableNumCommand),
     (''loadXrmPlugins'', loadXrmPluginsCommand),
     (''unloadXrmPlugins'', unloadXrmPluginsCommand),
     (''execXrmPluginFunc'', execXrmPluginFuncCommand),
     (''cuAllocWithLoad'', cuAllocWithLoadCommand),
     (''cuAllocLeastUsedWithLoad'', cuAllocLeastUsedWithLoadCommand),
     (''loadAndAllCuAlloc'', loadAndAllCuAllocCommand),
     (''cuAllocV2'', cuAllocV2Command),
     (''cuReleaseV2'', cuReleaseV2Command),
     (''cuListAllocV2'', cuListAllocV2Command),
     (''cuListReleaseV2'', cuListReleaseV2Command),
     (''udfCuGroupDeclareV2'', udfCuGroupDeclareV2Command),
     (''udfCuGroupUndeclareV2'', udfCuGroupUndeclareV2Command),
     (''cuGroupAllocV2'', cuGroupAllocV2Command),
     (''cuGroupReleaseV2'', cuGroupReleaseV2Command),
     (''cuPoolReserveV2'', cuPoolReserveV2Command),
     (''cuPoolRelinquishV2'', cuPoolRelinquishV2Command),
     (''allocationQueryV2'', allocationQueryV2Command),
     (''reservationQueryV2'', reservationQueryV2Command),
     (''checkCuAvailableNumV2'', checkCuAvailableNumV2Command),
     (''checkCuListAvailableNumV2'', checkCuListAvailableNumV2Command),
     (''checkCuGroupAvailableNumV2'', checkCuGroupAvailableNumV2Command),
     (''checkCuPoolAvailableNumV2'', checkCuPoolAvailableNumV2Command)]"

definition dispatch :: "string \<Rightarrow> 'm handler" where
  "dispatch name h m s =
     (case map_of registerAll name of
        Some processCmd \<Rightarrow> processCmd h m s
      | None \<Rightarrow> (Reply [(''response.status'', ''failed''), (dat ''failed'', ''unsupported cmd name: '' @ name)], s))"

section \<open>Sessions\<close>

record session =
  se_clientId :: u64
  se_clientProcessId :: int

definition session0 :: session where
  "session0 = \<lparr> se_clientId = 0, se_clientProcessId = 0 \<rparr>"

definition max_length :: nat where "max_length = 131072"

text \<open>
  The frame of an answer: its length in four bytes, lowest first, and the text, cut to the output buffer. The
  last byte of a full buffer is never written.
\<close>

definition le_bytes :: "nat \<Rightarrow> string" where
  "le_bytes n = map (\<lambda>i. char_of ((n div 256 ^ i) mod 256)) [0..<4]"

definition frame :: "char \<Rightarrow> string \<Rightarrow> string" where
  "frame stale text =
     le_bytes (length text) @ take (max_length - 5) text @
     (if length text > max_length - 5 then [stale] else [])"

text \<open>
  \<open>handleCmd\<close>: what was received up to its first null character is parsed; a request needs a name and a request
  id; the first request of a context records the client of the session.
\<close>

definition record_client :: "'m ptree \<Rightarrow> 'm \<Rightarrow> session \<Rightarrow> bool \<times> session" where
  "record_client P m se =
     (if c_str (get_or_empty P (par ''recordClientId'') m) = [] then (True, se)
      else case get_u64 P (par ''clientId'') m of
             None \<Rightarrow> (False, se)
           | Some clientId \<Rightarrow>
               (case get_i32 P (par ''clientProcessId'') m of
                  None \<Rightarrow> (False, se\<lparr>se_clientId := clientId\<rparr>)
                | Some pid \<Rightarrow> (True, \<lparr> se_clientId = clientId, se_clientProcessId = pid \<rparr>)))"

definition handle_tree :: "'m host \<Rightarrow> 'm \<Rightarrow> session \<times> system \<Rightarrow> outcome \<times> session \<times> system" where
  "handle_tree h m = (\<lambda>(se, s).
     let P = h_tree h; name = get_or_empty P ''request.name'' m;
         strRequestId = get_or_empty P ''request.requestId'' m
     in if c_str name = [] then (Reply (failed ''request name is not provided''), se, s)
        else if c_str strRequestId = [] then (Reply (failed ''request requestId is not provided''), se, s)
        else case record_client P m se of
               (False, se') \<Rightarrow> (Escapes, se', s)
             | (True, se') \<Rightarrow> (case dispatch name h m s of (r, s') \<Rightarrow> (r, se', s')))"

definition parse_request :: "'m host \<Rightarrow> string \<Rightarrow> session \<times> system \<Rightarrow> outcome \<times> session \<times> system" where
  "parse_request h indata = (\<lambda>(se, s).
     case h_read_json h (c_str indata) of
       Inl message \<Rightarrow>
         (Reply (failed (''Input Json file format error: '' @ message) @ [(dat ''indata'', c_str indata)]), se, s)
     | Inr m \<Rightarrow> handle_tree h m (se, s))"

text \<open>The bytes of the answer, or \<open>Inl\<close> when there is none.\<close>

definition handleCmd :: "'m host \<Rightarrow> string \<Rightarrow> session \<times> system \<Rightarrow> (outcome + string) \<times> session \<times> system" where
  "handleCmd h indata st =
     (case parse_request h indata st of
        (Reply r, st') \<Rightarrow> (Inr (frame (h_char h) (h_write_json h (put_all (h_tree h) r (pt_empty (h_tree h))))), st')
      | (out, st') \<Rightarrow> (Inl out, st'))"

text \<open>The connection is lost: at a read with end of file or reset, and at a write with any error.\<close>

definition connection_lost :: "session \<Rightarrow> system \<Rightarrow> system" where
  "connection_lost se s = (if se_clientId se \<noteq> 0 then recycleResource (se_clientId se) s else s)"

datatype read_error = NoError | Eof | ConnectionReset | OtherError

text \<open>
  \<open>doRead\<close>'s callback. Only the end of the file and a reset recycle the client; a read of no bytes ends the session.
\<close>

definition doRead :: "'m host \<Rightarrow> read_error \<Rightarrow> string \<Rightarrow> session \<times> system \<Rightarrow> (outcome + string) option \<times> session \<times> system" where
  "doRead h ec indata = (\<lambda>(se, s).
     let s1 = (if ec = Eof \<or> ec = ConnectionReset then connection_lost se s else s)
     in if indata = [] then (None, se, s1)
        else case handleCmd h indata (se, s1) of (out, st) \<Rightarrow> (Some out, st))"

text \<open>\<open>doWrite\<close>'s callback: after an error the client is recycled and the session ends, else it reads on.\<close>

definition doWrite :: "bool \<Rightarrow> session \<times> system \<Rightarrow> bool \<times> session \<times> system" where
  "doWrite ec = (\<lambda>(se, s). if ec then (False, se, connection_lost se s) else (True, se, s))"

section \<open>The worker\<close>

text \<open>
  \<open>isDeviceOffline\<close> reads the kernel's file of the PCI slot; \<open>None\<close> is the exception of \<open>std::stoi\<close> on a line that is
  no number.
\<close>

fun show_hex :: "nat \<Rightarrow> nat \<Rightarrow> string" where
  "show_hex 0 n = []"
| "show_hex (Suc width) n = show_hex width (n div 16) @ [''0123456789abcdef'' ! (n mod 16)]"

definition offline_file :: "u32 \<Rightarrow> string" where
  "offline_file slot =
     (let n = unat slot
      in ''/sys/bus/pci/devices/'' @ show_hex 4 (n div 65536) @ '':'' @ show_hex 2 (n div 256 mod 256) @ '':'' @
         show_hex 2 (n div 8 mod 32) @ ''.'' @ show_hex 1 (n mod 8) @ ''/dev_offline'')"

definition isDeviceOffline :: "(string \<Rightarrow> string option) \<Rightarrow> int \<Rightarrow> system \<Rightarrow> int option" where
  "isDeviceOffline sysfs devId s =
     (if \<not> in_range devId s then Some XRM_ERROR_INVALID
      else if dv_deviceHandle (dev_at s (nat devId)) = 0 then Some XRM_ERROR_INVALID
      else case sysfs (offline_file (di_mPciSlot (dv_deviceInfo (dev_at s (nat devId))))) of
             None \<Rightarrow> Some XRM_ERROR_INVALID
           | Some line \<Rightarrow> stoi line)"

text \<open>\<open>resetEventFunc\<close>: after a bus error every device that is offline is reset. An exception ends the daemon.\<close>

fun reset_offline :: "'m host \<Rightarrow> nat list \<Rightarrow> system \<Rightarrow> system option" where
  "reset_offline h [] s = Some s"
| "reset_offline h (d # ds) s =
     (case isDeviceOffline (h_sysfs h) (int d) s of
        None \<Rightarrow> None
      | Some st \<Rightarrow> reset_offline h ds (if st = 1 then snd (resetDevice (h_xrt h) (int d) s) else s))"

definition resetEventFunc :: "'m host \<Rightarrow> system \<Rightarrow> system option" where
  "resetEventFunc h s =
     (case getDeviceNumber (h_xrt h) s of (numDevice, s1) \<Rightarrow> reset_offline h [0..<nat numDevice] s1)"

section \<open>The running daemon\<close>

text \<open>
  The daemon is its system and the session of each connection (\<open>None\<close> when there is no such connection); \<open>False\<close>
  in the first component means that it has ended.
\<close>

record daemon =
  d_running :: bool
  d_system :: system
  d_sessions :: "nat \<rightharpoonup> session"

definition session_step :: "nat \<Rightarrow> bool \<Rightarrow> session \<times> system \<Rightarrow> daemon \<Rightarrow> daemon" where
  "session_step c alive = (\<lambda>(se, s) d.
     d\<lparr>d_system := s, d_sessions := (d_sessions d)(c := if alive then Some se else None)\<rparr>)"

text \<open>\<open>doAccept\<close>'s callback: a connection gets a session, unless it could not be accepted.\<close>

definition doAccept :: "bool \<Rightarrow> nat \<Rightarrow> daemon \<Rightarrow> daemon" where
  "doAccept ec c d = (if ec then d else d\<lparr>d_sessions := (d_sessions d)(c \<mapsto> session0)\<rparr>)"

lemma doAccept_fields [simp]: "d_system (doAccept ec c d) = d_system d" "d_running (doAccept ec c d) = d_running d"
  by (simp_all add: doAccept_def)

text \<open>
  The events and their steps: a connection is accepted or not; bytes arrive and the answer is written, or it cannot be
  written; an exception ends the daemon; a connection ends; the worker runs. A handler that hangs makes no step.
\<close>

datatype event = Accept nat bool | Bytes nat read_error string bool | Close nat read_error | Worker

inductive daemon_step :: "'m host \<Rightarrow> event \<Rightarrow> daemon \<Rightarrow> daemon \<Rightarrow> bool" for h :: "'m host" where
  accept: "d_running d \<Longrightarrow> d_sessions d c = None \<Longrightarrow>
    daemon_step h (Accept c ec) d (doAccept ec c d)"
| request: "d_running d \<Longrightarrow> d_sessions d c = Some se \<Longrightarrow>
    doRead h ec indata (se, d_system d) = (Some (Inr answer), st) \<Longrightarrow>
    doWrite write_failed st = (alive, st') \<Longrightarrow>
    daemon_step h (Bytes c ec indata write_failed) d (session_step c alive st' d)"
| escape: "d_running d \<Longrightarrow> d_sessions d c = Some se \<Longrightarrow>
    doRead h ec indata (se, d_system d) = (Some (Inl Escapes), st) \<Longrightarrow>
    daemon_step h (Bytes c ec indata write_failed) d ((session_step c False st d)\<lparr>d_running := False\<rparr>)"
| close: "d_running d \<Longrightarrow> d_sessions d c = Some se \<Longrightarrow>
    doRead h ec [] (se, d_system d) = (None, st) \<Longrightarrow>
    daemon_step h (Close c ec) d (session_step c False st d)"
| worker: "d_running d \<Longrightarrow> resetEventFunc h (d_system d) = Some s' \<Longrightarrow>
    daemon_step h Worker d (d\<lparr>d_system := s'\<rparr>)"
| worker_dies: "d_running d \<Longrightarrow> resetEventFunc h (d_system d) = None \<Longrightarrow>
    daemon_step h Worker d (d\<lparr>d_running := False\<rparr>)"

end
