(* ===== verification/Xrm_PoolV2_Inv.thy ===== *)
theory Xrm_PoolV2_Inv
  imports Xrm_Pool_Inv
begin

text \<open>
  Correctness of the reservation of version 2 pools: devices by their index, the compute units of an xclbin, and
  lists whose members may be tied to a device or to each other. As in Xrm_Pool_Inv every operation under a fresh
  pool id leaves the system pooled, and \<open>resReserveCuPoolV2\<close> reserves everything or nothing.
\<close>

section \<open>Withdrawing single members\<close>

text \<open>The slot that is found is the only one of the pool, so that withdrawing it restores the compute unit.\<close>

lemma relinquish_on_cu_pooled:
  assumes ps: "pooled_sys p s0 s" and v: "valid_cu s d c" and run: "relinquish_on_cu p q d c s = (b, s')"
  shows "pooled_sys p s0 s'" "\<not> b \<Longrightarrow> s' = s"
proof -
  let ?cu = "cu_at s d c"
  have all: "pooled_sys p s0 s' \<and> (\<not> b \<longrightarrow> s' = s)"
  proof (cases "kernel_matches q ?cu")
    case False
    with run ps show ?thesis by (simp add: relinquish_on_cu_def)
  next
    case m: True
    let ?P = "\<lambda>i. rs_poolId (cu_reserves ?cu ! i) = p \<and>
      rs_loadUnified (cu_reserves ?cu ! i) = pr_requestLoadUnified q \<and> rs_usedLoadUnified (cu_reserves ?cu ! i) = 0"
    show ?thesis
    proof (cases "first_index (nat (cu_numReserve ?cu)) ?P")
      case None
      with m run ps show ?thesis by (simp add: relinquish_on_cu_def Let_def)
    next
      case (Some i)
      then have i: "i < nat (cu_numReserve ?cu)" "?P i" by (simp_all add: first_index_Some_iff)
      have rs: "reserves_inv ?cu"
        using valid_cu_inv [OF pooled_sysD(1) [OF ps] v] by (simp add: cu_inv_def cu_acct_def)
      have one: "rs_poolId (cu_reserves ?cu ! j) = p \<longleftrightarrow> j = i" if "j < nat (cu_numReserve ?cu)" for j
        using reserve_unique [OF rs that i(1)] i(2) by auto
      have "first_index (nat (cu_numReserve ?cu)) (\<lambda>i. rs_poolId (cu_reserves ?cu ! i) = p) = Some i"
        by (rule first_index_unique [OF i(1)]) (rule one)
      then have "relinquish_cu p d c s = Some (relinquish_slot d c i s)" using i(2) by (simp add: relinquish_cu_def)
      moreover have "s' = relinquish_slot d c i s \<and> b" using m run Some by (simp add: relinquish_on_cu_def Let_def)
      ultimately show ?thesis
        using relinquish_cu_pooled [OF ps v] pooled_sys_step [OF ps, of d c s'] by (auto simp: pooled_def)
    qed
  qed
  then show "pooled_sys p s0 s'" "\<not> b \<Longrightarrow> s' = s" by simp_all
qed

lemma relinquishCuFromDev_pooled:
  assumes ps: "pooled_sys p s0 s" and run: "relinquishCuFromDev p devId q s = (ret, s')"
  shows "pooled_sys p s0 s'"
proof -
  have scan: "pooled_sys p s0 t'"
    if d: "0 \<le> devId" "devId < m_numDevice s"
      and u: "until_acquired (relinquish_on_cu p q (nat devId)) [0..<nat (numCu (dev_at s (nat devId)))] s = (b, t')" for b t'
  proof -
    have v: "valid_cu s0 (nat devId) c" if "c \<in> set [0..<nat (numCu (dev_at s (nat devId)))]" for c
    proof -
      have "valid_cu s (nat devId) c" using that d by (simp add: valid_cu_def)
      then show ?thesis using pooled_sysD(3) [OF ps] by blast
    qed
    show ?thesis
      by (rule until_acquired_inv [where P = "pooled_sys p s0", OF ps _ u])
        (use v relinquish_on_cu_pooled(1) pooled_sysD(3) in blast)
  qed
  show ?thesis using run ps scan by (auto simp: relinquishCuFromDev_def Let_def split: if_splits prod.splits)
qed

lemma relinquish_members_pooled:
  "pooled_sys p s0 s \<Longrightarrow> relinquish_members p devId qs s = (ok, s') \<Longrightarrow> pooled_sys p s0 s'"
proof (induction qs arbitrary: s)
  case (Cons q qs)
  obtain r s1 where 1: "relinquishCuFromDev p devId q s = (r, s1)" by fastforce
  have "pooled_sys p s0 s1" by (rule relinquishCuFromDev_pooled [OF Cons.prems(1) 1])
  with Cons 1 show ?case by (auto split: if_splits)
qed simp

section \<open>Lists\<close>

lemma reserveCuFromDev_pooled:
  assumes "pooled_sys p s0 s" "reserveCuFromDev p devId q s = (ret, s')"
  shows "pooled_sys p s0 s'"
  using reserveCuFromDev_spec(1) [OF assms] assms(1) by (auto simp: pooled_total_def split: if_splits)

lemma reserve_sub_members_pooled:
  "pooled_sys p s0 s \<Longrightarrow> reserve_sub_members p devId done qs s = (ret, ok, s') \<Longrightarrow> pooled_sys p s0 s'"
proof (induction qs arbitrary: "done" s)
  case (Cons q qs)
  obtain r s1 where 1: "reserveCuFromDev p devId q s = (r, s1)" by fastforce
  have ps: "pooled_sys p s0 s1" by (rule reserveCuFromDev_pooled [OF Cons.prems(1) 1])
  show ?case
  proof (cases "r = XRM_SUCCESS")
    case True
    with Cons.prems(2) 1 have "reserve_sub_members p devId (done @ [q]) qs s1 = (ret, ok, s')" by simp
    from Cons.IH [OF ps this] show ?thesis .
  next
    case False
    with Cons.prems(2) 1 relinquish_members_pooled [OF ps] show ?thesis by (auto split: prod.splits)
  qed
qed simp

interpretation reserve_sublist: device_body "reserve_sublist_try p props used" "\<lambda>_. pooled_sys p s0" "\<lambda>_. pooled_sys p s0" clientId
  for p :: u64 and props :: "cuProperty list" and used :: deviceIdListPropertyV2 and s0 :: system and clientId :: u64
proof unfold_locales
  fix s s' :: system and d :: nat and a a' :: "int \<times> u64"
  assume ps: "pooled_sys p s0 s"
  have keep: "pooled_sys p s0 s'" if "reserve_sublist_try p props used d (a, s) = (b, a', s')" for b
    using that ps reserve_sub_members_pooled [OF ps]
    by (cases a) (auto simp: reserve_sublist_try_def split: if_splits prod.splits)
  show "pooled_sys p s0 s' \<and> m_numDevice s' = m_numDevice s"
    if "reserve_sublist_try p props used d (a, s) = (False, a', s')"
    using keep [OF that] pooled_sysD(2) [OF ps] pooled_sysD(2) by metis
  show "pooled_sys p s0 s'" if "reserve_sublist_try p props used d (a, s) = (True, a', s')"
    by (rule keep [OF that])
qed

lemma reserve_sublist_pooled:
  assumes ps: "pooled_sys p s0 s" and run: "resReserveCuSubListFromSameDevice p sub used (f, s) = (ret, f', s')"
  shows "pooled_sys p s0 s'"
proof -
  let ?props = "take (nat (sl_cuNum sub)) (sl_cuProps sub)"
  obtain b a t where 1: "search_devices (reserve_sublist_try p ?props used) (?props ! 0) ((XRM_ERROR, f), s) = (b, a, t)"
    by (metis prod_cases3)
  have "pooled_sys p s0 t" using reserve_sublist.search_devices_inv [OF ps refl 1] by (simp split: if_splits)
  with run ps 1 show ?thesis
    by (auto simp: resReserveCuSubListFromSameDevice_def Let_def split: if_splits prod.splits)
qed

lemma resReserveCu_pooled_sys:
  assumes "pooled_sys p s0 s" "resReserveCu p q (x, s) = (ret, x', s')"
  shows "pooled_sys p s0 s'"
  using resReserveCu_pooled [of p s0 "used_total s" s q x ret x' s'] assms by (simp add: pooled_total_def split: if_splits)

text \<open>One member, and the loop: the last component of the state is the system.\<close>

definition of_system :: "(system \<Rightarrow> bool) \<Rightarrow> reserve_v2_state \<Rightarrow> bool" where
  "of_system P = (\<lambda>(flags, used, fromDevId, infor, s). P s)"

lemma reserve_v2_step_pooled:
  assumes "of_system (pooled_sys p s0) st" "reserve_v2_step p lp i st = (r, st')"
  shows "of_system (pooled_sys p s0) st'"
proof -
  obtain flags used f infor s where st: "st = (flags, used, f, infor, s)" by (cases st)
  let ?q = "l2_cuProps lp ! i"
  obtain r1 f1 s1 where 1: "resReserveCu p (cuPropertyCopyFromV2 ?q) (f, s) = (r1, f1, s1)" by (metis prod_cases3)
  obtain r2 s2 where 2: "reserveCuFromDev p (i32 (uint (deviceInfoDeviceIndex ?q))) (cuPropertyCopyFromV2 ?q) s = (r2, s2)"
    by fastforce
  obtain r3 f3 s3 where 3: "resReserveCuSubListFromSameDevice p
      (make_sublist lp (same_virtual lp i (set_handled i flags))) used (f, s) = (r3, f3, s3)" by (metis prod_cases3)
  have ps: "pooled_sys p s0 s" using assms(1) by (simp add: of_system_def st)
  note k = ps resReserveCu_pooled_sys [OF ps 1] reserveCuFromDev_pooled [OF ps 2] reserve_sublist_pooled [OF ps 3]
  show ?thesis
    using assms(2) k unfolding st reserve_v2_step_def Let_def prod.case 1 2 3
    by (auto simp: of_system_def split: if_splits)
qed

lemma until_error_keeps:
  "P st \<Longrightarrow> (\<And>i st r st'. P st \<Longrightarrow> step i st = (r, st') \<Longrightarrow> P st') \<Longrightarrow> until_error step is (ret, st) = (ret', st') \<Longrightarrow> P st'"
proof (induction "is" arbitrary: ret st)
  case (Cons i "is")
  obtain r st1 where 1: "step i st = (r, st1)" by fastforce
  have P1: "P st1" by (rule Cons.prems(2) [OF Cons.prems(1) 1])
  show ?case using Cons.IH [OF P1 Cons.prems(2)] Cons.prems(3) 1 P1 by (auto split: option.splits if_splits)
qed simp

text \<open>A list is reserved, or what the pool held is withdrawn.\<close>

lemma resReserveCuListV2_pooled:
  assumes ps: "pooled_sys p s0 s" and run: "resReserveCuListV2 p lp (infor, s) = (ret, infor', s')"
  shows "pooled_sys p s0 s'"
proof (cases "l2_cuNum lp \<le> 0 \<or> l2_cuNum lp > int XRM_MAX_LIST_CU_NUM_V2")
  case True
  with run ps show ?thesis by (auto simp: resReserveCuListV2_def)
next
  case ok: False
  obtain r fl used f ids t where loop: "until_error (reserve_v2_step p lp) [0..<nat (l2_cuNum lp)]
      (XRM_ERROR, itemFlags0, deviceIdList0, 0, infor, s) = (r, fl, used, f, ids, t)" by (metis prod_cases6)
  have "of_system (pooled_sys p s0) (fl, used, f, ids, t)"
    by (rule until_error_keeps [where P = "of_system (pooled_sys p s0)", OF _ reserve_v2_step_pooled loop])
      (use ps in \<open>simp_all add: of_system_def\<close>)
  then have t: "pooled_sys p s0 t" by (simp add: of_system_def)
  have s0: "sys_inv s0" "fresh_pool p s0" using ps by (auto simp: pooled_sys_def)
  have "restored s0 (snd (resRelinquishCuListV2 p t))"
    using relinquish_pooled [OF t] by (auto simp: resRelinquishCuListV2_def)
  then have "pooled_sys p s0 (snd (resRelinquishCuListV2 p t))" by (rule restored_pooled [OF s0])
  with t run ok loop show ?thesis by (auto simp: resReserveCuListV2_def split: if_splits)
qed

section \<open>Devices\<close>

definition named_device :: "u64 \<Rightarrow> int" where
  "named_device deviceId = i32 (uint (and deviceId 0xFFFFFFFF))"

lemma resReserveDevice_pooled:
  assumes ps: "pooled_sys p s0 s" and d: "named_device deviceId < m_numDevice s"
    and run: "resReserveDevice p deviceId cl pid s = (ret, s')"
  shows "pooled_sys p s0 s'" "ret \<noteq> XRM_SUCCESS \<Longrightarrow> s' = s"
    "ret = XRM_SUCCESS \<Longrightarrow> 0 \<le> named_device deviceId \<and>
       (\<forall>c. valid_cu s (nat (named_device deviceId)) c \<longrightarrow> cu_totalUsedLoadUnified (cu_at s (nat (named_device deviceId)) c) = 0 \<and>
          cu_at s' (nat (named_device deviceId)) c = with_slot (whole_slot p cl pid) (cu_at s (nat (named_device deviceId)) c))"
proof -
  let ?d = "named_device deviceId" and ?n = "nat (named_device deviceId)"
  have all: "pooled_sys p s0 s' \<and> (ret \<noteq> XRM_SUCCESS \<longrightarrow> s' = s) \<and> (ret = XRM_SUCCESS \<longrightarrow> 0 \<le> ?d \<and>
     (\<forall>c. valid_cu s ?n c \<longrightarrow> cu_totalUsedLoadUnified (cu_at s ?n c) = 0 \<and>
        cu_at s' ?n c = with_slot (whole_slot p cl pid) (cu_at s ?n c)))"
  proof (cases "ret = XRM_SUCCESS")
    case False
    with run ps show ?thesis by (auto simp: resReserveDevice_def named_device_def Let_def split: if_splits)
  next
    case True
    then have r: "0 \<le> ?d" "dv_isLoaded (dev_at s ?n)" "\<not> isDeviceBusy ?d s" "s' = reserve_whole p cl pid ?n s"
      using run by (auto simp: resReserveDevice_def named_device_def Let_def split: if_splits)
    have n: "int ?n < m_numDevice s" and idle: "\<not> isDeviceBusy (int ?n) s" using d r(1,3) by simp_all
    note w = reserve_whole_pooled [OF ps n r(2) idle, where cl = cl and pid = pid, folded r(4)]
    have "cu_totalUsedLoadUnified (cu_at s ?n c) = 0 \<and> cu_at s' ?n c = with_slot (whole_slot p cl pid) (cu_at s ?n c)"
      if "valid_cu s ?n c" for c
      using w(2) [OF that] not_busy [OF idle that] by simp
    with w(1) r(1) True show ?thesis by blast
  qed
  then show "pooled_sys p s0 s'" "ret \<noteq> XRM_SUCCESS \<Longrightarrow> s' = s"
    "ret = XRM_SUCCESS \<Longrightarrow> 0 \<le> named_device deviceId \<and>
       (\<forall>c. valid_cu s (nat (named_device deviceId)) c \<longrightarrow> cu_totalUsedLoadUnified (cu_at s (nat (named_device deviceId)) c) = 0 \<and>
          cu_at s' (nat (named_device deviceId)) c = with_slot (whole_slot p cl pid) (cu_at s (nat (named_device deviceId)) c))"
    by simp_all
qed

section \<open>Pools\<close>

lemma repeat_ok_below:
  assumes "R st" "\<And>j st ok st'. k \<le> j \<Longrightarrow> j < k + n \<Longrightarrow> R st \<Longrightarrow> f j st = (ok, st') \<Longrightarrow> R st'"
    and "repeat_ok n f k st = (ok, st')"
  shows "R st'"
  using assms
proof (induction n arbitrary: k st)
  case (Suc n)
  obtain ok1 st1 where 1: "f k st = (ok1, st1)" by fastforce
  have R1: "R st1" by (rule Suc.prems(2) [OF _ _ Suc.prems(1) 1]) simp_all
  show ?case
  proof (cases ok1)
    case True
    with 1 Suc.prems(3) have run: "repeat_ok n f (k + 1) st1 = (ok, st')" by simp
    show ?thesis by (rule Suc.IH [OF R1 Suc.prems(2) run]) auto
  next
    case False
    with 1 R1 Suc.prems(3) show ?thesis by simp
  qed
qed simp

text \<open>
  What the handler guarantees of its result array, and a client of the device ids it asks for: there is room for every
  list, and the devices exist. The code checks neither.
\<close>

definition poolV2_ok :: "cuPoolPropertyV2 \<Rightarrow> cuPoolResInforV2 \<Rightarrow> system \<Rightarrow> bool" where
  "poolV2_ok pp infor s \<longleftrightarrow> nat (p3_cuListNum pp) \<le> length (pf_cuListResInfor infor) \<and>
     (\<forall>k<nat (dl_deviceNum (p3_deviceIdListProp pp)).
        named_device (dl_deviceIds (p3_deviceIdListProp pp) ! k) < m_numDevice s)"

lemma resReserveCuPoolV2_spec:
  assumes inv: "sys_inv s" and fresh: "fresh_pool (getNextReservePoolId s) s" and ok: "poolV2_ok pp infor s"
    and run: "resReserveCuPoolV2 pp (infor, s) = (r, infor', s')"
  shows "r = 0 \<Longrightarrow> restored s s'"
    "r \<noteq> 0 \<Longrightarrow> r = getNextReservePoolId s \<and> (\<exists>t. s' = updateReservePoolId t \<and> pooled_sys r s t)"
proof -
  let ?p = "getNextReservePoolId s" and ?ids = "p3_deviceIdListProp pp"
  let ?good = "\<not> (p3_cuListNum pp < 0 \<or> p3_xclbinNum pp < 0 \<or> dl_deviceNum ?ids < 0 \<or> dl_deviceNum ?ids > int XRM_MAX_XILINX_DEVICES) \<and>
    \<not> (l2_cuNum (p3_cuListProp pp) < 0 \<or> l2_cuNum (p3_cuListProp pp) > int XRM_MAX_LIST_CU_NUM_V2)"
  let ?N = "length (pf_cuListResInfor infor)"
  have p0: "?p \<noteq> 0" using fresh by (simp add: fresh_pool_def)
  have ps: "pooled_sys ?p s s" by (rule pooled_sys_refl [OF inv fresh])
  have undo: "restored s (snd (resRelinquishCuPoolV2 ?p t))" if "pooled_sys ?p s t" for t
    using relinquish_pooled [OF that] by (auto simp: resRelinquishCuPoolV2_def)
  let ?fd = "\<lambda>k s. case resReserveDevice ?p (dl_deviceIds ?ids ! k) (p3_clientId pp) (p3_clientProcessId pp) s of
      (ret, s') \<Rightarrow> (ret = XRM_SUCCESS, s')"
  obtain ok0 s0 where 0: "repeat_ok (nat (dl_deviceNum ?ids)) ?fd 0 s = (ok0, s0)" by fastforce
  obtain ok1 i1 s1 where 1: "repeat_ok (nat (p3_xclbinNum pp)) (reserve_xclbin_v2 ?p pp) 0 (infor, s0) = (ok1, i1, s1)"
    by (metis prod_cases3)
  obtain ok2 i2 s2 where 2: "repeat_ok (nat (p3_cuListNum pp)) (reserve_list_v2 ?p pp) 0
      (i1\<lparr>pf_xclbinNum := p3_xclbinNum pp\<rparr>, s1) = (ok2, i2, s2)" by (metis prod_cases3)
  have P0: "pooled_sys ?p s s0"
  proof (rule repeat_ok_below [where R = "pooled_sys ?p s", OF ps _ 0])
    fix j t b t'
    assume j: "j < 0 + nat (dl_deviceNum ?ids)" and t: "pooled_sys ?p s t" and f: "?fd j t = (b, t')"
    obtain ret u where u: "resReserveDevice ?p (dl_deviceIds ?ids ! j) (p3_clientId pp) (p3_clientProcessId pp) t = (ret, u)"
      by fastforce
    have "named_device (dl_deviceIds ?ids ! j) < m_numDevice t"
      using ok j pooled_sysD(2) [OF t] by (simp add: poolV2_ok_def)
    from resReserveDevice_pooled(1) [OF t this u] f u show "pooled_sys ?p s t'" by simp
  qed
  let ?R = "\<lambda>(i, t). length (pf_cuListResInfor i) = ?N \<and> pooled_sys ?p s t"
  have "?R (i1, s1)"
  proof (rule repeat_ok_below [where R = ?R, OF _ _ 1])
    show "?R (infor, s0)" using P0 by simp
    fix j st b st'
    assume st: "?R st" and f: "reserve_xclbin_v2 ?p pp j st = (b, st')"
    obtain i t where it: "st = (i, t)" by fastforce
    obtain ret x u where u: "resReserveCuOfXclbin ?p (p3_xclbinUuid pp) (p3_clientId pp) (p3_clientProcessId pp) (0, t) = (ret, x, u)"
      by (metis prod_cases3)
    have "pooled_sys ?p s u" using resReserveCuOfXclbin_spec(1) [OF _ u] st it by simp
    with f st u show "?R st'" by (auto simp: it reserve_xclbin_v2_def split: if_splits)
  qed
  then have R1: "?R (i1\<lparr>pf_xclbinNum := p3_xclbinNum pp\<rparr>, s1)" and P1: "pooled_sys ?p s s1" by simp_all
  have "?R (i2, s2)"
  proof (rule repeat_ok_below [where R = ?R, OF R1 _ 2])
    fix j st b st'
    assume j: "j < 0 + nat (p3_cuListNum pp)" and st: "?R st" and f: "reserve_list_v2 ?p pp j st = (b, st')"
    obtain i t where it: "st = (i, t)" by fastforce
    let ?li = "pf_cuListResInfor i ! j"
    obtain ret ids u where u: "resReserveCuListV2 ?p (p3_cuListProp pp) (lf_deviceIds ?li, t) = (ret, ids, u)"
      by (metis prod_cases3)
    have "pooled_sys ?p s u" using resReserveCuListV2_pooled [OF _ u] st it by simp
    moreover have "\<not> length (pf_cuListResInfor i) \<le> j" using st j ok it by (simp add: poolV2_ok_def)
    ultimately show "?R st'" using f st u by (auto simp: it reserve_list_v2_def Let_def split: if_splits)
  qed
  then have P2: "pooled_sys ?p s s2" by simp
  have code: "(r, s') = (if \<not> ?good then (0, s) else if \<not> ok0 then (0, snd (resRelinquishCuPoolV2 ?p s0))
      else if \<not> ok1 then (0, snd (resRelinquishCuPoolV2 ?p s1))
      else if \<not> ok2 then (0, snd (resRelinquishCuPoolV2 ?p s2)) else (?p, updateReservePoolId s2))"
    using run unfolding resReserveCuPoolV2_def Let_def prod.case 0 1 2 by (auto split: if_splits)
  show "restored s s'" if "r = 0"
  proof -
    have "restored s s" using inv by (simp add: restored_def cus_rel_refl)
    then show ?thesis using code that p0 undo [OF P0] undo [OF P1] undo [OF P2] by (auto split: if_splits)
  qed
  show "r = ?p \<and> (\<exists>t. s' = updateReservePoolId t \<and> pooled_sys r s t)" if "r \<noteq> 0"
    using code that P2 by (auto split: if_splits)
qed

end
