(* ===== verification/Xrm_Probes_Inv.thy ===== *)
theory Xrm_Probes_Inv
  imports Xrm_Probes Xrm_ListsV2_Inv Xrm_Alloc_Complete
begin

text \<open>
  Correctness of the counting requests: an operation that takes compute units and gives nothing else can be
  repeated only until the channels are used up, so the loop ends; and giving every result back restores the
  grants. The contract is the locale \<open>counted\<close>; the requests for one compute unit and for a list of either
  version are instances of it.
\<close>

section \<open>Loops that end\<close>

text \<open>The loop ends when the results cannot become more than a bound; the invariant holds where it stops.\<close>

lemma take_all_ends:
  assumes "I taken s"
    and step: "\<And>taken s r s'. I taken s \<Longrightarrow> body s = (Inr r, s') \<Longrightarrow> I (taken @ [r]) s'"
    and bound: "\<And>taken s. I taken s \<Longrightarrow> length taken \<le> B"
  shows "\<exists>e taken' t s'. take_all body taken s = Some (e, taken', s') \<and> I taken' t \<and> body t = (Inl e, s')"
  using assms(1)
proof (induction "Suc B - length taken" arbitrary: taken s rule: less_induct)
  case less
  obtain x s1 where b: "body s = (x, s1)" by fastforce
  show ?case
  proof (cases x)
    case (Inl e)
    with b less.prems show ?thesis by (auto simp: take_all.simps [of body taken s])
  next
    case (Inr r)
    from step [OF less.prems] b Inr have i: "I (taken @ [r]) s1" by simp
    have "Suc B - length (taken @ [r]) < Suc B - length taken" using bound [OF less.prems] by simp
    from less.hyps [OF this i] b Inr show ?thesis by (simp add: take_all.simps [of body taken s])
  qed
qed

section \<open>Holding a sequence of results\<close>

lemma holding_append:
  assumes h: "holding s0 {..<length xs} xs s" and g: "holding s {..<length ys} ys s'"
  shows "holding s0 {..<length (xs @ ys)} (xs @ ys) s'"
proof -
  obtain k where k: "inj_on k {..<length xs}" "\<And>i. i \<in> {..<length xs} \<Longrightarrow> grants s0 (k i) = None \<and> owns (xs ! i) (k i) s"
    "\<And>x. x \<notin> k ` {..<length xs} \<Longrightarrow> grants s x = grants s0 x"
    using h by (rule holdingE) blast
  obtain l where l: "inj_on l {..<length ys}" "\<And>i. i \<in> {..<length ys} \<Longrightarrow> grants s (l i) = None \<and> owns (ys ! i) (l i) s'"
    "\<And>x. x \<notin> l ` {..<length ys} \<Longrightarrow> grants s' x = grants s x"
    using g by (rule holdingE) blast
  let ?n = "length xs" and ?m = "length ys"
  let ?key = "\<lambda>i. if i < ?n then k i else l (i - ?n)"
  have dis: "k i \<notin> l ` {..<?m}" if "i < ?n" for i
    using k(2) [of i] l(2) owns_some that by fastforce
  have img: "?key ` {..<?n + ?m} = k ` {..<?n} \<union> l ` {..<?m}"
  proof -
    have "{..<?n + ?m} = {..<?n} \<union> (\<lambda>i. ?n + i) ` {..<?m}"
      by (auto simp: image_iff) (metis add_diff_inverse_nat lessThan_iff nat_add_left_cancel_less)
    moreover have "?key ` {..<?n} = k ` {..<?n}" by (rule image_cong) simp_all
    moreover have "?key ` (\<lambda>i. ?n + i) ` {..<?m} = l ` {..<?m}" unfolding image_image by (rule image_cong) simp_all
    ultimately show ?thesis by (simp only: image_Un)
  qed
  have "inj_on ?key {..<?n + ?m}"
  proof (rule inj_onI)
    fix i j assume ij: "i \<in> {..<?n + ?m}" "j \<in> {..<?n + ?m}" "?key i = ?key j"
    consider "i < ?n" "j < ?n" | "i < ?n" "\<not> j < ?n" | "\<not> i < ?n" "j < ?n" | "\<not> i < ?n" "\<not> j < ?n" by blast
    then show "i = j"
    proof cases
      case 1 with ij k(1) show ?thesis by (auto dest: inj_onD)
    next
      case 2
      then have "k i \<in> l ` {..<?m}" using ij by auto
      with dis 2 show ?thesis by blast
    next
      case 3
      then have "k j \<in> l ` {..<?m}" using ij by (auto simp: image_iff) (metis add_diff_inverse_nat lessThan_iff nat_add_left_cancel_less)
      with dis 3 show ?thesis by blast
    next
      case 4
      with ij l(1) have "i - ?n = j - ?n" by (auto dest!: inj_onD)
      with 4 show ?thesis by simp
    qed
  qed
  note inj = this
  have own: "grants s0 (?key i) = None \<and> owns ((xs @ ys) ! i) (?key i) s'" if "i \<in> {..<?n + ?m}" for i
  proof (cases "i < ?n")
    case True
    with k(2) [of i] l(3) [OF dis [OF True]] owns_grants [of s' "k i" s "xs ! i"] show ?thesis by (simp add: nth_append)
  next
    case False
    with that have m: "i - ?n \<in> {..<?m}" by auto
    have nk: "l (i - ?n) \<notin> k ` {..<?n}"
    proof
      assume "l (i - ?n) \<in> k ` {..<?n}"
      then obtain j where "j < ?n" "l (i - ?n) = k j" by blast
      with dis m show False by (metis imageI)
    qed
    have "grants s0 (l (i - ?n)) = None" "owns (ys ! (i - ?n)) (l (i - ?n)) s'"
      using l(2) [OF m] k(3) [OF nk] by simp_all
    with False show ?thesis by (simp only: nth_append if_False simp_thms)
  qed
  have same: "grants s' x = grants s0 x" if "x \<notin> ?key ` {..<?n + ?m}" for x
    using that k(3) [of x] l(3) [of x] unfolding img by simp
  have n: "length (xs @ ys) = ?n + ?m" by simp
  show ?thesis unfolding n
  proof (rule holdingI [where key = ?key, OF holding_parts(1) [OF g] _ _ _ inj own same])
    show "load_inv s0 \<Longrightarrow> load_inv s'" using holding_parts(2) [OF g] holding_parts(2) [OF h] by blast
    show "m_numDevice s' = m_numDevice s0" using holding_parts(3) [OF g] holding_parts(3) [OF h] by simp
    show "{..<?n + ?m} \<subseteq> {..<length (xs @ ys)}" by simp
  qed
qed

lemma holding_extend: "holding s0 {..<length xs} xs s \<Longrightarrow> holding s {} [] s' \<Longrightarrow> holding s0 {..<length xs} xs s'"
  using holding_append [of s0 xs s "[]" s'] by simp

text \<open>There are only so many channels.\<close>

definition channel_count :: nat where
  "channel_count = XRM_MAX_XILINX_DEVICES * (XRM_MAX_XILINX_KERNELS * XRM_MAX_KERNEL_CHANNELS)"

lemma grants_dom:
  assumes "sys_inv s"
  shows "dom (grants s) \<subseteq> {..<XRM_MAX_XILINX_DEVICES} \<times> {..<XRM_MAX_XILINX_KERNELS} \<times> {..<XRM_MAX_KERNEL_CHANNELS}"
proof
  fix x assume "x \<in> dom (grants s)"
  then obtain d c i where x: "x = (d, c, i)" "valid_cu s d c" "i < XRM_MAX_KERNEL_CHANNELS"
    by (cases x) (auto simp: grants_def split: if_splits)
  moreover have "d < XRM_MAX_XILINX_DEVICES" using x(2) assms by (auto simp: valid_cu_def sys_inv_def)
  ultimately show "x \<in> {..<XRM_MAX_XILINX_DEVICES} \<times> {..<XRM_MAX_XILINX_KERNELS} \<times> {..<XRM_MAX_KERNEL_CHANNELS}"
    using valid_cu_inv [OF assms x(2)] by simp
qed

lemma holding_bound:
  assumes "holding s0 {..<n} rs s"
  shows "n \<le> channel_count"
proof -
  let ?box = "{..<XRM_MAX_XILINX_DEVICES} \<times> {..<XRM_MAX_XILINX_KERNELS} \<times> {..<XRM_MAX_KERNEL_CHANNELS}"
  have "n = card (dom (grants s) - dom (grants s0))"
    using holding_adds [OF assms] by (simp add: adds_grants_def)
  also have "\<dots> \<le> card ?box"
    by (rule card_mono) (use grants_dom [OF holding_parts(1) [OF assms]] in auto)
  also have "\<dots> = channel_count" by (simp add: channel_count_def card_cartesian_product)
  finally show ?thesis .
qed

section \<open>Giving a part of a sequence back\<close>

lemma holding_release_slice:
  assumes "holding s0 {length pre..<length (pre @ xs @ post)} (pre @ xs @ post) s"
  shows "holding s0 {length (pre @ xs)..<length (pre @ xs @ post)} (pre @ xs @ post) (snd (release_all resReleaseCu xs s))"
  using assms
proof (induction xs arbitrary: pre s)
  case (Cons x xs)
  let ?all = "pre @ (x # xs) @ post" and ?a = "length pre"
  obtain ret s1 where 1: "resReleaseCu (?all ! ?a) s = (ret, s1)" by fastforce
  have "?a \<in> {?a..<length ?all}" by simp
  note h = holding_release [OF Cons.prems this 1]
  have "{?a..<length ?all} - {?a} = {length (pre @ [x])..<length ((pre @ [x]) @ xs @ post)}" by auto
  with h have "holding s0 {length (pre @ [x])..<length ((pre @ [x]) @ xs @ post)} ((pre @ [x]) @ xs @ post) s1" by simp
  from Cons.IH [OF this] 1 h(1) show ?case by simp
qed simp

section \<open>The contract of a counting request\<close>

text \<open>
  A turn takes the compute units \<open>units r\<close> of its result \<open>r\<close>, at least one, or fails and takes nothing; what
  \<open>undo\<close> does with a result is the release of its units in order.
\<close>

locale counted =
  fixes accepts :: "'p \<Rightarrow> bool"
    and body :: "'p \<Rightarrow> system \<Rightarrow> (int + 'r) \<times> system"
    and undo :: "'r \<Rightarrow> system \<Rightarrow> system"
    and units :: "'r \<Rightarrow> cuResource list"
  assumes takes: "accepts p \<Longrightarrow> sys_inv s \<Longrightarrow> body p s = (Inr r, s') \<Longrightarrow>
      units r \<noteq> [] \<and> holding s {..<length (units r)} (units r) s' \<and>
      (\<forall>t. undo r t = snd (release_all resReleaseCu (units r) t))"
    and fails: "accepts p \<Longrightarrow> sys_inv s \<Longrightarrow> body p s = (Inl e, s') \<Longrightarrow> holding s {} [] s'"
begin

definition held :: "system \<Rightarrow> 'r list \<Rightarrow> system \<Rightarrow> bool" where
  "held s0 taken s \<longleftrightarrow> holding s0 {..<length (concat (map units taken))} (concat (map units taken)) s \<and>
     (\<forall>r\<in>set taken. units r \<noteq> [] \<and> (\<forall>t. undo r t = snd (release_all resReleaseCu (units r) t)))"

lemma held_step: "accepts p \<Longrightarrow> held s0 taken s \<Longrightarrow> body p s = (Inr r, s') \<Longrightarrow> held s0 (taken @ [r]) s'"
  using takes [OF _ holding_parts(1)] holding_append unfolding held_def by fastforce

lemma held_length: "held s0 taken s \<Longrightarrow> length taken \<le> channel_count"
proof -
  assume h: "held s0 taken s"
  have "length ts \<le> length (concat (map units ts))" if "\<forall>r\<in>set ts. units r \<noteq> []" for ts
    using that
  proof (induction ts)
    case (Cons r ts)
    then have "Suc 0 \<le> length (units r)" "length ts \<le> length (concat (map units ts))" by (simp_all add: Suc_le_eq)
    then show ?case by (simp del: length_greater_0_conv)
  qed simp
  then have "length taken \<le> length (concat (map units taken))" using h by (simp add: held_def)
  also have "\<dots> \<le> channel_count" using h holding_bound unfolding held_def by blast
  finally show ?thesis .
qed

lemma held_undo:
  assumes "held s0 taken s"
  shows "holding s0 {} [] (fold undo taken s)"
proof -
  have "holding s0 {} (pre @ concat (map units ts)) (fold undo ts t)"
    if "holding s0 {length pre..<length (pre @ concat (map units ts))} (pre @ concat (map units ts)) t"
      "\<forall>r\<in>set ts. \<forall>t. undo r t = snd (release_all resReleaseCu (units r) t)" for pre ts t
    using that
  proof (induction ts arbitrary: pre t)
    case (Cons r ts)
    let ?u = "snd (release_all resReleaseCu (units r) t)"
    from holding_release_slice [of s0 pre "units r" "concat (map units ts)" t] Cons.prems(1)
    have "holding s0 {length (pre @ units r)..<length ((pre @ units r) @ concat (map units ts))}
        ((pre @ units r) @ concat (map units ts)) ?u" by simp
    from Cons.IH [OF this] Cons.prems(2) show ?case by simp
  qed simp
  from this [of "[]" taken s] assms holding_any show ?thesis by (auto simp: held_def lessThan_atLeast0)
qed

text \<open>The count ends, and leaves the grants as they were.\<close>

lemma counts:
  assumes "accepts p" "sys_inv s"
  shows "\<exists>e taken t s'. take_all (body p) [] s = Some (e, taken, s') \<and> held s taken t \<and> body p t = (Inl e, s') \<and>
    holding s {} [] (fold undo taken s')"
proof -
  have start: "held s [] s" using holding_refl [OF assms(2)] by (simp add: held_def)
  obtain e taken t s' where run: "take_all (body p) [] s = Some (e, taken, s')" "held s taken t" "body p t = (Inl e, s')"
    using take_all_ends [where I = "held s" and body = "body p" and B = channel_count, OF start]
      held_step [OF assms(1)] held_length by metis
  have "holding t {} [] s'" using fails [OF assms(1) _ run(3)] holding_parts(1) run(2) unfolding held_def by blast
  then have "held s taken s'" using run(2) holding_extend unfolding held_def by blast
  with run held_undo show ?thesis by blast
qed

lemma count_all_ends:
  assumes "accepts p" "sys_inv s"
  shows "\<exists>e n s'. count_all (body p) undo reply s = (Reply (reply e n), s') \<and> n \<le> channel_count \<and> holding s {} [] s'"
  using counts [OF assms] held_length unfolding count_all_def by fastforce

end

section \<open>The instances\<close>

lemma turn_conv:
  "turn alloc zero s = (Inr r, s') \<longleftrightarrow> alloc (zero, s) = (XRM_SUCCESS, r, s')"
  "turn alloc zero s = (Inl e, s') \<longleftrightarrow> e \<noteq> XRM_SUCCESS \<and> (\<exists>r. alloc (zero, s) = (e, r, s'))"
  by (auto simp: turn_def split: prod.splits if_splits)

lemma release_one: "snd (release_all f [r] s) = snd (f r s)"
  by (simp split: prod.splits)

lemma take_length_id: "nat n \<le> length xs \<Longrightarrow> length (take (nat n) xs) = nat n"
  by simp

lemma holding_takes:
  assumes "holding s0 {..<n} rs s" "n \<le> length rs"
  shows "holding s0 {..<length (take n rs)} (take n rs) s"
proof -
  have "holding s0 ((\<lambda>i. i) ` {..<n}) (take n rs) s"
    by (rule holding_move [OF assms(1)]) (use assms(2) in \<open>auto simp: same_ids_def\<close>)
  then show ?thesis using assms(2) by simp
qed

text \<open>One compute unit.\<close>

interpretation cu: counted prop_ok "\<lambda>p. turn (resAllocCu p True) cuResource0" "\<lambda>r s. snd (resReleaseCu r s)" "\<lambda>r. [r]"
proof
  fix "prop" :: cuProperty and s r s' assume ok: "prop_ok prop" "sys_inv s" and run: "turn (resAllocCu prop True) cuResource0 s = (Inr r, s')"
  from run [unfolded turn_conv] obtain t where t: "alloc_done prop s r t" "s' = updateAllocServiceId t"
    by (auto dest!: resAllocCu_spec [OF ok(2,1)] simp: alloc_result_def)
  have "holding s {0} ([cuResource0][0 := r]) t"
    using holding_take [OF holding_refl [OF ok(2)] _ _ t(1), of 0 "[cuResource0]"] by simp
  then show "[r] \<noteq> [] \<and> holding s {..<length [r]} [r] s' \<and> (\<forall>t. snd (resReleaseCu r t) = snd (release_all resReleaseCu [r] t))"
    by (simp add: t(2) holding_update_id release_one lessThan_Suc split: prod.splits)
next
  fix "prop" :: cuProperty and s e s' assume ok: "prop_ok prop" "sys_inv s" and run: "turn (resAllocCu prop True) cuResource0 s = (Inl e, s')"
  from run [unfolded turn_conv] have "quiet s s'" by (auto dest!: resAllocCu_spec [OF ok(2,1)] simp: alloc_result_def)
  then show "holding s {} [] s'" by (rule holding_quiet [OF holding_refl [OF ok(2)]])
qed

lemma cuListResource0_parts: "length (lr_cuResources (cuListResource0 n)) = n" "lr_cuNum (cuListResource0 n) = 0"
  by (simp_all add: cuListResource0_def)

text \<open>The members of a list result.\<close>

definition members :: "cuListResource \<Rightarrow> cuResource list" where
  "members lr = take (nat (lr_cuNum lr)) (lr_cuResources lr)"

lemma members_held:
  assumes "holding s {..<nat n} (lr_cuResources lr) t" "lr_cuNum lr = n" "0 < n" "nat n \<le> length (lr_cuResources lr)"
    and "s' = updateAllocServiceId t"
  shows "members lr \<noteq> [] \<and> holding s {..<length (members lr)} (members lr) s'"
  using assms holding_takes [OF assms(1,4)] by (auto simp: members_def holding_update_id)

interpretation list: counted list_ok "\<lambda>p. turn (resAllocCuList p) (cuListResource0 XRM_MAX_LIST_CU_NUM)"
  "\<lambda>r s. snd (resReleaseCuList r s)" members
proof
  fix lp s r s' assume ok: "list_ok lp" "sys_inv s"
    and run: "turn (resAllocCuList lp) (cuListResource0 XRM_MAX_LIST_CU_NUM) s = (Inr r, s')"
  from run [unfolded turn_conv] obtain t where t: "holding s {..<nat (lp_cuNum lp)} (lr_cuResources r) t" "lr_cuNum r = lp_cuNum lp"
      "length (lr_cuResources r) = XRM_MAX_LIST_CU_NUM" "0 < lp_cuNum lp" "lp_cuNum lp \<le> int XRM_MAX_LIST_CU_NUM"
      "s' = updateAllocServiceId t"
    using resAllocCuList_outcome [OF ok(2,1) cuListResource0_parts(1)] by auto
  have "\<forall>t. snd (resReleaseCuList r t) = snd (release_all resReleaseCu (members r) t)"
    using t by (simp add: resReleaseCuList_def members_def)
  moreover have "nat (lp_cuNum lp) \<le> length (lr_cuResources r)" using t by linarith
  ultimately show "members r \<noteq> [] \<and> holding s {..<length (members r)} (members r) s' \<and>
      (\<forall>t. snd (resReleaseCuList r t) = snd (release_all resReleaseCu (members r) t))"
    using members_held [OF t(1,2,4) _ t(6)] by blast
next
  fix lp s e s' assume ok: "list_ok lp" "sys_inv s"
    and run: "turn (resAllocCuList lp) (cuListResource0 XRM_MAX_LIST_CU_NUM) s = (Inl e, s')"
  from run [unfolded turn_conv] show "holding s {} [] s'"
    using resAllocCuList_outcome [OF ok(2,1) cuListResource0_parts(1)] by auto
qed

interpretation listV2: counted listV2_ok "\<lambda>p. turn (resAllocCuListV2 p) (cuListResource0 XRM_MAX_LIST_CU_NUM_V2)"
  "\<lambda>r s. snd (resReleaseCuListV2 r s)" members
proof
  fix lp s r s' assume ok: "listV2_ok lp" "sys_inv s"
    and run: "turn (resAllocCuListV2 lp) (cuListResource0 XRM_MAX_LIST_CU_NUM_V2) s = (Inr r, s')"
  from run [unfolded turn_conv] obtain t where t: "holding s {..<nat (l2_cuNum lp)} (lr_cuResources r) t" "lr_cuNum r = l2_cuNum lp"
      "length (lr_cuResources r) = XRM_MAX_LIST_CU_NUM_V2" "0 < l2_cuNum lp" "l2_cuNum lp \<le> int XRM_MAX_LIST_CU_NUM_V2"
      "s' = updateAllocServiceId t"
    using resAllocCuListV2_outcome [OF ok(2,1) cuListResource0_parts(1,2)] by auto
  have "\<forall>t. snd (resReleaseCuListV2 r t) = snd (release_all resReleaseCu (members r) t)"
    using t by (simp add: resReleaseCuListV2_def resReleaseCuV2_same members_def)
  moreover have "nat (l2_cuNum lp) \<le> length (lr_cuResources r)" using t by linarith
  ultimately show "members r \<noteq> [] \<and> holding s {..<length (members r)} (members r) s' \<and>
      (\<forall>t. snd (resReleaseCuListV2 r t) = snd (release_all resReleaseCu (members r) t))"
    using members_held [OF t(1,2,4) _ t(6)] by blast
next
  fix lp s e s' assume ok: "listV2_ok lp" "sys_inv s"
    and run: "turn (resAllocCuListV2 lp) (cuListResource0 XRM_MAX_LIST_CU_NUM_V2) s = (Inl e, s')"
  from run [unfolded turn_conv] show "holding s {} [] s'"
    using resAllocCuListV2_outcome [OF ok(2,1) cuListResource0_parts(1,2)] by auto
qed

section \<open>The handlers\<close>

lemma serve_probe_Parsed: "req = Parsed a \<Longrightarrow> serve_probe req run s = run a s"
  by (simp add: serve_probe_def)

lemma concat_single: "concat (map (\<lambda>r. [r]) xs) = xs"
  by (induction xs) simp_all

text \<open>
  The number that is answered for one compute unit: so many grants can be added to the system one after the other,
  and then no further one.
\<close>

lemma checkCuAvailableNum_counts:
  assumes "sys_inv s" "read_request (h_tree h) m (h_cuProp h) = Some cuProp" "prop_ok cuProp"
  shows "\<exists>e n s' rs t. checkCuAvailableNumCommand h m s =
        (Reply (count_reply ''availableCuNum'' ''failed to check available cu number'' e n), s') \<and>
      n \<le> channel_count \<and> holding s {} [] s' \<and> holding s {..<n} rs t \<and>
      e \<noteq> XRM_SUCCESS \<and> fst (resAllocCu cuProp True (cuResource0, t)) = e"
proof -
  obtain e taken t s' where c: "take_all (turn (resAllocCu cuProp True) cuResource0) [] s = Some (e, taken, s')"
    "cu.held s taken t" "turn (resAllocCu cuProp True) cuResource0 t = (Inl e, s')"
    "holding s {} [] (fold (\<lambda>r s. snd (resReleaseCu r s)) taken s')"
    using cu.counts [OF assms(3,1)] by blast
  have "checkCuAvailableNumCommand h m s =
      (Reply (count_reply ''availableCuNum'' ''failed to check available cu number'' e (length taken)),
       fold (\<lambda>r s. snd (resReleaseCu r s)) taken s')"
    unfolding checkCuAvailableNumCommand_def assms(2) of_option_def option.case serve_probe_def parsed.case count_all_def c(1)
    by (simp only: option.case prod.case)
  moreover have "holding s {..<length taken} taken t"
    using c(2) by (simp add: cu.held_def concat_single)
  moreover have "length taken \<le> channel_count" using cu.held_length [OF c(2)] .
  moreover have "e \<noteq> XRM_SUCCESS \<and> fst (resAllocCu cuProp True (cuResource0, t)) = e"
    using c(3) by (auto simp only: turn_conv fst_conv)
  ultimately show ?thesis using c(4) by blast
qed

end
