(* ===== verification/Xrm_Daemon_Inv.thy ===== *)
theory Xrm_Daemon_Inv
  imports Xrm_Daemon Xrm_Load_Alloc_Inv Xrm_PoolV2_Inv Xrm_Probes_Inv Xrm_Policy_Inv
begin

text \<open>
  The accounting invariant of the system through the daemon: every handler that works on the devices keeps it when
  its request is sane, and so does every step of the daemon, in any interleaving of the sessions and the worker.
\<close>

section \<open>Sane requests\<close>

text \<open>
  A sane request names a client; no number in it is so large that a load would wrap; and the pool id that is given
  next is not in use: pool ids wrap after 2^64 reservations. A request is in bounds when what it gives back or asks the
  status of is on a device and a compute unit that exist (the bounds of the code let one past the last of each through),
  the devices a pool names exist, a version 2 pool asks for no more lists than its result has room for, and there is room
  for the group it declares. The code checks none of these.
\<close>

definition sane :: "'m ptree \<Rightarrow> 'm \<Rightarrow> system \<Rightarrow> bool" where
  "sane P m s \<longleftrightarrow>
     get_u64 P (par ''clientId'') m \<noteq> Some 0 \<and>
     (\<forall>p n. get_i32 P p m = Some n \<longrightarrow> n + XRM_MAX_LOAD \<le> 2147483647) \<and>
     fresh_pool (getNextReservePoolId s) s"

definition in_bounds :: "'m ptree \<Rightarrow> 'm \<Rightarrow> system \<Rightarrow> bool" where
  "in_bounds P m s \<longleftrightarrow>
     (\<forall>sfx\<in>insert [] (range show_nat). \<forall>n. get_i32 P (par ''deviceId'' @ sfx) m = Some n \<longrightarrow> n < m_numDevice s) \<and>
     (\<forall>sfx\<in>insert [] (range show_nat). \<forall>n. get_i32 P (par ''cuId'' @ sfx) m = Some n \<longrightarrow> n < int XRM_MAX_XILINX_KERNELS) \<and>
     (\<forall>i w. get_u64 P (par ''deviceIdList.deviceIds'' @ show_nat i) m = Some w \<longrightarrow> named_device w < m_numDevice s) \<and>
     (\<forall>k n. get_i32 P (par ''deviceIdList.deviceNum'') m = Some k \<longrightarrow> get_i32 P (par ''cuListNum'') m = Some n \<longrightarrow>
        n \<le> int XRM_MAX_POOL_CU_LIST_NUM_V2) \<and>
     (get_i32 P (par ''optionUdfCuListNum'') m \<noteq> None \<longrightarrow>
        m_numUdfCuGroup s < XRM_MAX_UDF_CU_GROUP_NUM \<and> m_numUdfCuGroupV2 s < XRM_MAX_UDF_CU_GROUP_NUM_V2)"

lemma in_boundsD:
  assumes "in_bounds P m s"
  shows "sfx \<in> insert [] (range show_nat) \<Longrightarrow> get_i32 P (par ''deviceId'' @ sfx) m = Some n \<Longrightarrow> n < m_numDevice s"
    "sfx \<in> insert [] (range show_nat) \<Longrightarrow> get_i32 P (par ''cuId'' @ sfx) m = Some n \<Longrightarrow> n < int XRM_MAX_XILINX_KERNELS"
    "get_u64 P (par ''deviceIdList.deviceIds'' @ show_nat i) m = Some w \<Longrightarrow> named_device w < m_numDevice s"
    "get_i32 P (par ''deviceIdList.deviceNum'') m = Some k \<Longrightarrow> get_i32 P (par ''cuListNum'') m = Some n \<Longrightarrow>
      n \<le> int XRM_MAX_POOL_CU_LIST_NUM_V2"
    "get_i32 P (par ''optionUdfCuListNum'') m \<noteq> None \<Longrightarrow>
      m_numUdfCuGroup s < XRM_MAX_UDF_CU_GROUP_NUM \<and> m_numUdfCuGroupV2 s < XRM_MAX_UDF_CU_GROUP_NUM_V2"
  using assms unfolding in_bounds_def by blast+

section \<open>The parameters\<close>

lemma bind_Some_conv: "Option.bind x f = Some y \<longleftrightarrow> (\<exists>a. x = Some a \<and> f a = Some y)"
  by (cases x) auto

lemma and_then_Parsed: "and_then p f = Parsed b \<longleftrightarrow> (\<exists>a. p = Parsed a \<and> f a = Parsed b)"
  by (cases p) auto

lemma of_option_Parsed [simp]: "of_option x = Parsed a \<longleftrightarrow> x = Some a"
  by (cases x) (auto simp: of_option_def)

lemma map_parsed_Parsed: "map_parsed f p = Parsed b \<longleftrightarrow> (\<exists>a. p = Parsed a \<and> b = f a)"
  by (auto simp: map_parsed_def and_then_Parsed)

lemmas parsed_simps = bind_Some_conv and_then_Parsed map_parsed_Parsed

lemma serve_Reply: "serve req run s = (Reply r, s') \<longleftrightarrow> (\<exists>a. req = Parsed a \<and> run a s = (r, s'))"
  by (auto simp: serve_def split: parsed.splits prod.splits)

lemma read_into_Parsed:
  assumes "read_into rd is xs = Parsed ys"
  shows "length ys = length xs \<and> (\<forall>i\<in>set is. i < length xs \<and> rd i \<noteq> None) \<and> (\<forall>i. i \<notin> set is \<longrightarrow> ys ! i = xs ! i)"
  using assms
proof (induction "is" arbitrary: xs)
  case (Cons i "is")
  obtain f where f: "rd i = Some f" using Cons.prems by (cases "rd i") auto
  with Cons.prems have i: "i < length xs" by (auto split: if_splits)
  obtain x where x: "f (xs ! i) = Parsed x" "read_into rd is (xs[i := x]) = Parsed ys"
    using Cons.prems f i by (auto simp: and_then_Parsed)
  from Cons.IH [OF x(2)] f i show ?case by auto
qed simp

lemma read_into_member:
  assumes "read_into rd is xs = Parsed ys" "distinct is" "i \<in> set is"
  shows "\<exists>f. rd i = Some f \<and> f (xs ! i) = Parsed (ys ! i)"
  using assms
proof (induction "is" arbitrary: xs)
  case (Cons j "is")
  obtain f where f: "rd j = Some f" using Cons.prems by (cases "rd j") auto
  with Cons.prems have j: "j < length xs" by (auto split: if_splits)
  obtain x where x: "f (xs ! j) = Parsed x" "read_into rd is (xs[j := x]) = Parsed ys"
    using Cons.prems f j by (auto simp: and_then_Parsed)
  show ?case
  proof (cases "i = j")
    case True
    then have "ys ! i = x" using read_into_Parsed [OF x(2)] Cons.prems(2) j by auto
    with True f x(1) show ?thesis by auto
  next
    case False
    with Cons.IH [OF x(2)] Cons.prems show ?thesis by auto
  qed
qed simp

lemma read_members_Parsed:
  assumes "read_members rd n xs = Parsed ys"
  shows "length ys = length xs" "\<And>i. i < nat n \<Longrightarrow> i < length xs \<and> (\<exists>f. rd i = Some f \<and> ys ! i = f (xs ! i))"
proof -
  note r = assms [unfolded read_members_def]
  show "length ys = length xs" using read_into_Parsed [OF r] by simp
  fix i assume i: "i < nat n"
  then obtain g where g: "map_option (\<lambda>f x. Parsed (f x)) (rd i) = Some g" "g (xs ! i) = Parsed (ys ! i)"
    using read_into_member [OF r, of i] by auto
  then obtain f where "rd i = Some f" "g = (\<lambda>x. Parsed (f x))" by auto
  with g i show "i < length xs \<and> (\<exists>f. rd i = Some f \<and> ys ! i = f (xs ! i))"
    using read_into_Parsed [OF r] by auto
qed

section \<open>Sane parameters\<close>

lemma sane_load: "sane P m s \<Longrightarrow> get_i32 P p m = Some n \<Longrightarrow> n + XRM_MAX_LOAD \<le> 2147483647"
  unfolding sane_def by blast

lemma read_cuProperty_reads:
  assumes "read_cuProperty P pre sfx m = Some f"
  shows "\<exists>n. get_i32 P (pre @ ''requestLoadUnified'' @ sfx) m = Some n \<and> (\<forall>p. pr_requestLoadUnified (f p) = n)"
proof -
  obtain name nick excl n o' where n: "get_i32 P (pre @ ''requestLoadUnified'' @ sfx) m = Some n"
    and f: "f = (\<lambda>p. p\<lparr>pr_kernelName := name, pr_kernelAlias := nick, pr_cuName := [], pr_devExcl := excl,
       pr_requestLoadUnified := n, pr_requestLoadOriginal := o'\<rparr>)"
    using assms unfolding read_cuProperty_def bind_Some_conv option.inject by blast
  show ?thesis by (intro exI [of _ n] conjI n) (simp add: f)
qed

lemma read_cuProperty_load:
  "sane P m s \<Longrightarrow> read_cuProperty P pre sfx m = Some f \<Longrightarrow> pr_requestLoadUnified (f p) + XRM_MAX_LOAD \<le> 2147483647"
  using read_cuProperty_reads sane_load by fastforce

lemma read_request_ok:
  assumes "sane P m s" "read_request P m p = Some q"
  shows "pr_clientId q \<noteq> 0 \<and> pr_requestLoadUnified q + XRM_MAX_LOAD \<le> 2147483647"
proof -
  obtain f c pid pool where r: "read_cuProperty P (par []) [] m = Some f" "get_u64 P (par ''clientId'') m = Some c"
    "q = set_client c pid pool (f p)"
    using assms(2) unfolding read_request_def by (auto simp only: bind_Some_conv option.inject)
  then show ?thesis using read_cuProperty_load [OF assms(1) r(1), of p] assms(1)
    by (auto simp: set_client_def sane_def)
qed

lemma sane_prop_ok: "sane P m s \<Longrightarrow> read_request P m p = Some q \<Longrightarrow> prop_ok q"
  using read_request_ok [of P m s p q] by (simp add: prop_ok_def)

lemma sane_cuList:
  assumes "sane P m s" "read_cuList P m = Parsed lp"
  shows "list_ok lp"
proof -
  obtain n same c pid ps where r: "get_u64 P (par ''clientId'') m = Some c" "read_list P (par []) True c pid m n = Parsed ps"
    "lp = \<lparr> lp_cuProps = ps, lp_cuNum = n, lp_sameDevice = same \<rparr>"
    using assms(2) by (auto simp: read_cuList_def parsed_simps split: prod.splits)
  note rl = read_members_Parsed [OF r(2) [unfolded read_list_def]]
  have "prop_ok (ps ! i)" if i: "i < nat n" for i
  proof -
    obtain f poolId where f: "read_cuProperty P (par []) (show_nat i) m = Some f"
        "ps ! i = set_client c pid poolId (f cuProperty0)"
      using rl(2) [OF i] by (auto simp only: bind_Some_conv nth_replicate length_replicate if_True option.inject)
    then show ?thesis
      using read_cuProperty_load [OF assms(1) f(1), of cuProperty0] r(1) assms(1)
      by (auto simp: prop_ok_def set_client_def sane_def)
  qed
  with rl(1) show ?thesis by (simp add: list_ok_def r(3))
qed

lemma read_requestV2_conv:
  "read_requestV2 P m p = Some q \<longleftrightarrow> (\<exists>r g. read_request P m p = Some r \<and> read_infos P (par []) [] m = Some g \<and> q = g r)"
  unfolding read_requestV2_def by (auto simp only: bind_Some_conv option.inject)

lemma read_infos_same:
  assumes "read_infos P pre sfx m = Some g"
  shows "pr_clientId (g p) = pr_clientId p" "pr_requestLoadUnified (g p) = pr_requestLoadUnified p"
proof -
  obtain a b c where "g = (\<lambda>p. p\<lparr>p2_deviceInfo := a, p2_memoryInfo := b, p2_policyInfo := c\<rparr>)"
    using assms unfolding read_infos_def bind_Some_conv option.inject by blast
  then show "pr_clientId (g p) = pr_clientId p" "pr_requestLoadUnified (g p) = pr_requestLoadUnified p" by simp_all
qed

lemma sane_propV2_ok:
  assumes "sane P m s" "read_requestV2 P m p = Some q"
  shows "prop_ok (cuPropertyCopyFromV2 q)"
  using assms(2) read_request_ok [OF assms(1)] read_infos_same
  by (fastforce simp: read_requestV2_conv prop_ok_def cuPropertyCopyFromV2_def)

lemma sane_cuListV2:
  assumes "sane P m s" "read_cuListV2 P m = Parsed lp"
  shows "listV2_ok lp"
proof -
  obtain n c pid ps where r: "get_u64 P (par ''clientId'') m = Some c" "read_listV2 P (par []) True c pid m n = Parsed ps"
    "lp = \<lparr> l2_cuProps = ps, l2_cuNum = n \<rparr>"
    using assms(2) by (auto simp: read_cuListV2_def parsed_simps split: prod.splits)
  note rl = read_members_Parsed [OF r(2) [unfolded read_listV2_def]]
  have "prop_ok (cuPropertyCopyFromV2 (ps ! i))" if i: "i < nat n" for i
  proof -
    obtain f g poolId where f: "read_cuProperty P (par []) (show_nat i) m = Some f"
        "read_infos P (par []) (show_nat i) m = Some g"
        "ps ! i = set_client c pid poolId (g (f cuPropertyV2_0))"
      using rl(2) [OF i] by (auto simp only: bind_Some_conv nth_replicate length_replicate if_True option.inject)
    then show ?thesis
      using read_cuProperty_load [OF assms(1) f(1), of cuPropertyV2_0] r(1) assms(1) read_infos_same [OF f(2)]
      by (auto simp: prop_ok_def set_client_def sane_def cuPropertyCopyFromV2_def)
  qed
  with rl(1) show ?thesis by (simp add: listV2_ok_def r(3))
qed

text \<open>A resource that is given back: the client of the request and a device that exists.\<close>

lemma read_cuResource_reads:
  assumes "read_cuResource P sfx c m = Some f"
  shows "\<exists>d k. get_i32 P (par ''deviceId'' @ sfx) m = Some d \<and> get_i32 P (par ''cuId'' @ sfx) m = Some k \<and>
    (\<forall>r. re_deviceId (f r) = d \<and> re_cuId (f r) = k \<and> re_clientId (f r) = c)"
proof -
  obtain d k ch t sv lu lo po where n: "get_i32 P (par ''deviceId'' @ sfx) m = Some d" "get_i32 P (par ''cuId'' @ sfx) m = Some k"
    and f: "f = (\<lambda>r. r\<lparr>re_deviceId := d, re_cuId := k, re_channelId := ch,
       re_cuType := cuType_of t, re_allocServiceId := sv, re_clientId := c,
       re_channelLoadUnified := lu, re_channelLoadOriginal := lo, re_poolId := po\<rparr>)"
    using assms unfolding read_cuResource_def bind_Some_conv option.inject by blast
  show ?thesis by (intro exI [of _ d] exI [of _ k] conjI n) (simp add: f)
qed

definition releasable :: "system \<Rightarrow> cuResource \<Rightarrow> bool" where
  "releasable s r \<longleftrightarrow> re_clientId r \<noteq> 0 \<and> re_deviceId r < m_numDevice s"

lemma read_cuResource_releasable:
  assumes "sane P m s" "in_bounds P m s" "get_u64 P (par ''clientId'') m = Some c" "read_cuResource P sfx c m = Some f"
    and "sfx \<in> insert [] (range show_nat)"
  shows "releasable s (f r)"
proof -
  obtain d where "get_i32 P (par ''deviceId'' @ sfx) m = Some d" "re_deviceId (f r) = d" "re_clientId (f r) = c"
    using read_cuResource_reads [OF assms(4)] by blast
  with assms(1,3) in_boundsD(1) [OF assms(2,5)] show ?thesis unfolding releasable_def sane_def by (metis option.inject)
qed

lemma read_release_releasable:
  "sane P m s \<Longrightarrow> in_bounds P m s \<Longrightarrow> read_release P m r = Some q \<Longrightarrow> releasable s q"
  unfolding read_release_def bind_Some_conv option.inject by (metis read_cuResource_releasable insertI1)

lemma read_resources_releasable:
  assumes "sane P m s" "in_bounds P m s" "read_resources P limit m = Parsed lr"
  shows "\<forall>r \<in> set (take (nat (lr_cuNum lr)) (lr_cuResources lr)). releasable s r"
proof -
  obtain n c rs where r: "get_u64 P (par ''clientId'') m = Some c"
    "read_members (\<lambda>i. read_cuResource P (show_nat i) c m) n (replicate limit cuResource0) = Parsed rs"
    "lr = \<lparr> lr_cuResources = rs, lr_cuNum = n \<rparr>"
    using assms(3) by (auto simp: read_resources_def parsed_simps split: prod.splits)
  have "releasable s (rs ! i)" if i: "i < nat n" for i
    using read_members_Parsed(2) [OF r(2) i] read_cuResource_releasable [OF assms(1,2) r(1)] by auto
  then show ?thesis by (auto simp: r(3) in_set_conv_nth)
qed

text \<open>What the handlers read of a version 2 pool and of a group stays within the arrays.\<close>

lemma read_poolV2_ok:
  assumes "in_bounds P m s" "read_poolV2 P pre owned m = Parsed pp"
  shows "poolV2_ok pp cuPoolResInforV2_0 s"
proof -
  let ?rd = "\<lambda>i. do {
      deviceId \<leftarrow> get_u64 P (par ''deviceIdList.deviceIds'' @ show_nat i) m;
      Some (\<lambda>_ :: u64. deviceId)
    }"
  obtain n k ids where r: "get_i32 P (par ''cuListNum'') m = Some n" "get_i32 P (par ''deviceIdList.deviceNum'') m = Some k"
      "read_members ?rd k (replicate XRM_MAX_XILINX_DEVICES 0) = Parsed ids"
      "p3_cuListNum pp = n" "p3_deviceIdListProp pp = \<lparr> dl_deviceIds = ids, dl_deviceNum = k \<rparr>"
    using assms(2) by (auto simp: read_poolV2_def parsed_simps split: prod.splits)
  have "named_device (ids ! i) < m_numDevice s" if i: "i < nat k" for i
  proof -
    obtain f where f: "?rd i = Some f" "ids ! i = f (replicate XRM_MAX_XILINX_DEVICES 0 ! i)"
      using read_members_Parsed(2) [OF r(3) i] by blast
    from f(1) obtain w where "get_u64 P (par ''deviceIdList.deviceIds'' @ show_nat i) m = Some w" "f = (\<lambda>_. w)"
      unfolding bind_Some_conv option.inject by blast
    with f(2) in_boundsD(3) [OF assms(1)] show ?thesis by simp
  qed
  moreover have "n \<le> int XRM_MAX_POOL_CU_LIST_NUM_V2" by (rule in_boundsD(4) [OF assms(1) r(2,1)])
  ultimately show ?thesis by (simp add: poolV2_ok_def cuPoolResInforV2_0_def r(4,5))
qed

lemma sized_length [simp]: "length (sized n z xs) = n"
  by (simp add: sized_def)

lemma read_members_sized:
  assumes "read_members rd n (sized k z xs) = Parsed ys"
  shows "n \<le> int k"
proof (rule ccontr)
  assume "\<not> n \<le> int k"
  then have "k < nat n" by simp
  from read_members_Parsed(2) [OF assms this] show False by simp
qed

lemma read_into_sized:
  assumes "read_into rd [0..<nat n] (sized k z xs) = Parsed ys"
  shows "n \<le> int k"
proof (rule ccontr)
  assume "\<not> n \<le> int k"
  then have "k \<in> set [0..<nat n]" by simp
  with read_into_Parsed [OF assms] show False by fastforce
qed

lemma read_declare_ok:
  assumes "read_declare P g m = Parsed g'"
  shows "group_in_bounds g' \<and> get_i32 P (par ''optionUdfCuListNum'') m \<noteq> None"
proof -
  obtain name n ls where r: "get_i32 P (par ''optionUdfCuListNum'') m = Some n"
      "read_into (read_option P m) [0..<nat n]
        (sized XRM_MAX_UDF_CU_GROUP_OPTION_LIST_NUM cuListProperty0 (ug_optionUdfCuListProps g)) = Parsed ls"
      "g' = \<lparr> ug_udfCuGroupName = name, ug_optionUdfCuListProps = ls, ug_optionUdfCuListNum = n \<rparr>"
    using assms by (auto simp: read_declare_def parsed_simps split: prod.splits)
  have "list_in_bounds (ls ! i)" if i: "i < nat n" for i
  proof -
    obtain f x where f: "read_option P m i = Some f" "f x = Parsed (ls ! i)"
      using read_into_member [OF r(2), of i] i by auto
    then show ?thesis unfolding read_option_def parsed_simps of_option_Parsed option.inject list_in_bounds_def
      by (auto simp: parsed_simps dest!: read_members_sized)
  qed
  moreover note read_into_Parsed [OF r(2)] read_into_sized [OF r(2)]
  ultimately show ?thesis by (auto simp: r(1,3) group_in_bounds_def list_all_length)
qed

lemma read_declareV2_ok:
  assumes "read_declareV2 P g m = Parsed g'"
  shows "group_in_boundsV2 g' \<and> get_i32 P (par ''optionUdfCuListNum'') m \<noteq> None"
proof -
  obtain name n ls where r: "get_i32 P (par ''optionUdfCuListNum'') m = Some n"
      "read_into (read_optionV2 P m) [0..<nat n]
        (sized XRM_MAX_UDF_CU_GROUP_OPTION_LIST_NUM cuListPropertyV2_0 (u2_optionUdfCuListProps g)) = Parsed ls"
      "g' = \<lparr> u2_udfCuGroupName = name, u2_optionUdfCuListProps = ls, u2_optionUdfCuListNum = n \<rparr>"
    using assms by (auto simp: read_declareV2_def parsed_simps split: prod.splits)
  have "list_in_boundsV2 (ls ! i)" if i: "i < nat n" for i
  proof -
    obtain f x where f: "read_optionV2 P m i = Some f" "f x = Parsed (ls ! i)"
      using read_into_member [OF r(2), of i] i by auto
    then show ?thesis unfolding read_optionV2_def parsed_simps of_option_Parsed option.inject list_in_boundsV2_def
      by (auto simp: parsed_simps dest!: read_members_sized)
  qed
  moreover note read_into_Parsed [OF r(2)] read_into_sized [OF r(2)]
  ultimately show ?thesis by (auto simp: r(1,3) group_in_boundsV2_def list_all_length)
qed

section \<open>Operations that keep the invariant\<close>

lemma sys_inv_same:
  assumes "sys_inv s" "m_devList s' = m_devList s" "m_numDevice s' = m_numDevice s" "m_fault s' = m_fault s"
    "m_devicesInited s' = m_devicesInited s"
  shows "sys_inv s'"
  using assms by (simp add: sys_inv_def dev_at_def)

lemma releasable_release:
  assumes "sys_inv s" "releasable s r"
  shows "sys_inv (snd (resReleaseCu r s))" "releasable (snd (resReleaseCu r s)) q = releasable s q"
  using resReleaseCu_inv(1,3) [OF assms(1), of r, OF _ _ prod.collapse [symmetric]] assms(2)
  by (simp_all add: releasable_def)

lemma releasable_release_all:
  "sys_inv s \<Longrightarrow> \<forall>r \<in> set rs. releasable s r \<Longrightarrow> sys_inv (snd (release_all resReleaseCu rs s))"
proof (induction rs arbitrary: s)
  case (Cons r rs)
  note s1 = releasable_release [OF Cons.prems(1), of r]
  with Cons.prems Cons.IH [of "snd (resReleaseCu r s)"] show ?case
    by (auto split: prod.splits)
qed simp

lemma releasable_lists:
  assumes "sys_inv s" "\<forall>r \<in> set (take (nat (lr_cuNum lr)) (lr_cuResources lr)). releasable s r"
  shows "sys_inv (snd (resReleaseCuList lr s))" "sys_inv (snd (resReleaseCuListV2 lr s))"
    "sys_inv (snd (resReleaseCuGroup lr s))" "sys_inv (snd (resReleaseCuGroupV2 lr s))"
  using assms releasable_release_all [OF assms]
  by (simp_all add: resReleaseCuList_def resReleaseCuListV2_def resReleaseCuGroup_def resReleaseCuGroupV2_def
      resReleaseCuV2_same)

lemma plugins_inv:
  "sys_inv s \<Longrightarrow> sys_inv (snd (loadXrmPlugins dl ps (ret, s)))"
  "sys_inv s \<Longrightarrow> sys_inv (snd (unloadXrmPlugins ns (ret, s)))"
proof -
  have load: "sys_inv (snd (loadOneXrmPlugin dl f n s))" if "sys_inv s" for f n s
    using that by (auto simp: loadOneXrmPlugin_def Let_def split: option.splits prod.splits elim!: sys_inv_same)
  have unload: "sys_inv (snd (unloadOneXrmPlugin n s))" if "sys_inv s" for n s
    using that by (auto simp: unloadOneXrmPlugin_def split: option.splits elim!: sys_inv_same)
  show "sys_inv s \<Longrightarrow> sys_inv (snd (loadXrmPlugins dl ps (ret, s)))"
  proof (induction ps arbitrary: ret s)
    case (Cons p ps)
    then show ?case using load [OF Cons.prems, of "fst p" "snd p"] by (cases p) (auto split: prod.splits)
  qed simp
  show "sys_inv s \<Longrightarrow> sys_inv (snd (unloadXrmPlugins ns (ret, s)))"
  proof (induction ns arbitrary: ret s)
    case (Cons n ns)
    then show ?case using unload [OF Cons.prems, of n] by (auto split: prod.splits)
  qed simp
qed

lemma pool_operations_inv:
  assumes "sys_inv s" "fresh_pool (getNextReservePoolId s) s"
  shows "sys_inv (snd (resReserveCuPool pp s))"
proof -
  obtain r s' where run: "resReserveCuPool pp s = (r, s')" by fastforce
  note spec = resReserveCuPool_spec [OF assms run]
  show ?thesis
  proof (cases "r = 0")
    case True
    with spec(1) run show ?thesis by (simp add: restored_def cus_rel_def)
  next
    case False
    with spec(2) run show ?thesis by (auto simp: pooled_sys_def cus_rel_def)
  qed
qed

lemma poolV2_inv:
  assumes "sys_inv s" "fresh_pool (getNextReservePoolId s) s" "poolV2_ok pp infor s"
  shows "sys_inv (snd (snd (resReserveCuPoolV2 pp (infor, s))))"
proof -
  obtain r i s' where run: "resReserveCuPoolV2 pp (infor, s) = (r, i, s')" by (metis prod_cases3)
  note spec = resReserveCuPoolV2_spec [OF assms run]
  show ?thesis
  proof (cases "r = 0")
    case True
    with spec(1) run show ?thesis by (simp add: restored_def cus_rel_def)
  next
    case False
    with spec(2) run show ?thesis by (auto simp: pooled_sys_def cus_rel_def)
  qed
qed

lemma declare_inv:
  "sys_inv s \<Longrightarrow> group_in_bounds g \<Longrightarrow> m_numUdfCuGroup s < XRM_MAX_UDF_CU_GROUP_NUM \<Longrightarrow>
    sys_inv (snd (resUdfCuGroupDeclare g s))"
  "sys_inv s \<Longrightarrow> group_in_boundsV2 g2 \<Longrightarrow> m_numUdfCuGroupV2 s < XRM_MAX_UDF_CU_GROUP_NUM_V2 \<Longrightarrow>
    sys_inv (snd (resUdfCuGroupDeclareV2 g2 s))"
  by (auto simp: resUdfCuGroupDeclare_def resUdfCuGroupDeclareV2_def Let_def elim!: sys_inv_same)

lemma undeclare_inv:
  "sys_inv s \<Longrightarrow> sys_inv (snd (resUdfCuGroupUndeclare name s))"
  "sys_inv s \<Longrightarrow> sys_inv (snd (resUdfCuGroupUndeclareV2 name s))"
  by (auto simp: resUdfCuGroupUndeclare_def resUdfCuGroupUndeclareV2_def split: option.splits elim!: sys_inv_same)

lemma context_inv:
  "sys_inv s \<Longrightarrow> sys_inv (snd (incNumConcurrentClient s))" "sys_inv s \<Longrightarrow> sys_inv (snd (getNewClientId s))"
  by (auto simp: incNumConcurrentClient_def getNewClientId_def Let_def elim!: sys_inv_same)

lemma third_inv: "(\<And>ret r s'. out = (ret, r, s') \<Longrightarrow> sys_inv s') \<Longrightarrow> sys_inv (snd (snd out))"
  by (cases out) auto

lemma allocations_inv:
  assumes "sys_inv s"
  shows "prop_ok p \<Longrightarrow> sys_inv (snd (snd (resAllocCu p upd (r, s))))"
    "prop_ok p \<Longrightarrow> sys_inv (snd (snd (resAllocCuFromDev d p upd (r, s))))"
    "prop_ok p \<Longrightarrow> sys_inv (snd (snd (resAllocLeastUsedCuFromDev d p upd (r, s))))"
    "prop_ok (cuPropertyCopyFromV2 p2) \<Longrightarrow> sys_inv (snd (snd (resAllocCuV2 p2 upd (r, s))))"
    "list_ok lp \<Longrightarrow> sys_inv (snd (snd (resAllocCuList lp (cuListResource0 XRM_MAX_LIST_CU_NUM, s))))"
    "listV2_ok l2 \<Longrightarrow> sys_inv (snd (snd (resAllocCuListV2 l2 (cuListResource0 XRM_MAX_LIST_CU_NUM_V2, s))))"
proof -
  show "prop_ok p \<Longrightarrow> sys_inv (snd (snd (resAllocCu p upd (r, s))))"
    by (rule third_inv) (rule alloc_result_inv(1) [OF assms resAllocCu_spec [OF assms]])
  show "prop_ok p \<Longrightarrow> sys_inv (snd (snd (resAllocCuFromDev d p upd (r, s))))"
    by (rule third_inv) (rule alloc_result_inv(1) [OF assms resAllocCuFromDev_spec(1) [OF assms]])
  show "prop_ok p \<Longrightarrow> sys_inv (snd (snd (resAllocLeastUsedCuFromDev d p upd (r, s))))"
    by (rule third_inv) (rule alloc_result_inv(1) [OF assms resAllocLeastUsedCuFromDev_spec [OF assms]])
  show "prop_ok (cuPropertyCopyFromV2 p2) \<Longrightarrow> sys_inv (snd (snd (resAllocCuV2 p2 upd (r, s))))"
    by (rule third_inv) (rule policy_result_inv(1) [OF assms resAllocCuV2_spec [OF assms]])
  show "list_ok lp \<Longrightarrow> sys_inv (snd (snd (resAllocCuList lp (cuListResource0 XRM_MAX_LIST_CU_NUM, s))))"
    by (rule third_inv, rule resAllocCuList_spec(1) [OF assms]) (simp_all add: cuListResource0_def)
  show "listV2_ok l2 \<Longrightarrow> sys_inv (snd (snd (resAllocCuListV2 l2 (cuListResource0 XRM_MAX_LIST_CU_NUM_V2, s))))"
    by (rule third_inv, rule resAllocCuListV2_spec(1) [OF assms]) (simp_all add: cuListResource0_def)
qed

lemma loading_inv:
  assumes "sys_inv s" "driver_ok x"
  shows "prop_ok p \<Longrightarrow> sys_inv (snd (snd (resAllocCuWithLoad x p xclbin upd (r, s))))"
    "prop_ok p \<Longrightarrow> sys_inv (snd (snd (resAllocCuLeastUsedWithLoad x p xclbin upd (r, s))))"
    "c \<noteq> 0 \<Longrightarrow> sys_inv (snd (snd (resLoadAndAllocAllCu x xclbin c pid (lr, s))))"
proof -
  show "prop_ok p \<Longrightarrow> sys_inv (snd (snd (resAllocCuWithLoad x p xclbin upd (r, s))))"
    by (rule third_inv) (rule loading_result_inv(1) [OF resAllocCuWithLoad_spec [OF assms]])
  show "prop_ok p \<Longrightarrow> sys_inv (snd (snd (resAllocCuLeastUsedWithLoad x p xclbin upd (r, s))))"
    by (rule third_inv) (rule loading_result_inv(1) [OF resAllocCuLeastUsedWithLoad_spec [OF assms]])
  show "c \<noteq> 0 \<Longrightarrow> sys_inv (snd (snd (resLoadAndAllocAllCu x xclbin c pid (lr, s))))"
    by (rule third_inv) (rule resLoadAndAllocAllCu_spec(1) [OF assms])
qed

lemma devices_inv:
  assumes "sys_inv s" "driver_ok x"
  shows "sys_inv (snd (unloadOneDevice x devId s))" "sys_inv (snd (enableOneDevice x devId s))"
    "sys_inv (snd (disableOneDevice x devId s))" "sys_inv (snd (loadOneDevice x devId xclbin s))"
    "sys_inv (snd (loadDevices x requests s))" "sys_inv (snd (getDeviceNumber x s))" "sys_inv (snd (listDevice x devId s))"
  using device_operations_step [OF assms] listDevice_step [OF assms(1)] by (simp_all only: dev_step_def)

section \<open>Handlers that keep the invariant\<close>

definition keeps_inv :: "'m handler \<Rightarrow> bool" where
  "keeps_inv handler \<longleftrightarrow> (\<forall>h m s r s'. sys_inv s \<longrightarrow> driver_ok (h_xrt h) \<longrightarrow> sane (h_tree h) m s \<longrightarrow>
     in_bounds (h_tree h) m s \<longrightarrow> handler h m s = (Reply r, s') \<longrightarrow> sys_inv s')"

lemma keeps_serve:
  assumes "\<And>h m s. handler h m s = serve (req h m) (run h) s"
    and "\<And>h m s a. sys_inv s \<Longrightarrow> driver_ok (h_xrt h) \<Longrightarrow> sane (h_tree h) m s \<Longrightarrow> in_bounds (h_tree h) m s \<Longrightarrow>
      req h m = Parsed a \<Longrightarrow> sys_inv (snd (run h a s))"
  shows "keeps_inv handler"
  unfolding keeps_inv_def assms(1) serve_Reply by (metis assms(2) snd_conv)

lemma snd_serve [simp]:
  "snd (serve_cu alloc r s) = snd (snd (alloc (r, s)))"
  "snd (serve_list alloc2 limit s) = snd (snd (alloc2 (cuListResource0 limit, s)))"
  "snd (serve_status operation a s) = snd (operation a s)"
  by (simp_all add: serve_cu_def serve_list_def serve_status_def split: prod.splits)

lemma read_on_device_ok: "sane P m s \<Longrightarrow> read_on_device P m p = Some (d, q) \<Longrightarrow> prop_ok q"
  unfolding read_on_device_def bind_Some_conv option.inject prod.inject by (metis sane_prop_ok)

lemma read_with_xclbin_ok: "sane P m s \<Longrightarrow> read_with_xclbin P m p = Some (q, xclbin) \<Longrightarrow> prop_ok q"
  unfolding read_with_xclbin_def bind_Some_conv option.inject prod.inject by (metis sane_prop_ok)

lemma keeps_allocations:
  "keeps_inv cuAllocCommand" "keeps_inv cuAllocFromDevCommand" "keeps_inv cuAllocLeastUsedFromDevCommand"
  "keeps_inv cuAllocV2Command" "keeps_inv cuListAllocCommand" "keeps_inv cuListAllocV2Command"
  "keeps_inv cuAllocWithLoadCommand" "keeps_inv cuAllocLeastUsedWithLoadCommand"
  by (rule keeps_serve, rule cuAllocCommand_def, use sane_prop_ok allocations_inv(1) in fastforce)
    (rule keeps_serve, rule cuAllocFromDevCommand_def, use read_on_device_ok allocations_inv(2) in fastforce,
     rule keeps_serve, rule cuAllocLeastUsedFromDevCommand_def, use read_on_device_ok allocations_inv(3) in fastforce,
     rule keeps_serve, rule cuAllocV2Command_def, use sane_propV2_ok allocations_inv(4) in fastforce,
     rule keeps_serve, rule cuListAllocCommand_def, use sane_cuList allocations_inv(5) in fastforce,
     rule keeps_serve, rule cuListAllocV2Command_def, use sane_cuListV2 allocations_inv(6) in fastforce,
     rule keeps_serve, rule cuAllocWithLoadCommand_def, use read_with_xclbin_ok loading_inv(1) in fastforce,
     rule keeps_serve, rule cuAllocLeastUsedWithLoadCommand_def, use read_with_xclbin_ok loading_inv(2) in fastforce)

lemma read_load_all:
  assumes "sane P m s"
    "of_option (do {
       xclbin \<leftarrow> get_str P (par ''xclbinFileName'') m;
       clientId \<leftarrow> get_u64 P (par ''clientId'') m;
       clientProcessId \<leftarrow> get_i32 P (par ''clientProcessId'') m;
       Some (xclbin, clientId, clientProcessId)
     }) = Parsed (xclbin, c, pid)"
  shows "c \<noteq> 0"
  using assms unfolding of_option_Parsed bind_Some_conv option.inject prod.inject sane_def by blast

lemma keeps_load_all: "keeps_inv loadAndAllCuAllocCommand"
  by (rule keeps_serve, rule loadAndAllCuAllocCommand_def) (use read_load_all loading_inv(3) in fastforce)

lemma keeps_releases:
  "keeps_inv cuReleaseCommand" "keeps_inv cuReleaseV2Command" "keeps_inv cuListReleaseCommand"
  "keeps_inv cuListReleaseV2Command" "keeps_inv cuGroupReleaseCommand" "keeps_inv cuGroupReleaseV2Command"
  by (rule keeps_serve, rule cuReleaseCommand_def, use read_release_releasable releasable_release(1) in fastforce)
    (rule keeps_serve, rule cuReleaseV2Command_def,
      use read_release_releasable releasable_release(1) in \<open>fastforce simp: resReleaseCuV2_same\<close>,
     rule keeps_serve, rule cuListReleaseCommand_def,
      metis snd_serve(3) releasable_lists(1) read_resources_releasable,
     rule keeps_serve, rule cuListReleaseV2Command_def,
      metis snd_serve(3) releasable_lists(2) read_resources_releasable,
     rule keeps_serve, rule cuGroupReleaseCommand_def,
      metis snd_serve(3) releasable_lists(3) read_resources_releasable,
     rule keeps_serve, rule cuGroupReleaseV2Command_def,
      metis snd_serve(3) releasable_lists(4) read_resources_releasable)

lemma destroy_inv:
  assumes "sys_inv s"
  shows "sys_inv (if clientId \<noteq> 0 then recycleResource clientId s else s)"
  using assms recycleResource_spec(1) [OF assms] by simp

lemma keeps_contexts:
  "keeps_inv createContextCommand" "keeps_inv echoContextCommand" "keeps_inv destroyContextCommand"
  "keeps_inv isDaemonRunningCommand"
proof -
  show "keeps_inv createContextCommand"
  proof (rule keeps_serve, rule createContextCommand_def)
    fix s :: system assume "sys_inv s"
    note i = context_inv(1) [OF this] context_inv(2) [OF context_inv(1) [OF this]] context_inv(2) [OF this]
    show "sys_inv (snd (case incNumConcurrentClient s of
         (ok, s1) \<Rightarrow>
           (case (if ok then getNewClientId s1 else (0, s1)) of
              (clientId, s2) \<Rightarrow>
                (status (getLogLevel s) @ [(dat ''clientId'', show_word clientId)], s2))))"
      using i by (auto split: prod.splits if_splits)
  qed
  show "keeps_inv echoContextCommand"
    by (rule keeps_serve, rule echoContextCommand_def) simp
  show "keeps_inv destroyContextCommand"
    by (rule keeps_serve, rule destroyContextCommand_def) (simp only: snd_conv destroy_inv)
  show "keeps_inv isDaemonRunningCommand"
    by (rule keeps_serve, rule isDaemonRunningCommand_def) simp
qed

lemma keeps_reserve: "keeps_inv cuPoolReserveCommand"
proof (rule keeps_serve, rule cuPoolReserveCommand_def)
  fix h :: "'a host" and m :: 'a and s pool assume "sys_inv s" "sane (h_tree h) m s"
  then have "sys_inv (snd (resReserveCuPool pool s))" using pool_operations_inv by (simp add: sane_def)
  then show "sys_inv (snd (case resReserveCuPool pool s of
         (poolId, s') \<Rightarrow>
           (if poolId > 0 then status XRM_SUCCESS @ [(dat ''poolId'', show_word poolId)] else status XRM_ERROR, s')))"
    by (auto split: prod.splits)
qed

lemma keeps_reserveV2: "keeps_inv cuPoolReserveV2Command"
proof (rule keeps_serve, rule cuPoolReserveV2Command_def)
  fix h :: "'a host" and m :: 'a and s pool
  assume a: "sys_inv s" "sane (h_tree h) m s" "in_bounds (h_tree h) m s" "read_poolV2 (h_tree h) (par ''cuList.'') True m = Parsed pool"
  have "sys_inv (snd (snd (resReserveCuPoolV2 pool (cuPoolResInforV2_0, s))))"
    by (rule poolV2_inv [OF a(1) _ read_poolV2_ok [OF a(3,4)]]) (use a(2) in \<open>simp add: sane_def\<close>)
  then show "sys_inv (snd (case resReserveCuPoolV2 pool (cuPoolResInforV2_0, s) of
        (poolId, infor, s') \<Rightarrow>
          (if poolId > 0 then status XRM_SUCCESS @ [(dat ''poolId'', show_word poolId)] @ show_reserved infor
           else status XRM_ERROR, s')))"
    by (auto split: prod.splits)
qed

lemma keeps_declare: "keeps_inv udfCuGroupDeclareCommand"
proof (rule keeps_serve, rule udfCuGroupDeclareCommand_def)
  fix h :: "'a host" and m :: 'a and s g
  assume a: "sys_inv s" "in_bounds (h_tree h) m s" "read_declare (h_tree h) (h_groupInfo h) m = Parsed g"
  note g = read_declare_ok [OF a(3)]
  have "sys_inv (snd (resUdfCuGroupDeclare g s))"
    by (rule declare_inv(1) [OF a(1) conjunct1 [OF g]]) (use in_boundsD(5) [OF a(2) conjunct2 [OF g]] in simp)
  then show "sys_inv (snd (case resUdfCuGroupDeclare g s of
       (ret, s') \<Rightarrow> (declare_reply ''failed to declare user defined cu group'' ret, s')))" by (auto split: prod.splits)
qed

lemma keeps_declareV2: "keeps_inv udfCuGroupDeclareV2Command"
proof (rule keeps_serve, rule udfCuGroupDeclareV2Command_def)
  fix h :: "'a host" and m :: 'a and s g
  assume a: "sys_inv s" "in_bounds (h_tree h) m s" "read_declareV2 (h_tree h) (h_groupInfoV2 h) m = Parsed g"
  note g = read_declareV2_ok [OF a(3)]
  have "sys_inv (snd (resUdfCuGroupDeclareV2 g s))"
    by (rule declare_inv(2) [OF a(1) conjunct1 [OF g]]) (use in_boundsD(5) [OF a(2) conjunct2 [OF g]] in simp)
  then show "sys_inv (snd (case resUdfCuGroupDeclareV2 g s of
       (ret, s') \<Rightarrow> (declare_reply ''failed to declare user defined cu group'' ret, s')))" by (auto split: prod.splits)
qed

lemma keeps_relinquish: "keeps_inv cuPoolRelinquishCommand" "keeps_inv cuPoolRelinquishV2Command"
proof -
  have rel: "sys_inv s \<Longrightarrow> sys_inv (snd (resRelinquishCuPool p s))" for s p
    by (metis resRelinquishCuPool_spec(1) prod.collapse)
  have rel2: "resRelinquishCuPoolV2 = resRelinquishCuPool"
    by (intro ext) (simp add: resRelinquishCuPoolV2_def)
  show "keeps_inv cuPoolRelinquishCommand"
    by (rule keeps_serve, rule cuPoolRelinquishCommand_def) (simp add: rel)
  show "keeps_inv cuPoolRelinquishV2Command"
    by (rule keeps_serve, rule cuPoolRelinquishV2Command_def) (simp add: rel rel2)
qed

lemma keeps_undeclare: "keeps_inv udfCuGroupUndeclareCommand" "keeps_inv udfCuGroupUndeclareV2Command"
proof -
  show "keeps_inv udfCuGroupUndeclareCommand"
  proof (rule keeps_serve, rule udfCuGroupUndeclareCommand_def)
    fix s :: system and name assume "sys_inv s"
    from undeclare_inv(1) [OF this, of name]
    show "sys_inv (snd (case resUdfCuGroupUndeclare name s of
         (ret, s') \<Rightarrow> (declare_reply ''failed to undeclare user defined cu group'' ret, s')))" by (auto split: prod.splits)
  qed
  show "keeps_inv udfCuGroupUndeclareV2Command"
  proof (rule keeps_serve, rule udfCuGroupUndeclareV2Command_def)
    fix s :: system and name assume "sys_inv s"
    from undeclare_inv(2) [OF this, of name]
    show "sys_inv (snd (case resUdfCuGroupUndeclareV2 name s of
         (ret, s') \<Rightarrow> (declare_reply ''failed to undeclare user defined cu group'' ret, s')))" by (auto split: prod.splits)
  qed
qed

text \<open>The queries leave the system as it is.\<close>

lemma keeps_state:
  assumes "\<And>h m s r s'. handler h m s = (Reply r, s') \<Longrightarrow> s' = s"
  shows "keeps_inv handler"
  unfolding keeps_inv_def using assms by blast

lemma keeps_queries:
  "keeps_inv cuGetMaxCapacityCommand" "keeps_inv allocationQueryCommand" "keeps_inv allocationQueryV2Command"
  "keeps_inv isCuExistingCommand" "keeps_inv isCuListExistingCommand" "keeps_inv isCuGroupExistingCommand"
  "keeps_inv reservationQueryCommand" "keeps_inv reservationQueryV2Command"
proof -
  note sp = serve_Reply split_beta
  show "keeps_inv cuGetMaxCapacityCommand"
    by (rule keeps_state) (auto simp only: cuGetMaxCapacityCommand_def sp prod.inject)
  show "keeps_inv allocationQueryCommand"
    by (rule keeps_state) (auto simp only: allocationQueryCommand_def sp prod.inject)
  show "keeps_inv allocationQueryV2Command"
    by (rule keeps_serve, rule allocationQueryV2Command_def) (auto split: prod.splits option.splits)
  show "keeps_inv isCuExistingCommand"
    by (rule keeps_state) (auto simp only: isCuExistingCommand_def sp prod.inject)
  show "keeps_inv isCuListExistingCommand"
    by (rule keeps_state) (auto simp only: isCuListExistingCommand_def Let_def sp prod.inject)
  show "keeps_inv isCuGroupExistingCommand"
    by (rule keeps_state) (auto simp only: isCuGroupExistingCommand_def sp prod.inject)
  show "keeps_inv reservationQueryCommand"
    by (rule keeps_state) (auto simp only: reservationQueryCommand_def sp prod.inject)
  show "keeps_inv reservationQueryV2Command"
    by (rule keeps_state) (auto simp only: reservationQueryV2Command_def Let_def sp prod.inject)
qed

lemma checkCuStat_in_bounds:
  assumes "sys_inv s" "re_deviceId r < m_numDevice s" "re_cuId r < int XRM_MAX_XILINX_KERNELS"
  shows "checkCuStat r st s \<noteq> None"
  using assms by (auto simp: checkCuStat_def Let_def sys_inv_def)

lemma keeps_status: "keeps_inv cuCheckStatusCommand"
proof (rule keeps_serve, unfold cuCheckStatusCommand_def Let_def, rule refl)
  fix h :: "'a host" and m :: 'a and s r
  let ?P = "h_tree h"
  assume i: "sys_inv s" and b: "in_bounds ?P m s"
    and req: "of_option (do {
        deviceId \<leftarrow> get_i32 ?P (par ''deviceId'') m;
        cuId \<leftarrow> get_i32 ?P (par ''cuId'') m;
        channelId \<leftarrow> get_i32 ?P (par ''channelId'') m;
        cuType \<leftarrow> get_i32 ?P (par ''cuType'') m;
        allocServiceId \<leftarrow> get_u64 ?P (par ''allocServiceId'') m;
        Some ((h_cuRes h)\<lparr>re_deviceId := deviceId, re_cuId := cuId, re_channelId := channelId,
          re_cuType := cuType_of cuType, re_allocServiceId := allocServiceId\<rparr>)
      }) = Parsed r"
  obtain d c ch t sv where n: "get_i32 ?P (par ''deviceId'') m = Some d" "get_i32 ?P (par ''cuId'') m = Some c"
    and r: "r = (h_cuRes h)\<lparr>re_deviceId := d, re_cuId := c, re_channelId := ch,
          re_cuType := cuType_of t, re_allocServiceId := sv\<rparr>"
    using req unfolding of_option_Parsed bind_Some_conv option.inject by blast
  have "d < m_numDevice s" "c < int XRM_MAX_XILINX_KERNELS"
    using in_boundsD(1,2) [OF b, of "[]"] n by simp_all
  then obtain ret st where st: "checkCuStat r (h_cuStat h) s = Some (ret, st)"
    using checkCuStat_in_bounds [OF i, of r "h_cuStat h"] by (auto simp: r)
  show "sys_inv (snd (case checkCuStat r (h_cuStat h) s of
          None \<Rightarrow> ([], fault s)
        | Some (ret, st) \<Rightarrow>
            (status ret @
             (if ret = XRM_SUCCESS
              then [(dat ''isBusy'', show_int (if st_isBusy st then 1 else 0)),
                    (dat ''usedLoadOriginal'', show_int (st_usedLoadOriginal st))]
              else [(dat ''failed'', ''failed to check cu status'')]), s)))"
    using i by (simp only: st option.case prod.case snd_conv)
qed

text \<open>The counting requests give back what they took.\<close>

lemma keeps_probe:
  assumes "\<And>h m s. handler h m s = serve_probe (req h m) (\<lambda>a. count_all (body a) undo (reply h)) s"
    and "\<And>h m s a. sane (h_tree h) m s \<Longrightarrow> req h m = Parsed a \<Longrightarrow> accepts a"
    and "\<And>a s rep. accepts a \<Longrightarrow> sys_inv s \<Longrightarrow>
      \<exists>e n s'. count_all (body a) undo rep s = (Reply (rep e n), s') \<and> n \<le> channel_count \<and> holding s {} [] s'"
  shows "keeps_inv handler"
  unfolding keeps_inv_def
proof (intro allI impI)
  fix h m s r s'
  assume i: "sys_inv s" "sane (h_tree h) m s" and run: "handler h m s = (Reply r, s')"
  then obtain a where a: "req h m = Parsed a" "count_all (body a) undo (reply h) s = (Reply r, s')"
    by (auto simp: assms(1) serve_probe_def split: parsed.splits)
  from assms(3) [OF assms(2) [OF i(2) a(1)] i(1), of "reply h"] a(2) have "holding s {} [] s'" by auto
  then show "sys_inv s'" by (rule holding_none(2))
qed

lemma keeps_counts:
  "keeps_inv checkCuAvailableNumCommand" "keeps_inv checkCuListAvailableNumCommand" "keeps_inv checkCuListAvailableNumV2Command"
proof -
  show "keeps_inv checkCuAvailableNumCommand"
    by (rule keeps_probe [where accepts = prop_ok], rule checkCuAvailableNumCommand_def)
      (use sane_prop_ok in fastforce, rule cu.count_all_ends)
  show "keeps_inv checkCuListAvailableNumCommand"
    by (rule keeps_probe [where accepts = list_ok], rule checkCuListAvailableNumCommand_def)
      (erule (1) sane_cuList, rule list.count_all_ends)
  show "keeps_inv checkCuListAvailableNumV2Command"
    by (rule keeps_probe [where accepts = listV2_ok], rule checkCuListAvailableNumV2Command_def)
      (erule (1) sane_cuListV2, rule listV2.count_all_ends)
qed

section \<open>The administration handlers\<close>

lemma keeps_admin:
  assumes "\<And>h m s. handler h m s = serve_admin name (run h m) (h_tree h) m s"
    and "\<And>h m rid s. sys_inv s \<Longrightarrow> driver_ok (h_xrt h) \<Longrightarrow> sys_inv (snd (run h m m rid s))"
  shows "keeps_inv handler"
  unfolding keeps_inv_def
proof (intro allI impI)
  fix h m s r s'
  assume i: "sys_inv s" "driver_ok (h_xrt h)" and run: "handler h m s = (Reply r, s')"
  from assms(2) [OF i, of m] run show "sys_inv s'"
    by (auto simp: assms(1) serve_admin_def split: option.splits prod.splits) (metis snd_conv)+
qed

lemma with_children_inv:
  assumes "sys_inv s" "\<And>kids. sys_inv (snd (run kids s))"
  shows "sys_inv (snd (with_children P path text run missing m rid s))"
  using assms by (simp add: with_children_def split: option.splits)

lemma control_devices_inv:
  assumes "\<And>d s. sys_inv s \<Longrightarrow> sys_inv (snd (operation d s))" "sys_inv s"
  shows "sys_inv (snd (control_devices P done errmsg operation kids s))"
  using assms(2)
proof (induction kids arbitrary: s)
  case (Cons kid kids)
  show ?case
  proof (cases "get_u32 P [] kid")
    case (Some devId)
    with assms(1) [OF Cons.prems, of "i32 (uint devId)"] Cons.IH show ?thesis by (auto split: prod.splits)
  qed (simp add: Cons.prems)
qed simp

lemma control_one_inv:
  assumes "\<And>d s. sys_inv s \<Longrightarrow> sys_inv (snd (operation d s))" "sys_inv s"
  shows "sys_inv (snd (control_one P done errmsg operation m rid s))"
  using assms(1) [OF assms(2)] assms(2) unfolding control_one_def by (simp only: split_beta snd_conv split: option.split) simp

lemma unload_list_inv:
  assumes "driver_ok x" "sys_inv s"
  shows "sys_inv (snd (unload_list P x errmsg kids (ret, s)))"
  using assms(2)
proof (induction kids arbitrary: ret s)
  case (Cons kid kids)
  let ?body = "\<lambda>d (ret, s). case unloadOneDevice x (int d) s of (ret', s') \<Rightarrow> (ret' \<noteq> XRM_SUCCESS, ret', s')"
  have step: "sys_inv (snd (snd (?body d st)))" if "sys_inv (snd st)" for d st
    using devices_inv(1) [OF that assms(1), of "int d"] by (auto split: prod.splits)
  have all: "sys_inv (snd (snd (find_index ?body is (r, snd (getDeviceNumber x s)))))" for "is" r
    by (rule find_index_inv [where P = "\<lambda>st. sys_inv (snd st)", OF _ step])
      (use devices_inv(6) [OF Cons.prems assms(1)] in auto)
  show ?case
  proof (cases "get_i32 P [] kid")
    case (Some devId)
    let ?out = "unloadOneDevice x devId s"
    have "snd (unload_list P x errmsg (kid # kids) (ret, s)) =
      (if devId = - 2 then snd (snd (find_index ?body [0..<nat (fst (getDeviceNumber x s))] (ret, snd (getDeviceNumber x s))))
       else if fst ?out \<noteq> XRM_SUCCESS then snd ?out else snd (unload_list P x errmsg kids (fst ?out, snd ?out)))"
      by (simp add: Some split_beta)
    then show ?thesis using all devices_inv(1) [OF Cons.prems assms(1), of devId] Cons.IH [of "snd ?out" "fst ?out"] by presburger
  qed (simp add: Cons.prems)
qed simp

lemma keeps_control:
  "keeps_inv enableDevicesCommand" "keeps_inv disableDevicesCommand"
  "keeps_inv enableOneDeviceCommand" "keeps_inv disableOneDeviceCommand"
  "keeps_inv unloadCommand" "keeps_inv unloadOneDeviceCommand"
proof -
  note rules = with_children_inv control_devices_inv control_one_inv unload_list_inv devices_inv
  show "keeps_inv enableDevicesCommand"
    by (rule keeps_admin, unfold enableDevicesCommand_def Let_def, rule refl) (intro rules)
  show "keeps_inv disableDevicesCommand"
    by (rule keeps_admin, unfold disableDevicesCommand_def Let_def, rule refl) (intro rules)
  show "keeps_inv enableOneDeviceCommand"
    by (rule keeps_admin, unfold enableOneDeviceCommand_def, rule refl) (intro rules)
  show "keeps_inv disableOneDeviceCommand"
    by (rule keeps_admin, unfold disableOneDeviceCommand_def, rule refl) (intro rules)
  show "keeps_inv unloadCommand"
    by (rule keeps_admin, unfold unloadCommand_def Let_def, rule refl) (intro rules)
  show "keeps_inv unloadOneDeviceCommand"
    by (rule keeps_admin, unfold unloadOneDeviceCommand_def, rule refl) (intro rules)
qed

lemma snd_case:
  "snd (case p of (ret, s') \<Rightarrow> (f ret, s')) = snd p"
  "snd (case q of (None, s') \<Rightarrow> (None, s') | (Some ret, s') \<Rightarrow> (Some (g ret), s')) = snd q"
  by (auto split: prod.splits option.splits)

lemma keeps_load: "keeps_inv loadCommand" "keeps_inv loadXrmPluginsCommand" "keeps_inv unloadXrmPluginsCommand"
proof -
  note rules = with_children_inv devices_inv plugins_inv
  show "keeps_inv loadCommand"
    by (rule keeps_admin, unfold loadCommand_def Let_def, rule refl) (intro with_children_inv, assumption, unfold snd_case, intro rules)
  show "keeps_inv loadXrmPluginsCommand"
    by (rule keeps_admin, unfold loadXrmPluginsCommand_def Let_def, rule refl)
      (intro with_children_inv, assumption, unfold snd_case, intro rules)
  show "keeps_inv unloadXrmPluginsCommand"
    by (rule keeps_admin, unfold unloadXrmPluginsCommand_def Let_def, rule refl)
      (intro with_children_inv, assumption, unfold snd_case, intro rules)
qed

lemma keeps_load_one: "keeps_inv loadOneDeviceCommand"
proof (rule keeps_admin, unfold loadOneDeviceCommand_def Let_def, rule refl, rule with_children_inv)
  fix h :: "'a host" and m :: 'a and s
  let ?P = "h_tree h"
  assume i: "sys_inv s" "driver_ok (h_xrt h)"
  show "sys_inv s" by fact
  have init: "sys_inv (initDevices (h_xrt h) s)" using init_devices_step [OF i(1)] by (simp add: dev_step_def)
  show "sys_inv (snd (case (do {
            xclbin \<leftarrow> get_str ?P (par ''xclbinFileName'') m;
            devId \<leftarrow> get_i32 ?P (par ''deviceId'') m;
            Some (xclbin, devId)
          }) of
          None \<Rightarrow> (None, initDevices (h_xrt h) s)
        | Some (xclbin, devId) \<Rightarrow>
            (case loadOneDevice (h_xrt h) devId xclbin s of
               (ret, s') \<Rightarrow>
                 (Some (if ret \<ge> 0 then status XRM_SUCCESS @ [(dat ''deviceId'', show_int ret)]
                        else status XRM_ERROR @ [(dat ''failed'', h_errmsg h)]), s'))))"
    using init devices_inv(4) [OF i] by (auto simp only: snd_case snd_conv split: option.split prod.split)
qed

lemma keeps_exec: "keeps_inv execXrmPluginFuncCommand"
  by (rule keeps_admin, unfold execXrmPluginFuncCommand_def Let_def, rule refl) (auto split: option.split prod.split)

lemma list_devices_inv:
  "driver_ok x \<Longrightarrow> sys_inv s \<Longrightarrow> sys_inv (snd (list_devices x n ds s))"
proof (induction ds arbitrary: s)
  case (Cons d ds)
  from devices_inv(7) [OF Cons.prems(2,1), of "int d"] Cons.IH [OF Cons.prems(1)] show ?case
    by (auto split: prod.splits) (metis snd_conv)
qed simp

lemma keeps_list: "keeps_inv listCommand"
  unfolding keeps_inv_def
proof (intro allI impI)
  fix h :: "'a host" and m s r s'
  assume i: "sys_inv s" "driver_ok (h_xrt h)" and run: "listCommand h m s = (Reply r, s')"
  let ?s = "snd (getDeviceNumber (h_xrt h) s)"
  have "s' = ?s \<or> (\<exists>n ds. s' = snd (list_devices (h_xrt h) n ds ?s))"
    using run unfolding listCommand_def Let_def
    by (auto simp only: split_beta prod.inject outcome.inject outcome.distinct split: option.splits if_splits)
  then show "sys_inv s'" using devices_inv(6) [OF i] list_devices_inv [OF i(2)] by metis
qed

section \<open>The dispatcher and the worker\<close>

text \<open>
  The requests outside the theorem: the allocation from groups, which relies on the tables of the groups as well; and
  the counting requests for groups, for pools (a run of reservations, each with its own pool id) and, with a policy, for
  one compute unit (which may count a unit without a grant, and so without an end).
\<close>

definition unaccounted :: "string list" where
  "unaccounted = [''cuGroupAlloc'', ''cuGroupAllocV2'', ''checkCuAvailableNumV2'', ''checkCuGroupAvailableNum'', ''checkCuGroupAvailableNumV2'',
     ''checkCuPoolAvailableNum'', ''checkCuPoolAvailableNumV2'']"

lemmas keeps = keeps_allocations keeps_load_all keeps_releases keeps_contexts keeps_reserve keeps_reserveV2 keeps_relinquish
  keeps_declare keeps_declareV2 keeps_undeclare keeps_queries keeps_status keeps_counts keeps_control keeps_load keeps_load_one keeps_exec keeps_list

lemma keeps_dispatch:
  assumes "name \<notin> set unaccounted"
  shows "keeps_inv (dispatch name)"
proof (cases "map_of registerAll name :: 'a handler option")
  case None
  then show ?thesis by (auto simp: keeps_inv_def dispatch_def)
next
  case (Some processCmd)
  have "keeps_inv processCmd" using map_of_SomeD [OF Some] assms
    unfolding registerAll_def unaccounted_def by (simp only: list.set insert_iff prod.inject empty_iff) (elim disjE conjE; simp only: keeps simp_thms)
  then show ?thesis using Some by (simp add: keeps_inv_def dispatch_def)
qed

lemma sys_inv_plain:
  assumes "sys_inv s" "\<And>d dev. dev_inv d (f dev) = dev_inv d dev" "\<And>dev. length (cuList (f dev)) = length (cuList dev)"
  shows "sys_inv (upd_dev i f s)"
proof -
  have "dev_at (upd_dev i f s) d = (if d = i \<and> d < length (m_devList s) then f (dev_at s d) else dev_at s d)" for d
    by (auto simp: upd_dev_def dev_at_def nth_list_update list_update_beyond)
  with assms show ?thesis by (simp add: sys_inv_def upd_dev_def [of i f s])
qed

lemma closeDevice_inv: "sys_inv s \<Longrightarrow> sys_inv (snd (closeDevice devId s))"
  unfolding closeDevice_def set_dev_def by (simp, intro impI, erule sys_inv_plain) (simp_all add: dev_inv_def cuList_def numCu_def)

lemma recycle_all_inv: "sys_inv s \<Longrightarrow> 0 \<notin> set cs \<Longrightarrow> sys_inv (fold recycleResource cs s)"
  by (induction cs arbitrary: s) (auto simp: recycleResource_spec(1))

lemma resetDevice_inv:
  assumes "sys_inv s" "driver_ok x"
  shows "sys_inv (snd (resetDevice x devId s))"
proof -
  have "0 \<notin> set (device_clients (dev_at s (nat devId)))" by (auto simp: device_clients_def)
  from recycle_all_inv [OF assms(1) this] show ?thesis
    using closeDevice_inv devices_inv(1) [OF _ assms(2)] assms(1) by (simp add: resetDevice_def Let_def)
qed

lemma resetEventFunc_inv:
  assumes "sys_inv s" "driver_ok (h_xrt h)" "resetEventFunc h s = Some s'"
  shows "sys_inv s'"
proof -
  have loop: "sys_inv t \<Longrightarrow> reset_offline h ds t = Some t' \<Longrightarrow> sys_inv t'" for ds t t'
  proof (induction ds arbitrary: t)
    case (Cons d ds)
    then show ?case using resetDevice_inv [OF Cons.prems(1) assms(2)] by (auto split: option.splits if_splits)
  qed simp
  show ?thesis using assms(3) loop [OF devices_inv(6) [OF assms(1,2)]] by (auto simp: resetEventFunc_def split: prod.splits)
qed

section \<open>The runs of the daemon\<close>

text \<open>
  What an event may bring: a request that parses is one the accounting covers, it is sane and in bounds for the
  system it meets, which is the one after the client of a lost connection has been recycled.
\<close>

definition met :: "read_error \<Rightarrow> session \<Rightarrow> system \<Rightarrow> system" where
  "met ec se s = (if ec = Eof \<or> ec = ConnectionReset then connection_lost se s else s)"

definition tame :: "'m host \<Rightarrow> event \<Rightarrow> daemon \<Rightarrow> bool" where
  "tame h ev d \<longleftrightarrow> (\<forall>c ec indata w se m. ev = Bytes c ec indata w \<longrightarrow> d_sessions d c = Some se \<longrightarrow>
     h_read_json h (c_str indata) = Inr m \<longrightarrow>
     get_or_empty (h_tree h) ''request.name'' m \<notin> set unaccounted \<and>
     sane (h_tree h) m (met ec se (d_system d)) \<and> in_bounds (h_tree h) m (met ec se (d_system d)))"

inductive tame_run :: "'m host \<Rightarrow> daemon \<Rightarrow> daemon \<Rightarrow> bool" for h :: "'m host" and d0 :: daemon where
  start: "tame_run h d0 d0"
| step: "tame_run h d0 d \<Longrightarrow> tame h ev d \<Longrightarrow> daemon_step h ev d d' \<Longrightarrow> tame_run h d0 d'"

lemma connection_lost_inv: "sys_inv s \<Longrightarrow> sys_inv (connection_lost se s)"
  by (simp add: connection_lost_def recycleResource_spec(1))

lemma met_inv: "sys_inv s \<Longrightarrow> sys_inv (met ec se s)"
  by (simp add: met_def connection_lost_inv)

lemma handle_tree_system:
  assumes "handle_tree h m (se, s) = (Reply r, se', s')"
  shows "s' = s \<or> dispatch (get_or_empty (h_tree h) ''request.name'' m) h m s = (Reply r, s')"
proof -
  obtain ok se1 where rc: "record_client (h_tree h) m se = (ok, se1)" by fastforce
  obtain r1 s1 where d: "dispatch (get_or_empty (h_tree h) ''request.name'' m) h m s = (r1, s1)" by fastforce
  show ?thesis using assms unfolding handle_tree_def Let_def prod.case rc d
    by (cases ok) (simp_all only: bool.case prod.inject split: if_splits, simp_all)
qed

lemma handleCmd_inv:
  assumes inv: "sys_inv s" and drv: "driver_ok (h_xrt h)"
    and tame: "\<And>m. h_read_json h (c_str indata) = Inr m \<Longrightarrow>
      get_or_empty (h_tree h) ''request.name'' m \<notin> set unaccounted \<and> sane (h_tree h) m s \<and> in_bounds (h_tree h) m s"
    and run: "handleCmd h indata (se, s) = (Inr answer, se', s')"
  shows "sys_inv s'"
proof -
  obtain r where p: "parse_request h indata (se, s) = (Reply r, se', s')"
    using run by (auto simp: handleCmd_def split: prod.splits outcome.splits)
  show ?thesis
  proof (cases "h_read_json h (c_str indata)")
    case (Inl a)
    with p inv show ?thesis by (simp add: parse_request_def)
  next
    case (Inr m)
    let ?name = "get_or_empty (h_tree h) ''request.name'' m"
    have "handle_tree h m (se, s) = (Reply r, se', s')" using p Inr by (simp add: parse_request_def)
    then have "s' = s \<or> dispatch ?name h m s = (Reply r, s')"
      by (rule handle_tree_system)
    then show ?thesis
    proof
      assume d: "dispatch ?name h m s = (Reply r, s')"
      have "keeps_inv (dispatch ?name)" using keeps_dispatch tame [OF Inr] by blast
      from this [unfolded keeps_inv_def, rule_format, OF inv drv _ _ d] tame [OF Inr] show ?thesis by blast
    qed (simp add: inv)
  qed
qed

inductive_cases daemon_stepE: "daemon_step h ev d d'"

lemma doRead_met:
  assumes "doRead h ec indata (se, s) = (out, se', s')"
  shows "(indata = [] \<and> out = None \<and> s' = met ec se s) \<or>
    (\<exists>o'. out = Some o' \<and> handleCmd h indata (se, met ec se s) = (o', se', s'))"
  using assms by (auto simp: doRead_def met_def Let_def split: if_splits prod.splits)

lemma doWrite_inv: "sys_inv (snd st) \<Longrightarrow> doWrite bad st = (alive, st') \<Longrightarrow> sys_inv (snd st')"
  by (cases st) (auto simp: doWrite_def connection_lost_inv split: if_splits)

lemma session_step_system [simp]: "d_system (session_step c alive st d) = snd st" "d_running (session_step c alive st d) = d_running d"
  by (cases st, simp add: session_step_def)+

text \<open>Every step of the running daemon keeps the invariant, and only a running daemon steps.\<close>

lemma daemon_step_inv:
  assumes step: "daemon_step h ev d d'" and tame: "tame h ev d" and drv: "driver_ok (h_xrt h)"
    and inv: "sys_inv (d_system d)" and run: "d_running d'"
  shows "sys_inv (d_system d')"
  using step
proof (cases rule: daemon_step.cases)
  case (request c se ec indata answer st w alive st')
  obtain se1 s1 where st: "st = (se1, s1)" by fastforce
  have h: "handleCmd h indata (se, met ec se (d_system d)) = (Inr answer, se1, s1)"
    using doRead_met [OF request(5) [unfolded st]] by auto
  have "sys_inv s1"
    by (rule handleCmd_inv [OF met_inv [OF inv] drv _ h]) (use tame request(1,4) in \<open>auto simp: tame_def\<close>)
  then have "sys_inv (snd st')" using doWrite_inv [OF _ request(6)] st by simp
  then show ?thesis by (simp add: request)
next
  case (close c se ec st)
  obtain se1 s1 where st: "st = (se1, s1)" by fastforce
  have "s1 = met ec se (d_system d)" using doRead_met [OF close(5) [unfolded st]] by auto
  then show ?thesis by (simp add: close st met_inv inv)
next
  case (worker s')
  then show ?thesis using resetEventFunc_inv [OF inv drv] by simp
qed (use inv run in simp_all)

lemma daemon_step_running: "daemon_step h ev d d' \<Longrightarrow> d_running d"
  by (cases rule: daemon_stepE) simp_all

lemma tame_run_inv:
  assumes "tame_run h d0 d" "driver_ok (h_xrt h)" "sys_inv (d_system d0)"
  shows "d_running d \<Longrightarrow> sys_inv (d_system d)"
  using assms(1)
proof (induction rule: tame_run.induct)
  case start
  show ?case by (rule assms(3))
next
  case (step d ev d')
  have "sys_inv (d_system d)" using step.IH daemon_step_running [OF step.hyps(3)] by blast
  then show ?case using daemon_step_inv [OF step.hyps(3,2) assms(2)] step.prems by blast
qed

end
