(* ===== verification/Xrm_Daemon_Effects.thy ===== *)
theory Xrm_Daemon_Effects
  imports Xrm_Daemon_Inv
begin

text \<open>
  What the daemon does at the edges: requests that ask for nothing, requests it cannot read, and the end of a
  context.
\<close>

section \<open>A count that never ends\<close>

text \<open>A loop whose every turn succeeds does not return.\<close>

lemma take_all_never:
  assumes "I s" and step: "\<And>s. I s \<Longrightarrow> \<exists>r s'. body s = (Inr r, s') \<and> I s'"
  shows "take_all body taken s = None"
proof (cases "take_all body taken s")
  case (Some out)
  then have "(\<forall>s. I s \<longrightarrow> (\<exists>r s'. body s = (Inr r, s') \<and> I s')) \<longrightarrow> \<not> I s"
  proof (induction rule: take_all.raw_induct [rotated, consumes 1, case_names turn])
    case (turn rec body taken s out)
    show ?case
    proof (intro impI notI)
      assume all: "\<forall>s. I s \<longrightarrow> (\<exists>r s'. body s = (Inr r, s') \<and> I s')" and "I s"
      then obtain r s' where r: "body s = (Inr r, s')" "I s'" by blast
      with turn(2) have "rec body (taken @ [r]) s' = Some out" by simp
      from turn(1) [OF this] all r(2) show False by blast
    qed
  qed
  with assms show ?thesis by blast
qed

definition empty_pool :: "cuPoolProperty \<Rightarrow> bool" where
  "empty_pool pool \<longleftrightarrow> pp_cuListNum pool = 0 \<and> pp_xclbinNum pool = 0 \<and>
     0 \<le> lp_cuNum (pp_cuListProp pool) \<and> lp_cuNum (pp_cuListProp pool) \<le> int XRM_MAX_LIST_CU_NUM"

lemma reserve_empty_pool:
  "empty_pool pool \<Longrightarrow> resReserveCuPool pool s = (getNextReservePoolId s, updateReservePoolId s)"
  by (simp add: resReserveCuPool_def empty_pool_def Let_def)

lemma next_pool_nonzero: "getNextReservePoolId s \<noteq> 0"
  by (rule reserve_pool.peek_nonzero)

lemma empty_pool_count:
  assumes "read_pool (h_tree h) (par []) False m = Parsed pool" "empty_pool pool"
  shows "checkCuPoolAvailableNumCommand h m s = (Hangs, s)"
proof -
  have "take_all (reserve_turn pool) [] s = None"
    by (rule take_all_never [where I = "\<lambda>_. True"])
      (use assms(2) next_pool_nonzero in \<open>auto simp: reserve_turn_def reserve_empty_pool\<close>)
  then show ?thesis by (simp add: checkCuPoolAvailableNumCommand_def serve_probe_def assms(1) count_all_def)
qed

section \<open>A request that cannot be read\<close>

text \<open>
  A request of a client for a compute unit that lacks a parameter, or has a text that is no number, ends the daemon,
  and with it every session.
\<close>

lemma unreadable_request_escapes:
  assumes run: "d_running d" "d_sessions d c = Some se"
    and json: "indata \<noteq> []" "h_read_json h (c_str indata) = Inr m"
    and head: "get_or_empty (h_tree h) ''request.name'' m = ''cuAlloc''"
      "c_str (get_or_empty (h_tree h) ''request.requestId'' m) \<noteq> []"
      "c_str (get_or_empty (h_tree h) (par ''recordClientId'') m) = []"
    and bad: "read_request (h_tree h) m (h_cuProp h) = None"
  shows "daemon_step h (Bytes c NoError indata w) d (d\<lparr>d_sessions := (d_sessions d)(c := None), d_running := False\<rparr>)"
proof -
  have "cuAllocCommand h m s = (Escapes, s)" for s
    by (simp add: cuAllocCommand_def serve_def of_option_def bad)
  moreover have "dispatch ''cuAlloc'' h m s = cuAllocCommand h m s" for s by (simp add: dispatch_def registerAll_def)
  ultimately have "handle_tree h m (se, s) = (Escapes, se, s)" for s
    using head by (simp add: handle_tree_def Let_def record_client_def c_str_def)
  then have "doRead h NoError indata (se, d_system d) = (Some (Inl Escapes), se, d_system d)"
    using json by (simp add: doRead_def handleCmd_def parse_request_def)
  from daemon_step.escape [OF run this, of w] show ?thesis by (simp add: session_step_def)
qed

section \<open>The life of a context\<close>

definition same_count :: "system \<Rightarrow> system \<Rightarrow> bool" where
  "same_count s s' \<longleftrightarrow> m_numConcurrentClient s' = m_numConcurrentClient s"

lemma same_count_fold: "(\<And>x s. same_count s (f x s)) \<Longrightarrow> same_count s (fold f xs s)"
  by (induction xs arbitrary: s) (auto simp: same_count_def)

lemma count_upd_cu [simp]: "m_numConcurrentClient (upd_cu d c f s) = m_numConcurrentClient s"
  by (simp add: upd_cu_def)

lemma count_updateDeviceLoad [simp]: "m_numConcurrentClient (updateDeviceLoad d v w s) = m_numConcurrentClient s"
  by (simp add: updateDeviceLoad_def fault_def Let_def)

lemma same_count_give_back: "same_count s (give_back d c j k s)"
  by (simp add: same_count_def give_back_def Let_def)

lemma same_count_releaseAll: "same_count s (releaseAllCuChanClientOnDev d clientId s)"
proof -
  have chan: "same_count s (release_client_chan clientId d c j s)" for c j s
    using same_count_give_back by (simp add: release_client_chan_def Let_def same_count_def)
  have "same_count s (release_client_cu clientId d c s)" for c s
    using same_count_fold [where f = "release_client_chan clientId d c", OF chan,
        of "upd_cu d c (removeClientOnCu clientId) s" "[0..<XRM_MAX_KERNEL_CHANNELS]"]
    by (simp add: release_client_cu_def same_count_def)
  from same_count_fold [OF this] show ?thesis by (simp add: releaseAllCuChanClientOnDev_def)
qed

lemma same_count_recycle_clients: "recycle_clients clientId d s = Some s' \<Longrightarrow> same_count s s'"
proof -
  assume run: "recycle_clients clientId d s = Some s'"
  have slot: "same_count s
      (let p = dv_clientProcs (dev_at s d) ! i
       in if cl_ref p \<noteq> 0 \<and> cl_clientId p = clientId
          then upd_dev d (\<lambda>dev. dev\<lparr>dv_clientProcs := (dv_clientProcs dev)[i := client0]\<rparr>)
                 (releaseAllCuChanClientOnDev d clientId s)
          else s)" for i s
    using same_count_releaseAll [of s d clientId] by (simp add: Let_def same_count_def)
  show ?thesis
    using run same_count_fold [OF slot] same_count_releaseAll [of s d clientId]
    by (simp add: recycle_clients_def Let_def same_count_def split: if_splits) fastforce+
qed

lemma same_count_recycle_devices: "same_count s (recycle_devices clientId ds (t, s))"
proof (induction ds arbitrary: t s)
  case (Cons d ds)
  have cus: "same_count s (snd (fold (recycle_cu clientId d) cs (t, s)))" for cs t s
    by (induction cs arbitrary: t s)
      (auto simp: same_count_def recycle_cu_def split: prod.splits)
  obtain t1 s1 where 1: "fold (recycle_cu clientId d) [0..<nat (numCu (dev_at s d))] (t, s) = (t1, s1)"
    by fastforce
  show ?case
    using Cons.IH cus [where cs = "[0..<nat (numCu (dev_at s d))]" and t = t and s = s] 1
    by (auto simp: same_count_def Let_def dest!: same_count_recycle_clients split: option.split)
qed (simp add: same_count_def)

lemma recycle_client_count:
  "m_numConcurrentClient (recycleResource c s) =
     (if m_numConcurrentClient s > 0 then m_numConcurrentClient s - 1 else 0)"
  using same_count_recycle_devices [of s c "[0..<nat (m_numDevice s)]" 0]
  by (simp add: recycleResource_def decNumConcurrentClient_def same_count_def word_gt_0)

text \<open>
  A context is created and destroyed, and then its connection is closed: the client is recycled twice, and the
  count of clients ends one lower than it began.
\<close>

lemma context_counted_twice:
  assumes "m_numConcurrentClient s < m_limitConcurrentClient s"
    and "get_str (h_tree h) (par ''context'') m = Some x"
    and "get_str (h_tree h) (par ''context'') m' = Some y"
    and "get_u64 (h_tree h) (par ''clientId'') m' = Some (fst (getNewClientId s))"
    and "createContextCommand h m s = (Reply create, s1)"
    and "destroyContextCommand h m' s1 = (Reply destroy, s2)"
    and "se_clientId se = fst (getNewClientId s)"
  shows "m_numConcurrentClient s1 = m_numConcurrentClient s + 1"
    and "m_numConcurrentClient (connection_lost se s2) =
      (if m_numConcurrentClient s = 0 then 0 else m_numConcurrentClient s - 1)"
proof -
  have id: "fst (getNewClientId s) \<noteq> 0" by (rule client_id.peek_nonzero)
  show 1: "m_numConcurrentClient s1 = m_numConcurrentClient s + 1"
    using assms(1,2,5)
    by (auto simp: createContextCommand_def serve_def of_option_def incNumConcurrentClient_def getNewClientId_def Let_def)
  have pos: "m_numConcurrentClient s + 1 > 0" using assms(1) by uint_arith
  have "s2 = recycleResource (fst (getNewClientId s)) s1"
    using assms(3,4,6) id by (simp add: destroyContextCommand_def serve_def of_option_def)
  then have "m_numConcurrentClient s2 = m_numConcurrentClient s" using 1 pos by (simp add: recycle_client_count)
  then show "m_numConcurrentClient (connection_lost se s2) =
      (if m_numConcurrentClient s = 0 then 0 else m_numConcurrentClient s - 1)"
    using id assms(7) by (simp add: connection_lost_def recycle_client_count word_gt_0)
qed

end
