(* ===== verification/Xrm_Link.thy ===== *)
theory Xrm_Link
  imports Xrm_Daemon
begin

text \<open>
  One request of the client library over its socket (\<open>xrmJsonRequest\<close> in xrm.cpp): the request is written, four
  bytes with the length of the answer are read in one read, and then the answer, in as many reads as it takes.
  The answer the daemon frames reaches the client whole however the network splits it, as long as the four bytes
  come together.
\<close>

section \<open>The socket\<close>

text \<open>
  The socket is a parameter: a write succeeds or fails; a read of at most \<open>n\<close> bytes gives what has arrived, is
  interrupted, finds the connection broken, or waits forever (\<open>None\<close>).
\<close>

datatype received = Data string | Interrupted | Broken

record 'w socket =
  so_write :: "string \<Rightarrow> 'w \<Rightarrow> bool \<times> 'w"
  so_read :: "nat \<Rightarrow> 'w \<Rightarrow> (received \<times> 'w) option"

definition maxLength :: nat where "maxLength = 131072"

definition total_len :: "string \<Rightarrow> int" where
  "total_len tmp = i32 (\<Sum>i\<leftarrow>[0..<4]. of_char (tmp ! i) * 256 ^ i)"

text \<open>The first read, tried again while it is interrupted.\<close>

partial_function (option) read_header :: "'w socket \<Rightarrow> 'w \<Rightarrow> (received \<times> 'w) option" where
  "read_header S w =
     (case so_read S 4 w of
        None \<Rightarrow> None
      | Some (r, w') \<Rightarrow> if r = Interrupted then read_header S w' else Some (r, w'))"

text \<open>
  The reads of the answer, into what is left of the buffer, until as much is there as was announced: the text and
  the length of the last read.
\<close>

partial_function (option) read_body :: "'w socket \<Rightarrow> int \<Rightarrow> string \<Rightarrow> 'w \<Rightarrow> ((string \<times> nat) option \<times> 'w) option" where
  "read_body S announced jsonRsp w =
     (case so_read S (maxLength - length jsonRsp) w of
        None \<Rightarrow> None
      | Some (r, w') \<Rightarrow>
          if r = Broken then Some (None, w')
          else let bytes = (case r of Data bs \<Rightarrow> bs | _ \<Rightarrow> []); jsonRsp = jsonRsp @ bytes
               in if announced \<le> int (length jsonRsp) then Some (Some (jsonRsp, length bytes), w')
                  else read_body S announced jsonRsp w')"

definition xrmJsonRequest :: "'w socket \<Rightarrow> string \<Rightarrow> 'w \<Rightarrow> (int \<times> string \<times> 'w) option" where
  "xrmJsonRequest S jsonReq w =
     (case so_write S (c_str jsonReq) w of
        (False, w1) \<Rightarrow> Some (XRM_ERROR, [], w1)
      | (True, w1) \<Rightarrow>
          (case read_header S w1 of
             None \<Rightarrow> None
           | Some (Data tmp, w2) \<Rightarrow>
               if length tmp \<noteq> 4 then Some (XRM_ERROR, [], w2)
               else (case read_body S (total_len tmp) [] w2 of
                       None \<Rightarrow> None
                     | Some (None, w3) \<Rightarrow> Some (XRM_ERROR, [], w3)
                     | Some (Some (jsonRsp, replyLength), w3) \<Rightarrow>
                         Some (if replyLength = 0 then XRM_ERROR else XRM_SUCCESS, jsonRsp, w3))
           | Some (_, w2) \<Rightarrow> Some (XRM_ERROR, [], w2)))"

section \<open>A stream that splits\<close>

text \<open>The bytes that are under way, in the pieces in which they arrive.\<close>

definition chunk_read :: "nat \<Rightarrow> string list \<Rightarrow> (received \<times> string list) option" where
  "chunk_read n pieces =
     (case pieces of
        [] \<Rightarrow> None
      | c # cs \<Rightarrow> if length c \<le> n then Some (Data c, cs) else Some (Data (take n c), drop n c # cs))"

definition split_ok :: "(string \<Rightarrow> string list) \<Rightarrow> bool" where
  "split_ok split \<longleftrightarrow> (\<forall>b. concat (split b) = b \<and> [] \<notin> set (split b) \<and> (4 \<le> length b \<longrightarrow> 4 \<le> length (hd (split b))))"

text \<open>
  The socket of a client of the daemon: the state of its session and of the system, the bytes of the answers that
  are under way, and whether the daemon has ended. A request that arrives whole is handled, and its answer is under
  way; when an exception has ended the daemon, the reads find the connection broken.
\<close>

record wire =
  wi_state :: "session \<times> system"
  wi_pieces :: "string list"
  wi_ended :: bool

definition wire_write :: "'m host \<Rightarrow> (string \<Rightarrow> string list) \<Rightarrow> string \<Rightarrow> wire \<Rightarrow> bool \<times> wire" where
  "wire_write h split request w =
     (if wi_ended w then (False, w)
      else case handleCmd h request (wi_state w) of
             (Inr answer, st) \<Rightarrow> (True, w\<lparr>wi_state := st, wi_pieces := wi_pieces w @ split answer\<rparr>)
           | (Inl out, st) \<Rightarrow> (True, w\<lparr>wi_state := st, wi_ended := (out = Escapes)\<rparr>))"

definition wire_read :: "nat \<Rightarrow> wire \<Rightarrow> (received \<times> wire) option" where
  "wire_read n w =
     (case chunk_read n (wi_pieces w) of
        None \<Rightarrow> if wi_ended w then Some (Broken, w) else None
      | Some (r, pieces) \<Rightarrow> Some (r, w\<lparr>wi_pieces := pieces\<rparr>))"

definition daemon_socket :: "'m host \<Rightarrow> (string \<Rightarrow> string list) \<Rightarrow> wire socket" where
  "daemon_socket h split = \<lparr> so_write = wire_write h split, so_read = wire_read \<rparr>"

subsection \<open>The frame\<close>

lemma bytes_sum:
  fixes n :: nat
  assumes "n < 2147483648"
  shows "n mod 256 + n div 256 mod 256 * 256 + n div 65536 mod 256 * 65536 + n div 16777216 mod 256 * 16777216 = n"
proof -
  have d: "n div 65536 = n div 256 div 256" "n div 16777216 = n div 256 div 256 div 256"
    by (simp_all add: div_mult2_eq [symmetric])
  have "n div 256 div 256 div 256 < 256" using assms by (simp add: div_mult2_eq [symmetric] less_mult_imp_div_less)
  moreover have "256 * (n div 256) + n mod 256 = n"
    "256 * (n div 256 div 256) + n div 256 mod 256 = n div 256"
    "256 * (n div 256 div 256 div 256) + n div 256 div 256 mod 256 = n div 256 div 256"
    by (simp_all only: mult_div_mod_eq)
  ultimately show ?thesis unfolding d by (simp only: mod_less)
qed

lemma total_len_le_bytes: "n < 2147483648 \<Longrightarrow> total_len (le_bytes n) = int n"
proof -
  assume n: "n < 2147483648"
  have upt: "[0..<4] = [0, 1, 2, 3::nat]" by (simp add: upt_rec)
  have c: "(of_char (char_of k :: char) :: int) = int (k mod 256)" for k
    by (metis of_char_of of_nat_of_char)
  have "(\<Sum>i\<leftarrow>[0..<4]. of_char (le_bytes n ! i) * 256 ^ i) =
      int (n mod 256 + n div 256 mod 256 * 256 + n div 65536 mod 256 * 65536 + n div 16777216 mod 256 * 16777216)"
    unfolding upt le_bytes_def by (simp add: c del: of_nat_mod zmod_int)
  then show ?thesis using n by (simp only: total_len_def bytes_sum) (simp add: i32_id)
qed

subsection \<open>The answer arrives\<close>

lemma concat_pieces_Nil: "[] \<notin> set cs \<Longrightarrow> concat cs = [] \<Longrightarrow> cs = []"
  by (cases cs) auto

lemma read_body_pieces:
  assumes "wi_pieces w = cs" "[] \<notin> set cs" "cs \<noteq> []" "int (length buf + length (concat cs)) = announced"
    and "length buf + length (concat cs) \<le> maxLength"
  shows "\<exists>n. 0 < n \<and> read_body (daemon_socket h split) announced buf w = Some (Some (buf @ concat cs, n), w\<lparr>wi_pieces := []\<rparr>)"
  using assms
proof (induction cs arbitrary: buf w)
  case (Cons c cs)
  have fits: "length c \<le> maxLength - length buf" using Cons.prems by simp
  have step: "so_read (daemon_socket h split) (maxLength - length buf) w = Some (Data c, w\<lparr>wi_pieces := cs\<rparr>)"
    using Cons.prems fits by (simp add: daemon_socket_def wire_read_def chunk_read_def)
  show ?case
  proof (cases "cs = []")
    case True
    then show ?thesis using Cons.prems by (subst read_body.simps) (simp add: step)
  next
    case False
    then have "0 < length (concat cs)" using Cons.prems(2) concat_pieces_Nil [of cs] by force
    then have more: "\<not> announced \<le> int (length (buf @ c))" using Cons.prems(4) by (simp del: length_greater_0_conv length_concat)
    have "\<exists>n. 0 < n \<and> read_body (daemon_socket h split) announced (buf @ c) (w\<lparr>wi_pieces := cs\<rparr>) =
        Some (Some ((buf @ c) @ concat cs, n), w\<lparr>wi_pieces := cs\<rparr>\<lparr>wi_pieces := []\<rparr>)"
      by (rule Cons.IH) (use Cons.prems False in simp_all)
    then show ?thesis using more by (subst read_body.simps) (simp add: step)
  qed
qed simp

lemma split_pieces:
  assumes "split_ok split" "4 \<le> length b"
  obtains c cs where "split b = c # cs" "4 \<le> length c" "take 4 b = take 4 c"
    "drop 4 b = concat (drop 4 c # cs)" "[] \<notin> set cs"
proof -
  have ok: "concat (split b) = b" "[] \<notin> set (split b)" "4 \<le> length (hd (split b))"
    using assms by (auto simp: split_ok_def)
  then obtain c cs where "split b = c # cs" using assms(2) by (cases "split b") auto
  with ok that show thesis by fastforce
qed

text \<open>
  A request whose answer fits into the buffers is answered with the text of the answer, and nothing is left under
  way.
\<close>

lemma request_answered:
  assumes ok: "split_ok split" and idle: "wi_pieces w = []" "\<not> wi_ended w"
    and handled: "handleCmd h (c_str request) (wi_state w) = (Inr (frame stale text), st)"
    and size: "text \<noteq> []" "length text \<le> max_length - 5"
  shows "xrmJsonRequest (daemon_socket h split) request w =
    Some (XRM_SUCCESS, text, w\<lparr>wi_state := st\<rparr>)"
proof -
  have fr: "frame stale text = le_bytes (length text) @ text" using size by (simp add: frame_def)
  have len: "length (le_bytes n) = 4" for n by (simp add: le_bytes_def)
  obtain c cs where cs: "split (frame stale text) = c # cs" "4 \<le> length c" "take 4 (frame stale text) = take 4 c"
    "drop 4 (frame stale text) = concat (drop 4 c # cs)" "[] \<notin> set cs"
    using split_pieces [OF ok, of "frame stale text"] by (auto simp: fr len)
  have head: "take 4 c = le_bytes (length text)" and rest: "concat (drop 4 c # cs) = text"
    using cs(2-4) by (simp_all add: fr len min_def)
  let ?w = "w\<lparr>wi_state := st, wi_pieces := c # cs\<rparr>"
  obtain ps where ps: "ps = (if drop 4 c = [] then cs else drop 4 c # cs)" by blast
  have written: "so_write (daemon_socket h split) (c_str request) w = (True, ?w)"
    using idle handled cs(1) by (simp add: daemon_socket_def wire_write_def)
  have header: "read_header (daemon_socket h split) ?w = Some (Data (le_bytes (length text)), ?w\<lparr>wi_pieces := ps\<rparr>)"
    using cs(2) head
    by (subst read_header.simps) (auto simp: daemon_socket_def wire_read_def chunk_read_def ps)
  have n: "length text < 2147483648" using size(2) by (simp add: max_length_def)
  have pieces: "concat ps = text" "[] \<notin> set ps" "ps \<noteq> []" using rest cs(5) size(1) by (auto simp: ps)
  obtain k where k: "0 < k" "read_body (daemon_socket h split) (total_len (le_bytes (length text))) [] (?w\<lparr>wi_pieces := ps\<rparr>) =
      Some (Some (text, k), w\<lparr>wi_state := st, wi_pieces := []\<rparr>)"
    using read_body_pieces [of "?w\<lparr>wi_pieces := ps\<rparr>" ps "[]" "int (length text)" h split] pieces size
    by (auto simp: total_len_le_bytes [OF n] max_length_def maxLength_def)
  have "w\<lparr>wi_state := st, wi_pieces := []\<rparr> = w\<lparr>wi_state := st\<rparr>" using idle(1) by (cases w) simp
  then show ?thesis using k by (simp add: xrmJsonRequest_def written header len)
qed

end
