(* ===== verification/Xrm_Client.thy ===== *)
theory Xrm_Client
  imports Xrm_Link
begin

text \<open>
  The client library (xrm.cpp), version 1 of its interface: each function checks its arguments, converts the load,
  sends one request and reads the answer back into the caller's structure. Pointers that may be null are options;
  the text of a character array is what stands before its first null character. The members of the structures
  named \<open>extData\<close>, which the code never reads, are left out.
\<close>

section \<open>Structures\<close>

definition XRM_API_VERSION_1_u32 :: u32 where "XRM_API_VERSION_1_u32 = 1"
definition XRM_MAX_POOL_CU_LIST_NUM :: int where "XRM_MAX_POOL_CU_LIST_NUM = 8"

abbreviation (input) XRM_ERROR_CONNECT_FAIL :: int where "XRM_ERROR_CONNECT_FAIL \<equiv> - 21"

record xrmPrivateContext =
  xc_xrmApiVersion :: u32
  xc_xrmLogLevel :: int
  xc_xrmClientId :: u64

record xrmCuProperty =
  cp_kernelName :: string
  cp_kernelAlias :: string
  cp_devExcl :: bool
  cp_requestLoad :: int
  cp_poolId :: u64

record 'p xrmCuListProperty =
  cl_cuProps :: "'p list"
  cl_cuNum :: int
  cl_sameDevice :: bool

record xrmCuPoolProperty =
  po_cuListProp :: "xrmCuProperty xrmCuListProperty"
  po_cuListNum :: int
  po_xclbinUuid :: "u8 list"
  po_xclbinNum :: int

record xrmUdfCuProperty =
  ud_cuName :: string
  ud_devExcl :: bool
  ud_requestLoad :: int

record 'p xrmUdfCuGroupProperty =
  udg_optionUdfCuListProps :: "'p xrmCuListProperty list"
  udg_optionUdfCuListNum :: int

record xrmCuGroupProperty =
  cg_udfCuGroupName :: string
  cg_poolId :: u64

record xrmCuResource =
  cr_xclbinFileName :: string
  cr_kernelPluginFileName :: string
  cr_kernelName :: string
  cr_kernelAlias :: string
  cr_instanceName :: string
  cr_cuName :: string
  cr_uuid :: "u8 list"
  cr_deviceId :: int
  cr_cuId :: int
  cr_channelId :: int
  cr_cuType :: int
  cr_baseAddr :: u64
  cr_membankId :: u32
  cr_membankType :: u32
  cr_membankSize :: u64
  cr_membankBaseAddr :: u64
  cr_allocServiceId :: u64
  cr_channelLoad :: int
  cr_poolId :: u64

definition xrmCuResource0 :: xrmCuResource where
  "xrmCuResource0 = \<lparr> cr_xclbinFileName = [], cr_kernelPluginFileName = [], cr_kernelName = [], cr_kernelAlias = [],
     cr_instanceName = [], cr_cuName = [], cr_uuid = replicate 16 0, cr_deviceId = 0, cr_cuId = 0, cr_channelId = 0,
     cr_cuType = 0, cr_baseAddr = 0, cr_membankId = 0, cr_membankType = 0, cr_membankSize = 0,
     cr_membankBaseAddr = 0, cr_allocServiceId = 0, cr_channelLoad = 0, cr_poolId = 0 \<rparr>"

text \<open>The resources of a list, a group and a pool are arrays of different lengths.\<close>

record xrmCuListResource =
  cs_cuResources :: "xrmCuResource list"
  cs_cuNum :: int

definition xrmCuListResource0 :: "nat \<Rightarrow> xrmCuListResource" where
  "xrmCuListResource0 limit = \<lparr> cs_cuResources = replicate limit xrmCuResource0, cs_cuNum = 0 \<rparr>"

record xrmCuStat =
  ct_isBusy :: bool
  ct_usedLoad :: int

definition xrmCuStat0 :: xrmCuStat where
  "xrmCuStat0 = \<lparr> ct_isBusy = False, ct_usedLoad = 0 \<rparr>"

record xrmAllocationQueryInfo =
  ai_allocServiceId :: u64
  ai_kernelName :: string
  ai_kernelAlias :: string

record xrmPluginFuncParam =
  fp_input :: string
  fp_output :: string

section \<open>Asking the daemon\<close>

text \<open>What the library uses: the tree library, its JSON reader and writer, the socket and the process id.\<close>

record ('m, 'w) client =
  ci_tree :: "'m ptree"
  ci_read_json :: "string \<Rightarrow> 'm option"
  ci_write_json :: "'m \<Rightarrow> string"
  ci_socket :: "'w socket"
  ci_pid :: int

text \<open>
  A function returns, or an exception leaves it (the answer is no JSON, or lacks a value), or it accesses an array
  out of bounds; \<open>None\<close> stands for a call that never returns.
\<close>

datatype 'a answer = Returns 'a | Raises | Faults

type_synonym ('a, 'w) api = "'w \<Rightarrow> ('a answer \<times> 'w) option"

definition give :: "'a \<Rightarrow> ('a, 'w) api" where
  "give a w = Some (Returns a, w)"

text \<open>The context must be there and of the version of the library.\<close>

definition checked :: "'a \<Rightarrow> xrmPrivateContext option \<Rightarrow> (xrmPrivateContext \<Rightarrow> ('a, 'w) api) \<Rightarrow> ('a, 'w) api" where
  "checked bad context run =
     (case context of
        None \<Rightarrow> give bad
      | Some ctx \<Rightarrow> if xc_xrmApiVersion ctx \<noteq> XRM_API_VERSION_1_u32 then give bad else run ctx)"

definition message :: "'m ptree \<Rightarrow> string \<Rightarrow> (string \<times> string) list \<Rightarrow> 'm" where
  "message P name params =
     put_all P ([(''request.name'', name), (''request.requestId'', show_int 1)] @ params) (pt_empty P)"

definition answer_of :: "'a parsed \<Rightarrow> 'a answer" where
  "answer_of p = (case p of Throws \<Rightarrow> Raises | Overruns \<Rightarrow> Faults | Parsed a \<Rightarrow> Returns a)"

definition ask :: "('m, 'w) client \<Rightarrow> string \<Rightarrow> (string \<times> string) list \<Rightarrow> 'a \<Rightarrow> ('m \<Rightarrow> 'a parsed) \<Rightarrow> ('a, 'w) api" where
  "ask C name params lost readback w =
     (case xrmJsonRequest (ci_socket C) (ci_write_json C (message (ci_tree C) name params)) w of
        None \<Rightarrow> None
      | Some (rc, jsonRsp, w') \<Rightarrow>
          Some (if rc \<noteq> XRM_SUCCESS then Returns lost
                else case ci_read_json C (c_str jsonRsp) of
                       None \<Rightarrow> Raises
                     | Some m \<Rightarrow> answer_of (readback m), w'))"

definition status_path :: string where "status_path = ''response.status.value''"

definition read_status :: "'m ptree \<Rightarrow> 'm \<Rightarrow> int parsed" where
  "read_status P m = of_option (get_i32 P status_path m)"

text \<open>The status, and what is read when it is success.\<close>

definition read_result :: "'m ptree \<Rightarrow> 'a \<Rightarrow> ('m \<Rightarrow> 'a parsed) \<Rightarrow> 'm \<Rightarrow> (int \<times> 'a) parsed" where
  "read_result P zero readback m =
     and_then (read_status P m) (\<lambda>ret.
       if ret = XRM_SUCCESS then map_parsed (Pair ret) (readback m) else Parsed (ret, zero))"

definition read_bool :: "'m ptree \<Rightarrow> 'm \<Rightarrow> bool parsed" where
  "read_bool P m = map_parsed (\<lambda>value. value = XRM_SUCCESS) (read_status P m)"

text \<open>The number in the answer, or the status that is no success.\<close>

definition read_number :: "'m ptree \<Rightarrow> string \<Rightarrow> 'm \<Rightarrow> int parsed" where
  "read_number P key m =
     map_parsed (\<lambda>(ret, n). if ret = XRM_SUCCESS then n else ret)
       (read_result P 0 (\<lambda>m. of_option (get_i32 P (dat key) m)) m)"

definition echo_client :: "xrmPrivateContext \<Rightarrow> (string \<times> string) list" where
  "echo_client ctx = [(par ''echoClientId'', ''echo''), (par ''clientId'', show_word (xc_xrmClientId ctx))]"

definition show_pid :: "('m, 'w) client \<Rightarrow> (string \<times> string) list" where
  "show_pid C = [(par ''clientProcessId'', show_int (ci_pid C))]"

definition show_flag :: "bool \<Rightarrow> string" where
  "show_flag b = show_int (if b then 1 else 0)"

section \<open>The load\<close>

text \<open>
  The load of a request is a percentage in bits 0 to 7, or a number of millionths in bits 8 to 27; the shift and
  the masks of a signed number are the quotient and the remainders of the floor division.
\<close>

definition xrmRetrieveLoadInfo :: "int \<Rightarrow> int" where
  "xrmRetrieveLoadInfo origGranLoad =
     (let granularityOf100 = origGranLoad mod 256;
          granularityOf1000000 = origGranLoad div 256 mod 1048576
      in if granularityOf100 = 0 \<and> granularityOf1000000 = 0 then XRM_ERROR_INVALID
         else if granularityOf100 \<noteq> 0 \<and> granularityOf1000000 \<noteq> 0 then XRM_ERROR_INVALID
         else if granularityOf100 < 0 \<or> granularityOf100 > 100 then XRM_ERROR_INVALID
         else if granularityOf1000000 < 0 \<or> granularityOf1000000 > 1000000 then XRM_ERROR_INVALID
         else if granularityOf100 \<noteq> 0 then granularityOf100 * 10000
         else granularityOf1000000)"

section \<open>Contexts\<close>

text \<open>
  The message that ends a context; its answer is not looked at, and the socket is closed whatever it is.
\<close>

definition xrmDestroyContext :: "('m, 'w) client \<Rightarrow> xrmPrivateContext option \<Rightarrow> (int, 'w) api" where
  "xrmDestroyContext C context =
     (case context of
        None \<Rightarrow> give XRM_ERROR_INVALID
      | Some ctx \<Rightarrow>
          if xc_xrmApiVersion ctx \<noteq> XRM_API_VERSION_1_u32 then give XRM_ERROR
          else (\<lambda>w. case xrmJsonRequest (ci_socket C) (ci_write_json C (message (ci_tree C) ''destroyContext''
                 ([(par ''context'', ''removeContext''), (par ''echo'', ''echo''),
                   (par ''clientId'', show_word (xc_xrmClientId ctx))] @ show_pid C))) w of
                 None \<Rightarrow> None
               | Some (_, _, w') \<Rightarrow> Some (Returns XRM_SUCCESS, w')))"

definition failed_context :: "('m, 'w) client \<Rightarrow> xrmPrivateContext \<Rightarrow> (xrmPrivateContext option, 'w) api" where
  "failed_context C ctx w =
     (case xrmDestroyContext C (Some ctx) w of None \<Rightarrow> None | Some (_, w') \<Rightarrow> Some (Returns None, w'))"

text \<open>
  A context, over a socket that is connected (\<open>connected\<close> is whether it could be). The client id is first set from the answer: when there is
  none, the context that is destroyed holds what was in its memory (\<open>stale\<close>).
\<close>

definition xrmCreateContext :: "('m, 'w) client \<Rightarrow> bool \<Rightarrow> u64 \<Rightarrow> u32 \<Rightarrow> (xrmPrivateContext option, 'w) api" where
  "xrmCreateContext C connected stale xrmApiVersion w =
     (let P = ci_tree C;
          ctx = \<lparr> xc_xrmApiVersion = XRM_API_VERSION_1_u32, xc_xrmLogLevel = 3, xc_xrmClientId = stale \<rparr>
      in if xrmApiVersion \<noteq> XRM_API_VERSION_1_u32 \<or> \<not> connected then give None w
         else case xrmJsonRequest (ci_socket C) (ci_write_json C (message P ''createContext''
                     [(par ''context'', ''readContext'')])) w of
                None \<Rightarrow> None
              | Some (rc, jsonRsp, w1) \<Rightarrow>
                  if rc \<noteq> XRM_SUCCESS then failed_context C ctx w1
                  else case (do {
                         m \<leftarrow> ci_read_json C (c_str jsonRsp);
                         logLevel \<leftarrow> get_i32 P status_path m;
                         clientId \<leftarrow> get_u64 P (dat ''clientId'') m;
                         Some (ctx\<lparr>xc_xrmLogLevel := logLevel, xc_xrmClientId := clientId\<rparr>)
                       }) of
                         None \<Rightarrow> Some (Raises, w1)
                       | Some ctx \<Rightarrow>
                           if xc_xrmClientId ctx = 0 then failed_context C ctx w1
                           else case xrmJsonRequest (ci_socket C) (ci_write_json C (message P ''echoContext''
                                  ([(par ''context'', ''echoContext''), (par ''echo'', ''echo''),
                                    (par ''recordClientId'', ''recordClientId''),
                                    (par ''clientId'', show_word (xc_xrmClientId ctx))] @ show_pid C))) w1 of
                                  None \<Rightarrow> None
                                | Some (rc, _, w2) \<Rightarrow>
                                    if rc \<noteq> XRM_SUCCESS then failed_context C ctx w2
                                    else Some (Returns (Some ctx), w2))"

definition xrmIsDaemonRunning :: "('m, 'w) client \<Rightarrow> xrmPrivateContext option \<Rightarrow> (bool, 'w) api" where
  "xrmIsDaemonRunning C context =
     checked False context (\<lambda>ctx.
       ask C ''isDaemonRunning'' ((par ''echo'', ''echo'') # echo_client ctx) False (read_bool (ci_tree C)))"

section \<open>Devices\<close>

definition ask_status :: "('m, 'w) client \<Rightarrow> string \<Rightarrow> (string \<times> string) list \<Rightarrow> (int, 'w) api" where
  "ask_status C name params = ask C name params XRM_ERROR_CONNECT_FAIL (read_status (ci_tree C))"

definition ask_device :: "('m, 'w) client \<Rightarrow> string \<Rightarrow> xrmPrivateContext option \<Rightarrow> int \<Rightarrow> (int, 'w) api" where
  "ask_device C name context deviceId =
     checked XRM_ERROR_INVALID context (\<lambda>ctx.
       ask_status C name ((par ''deviceId'', show_int deviceId) # echo_client ctx))"

definition xrmEnableOneDevice :: "('m, 'w) client \<Rightarrow> xrmPrivateContext option \<Rightarrow> int \<Rightarrow> (int, 'w) api" where
  "xrmEnableOneDevice C = ask_device C ''enableOneDevice''"

definition xrmDisableOneDevice :: "('m, 'w) client \<Rightarrow> xrmPrivateContext option \<Rightarrow> int \<Rightarrow> (int, 'w) api" where
  "xrmDisableOneDevice C = ask_device C ''disableOneDevice''"

definition xrmUnloadOneDevice :: "('m, 'w) client \<Rightarrow> xrmPrivateContext option \<Rightarrow> int \<Rightarrow> (int, 'w) api" where
  "xrmUnloadOneDevice C = ask_device C ''unloadOneDevice''"

definition xrmLoadOneDevice :: "('m, 'w) client \<Rightarrow> xrmPrivateContext option \<Rightarrow> int \<Rightarrow> string option \<Rightarrow> (int, 'w) api" where
  "xrmLoadOneDevice C context deviceId xclbinFileName =
     (case xclbinFileName of
        None \<Rightarrow> give XRM_ERROR_INVALID
      | Some name \<Rightarrow>
          checked XRM_ERROR_INVALID context (\<lambda>ctx.
            if name = [] then give XRM_ERROR_INVALID
            else ask C ''loadOneDevice''
              ([(par ''deviceId'', show_int deviceId), (par ''xclbinFileName'', name)] @ echo_client ctx)
              XRM_ERROR_CONNECT_FAIL (read_number (ci_tree C) ''deviceId'')))"

section \<open>Compute units\<close>

definition no_names :: "'a xrmCuProperty_scheme \<Rightarrow> bool" where
  "no_names cuProp \<longleftrightarrow> cp_kernelName cuProp = [] \<and> cp_kernelAlias cuProp = []"

definition show_names :: "string \<Rightarrow> string \<Rightarrow> 'a xrmCuProperty_scheme \<Rightarrow> (string \<times> string) list" where
  "show_names pre sfx cuProp =
     [(pre @ ''kernelName'' @ sfx, cp_kernelName cuProp), (pre @ ''kernelAlias'' @ sfx, cp_kernelAlias cuProp)]"

definition show_loads :: "string \<Rightarrow> string \<Rightarrow> string \<Rightarrow> int \<Rightarrow> (string \<times> string) list" where
  "show_loads pre field sfx load =
     [(pre @ field @ ''Unified'' @ sfx, show_int (xrmRetrieveLoadInfo load)),
      (pre @ field @ ''Original'' @ sfx, show_int load)]"

definition show_property :: "string \<Rightarrow> string \<Rightarrow> 'a xrmCuProperty_scheme \<Rightarrow> (string \<times> string) list" where
  "show_property pre sfx cuProp =
     show_names pre sfx cuProp @ [(pre @ ''devExcl'' @ sfx, show_flag (cp_devExcl cuProp))] @
     show_loads pre ''requestLoad'' sfx (cp_requestLoad cuProp)"

definition show_pool :: "string \<Rightarrow> 'a xrmCuProperty_scheme \<Rightarrow> (string \<times> string) list" where
  "show_pool sfx cuProp = [(par ''poolId'' @ sfx, show_word (cp_poolId cuProp))]"

text \<open>
  The resource of an answer. Its first text is read before anything is written; the enumeration is kept as the
  number that was read; a list has its pool id read as a signed number of 32 bits (\<open>narrow\<close>); the answers about
  pools have no channel.
\<close>

definition read_channel :: "'m ptree \<Rightarrow> string \<Rightarrow> 'm \<Rightarrow> (xrmCuResource \<Rightarrow> xrmCuResource) option" where
  "read_channel P sfx m = do {
     channelId \<leftarrow> get_i32 P (dat ''channelId'' @ sfx) m;
     allocServiceId \<leftarrow> get_u64 P (dat ''allocServiceId'' @ sfx) m;
     channelLoad \<leftarrow> get_i32 P (dat ''channelLoadOriginal'' @ sfx) m;
     Some (\<lambda>r. r\<lparr>cr_channelId := channelId, cr_allocServiceId := allocServiceId, cr_channelLoad := channelLoad\<rparr>)
   }"

definition read_poolId :: "'m ptree \<Rightarrow> bool \<Rightarrow> string \<Rightarrow> 'm \<Rightarrow> u64 option" where
  "read_poolId P narrow sfx m =
     (if narrow then map_option word_of_int (get_i32 P (dat ''poolId'' @ sfx) m) else get_u64 P (dat ''poolId'' @ sfx) m)"

definition read_resource :: "'m ptree \<Rightarrow> bool \<Rightarrow> bool \<Rightarrow> string \<Rightarrow> 'm \<Rightarrow> (xrmCuResource \<Rightarrow> xrmCuResource) option" where
  "read_resource P channel narrow sfx m = do {
     uuidStr \<leftarrow> get_str P (dat ''uuidStr'' @ sfx) m;
     kernelPluginFileName \<leftarrow> get_str P (dat ''kernelPluginFileName'' @ sfx) m;
     kernelName \<leftarrow> get_str P (dat ''kernelName'' @ sfx) m;
     kernelAlias \<leftarrow> get_str P (dat ''kernelAlias'' @ sfx) m;
     instanceName \<leftarrow> get_str P (dat ''instanceName'' @ sfx) m;
     cuName \<leftarrow> get_str P (dat ''cuName'' @ sfx) m;
     deviceId \<leftarrow> get_i32 P (dat ''deviceId'' @ sfx) m;
     cuId \<leftarrow> get_i32 P (dat ''cuId'' @ sfx) m;
     cuType \<leftarrow> get_i32 P (dat ''cuType'' @ sfx) m;
     set_channel \<leftarrow> (if channel then read_channel P sfx m else Some (\<lambda>r. r));
     baseAddr \<leftarrow> get_u64 P (dat ''baseAddr'' @ sfx) m;
     membankId \<leftarrow> get_u32 P (dat ''membankId'' @ sfx) m;
     membankType \<leftarrow> get_u32 P (dat ''membankType'' @ sfx) m;
     membankSize \<leftarrow> get_u64 P (dat ''membankSize'' @ sfx) m;
     membankBaseAddr \<leftarrow> get_u64 P (dat ''membankBaseAddr'' @ sfx) m;
     poolId \<leftarrow> read_poolId P narrow sfx m;
     Some (\<lambda>r. set_channel (r\<lparr>cr_uuid := hexstrToBin uuidStr 32,
       cr_kernelPluginFileName := strncpy (XRM_MAX_NAME_LEN - 1) kernelPluginFileName,
       cr_kernelName := strncpy (XRM_MAX_NAME_LEN - 1) kernelName,
       cr_kernelAlias := strncpy (XRM_MAX_NAME_LEN - 1) kernelAlias,
       cr_instanceName := strncpy (XRM_MAX_NAME_LEN - 1) instanceName,
       cr_cuName := strncpy (XRM_MAX_NAME_LEN - 1) cuName,
       cr_deviceId := deviceId, cr_cuId := cuId, cr_cuType := cuType, cr_baseAddr := baseAddr,
       cr_membankId := membankId, cr_membankType := membankType, cr_membankSize := membankSize,
       cr_membankBaseAddr := membankBaseAddr, cr_poolId := poolId\<rparr>))
   }"

definition read_into_resource :: "'m ptree \<Rightarrow> bool \<Rightarrow> bool \<Rightarrow> string \<Rightarrow> 'm \<Rightarrow> (xrmCuResource \<Rightarrow> xrmCuResource parsed) option" where
  "read_into_resource P channel narrow sfx m =
     map_option (\<lambda>xclbinFileName r. map_parsed
         (\<lambda>f. f (r\<lparr>cr_xclbinFileName := strncpy (XRM_MAX_NAME_LEN - 1) xclbinFileName\<rparr>))
         (of_option (read_resource P channel narrow sfx m)))
       (get_str P (dat ''xclbinFileName'' @ sfx) m)"

definition read_one :: "'m ptree \<Rightarrow> 'm \<Rightarrow> xrmCuResource parsed" where
  "read_one P m = and_then (of_option (read_into_resource P True False [] m)) (\<lambda>f. f xrmCuResource0)"

definition read_many :: "'m ptree \<Rightarrow> bool \<Rightarrow> bool \<Rightarrow> nat \<Rightarrow> 'm \<Rightarrow> xrmCuListResource parsed" where
  "read_many P channel narrow limit m =
     and_then (of_option (get_i32 P (dat ''cuNum'') m)) (\<lambda>cuNum.
       map_parsed (\<lambda>rs. \<lparr> cs_cuResources = rs, cs_cuNum = cuNum \<rparr>)
         (read_into (\<lambda>i. read_into_resource P channel narrow (show_nat i) m) [0..<nat cuNum]
           (replicate limit xrmCuResource0)))"

text \<open>A request for one compute unit: the answer and the caller's resource.\<close>

definition ask_cu :: "('m, 'w) client \<Rightarrow> string \<Rightarrow> (string \<times> string) list \<Rightarrow> (int \<times> xrmCuResource option, 'w) api" where
  "ask_cu C name params =
     (let P = ci_tree C in
      ask C name params (XRM_ERROR_CONNECT_FAIL, Some xrmCuResource0)
        (\<lambda>m. map_parsed (\<lambda>(ret, r). (ret, Some r)) (read_result P xrmCuResource0 (read_one P) m)))"

text \<open>The checks that the allocations share; \<open>ok\<close> are those of one function.\<close>

definition alloc_checked :: "xrmPrivateContext option \<Rightarrow> 'a xrmCuProperty_scheme option \<Rightarrow> xrmCuResource option \<Rightarrow> bool \<Rightarrow>
    (xrmPrivateContext \<Rightarrow> 'a xrmCuProperty_scheme \<Rightarrow> (int \<times> xrmCuResource option, 'w) api) \<Rightarrow>
    (int \<times> xrmCuResource option, 'w) api" where
  "alloc_checked context cuProp cuRes ok run =
     (case (cuProp, cuRes) of
        (Some p, Some _) \<Rightarrow>
          checked (XRM_ERROR_INVALID, cuRes) context (\<lambda>ctx.
            if \<not> ok \<or> no_names p \<or> xrmRetrieveLoadInfo (cp_requestLoad p) < 0 then give (XRM_ERROR_INVALID, cuRes)
            else run ctx p)
      | _ \<Rightarrow> give (XRM_ERROR_INVALID, cuRes))"

definition xrmCuAlloc :: "('m, 'w) client \<Rightarrow> xrmPrivateContext option \<Rightarrow> xrmCuProperty option \<Rightarrow> xrmCuResource option \<Rightarrow>
    (int \<times> xrmCuResource option, 'w) api" where
  "xrmCuAlloc C context cuProp cuRes =
     alloc_checked context cuProp cuRes True (\<lambda>ctx p.
       ask_cu C ''cuAlloc'' (echo_client ctx @ show_pid C @ show_property (par []) [] p @ show_pool [] p))"

definition alloc_from_dev :: "string \<Rightarrow> ('m, 'w) client \<Rightarrow> xrmPrivateContext option \<Rightarrow> int \<Rightarrow> xrmCuProperty option \<Rightarrow>
    xrmCuResource option \<Rightarrow> (int \<times> xrmCuResource option, 'w) api" where
  "alloc_from_dev name C context deviceId cuProp cuRes =
     alloc_checked context cuProp cuRes (\<not> deviceId < 0) (\<lambda>ctx p.
       ask_cu C name (echo_client ctx @ show_pid C @ [(par ''deviceId'', show_int deviceId)] @
         show_property (par []) [] p @ show_pool [] p))"

definition xrmCuAllocFromDev :: "('m, 'w) client \<Rightarrow> xrmPrivateContext option \<Rightarrow> int \<Rightarrow> xrmCuProperty option \<Rightarrow>
    xrmCuResource option \<Rightarrow> (int \<times> xrmCuResource option, 'w) api" where
  "xrmCuAllocFromDev = alloc_from_dev ''cuAllocFromDev''"

definition xrmCuAllocLeastUsedFromDev :: "('m, 'w) client \<Rightarrow> xrmPrivateContext option \<Rightarrow> int \<Rightarrow> xrmCuProperty option \<Rightarrow>
    xrmCuResource option \<Rightarrow> (int \<times> xrmCuResource option, 'w) api" where
  "xrmCuAllocLeastUsedFromDev = alloc_from_dev ''cuAllocLeastUsedFromDev''"

text \<open>The allocations that may load an xclbin never name a pool.\<close>

definition alloc_with_load :: "string \<Rightarrow> ('m, 'w) client \<Rightarrow> xrmPrivateContext option \<Rightarrow> xrmCuProperty option \<Rightarrow>
    string option \<Rightarrow> xrmCuResource option \<Rightarrow> (int \<times> xrmCuResource option, 'w) api" where
  "alloc_with_load name C context cuProp xclbinFileName cuRes =
     (case xclbinFileName of
        None \<Rightarrow> give (XRM_ERROR_INVALID, cuRes)
      | Some xclbin \<Rightarrow>
          alloc_checked context cuProp cuRes (xclbin \<noteq> []) (\<lambda>ctx p.
            ask_cu C name (echo_client ctx @ show_pid C @ show_property (par []) [] p @
              [(par ''poolId'', show_int 0), (par ''xclbinFileName'', xclbin)])))"

definition xrmCuAllocWithLoad :: "('m, 'w) client \<Rightarrow> xrmPrivateContext option \<Rightarrow> xrmCuProperty option \<Rightarrow> string option \<Rightarrow>
    xrmCuResource option \<Rightarrow> (int \<times> xrmCuResource option, 'w) api" where
  "xrmCuAllocWithLoad = alloc_with_load ''cuAllocWithLoad''"

definition xrmCuAllocLeastUsedWithLoad :: "('m, 'w) client \<Rightarrow> xrmPrivateContext option \<Rightarrow> xrmCuProperty option \<Rightarrow>
    string option \<Rightarrow> xrmCuResource option \<Rightarrow> (int \<times> xrmCuResource option, 'w) api" where
  "xrmCuAllocLeastUsedWithLoad = alloc_with_load ''cuAllocLeastUsedWithLoad''"

section \<open>Lists, groups and pools of resources\<close>

definition ask_many :: "('m, 'w) client \<Rightarrow> string \<Rightarrow> (string \<times> string) list \<Rightarrow> bool \<Rightarrow> bool \<Rightarrow> nat \<Rightarrow>
    (int \<times> xrmCuListResource option, 'w) api" where
  "ask_many C name params channel narrow limit =
     (let P = ci_tree C in
      ask C name params (XRM_ERROR_CONNECT_FAIL, Some (xrmCuListResource0 limit))
        (\<lambda>m. map_parsed (\<lambda>(ret, rs). (ret, Some rs))
          (read_result P (xrmCuListResource0 limit) (read_many P channel narrow limit) m)))"

text \<open>
  The members of a request: the loop refuses a member, or leaves the array the caller gave, or collects what is
  sent.
\<close>

datatype gathered = Refused | Beyond | Gathered "(string \<times> string) list"

fun also_gather :: "gathered \<Rightarrow> (unit \<Rightarrow> gathered) \<Rightarrow> gathered" where
  "also_gather (Gathered kvs) k = (case k () of Gathered rest \<Rightarrow> Gathered (kvs @ rest) | g \<Rightarrow> g)"
| "also_gather g k = g"

fun gather :: "(nat \<Rightarrow> 'p \<Rightarrow> gathered) \<Rightarrow> 'p list \<Rightarrow> nat list \<Rightarrow> gathered" where
  "gather f ps [] = Gathered []"
| "gather f ps (i # rest) =
     (if length ps \<le> i then Beyond else also_gather (f i (ps ! i)) (\<lambda>_. gather f ps rest))"

definition send :: "'a \<Rightarrow> gathered \<Rightarrow> ((string \<times> string) list \<Rightarrow> ('a, 'w) api) \<Rightarrow> ('a, 'w) api" where
  "send refused g run w =
     (case g of Refused \<Rightarrow> give refused w | Beyond \<Rightarrow> Some (Faults, w) | Gathered kvs \<Rightarrow> run kvs w)"

definition show_member :: "string \<Rightarrow> bool \<Rightarrow> nat \<Rightarrow> 'a xrmCuProperty_scheme \<Rightarrow> gathered" where
  "show_member pre pooled_member i p =
     (if no_names p \<or> xrmRetrieveLoadInfo (cp_requestLoad p) < 0 then Refused
      else Gathered (show_property pre (show_nat i) p @ (if pooled_member then show_pool (show_nat i) p else [])))"

definition show_same :: "string \<Rightarrow> 'p xrmCuListProperty \<Rightarrow> (string \<times> string) list" where
  "show_same pre l = [(pre @ ''sameDevice'', show_flag (cl_sameDevice l))]"

definition xrmCuListAlloc :: "('m, 'w) client \<Rightarrow> xrmPrivateContext option \<Rightarrow> xrmCuProperty xrmCuListProperty option \<Rightarrow>
    xrmCuListResource option \<Rightarrow> (int \<times> xrmCuListResource option, 'w) api" where
  "xrmCuListAlloc C context cuListProp cuListRes =
     (case (cuListProp, cuListRes) of
        (Some l, Some _) \<Rightarrow>
          checked (XRM_ERROR_INVALID, cuListRes) context (\<lambda>ctx.
            let zero = Some (xrmCuListResource0 XRM_MAX_LIST_CU_NUM) in
            if cl_cuNum l \<le> 0 \<or> cl_cuNum l > int XRM_MAX_LIST_CU_NUM then give (XRM_ERROR_INVALID, zero)
            else send (XRM_ERROR_INVALID, zero)
              (gather (show_member (par []) True) (cl_cuProps l) [0..<nat (cl_cuNum l)]) (\<lambda>kvs.
                ask_many C ''cuListAlloc'' ((par ''cuNum'', show_int (cl_cuNum l)) # echo_client ctx @ show_pid C @
                  show_same (par []) l @ kvs) True True XRM_MAX_LIST_CU_NUM))
      | _ \<Rightarrow> give (XRM_ERROR_INVALID, cuListRes))"

definition show_group :: "('m, 'w) client \<Rightarrow> xrmPrivateContext \<Rightarrow> xrmCuGroupProperty \<Rightarrow> (string \<times> string) list" where
  "show_group C ctx g =
     [(par ''udfCuGroupName'', cg_udfCuGroupName g), (par ''poolId'', show_word (cg_poolId g))] @
     echo_client ctx @ show_pid C"

definition group_alloc :: "string \<Rightarrow> nat \<Rightarrow> ('m, 'w) client \<Rightarrow> xrmPrivateContext option \<Rightarrow> xrmCuGroupProperty option \<Rightarrow>
    xrmCuListResource option \<Rightarrow> (int \<times> xrmCuListResource option, 'w) api" where
  "group_alloc name limit C context cuGroupProp cuGroupRes =
     (case (cuGroupProp, cuGroupRes) of
        (Some g, Some _) \<Rightarrow>
          checked (XRM_ERROR_INVALID, cuGroupRes) context (\<lambda>ctx.
            if cg_udfCuGroupName g = [] then give (XRM_ERROR_INVALID, cuGroupRes)
            else ask_many C name (show_group C ctx g) True True limit)
      | _ \<Rightarrow> give (XRM_ERROR_INVALID, cuGroupRes))"

definition xrmCuGroupAlloc :: "('m, 'w) client \<Rightarrow> xrmPrivateContext option \<Rightarrow> xrmCuGroupProperty option \<Rightarrow>
    xrmCuListResource option \<Rightarrow> (int \<times> xrmCuListResource option, 'w) api" where
  "xrmCuGroupAlloc = group_alloc ''cuGroupAlloc'' XRM_MAX_GROUP_CU_NUM"

definition xrmLoadAndAllCuAlloc :: "('m, 'w) client \<Rightarrow> xrmPrivateContext option \<Rightarrow> string option \<Rightarrow>
    xrmCuListResource option \<Rightarrow> (int \<times> xrmCuListResource option, 'w) api" where
  "xrmLoadAndAllCuAlloc C context xclbinFileName cuListRes =
     (case (xclbinFileName, cuListRes) of
        (Some name, Some _) \<Rightarrow>
          checked (XRM_ERROR_INVALID, cuListRes) context (\<lambda>ctx.
            if name = [] then give (XRM_ERROR_INVALID, cuListRes)
            else ask_many C ''loadAndAllCuAlloc'' ((par ''xclbinFileName'', name) # echo_client ctx @ show_pid C)
              True True XRM_MAX_LIST_CU_NUM)
      | _ \<Rightarrow> give (XRM_ERROR_INVALID, cuListRes))"

section \<open>Release\<close>

text \<open>
  The release functions return \<open>bool\<close>: the error code they return for a load that is no load is not zero, and is
  \<open>true\<close>.
\<close>

definition error_as_bool :: "int \<Rightarrow> bool" where
  "error_as_bool e \<longleftrightarrow> e \<noteq> 0"

definition show_used :: "string \<Rightarrow> xrmCuResource \<Rightarrow> (string \<times> string) list" where
  "show_used sfx r =
     [(par ''deviceId'' @ sfx, show_int (cr_deviceId r)), (par ''cuId'' @ sfx, show_int (cr_cuId r)),
      (par ''channelId'' @ sfx, show_int (cr_channelId r)), (par ''cuType'' @ sfx, show_int (cr_cuType r)),
      (par ''allocServiceId'' @ sfx, show_word (cr_allocServiceId r))]"

definition show_release :: "string \<Rightarrow> xrmCuResource \<Rightarrow> (string \<times> string) list" where
  "show_release sfx r =
     show_used sfx r @ show_loads (par []) ''channelLoad'' sfx (cr_channelLoad r) @
     [(par ''poolId'' @ sfx, show_word (cr_poolId r))]"

definition ask_bool :: "('m, 'w) client \<Rightarrow> string \<Rightarrow> (string \<times> string) list \<Rightarrow> (bool, 'w) api" where
  "ask_bool C name params = ask C name params False (read_bool (ci_tree C))"

definition release_one :: "string \<Rightarrow> ('m, 'w) client \<Rightarrow> xrmPrivateContext option \<Rightarrow> xrmCuResource option \<Rightarrow> (bool, 'w) api" where
  "release_one name C context cuRes =
     (case cuRes of
        None \<Rightarrow> give False
      | Some r \<Rightarrow>
          checked False context (\<lambda>ctx.
            if xrmRetrieveLoadInfo (cr_channelLoad r) < 0 then give (error_as_bool XRM_ERROR_INVALID)
            else ask_bool C name (echo_client ctx @ show_release [] r)))"

definition xrmCuRelease :: "('m, 'w) client \<Rightarrow> xrmPrivateContext option \<Rightarrow> xrmCuResource option \<Rightarrow> (bool, 'w) api" where
  "xrmCuRelease = release_one ''cuRelease''"

definition show_released :: "nat \<Rightarrow> xrmCuResource \<Rightarrow> gathered" where
  "show_released i r =
     (if xrmRetrieveLoadInfo (cr_channelLoad r) < 0 then Refused else Gathered (show_release (show_nat i) r))"

definition release_many :: "string \<Rightarrow> nat \<Rightarrow> ('m, 'w) client \<Rightarrow> xrmPrivateContext option \<Rightarrow> xrmCuListResource option \<Rightarrow> (bool, 'w) api" where
  "release_many name limit C context cuListRes =
     (case cuListRes of
        None \<Rightarrow> give False
      | Some rs \<Rightarrow>
          checked False context (\<lambda>ctx.
            if cs_cuNum rs < 0 \<or> cs_cuNum rs > int limit \<or> cs_cuNum rs = 0 then give False
            else send (error_as_bool XRM_ERROR_INVALID)
              (gather show_released (cs_cuResources rs) [0..<nat (cs_cuNum rs)]) (\<lambda>kvs.
                ask_bool C name ((par ''cuNum'', show_int (cs_cuNum rs)) # echo_client ctx @ kvs))))"

definition xrmCuListRelease :: "('m, 'w) client \<Rightarrow> xrmPrivateContext option \<Rightarrow> xrmCuListResource option \<Rightarrow> (bool, 'w) api" where
  "xrmCuListRelease = release_many ''cuListRelease'' XRM_MAX_LIST_CU_NUM"

definition xrmCuGroupRelease :: "('m, 'w) client \<Rightarrow> xrmPrivateContext option \<Rightarrow> xrmCuListResource option \<Rightarrow> (bool, 'w) api" where
  "xrmCuGroupRelease = release_many ''cuGroupRelease'' XRM_MAX_GROUP_CU_NUM"

section \<open>User defined groups\<close>

text \<open>The number of members of an option list is not checked against the array.\<close>

definition show_udf :: "string \<Rightarrow> nat \<Rightarrow> xrmUdfCuProperty \<Rightarrow> gathered" where
  "show_udf pre i p =
     (if ud_cuName p = [] \<or> xrmRetrieveLoadInfo (ud_requestLoad p) < 0 then Refused
      else Gathered ([(pre @ ''.cuName'' @ show_nat i, ud_cuName p),
        (pre @ ''.devExcl'' @ show_nat i, show_flag (ud_devExcl p))] @
        show_loads pre ''.requestLoad'' (show_nat i) (ud_requestLoad p)))"

definition show_option :: "nat \<Rightarrow> xrmUdfCuProperty xrmCuListProperty \<Rightarrow> gathered" where
  "show_option i l =
     also_gather (Gathered (show_same (option_list i @ ''.'') l @ [(option_list i @ ''.cuNum'', show_int (cl_cuNum l))]))
       (\<lambda>_. gather (show_udf (option_list i)) (cl_cuProps l) [0..<nat (cl_cuNum l)])"

definition group_declare :: "string \<Rightarrow> (nat \<Rightarrow> 'p xrmCuListProperty \<Rightarrow> gathered) \<Rightarrow> ('m, 'w) client \<Rightarrow>
    xrmPrivateContext option \<Rightarrow> 'p xrmUdfCuGroupProperty option \<Rightarrow> string option \<Rightarrow> (int, 'w) api" where
  "group_declare request option C context udfCuGroupProp udfCuGroupName =
     (case (udfCuGroupProp, udfCuGroupName) of
        (Some g, Some name) \<Rightarrow>
          checked XRM_ERROR_INVALID context (\<lambda>ctx.
            if name = [] then give XRM_ERROR_INVALID
            else if udg_optionUdfCuListNum g \<le> 0 \<or>
                    udg_optionUdfCuListNum g > int XRM_MAX_UDF_CU_GROUP_OPTION_LIST_NUM then give XRM_ERROR_INVALID
            else send XRM_ERROR_INVALID
              (gather option (udg_optionUdfCuListProps g) [0..<nat (udg_optionUdfCuListNum g)]) (\<lambda>kvs.
                ask_status C request (echo_client ctx @ [(par ''udfCuGroupName'', name),
                  (par ''optionUdfCuListNum'', show_int (udg_optionUdfCuListNum g))] @ kvs)))
      | _ \<Rightarrow> give XRM_ERROR_INVALID)"

definition xrmUdfCuGroupDeclare :: "('m, 'w) client \<Rightarrow> xrmPrivateContext option \<Rightarrow>
    xrmUdfCuProperty xrmUdfCuGroupProperty option \<Rightarrow> string option \<Rightarrow> (int, 'w) api" where
  "xrmUdfCuGroupDeclare = group_declare ''udfCuGroupDeclare'' show_option"

definition group_undeclare :: "string \<Rightarrow> ('m, 'w) client \<Rightarrow> xrmPrivateContext option \<Rightarrow> string option \<Rightarrow> (int, 'w) api" where
  "group_undeclare request C context udfCuGroupName =
     (case udfCuGroupName of
        None \<Rightarrow> give XRM_ERROR_INVALID
      | Some name \<Rightarrow>
          checked XRM_ERROR_INVALID context (\<lambda>ctx.
            if name = [] then give XRM_ERROR_INVALID
            else ask_status C request (echo_client ctx @ [(par ''udfCuGroupName'', name)])))"

definition xrmUdfCuGroupUndeclare :: "('m, 'w) client \<Rightarrow> xrmPrivateContext option \<Rightarrow> string option \<Rightarrow> (int, 'w) api" where
  "xrmUdfCuGroupUndeclare = group_undeclare ''udfCuGroupUndeclare''"

section \<open>Queries\<close>

definition xrmCuGetMaxCapacity :: "('m, 'w) client \<Rightarrow> xrmPrivateContext option \<Rightarrow> xrmCuProperty option \<Rightarrow> (u64, 'w) api" where
  "xrmCuGetMaxCapacity C context cuProp =
     (let P = ci_tree C in
      case cuProp of
        None \<Rightarrow> give 0
      | Some p \<Rightarrow>
          checked 0 context (\<lambda>ctx.
            if no_names p then give 0
            else ask C ''cuGetMaxCapacity'' (echo_client ctx @ show_names (par []) [] p) 0
              (\<lambda>m. of_option (get_u64 P status_path m))))"

definition read_stat :: "'m ptree \<Rightarrow> 'm \<Rightarrow> xrmCuStat parsed" where
  "read_stat P m = of_option (do {
     isBusy \<leftarrow> get_i32 P (dat ''isBusy'') m;
     usedLoad \<leftarrow> get_i32 P (dat ''usedLoadOriginal'') m;
     Some \<lparr> ct_isBusy = (isBusy \<noteq> 0), ct_usedLoad = usedLoad \<rparr>
   })"

definition xrmCuCheckStatus :: "('m, 'w) client \<Rightarrow> xrmPrivateContext option \<Rightarrow> xrmCuResource option \<Rightarrow> xrmCuStat option \<Rightarrow>
    (int \<times> xrmCuStat option, 'w) api" where
  "xrmCuCheckStatus C context cuRes cuStat =
     (let P = ci_tree C in
      case (cuRes, cuStat) of
        (Some r, Some _) \<Rightarrow>
          checked (XRM_ERROR_INVALID, cuStat) context (\<lambda>ctx.
            if cr_allocServiceId r = 0 then give (XRM_ERROR_INVALID, cuStat)
            else ask C ''cuCheckStatus'' (echo_client ctx @ show_used [] r) (XRM_ERROR_CONNECT_FAIL, Some xrmCuStat0)
              (\<lambda>m. map_parsed (\<lambda>(ret, st). (ret, Some st)) (read_result P xrmCuStat0 (read_stat P) m)))
      | _ \<Rightarrow> give (XRM_ERROR_INVALID, cuStat))"

definition allocation_query :: "string \<Rightarrow> nat \<Rightarrow> ('m, 'w) client \<Rightarrow> xrmPrivateContext option \<Rightarrow> xrmAllocationQueryInfo option \<Rightarrow>
    xrmCuListResource option \<Rightarrow> (int \<times> xrmCuListResource option, 'w) api" where
  "allocation_query request limit C context allocQuery cuListRes =
     (case (allocQuery, cuListRes) of
        (Some q, Some _) \<Rightarrow>
          checked (XRM_ERROR_INVALID, cuListRes) context (\<lambda>ctx.
            if ai_allocServiceId q = 0 then give (XRM_ERROR_INVALID, cuListRes)
            else ask_many C request (echo_client ctx @ [(par ''allocServiceId'', show_word (ai_allocServiceId q)),
              (par ''kernelName'', ai_kernelName q), (par ''kernelAlias'', ai_kernelAlias q)]) True True limit)
      | _ \<Rightarrow> give (XRM_ERROR_INVALID, cuListRes))"

definition xrmAllocationQuery :: "('m, 'w) client \<Rightarrow> xrmPrivateContext option \<Rightarrow> xrmAllocationQueryInfo option \<Rightarrow>
    xrmCuListResource option \<Rightarrow> (int \<times> xrmCuListResource option, 'w) api" where
  "xrmAllocationQuery = allocation_query ''allocationQuery'' XRM_MAX_LIST_CU_NUM"

definition read_existing :: "'m ptree \<Rightarrow> string \<Rightarrow> 'm \<Rightarrow> bool parsed" where
  "read_existing P key m =
     map_parsed (\<lambda>(ret, n). ret = XRM_SUCCESS \<and> n = 1)
       (read_result P 0 (\<lambda>m. of_option (get_i32 P (dat key) m)) m)"

definition ask_existing :: "('m, 'w) client \<Rightarrow> string \<Rightarrow> (string \<times> string) list \<Rightarrow> (bool, 'w) api" where
  "ask_existing C key params = ask C key params False (read_existing (ci_tree C) key)"

definition xrmIsCuExisting :: "('m, 'w) client \<Rightarrow> xrmPrivateContext option \<Rightarrow> xrmCuProperty option \<Rightarrow> (bool, 'w) api" where
  "xrmIsCuExisting C context cuProp =
     (case cuProp of
        None \<Rightarrow> give False
      | Some p \<Rightarrow>
          checked False context (\<lambda>ctx.
            if no_names p then give False
            else ask_existing C ''isCuExisting'' (show_names (par []) [] p @ echo_client ctx)))"

definition xrmIsCuListExisting :: "('m, 'w) client \<Rightarrow> xrmPrivateContext option \<Rightarrow> xrmCuProperty xrmCuListProperty option \<Rightarrow> (bool, 'w) api" where
  "xrmIsCuListExisting C context cuListProp =
     (case cuListProp of
        None \<Rightarrow> give False
      | Some l \<Rightarrow>
          checked False context (\<lambda>ctx.
            if cl_cuNum l \<le> 0 \<or> cl_cuNum l > int XRM_MAX_LIST_CU_NUM then give False
            else send False
              (gather (\<lambda>i p. if no_names p then Refused else Gathered (show_names (par []) (show_nat i) p))
                (cl_cuProps l) [0..<nat (cl_cuNum l)]) (\<lambda>kvs.
                ask_existing C ''isCuListExisting'' ((par ''cuNum'', show_int (cl_cuNum l)) # echo_client ctx @
                  show_same (par []) l @ kvs))))"

definition xrmIsCuGroupExisting :: "('m, 'w) client \<Rightarrow> xrmPrivateContext option \<Rightarrow> xrmCuGroupProperty option \<Rightarrow> (bool, 'w) api" where
  "xrmIsCuGroupExisting C context cuGroupProp =
     (case cuGroupProp of
        None \<Rightarrow> give False
      | Some g \<Rightarrow>
          checked False context (\<lambda>ctx.
            if cg_udfCuGroupName g = [] then give False
            else ask_existing C ''isCuGroupExisting''
              ((par ''udfCuGroupName'', cg_udfCuGroupName g) # echo_client ctx)))"

section \<open>Counting\<close>

definition ask_number :: "('m, 'w) client \<Rightarrow> string \<Rightarrow> string \<Rightarrow> (string \<times> string) list \<Rightarrow> (int, 'w) api" where
  "ask_number C request key params =
     ask C request params XRM_ERROR_CONNECT_FAIL (read_number (ci_tree C) key)"

definition xrmCheckCuAvailableNum :: "('m, 'w) client \<Rightarrow> xrmPrivateContext option \<Rightarrow> xrmCuProperty option \<Rightarrow> (int, 'w) api" where
  "xrmCheckCuAvailableNum C context cuProp =
     (case cuProp of
        None \<Rightarrow> give XRM_ERROR_INVALID
      | Some p \<Rightarrow>
          checked XRM_ERROR_INVALID context (\<lambda>ctx.
            if no_names p \<or> xrmRetrieveLoadInfo (cp_requestLoad p) < 0 then give XRM_ERROR_INVALID
            else ask_number C ''checkCuAvailableNum'' ''availableCuNum''
              (show_property (par []) [] p @ echo_client ctx @ show_pid C @ show_pool [] p)))"

definition xrmCheckCuListAvailableNum :: "('m, 'w) client \<Rightarrow> xrmPrivateContext option \<Rightarrow> xrmCuProperty xrmCuListProperty option \<Rightarrow> (int, 'w) api" where
  "xrmCheckCuListAvailableNum C context cuListProp =
     (case cuListProp of
        None \<Rightarrow> give XRM_ERROR_INVALID
      | Some l \<Rightarrow>
          checked XRM_ERROR_INVALID context (\<lambda>ctx.
            if cl_cuNum l \<le> 0 \<or> cl_cuNum l > int XRM_MAX_LIST_CU_NUM then give XRM_ERROR_INVALID
            else send XRM_ERROR_INVALID
              (gather (show_member (par []) True) (cl_cuProps l) [0..<nat (cl_cuNum l)]) (\<lambda>kvs.
                ask_number C ''checkCuListAvailableNum'' ''availableListNum''
                  ((par ''cuNum'', show_int (cl_cuNum l)) # echo_client ctx @ show_pid C @ show_same (par []) l @ kvs))))"

definition group_number :: "string \<Rightarrow> ('m, 'w) client \<Rightarrow> xrmPrivateContext option \<Rightarrow> xrmCuGroupProperty option \<Rightarrow> (int, 'w) api" where
  "group_number request C context cuGroupProp =
     (case cuGroupProp of
        None \<Rightarrow> give XRM_ERROR_INVALID
      | Some g \<Rightarrow>
          checked XRM_ERROR_INVALID context (\<lambda>ctx.
            if cg_udfCuGroupName g = [] then give XRM_ERROR_INVALID
            else ask_number C request ''availableGroupNum'' (show_group C ctx g)))"

definition xrmCheckCuGroupAvailableNum :: "('m, 'w) client \<Rightarrow> xrmPrivateContext option \<Rightarrow> xrmCuGroupProperty option \<Rightarrow> (int, 'w) api" where
  "xrmCheckCuGroupAvailableNum = group_number ''checkCuGroupAvailableNum''"

section \<open>Pools\<close>

text \<open>
  The checks of a pool request. Comparing the array \<open>xclbinUuid\<close> with 0 compares its address, which is never null,
  so that this check refuses nothing.
\<close>

definition pool_refused :: "xrmCuPoolProperty \<Rightarrow> bool" where
  "pool_refused pool \<longleftrightarrow>
     po_cuListNum pool < 0 \<or> po_cuListNum pool > XRM_MAX_POOL_CU_LIST_NUM \<or> po_xclbinNum pool < 0 \<or>
     (po_cuListNum pool = 0 \<and> po_xclbinNum pool = 0) \<or>
     (po_cuListNum pool > 0 \<and>
        (cl_cuNum (po_cuListProp pool) \<le> 0 \<or> cl_cuNum (po_cuListProp pool) > int XRM_MAX_LIST_CU_NUM))"

definition gather_list :: "string \<Rightarrow> 'a xrmCuProperty_scheme xrmCuListProperty \<Rightarrow> gathered" where
  "gather_list pre l = gather (show_member pre False) (cl_cuProps l) [0..<nat (cl_cuNum l)]"

definition show_xclbin :: "u8 list \<Rightarrow> int \<Rightarrow> (string \<times> string) list" where
  "show_xclbin uuid num = [(par ''xclbinUuidStr'', binToHexstr uuid []), (par ''xclbinNum'', show_int num)]"

definition xrmCheckCuPoolAvailableNum :: "('m, 'w) client \<Rightarrow> xrmPrivateContext option \<Rightarrow> xrmCuPoolProperty option \<Rightarrow> (int, 'w) api" where
  "xrmCheckCuPoolAvailableNum C context cuPoolProp =
     (case cuPoolProp of
        None \<Rightarrow> give XRM_ERROR_INVALID
      | Some pool \<Rightarrow>
          checked XRM_ERROR_INVALID context (\<lambda>ctx.
            let l = po_cuListProp pool in
            if pool_refused pool then give XRM_ERROR_INVALID
            else send XRM_ERROR_INVALID (gather_list (par []) l) (\<lambda>kvs.
              ask_number C ''checkCuPoolAvailableNum'' ''availablePoolNum''
                ([(par ''cuListNum'', show_int (po_cuListNum pool)), (par ''cuNum'', show_int (cl_cuNum l))] @
                 echo_client ctx @ show_pid C @ show_same (par []) l @ kvs @
                 show_xclbin (po_xclbinUuid pool) (po_xclbinNum pool)))))"

text \<open>The pool id is read as a signed number; a refused request returns the error code as an unsigned pool id.\<close>

definition xrmCuPoolReserve :: "('m, 'w) client \<Rightarrow> xrmPrivateContext option \<Rightarrow> xrmCuPoolProperty option \<Rightarrow> (u64, 'w) api" where
  "xrmCuPoolReserve C context cuPoolProp =
     (let P = ci_tree C; invalid = word_of_int XRM_ERROR_INVALID in
      case cuPoolProp of
        None \<Rightarrow> give invalid
      | Some pool \<Rightarrow>
          checked invalid context (\<lambda>ctx.
            let l = po_cuListProp pool in
            if pool_refused pool then give invalid
            else send 0 (gather_list (par ''cuList.'') l) (\<lambda>kvs.
              ask C ''cuPoolReserve''
                (echo_client ctx @ show_pid C @ [(par ''cuListNum'', show_int (po_cuListNum pool)),
                   (par ''cuList.cuNum'', show_int (cl_cuNum l))] @ show_same (par ''cuList.'') l @ kvs @
                 show_xclbin (po_xclbinUuid pool) (po_xclbinNum pool)) 0
                (\<lambda>m. map_parsed (\<lambda>(ret, poolId). word_of_int poolId)
                  (read_result P 0 (\<lambda>m. of_option (get_i64 P (dat ''poolId'') m)) m)))))"

definition pool_relinquish :: "string \<Rightarrow> ('m, 'w) client \<Rightarrow> xrmPrivateContext option \<Rightarrow> u64 \<Rightarrow> (bool, 'w) api" where
  "pool_relinquish request C context poolId =
     checked False context (\<lambda>ctx.
       if poolId = 0 then give False
       else ask_bool C request ((par ''poolId'', show_word poolId) # echo_client ctx))"

definition xrmCuPoolRelinquish :: "('m, 'w) client \<Rightarrow> xrmPrivateContext option \<Rightarrow> u64 \<Rightarrow> (bool, 'w) api" where
  "xrmCuPoolRelinquish = pool_relinquish ''cuPoolRelinquish''"

definition xrmReservationQuery :: "('m, 'w) client \<Rightarrow> xrmPrivateContext option \<Rightarrow> u64 \<Rightarrow> xrmCuListResource option \<Rightarrow>
    (int \<times> xrmCuListResource option, 'w) api" where
  "xrmReservationQuery C context poolId cuPoolRes =
     (case cuPoolRes of
        None \<Rightarrow> give (XRM_ERROR_INVALID, cuPoolRes)
      | Some _ \<Rightarrow>
          checked (XRM_ERROR_INVALID, cuPoolRes) context (\<lambda>ctx.
            if poolId = 0 then give (XRM_ERROR_INVALID, cuPoolRes)
            else ask_many C ''reservationQuery'' (echo_client ctx @ [(par ''poolId'', show_word poolId)])
              False False XRM_MAX_POOL_CU_NUM))"

section \<open>Plugins\<close>

definition xrmExecPluginFunc :: "('m, 'w) client \<Rightarrow> xrmPrivateContext option \<Rightarrow> string option \<Rightarrow> u32 \<Rightarrow> xrmPluginFuncParam option \<Rightarrow>
    (int \<times> xrmPluginFuncParam option, 'w) api" where
  "xrmExecPluginFunc C context xrmPluginName funcId param =
     (let P = ci_tree C in
      case (xrmPluginName, param) of
        (Some name, Some prm) \<Rightarrow>
          checked (XRM_ERROR_INVALID, param) context (\<lambda>ctx.
            if unat funcId > XRM_MAX_PLUGIN_FUNC_ID then give (XRM_ERROR_INVALID, param)
            else ask C ''execXrmPluginFunc'' (echo_client ctx @ [(par ''xrmPluginName'', name),
                (par ''funcId'', show_word funcId), (par ''input'', fp_input prm)]) (XRM_ERROR_CONNECT_FAIL, param)
              (\<lambda>m. map_parsed (\<lambda>(ret, prm). (ret, Some prm))
                (read_result P prm (\<lambda>m. map_parsed
                  (\<lambda>out. prm\<lparr>fp_output := strncpy (XRM_MAX_PLUGIN_FUNC_PARAM_LEN - 1) out\<rparr>)
                  (of_option (get_str P (dat ''output'') m))) m)))
      | _ \<Rightarrow> give (XRM_ERROR_INVALID, param))"

section \<open>Blocking allocation\<close>

text \<open>
  The allocation is tried until it succeeds or the connection fails; any other failure, an invalid request among
  them, is tried again. The pause between two tries is not modelled.
\<close>

partial_function (option) try_alloc :: "('r \<Rightarrow> (int \<times> 'r, 'w) api) \<Rightarrow> 'r \<Rightarrow> 'w \<Rightarrow> ((int \<times> 'r) answer \<times> 'w) option" where
  "try_alloc alloc r w =
     (case alloc r w of
        None \<Rightarrow> None
      | Some (out, w') \<Rightarrow>
          (case out of
             Returns v \<Rightarrow>
               if fst v = XRM_SUCCESS \<or> fst v = XRM_ERROR_CONNECT_FAIL then Some (Returns v, w')
               else try_alloc alloc (snd v) w'
           | _ \<Rightarrow> Some (out, w')))"

definition block_alloc :: "(bool, 'w) api \<Rightarrow> ('r \<Rightarrow> (int \<times> 'r, 'w) api) \<Rightarrow> 'r \<Rightarrow> (int \<times> 'r, 'w) api" where
  "block_alloc existing alloc r w =
     (case existing w of
        None \<Rightarrow> None
      | Some (Returns ex, w') \<Rightarrow> if ex then try_alloc alloc r w' else Some (Returns (XRM_ERROR_NO_KERNEL, r), w')
      | Some (Raises, w') \<Rightarrow> Some (Raises, w')
      | Some (Faults, w') \<Rightarrow> Some (Faults, w'))"

definition xrmCuBlockingAlloc :: "('m, 'w) client \<Rightarrow> xrmPrivateContext option \<Rightarrow> xrmCuProperty option \<Rightarrow> u64 \<Rightarrow>
    xrmCuResource option \<Rightarrow> (int \<times> xrmCuResource option, 'w) api" where
  "xrmCuBlockingAlloc C context cuProp interval cuRes =
     alloc_checked context cuProp cuRes (interval \<le> 1000000) (\<lambda>ctx p.
       block_alloc (xrmIsCuExisting C context cuProp) (xrmCuAlloc C context cuProp) cuRes)"

definition xrmCuListBlockingAlloc :: "('m, 'w) client \<Rightarrow> xrmPrivateContext option \<Rightarrow> xrmCuProperty xrmCuListProperty option \<Rightarrow>
    u64 \<Rightarrow> xrmCuListResource option \<Rightarrow> (int \<times> xrmCuListResource option, 'w) api" where
  "xrmCuListBlockingAlloc C context cuListProp interval cuListRes =
     (case (cuListProp, cuListRes) of
        (Some l, Some _) \<Rightarrow>
          checked (XRM_ERROR_INVALID, cuListRes) context (\<lambda>ctx.
            if cl_cuNum l \<le> 0 \<or> cl_cuNum l > int XRM_MAX_LIST_CU_NUM \<or> interval > 1000000
            then give (XRM_ERROR_INVALID, cuListRes)
            else block_alloc (xrmIsCuListExisting C context cuListProp) (xrmCuListAlloc C context cuListProp) cuListRes)
      | _ \<Rightarrow> give (XRM_ERROR_INVALID, cuListRes))"

definition xrmCuGroupBlockingAlloc :: "('m, 'w) client \<Rightarrow> xrmPrivateContext option \<Rightarrow> xrmCuGroupProperty option \<Rightarrow> u64 \<Rightarrow>
    xrmCuListResource option \<Rightarrow> (int \<times> xrmCuListResource option, 'w) api" where
  "xrmCuGroupBlockingAlloc C context cuGroupProp interval cuGroupRes =
     (case (cuGroupProp, cuGroupRes) of
        (Some g, Some _) \<Rightarrow>
          checked (XRM_ERROR_INVALID, cuGroupRes) context (\<lambda>ctx.
            if cg_udfCuGroupName g = [] \<or> interval > 1000000 then give (XRM_ERROR_INVALID, cuGroupRes)
            else block_alloc (xrmIsCuGroupExisting C context cuGroupProp) (xrmCuGroupAlloc C context cuGroupProp) cuGroupRes)
      | _ \<Rightarrow> give (XRM_ERROR_INVALID, cuGroupRes))"

end
