(* ===== verification/Xrm_ClientV2.thy ===== *)
theory Xrm_ClientV2
  imports Xrm_Client
begin

text \<open>
  The client library (xrm.cpp), version 2 of its interface: the properties with device, memory and policy
  constraints, and the pools with a list of devices.
\<close>

section \<open>Structures\<close>

record xrmCuPropertyV2 = xrmCuProperty +
  cp2_deviceInfo :: u64
  cp2_memoryInfo :: u64
  cp2_policyInfo :: u64

text \<open>The flag of the list structure of version 1 is not there in version 2; the code reads none.\<close>

record xrmCuListPropertyV2 =
  cl2_cuProps :: "xrmCuPropertyV2 list"
  cl2_cuNum :: int

record xrmDeviceIdListPropertyV2 =
  dp_deviceIds :: "u64 list"
  dp_deviceNum :: int

record xrmCuPoolPropertyV2 =
  po2_cuListProp :: xrmCuListPropertyV2
  po2_cuListNum :: int
  po2_xclbinUuid :: "u8 list"
  po2_xclbinNum :: int
  po2_deviceIdListProp :: xrmDeviceIdListPropertyV2

record xrmUdfCuPropertyV2 = xrmUdfCuProperty +
  ud2_deviceInfo :: u64
  ud2_memoryInfo :: u64

record xrmCuListResInforV2 =
  ri_cuResInfor :: "u64 list"
  ri_cuNum :: int

record xrmCuPoolResInforV2 =
  rp_cuListResInfor :: "xrmCuListResInforV2 list"
  rp_cuListNum :: int
  rp_xclbinResInfor :: "u64 list"
  rp_xclbinNum :: int
  rp_deviceListResInfor :: xrmCuListResInforV2

definition xrmCuPoolResInforV2_0 :: xrmCuPoolResInforV2 where
  "xrmCuPoolResInforV2_0 =
     \<lparr> rp_cuListResInfor = replicate XRM_MAX_POOL_CU_LIST_NUM_V2
         \<lparr> ri_cuResInfor = replicate XRM_MAX_LIST_CU_NUM_V2 0, ri_cuNum = 0 \<rparr>,
       rp_cuListNum = 0, rp_xclbinResInfor = replicate XRM_MAX_XILINX_DEVICES 0, rp_xclbinNum = 0,
       rp_deviceListResInfor = \<lparr> ri_cuResInfor = replicate XRM_MAX_XILINX_DEVICES 0, ri_cuNum = 0 \<rparr> \<rparr>"

record xrmReservationQueryInfoV2 =
  qi_poolId :: u64
  qi_kernelName :: string
  qi_kernelAlias :: string

section \<open>Compute units\<close>

definition show_infos :: "string \<Rightarrow> string \<Rightarrow> xrmCuPropertyV2 \<Rightarrow> (string \<times> string) list" where
  "show_infos pre sfx p =
     [(pre @ ''deviceInfo'' @ sfx, show_word (cp2_deviceInfo p)),
      (pre @ ''memoryInfo'' @ sfx, show_word (cp2_memoryInfo p)),
      (pre @ ''policyInfo'' @ sfx, show_word (cp2_policyInfo p))]"

definition show_propertyV2 :: "string \<Rightarrow> string \<Rightarrow> xrmCuPropertyV2 \<Rightarrow> (string \<times> string) list" where
  "show_propertyV2 pre sfx p =
     show_names pre sfx p @ [(pre @ ''devExcl'' @ sfx, show_flag (cp_devExcl p))] @ show_infos pre sfx p @
     show_loads pre ''requestLoad'' sfx (cp_requestLoad p)"

definition xrmCuAllocV2 :: "('m, 'w) client \<Rightarrow> xrmPrivateContext option \<Rightarrow> xrmCuPropertyV2 option \<Rightarrow> xrmCuResource option \<Rightarrow>
    (int \<times> xrmCuResource option, 'w) api" where
  "xrmCuAllocV2 C context cuProp cuRes =
     alloc_checked context cuProp cuRes True (\<lambda>ctx p.
       ask_cu C ''cuAllocV2'' (echo_client ctx @ show_pid C @ show_propertyV2 (par []) [] p @ show_pool [] p))"

definition xrmCuReleaseV2 :: "('m, 'w) client \<Rightarrow> xrmPrivateContext option \<Rightarrow> xrmCuResource option \<Rightarrow> (bool, 'w) api" where
  "xrmCuReleaseV2 = release_one ''cuReleaseV2''"

definition xrmCheckCuAvailableNumV2 :: "('m, 'w) client \<Rightarrow> xrmPrivateContext option \<Rightarrow> xrmCuPropertyV2 option \<Rightarrow> (int, 'w) api" where
  "xrmCheckCuAvailableNumV2 C context cuProp =
     (case cuProp of
        None \<Rightarrow> give XRM_ERROR_INVALID
      | Some p \<Rightarrow>
          checked XRM_ERROR_INVALID context (\<lambda>ctx.
            if no_names p \<or> xrmRetrieveLoadInfo (cp_requestLoad p) < 0 then give XRM_ERROR_INVALID
            else ask_number C ''checkCuAvailableNumV2'' ''availableCuNum''
              (show_propertyV2 (par []) [] p @ echo_client ctx @ show_pid C @ show_pool [] p)))"

section \<open>Lists\<close>

definition member_ok :: "'a xrmCuProperty_scheme \<Rightarrow> bool" where
  "member_ok p \<longleftrightarrow> \<not> no_names p \<and> \<not> xrmRetrieveLoadInfo (cp_requestLoad p) < 0"

definition show_memberV2 :: "string \<Rightarrow> bool \<Rightarrow> nat \<Rightarrow> xrmCuPropertyV2 \<Rightarrow> gathered" where
  "show_memberV2 pre pooled_member i p =
     (if \<not> member_ok p then Refused
      else Gathered (show_propertyV2 pre (show_nat i) p @ (if pooled_member then show_pool (show_nat i) p else [])))"

text \<open>
  A list has no policy of its members: the loop clears the policy of each member it accepts, in the caller's
  structure.
\<close>

definition clear_policy :: "xrmCuPropertyV2 \<Rightarrow> xrmCuPropertyV2" where
  "clear_policy p = p\<lparr>cp2_policyInfo := 0\<rparr>"

fun clear_policies :: "nat list \<Rightarrow> xrmCuPropertyV2 list \<Rightarrow> xrmCuPropertyV2 list" where
  "clear_policies [] ps = ps"
| "clear_policies (i # rest) ps =
     (if i < length ps \<and> member_ok (ps ! i) then clear_policies rest (ps[i := clear_policy (ps ! i)]) else ps)"

text \<open>The result also has the list property as the call leaves it.\<close>

definition xrmCuListAllocV2 :: "('m, 'w) client \<Rightarrow> xrmPrivateContext option \<Rightarrow> xrmCuListPropertyV2 option \<Rightarrow>
    xrmCuListResource option \<Rightarrow> ((int \<times> xrmCuListResource option) \<times> xrmCuListPropertyV2 option, 'w) api" where
  "xrmCuListAllocV2 C context cuListProp cuListRes =
     (case (cuListProp, cuListRes) of
        (Some l, Some _) \<Rightarrow>
          checked ((XRM_ERROR_INVALID, cuListRes), cuListProp) context (\<lambda>ctx.
            let zero = Some (xrmCuListResource0 XRM_MAX_LIST_CU_NUM_V2); members = [0..<nat (cl2_cuNum l)] in
            if cl2_cuNum l \<le> 0 \<or> cl2_cuNum l > int XRM_MAX_LIST_CU_NUM_V2
            then give ((XRM_ERROR_INVALID, zero), cuListProp)
            else let l' = Some (l\<lparr>cl2_cuProps := clear_policies members (cl2_cuProps l)\<rparr>) in
              send ((XRM_ERROR_INVALID, zero), l')
                (gather (\<lambda>i p. show_memberV2 (par []) True i (clear_policy p)) (cl2_cuProps l) members) (\<lambda>kvs.
                ask C ''cuListAllocV2'' ((par ''cuNum'', show_int (cl2_cuNum l)) # echo_client ctx @ show_pid C @ kvs)
                  ((XRM_ERROR_CONNECT_FAIL, zero), l')
                  (\<lambda>m. map_parsed (\<lambda>(ret, rs). ((ret, Some rs), l'))
                    (read_result (ci_tree C) (xrmCuListResource0 XRM_MAX_LIST_CU_NUM_V2)
                      (read_many (ci_tree C) True True XRM_MAX_LIST_CU_NUM_V2) m))))
      | _ \<Rightarrow> give ((XRM_ERROR_INVALID, cuListRes), cuListProp))"

definition xrmCuListReleaseV2 :: "('m, 'w) client \<Rightarrow> xrmPrivateContext option \<Rightarrow> xrmCuListResource option \<Rightarrow> (bool, 'w) api" where
  "xrmCuListReleaseV2 = release_many ''cuListReleaseV2'' XRM_MAX_LIST_CU_NUM_V2"

definition xrmCheckCuListAvailableNumV2 :: "('m, 'w) client \<Rightarrow> xrmPrivateContext option \<Rightarrow> xrmCuListPropertyV2 option \<Rightarrow> (int, 'w) api" where
  "xrmCheckCuListAvailableNumV2 C context cuListProp =
     (case cuListProp of
        None \<Rightarrow> give XRM_ERROR_INVALID
      | Some l \<Rightarrow>
          checked XRM_ERROR_INVALID context (\<lambda>ctx.
            if cl2_cuNum l \<le> 0 \<or> cl2_cuNum l > int XRM_MAX_LIST_CU_NUM_V2 then give XRM_ERROR_INVALID
            else send XRM_ERROR_INVALID
              (gather (show_memberV2 (par []) True) (cl2_cuProps l) [0..<nat (cl2_cuNum l)]) (\<lambda>kvs.
                ask_number C ''checkCuListAvailableNumV2'' ''availableListNum''
                  ((par ''cuNum'', show_int (cl2_cuNum l)) # echo_client ctx @ show_pid C @ kvs))))"

section \<open>Groups\<close>

definition show_udfV2 :: "string \<Rightarrow> nat \<Rightarrow> xrmUdfCuPropertyV2 \<Rightarrow> gathered" where
  "show_udfV2 pre i p =
     (if ud_cuName p = [] \<or> xrmRetrieveLoadInfo (ud_requestLoad p) < 0 then Refused
      else Gathered ([(pre @ ''.cuName'' @ show_nat i, ud_cuName p),
        (pre @ ''.devExcl'' @ show_nat i, show_flag (ud_devExcl p)),
        (pre @ ''.deviceInfo'' @ show_nat i, show_word (ud2_deviceInfo p)),
        (pre @ ''.memoryInfo'' @ show_nat i, show_word (ud2_memoryInfo p))] @
        show_loads pre ''.requestLoad'' (show_nat i) (ud_requestLoad p)))"

definition show_optionV2 :: "nat \<Rightarrow> xrmUdfCuPropertyV2 xrmCuListProperty \<Rightarrow> gathered" where
  "show_optionV2 i l =
     also_gather (Gathered [(option_list i @ ''.cuNum'', show_int (cl_cuNum l))])
       (\<lambda>_. gather (show_udfV2 (option_list i)) (cl_cuProps l) [0..<nat (cl_cuNum l)])"

definition xrmUdfCuGroupDeclareV2 :: "('m, 'w) client \<Rightarrow> xrmPrivateContext option \<Rightarrow>
    xrmUdfCuPropertyV2 xrmUdfCuGroupProperty option \<Rightarrow> string option \<Rightarrow> (int, 'w) api" where
  "xrmUdfCuGroupDeclareV2 = group_declare ''udfCuGroupDeclareV2'' show_optionV2"

definition xrmUdfCuGroupUndeclareV2 :: "('m, 'w) client \<Rightarrow> xrmPrivateContext option \<Rightarrow> string option \<Rightarrow> (int, 'w) api" where
  "xrmUdfCuGroupUndeclareV2 = group_undeclare ''udfCuGroupUndeclareV2''"

definition xrmCuGroupAllocV2 :: "('m, 'w) client \<Rightarrow> xrmPrivateContext option \<Rightarrow> xrmCuGroupProperty option \<Rightarrow>
    xrmCuListResource option \<Rightarrow> (int \<times> xrmCuListResource option, 'w) api" where
  "xrmCuGroupAllocV2 = group_alloc ''cuGroupAllocV2'' XRM_MAX_GROUP_CU_NUM_V2"

definition xrmCuGroupReleaseV2 :: "('m, 'w) client \<Rightarrow> xrmPrivateContext option \<Rightarrow> xrmCuListResource option \<Rightarrow> (bool, 'w) api" where
  "xrmCuGroupReleaseV2 = release_many ''cuGroupReleaseV2'' XRM_MAX_GROUP_CU_NUM_V2"

definition xrmAllocationQueryV2 :: "('m, 'w) client \<Rightarrow> xrmPrivateContext option \<Rightarrow> xrmAllocationQueryInfo option \<Rightarrow>
    xrmCuListResource option \<Rightarrow> (int \<times> xrmCuListResource option, 'w) api" where
  "xrmAllocationQueryV2 = allocation_query ''allocationQueryV2'' XRM_MAX_LIST_CU_NUM_V2"

definition xrmCheckCuGroupAvailableNumV2 :: "('m, 'w) client \<Rightarrow> xrmPrivateContext option \<Rightarrow> xrmCuGroupProperty option \<Rightarrow> (int, 'w) api" where
  "xrmCheckCuGroupAvailableNumV2 = group_number ''checkCuGroupAvailableNumV2''"

section \<open>Pools\<close>

definition pool_refusedV2 :: "xrmCuPoolPropertyV2 \<Rightarrow> bool" where
  "pool_refusedV2 pool \<longleftrightarrow>
     (let deviceNum = dp_deviceNum (po2_deviceIdListProp pool); cuNum = cl2_cuNum (po2_cuListProp pool) in
      po2_cuListNum pool < 0 \<or> po2_cuListNum pool > int XRM_MAX_POOL_CU_LIST_NUM_V2 \<or> po2_xclbinNum pool < 0 \<or>
      deviceNum < 0 \<or> deviceNum > int XRM_MAX_XILINX_DEVICES \<or>
      (po2_cuListNum pool = 0 \<and> po2_xclbinNum pool = 0 \<and> deviceNum = 0) \<or>
      (po2_cuListNum pool > 0 \<and> (cuNum \<le> 0 \<or> cuNum > int XRM_MAX_LIST_CU_NUM_V2)))"

definition gather_pool :: "string \<Rightarrow> xrmCuPoolPropertyV2 \<Rightarrow> gathered" where
  "gather_pool pre pool =
     (let l = po2_cuListProp pool; d = po2_deviceIdListProp pool in
      also_gather (gather (show_memberV2 pre False) (cl2_cuProps l) [0..<nat (cl2_cuNum l)]) (\<lambda>_.
        gather (\<lambda>i deviceId. Gathered [(par ''deviceIdList.deviceIds'' @ show_nat i, show_word deviceId)])
          (dp_deviceIds d) [0..<nat (dp_deviceNum d)]))"

definition show_numbers :: "xrmCuPoolPropertyV2 \<Rightarrow> (string \<times> string) list" where
  "show_numbers pool =
     [(par ''cuListNum'', show_int (po2_cuListNum pool)),
      (par ''cuList.cuNum'', show_int (cl2_cuNum (po2_cuListProp pool))),
      (par ''deviceIdList.deviceNum'', show_int (dp_deviceNum (po2_deviceIdListProp pool)))]"

definition xrmCheckCuPoolAvailableNumV2 :: "('m, 'w) client \<Rightarrow> xrmPrivateContext option \<Rightarrow> xrmCuPoolPropertyV2 option \<Rightarrow> (int, 'w) api" where
  "xrmCheckCuPoolAvailableNumV2 C context cuPoolProp =
     (case cuPoolProp of
        None \<Rightarrow> give XRM_ERROR_INVALID
      | Some pool \<Rightarrow>
          checked XRM_ERROR_INVALID context (\<lambda>ctx.
            if pool_refusedV2 pool then give XRM_ERROR_INVALID
            else send XRM_ERROR_INVALID (gather_pool (par []) pool) (\<lambda>kvs.
              ask_number C ''checkCuPoolAvailableNumV2'' ''availablePoolNum''
                (show_numbers pool @ echo_client ctx @ show_pid C @ kvs @
                 show_xclbin (po2_xclbinUuid pool) (po2_xclbinNum pool)))))"

text \<open>
  The answer of a reservation: the device of each member of each list and of each xclbin; the devices that were
  asked for come back from the request.
\<close>

definition read_ids :: "'m ptree \<Rightarrow> string \<Rightarrow> 'm \<Rightarrow> int \<Rightarrow> u64 list \<Rightarrow> u64 list parsed" where
  "read_ids P pre m num ids =
     read_into (\<lambda>j. map_option (\<lambda>deviceId _. Parsed deviceId) (get_u64 P (pre @ show_nat j) m)) [0..<nat num] ids"

definition read_reserved :: "'m ptree \<Rightarrow> xrmDeviceIdListPropertyV2 \<Rightarrow> 'm \<Rightarrow> (u64 \<times> xrmCuPoolResInforV2) parsed" where
  "read_reserved P d m =
     and_then (of_option (do {
       poolId \<leftarrow> get_i64 P (dat ''poolId'') m;
       cuListNum \<leftarrow> get_i32 P (dat ''cuListNum'') m;
       Some (word_of_int poolId, cuListNum)
     })) (\<lambda>(poolId, cuListNum).
       and_then (read_into (\<lambda>i. map_option (\<lambda>cuNum l. map_parsed (\<lambda>ids. \<lparr> ri_cuResInfor = ids, ri_cuNum = cuNum \<rparr>)
             (read_ids P (dat ''cuList.deviceId'' @ show_nat i) m cuNum (ri_cuResInfor l)))
           (get_i32 P (dat ''cuList.cuNum'' @ show_nat i) m)) [0..<nat cuListNum]
           (rp_cuListResInfor xrmCuPoolResInforV2_0)) (\<lambda>lists.
         and_then (of_option (get_i32 P (dat ''xclbinNum'') m)) (\<lambda>xclbinNum.
           and_then (read_ids P (dat ''xclbin.deviceId'') m xclbinNum (rp_xclbinResInfor xrmCuPoolResInforV2_0)) (\<lambda>ids.
             Parsed (poolId, \<lparr> rp_cuListResInfor = lists, rp_cuListNum = cuListNum, rp_xclbinResInfor = ids,
               rp_xclbinNum = xclbinNum,
               rp_deviceListResInfor = \<lparr> ri_cuResInfor = take (nat (dp_deviceNum d)) (dp_deviceIds d) @
                   drop (nat (dp_deviceNum d)) (ri_cuResInfor (rp_deviceListResInfor xrmCuPoolResInforV2_0)),
                 ri_cuNum = dp_deviceNum d \<rparr> \<rparr>)))))"

definition xrmCuPoolReserveV2 :: "('m, 'w) client \<Rightarrow> xrmPrivateContext option \<Rightarrow> xrmCuPoolPropertyV2 option \<Rightarrow>
    xrmCuPoolResInforV2 option \<Rightarrow> (u64 \<times> xrmCuPoolResInforV2 option, 'w) api" where
  "xrmCuPoolReserveV2 C context cuPoolProp cuPoolResInfor =
     (let P = ci_tree C; invalid = (word_of_int XRM_ERROR_INVALID, cuPoolResInfor) in
      case (cuPoolProp, cuPoolResInfor) of
        (Some pool, Some _) \<Rightarrow>
          checked invalid context (\<lambda>ctx.
            if pool_refusedV2 pool then give invalid
            else send (0, Some xrmCuPoolResInforV2_0) (gather_pool (par ''cuList.'') pool) (\<lambda>kvs.
              ask C ''cuPoolReserveV2''
                (echo_client ctx @ show_pid C @ show_numbers pool @ kvs @
                 show_xclbin (po2_xclbinUuid pool) (po2_xclbinNum pool)) (0, Some xrmCuPoolResInforV2_0)
                (\<lambda>m. map_parsed (\<lambda>(ret, poolId, infor). (poolId, Some infor))
                  (read_result P (0, xrmCuPoolResInforV2_0) (read_reserved P (po2_deviceIdListProp pool)) m))))
      | _ \<Rightarrow> give invalid)"

definition xrmCuPoolRelinquishV2 :: "('m, 'w) client \<Rightarrow> xrmPrivateContext option \<Rightarrow> u64 \<Rightarrow> (bool, 'w) api" where
  "xrmCuPoolRelinquishV2 = pool_relinquish ''cuPoolRelinquishV2''"

definition xrmReservationQueryV2 :: "('m, 'w) client \<Rightarrow> xrmPrivateContext option \<Rightarrow> xrmReservationQueryInfoV2 option \<Rightarrow>
    xrmCuListResource option \<Rightarrow> (int \<times> xrmCuListResource option, 'w) api" where
  "xrmReservationQueryV2 C context reserveQueryInfo cuPoolRes =
     (case (reserveQueryInfo, cuPoolRes) of
        (Some q, Some _) \<Rightarrow>
          checked (XRM_ERROR_INVALID, cuPoolRes) context (\<lambda>ctx.
            if qi_poolId q = 0 then give (XRM_ERROR_INVALID, cuPoolRes)
            else ask_many C ''reservationQueryV2'' (echo_client ctx @ [(par ''kernelName'', qi_kernelName q),
              (par ''kernelAlias'', qi_kernelAlias q), (par ''poolId'', show_word (qi_poolId q))])
              False False XRM_MAX_POOL_CU_NUM_V2)
      | _ \<Rightarrow> give (XRM_ERROR_INVALID, cuPoolRes))"

end
