(* ===== verification/Xrm_Client_Link.thy ===== *)
theory Xrm_Client_Link
  imports Xrm_Client Xrm_Daemon_Inv
begin

text \<open>
  The allocation of a compute unit from end to end: the call of the client library, the request over the socket, the
  session of the daemon, the handler, the operation, and the answer back into the caller's resource. What the client
  gets is what the operation of the daemon returns on the property the client described.
\<close>

section \<open>The paths of the messages\<close>

definition dots :: "string \<Rightarrow> nat" where
  "dots p = length (filter (\<lambda>c. c = CHR ''.'') p)"

lemma dots_simps [simp]: "dots [] = 0" "dots (c # p) = (if c = CHR ''.'' then Suc (dots p) else dots p)"
  "dots (p @ q) = dots p + dots q"
  by (simp_all add: dots_def)

lemma extends_dots: "extends p q \<Longrightarrow> dots q < dots p \<or> q = p @ ''.''"
  unfolding extends_def
proof (elim disjE)
  assume t: "take (length q + 1) p = q @ ''.''"
  have "p = (q @ ''.'') @ drop (length q + 1) p" using append_take_drop_id [of "length q + 1" p] unfolding t by (rule sym)
  then have "dots p = dots ((q @ ''.'') @ drop (length q + 1) p)" by (rule arg_cong)
  then have "dots q < dots p" by simp
  then show ?thesis ..
qed (rule disjI2)

text \<open>Paths with the same number of dots, none at the end, do not extend one another.\<close>

definition closed_path :: "string \<Rightarrow> bool" where
  "closed_path p \<longleftrightarrow> p \<noteq> [] \<and> last p \<noteq> CHR ''.''"

lemma flat_dots:
  assumes "\<forall>p\<in>K. dots p = n \<and> closed_path p"
  shows "flat_paths K"
  unfolding flat_paths_def
proof (intro ballI notI)
  fix p q assume "p \<in> K" "q \<in> K" "extends p q"
  with assms extends_dots [of p q] show False by (auto simp: closed_path_def)
qed

lemma flat_union:
  assumes "flat_paths A" "flat_paths B" "\<And>p q. p \<in> A \<Longrightarrow> q \<in> B \<Longrightarrow> \<not> extends p q \<and> \<not> extends q p"
  shows "flat_paths (A \<union> B)"
  using assms unfolding flat_paths_def by blast

lemma par_eq [simp]: "par k = par k' \<longleftrightarrow> k = k'" "par [] @ k = par k" "dots (par k) = 2 + dots k"
  "closed_path (par k) \<longleftrightarrow> k \<noteq> [] \<and> last k \<noteq> CHR ''.''"
  by (auto simp: par_def closed_path_def last_append)

lemma dat_eq [simp]: "dat k = dat k' \<longleftrightarrow> k = k'" "dots (dat k) = 2 + dots k"
  "closed_path (dat k) \<longleftrightarrow> k \<noteq> [] \<and> last k \<noteq> CHR ''.''"
  by (auto simp: dat_def closed_path_def last_append)

lemma head_not_par [simp]: "par k \<noteq> ''request.name''" "par k \<noteq> ''request.requestId''"
  "''request.name'' \<noteq> par k" "''request.requestId'' \<noteq> par k"
  by (simp_all add: par_def)

lemma status_not_dat [simp]: "dat k \<noteq> ''response.status.value''" "''response.status.value'' \<noteq> dat k"
  by (simp_all add: dat_def)

section \<open>Reading a message\<close>

text \<open>The message of a request holds its head and its parameters.\<close>

definition plain_keys :: "string list \<Rightarrow> bool" where
  "plain_keys ks \<longleftrightarrow> distinct ks \<and> (\<forall>k\<in>set ks. k \<noteq> [] \<and> CHR ''.'' \<notin> set k)"

lemma plain_key: "plain_keys ks \<Longrightarrow> k \<in> set ks \<Longrightarrow> dots k = 0 \<and> k \<noteq> [] \<and> last k \<noteq> CHR ''.''"
  by (auto simp: plain_keys_def dots_def filter_empty_conv) (metis last_in_set)

lemma message_flat:
  assumes "plain_keys (map fst kvs)"
  shows "distinct (map fst ([(''request.name'', name), (''request.requestId'', show_int 1)] @ map (\<lambda>(k, v). (par k, v)) kvs))"
    "flat_paths (fst ` set ([(''request.name'', name), (''request.requestId'', show_int 1)] @ map (\<lambda>(k, v). (par k, v)) kvs))"
proof -
  let ?K = "par ` fst ` set kvs" and ?H = "{''request.name'', ''request.requestId''}"
  have m: "map fst (map (\<lambda>(k, v). (par k, v)) kvs) = map par (map fst kvs)" by (simp add: split_beta)
  show "distinct (map fst ([(''request.name'', name), (''request.requestId'', show_int 1)] @ map (\<lambda>(k, v). (par k, v)) kvs))"
    unfolding map_append m using assms by (auto simp: plain_keys_def distinct_map inj_on_def)
  have a: "flat_paths ?K"
    by (rule flat_dots [of _ 2]) (use plain_key [OF assms] in auto)
  have b: "flat_paths ?H" by (rule flat_dots [of _ 1]) (simp add: closed_path_def)
  have c: "\<not> extends p q \<and> \<not> extends q p" if p: "p \<in> ?H" and q: "q \<in> ?K" for p q
  proof -
    obtain k where k: "q = par k" "dots q = 2" "last q \<noteq> CHR ''.''" using q plain_key [OF assms] by (force simp: par_def last_append)
    have "\<not> extends q p" using p k by (auto simp: extends_def par_def)
    moreover have "\<not> extends p q" using extends_dots [of p q] p k by auto
    ultimately show ?thesis by blast
  qed
  have "flat_paths (?H \<union> ?K)" by (rule flat_union [OF b a]) (rule c)
  moreover have "fst ` set ([(''request.name'', name), (''request.requestId'', show_int 1)] @ map (\<lambda>(k, v). (par k, v)) kvs) = ?H \<union> ?K"
    by (auto simp: image_image split_beta)
  ultimately show "flat_paths (fst ` set ([(''request.name'', name), (''request.requestId'', show_int 1)] @ map (\<lambda>(k, v). (par k, v)) kvs))"
    by (simp only:)
qed

text \<open>A parameter of a request is there under its name, and no other parameter.\<close>

lemma message_lookup:
  "map_of (map (\<lambda>(k, v). (par k, v)) kvs) (par k) = map_of kvs k"
  by (induction kvs) auto

lemma message_keys:
  "fst ` set ([(''request.name'', name), (''request.requestId'', r)] @ map (\<lambda>(k, v). (par k, v)) kvs) =
   {''request.name'', ''request.requestId''} \<union> par ` set (map fst kvs)"
  by (auto simp: image_image split_beta)

lemma message_get:
  assumes ok: "ptree_ok P" and plain: "plain_keys (map fst kvs)"
  shows "map_of kvs k = Some v \<Longrightarrow> pt_get P (par k) (message P name (map (\<lambda>(k, v). (par k, v)) kvs)) = Some v"
    "pt_get P ''request.name'' (message P name (map (\<lambda>(k, v). (par k, v)) kvs)) = Some name"
    "pt_get P ''request.requestId'' (message P name (map (\<lambda>(k, v). (par k, v)) kvs)) = Some (show_int 1)"
    "k \<notin> set (map fst kvs) \<Longrightarrow> k \<noteq> [] \<Longrightarrow> CHR ''.'' \<notin> set k \<Longrightarrow>
      pt_get P (par k) (message P name (map (\<lambda>(k, v). (par k, v)) kvs)) = None"
proof -
  note get = get_put_all [OF ok message_flat [OF plain]]
  show "map_of kvs k = Some v \<Longrightarrow> pt_get P (par k) (message P name (map (\<lambda>(k, v). (par k, v)) kvs)) = Some v"
    unfolding message_def by (rule get) (simp add: message_lookup)
  show "pt_get P ''request.name'' (message P name (map (\<lambda>(k, v). (par k, v)) kvs)) = Some name"
    unfolding message_def by (rule get) simp
  show "pt_get P ''request.requestId'' (message P name (map (\<lambda>(k, v). (par k, v)) kvs)) = Some (show_int 1)"
    unfolding message_def by (rule get) simp
  assume k: "k \<notin> set (map fst kvs)" "k \<noteq> []" "CHR ''.'' \<notin> set k"
  have kk: "dots (par k) = 2" "closed_path (par k)" using plain_key [of "[k]" k] k by (simp_all add: plain_keys_def)
  let ?K = "{''request.name'', ''request.requestId''} \<union> par ` set (map fst kvs)"
  have other: "\<not> extends p (par k)" if p: "p \<in> ?K" for p
  proof
    assume e: "extends p (par k)"
    have "dots p \<le> 2" using p plain_key [OF plain] by (elim UnE insertE imageE emptyE) simp_all
    with extends_dots [OF e] kk show False by (auto simp: closed_path_def)
  qed
  have new: "par k \<notin> ?K" using k(1) by (simp add: image_iff del: set_map)
  have "pt_get P (par k) (message P name (map (\<lambda>(k, v). (par k, v)) kvs)) = pt_get P (par k) (pt_empty P)"
    unfolding message_def by (rule get_put_other [OF ok]; unfold message_keys) (use other new in blast)+
  then show "pt_get P (par k) (message P name (map (\<lambda>(k, v). (par k, v)) kvs)) = None"
    using ok kk(2) by (simp add: ptree_ok_def closed_path_def)
qed

section \<open>The request for one compute unit\<close>

definition cuAlloc_params :: "xrmPrivateContext \<Rightarrow> int \<Rightarrow> xrmCuProperty \<Rightarrow> (string \<times> string) list" where
  "cuAlloc_params ctx pid p =
     [(''echoClientId'', ''echo''), (''clientId'', show_word (xc_xrmClientId ctx)), (''clientProcessId'', show_int pid),
      (''kernelName'', cp_kernelName p), (''kernelAlias'', cp_kernelAlias p), (''devExcl'', show_flag (cp_devExcl p)),
      (''requestLoadUnified'', show_int (xrmRetrieveLoadInfo (cp_requestLoad p))),
      (''requestLoadOriginal'', show_int (cp_requestLoad p)), (''poolId'', show_word (cp_poolId p))]"

definition cuAlloc_message :: "('m, 'w) client \<Rightarrow> xrmPrivateContext \<Rightarrow> xrmCuProperty \<Rightarrow> 'm" where
  "cuAlloc_message C ctx p =
     message (ci_tree C) ''cuAlloc'' (echo_client ctx @ show_pid C @ show_property (par []) [] p @ show_pool [] p)"

lemma cuAlloc_message_params:
  "cuAlloc_message C ctx p = message (ci_tree C) ''cuAlloc'' (map (\<lambda>(k, v). (par k, v)) (cuAlloc_params ctx (ci_pid C) p))"
  by (simp add: cuAlloc_message_def cuAlloc_params_def echo_client_def show_pid_def show_property_def show_names_def
      show_loads_def show_pool_def)

lemma cuAlloc_plain: "plain_keys (map fst (cuAlloc_params ctx pid p))"
  by (simp add: plain_keys_def cuAlloc_params_def)

text \<open>The property the daemon reads from the request of the client.\<close>

definition wanted :: "xrmPrivateContext \<Rightarrow> int \<Rightarrow> xrmCuProperty \<Rightarrow> cuProperty" where
  "wanted ctx pid p = \<lparr> pr_kernelName = strncpy (XRM_MAX_NAME_LEN - 1) (cp_kernelName p),
     pr_kernelAlias = strncpy (XRM_MAX_NAME_LEN - 1) (cp_kernelAlias p), pr_cuName = [], pr_devExcl = cp_devExcl p,
     pr_requestLoadUnified = xrmRetrieveLoadInfo (cp_requestLoad p), pr_requestLoadOriginal = cp_requestLoad p,
     pr_clientId = xc_xrmClientId ctx, pr_clientProcessId = pid, pr_poolId = cp_poolId p \<rparr>"

definition i32_range :: "int \<Rightarrow> bool" where
  "i32_range n \<longleftrightarrow> - 2147483648 \<le> n \<and> n < 2147483648"

lemma read_i32_range [simp]: "i32_range n \<Longrightarrow> read_i32 (show_int n) = Some n"
  by (simp add: i32_range_def)

lemma retrieve_range: "xrmRetrieveLoadInfo n \<le> 1000000 \<and> - 2 \<le> xrmRetrieveLoadInfo n"
  by (simp add: xrmRetrieveLoadInfo_def Let_def)

lemma retrieve_i32 [simp]: "i32_range (xrmRetrieveLoadInfo n)" "i32_range (if b then 1 else 0)"
  using retrieve_range [of n] by (simp_all add: i32_range_def)

lemma read_request_wanted:
  assumes "ptree_ok (ci_tree C)" "i32_range (ci_pid C)" "i32_range (cp_requestLoad p)"
  shows "read_request (ci_tree C) (cuAlloc_message C ctx p) q = Some (wanted ctx (ci_pid C) p)"
proof -
  let ?m = "cuAlloc_message C ctx p"
  note get = message_get(1) [OF assms(1) cuAlloc_plain [of ctx "ci_pid C" p], where name = "''cuAlloc''", folded cuAlloc_message_params [of C ctx p]]
  have keys: "get_str (ci_tree C) (par ''kernelName'') ?m = Some (cp_kernelName p)"
    "get_str (ci_tree C) (par ''kernelAlias'') ?m = Some (cp_kernelAlias p)"
    "get_i32 (ci_tree C) (par ''devExcl'') ?m = Some (if cp_devExcl p then 1 else 0)"
    "get_i32 (ci_tree C) (par ''requestLoadUnified'') ?m = Some (xrmRetrieveLoadInfo (cp_requestLoad p))"
    "get_i32 (ci_tree C) (par ''requestLoadOriginal'') ?m = Some (cp_requestLoad p)"
    "get_i32 (ci_tree C) (par ''clientProcessId'') ?m = Some (ci_pid C)"
    "get_u64 (ci_tree C) (par ''clientId'') ?m = Some (xc_xrmClientId ctx)"
    "get_u64 (ci_tree C) (par ''poolId'') ?m = Some (cp_poolId p)"
    using assms(2,3)
    by (simp_all add: get_str_def get_i32_def get_u64_def get [where k = "''kernelName''"] get [where k = "''kernelAlias''"]
        get [where k = "''devExcl''"] get [where k = "''requestLoadUnified''"] get [where k = "''requestLoadOriginal''"]
        get [where k = "''clientProcessId''"] get [where k = "''clientId''"] get [where k = "''poolId''"] cuAlloc_params_def show_flag_def
        del: if_split)
  show ?thesis
    unfolding read_request_def read_cuProperty_def par_eq append_Nil2 keys Option.bind.simps
    by (simp add: wanted_def set_client_def)
qed

section \<open>The answer\<close>

definition granted_values :: "cuResource \<Rightarrow> (string \<times> string) list" where
  "granted_values r =
     [(''xclbinFileName'', re_xclbinFileName r), (''uuidStr'', re_uuidStr r),
      (''kernelPluginFileName'', re_kernelPluginFileName r), (''kernelName'', re_kernelName r),
      (''instanceName'', re_instanceName r), (''cuName'', re_cuName r), (''kernelAlias'', re_kernelAlias r),
      (''deviceId'', show_int (re_deviceId r)), (''cuId'', show_int (re_cuId r)),
      (''cuType'', show_int (cuType_num (re_cuType r))), (''baseAddr'', show_word (re_baseAddr r)),
      (''membankId'', show_word (re_membankId r)), (''membankType'', show_word (re_membankType r)),
      (''membankSize'', show_word (re_membankSize r)), (''membankBaseAddr'', show_word (re_membankBaseAddr r)),
      (''poolId'', show_word (re_poolId r)), (''channelId'', show_int (re_channelId r)),
      (''allocServiceId'', show_word (re_allocServiceId r)),
      (''channelLoadOriginal'', show_int (re_channelLoadOriginal r))]"

lemma show_granted_values: "show_granted False [] r = map (\<lambda>(k, v). (dat k, v)) (granted_values r)"
  by (simp add: show_granted_def show_cu_def show_channel_def granted_values_def Let_def)

lemma granted_plain: "plain_keys (map fst (granted_values r))"
  by (simp add: plain_keys_def granted_values_def)

definition answer_message :: "'m ptree \<Rightarrow> int \<Rightarrow> cuResource \<Rightarrow> 'm" where
  "answer_message P ret r = put_all P (cu_reply ret r) (pt_empty P)"

lemma answer_get:
  assumes ok: "ptree_ok P"
  shows "pt_get P ''response.status.value'' (answer_message P ret r) = Some (show_int ret)"
    "ret = XRM_SUCCESS \<Longrightarrow> map_of (granted_values r) k = Some v \<Longrightarrow> pt_get P (dat k) (answer_message P ret r) = Some v"
proof -
  let ?vs = "if ret = XRM_SUCCESS then granted_values r else []"
  have plain: "plain_keys (map fst ?vs)"
    by (cases "ret = XRM_SUCCESS") (use granted_plain in simp, simp add: plain_keys_def)
  have rep: "cu_reply ret r = (''response.status.value'', show_int ret) # map (\<lambda>(k, v). (dat k, v)) ?vs"
    by (simp add: cu_reply_def status_def show_granted_values)
  have m: "map fst (map (\<lambda>(k, v). (dat k, v)) xs) = map dat (map fst xs)" for xs :: "(string \<times> string) list"
    by (simp add: split_beta)
  have d: "distinct (map fst (cu_reply ret r))"
    unfolding rep list.map m using plain by (auto simp: plain_keys_def distinct_map inj_on_def)
  have closed: "closed_path ''response.status.value''" by (simp add: closed_path_def)
  have "fst ` set (cu_reply ret r) = insert ''response.status.value'' (dat ` set (map fst ?vs))"
    unfolding rep by (auto simp: image_image split_beta)
  moreover have "flat_paths (insert ''response.status.value'' (dat ` set (map fst ?vs)))"
    by (rule flat_dots [of _ 2]) (use plain_key [OF plain] closed in auto)
  ultimately have f: "flat_paths (fst ` set (cu_reply ret r))" by simp
  have l: "map_of (map (\<lambda>(k, v). (dat k, v)) xs) (dat k) = map_of xs k" for xs :: "(string \<times> string) list" and k
    by (induction xs) auto
  note get = get_put_all [OF ok d f]
  show "pt_get P ''response.status.value'' (answer_message P ret r) = Some (show_int ret)"
    unfolding answer_message_def by (rule get) (simp add: rep)
  show "ret = XRM_SUCCESS \<Longrightarrow> map_of (granted_values r) k = Some v \<Longrightarrow> pt_get P (dat k) (answer_message P ret r) = Some v"
    unfolding answer_message_def by (rule get) (unfold rep, simp add: l)
qed

text \<open>The resource of the client for a resource of the daemon.\<close>

definition client_view :: "cuResource \<Rightarrow> xrmCuResource" where
  "client_view r = \<lparr> cr_xclbinFileName = strncpy (XRM_MAX_NAME_LEN - 1) (re_xclbinFileName r),
     cr_kernelPluginFileName = strncpy (XRM_MAX_NAME_LEN - 1) (re_kernelPluginFileName r),
     cr_kernelName = strncpy (XRM_MAX_NAME_LEN - 1) (re_kernelName r),
     cr_kernelAlias = strncpy (XRM_MAX_NAME_LEN - 1) (re_kernelAlias r),
     cr_instanceName = strncpy (XRM_MAX_NAME_LEN - 1) (re_instanceName r),
     cr_cuName = strncpy (XRM_MAX_NAME_LEN - 1) (re_cuName r), cr_uuid = hexstrToBin (re_uuidStr r) 32,
     cr_deviceId = re_deviceId r, cr_cuId = re_cuId r, cr_channelId = re_channelId r,
     cr_cuType = cuType_num (re_cuType r), cr_baseAddr = re_baseAddr r, cr_membankId = re_membankId r,
     cr_membankType = re_membankType r, cr_membankSize = re_membankSize r,
     cr_membankBaseAddr = re_membankBaseAddr r, cr_allocServiceId = re_allocServiceId r,
     cr_channelLoad = re_channelLoadOriginal r, cr_poolId = re_poolId r \<rparr>"

definition numbers_fit :: "cuResource \<Rightarrow> bool" where
  "numbers_fit r \<longleftrightarrow> i32_range (re_deviceId r) \<and> i32_range (re_cuId r) \<and> i32_range (re_channelId r) \<and>
     i32_range (re_channelLoadOriginal r)"

lemma cuType_range [simp]: "i32_range (cuType_num t)"
  by (cases t) (simp_all add: cuType_num_def i32_range_def)

lemma read_one_answer:
  assumes ok: "ptree_ok P" and fit: "numbers_fit r"
  shows "read_one P (answer_message P XRM_SUCCESS r) = Parsed (client_view r)"
proof -
  let ?m = "answer_message P XRM_SUCCESS r"
  note get = answer_get(2) [OF ok, of XRM_SUCCESS r, OF refl]
  note gets = granted_values_def get_str_def get_i32_def get_u64_def get_u32_def
  have texts: "get_str P (dat ''xclbinFileName'') ?m = Some (re_xclbinFileName r)"
    "get_str P (dat ''uuidStr'') ?m = Some (re_uuidStr r)"
    "get_str P (dat ''kernelPluginFileName'') ?m = Some (re_kernelPluginFileName r)"
    "get_str P (dat ''kernelName'') ?m = Some (re_kernelName r)"
    "get_str P (dat ''kernelAlias'') ?m = Some (re_kernelAlias r)"
    "get_str P (dat ''instanceName'') ?m = Some (re_instanceName r)"
    "get_str P (dat ''cuName'') ?m = Some (re_cuName r)"
    by (simp_all add: gets get [where k = "''xclbinFileName''"] get [where k = "''uuidStr''"]
        get [where k = "''kernelPluginFileName''"] get [where k = "''kernelName''"] get [where k = "''kernelAlias''"]
        get [where k = "''instanceName''"] get [where k = "''cuName''"])
  have ints: "get_i32 P (dat ''deviceId'') ?m = Some (re_deviceId r)" "get_i32 P (dat ''cuId'') ?m = Some (re_cuId r)"
    "get_i32 P (dat ''cuType'') ?m = Some (cuType_num (re_cuType r))"
    "get_i32 P (dat ''channelId'') ?m = Some (re_channelId r)"
    "get_i32 P (dat ''channelLoadOriginal'') ?m = Some (re_channelLoadOriginal r)"
    using fit
    by (simp_all add: gets numbers_fit_def get [where k = "''deviceId''"] get [where k = "''cuId''"]
        get [where k = "''cuType''"] get [where k = "''channelId''"] get [where k = "''channelLoadOriginal''"])
  have words: "get_u64 P (dat ''allocServiceId'') ?m = Some (re_allocServiceId r)"
    "get_u64 P (dat ''baseAddr'') ?m = Some (re_baseAddr r)" "get_u32 P (dat ''membankId'') ?m = Some (re_membankId r)"
    "get_u32 P (dat ''membankType'') ?m = Some (re_membankType r)"
    "get_u64 P (dat ''membankSize'') ?m = Some (re_membankSize r)"
    "get_u64 P (dat ''membankBaseAddr'') ?m = Some (re_membankBaseAddr r)" "get_u64 P (dat ''poolId'') ?m = Some (re_poolId r)"
    by (simp_all add: gets get [where k = "''allocServiceId''"] get [where k = "''baseAddr''"]
        get [where k = "''membankId''"] get [where k = "''membankType''"] get [where k = "''membankSize''"]
        get [where k = "''membankBaseAddr''"] get [where k = "''poolId''"])
  show ?thesis
    unfolding read_one_def read_into_resource_def read_resource_def read_channel_def read_poolId_def append_Nil2
      texts ints words if_True if_False Option.bind.simps
    by (simp add: of_option_def map_parsed_def client_view_def xrmCuResource0_def)
qed

lemma read_answer:
  assumes ok: "ptree_ok P" and ret: "i32_range ret" and fit: "ret = XRM_SUCCESS \<Longrightarrow> numbers_fit r"
  shows "read_result P xrmCuResource0 (read_one P) (answer_message P ret r) =
    Parsed (ret, if ret = XRM_SUCCESS then client_view r else xrmCuResource0)"
proof -
  have "read_status P (answer_message P ret r) = Parsed ret"
    using answer_get(1) [OF ok, of ret r] ret by (simp add: read_status_def get_i32_def status_path_def of_option_def)
  then show ?thesis using read_one_answer [OF ok] fit by (simp add: read_result_def map_parsed_def)
qed

section \<open>The call\<close>

lemma c_str_idem [simp]: "c_str (c_str s) = c_str s"
  by (simp add: c_str_def)

lemma handle_cuAlloc:
  assumes ok: "ptree_ok (ci_tree C)" "ci_tree C = h_tree h" "i32_range (ci_pid C)" "i32_range (cp_requestLoad p)"
    and json: "h_read_json h (c_str (ci_write_json C (cuAlloc_message C ctx p))) = Inr (cuAlloc_message C ctx p)"
    and run: "resAllocCu (wanted ctx (ci_pid C) p) True (h_cuRes h, s) = (ret, r, s')"
  shows "handleCmd h (c_str (ci_write_json C (cuAlloc_message C ctx p))) (se, s) =
    (Inr (frame (h_char h) (h_write_json h (answer_message (h_tree h) ret r))), se, s')"
proof -
  let ?m = "cuAlloc_message C ctx p"
  note get = message_get [OF ok(1) cuAlloc_plain [of ctx "ci_pid C" p], where name = "''cuAlloc''",
      folded cuAlloc_message_params [of C ctx p], unfolded ok(2)]
  have head: "get_or_empty (h_tree h) ''request.name'' ?m = ''cuAlloc''"
    "get_or_empty (h_tree h) ''request.requestId'' ?m = show_int 1"
    by (simp_all only: get_or_empty_def get(2,3) option.case)
  have "pt_get (h_tree h) (par ''recordClientId'') ?m = None"
    by (rule get(4)) (simp_all add: cuAlloc_params_def)
  then have rec: "record_client (h_tree h) ?m se = (True, se)"
    by (simp add: record_client_def get_or_empty_def c_str_def)
  have one: "c_str (show_int 1) \<noteq> []"
    using show_nat_head [of 1] digit_not_special by (auto simp: show_int_def c_str_def)
  have req: "read_request (h_tree h) ?m (h_cuProp h) = Some (wanted ctx (ci_pid C) p)"
    using read_request_wanted [OF ok(1,3,4)] ok(2) by metis
  have "cuAllocCommand h ?m s = (Reply (cu_reply ret r), s')"
    by (simp add: cuAllocCommand_def serve_def of_option_def req serve_cu_def run)
  moreover have "dispatch ''cuAlloc'' h ?m s = cuAllocCommand h ?m s"
    by (simp add: dispatch_def registerAll_def)
  ultimately have "handle_tree h ?m (se, s) = (Reply (cu_reply ret r), se, s')"
    using one by (simp add: handle_tree_def Let_def head rec c_str_def)
  then show ?thesis
    using json by (simp add: handleCmd_def parse_request_def answer_message_def)
qed

text \<open>
  The call returns what the operation returns, the resource in the layout of the client, and leaves the daemon in
  the state the operation leaves, whatever the pieces in which the answer arrives.
\<close>

lemma xrmCuAlloc_call:
  assumes ok: "ptree_ok (ci_tree C)" "ci_tree C = h_tree h" "i32_range (ci_pid C)" "i32_range (cp_requestLoad p)"
    and json: "h_read_json h (c_str (ci_write_json C (cuAlloc_message C ctx p))) = Inr (cuAlloc_message C ctx p)"
      "ci_read_json C (c_str (h_write_json h (answer_message (h_tree h) ret r))) = Some (answer_message (h_tree h) ret r)"
    and link: "ci_socket C = daemon_socket h split" "split_ok split" "wi_pieces w = []" "\<not> wi_ended w" "wi_state w = (se, s)"
    and size: "h_write_json h (answer_message (h_tree h) ret r) \<noteq> []"
      "length (h_write_json h (answer_message (h_tree h) ret r)) \<le> max_length - 5"
    and call: "xc_xrmApiVersion ctx = XRM_API_VERSION_1_u32" "\<not> no_names p" "0 \<le> xrmRetrieveLoadInfo (cp_requestLoad p)"
    and run: "resAllocCu (wanted ctx (ci_pid C) p) True (h_cuRes h, s) = (ret, r, s')"
    and fits: "i32_range ret" "ret = XRM_SUCCESS \<Longrightarrow> numbers_fit r"
  shows "xrmCuAlloc C (Some ctx) (Some p) (Some r0) w =
    Some (Returns (ret, Some (if ret = XRM_SUCCESS then client_view r else xrmCuResource0)), w\<lparr>wi_state := (se, s')\<rparr>)"
proof -
  let ?answer = "h_write_json h (answer_message (h_tree h) ret r)"
  have "handleCmd h (c_str (ci_write_json C (cuAlloc_message C ctx p))) (wi_state w) = (Inr (frame (h_char h) ?answer), se, s')"
    unfolding link(5) by (rule handle_cuAlloc [OF ok json(1) run])
  from request_answered [OF link(2-4) this size]
  have sent: "xrmJsonRequest (ci_socket C) (ci_write_json C (cuAlloc_message C ctx p)) w =
      Some (XRM_SUCCESS, ?answer, w\<lparr>wi_state := (se, s')\<rparr>)" by (simp only: link(1))
  have "read_result (ci_tree C) xrmCuResource0 (read_one (ci_tree C)) (answer_message (h_tree h) ret r) =
      Parsed (ret, if ret = XRM_SUCCESS then client_view r else xrmCuResource0)"
    unfolding ok(2) by (rule read_answer [OF ok(1) [unfolded ok(2)] fits])
  then show ?thesis
    using call sent json(2)
    by (simp add: xrmCuAlloc_def alloc_checked_def checked_def ask_cu_def ask_def cuAlloc_message_def Let_def
        map_parsed_def answer_of_def)
qed

section \<open>The numbers of an allocation\<close>

lemma wanted_ok: "xc_xrmClientId ctx \<noteq> 0 \<Longrightarrow> prop_ok (wanted ctx pid p)"
  using retrieve_range [of "cp_requestLoad p"] by (simp add: prop_ok_def wanted_def)

lemma resAllocCu_numbers:
  assumes inv: "sys_inv s" and req: "prop_ok q" "i32_range (pr_requestLoadOriginal q)"
    and run: "resAllocCu q True (cuRes, s) = (ret, r, s')"
  shows "i32_range ret" "ret = XRM_SUCCESS \<Longrightarrow> numbers_fit r"
proof -
  have "ret \<in> {XRM_SUCCESS, XRM_ERROR_INVALID, XRM_ERROR_NO_KERNEL}"
    using run by (auto simp: resAllocCu_def split: if_splits prod.splits)
  then show "i32_range ret" by (auto simp: i32_range_def)
  assume "ret = XRM_SUCCESS"
  then obtain t d c i where a: "valid_cu s d c" "located d c r" "filled q i (getNextAllocServiceId s) r" "grant_step q d c i s t"
    using resAllocCu_spec [OF inv req(1) run] by (auto simp: alloc_result_def alloc_done_def alloc_on_def)
  have "d < XRM_MAX_XILINX_DEVICES" using a(1) inv by (auto simp: valid_cu_def sys_inv_def)
  moreover have "c < XRM_MAX_XILINX_KERNELS" using valid_cu_inv [OF inv a(1)] by simp
  moreover have "i < XRM_MAX_KERNEL_CHANNELS" using a(4) by (simp add: grant_step_def)
  ultimately show "numbers_fit r"
    using a(2,3) req(2) by (simp add: numbers_fit_def located_def filled_def i32_range_def XRM_MAX_XILINX_DEVICES_def XRM_MAX_XILINX_KERNELS_def XRM_MAX_KERNEL_CHANNELS_def)
qed

text \<open>The texts of an allocated resource fit into the buffers they were copied to.\<close>

definition texts_fit :: "cuResource \<Rightarrow> bool" where
  "texts_fit r \<longleftrightarrow> list_all (\<lambda>t. length t < XRM_MAX_NAME_LEN)
     [re_xclbinFileName r, re_uuidStr r, re_kernelPluginFileName r, re_kernelName r, re_instanceName r, re_cuName r,
      re_kernelAlias r]"

lemma short_strncpy [simp]: "length (strncpy (XRM_MAX_NAME_LEN - 1) t) < XRM_MAX_NAME_LEN"
proof -
  have "length (strncpy (XRM_MAX_NAME_LEN - 1) t) \<le> XRM_MAX_NAME_LEN - 1" by (rule strncpy_length)
  then show ?thesis by (simp add: XRM_MAX_NAME_LEN_def)
qed

lemma texts_fit_steps [simp]:
  "texts_fit r \<Longrightarrow> texts_fit (fill_cuRes cu i q svc r)" "texts_fit r \<Longrightarrow> texts_fit (locate_cuRes dev d c r)"
  "texts_fit cuResource0"
  by (simp_all add: texts_fit_def fill_cuRes_def locate_cuRes_def cuResource0_def short_strncpy [unfolded One_nat_def])
    (simp add: XRM_MAX_NAME_LEN_def)

lemma allocChan_texts: "allocChan d c q (r, s) = (ret, r', s') \<Longrightarrow> texts_fit r \<Longrightarrow> texts_fit r'"
  by (auto simp: allocChan_def allocChanClientFromCu_def take_free_channel_def assign_channel_def Let_def
      split: if_splits prod.splits)

lemma try_cu_texts: "try_cu q d c (r, s) = (b, r', s') \<Longrightarrow> texts_fit r \<Longrightarrow> texts_fit r'"
  using allocChan_texts by (fastforce simp: try_cu_def split: if_splits prod.splits)

lemma scan_cus_texts:
  assumes run: "scan_cus pass q d (r, s) = (b, r', s')" and fit: "texts_fit r"
  shows "texts_fit r'"
proof -
  have "texts_fit (fst (r', s'))"
    by (rule until_acquired_inv [where P = "\<lambda>st. texts_fit (fst st)", OF _ _ run [unfolded scan_cus_def prod.case]])
      (use fit try_cu_texts in \<open>auto split: if_splits\<close>)
  then show ?thesis by simp
qed

lemma search_devices_texts:
  assumes "search_devices (resAllocCu_try pass q) q (r, s) = (b, r', s')" "texts_fit r"
  shows "texts_fit r'"
proof -
  have body: "texts_fit b'" if "resAllocCu_try pass q d (a, t) = (x, b', t')" "texts_fit a" for d a t x b' t'
    using that scan_cus_texts by (fastforce simp: resAllocCu_try_def split: prod.splits if_splits)
  have "texts_fit r'" if "dev_search fuel (resAllocCu_try pass q) q devId (r, s) = (b, r', s')" "texts_fit r" for fuel devId r s
    using that
    by (induction fuel arbitrary: devId r s) (auto simp: Let_def split: if_splits prod.splits dest: body)
  with assms show ?thesis unfolding search_devices_def by blast
qed

lemma resAllocCu_texts:
  assumes run: "resAllocCu q updateId (r, s) = (ret, r', s')" and fit: "texts_fit r"
  shows "texts_fit r'"
proof -
  obtain b1 r1 s1 where 1: "search_devices (resAllocCu_try True q) q (r, s) = (b1, r1, s1)" by (metis prod_cases3)
  obtain b2 r2 s2 where 2: "search_devices (resAllocCu_try False q) q (r1, s1) = (b2, r2, s2)" by (metis prod_cases3)
  have "texts_fit r1" by (rule search_devices_texts [OF 1 fit])
  moreover have "texts_fit r2" by (rule search_devices_texts [OF 2 calculation])
  ultimately show ?thesis using run fit 1 2 by (auto simp: resAllocCu_def split: if_splits)
qed

end
