(* ===== verification/Xrm_Init.thy ===== *)
theory Xrm_Init
  imports Xrm_Wire Xrm_Groups Xrm_Plugins Xrm_Load
begin

text \<open>
  The start of the daemon: the configuration file (xrm_config.cpp), the functions of the driver library that
  depend on its version, and the initial state of the system (\<open>initSystem\<close> in xrm_system.cpp).
\<close>

section \<open>The environment\<close>

text \<open>
  The parsed configuration file (\<open>localTree\<close> below), the JSON files, and the dynamic linker: whether a
  library opens, and its symbols. The symbol \<open>xclIPName2Index\<close> has one of two types, which its name does not tell:
  it is the parameter of both.
\<close>

record 'm environment =
  su_tree :: "'m ptree"
  su_ini :: 'm
  su_read_json :: "string \<Rightarrow> 'm option"
  su_dlopen :: "string \<Rightarrow> bool"
  su_xclLockDevice :: "(u64 \<Rightarrow> int) option"
  su_xclUnlockDevice :: "(u64 \<Rightarrow> int) option"
  su_xclCuName2Index :: "(u64 \<Rightarrow> string \<Rightarrow> int \<times> u32) option"
  su_xclIPName2Index25 :: "(u64 \<Rightarrow> string \<Rightarrow> int \<times> u32) option"
  su_xclIPName2Index26 :: "(u64 \<Rightarrow> string \<Rightarrow> int) option"

section \<open>The configuration file\<close>

text \<open>
  Where the file is looked for: beside the program and in the current directory. The file system is a parameter: the
  link to the program (\<open>None\<close> when it cannot be read), the path operations, and the existence of a file; \<open>None\<close>
  of the last two is the exception \<open>filesystem_error\<close>.
\<close>

record 'm files =
  fi_readlink :: "string option"
  fi_parent_path :: "string \<Rightarrow> string"
  fi_append :: "string \<Rightarrow> string \<Rightarrow> string"
  fi_exists :: "string \<Rightarrow> bool option"
  fi_current_path :: "string option"
  fi_read_ini :: "string \<Rightarrow> 'm"

definition getSelfPath :: "'m files \<Rightarrow> string" where
  "getSelfPath f = (case fi_readlink f of None \<Rightarrow> [] | Some buf \<Rightarrow> take 4096 buf)"

definition verifyIniPath :: "'m files \<Rightarrow> string \<Rightarrow> string option" where
  "verifyIniPath f dir =
     (let file_path = fi_append f dir ''xrm.ini''
      in case fi_exists f file_path of None \<Rightarrow> None | Some there \<Rightarrow> Some (if there then file_path else []))"

definition getIniPath :: "'m files \<Rightarrow> string" where
  "getIniPath f =
     (case verifyIniPath f (fi_parent_path f (getSelfPath f)) of
        None \<Rightarrow> []
      | Some fullPath \<Rightarrow>
          if fullPath \<noteq> [] then fullPath
          else case Option.bind (fi_current_path f) (verifyIniPath f) of None \<Rightarrow> [] | Some fullPath \<Rightarrow> fullPath)"

text \<open>The tree of the file, the empty one when there is no file.\<close>

definition localTree :: "'m files \<Rightarrow> 'm ptree \<Rightarrow> 'm" where
  "localTree f P = (let iniPath = getIniPath f in if iniPath \<noteq> [] then fi_read_ini f iniPath else pt_empty P)"

section \<open>The configuration\<close>

definition getUint32Value :: "'m environment \<Rightarrow> string \<Rightarrow> u32 \<Rightarrow> u32" where
  "getUint32Value e key defaultValue =
     (case get_u32 (su_tree e) key (su_ini e) of None \<Rightarrow> defaultValue | Some v \<Rightarrow> v)"

text \<open>
  A text between quotation marks loses them. A text that is one quotation mark is its own first and last character:
  the second \<open>erase\<close> then has a position past the end, and throws (\<open>None\<close>).
\<close>

definition getStringValue :: "'m environment \<Rightarrow> string \<Rightarrow> string \<Rightarrow> string option" where
  "getStringValue e key defaultValue =
     (let val = (case get_str (su_tree e) key (su_ini e) of None \<Rightarrow> defaultValue | Some v \<Rightarrow> v)
      in if val \<noteq> [] \<and> hd val = CHR 0x22 \<and> last val = CHR 0x22
         then if tl val = [] then None else Some (butlast (tl val))
         else Some val)"

definition getVerbosity :: "'m environment \<Rightarrow> u32" where
  "getVerbosity e = getUint32Value e ''XRM.verbosity'' 3"

definition getLimitConcurrentClient :: "'m environment \<Rightarrow> u32" where
  "getLimitConcurrentClient e = getUint32Value e ''XRM.limitConcurrentClient'' 40000"

definition getLibXrtCoreFileFullPathName :: "'m environment \<Rightarrow> string option" where
  "getLibXrtCoreFileFullPathName e =
     getStringValue e ''XRM.libXrtCoreFileFullPathName'' ''/opt/xilinx/xrt/lib/libxrt_core.so''"

definition getXrtVersionFileFullPathName :: "'m environment \<Rightarrow> string option" where
  "getXrtVersionFileFullPathName e =
     getStringValue e ''XRM.xrtVersionFileFullPathName'' ''/opt/xilinx/xrt/version.json''"

definition XRM_MAX_LIMIT_CONCURRENT_CLIENT :: u32 where "XRM_MAX_LIMIT_CONCURRENT_CLIENT = 1000000"

text \<open>The limits of the configuration, and the names of the version file and of the library.\<close>

definition initConfig :: "'m environment \<Rightarrow> system \<Rightarrow> (string \<times> string \<times> system) option" where
  "initConfig e s = do {
     versionFile \<leftarrow> getXrtVersionFileFullPathName e;
     library \<leftarrow> getLibXrtCoreFileFullPathName e;
     Some (versionFile, library,
       s\<lparr>m_logLevel := (if getVerbosity e > 7 then 3 else getVerbosity e),
         m_limitConcurrentClient := (if getLimitConcurrentClient e > XRM_MAX_LIMIT_CONCURRENT_CLIENT
           then XRM_MAX_LIMIT_CONCURRENT_CLIENT else getLimitConcurrentClient e)\<rparr>)
   }"

section \<open>The version of the driver library\<close>

text \<open>
  \<open>sscanf(s, "%d.%d.%d")\<close> into three zeros: each number after blanks and a sign, and the conversion stops at the first
  thing that is not there. Numbers too long for an \<open>int\<close>, which have no defined result, do not occur in a version.
\<close>

definition scan_d :: "string \<Rightarrow> (int \<times> string) option" where
  "scan_d text =
     (let s = dropWhile is_space text;
          (neg, s) = (case s of c # rest \<Rightarrow> if c = CHR ''-'' then (True, rest)
                                  else if c = CHR ''+'' then (False, rest) else (False, s)
                      | [] \<Rightarrow> (False, s));
          ds = takeWhile is_digit s
      in if ds = [] then None
         else Some (if neg then - int (digits_value ds) else int (digits_value ds), dropWhile is_digit s))"

definition scan_dot :: "string \<Rightarrow> string option" where
  "scan_dot s = (case s of c # rest \<Rightarrow> if c = CHR ''.'' then Some rest else None | [] \<Rightarrow> None)"

definition parse_version :: "string \<Rightarrow> version" where
  "parse_version str =
     (case scan_d str of
        None \<Rightarrow> \<lparr> ve_major = 0, ve_minor = 0, ve_revision = 0 \<rparr>
      | Some (major, s) \<Rightarrow>
          (case Option.bind (scan_dot s) scan_d of
             None \<Rightarrow> \<lparr> ve_major = major, ve_minor = 0, ve_revision = 0 \<rparr>
           | Some (minor, s) \<Rightarrow>
               (case Option.bind (scan_dot s) scan_d of
                  None \<Rightarrow> \<lparr> ve_major = major, ve_minor = minor, ve_revision = 0 \<rparr>
                | Some (revision, _) \<Rightarrow> \<lparr> ve_major = major, ve_minor = minor, ve_revision = revision \<rparr>)))"

definition no_functions :: libVersionDepFunctionsData where
  "no_functions = \<lparr> libVersionDepFuncXclCuName2Index = None, libVersionDepFuncXclIPName2Index25 = None,
     libVersionDepFuncXclIPName2Index26 = None, libVersionDepFuncXclLockDevice = None,
     libVersionDepFuncXclUnlockDevice = None \<rparr>"

definition initLibVersionDepFunctions :: "'m environment \<Rightarrow> string \<Rightarrow> string \<Rightarrow> libVersionDepFunctionsData" where
  "initLibVersionDepFunctions e versionFile library =
     (if \<not> su_dlopen e library then no_functions
      else let funcs = no_functions\<lparr>libVersionDepFuncXclLockDevice := su_xclLockDevice e,
             libVersionDepFuncXclUnlockDevice := su_xclUnlockDevice e,
             libVersionDepFuncXclCuName2Index := su_xclCuName2Index e\<rparr>
        in case su_read_json e versionFile of
             None \<Rightarrow> funcs
           | Some m \<Rightarrow>
               let build = get_or_empty (su_tree e) ''BUILD_VERSION'' m
               in if c_str build = [] then funcs
                  else if version_less (parse_version (c_str build)) (parse_version ''2.6.0'')
                  then funcs\<lparr>libVersionDepFuncXclIPName2Index25 := su_xclIPName2Index25 e\<rparr>
                  else funcs\<lparr>libVersionDepFuncXclIPName2Index26 := su_xclIPName2Index26 e\<rparr>)"

section \<open>The initial state\<close>

definition initSystem :: "'m environment \<Rightarrow> system \<Rightarrow> (libVersionDepFunctionsData \<times> system) option" where
  "initSystem e s = do {
     (versionFile, library, s1) \<leftarrow> initConfig e s;
     Some (initLibVersionDepFunctions e versionFile library,
       (initUdfCuGroups (initXrmPlugins (s1\<lparr>m_devicesInited := False\<rparr>)))
         \<lparr>m_clientId := 0, m_numConcurrentClient := 0, m_allocServiceId := 0, m_reservePoolId := 0\<rparr>)
   }"

section \<open>Properties\<close>

lemma parse_version_show:
  "parse_version (show_nat a @ ''.'' @ show_nat b @ ''.'' @ show_nat c) =
     \<lparr> ve_major = int a, ve_minor = int b, ve_revision = int c \<rparr>"
proof -
  have scan: "scan_d (show_nat n @ rest) = Some (int n, rest)" if "rest = [] \<or> \<not> is_digit (hd rest)" for n rest
  proof -
    obtain d ds where d: "show_nat n = d # ds" "is_digit d" using show_nat_head by blast
    have ds: "\<forall>x\<in>set ds. is_digit x" using show_nat_digits [of n] d(1) by auto
    have "takeWhile is_digit (ds @ rest) = ds" "dropWhile is_digit (ds @ rest) = rest"
      using that ds by (auto simp: takeWhile_append dropWhile_append takeWhile_eq_Nil_iff dropWhile_eq_self_iff)
    then show ?thesis
      using digit_not_special [OF d(2)] d digits_value_show [of n] by (simp add: scan_d_def)
  qed
  have "\<not> is_digit (CHR ''.'')" by (simp add: is_digit_def)
  then show ?thesis using scan [of "[]"] by (simp add: parse_version_def scan scan_dot_def)
qed

text \<open>
  The comparison looks at each component on its own, so that a version with a higher major number and a minor number
  below 6 counts as older than 2.6.0, and its \<open>xclIPName2Index\<close> is called with the old signature.
\<close>

lemma newer_version_taken_for_older:
  assumes "su_dlopen e library" "su_read_json e versionFile = Some m"
    and "c_str (get_or_empty (su_tree e) ''BUILD_VERSION'' m) = show_nat a @ ''.'' @ show_nat b @ ''.'' @ show_nat c"
    and "2 < a" "b < 6"
  shows "libVersionDepFuncXclIPName2Index25 (initLibVersionDepFunctions e versionFile library) = su_xclIPName2Index25 e"
    "libVersionDepFuncXclIPName2Index26 (initLibVersionDepFunctions e versionFile library) = None"
proof -
  let ?build = "show_nat a @ ''.'' @ show_nat b @ ''.'' @ show_nat c"
  have "version_less (parse_version ?build) (parse_version ''2.6.0'')"
  proof -
    have "show_nat 2 @ ''.'' @ show_nat 6 @ ''.'' @ show_nat 0 = ''2.6.0''" by code_simp
    then have "parse_version ''2.6.0'' = \<lparr> ve_major = 2, ve_minor = 6, ve_revision = 0 \<rparr>"
      using parse_version_show [of 2 6 0] by simp
    then show ?thesis using assms(5) by (simp only: parse_version_show) (simp add: version_less_def)
  qed
  moreover have "?build \<noteq> []" by simp
  ultimately show "libVersionDepFuncXclIPName2Index25 (initLibVersionDepFunctions e versionFile library) = su_xclIPName2Index25 e"
    "libVersionDepFuncXclIPName2Index26 (initLibVersionDepFunctions e versionFile library) = None"
    using assms(1-3) unfolding initLibVersionDepFunctions_def by (simp_all only: Let_def option.case if_False if_True not_True_eq_False) (simp_all add: no_functions_def)
qed

text \<open>A configuration beside the program hides the one of the current directory.\<close>

lemma getIniPath_first:
  assumes "fi_exists f (fi_append f (fi_parent_path f (getSelfPath f)) ''xrm.ini'') = Some True"
    and "fi_append f (fi_parent_path f (getSelfPath f)) ''xrm.ini'' \<noteq> []"
  shows "getIniPath f = fi_append f (fi_parent_path f (getSelfPath f)) ''xrm.ini''"
  using assms by (simp add: getIniPath_def verifyIniPath_def Let_def)

text \<open>The limits of the configuration hold whatever the file says.\<close>

lemma initConfig_limits:
  assumes "initConfig e s = Some (v, l, s')"
  shows "m_logLevel s' \<le> 7" "m_limitConcurrentClient s' \<le> XRM_MAX_LIMIT_CONCURRENT_CLIENT"
  using assms by (auto simp: initConfig_def XRM_MAX_LIMIT_CONCURRENT_CLIENT_def split: Option.bind_splits)

end
