(* ===== verification/Xrm_Main.thy ===== *)
theory Xrm_Main
  imports Xrm_Init Xrm_Daemon_Inv
begin

text \<open>
  The start of the daemon (\<open>main\<close> in xrm_main.cpp): the system is made and initialised, the commands are registered
  and the server accepts connections, and the worker waits for bus errors. The runs of Xrm_Daemon begin here.
\<close>

section \<open>The bus error signal\<close>

text \<open>
  The handler of the signal sets a flag; a round of the worker takes the flag and, if it was set, resets the devices
  that are offline. \<open>None\<close> is the end of the daemon.
\<close>

definition sigbusHandler :: "bool \<Rightarrow> bool \<Rightarrow> bool" where
  "sigbusHandler is_sigbus resetEvent = (if is_sigbus then True else resetEvent)"

definition worker_round :: "'m host \<Rightarrow> bool \<times> system \<Rightarrow> (bool \<times> system) option" where
  "worker_round h = (\<lambda>(resetEvent, s).
     if resetEvent then map_option (\<lambda>s'. (False, s')) (resetEventFunc h s) else Some (False, s))"

section \<open>The start\<close>

text \<open>
  \<open>s\<close> is the memory of the new system. An exception of the initialisation ends the daemon before it accepts
  anything.
\<close>

definition main_start :: "'m environment \<Rightarrow> system \<Rightarrow> libVersionDepFunctionsData \<times> daemon" where
  "main_start e s =
     (case initSystem e s of
        None \<Rightarrow> (no_functions, \<lparr> d_running = False, d_system = s, d_sessions = (\<lambda>_. None) \<rparr>)
      | Some (funcs, s') \<Rightarrow> (funcs, \<lparr> d_running = True, d_system = s', d_sessions = (\<lambda>_. None) \<rparr>))"

text \<open>
  The accounting invariant holds from the start, when the arrays have their sizes and the number of devices, which
  the constructor leaves as it is, is 0.
\<close>

definition new_memory :: "system \<Rightarrow> bool" where
  "new_memory s \<longleftrightarrow> length (m_devList s) = XRM_MAX_XILINX_DEVICES \<and> m_numDevice s = 0 \<and> \<not> m_fault s \<and>
     (\<forall>d<XRM_MAX_XILINX_DEVICES. length (cuList (dev_at s d)) = XRM_MAX_XILINX_KERNELS)"

definition same_hardware :: "system \<Rightarrow> system \<Rightarrow> bool" where
  "same_hardware s s' \<longleftrightarrow> m_devList s' = m_devList s \<and> m_numDevice s' = m_numDevice s \<and> m_fault s' = m_fault s \<and>
     m_devicesInited s' = m_devicesInited s"

lemma same_hardware_fold: "(\<And>i s. same_hardware s (f i s)) \<Longrightarrow> same_hardware s (fold f is s)"
  by (induction "is" arbitrary: s) (auto simp: same_hardware_def)

lemma same_hardware_init: "same_hardware s (initUdfCuGroups (initXrmPlugins s))"
proof -
  have flush: "same_hardware s (flushXrmPluginInfo i s)" "same_hardware s (flushUdfCuGroupInfo i s)"
    "same_hardware s (flushUdfCuGroupInfoV2 i s)" for i s
    by (simp_all add: same_hardware_def flushXrmPluginInfo_def flushUdfCuGroupInfo_def flushUdfCuGroupInfoV2_def Let_def)
  show ?thesis
    using same_hardware_fold [where f = flushXrmPluginInfo, OF flush(1), of "s\<lparr>m_numXrmPlugin := 0\<rparr>"]
      same_hardware_fold [where f = flushUdfCuGroupInfo, OF flush(2)]
      same_hardware_fold [where f = flushUdfCuGroupInfoV2, OF flush(3)]
    by (simp add: same_hardware_def initXrmPlugins_def initUdfCuGroups_def Let_def)
qed

lemma initSystem_inv:
  assumes "initSystem e s = Some (funcs, s')" "new_memory s"
  shows "sys_inv s'" "grants s' = (\<lambda>_. None)" "\<not> m_devicesInited s'"
proof -
  obtain v l s1 where c: "initConfig e s = Some (v, l, s1)"
    and t: "s' = initUdfCuGroups (initXrmPlugins (s1\<lparr>m_devicesInited := False\<rparr>))
      \<lparr>m_clientId := 0, m_numConcurrentClient := 0, m_allocServiceId := 0, m_reservePoolId := 0\<rparr>"
    using assms(1) by (auto simp: initSystem_def split: Option.bind_splits)
  have "m_devList s1 = m_devList s"
    "m_numDevice s1 = m_numDevice s" "m_fault s1 = m_fault s"
    using c by (auto simp: initConfig_def simp del: if_split split: Option.bind_splits)
  then have s': "m_devList s' = m_devList s" "m_numDevice s' = m_numDevice s" "m_fault s' = m_fault s" "\<not> m_devicesInited s'"
    using same_hardware_init [of "s1\<lparr>m_devicesInited := False\<rparr>"] unfolding t same_hardware_def by simp_all
  moreover have "dev_at s' d = dev_at s d" for d by (simp add: dev_at_def s')
  ultimately show "sys_inv s'" using assms(2) by (simp add: sys_inv_def new_memory_def)
  show "grants s' = (\<lambda>_. None)"
    using assms(2) s' by (auto simp: grants_def valid_cu_def new_memory_def fun_eq_iff)
  show "\<not> m_devicesInited s'" by (rule s')
qed

text \<open>So every tame run of the daemon, from its start, keeps the invariant.\<close>

lemma main_run_inv:
  assumes "new_memory s" "driver_ok (h_xrt h)" "tame_run h (snd (main_start e s)) d" "d_running d"
  shows "sys_inv (d_system d)"
proof (cases "initSystem e s")
  case None
  then have stopped: "\<not> d_running (snd (main_start e s))" by (simp add: main_start_def)
  have "\<not> d_running d" using assms(3)
  proof (induction rule: tame_run.induct)
    case (step d ev d')
    with daemon_step_running show ?case by blast
  qed (rule stopped)
  with assms(4) show ?thesis by blast
next
  case (Some r)
  obtain funcs s' where r: "r = (funcs, s')" by fastforce
  have "sys_inv (d_system (snd (main_start e s)))"
    using initSystem_inv(1) [OF Some [unfolded r] assms(1)] by (simp add: main_start_def Some r)
  from tame_run_inv [OF assms(3,2) this assms(4)] show ?thesis .
qed

text \<open>A round of the worker keeps it too, whether or not there was a signal.\<close>

lemma worker_round_inv:
  assumes "sys_inv s" "driver_ok (h_xrt h)" "worker_round h (f, s) = Some (f', s')"
  shows "sys_inv s' \<and> \<not> f'"
  using assms resetEventFunc_inv [OF assms(1,2)] by (auto simp: worker_round_def split: if_splits)

end
