(* ===== verification/Xrm_Example.thy ===== *)
theory Xrm_Example
  imports Xrm_Groups Xrm_Query Xrm_Policy_Leak Xrm_Plugins Xrm_Effects Xrm_Alloc_Complete Xrm_Load_Inv
begin

text \<open>
  A small system in a state the daemon reaches: one device, loaded with an xclbin of two compute units
  of kernels \<open>enc\<close> and \<open>dec\<close>, both idle. The invariants and the side conditions of the requests hold in it; the
  instances of the properties at concrete requests are stated over it.
\<close>

section \<open>The example\<close>

definition blank_cu :: cuData where
  "blank_cu = \<lparr> cu_cuId = 0, cu_ipLayoutIndex = 0, cu_cuType = XRM_CU_NULL, cu_kernelName = [],
     cu_kernelAlias = [], cu_cuName = [], cu_instanceName = [], cu_kernelPluginFileName = [],
     cu_maxCapacity = 0, cu_baseAddr = 0, cu_membankId = 0, cu_membankType = 0, cu_membankSize = 0,
     cu_membankBaseAddr = 0, cu_channels = replicate XRM_MAX_KERNEL_CHANNELS channel0,
     cu_numChanInuse = 0, cu_clients = replicate XRM_MAX_KERNEL_CHANNELS 0, cu_numClient = 0,
     cu_reserves = replicate XRM_MAX_KERNEL_RESERVES reserve0, cu_numReserve = 0,
     cu_totalUsedLoadUnified = 0, cu_totalReservedLoadUnified = 0,
     cu_totalReservedUsedLoadUnified = 0, cu_deviceId = 0 \<rparr>"

definition ex_cu :: "string \<Rightarrow> int \<Rightarrow> cuData" where
  "ex_cu k i = init_cu 0 (blank_cu\<lparr>cu_cuId := i, cu_ipLayoutIndex := i,
     cu_cuType := XRM_CU_IPKERNEL, cu_kernelName := k, cu_cuName := k @ '':1'',
     cu_instanceName := ''1''\<rparr>)"

definition ex_xclbin :: xclbinInformation where
  "ex_xclbin = \<lparr> xb_uuid = replicate 16 7, xb_uuidStr = ''07'', xb_numCu = 2, xb_numHardwareCu = 2,
     xb_numIPPSCu = 0, xb_numSoftwareCu = 0,
     xb_cuList = ex_cu ''enc'' 0 # ex_cu ''dec'' 1 # replicate (XRM_MAX_XILINX_KERNELS - 2) blank_cu,
     xb_numMemBank = 0, xb_numConnect = 0, xb_memTopologyList = replicate XRM_MAX_DDR_MAP mem0,
     xb_connectList = replicate XRM_MAX_CONNECTION_ENTRIES connect0 \<rparr>"

definition ex_device :: deviceData where
  "ex_device = \<lparr> dv_dsaName = ''u30'', dv_xclbinName = ''enc.xclbin'', dv_devId = 0,
     dv_isDisabled = False, dv_isLoaded = True, dv_isExcl = False, dv_memBuffer = NoBuffer,
     dv_deviceHandle = 1, dv_deviceInfo = \<lparr> di_mName = ''u30'', di_mPciSlot = 0 \<rparr>,
     dv_xclbinInfo = ex_xclbin, dv_clientProcs = replicate XRM_MAX_DEV_CLIENTS client0,
     dv_devLoadInfo = \<lparr> li_devLoadRate = 0, li_deviceId = 0, li_devCurrentLoad = 0 \<rparr> \<rparr>"

text \<open>Groups of one list with one member, by the name of the compute unit, in both versions.\<close>

definition blank_list :: cuListProperty where
  "blank_list = \<lparr> lp_cuProps = replicate XRM_MAX_LIST_CU_NUM cuProperty0, lp_cuNum = 0, lp_sameDevice = False \<rparr>"

definition blank_group :: udfCuGroupInformation where
  "blank_group = \<lparr> ug_udfCuGroupName = [],
     ug_optionUdfCuListProps = replicate XRM_MAX_UDF_CU_GROUP_OPTION_LIST_NUM blank_list, ug_optionUdfCuListNum = 0 \<rparr>"

definition ex_group :: udfCuGroupInformation where
  "ex_group = \<lparr> ug_udfCuGroupName = ''transcode'',
     ug_optionUdfCuListProps = blank_list\<lparr>
         lp_cuProps := cuProperty0\<lparr>pr_cuName := ''enc:1'', pr_requestLoadUnified := 500000\<rparr> #
           replicate (XRM_MAX_LIST_CU_NUM - 1) cuProperty0, lp_cuNum := 1\<rparr> #
       replicate (XRM_MAX_UDF_CU_GROUP_OPTION_LIST_NUM - 1) blank_list,
     ug_optionUdfCuListNum = 1 \<rparr>"

definition blank_listV2 :: cuListPropertyV2 where
  "blank_listV2 = \<lparr> l2_cuProps = replicate XRM_MAX_LIST_CU_NUM_V2 cuPropertyV2_0, l2_cuNum = 0 \<rparr>"

definition blank_groupV2 :: udfCuGroupInformationV2 where
  "blank_groupV2 = \<lparr> u2_udfCuGroupName = [],
     u2_optionUdfCuListProps = replicate XRM_MAX_UDF_CU_GROUP_OPTION_LIST_NUM blank_listV2, u2_optionUdfCuListNum = 0 \<rparr>"

definition ex_groupV2 :: udfCuGroupInformationV2 where
  "ex_groupV2 = \<lparr> u2_udfCuGroupName = ''transcode'',
     u2_optionUdfCuListProps = blank_listV2\<lparr>
         l2_cuProps := cuPropertyV2_0\<lparr>pr_cuName := ''enc:1'', pr_requestLoadUnified := 500000\<rparr> #
           replicate (XRM_MAX_LIST_CU_NUM_V2 - 1) cuPropertyV2_0, l2_cuNum := 1\<rparr> #
       replicate (XRM_MAX_UDF_CU_GROUP_OPTION_LIST_NUM - 1) blank_listV2,
     u2_optionUdfCuListNum = 1 \<rparr>"

definition ex_sys :: system where
  "ex_sys = \<lparr> m_devList = replicate XRM_MAX_XILINX_DEVICES ex_device, m_logLevel = 0, m_clientId = 1,
     m_numConcurrentClient = 1, m_limitConcurrentClient = 100, m_numDevice = 1,
     m_xrmPluginList = replicate XRM_MAX_PLUGIN_NUM flushed_plugin, m_numXrmPlugin = 0,
     m_udfCuGroups = ex_group # replicate (XRM_MAX_UDF_CU_GROUP_NUM - 1) blank_group, m_numUdfCuGroup = 1,
     m_udfCuGroupsV2 = ex_groupV2 # replicate (XRM_MAX_UDF_CU_GROUP_NUM_V2 - 1) blank_groupV2,
     m_numUdfCuGroupV2 = 1, m_allocServiceId = 0, m_reservePoolId = 0,
     m_devicesInited = True, m_fault = False \<rparr>"

definition ex_prop :: cuProperty where
  "ex_prop = cuProperty0\<lparr>pr_kernelName := ''enc'', pr_requestLoadUnified := 500000, pr_clientId := 1,
     pr_clientProcessId := 42\<rparr>"

lemma ex_cu_inv:
  "cu_inv (ex_cu k i)" "cu_deviceId (ex_cu k i) = 0" "cu_totalUsedLoadUnified (ex_cu k i) = 0"
  "pool_ids (ex_cu k i) = {}"
  "ch \<in> set (cu_channels (ex_cu k i)) \<Longrightarrow> ch_loadUnified ch = 0 \<and> ch_poolId ch = 0 \<and> ch_clientId ch = 0"
  unfolding ex_cu_def
  by (rule init_cu_inv; simp add: blank_cu_def)+

lemma ex_fields [simp]:
  "m_numDevice ex_sys = 1" "dev_at ex_sys 0 = ex_device" "numCu ex_device = 2"
  "cuList ex_device = ex_cu ''enc'' 0 # ex_cu ''dec'' 1 # replicate (XRM_MAX_XILINX_KERNELS - 2) blank_cu"
  "cu_at ex_sys 0 0 = ex_cu ''enc'' 0" "cu_at ex_sys 0 (Suc 0) = ex_cu ''dec'' 1"
  "cu_kernelName (ex_cu k i) = k" "cu_numChanInuse (ex_cu k i) = 0" "cu_numReserve (ex_cu k i) = 0"
  "cu_cuName (ex_cu k i) = k @ '':1''" "cu_kernelAlias (ex_cu k i) = []"
  "dv_isLoaded ex_device" "\<not> dv_isExcl ex_device"
  by (simp_all add: ex_sys_def ex_device_def ex_xclbin_def dev_at_def numCu_def cuList_def cu_at_def
      XRM_MAX_XILINX_DEVICES_def ex_cu_def init_cu_def cuInitChannels_def blank_cu_def)

lemma ex_valid: "valid_cu ex_sys d c \<longleftrightarrow> d = 0 \<and> c \<in> {0, 1}"
  by (cases "d = 0") (auto simp: valid_cu_def)

lemma ex_sys_inv: "sys_inv ex_sys"
proof -
  have "dev_inv 0 ex_device"
    using ex_cu_inv by (auto simp: dev_inv_def less_Suc_eq numeral_2_eq_2 XRM_MAX_XILINX_KERNELS_def)
      (auto simp: ex_device_def)
  moreover have "length (cuList (dev_at ex_sys d)) = XRM_MAX_XILINX_KERNELS" if "d < XRM_MAX_XILINX_DEVICES" for d
    using that by (simp add: dev_at_def ex_sys_def ex_device_def ex_xclbin_def cuList_def XRM_MAX_XILINX_KERNELS_def)
  ultimately show ?thesis
    by (simp add: sys_inv_def) (simp add: ex_sys_def XRM_MAX_XILINX_DEVICES_def)
qed

lemma ex_load_inv: "load_inv ex_sys"
proof -
  have "take 2 (cuList ex_device) = [ex_cu ''enc'' 0, ex_cu ''dec'' 1]" by (simp add: numeral_2_eq_2)
  then have "dev_load_ok ex_device"
    by (simp add: dev_load_ok_def cu_load_sum_def ex_cu_inv(3)) (simp add: ex_device_def)
  then show ?thesis by (simp add: load_inv_def)
qed

lemma ex_fresh: "p \<noteq> 0 \<Longrightarrow> fresh_pool p ex_sys"
  using ex_cu_inv(4,5) unfolding fresh_pool_def fresh_in_def ex_valid by (auto; fastforce)

lemma ex_no_grants: "grants ex_sys = (\<lambda>_. None)"
proof (rule ext)
  fix k :: "nat \<times> nat \<times> nat"
  obtain d c i where k: "k = (d, c, i)" by (metis prod_cases3)
  have "\<not> in_use (cu_channels (ex_cu n j) ! i)" if "i < XRM_MAX_KERNEL_CHANNELS" for n j
  proof -
    have "length (cu_channels (ex_cu n j)) = XRM_MAX_KERNEL_CHANNELS"
      using ex_cu_inv(1) by (simp add: cu_inv_def cu_unfold)
    then show ?thesis using ex_cu_inv(5) [OF nth_mem, of i n j] that by (simp add: in_use_def)
  qed
  then show "grants ex_sys k = None"
    unfolding k grants_def chan_at_def by (cases c) (auto simp: ex_valid)
qed

lemma ex_prop_ok: "prop_ok ex_prop" "\<not> no_name ex_prop" "\<not> no_kernel ex_prop"
  by (simp_all add: prop_ok_def ex_prop_def cuProperty0_def no_name_def no_kernel_def c_str_def)

lemma ex_open: "open_to c ex_sys"
proof -
  have "\<exists>i<XRM_MAX_DEV_CLIENTS. cl_clientId (dv_clientProcs ex_device ! i) \<in> {c, 0}"
    by (intro exI[of _ 0]) (simp add: ex_device_def client0_def XRM_MAX_DEV_CLIENTS_def XRM_MAX_XILINX_KERNELS_def)
  then show ?thesis by (auto simp: open_to_def registrable_def)
qed

lemma ex_fits: "valid_cu ex_sys 0 0" "cu_matches ex_prop (cu_at ex_sys 0 0)" "can_take ex_prop (cu_at ex_sys 0 0)"
  by (simp_all add: ex_valid cu_matches_def can_take_def ex_prop_def cuProperty0_def ex_cu_inv(3) c_str_def
      XRM_MAX_KERNEL_CHANNELS_def)

text \<open>The first request is granted; \<open>ex_res\<close> and \<open>ex_sys1\<close> are what it leaves.\<close>

definition ex_res :: cuResource where
  "ex_res = fst (snd (resAllocCu ex_prop True (cuResource0, ex_sys)))"

definition ex_sys1 :: system where
  "ex_sys1 = snd (snd (resAllocCu ex_prop True (cuResource0, ex_sys)))"

lemma ex_alloc: "resAllocCu ex_prop True (cuResource0, ex_sys) = (XRM_SUCCESS, ex_res, ex_sys1)"
proof -
  have e: "resAllocCu ex_prop True (cuResource0, ex_sys) =
      (fst (resAllocCu ex_prop True (cuResource0, ex_sys)), ex_res, ex_sys1)"
    by (simp add: ex_res_def ex_sys1_def)
  have "\<not> pr_devExcl ex_prop" by (simp add: ex_prop_def cuProperty0_def)
  from resAllocCu_complete [OF ex_sys_inv ex_open ex_prop_ok(1) this ex_prop_ok(2) e] ex_fits
  have "fst (resAllocCu ex_prop True (cuResource0, ex_sys)) = XRM_SUCCESS" by blast
  with e show ?thesis by simp
qed

lemma ex_sys1_inv: "sys_inv ex_sys1" "load_inv ex_sys1"
  using alloc_result_inv [OF ex_sys_inv resAllocCu_spec [OF ex_sys_inv ex_prop_ok(1) ex_alloc]] ex_load_inv
  by auto

lemma ex_shared: "\<not> pr_devExcl ex_prop"
  by (simp add: ex_prop_def cuProperty0_def)

lemma ex_revoked: "\<exists>d c k. revoked ex_res d c k ex_sys1"
  using alloc_result_grants [OF ex_sys_inv resAllocCu_spec [OF ex_sys_inv ex_prop_ok(1) ex_alloc]] by auto

lemma ex_valid1: "valid_cu ex_sys1 d c \<longleftrightarrow> d = 0 \<and> c \<in> {0, 1}"
  using alloc_result_valid [OF resAllocCu_spec [OF ex_sys_inv ex_prop_ok(1) ex_alloc]] ex_valid by simp

section \<open>A list and a pool\<close>

definition ex_list :: "int \<Rightarrow> cuListProperty" where
  "ex_list n = \<lparr> lp_cuProps = replicate XRM_MAX_LIST_CU_NUM ex_prop, lp_cuNum = n, lp_sameDevice = False \<rparr>"

definition ex_lr :: cuListResource where
  "ex_lr = cuListResource0 XRM_MAX_LIST_CU_NUM"

lemma ex_list_ok: "list_ok (ex_list n)" "length (lr_cuResources ex_lr) = XRM_MAX_LIST_CU_NUM"
  using ex_prop_ok by (simp_all add: list_ok_def ex_list_def ex_lr_def cuListResource0_def)

lemma ex_list_alloc: "fst (resAllocCuList (ex_list 1) (ex_lr, ex_sys)) = XRM_SUCCESS"
proof -
  obtain r c t where run: "resAllocCu ex_prop False (cuResource0, ex_sys) = (r, c, t)" by (metis prod_cases3)
  have "r = XRM_SUCCESS"
    using resAllocCu_complete [OF ex_sys_inv ex_open ex_prop_ok(1) ex_shared ex_prop_ok(2) run] ex_fits by blast
  with run show ?thesis
    by (simp add: resAllocCuList_def ex_list_def ex_lr_def cuListResource0_def XRM_MAX_LIST_CU_NUM_def Let_def)
qed

definition ex_pool :: cuPoolProperty where
  "ex_pool = \<lparr> pp_cuListProp = ex_list 1\<lparr>lp_sameDevice := True\<rparr>, pp_cuListNum = 1, pp_xclbinUuid = [],
     pp_xclbinNum = 0, pp_clientId = 1, pp_clientProcessId = 42 \<rparr>"

lemma ex_pool_id: "getNextReservePoolId ex_sys = 1"
  by (simp add: getNextReservePoolId_def ex_sys_def)

lemma ex_reserve: "fst (reserveCuFromDev 1 0 ex_prop ex_sys) = XRM_SUCCESS"
proof -
  have "pooled_sys 1 ex_sys ex_sys" by (rule pooled_sys_refl [OF ex_sys_inv ex_fresh]) simp
  moreover have "kernel_matches ex_prop (cu_at ex_sys 0 0) \<and> can_reserve 1 ex_prop (cu_at ex_sys 0 0)"
    by (simp add: kernel_matches_def can_reserve_def ex_prop_def cuProperty0_def ex_cu_inv(3) c_str_def
        XRM_MAX_KERNEL_RESERVES_def)
  ultimately show ?thesis
    using reserveCuFromDev_spec(2) [OF _ prod.collapse [symmetric], of 1 ex_sys ex_sys 0 ex_prop]
      ex_prop_ok(3) ex_fits(1) by (simp add: exI[of _ 0] del: ex_fields(5))
qed

lemma ex_reserve_pool: "fst (resReserveCuPool ex_pool ex_sys) = 1"
proof -
  obtain t where t: "reserveCuFromDev 1 0 ex_prop ex_sys = (XRM_SUCCESS, t)"
    using ex_reserve by (metis prod.collapse)
  then have first: "reserve_list_try 1 [ex_prop] 0 (XRM_ERROR, ex_sys) = (True, XRM_SUCCESS, t)"
    by (simp add: reserve_list_try_def reserve_member_on_def)
  have "allocDevForClient (- 1) ex_prop ex_sys = 0"
    by (simp add: allocDevForClient_def getNextFreeDevForClient_def dev_usable_def)
  with first have "search_devices (reserve_list_try 1 [ex_prop]) ex_prop (XRM_ERROR, ex_sys) = (True, XRM_SUCCESS, t)"
    by (simp add: search_devices_def)
  then show ?thesis
    by (simp add: resReserveCuPool_def resReserveCuList_def ex_pool_def ex_list_def ex_pool_id Let_def
        XRM_MAX_LIST_CU_NUM_def)
qed

lemma ex_run3: "resAllocCuList lp (lr, s) = (fst (resAllocCuList lp (lr, s)),
    fst (snd (resAllocCuList lp (lr, s))), snd (snd (resAllocCuList lp (lr, s))))"
  by simp

lemma ex_whole: "reserves_inv (whole_reserve 1 1 42 (ex_cu k i))" "cu_numReserve (whole_reserve 1 1 42 (ex_cu k i)) = 1"
  "act_reserves (whole_reserve 1 1 42 (ex_cu k i)) = [whole_slot 1 1 42]"
proof -
  have "fresh_in 1 (ex_cu k i)" using ex_cu_inv(4,5) by (fastforce simp: fresh_in_def)
  from whole_reserve_idle(2) [OF _ ex_cu_inv(3) this] ex_cu_inv(1)
  show "reserves_inv (whole_reserve 1 1 42 (ex_cu k i))" by (auto simp: cu_inv_def cu_acct_def)
  show n: "cu_numReserve (whole_reserve 1 1 42 (ex_cu k i)) = 1" by (simp add: whole_reserve_def)
  have "cu_reserves (ex_cu k i) \<noteq> []"
    using ex_cu_inv(1) by (auto simp: cu_inv_def cu_unfold XRM_MAX_KERNEL_RESERVES_def)
  then show "act_reserves (whole_reserve 1 1 42 (ex_cu k i)) = [whole_slot 1 1 42]"
    by (cases "cu_reserves (ex_cu k i)") (simp_all add: act_reserves_def n whole_reserve_def whole_slot_def)
qed

lemma ex_devices: "m_devList ex_sys \<noteq> []"
  by (simp add: ex_sys_def XRM_MAX_XILINX_DEVICES_def)

section \<open>Groups, plugins and version 2 lists\<close>

lemma ex_group_table: "group_table_inv ex_sys" "group_entries ex_sys = [group_view ex_group]"
proof -
  show e: "group_entries ex_sys = [group_view ex_group]" by (simp add: group_entries_def ex_sys_def)
  have "group_ok ex_group" "group_ok blank_group"
    by (auto simp: group_ok_def group_in_bounds_def list_in_bounds_def ex_group_def blank_group_def blank_list_def
        XRM_MAX_UDF_CU_GROUP_OPTION_LIST_NUM_def XRM_MAX_LIST_CU_NUM_def)
  then show "group_table_inv ex_sys"
    unfolding group_table_inv_def e
    by (auto simp: ex_sys_def XRM_MAX_UDF_CU_GROUP_NUM_def group_view_def) (simp add: ex_group_def)
qed

lemma ex_groups_inv: "groups_inv ex_sys"
  using ex_group_table
  by (auto simp: groups_inv_def member_loads_ok_def group_view_def ex_group_def blank_list_def copy_group_list_def
      copy_group_prop_def cuProperty0_def)

definition ex_gp :: cuGroupProperty where
  "ex_gp = \<lparr> gp_udfCuGroupName = ''transcode'', gp_clientId = 1, gp_clientProcessId = 42, gp_poolId = 0 \<rparr>"

definition ex_member :: cuProperty where
  "ex_member = cuProperty0\<lparr>pr_cuName := ''enc:1'', pr_requestLoadUnified := 500000, pr_clientId := 1,
     pr_clientProcessId := 42\<rparr>"

lemma ex_group_request:
  "group_request ex_gp (hd (ug_optionUdfCuListProps ex_group)) =
   \<lparr> lp_cuProps = ex_member # replicate (XRM_MAX_LIST_CU_NUM - 1) cuProperty0, lp_cuNum = 1, lp_sameDevice = False \<rparr>"
  by (simp add: group_request_def ex_group_def blank_list_def group_member_def copy_group_prop_def cuProperty0_def
      ex_member_def ex_gp_def strncpy_def c_str_def XRM_MAX_NAME_LEN_def)

lemma ex_group_alloc: "fst (resAllocCuGroup ex_gp (ex_lr, ex_sys)) = XRM_SUCCESS"
proof -
  let ?lr = "cuListResource0 XRM_MAX_GROUP_CU_NUM"
  obtain r c t where run: "resAllocCu ex_member False (cuResource0, ex_sys) = (r, c, t)" by (metis prod_cases3)
  have m: "prop_ok ex_member" "\<not> pr_devExcl ex_member" "\<not> no_name ex_member"
    by (simp_all add: ex_member_def prop_ok_def cuProperty0_def no_name_def)
  have "valid_cu ex_sys 0 0 \<and> cu_matches ex_member (cu_at ex_sys 0 0) \<and> can_take ex_member (cu_at ex_sys 0 0)"
    by (simp add: ex_valid cu_matches_def can_take_def ex_member_def cuProperty0_def ex_cu_inv(3)
        XRM_MAX_KERNEL_CHANNELS_def)
  then have "r = XRM_SUCCESS" using resAllocCu_complete [OF ex_sys_inv ex_open m run] by blast
  with run have "fst (resAllocCuList (group_request ex_gp (hd (ug_optionUdfCuListProps ex_group))) (?lr, ex_sys)) = XRM_SUCCESS"
    by (simp add: ex_group_request resAllocCuList_def cuListResource0_def XRM_MAX_GROUP_CU_NUM_def
        XRM_MAX_LIST_CU_NUM_def Let_def)
  then obtain lr' t' where l: "resAllocCuList (group_request ex_gp (hd (ug_optionUdfCuListProps ex_group))) (?lr, ex_sys) =
      (XRM_SUCCESS, lr', t')" by (metis prod_cases3 fst_conv)
  have f: "find_group (gp_udfCuGroupName ex_gp) ex_sys = Some 0"
    unfolding find_group_def by (rule first_indexI) (simp_all add: ex_sys_def ex_group_def ex_gp_def c_str_def)
  have ls: "take (nat (ug_optionUdfCuListNum ex_group)) (ug_optionUdfCuListProps ex_group) = [hd (ug_optionUdfCuListProps ex_group)]"
    by (simp add: ex_group_def)
  have g: "m_udfCuGroups ex_sys ! 0 = ex_group" by (simp add: ex_sys_def)
  show ?thesis by (simp add: resAllocCuGroup_def f g ls Let_def try_list_def l)
qed

definition ex_gp2 :: cuGroupPropertyV2 where
  "ex_gp2 = \<lparr> g2_udfCuGroupName = ''transcode'', g2_clientId = 1, g2_clientProcessId = 42, g2_poolId = 0 \<rparr>"

lemma ex_groupsV2: "groupsV2_sized ex_sys" "groupsV2_loads_ok ex_sys"
  by (auto simp: groupsV2_sized_def groupsV2_loads_ok_def ex_sys_def ex_groupV2_def blank_groupV2_def blank_listV2_def
      cuPropertyV2_0_def XRM_MAX_UDF_CU_GROUP_NUM_V2_def XRM_MAX_LIST_CU_NUM_V2_def
      XRM_MAX_UDF_CU_GROUP_OPTION_LIST_NUM_def)

text \<open>A plugin file with one plugin, which echoes the parameter of its function 0.\<close>

definition echo :: "xrmPluginFuncParam \<Rightarrow> int \<times> xrmPluginFuncParam" where
  "echo p = (0, p\<lparr>pf_output := pf_input p\<rparr>)"

definition ex_plugin :: pluginInformation where
  "ex_plugin = \<lparr> pl_xrmPluginName = ''echo'', pl_xrmPluginFileName = ''libecho.so'',
     pl_pluginData = \<lparr> pg_pluginVersion = Some 1, pg_apiVersion = Some 1,
       pg_pluginFunc = Some echo # replicate XRM_MAX_PLUGIN_FUNC_ID None \<rparr> \<rparr>"

definition ex_dl :: loader where
  "ex_dl f = (if f = ''libecho.so'' then Some (\<lambda>n. if n = ''echo'' then Some (pl_pluginData ex_plugin) else None) else None)"

lemma ex_plugins: "plugins_inv ex_sys" "plugins ex_sys = []"
  by (auto simp: plugins_inv_def plugins_def plugin_ok_def ex_sys_def flushed_plugin_def XRM_MAX_PLUGIN_NUM_def)

lemma ex_provides: "provides ex_dl ex_plugin" "m_numXrmPlugin ex_sys < XRM_MAX_PLUGIN_NUM"
  by (simp_all add: provides_def ex_dl_def ex_plugin_def c_str_def plugin_ok_def XRM_API_VERSION_1_def ex_sys_def
      XRM_MAX_PLUGIN_NUM_def)

definition ex_listV2 :: cuListPropertyV2 where
  "ex_listV2 = \<lparr> l2_cuProps = cuPropertyV2_0\<lparr>pr_kernelName := ''enc'', pr_requestLoadUnified := 500000,
       pr_clientId := 1, pr_clientProcessId := 42\<rparr> # replicate (XRM_MAX_LIST_CU_NUM_V2 - 1) cuPropertyV2_0,
     l2_cuNum = 1 \<rparr>"

definition ex_lr2 :: cuListResource where
  "ex_lr2 = cuListResource0 XRM_MAX_LIST_CU_NUM_V2"

lemma ex_propV2: "cuPropertyCopyFromV2 (l2_cuProps ex_listV2 ! 0) = ex_prop"
  by (simp add: cuPropertyCopyFromV2_def ex_listV2_def cuPropertyV2_0_def ex_prop_def cuProperty0_def strncpy_def c_str_def
      XRM_MAX_NAME_LEN_def)

lemma ex_listV2_ok: "listV2_ok ex_listV2" "length (lr_cuResources ex_lr2) = XRM_MAX_LIST_CU_NUM_V2" "lr_cuNum ex_lr2 = 0"
  using ex_prop_ok(1) ex_propV2
  by (simp_all add: listV2_ok_def ex_listV2_def ex_lr2_def cuListResource0_def XRM_MAX_LIST_CU_NUM_V2_def)

lemma ex_listV2_alloc: "fst (resAllocCuListV2 ex_listV2 (ex_lr2, ex_sys)) = XRM_SUCCESS"
proof -
  obtain r c t where run: "resAllocCu ex_prop False (cuResource0, ex_sys) = (r, c, t)" by (metis prod_cases3)
  have r: "r = XRM_SUCCESS"
    using resAllocCu_complete [OF ex_sys_inv ex_open ex_prop_ok(1) ex_shared ex_prop_ok(2) run] ex_fits by blast
  have n: "l2_cuNum ex_listV2 = 1" "deviceInfoConstraintType (l2_cuProps ex_listV2 ! 0) = XRM_DEVICE_INFO_CONSTRAINT_TYPE_NULL"
    by (simp_all add: ex_listV2_def deviceInfoConstraintType_def cuPropertyV2_0_def XRM_DEVICE_INFO_CONSTRAINT_TYPE_NULL_def)
  have l0: "lr_cuResources ex_lr2 ! 0 = cuResource0" "\<not> it_handled (itemFlags0 ! 0)"
    by (simp_all add: ex_lr2_def cuListResource0_def itemFlags0_def XRM_MAX_LIST_CU_NUM_V2_def)
  show ?thesis
    using run r by (simp add: resAllocCuListV2_def n alloc_v2_step_def Let_def ex_propV2 l0 XRM_MAX_LIST_CU_NUM_V2_def)
qed

section \<open>Queries\<close>

definition ex_query :: allocationQueryInfo where
  "ex_query = \<lparr> aq_allocServiceId = 1, aq_kernelName = [], aq_kernelAlias = [] \<rparr>"

lemma ex_service_grants: "\<exists>d c i. service_grants 1 [] [] ex_sys1 = {(d, c, i)}"
proof -
  have "getNextAllocServiceId ex_sys = 1" by (simp add: getNextAllocServiceId_def ex_sys_def)
  with alloc_result_grants [OF ex_sys_inv resAllocCu_spec [OF ex_sys_inv ex_prop_ok(1) ex_alloc]]
  obtain d c i where "grants ex_sys1 = (grants ex_sys)((d, c, i) \<mapsto> fill_channel ex_prop 1 (chan_at ex_sys d c i))"
    by auto
  then have "service_grants 1 [] [] ex_sys1 = {(d, c, i)}"
    by (auto simp: service_grants_def names_match_def ex_no_grants fill_channel_def split: if_splits)
  then show ?thesis by blast
qed

definition ex_pooled :: system where
  "ex_pooled = snd (resReserveCuPool ex_pool ex_sys)"

lemma ex_pooled_inv: "sys_inv ex_pooled" "valid_cu ex_pooled d c \<longleftrightarrow> d = 0 \<and> c \<in> {0, 1}"
proof -
  have f: "fresh_pool (getNextReservePoolId ex_sys) ex_sys" using ex_fresh [of 1] by (simp add: ex_pool_id)
  obtain t where t: "ex_pooled = updateReservePoolId t" "pooled_sys 1 ex_sys t"
    using resReserveCuPool_spec(2) [OF ex_sys_inv f prod.collapse [symmetric], of ex_pool] ex_reserve_pool
    unfolding ex_pooled_def by auto
  show "sys_inv ex_pooled" "valid_cu ex_pooled d c \<longleftrightarrow> d = 0 \<and> c \<in> {0, 1}"
    using pooled_sysD(1) [OF t(2)] pooled_sysD(3) [OF t(2), of d c, unfolded ex_valid]
    by (simp_all add: t(1) valid_cu_def)
qed

lemma ex_pooled_few: "card {dc. reserved ex_pooled dc p \<noteq> None} \<le> XRM_MAX_POOL_CU_NUM"
proof -
  have sub: "{dc. reserved ex_pooled dc p \<noteq> None} \<subseteq> {(0, 0), (0, 1)}"
    by (auto simp: reserved_def ex_pooled_inv(2) split: if_splits)
  have "card {dc. reserved ex_pooled dc p \<noteq> None} \<le> 2"
    using card_mono [OF _ sub] by simp
  then show ?thesis by (simp add: XRM_MAX_POOL_CU_NUM_def)
qed

section \<open>Policies\<close>

definition ex_policy :: "u64 \<Rightarrow> cuPropertyV2" where
  "ex_policy policyInfo = cuPropertyV2_0\<lparr>pr_kernelName := ''enc'', pr_requestLoadUnified := 500000,
     pr_clientId := 1, pr_clientProcessId := 42, p2_policyInfo := policyInfo\<rparr>"

lemma ex_policy_prop: "cuPropertyCopyFromV2 (ex_policy policyInfo) = ex_prop"
  by (simp add: cuPropertyCopyFromV2_def ex_policy_def cuPropertyV2_0_def ex_prop_def cuProperty0_def strncpy_def c_str_def
      XRM_MAX_NAME_LEN_def)

lemma ex_policy_fields: "pr_clientId (ex_policy p) = 1" "pr_poolId (ex_policy p) = 0" "\<not> pr_devExcl (ex_policy p)"
  "p2_policyInfo (ex_policy p) = p"
  by (simp_all add: ex_policy_def cuPropertyV2_0_def)

lemma ex_absent: "absent 1 ex_sys"
  by (simp add: absent_def absent_on_def ex_sys_def ex_device_def dev_at_def XRM_MAX_XILINX_DEVICES_def client0_def)

lemma ex_never_best: "never_best 1 ex_prop ex_sys"
  by (auto simp: never_best_def ex_valid ex_cu_inv(3) most_used_first_def policy_defs ex_prop_def cuProperty0_def cu_matches_def)

lemma ex_idle_channels: "valid_cu ex_sys d c \<Longrightarrow> cu_numChanInuse (cu_at ex_sys d c) = 0"
  by (auto simp: ex_valid)

lemma ex_not_crowded: "\<not> crowded ex_prop ex_sys"
  using ex_idle_channels by (fastforce simp: crowded_def XRM_MAX_KERNEL_CHANNELS_def)

lemma ex_least_used: "fst (resAllocCuFromDevByCuLoad 0 (ex_policy 2) False (cuResource0, ex_sys)) = XRM_SUCCESS"
proof -
  obtain ret r t where run: "resAllocCuFromDevByCuLoad 0 (ex_policy 2) False (cuResource0, ex_sys) = (ret, r, t)"
    by (metis prod_cases3)
  have fine: "dev_refuses 0 ex_prop ex_sys = None" by (simp add: dev_refuses_def ex_prop_ok)
  have "fst (allocClientFromDev (int 0) ex_prop ex_sys) = XRM_SUCCESS"
    using allocClient_open(1) [OF ex_sys_inv ex_open _ _ refl _ prod.collapse [symmetric], of 0 ex_prop] ex_shared by simp
  moreover have "candidate ex_prop 0 ex_sys 0"
    using ex_fits by (simp add: candidate_def can_take_fits del: ex_fields)
  ultimately have "ret = XRM_SUCCESS"
    using resAllocCuFromDevByCuLoad_choice [OF ex_sys_inv _ _ _ _ _ _ run] fine ex_prop_ok(1) ex_idle_channels
    by (auto simp: ex_policy_prop ex_policy_fields least_used_first_def policy_defs XRM_MAX_KERNEL_CHANNELS_def split: if_splits)
  with run show ?thesis by simp
qed

text \<open>The search with the policy that prefers used compute units finds the idle one, and only remembers it.\<close>

lemma ex_policy_scan:
  assumes "quiet ex_sys t"
  shows "policy_scan aff ex_prop 1 0 ((None, r), t) = (False, ((if aff then None else Some (0, 0)), r), t)"
proof -
  have ids: "cu_ids (dev_at t 0) = [0, 1]"
    using assms ex_fields(3) same_cus_dev [of ex_sys t 0] by (simp add: quiet_def cu_ids_def numCu_def same_cus_def XRM_MAX_XILINX_KERNELS_def
        numeral_2_eq_2)
  have at: "cu_at t 0 0 = ex_cu ''enc'' 0" "cu_at t 0 1 = ex_cu ''dec'' 1"
    using quiet_inv(4) [OF assms, of 0 0] quiet_inv(4) [OF assms, of 0 1] by simp_all
  have idle: "cu_numClient (ex_cu k i) = 0" for k i by (simp add: ex_cu_def init_cu_def)
  show ?thesis
    by (simp add: policy_scan_def ids at [simplified] affinity_skip_def idle policy_cu_def cu_matches_def ex_prop_def cuProperty0_def
        allocChanClientFromCu_def ex_cu_inv(3) most_used_first_def policy_defs)
qed

lemma ex_policy_search:
  assumes q: "quiet ex_sys t" and o: "open_to 1 t"
  obtains t' where "search_devices (policy_try aff ex_prop 1) ex_prop ((None, r), t) =
      (False, ((if aff then None else Some (0, 0)), r), t')" "quiet ex_sys t'" "open_to 1 t'"
proof -
  have c: "pr_clientId ex_prop = 1" by (simp add: ex_prop_def)
  have n: "m_numDevice t = 1" "sys_inv t" using quiet_inv(1,3) [OF q] ex_sys_inv by simp_all
  have l: "dv_isLoaded (dev_at t 0)" using q ex_fields(12) by (simp add: quiet_def same_cus_def)
  obtain ret t1 where a: "allocClientFromDev (int 0) ex_prop t = (ret, t1)" by fastforce
  note reg = allocClient_open [OF n(2) o _ l c ex_shared a]
  have q1: "quiet ex_sys t1" by (rule quiet_trans [OF q quiet_alloc_client [OF n(2) a]])
  let ?t2 = "snd (releaseClientOnDev (int 0) 1 t1)"
  have q2: "quiet ex_sys ?t2" by (rule quiet_trans [OF q1 quiet_release_client])
  have o2: "open_to 1 ?t2"
    using releaseClient_open [OF quiet_inv(1) [OF q1 ex_sys_inv] reg(2) _ prod.collapse [symmetric]] quiet_inv(3) [OF q1] n by simp
  have n2: "m_numDevice ?t2 = 1" using quiet_inv(3) [OF q2] by simp
  have body: "policy_try aff ex_prop 1 0 ((None, r), t) = (False, ((if aff then None else Some (0, 0)), r), ?t2)"
    using a reg(1) n(1) ex_policy_scan [OF q1, of aff r] by (simp add: policy_try_def c)
  have u: "dev_usable t (pr_clientId ex_prop) 0" using open_usable [OF o, of 0] n l by (simp add: c)
  have first: "allocDevForClient (- 1) ex_prop t = 0"
    using allocDevForClient_le [OF u, of "- 1"] n by simp
  have second: "allocDevForClient 0 ex_prop ?t2 < 0"
    using allocDevForClient_spec [OF refl, of 0 ex_prop ?t2] n2 by (cases "0 \<le> allocDevForClient 0 ex_prop ?t2") auto
  have "search_devices (policy_try aff ex_prop 1) ex_prop ((None, r), t) =
      (False, ((if aff then None else Some (0, 0)), r), ?t2)"
    using first second n n2 body by (simp add: search_devices_def numeral_2_eq_2 del: if_split)
  then show ?thesis using q2 o2 by (rule that)
qed

lemma ex_most_used: "fst (resAllocCuByCuLoad (ex_policy 1) True (cuResource0, ex_sys)) = XRM_SUCCESS"
proof -
  obtain t where t: "search_devices (policy_try True ex_prop 1) ex_prop ((None, cuResource0), ex_sys) = (False, (None, cuResource0), t)"
      "quiet ex_sys t" "open_to 1 t"
    using ex_policy_search [OF quiet_refl ex_open, of True] by auto
  obtain u where u: "search_devices (policy_try False ex_prop 1) ex_prop ((None, cuResource0), t) =
      (False, (Some (0, 0), cuResource0), u)"
    using ex_policy_search [OF t(2,3), of False] by auto
  obtain r0 c0 w where al: "allocChan 0 0 ex_prop (cuResource0, u) = (r0, c0, w)" by (metis prod_cases3)
  show ?thesis
    by (simp add: resAllocCuByCuLoad_def Let_def ex_policy_prop ex_policy_fields t u take_preCu_def al finish_alloc_def)
qed

end
