(* ===== verification/Xrm_Example_Host.thy ===== *)
theory Xrm_Example_Host
  imports Xrm_Example Xrm_Client_Link Xrm_Daemon_Effects
begin

text \<open>
  A host for the example system: a property tree, a text format that is written and read back, a driver with one
  xclbin, and a client whose socket leads to the daemon. The parameters of the model satisfy what the properties
  assume of them.
\<close>

section \<open>A tree and its text\<close>

type_synonym tree = "(string \<times> string) list"

definition ex_tree :: "tree ptree" where
  "ex_tree = \<lparr> pt_empty = [], pt_put = (\<lambda>p v m. (p, v) # m), pt_get = (\<lambda>p m. map_of m p),
     pt_children = (\<lambda>_ _. None) \<rparr>"

lemma ex_tree_ok: "ptree_ok ex_tree"
  by (simp add: ptree_ok_def ex_tree_def)

text \<open>A character is written as two letters, and a string ends with a semicolon.\<close>

fun spell :: "string \<Rightarrow> string" where
  "spell [] = '';''"
| "spell (c # cs) = char_of (65 + of_char c div 16 :: nat) # char_of (65 + of_char c mod 16 :: nat) # spell cs"

fun unspell :: "string \<Rightarrow> string \<times> string" where
  "unspell (a # b # rest) =
     (if a = CHR '';'' then ([], b # rest)
      else case unspell rest of (cs, r) \<Rightarrow> (char_of ((of_char a - 65) * 16 + (of_char b - 65) :: nat) # cs, r))"
| "unspell rest = ([], drop 1 rest)"

definition write_tree :: "tree \<Rightarrow> string" where
  "write_tree m = concat (map (\<lambda>(k, v). spell k @ spell v) m)"

fun read_pairs :: "nat \<Rightarrow> string \<Rightarrow> tree" where
  "read_pairs 0 s = []"
| "read_pairs (Suc n) s =
     (if s = [] then []
      else case unspell s of (k, r) \<Rightarrow> case unspell r of (v, r') \<Rightarrow> (k, v) # read_pairs n r')"

definition read_tree :: "string \<Rightarrow> tree option" where
  "read_tree s = (let m = read_pairs (length s) s in if write_tree m = s then Some m else None)"

lemma letter: "65 + n div 16 < (256 :: nat) \<and> 65 + n mod 16 < (256 :: nat)" if "n < 256" for n :: nat
  using that by auto

lemma unspell_spell [simp]: "unspell (spell k @ rest) = (k, rest)"
proof (induction k)
  case Nil
  then show ?case by (cases rest) auto
next
  case (Cons c k)
  have "of_char c < (256 :: nat)" by simp
  note l = letter [OF this]
  have a: "of_char (char_of (65 + of_char c div 16 :: nat) :: char) = (65 + of_char c div 16 :: nat)"
    and b: "of_char (char_of (65 + of_char c mod 16 :: nat) :: char) = (65 + of_char c mod 16 :: nat)"
    using l by simp_all
  have "char_of (65 + of_char c div 16 :: nat) \<noteq> CHR '';''"
  proof
    assume "char_of (65 + of_char c div 16 :: nat) = CHR '';''"
    then have "of_char (char_of (65 + of_char c div 16 :: nat) :: char) = (59 :: nat)" by simp
    with a show False by simp
  qed
  then show ?case using Cons a b by simp
qed

lemma length_spell: "length (spell k) = 2 * length k + 1"
  by (induction k) auto

lemma length_write: "length (write_tree m) = (\<Sum>(k, v)\<leftarrow>m. 2 * length k + 2 * length v + 2)"
  by (induction m) (auto simp: write_tree_def length_spell)

lemma spell_nonempty [simp]: "spell k \<noteq> []"
  by (cases k) auto

lemma write_tree_simps [simp]: "write_tree [] = []" "write_tree ((k, v) # m) = spell k @ spell v @ write_tree m"
  by (simp_all add: write_tree_def)

lemma write_empty [simp]: "write_tree m = [] \<longleftrightarrow> m = []"
  by (cases m) auto

lemma read_pairs_write: "length m \<le> n \<Longrightarrow> read_pairs n (write_tree m) = m"
proof (induction m arbitrary: n)
  case Nil
  show ?case by (cases n) auto
next
  case (Cons kv m)
  then show ?case by (cases kv; cases n) auto
qed

lemma length_le_write: "length m \<le> length (write_tree m)"
  by (induction m) (auto simp: length_spell)

lemma read_write [simp]: "read_tree (write_tree m) = Some m"
  by (simp add: read_tree_def Let_def read_pairs_write [OF length_le_write])

lemma no_null: "CHR 0x00 \<notin> set (spell k)"
proof (induction k)
  case (Cons c k)
  have "of_char c < (256 :: nat)" by simp
  note l = letter [OF this]
  have "char_of n \<noteq> CHR 0x00" if "n < 256" "0 < n" for n :: nat
  proof
    assume "char_of n = CHR 0x00"
    then have "of_char (char_of n :: char) = (0 :: nat)" by simp
    with that show False by simp
  qed
  with l Cons show ?case by (auto simp: eq_commute [of "CHR 0x00"])
qed simp

lemma c_str_write [simp]: "c_str (write_tree m) = write_tree m"
proof -
  have "CHR 0x00 \<notin> set (write_tree m)" using no_null by (induction m) auto
  then show ?thesis by (auto simp: c_str_def takeWhile_eq_all_conv)
qed

section \<open>The host\<close>

text \<open>A driver with one xclbin, of one compute unit.\<close>

definition ex_xrt :: xrt where
  "ex_xrt = \<lparr> xclProbe = 1, xclOpen = (\<lambda>_. 1), xclGetDeviceInfo2 = (\<lambda>_. (0, \<lparr> di_mName = ''u30'', di_mPciSlot = 0 \<rparr>)),
     xclLoadXclBin = (\<lambda>_ _. 0), xclOpenContext = (\<lambda>_ _. 0), xclCloseContext = (\<lambda>_ _. 0),
     libVersionDepFuncs = \<lparr> libVersionDepFuncXclCuName2Index = None, libVersionDepFuncXclIPName2Index25 = None,
       libVersionDepFuncXclIPName2Index26 = None, libVersionDepFuncXclLockDevice = None,
       libVersionDepFuncXclUnlockDevice = None \<rparr>,
     read_file = (\<lambda>name. if name = ''enc.xclbin'' then FileData [7] else CannotOpen),
     axlf_uuid = (\<lambda>_. replicate 16 7),
     axlf_ip_layout = (\<lambda>_. Some [\<lparr> ip_m_type = IP_KERNEL, ip_m_name = ''enc:enc_1'', ip_m_base_address = 4096 \<rparr>]),
     axlf_soft_kernels = (\<lambda>_. []), axlf_mem_topology = (\<lambda>_. None), axlf_connectivity = (\<lambda>_. Some []),
     axlf_key_values = (\<lambda>_. Some None) \<rparr>"

lemma ex_xrt_ok: "driver_ok ex_xrt"
proof -
  have one: "{0} = {0..<1 :: int}" by auto
  show ?thesis
    by (simp add: driver_ok_def xclbin_ok_def ex_xrt_def soft_count_def pick_cu_def wrapIPName2Index_def
        Let_def XRM_MAX_XILINX_KERNELS_def one)
qed

definition ex_host :: "tree host" where
  "ex_host = \<lparr> h_tree = ex_tree, h_read_json = (\<lambda>t. case read_tree t of None \<Rightarrow> Inl ''expected value'' | Some m \<Rightarrow> Inr m),
     h_write_json = write_tree, h_xrt = ex_xrt, h_loader = ex_dl, h_sysfs = (\<lambda>_. None), h_errmsg = [], h_int = 0,
     h_char = CHR 0x00, h_cuProp = cuProperty0, h_cuPropV2 = cuPropertyV2_0, h_cuRes = cuResource0,
     h_cuStat = \<lparr> st_isBusy = False, st_usedLoadUnified = 0, st_usedLoadOriginal = 0 \<rparr>, h_groupInfo = blank_group, h_groupInfoV2 = blank_groupV2 \<rparr>"

lemma ex_host_fields [simp]:
  "h_tree ex_host = ex_tree" "h_write_json ex_host = write_tree" "h_read_json ex_host (write_tree m) = Inr m"
  "h_xrt ex_host = ex_xrt" "h_cuRes ex_host = cuResource0" "h_cuProp ex_host = cuProperty0"
  by (simp_all add: ex_host_def)

text \<open>A client on a connection that delivers every answer in two pieces.\<close>

definition ex_split :: "string \<Rightarrow> string list" where
  "ex_split b = (if b = [] then [] else if length b \<le> 6 then [b] else [take 6 b, drop 6 b])"

lemma ex_split_ok: "split_ok ex_split"
  by (auto simp: split_ok_def ex_split_def)

definition ex_client :: "(tree, wire) client" where
  "ex_client = \<lparr> ci_tree = ex_tree, ci_read_json = read_tree, ci_write_json = write_tree,
     ci_socket = daemon_socket ex_host ex_split, ci_pid = 42 \<rparr>"

definition ex_ctx :: xrmPrivateContext where
  "ex_ctx = \<lparr> xc_xrmApiVersion = 1, xc_xrmLogLevel = 0, xc_xrmClientId = 1 \<rparr>"

definition ex_cp :: xrmCuProperty where
  "ex_cp = \<lparr> cp_kernelName = ''enc'', cp_kernelAlias = [], cp_devExcl = False, cp_requestLoad = 50, cp_poolId = 0 \<rparr>"

definition ex_session :: session where
  "ex_session = \<lparr> se_clientId = 1, se_clientProcessId = 42 \<rparr>"

definition ex_wire :: "system \<Rightarrow> wire" where
  "ex_wire s = \<lparr> wi_state = (ex_session, s), wi_pieces = [], wi_ended = False \<rparr>"

text \<open>The request of the client is for half of a compute unit of the kernel \<open>enc\<close>.\<close>

lemma ex_wanted: "wanted ex_ctx 42 ex_cp = ex_prop\<lparr>pr_requestLoadOriginal := 50\<rparr>"
  by (simp add: wanted_def ex_ctx_def ex_cp_def ex_prop_def cuProperty0_def xrmRetrieveLoadInfo_def strncpy_def c_str_def
      XRM_MAX_NAME_LEN_def)

definition ex_req :: cuProperty where
  "ex_req = ex_prop\<lparr>pr_requestLoadOriginal := 50\<rparr>"

lemma ex_req_ok: "prop_ok ex_req" "\<not> pr_devExcl ex_req" "\<not> no_name ex_req"
  using ex_prop_ok(1,2) ex_shared by (simp_all add: ex_req_def prop_ok_def no_name_def)

definition ex_granted :: cuResource where
  "ex_granted = fst (snd (resAllocCu ex_req True (cuResource0, ex_sys)))"

definition ex_after :: system where
  "ex_after = snd (snd (resAllocCu ex_req True (cuResource0, ex_sys)))"

lemma ex_req_alloc: "resAllocCu ex_req True (cuResource0, ex_sys) = (XRM_SUCCESS, ex_granted, ex_after)"
proof -
  have e: "resAllocCu ex_req True (cuResource0, ex_sys) =
      (fst (resAllocCu ex_req True (cuResource0, ex_sys)), ex_granted, ex_after)"
    by (simp add: ex_granted_def ex_after_def)
  have "cu_matches ex_req (cu_at ex_sys 0 0) \<and> can_take ex_req (cu_at ex_sys 0 0)"
    using ex_fits(2,3) by (simp add: ex_req_def cu_matches_def can_take_def)
  with resAllocCu_complete [OF ex_sys_inv ex_open ex_req_ok e] ex_fits(1)
  have "fst (resAllocCu ex_req True (cuResource0, ex_sys)) = XRM_SUCCESS" by blast
  with e show ?thesis by simp
qed

section \<open>The size of an answer\<close>

lemma length_show_nat: "n < 10 ^ k \<Longrightarrow> 0 < k \<Longrightarrow> length (show_nat n) \<le> k"
proof (induction n arbitrary: k rule: show_nat.induct)
  case (1 n)
  show ?case
  proof (cases "n < 10")
    case True
    with "1.prems" show ?thesis by (subst show_nat.simps) simp
  next
    case False
    obtain j where j: "k = Suc j" using "1.prems"(2) by (cases k) auto
    have "n div 10 < 10 ^ j" using "1.prems"(1) j by (simp add: less_mult_imp_div_less mult.commute)
    moreover have "0 < j" using False "1.prems"(1) j by (cases j) auto
    ultimately have "length (show_nat (n div 10)) \<le> j" using "1.IH" False by blast
    with False j show ?thesis by (subst show_nat.simps) simp
  qed
qed

lemma length_show_u64: "length (show_word (w :: u64)) \<le> 20"
proof -
  have "unat w < 2 ^ 64" using unsigned_less [of w] by simp
  also have "\<dots> < (10 :: nat) ^ 20" by simp
  finally show ?thesis unfolding show_word_def by (rule length_show_nat) simp
qed

lemma length_show_u32: "length (show_word (w :: u32)) \<le> 20"
proof -
  have "unat w < 2 ^ 32" using unsigned_less [of w] by simp
  also have "\<dots> < (10 :: nat) ^ 20" by simp
  finally show ?thesis unfolding show_word_def by (rule length_show_nat) simp
qed

lemma length_show_i32:
  assumes "i32_range i"
  shows "length (show_int i) \<le> 20"
proof -
  have "nat i \<le> 2147483648" "nat (- i) \<le> 2147483648" using assms by (simp_all add: i32_range_def nat_le_iff)
  then have "nat i < 10 ^ 19" "nat (- i) < 10 ^ 19" by simp_all
  then show ?thesis using length_show_nat [of "nat i" 19] length_show_nat [of "nat (- i)" 19] by (simp add: show_int_def)
qed

lemma put_all_tree: "put_all ex_tree kvs m = rev kvs @ m"
  by (induction kvs arbitrary: m) (auto simp: ex_tree_def)

lemma length_answer:
  assumes "texts_fit r" "numbers_fit r" "i32_range ret"
  shows "length (write_tree (answer_message ex_tree ret r)) \<le> max_length - 5"
proof -
  have u: "length (show_word (w :: u64)) \<le> 256" "length (show_word (v :: u32)) \<le> 256" for w v
    using length_show_u64 [of w] length_show_u32 [of v] by simp_all
  have i: "i32_range n \<Longrightarrow> length (show_int n) \<le> 256" for n using length_show_i32 [of n] by simp
  have small: "length k \<le> 64 \<and> length v \<le> 256" if "(k, v) \<in> set (cu_reply ret r)" for k v
    using that assms u i
    by (auto simp: cu_reply_def status_def show_granted_values granted_values_def dat_def texts_fit_def numbers_fit_def
        XRM_MAX_NAME_LEN_def less_imp_le split: if_splits)
  have few: "length (cu_reply ret r) \<le> 20"
    by (simp add: cu_reply_def status_def show_granted_values granted_values_def)
  have sum: "(\<Sum>(k, v)\<leftarrow>kvs. 2 * length k + 2 * length v + 2) \<le> 642 * length kvs"
    if "\<And>k v. (k, v) \<in> set kvs \<Longrightarrow> length k \<le> 64 \<and> length v \<le> 256" for kvs :: tree
    using that
  proof (induction kvs)
    case (Cons kv kvs)
    obtain k v where kv: "kv = (k, v)" by fastforce
    have "length k \<le> 64 \<and> length v \<le> 256" by (rule Cons.prems) (simp add: kv)
    moreover have "(\<Sum>(k, v)\<leftarrow>kvs. 2 * length k + 2 * length v + 2) \<le> 642 * length kvs"
      by (rule Cons.IH) (rule Cons.prems, simp)
    ultimately show ?case unfolding kv by simp
  qed simp
  have "answer_message ex_tree ret r = rev (cu_reply ret r)"
    by (simp add: answer_message_def put_all_tree) (simp add: ex_tree_def)
  then have "length (write_tree (answer_message ex_tree ret r)) \<le> 642 * length (cu_reply ret r)"
    using sum [of "rev (cu_reply ret r)"] small by (simp add: length_write)
  with few show ?thesis by (simp add: max_length_def)
qed

lemma ex_answer:
  "length (write_tree (answer_message ex_tree XRM_SUCCESS ex_granted)) \<le> max_length - 5"
  "write_tree (answer_message ex_tree XRM_SUCCESS ex_granted) \<noteq> []"
proof -
  have "i32_range (pr_requestLoadOriginal ex_req)" by (simp add: ex_req_def i32_range_def)
  note numbers = resAllocCu_numbers [OF ex_sys_inv ex_req_ok(1) this ex_req_alloc]
  show "length (write_tree (answer_message ex_tree XRM_SUCCESS ex_granted)) \<le> max_length - 5"
    by (rule length_answer [OF resAllocCu_texts [OF ex_req_alloc] numbers(2,1)]) simp_all
  show "write_tree (answer_message ex_tree XRM_SUCCESS ex_granted) \<noteq> []"
    by (simp add: answer_message_def put_all_tree del: put_all.simps) (simp add: cu_reply_def status_def)
qed

section \<open>Requests and runs\<close>

definition ex_msg :: tree where
  "ex_msg = cuAlloc_message ex_client ex_ctx ex_cp"

lemma ex_client_fields [simp]: "ci_tree ex_client = ex_tree" "ci_pid ex_client = 42" "ci_write_json ex_client = write_tree"
  "ci_read_json ex_client = read_tree" "ci_socket ex_client = daemon_socket ex_host ex_split"
  by (simp_all add: ex_client_def)

lemma ex_cp_fields [simp]: "cp_requestLoad ex_cp = 50" "\<not> no_names ex_cp" "xc_xrmApiVersion ex_ctx = XRM_API_VERSION_1_u32"
  "xc_xrmClientId ex_ctx = 1" "0 \<le> xrmRetrieveLoadInfo 50" "i32_range 50" "i32_range 42"
  by (simp_all add: ex_cp_def no_names_def ex_ctx_def XRM_API_VERSION_1_u32_def xrmRetrieveLoadInfo_def i32_range_def)

lemma ex_wire_fields [simp]: "wi_state (ex_wire s) = (ex_session, s)" "wi_pieces (ex_wire s) = []" "\<not> wi_ended (ex_wire s)"
  by (simp_all add: ex_wire_def)

lemma ex_gets:
  "pt_get ex_tree p m = map_of m p" "get_str ex_tree p m = map_of m p" "get_i32 ex_tree p m = Option.bind (map_of m p) read_i32"
  "get_u64 ex_tree p m = Option.bind (map_of m p) read_u64"
  by (simp_all add: get_str_def get_i32_def get_u64_def ex_tree_def)

lemma ex_read: "read_request ex_tree ex_msg q = Some ex_req"
  using read_request_wanted [of ex_client ex_cp ex_ctx q] ex_tree_ok by (simp add: ex_msg_def ex_wanted ex_req_def)

definition ex_daemon :: daemon where
  "ex_daemon = \<lparr> d_running = True, d_system = ex_sys, d_sessions = [0 \<mapsto> ex_session] \<rparr>"

definition ex_daemon1 :: daemon where
  "ex_daemon1 = session_step 0 True (ex_session, ex_after) ex_daemon"

lemma ex_msg_pairs:
  "ex_msg = rev ([(''request.name'', ''cuAlloc''), (''request.requestId'', show_int 1)] @
     map (\<lambda>(k, v). (par k, v)) (cuAlloc_params ex_ctx 42 ex_cp))"
  by (simp add: ex_msg_def cuAlloc_message_params message_def put_all_tree del: put_all.simps rev.simps)
    (simp add: ex_tree_def)

definition small_number :: "string \<Rightarrow> bool" where
  "small_number v \<longleftrightarrow> (case read_i32 v of None \<Rightarrow> True | Some n \<Rightarrow> n \<le> 1000000)"

lemma ex_msg_small: "\<forall>(k, v)\<in>set ex_msg. small_number v"
proof -
  have texts: "small_number ''cuAlloc''" "small_number ''echo''" "small_number ''enc''" "small_number []" by code_simp+
  have numbers: "small_number (show_int n)" if "- 2 \<le> n" "n \<le> 1000000" for n
    using that by (simp add: small_number_def i32_range_def)
  have word: "small_number (show_word (1 :: u64))" "small_number (show_word (0 :: u64))" by code_simp+
  show ?thesis
    unfolding ex_msg_pairs using texts numbers word retrieve_range [of 50]
    by (simp add: cuAlloc_params_def ex_ctx_def ex_cp_def show_flag_def)
qed

lemma ex_msg_keys: "\<forall>(k, v)\<in>set ex_msg. take 27 k \<noteq> ''request.parameters.deviceId'' \<and>
  take 23 k \<noteq> ''request.parameters.cuId'' \<and> take 37 k \<noteq> ''request.parameters.optionUdfCuListNum''"
  unfolding ex_msg_pairs by (simp add: cuAlloc_params_def par_def)

lemma ex_sane: "sane ex_tree ex_msg ex_sys" "in_bounds ex_tree ex_msg ex_sys"
proof -
  have small: "n \<le> 1000000" if get: "get_i32 ex_tree p ex_msg = Some n" for p n
  proof -
    obtain v where v: "map_of ex_msg p = Some v" "read_i32 v = Some n"
      using get unfolding ex_gets bind_Some_conv by blast
    from map_of_SomeD [OF v(1)] ex_msg_small have "small_number v" by auto
    with v(2) show ?thesis by (simp add: small_number_def)
  qed
  have id: "get_u64 ex_tree (par ''clientId'') ex_msg = Some 1"
    using message_get(1) [OF ex_tree_ok cuAlloc_plain [of ex_ctx 42 ex_cp], of "''clientId''" "show_word (1 :: u64)" "''cuAlloc''"]
    by (simp add: get_u64_def ex_msg_def cuAlloc_message_params) (simp add: cuAlloc_params_def)
  have "fresh_pool (getNextReservePoolId ex_sys) ex_sys" using ex_fresh [of 1] by (simp add: ex_pool_id)
  with small id show "sane ex_tree ex_msg ex_sys" unfolding sane_def by fastforce
  have none: "map_of ex_msg (par k @ sfx) = None" if "k = ''deviceId'' \<or> k = ''cuId'' \<or> k = ''optionUdfCuListNum''" for k sfx
  proof (cases "map_of ex_msg (par k @ sfx)")
    case (Some v)
    from bspec [OF ex_msg_keys map_of_SomeD [OF this]] that show ?thesis by (auto simp: par_def)
  qed
  have ids: "map_of ex_msg (par ''deviceIdList.deviceIds'' @ sfx) = None" for sfx
    using none [of "''deviceId''" "''List.deviceIds'' @ sfx"] by (simp add: par_def)
  have num: "map_of ex_msg (par ''deviceIdList.deviceNum'') = None" "map_of ex_msg (par ''optionUdfCuListNum'') = None"
    using none [of "''deviceId''" "''List.deviceNum''"] none [of "''optionUdfCuListNum''" "[]"] by (simp_all add: par_def)
  show "in_bounds ex_tree ex_msg ex_sys" unfolding in_bounds_def ex_gets ids num by (simp add: none)
qed

lemma ex_tame_run: "tame_run ex_host ex_daemon ex_daemon1"
proof -
  let ?ev = "Bytes 0 NoError (write_tree ex_msg) False"
  have "handleCmd ex_host (write_tree ex_msg) (ex_session, ex_sys) =
      (Inr (frame (h_char ex_host) (write_tree (answer_message ex_tree XRM_SUCCESS ex_granted))), ex_session, ex_after)"
    using handle_cuAlloc [of ex_client ex_host ex_cp ex_ctx ex_sys XRM_SUCCESS ex_granted ex_after ex_session]
      ex_tree_ok ex_req_alloc by (simp add: ex_msg_def ex_wanted ex_req_def)
  moreover have "write_tree ex_msg \<noteq> []" by (simp add: ex_msg_pairs)
  ultimately have read: "doRead ex_host NoError (write_tree ex_msg) (ex_session, d_system ex_daemon) =
      (Some (Inr (frame (h_char ex_host) (write_tree (answer_message ex_tree XRM_SUCCESS ex_granted)))), ex_session, ex_after)"
    by (simp add: doRead_def ex_daemon_def)
  have d: "d_running ex_daemon" "d_sessions ex_daemon 0 = Some ex_session" by (simp_all add: ex_daemon_def)
  have w: "doWrite False (ex_session, ex_after) = (True, ex_session, ex_after)" by (simp add: doWrite_def)
  have step: "daemon_step ex_host ?ev ex_daemon ex_daemon1"
    unfolding ex_daemon1_def by (rule daemon_step.request [OF d read w])
  have name: "get_or_empty ex_tree ''request.name'' ex_msg = ''cuAlloc''"
    using message_get(2) [OF ex_tree_ok cuAlloc_plain [of ex_ctx 42 ex_cp], of "''cuAlloc''"]
    by (simp add: get_or_empty_def ex_msg_def cuAlloc_message_params)
  have "tame ex_host ?ev ex_daemon"
    using ex_sane name by (simp add: tame_def met_def ex_daemon_def unaccounted_def)
  from tame_run.step [OF tame_run.start this step] show ?thesis .
qed

definition ex_bad :: tree where
  "ex_bad = [(''request.name'', ''cuAlloc''), (''request.requestId'', ''1'')]"

lemma ex_bad_read:
  "write_tree ex_bad \<noteq> []" "get_or_empty ex_tree ''request.name'' ex_bad = ''cuAlloc''"
  "c_str (get_or_empty ex_tree ''request.requestId'' ex_bad) \<noteq> []"
  "c_str (get_or_empty ex_tree (par ''recordClientId'') ex_bad) = []" "read_request ex_tree ex_bad cuProperty0 = None"
  by (simp_all add: ex_bad_def get_or_empty_def ex_gets c_str_def read_request_def read_cuProperty_def)

definition ex_nothing :: tree where
  "ex_nothing = map (\<lambda>(k, v). (par k, v)) [(''cuListNum'', show_int 0), (''cuNum'', show_int 0), (''sameDevice'', show_int 0),
     (''clientId'', show_word (1 :: u64)), (''clientProcessId'', show_int 42), (''xclbinUuidStr'', []), (''xclbinNum'', show_int 0)]"

lemma ex_nothing_read:
  "\<exists>pool. read_pool ex_tree (par []) False ex_nothing = Parsed pool \<and> pp_cuListNum pool = 0 \<and> pp_xclbinNum pool = 0 \<and>
     lp_cuNum (pp_cuListProp pool) = 0"
proof -
  have n: "read_i32 (show_int 0) = Some 0" "read_i32 (show_int 42) = Some 42" by simp_all
  have m: "map_of ex_nothing (par k) = map_of [(''cuListNum'', show_int 0), (''cuNum'', show_int 0), (''sameDevice'', show_int 0),
     (''clientId'', show_word (1 :: u64)), (''clientProcessId'', show_int 42), (''xclbinUuidStr'', []), (''xclbinNum'', show_int 0)] k" for k
    unfolding ex_nothing_def by (rule message_lookup)
  show ?thesis
    unfolding read_pool_def read_list_def read_members_def ex_gets par_eq m
    by (simp add: n of_option_def read_into.simps and_then.simps)
qed

definition ex_context :: tree where
  "ex_context = [(par ''context'', ''context''), (par ''clientId'', show_word (2 :: u64))]"

section \<open>A pool of one device\<close>

definition ex_poolV2 :: cuPoolPropertyV2 where
  "ex_poolV2 = \<lparr> p3_cuListProp = cuListPropertyV2_0, p3_cuListNum = 0, p3_xclbinUuid = [], p3_xclbinNum = 0,
     p3_deviceIdListProp = \<lparr> dl_deviceIds = replicate XRM_MAX_XILINX_DEVICES 0, dl_deviceNum = 1 \<rparr>,
     p3_clientId = 1, p3_clientProcessId = 42 \<rparr>"

lemma ex_poolV2_ok: "poolV2_ok ex_poolV2 cuPoolResInforV2_0 ex_sys"
  by (simp add: poolV2_ok_def ex_poolV2_def named_device_def i32_def ex_sys_def XRM_MAX_XILINX_DEVICES_def)

lemma ex_poolV2_reserved: "fst (resReserveCuPoolV2 ex_poolV2 (cuPoolResInforV2_0, ex_sys)) = 1"
proof -
  have free: "dv_isLoaded (dev_at ex_sys 0)" "\<not> isDeviceBusy 0 ex_sys"
    by (simp_all add: isDeviceBusy_def ex_cu_inv(3) numeral_2_eq_2)
  have "fst (resReserveDevice 1 0 1 42 ex_sys) = XRM_SUCCESS"
    by (simp add: resReserveDevice_def free i32_def XRM_MAX_XILINX_DEVICES_def)
  then obtain t where "resReserveDevice 1 0 1 42 ex_sys = (XRM_SUCCESS, t)" by (metis prod.collapse)
  then show ?thesis
    by (simp add: resReserveCuPoolV2_def ex_poolV2_def ex_pool_id Let_def cuListPropertyV2_0_def XRM_MAX_XILINX_DEVICES_def)
qed

end
