(* ===== verification/Spec2Isabelle.thy ===== *)
theory Spec2Isabelle
  imports Xrm_Effects Xrm_Alloc_Complete Xrm_Load Xrm_ListsV2_Inv Xrm_Groups Xrm_Query Xrm_Policy_Leak Xrm_Load_Alloc_Inv
    Xrm_Plugins Xrm_Plugin_Example Xrm_Daemon_Inv Xrm_Daemon_Effects Xrm_ClientV2 Xrm_Client_Link Xrm_Main Xrm_Example Xrm_Example_Host
begin

text \<open>
  Verification of the resource manager of the Xilinx FPGA daemon (XRM), whose sources are under src/src.

  The program. The daemon xrmd keeps a table of devices, each loaded with an xclbin, a set of compute units with up to
  some channels each, and gives channels out to clients by load. It can set load aside under pool ids, knows user
  defined groups and plugins, loads and unloads xclbins through the driver library XRT, and answers queries. Its
  clients talk to it in JSON over a socket, most of them through the client library libxrm; the tool xrmadm sends the
  administration requests. One thread serves the sessions, a second one resets devices that went offline; every
  operation on the table runs under one lock.

  How the parts interact. A call of the client library (lib/xrm.cpp) checks its arguments, builds a property tree and
  sends its text. A session of the daemon (daemon/xrm_tcp_session.cpp) reads it, parses it and dispatches it by name
  (daemon/xrm_command_registry.cpp) to a handler (daemon/xrm_command_*.cpp), which reads its parameters, runs an
  operation of \<open>xrm::system\<close> (daemon/xrm_system.cpp) under the lock and fills the answer; the session frames the
  answer with its length and the client reads it back into the structure of its caller. When a connection breaks, the
  session gives back everything its client holds.

  The theories, in the order of the code. Definitions carry the names of the code; \<open>_Inv\<close> theories hold the proofs
  about the theory they are named after.

  \<^item> Xrm_Prelude: machine integers, C strings, scans, removal of a slot, loops that stop at the first success.
  \<^item> Xrm_Data: the structures and limits (xrm_system.hpp, xrm_limits.h, xrm_error.h) as records; the state is the record
    \<open>system\<close>. An array is a list with the length the code gives it, an unsigned integer a word of its width, an
    \<open>int32_t\<close> an \<open>int\<close> with \<open>i32\<close> where the code can wrap, a C string the text up to its null character. \<open>m_fault\<close>
    is set by an access outside an array.
  \<^item> Xrm_Cu, Xrm_Cu_Inv: one compute unit with its channels, clients and reservations, and its accounting invariant
    \<open>cu_inv\<close>: every load on a channel is counted once, in a reservation or in the default pool.
  \<^item> Xrm_Device: device load, clients of a device, the search over the devices (\<open>search_devices\<close>), identifier counters,
    and the invariants \<open>sys_inv\<close> and \<open>load_inv\<close> of the system.
  \<^item> Xrm_Alloc, Xrm_Lists, Xrm_Policy, Xrm_Load_Alloc: allocation of one compute unit, of lists of both versions, by
    policy, and with loading an xclbin. Xrm_Grants gives the abstract view: \<open>grants\<close>, a map from channels to what was
    granted, over which Xrm_Alloc_Inv, Xrm_Lists_Inv, Xrm_ListsV2_Inv, Xrm_Policy_Inv and Xrm_Load_Alloc_Inv state what
    the operations do. Xrm_Alloc_Complete shows that the search misses nothing, Xrm_Policy_Leak that a policy leaks.
  \<^item> Xrm_Release, Xrm_Release_Inv, Xrm_Effects: giving back a channel, a list, everything of a client; round trips.
  \<^item> Xrm_Reserve, Xrm_Reserve_Inv, Xrm_Pool_Inv, Xrm_PoolV2_Inv: reservations and pools of both versions. The abstract
    view of a compute unit is the map \<open>pools\<close> from pool ids to reserved load.
  \<^item> Xrm_Load, Xrm_Layout_Inv, Xrm_Load_Inv: the life cycle of the devices: probing, reading an xclbin and its layout,
    loading, unloading, enabling, disabling, resetting.
  \<^item> Xrm_Tables, Xrm_Groups, Xrm_Plugins, Xrm_Plugin_Example: the slot tables of groups and plugins refine maps (the locales
    \<open>slot_table\<close> and \<open>array_table\<close>); the example plugin (plugin/xrm_plugin_example.cpp).
  \<^item> Xrm_Query: existence, status, capacity and the queries of allocations and reservations.
  \<^item> Xrm_Wire, Xrm_Commands, Xrm_Probes, Xrm_Admin: the messages and the handlers. A handler returns the values it puts
    into the answer in order, or that it throws, or that it never ends (\<open>outcome\<close>). Xrm_Probes_Inv: the handlers that
    count by allocating until the operation fails (the locale \<open>counted\<close>).
  \<^item> Xrm_Daemon, Xrm_Daemon_Inv, Xrm_Daemon_Effects: the registry, sessions and the worker as the labelled step relation
    \<open>daemon_step\<close>; its runs keep the invariant; and what happens at the edges.
  \<^item> Xrm_Init, Xrm_Main: the configuration (xrm_config.cpp), the start, the signal and the worker thread (xrm_main.cpp).
  \<^item> Xrm_Link, Xrm_Client, Xrm_ClientV2, Xrm_Client_Link: the client library over a socket that delivers in pieces, and
    an allocation followed from the caller to the table and back.
  \<^item> Xrm_Example, Xrm_Example_Host: a concrete system, tree, driver and connection, on which the properties are applied.

  The properties are below, in sections: allocation and release of one compute unit, the way from the client to the
  daemon and the runs of the daemon, devices, lists, policies, groups and plugins, reservations,
  queries, clients that leave, identifiers and loops, and the edges of the daemon.

  Loops and bounds. Loops over arrays recurse over the list of indices. The loop over the devices runs until
  \<open>getNextFreeDevForClient\<close> finds none; it is given one round more than there are devices, which is enough because
  each round moves to a later device. The loops of the counting handlers and of the reads from the socket have no bound in the
  code: they are partial functions, and that they return is shown, with at most the number of all channels of the
  system as the count, or refuted for requests that ask for nothing. Where the code adds \<open>int32_t\<close> loads, the requests are assumed small enough
  not to wrap (\<open>prop_ok\<close>): a load that fits a channel is at most 1000000.

  Parameters. What is not in the repository is an argument of the definitions: the driver and xclbin files (\<open>xrt\<close>, with
  the promises \<open>driver_ok\<close>), the dynamic linker (\<open>loader\<close>), the property tree (\<open>ptree_ok\<close>) and its JSON texts, the socket,
  the file system, and the contents of memory that the code reads before it writes it (the members of \<open>host\<close> and
  \<open>client\<close>). Xrm_Example_Host gives an instance of each that satisfies what is assumed.

  Not modelled, and why.
  \<^item> Saving and restoring the state and the serialize members: nothing calls them.
  \<^item> Logging: it prints and changes nothing. The log level is part of the state.
  \<^item> The lock itself: each session step and each round of the worker is one step, as the lock makes it; blocking on it
    has no other effect, except that a handler that never ends stops everybody.
  \<^item> The class declarations in the headers of the daemon, which carry no code; the bindings for Python and Go, the xrmadm
    script, examples, build files and tools.
  \<^item> The theorem on the runs of the daemon leaves out 7 of the 58 kinds of requests, listed in \<open>unaccounted\<close>; their handlers are
    modelled, but the accounting invariant alone does not carry them.
\<close>

section \<open>Allocation and release of one compute unit\<close>

text \<open>
  C1. An allocation with the default policy keeps the accounting invariant of every device and the
  device loads, whatever its result.
\<close>

theorem resAllocCu_keeps_invariants:
  assumes "sys_inv s" "load_inv s" "prop_ok prop" "resAllocCu prop updateId (cuRes, s) = (ret, cuRes', s')"
  shows "sys_inv s' \<and> load_inv s' \<and> m_numDevice s' = m_numDevice s"
  using alloc_result_inv [OF assms(1) resAllocCu_spec [OF assms(1,3,4)]] assms(2) by blast

theorem resAllocCu_keeps_invariants_witness: "sys_inv ex_sys1 \<and> load_inv ex_sys1"
  using resAllocCu_keeps_invariants [OF ex_sys_inv ex_load_inv ex_prop_ok(1) ex_alloc] by blast

text \<open>
  C2. A successful allocation adds exactly one grant: a channel that was free, on a compute unit that
  matches the request, filled with the client, the load and the pool of the request and the next
  service id; the result record names that channel. A failed allocation changes no grant and no
  compute unit.
\<close>

theorem resAllocCu_grants_one_channel:
  assumes "sys_inv s" "prop_ok prop" "resAllocCu prop updateId (cuRes, s) = (ret, cuRes', s')"
  shows "if ret = XRM_SUCCESS
    then \<exists>d c i. cu_matches prop (cu_at s d c) \<and> grants s (d, c, i) = None \<and>
      grants s' = (grants s)((d, c, i) \<mapsto> fill_channel prop (getNextAllocServiceId s) (chan_at s d c i)) \<and>
      revoked cuRes' d c i s'
    else grants s' = grants s \<and> (\<forall>d c. cu_at s' d c = cu_at s d c)"
  by (rule alloc_result_grants [OF assms(1) resAllocCu_spec [OF assms]])

theorem resAllocCu_grants_one_channel_witness:
  "\<exists>d c i. cu_matches ex_prop (cu_at ex_sys d c) \<and> revoked ex_res d c i ex_sys1"
  using resAllocCu_grants_one_channel [OF ex_sys_inv ex_prop_ok(1) ex_alloc] by auto

text \<open>
  C3. The allocation misses nothing. When no device is held exclusively and the client can register on
  every loaded device, a shared request with a name succeeds if and only if some compute unit of the
  system matches it and can take its load; so no fitting compute unit is ever overlooked by the two
  affinity passes over the devices.
\<close>

theorem resAllocCu_succeeds_iff_fits:
  assumes "sys_inv s" "open_to (pr_clientId prop) s" "prop_ok prop" "\<not> pr_devExcl prop" "\<not> no_name prop"
    and "resAllocCu prop updateId (cuRes, s) = (ret, cuRes', s')"
  shows "ret = XRM_SUCCESS \<longleftrightarrow>
    (\<exists>d c. valid_cu s d c \<and> cu_matches prop (cu_at s d c) \<and> can_take prop (cu_at s d c))"
  by (rule resAllocCu_complete [OF assms])

theorem resAllocCu_succeeds_iff_fits_witness:
  "\<exists>d c. valid_cu ex_sys d c \<and> cu_matches ex_prop (cu_at ex_sys d c) \<and> can_take ex_prop (cu_at ex_sys d c)"
  using resAllocCu_succeeds_iff_fits [OF ex_sys_inv ex_open ex_prop_ok(1) _ ex_prop_ok(2) ex_alloc] ex_shared
  by blast

text \<open>
  C4. Releasing with the record an allocation returned undoes it: the release succeeds, the grants are the
  ones before the allocation, and both invariants hold.
\<close>

theorem alloc_release_round_trip:
  assumes "sys_inv s" "load_inv s" "prop_ok prop" "resAllocCu prop updateId (cuRes, s) = (XRM_SUCCESS, cuRes', s1)"
    and "resReleaseCu cuRes' s1 = (ret, s2)"
  shows "ret = XRM_SUCCESS \<and> grants s2 = grants s \<and> sys_inv s2 \<and> load_inv s2"
  using alloc_result_release [OF assms(1) resAllocCu_spec [OF assms(1,3,4)] assms(5)] assms(2) by blast

theorem alloc_release_round_trip_witness:
  "fst (resReleaseCu ex_res ex_sys1) = XRM_SUCCESS \<and> grants (snd (resReleaseCu ex_res ex_sys1)) = grants ex_sys"
  using alloc_release_round_trip [OF ex_sys_inv ex_load_inv ex_prop_ok(1) ex_alloc prod.collapse [symmetric]]
  by blast

text \<open>
  C5. A release removes the grant its record names, and nothing else.
\<close>

theorem release_revokes:
  assumes "sys_inv s" "revoked cuRes d c k s" "resReleaseCu cuRes s = (ret, s')"
  shows "ret = XRM_SUCCESS \<and> grants s' = (grants s)((d, c, k) := None) \<and> sys_inv s'"
  using resReleaseCu_success [OF assms] revoke_step_grants [OF assms(1)] revoke_step_inv(1) [OF assms(1)]
  by blast

theorem release_revokes_witness:
  "\<exists>d c k. grants (snd (resReleaseCu ex_res ex_sys1)) = (grants ex_sys1)((d, c, k) := None)"
  using release_revokes [OF ex_sys1_inv(1) _ prod.collapse [symmetric]] ex_revoked by blast





section \<open>From the client to the daemon\<close>



text \<open>
  C9. The tables of the daemon stay well formed: along every run of accepted connections, requests, broken
  connections and device resets, in any interleaving, the arrays keep their sizes, the counters stay in the bounds of
  the arrays they index, and the accounting invariant holds. The requests are the 51 kinds of the 58 that
  \<open>unaccounted\<close> does not list, with a client id, with numbers that do not overflow and with ids and counts in
  bounds where the code does not check them; the driver delivers xclbins that fit the tables.
\<close>

theorem daemon_run_well_formed:
  assumes "tame_run h d0 d" "driver_ok (h_xrt h)" "sys_inv (d_system d0)" "d_running d"
  shows "sys_inv (d_system d) \<and> length (m_devList (d_system d)) = XRM_MAX_XILINX_DEVICES \<and>
    m_numDevice (d_system d) \<in> {0..int XRM_MAX_XILINX_DEVICES} \<and>
    (\<forall>k c. valid_cu (d_system d) k c \<longrightarrow> k < XRM_MAX_XILINX_DEVICES \<and> c < XRM_MAX_XILINX_KERNELS \<and>
       length (cu_channels (cu_at (d_system d) k c)) = XRM_MAX_KERNEL_CHANNELS \<and>
       length (cu_reserves (cu_at (d_system d) k c)) = XRM_MAX_KERNEL_RESERVES \<and>
       cu_numReserve (cu_at (d_system d) k c) \<in> {0..int XRM_MAX_KERNEL_RESERVES})"
proof -
  have inv: "sys_inv (d_system d)" by (rule tame_run_inv [OF assms])
  moreover have "k < XRM_MAX_XILINX_DEVICES \<and> c < XRM_MAX_XILINX_KERNELS \<and>
       length (cu_channels (cu_at (d_system d) k c)) = XRM_MAX_KERNEL_CHANNELS \<and>
       length (cu_reserves (cu_at (d_system d) k c)) = XRM_MAX_KERNEL_RESERVES \<and>
       cu_numReserve (cu_at (d_system d) k c) \<in> {0..int XRM_MAX_KERNEL_RESERVES}" if "valid_cu (d_system d) k c" for k c
    using valid_cu_inv [OF inv that] inv by (auto simp: cu_inv_def cu_unfold sys_inv_def)
  ultimately show ?thesis by (auto simp: sys_inv_def)
qed

theorem daemon_run_well_formed_witness: "sys_inv (d_system ex_daemon1)"
  using daemon_run_well_formed [OF ex_tame_run] ex_xrt_ok ex_sys_inv by (simp add: ex_daemon_def ex_daemon1_def)



section \<open>Devices\<close>





section \<open>Lists\<close>

text \<open>
  C13. A list is allocated completely or not at all, from one device or from any: on success exactly as
  many grants are added as the list has members and no existing grant changes; on failure the grants
  are the ones before (the members allocated so far have been released). Both invariants are kept.
\<close>

theorem list_allocated_all_or_nothing:
  assumes "sys_inv s" "load_inv s" "list_ok lp" "length (lr_cuResources lr) = XRM_MAX_LIST_CU_NUM"
    and "resAllocCuList lp (lr, s) = (ret, lr', s')"
  shows "sys_inv s' \<and> load_inv s' \<and>
    (if ret = XRM_SUCCESS then adds_grants (nat (lp_cuNum lp)) s s' \<and> lr_cuNum lr' = lp_cuNum lp
     else grants s' = grants s)"
  using resAllocCuList_spec [OF assms(1,3,4,5)] assms(2) by blast

theorem list_allocated_all_or_nothing_witness:
  "adds_grants 1 ex_sys (snd (snd (resAllocCuList (ex_list 1) (ex_lr, ex_sys))))"
  using list_allocated_all_or_nothing [OF ex_sys_inv ex_load_inv ex_list_ok, of 1, OF ex_run3] ex_list_alloc
  by (simp add: ex_list_def)

text \<open>
  C14. Releasing the list an allocation returned succeeds and restores the grants.
\<close>

theorem list_release_round_trip:
  assumes "sys_inv s" "load_inv s" "list_ok lp" "length (lr_cuResources lr) = XRM_MAX_LIST_CU_NUM"
    and "resAllocCuList lp (lr, s) = (XRM_SUCCESS, lr', s1)" "resReleaseCuList lr' s1 = (ret, s2)"
  shows "ret = XRM_SUCCESS \<and> grants s2 = grants s \<and> sys_inv s2 \<and> load_inv s2"
  using resAllocCuList_release [OF assms(1,3,4,5,6)] holding_none [of s "[]" s2]
    holding_parts(1,2) [of s "{}" "[]" s2] assms(2) by blast

theorem list_release_round_trip_witness:
  "\<exists>lr s1. resAllocCuList (ex_list 1) (ex_lr, ex_sys) = (XRM_SUCCESS, lr, s1) \<and>
    grants (snd (resReleaseCuList lr s1)) = grants ex_sys"
proof -
  obtain lr s1 where run: "resAllocCuList (ex_list 1) (ex_lr, ex_sys) = (XRM_SUCCESS, lr, s1)"
    using ex_list_alloc by (metis prod_cases3 fst_conv)
  from list_release_round_trip [OF ex_sys_inv ex_load_inv ex_list_ok run prod.collapse [symmetric]] run
  show ?thesis by blast
qed

text \<open>
  C15. A version 2 list, whose members may be tied to a device or to each other by a virtual device, is
  allocated completely or not at all: on success exactly as many grants are added as the list has
  members and no existing grant changes; a failure leaves the grants as they were.
\<close>

theorem listV2_allocated_all_or_nothing:
  assumes "sys_inv s" "load_inv s" "listV2_ok lp" "length (lr_cuResources lr) = XRM_MAX_LIST_CU_NUM_V2" "lr_cuNum lr = 0"
    and "resAllocCuListV2 lp (lr, s) = (ret, lr', s')"
  shows "sys_inv s' \<and> load_inv s' \<and>
    (if ret = XRM_SUCCESS then adds_grants (nat (l2_cuNum lp)) s s' \<and> lr_cuNum lr' = l2_cuNum lp
     else grants s' = grants s)"
  using resAllocCuListV2_spec [OF assms(1,3,4,5,6)] assms(2) by blast

theorem listV2_allocated_all_or_nothing_witness:
  "adds_grants 1 ex_sys (snd (snd (resAllocCuListV2 ex_listV2 (ex_lr2, ex_sys))))"
proof -
  have "nat (l2_cuNum ex_listV2) = 1" by (simp add: ex_listV2_def)
  moreover obtain lr s where run: "resAllocCuListV2 ex_listV2 (ex_lr2, ex_sys) = (XRM_SUCCESS, lr, s)"
    using ex_listV2_alloc by (metis prod_cases3 fst_conv)
  ultimately show ?thesis
    using listV2_allocated_all_or_nothing [OF ex_sys_inv ex_load_inv ex_listV2_ok run] run by simp
qed

text \<open>
  C16. Releasing the version 2 list an allocation returned succeeds and restores the grants.
\<close>

theorem listV2_release_round_trip:
  assumes "sys_inv s" "load_inv s" "listV2_ok lp" "length (lr_cuResources lr) = XRM_MAX_LIST_CU_NUM_V2" "lr_cuNum lr = 0"
    and "resAllocCuListV2 lp (lr, s) = (XRM_SUCCESS, lr', s1)" "resReleaseCuListV2 lr' s1 = (ret, s2)"
  shows "ret = XRM_SUCCESS \<and> grants s2 = grants s \<and> sys_inv s2 \<and> load_inv s2"
  using resAllocCuListV2_release [OF assms(1,3,4,5,6,7)] holding_none [of s "[]" s2] assms(2) by blast

theorem listV2_release_round_trip_witness:
  "\<exists>lr s1. resAllocCuListV2 ex_listV2 (ex_lr2, ex_sys) = (XRM_SUCCESS, lr, s1) \<and>
    grants (snd (resReleaseCuListV2 lr s1)) = grants ex_sys"
proof -
  obtain lr s1 where run: "resAllocCuListV2 ex_listV2 (ex_lr2, ex_sys) = (XRM_SUCCESS, lr, s1)"
    using ex_listV2_alloc by (metis prod_cases3 fst_conv)
  from listV2_release_round_trip [OF ex_sys_inv ex_load_inv ex_listV2_ok run prod.collapse [symmetric]] run
  show ?thesis by blast
qed

section \<open>Policies\<close>





text \<open>
  C19. A compute unit that the policy on compute units takes only after the search, because it is not the best
  possible one, is lost when the client disconnects: the client, which was on no device before, is no
  longer registered on that device, so recycling it leaves its new grant in place.
\<close>

theorem policy_allocation_leaks:
  assumes "sys_inv s" "absent (pr_clientId p2) s" "prop_ok (cuPropertyCopyFromV2 p2)" "pr_poolId p2 = 0" "\<not> pr_devExcl p2"
    and "never_best (p2_policyInfo p2) (cuPropertyCopyFromV2 p2) s" "\<not> crowded (cuPropertyCopyFromV2 p2) s"
    and "resAllocCuByCuLoad p2 updateId (cuRes, s) = (XRM_SUCCESS, cuRes', s')"
  shows "\<exists>d c i ch. grants s (d, c, i) = None \<and> ch_clientId ch = pr_clientId p2 \<and>
    grants (recycleResource (pr_clientId p2) s') (d, c, i) = Some ch"
proof -
  have kept: "grants (recycleResource (pr_clientId p2) s') = grants s'"
    using resAllocCuByCuLoad_leak [OF assms(1-6,8)] .
  obtain d c i where "grants s (d, c, i) = None"
      "grants s' (d, c, i) = Some (fill_channel (cuPropertyCopyFromV2 p2) (getNextAllocServiceId s) (chan_at s d c i))"
    using alloc_result_grants [OF assms(1) policy_result_alloc [OF resAllocCuByCuLoad_spec [OF assms(1,3,8)] assms(7)]]
    by auto
  with kept show ?thesis by (intro exI conjI) (auto simp: fill_channel_def cuPropertyCopyFromV2_def)
qed

theorem policy_allocation_leaks_witness:
  "\<exists>d c i ch. ch_clientId ch = 1 \<and>
     grants (recycleResource 1 (snd (snd (resAllocCuByCuLoad (ex_policy 1) True (cuResource0, ex_sys))))) (d, c, i) = Some ch"
proof -
  obtain r s1 where run: "resAllocCuByCuLoad (ex_policy 1) True (cuResource0, ex_sys) = (XRM_SUCCESS, r, s1)"
    using ex_most_used by (metis prod_cases3 fst_conv)
  from policy_allocation_leaks [OF ex_sys_inv _ _ _ _ _ _ run] ex_absent ex_prop_ok(1) ex_never_best ex_not_crowded run
  show ?thesis by (auto simp: ex_policy_prop ex_policy_fields)
qed

section \<open>Groups and plugins\<close>

text \<open>
  C20. The table of user defined groups refines a finite map from names to groups: any sequence of
  declarations and undeclarations, within the room of the table, answers and ends as the same sequence
  of insertions and removals on the map, and keeps the invariant of the table.
\<close>

theorem groups_refine_map:
  assumes "group_table_inv s"
    and "admitted (\<lambda>g s. (group_ok g \<and> CHR 0x00 \<notin> set (ug_udfCuGroupName g)) \<and> m_numUdfCuGroup s < XRM_MAX_UDF_CU_GROUP_NUM)
      (table_step resUdfCuGroupDeclare resUdfCuGroupUndeclare) ops s"
    and "run_steps (table_step resUdfCuGroupDeclare resUdfCuGroupUndeclare) ops s = (answers, s')"
  shows "group_table_inv s' \<and>
    run_steps (map_step ug_udfCuGroupName group_view) ops (table_map ug_udfCuGroupName (group_entries s)) =
      (answers, table_map ug_udfCuGroupName (group_entries s'))"
  using groups.steps_refine [unfolded group_entries_eq group_table_inv_eq, OF assms] .

theorem groups_refine_map_witness:
  "fst (run_steps (table_step resUdfCuGroupDeclare resUdfCuGroupUndeclare) [Delete ''transcode'', Delete ''transcode''] ex_sys)
    = [True, False]"
  using groups_refine_map [OF ex_group_table(1) _ prod.collapse [symmetric], of "[Delete ''transcode'', Delete ''transcode'']"]
  by (simp add: ex_group_table(2) group_view_def ex_group_def)



text \<open>
  C22. No version 2 group is ever allocated: its members are identified by the name of the compute unit
  alone, which the version 2 list allocation drops, so that every member is refused. The call fails for every
  group, and changes no grant.
\<close>

theorem groupV2_never_allocated:
  assumes "sys_inv s" "groupsV2_sized s" "groupsV2_loads_ok s" "g2_clientId gp \<noteq> 0"
    and "resAllocCuGroupV2 gp (lr, s) = (ret, lr', s')"
  shows "ret \<noteq> XRM_SUCCESS \<and> grants s' = grants s"
  using resAllocCuGroupV2_spec [OF assms] by (simp add: listsV2.untaken_def)

theorem groupV2_never_allocated_witness:
  "fst (resAllocCuGroupV2 ex_gp2 (ex_lr2, ex_sys)) \<noteq> XRM_SUCCESS"
  using groupV2_never_allocated [OF ex_sys_inv ex_groupsV2, of ex_gp2 ex_lr2]
  by (cases "resAllocCuGroupV2 ex_gp2 (ex_lr2, ex_sys)") (auto simp: ex_gp2_def)

text \<open>
  C23. The plugin table refines a finite map from names to plugins: whatever the loader provides, any
  sequence of loads and unloads of single plugins, within the limit, answers and ends as the same
  sequence of insertions and removals on the map.
\<close>

theorem plugins_refine_map:
  assumes "plugins_inv s"
    and "admitted (\<lambda>p s. provides dl p \<and> m_numXrmPlugin s < XRM_MAX_PLUGIN_NUM)
      (table_step (\<lambda>p. loadOneXrmPlugin dl (pl_xrmPluginFileName p) (pl_xrmPluginName p)) unloadOneXrmPlugin) ops s"
    and "run_steps (table_step (\<lambda>p. loadOneXrmPlugin dl (pl_xrmPluginFileName p) (pl_xrmPluginName p)) unloadOneXrmPlugin) ops s =
      (answers, s')"
  shows "plugins_inv s' \<and>
    run_steps (map_step pl_xrmPluginName (\<lambda>p. p)) ops (table_map pl_xrmPluginName (plugins s)) =
      (answers, table_map pl_xrmPluginName (plugins s'))"
  using plugin_table.steps_refine [unfolded plugins_eq plugins_inv_eq, OF assms] .

theorem plugins_refine_map_witness:
  "fst (run_steps (table_step (\<lambda>p. loadOneXrmPlugin ex_dl (pl_xrmPluginFileName p) (pl_xrmPluginName p)) unloadOneXrmPlugin)
     [Insert ex_plugin, Delete ''echo'', Delete ''echo''] ex_sys) = [True, True, False]"
  using plugins_refine_map [OF ex_plugins(1) _ prod.collapse [symmetric], of ex_dl "[Insert ex_plugin, Delete ''echo'', Delete ''echo'']"]
    ex_provides by (simp add: ex_plugins(2)) (simp add: ex_plugin_def)



section \<open>Reservations\<close>

text \<open>
  C25. A pool is reserved completely or not at all. A result 0 leaves every compute unit, client table
  and counter as it was. Otherwise the result is the next pool id, every compute unit either is
  unchanged or has exactly one new reservation, of that pool and unused, and for lists over any
  device the load reserved is exactly the load requested.
\<close>

theorem pool_reserved_all_or_nothing:
  assumes "sys_inv s" "fresh_pool (getNextReservePoolId s) s" "resReserveCuPool pp s = (r, s')"
  shows "if r = 0 then restored s s'
    else r = getNextReservePoolId s \<and> (\<exists>t. s' = updateReservePoolId t \<and> pooled_sys r s t \<and>
      (pp_xclbinNum pp = 0 \<longrightarrow> \<not> lp_sameDevice (pp_cuListProp pp) \<longrightarrow>
       used_total t = used_total s + pp_cuListNum pp * list_load (pp_cuListProp pp)))"
  using resReserveCuPool_spec [OF assms] by simp

theorem pool_reserved_all_or_nothing_witness:
  "\<exists>t. snd (resReserveCuPool ex_pool ex_sys) = updateReservePoolId t \<and> pooled_sys 1 ex_sys t"
  using pool_reserved_all_or_nothing [OF ex_sys_inv _ prod.collapse [symmetric], of ex_pool]
    ex_fresh ex_reserve_pool ex_pool_id by auto

text \<open>
  C26. A version 2 pool, with the devices it names, whole xclbins and lists with constraints on the devices, is reserved
  completely or not at all. A result 0 leaves every compute unit, client table and counter as it was. Otherwise the
  result is the next pool id, and every compute unit either is unchanged or has exactly one new reservation, of that
  pool and unused. The devices the request names exist, and the result has room for the lists.
\<close>

theorem poolV2_reserved_all_or_nothing:
  assumes "sys_inv s" "fresh_pool (getNextReservePoolId s) s" "poolV2_ok pp infor s"
    and "resReserveCuPoolV2 pp (infor, s) = (r, infor', s')"
  shows "if r = 0 then restored s s'
    else r = getNextReservePoolId s \<and> (\<exists>t. s' = updateReservePoolId t \<and> pooled_sys r s t)"
  using resReserveCuPoolV2_spec [OF assms] by simp

theorem poolV2_reserved_all_or_nothing_witness:
  "\<exists>t. snd (snd (resReserveCuPoolV2 ex_poolV2 (cuPoolResInforV2_0, ex_sys))) = updateReservePoolId t \<and>
    pooled_sys 1 ex_sys t"
  using poolV2_reserved_all_or_nothing [OF ex_sys_inv _ ex_poolV2_ok] ex_fresh ex_poolV2_reserved ex_pool_id
  by (metis prod.collapse zero_neq_one)

text \<open>
  C27. Relinquishing a pool that was just reserved succeeds and gives every compute unit back exactly as
  it was before the reservation.
\<close>

theorem reserve_relinquish_round_trip:
  assumes "sys_inv s" "fresh_pool (getNextReservePoolId s) s" "resReserveCuPool pp s = (r, s1)" "r \<noteq> 0"
    and "resRelinquishCuPool r s1 = (ret, s2)"
  shows "ret = XRM_SUCCESS \<and> sys_inv s2 \<and> grants s2 = grants s \<and>
    (\<forall>d c. valid_cu s d c \<longrightarrow> cu_at s2 d c = cu_at s d c)"
  using reserve_relinquish [OF assms] restored_update_id by blast

theorem reserve_relinquish_round_trip_witness:
  "fst (resRelinquishCuPool 1 (snd (resReserveCuPool ex_pool ex_sys))) = XRM_SUCCESS"
  using reserve_relinquish_round_trip [OF ex_sys_inv _ prod.collapse [symmetric] _ prod.collapse [symmetric], of ex_pool]
    ex_fresh ex_reserve_pool ex_pool_id by simp





section \<open>Queries\<close>

text \<open>
  C30. The query of an allocation finds exactly the grants with the given service id on the compute units
  with the given kernel name and alias: it succeeds if and only if they fit the result, and then every
  grant has one record in the result, with which it can be released.
\<close>

theorem allocation_query_finds_the_grants:
  assumes "sys_inv s" "aq_allocServiceId q \<noteq> 0" "resAllocationQuery q lr s = (ret, lr')"
    and "G = service_grants (aq_allocServiceId q) (aq_kernelName q) (aq_kernelAlias q) s"
  shows "(ret = XRM_SUCCESS \<longleftrightarrow> card G \<le> XRM_MAX_LIST_CU_NUM) \<and>
    (ret = XRM_SUCCESS \<longrightarrow> lr_cuNum lr' = int (card G) \<and>
      (\<exists>hs. set hs = G \<and> length hs = card G \<and>
        (\<forall>j<length hs. case hs ! j of (d, c, i) \<Rightarrow> revoked (lr_cuResources lr' ! j) d c i s)))"
  using resAllocationQuery_spec [OF assms(1,2,4,3)] by blast

theorem allocation_query_finds_the_grants_witness:
  "fst (resAllocationQuery ex_query ex_lr ex_sys1) = XRM_SUCCESS \<and>
   lr_cuNum (snd (resAllocationQuery ex_query ex_lr ex_sys1)) = 1"
proof -
  obtain d c i where G: "{(d, c, i)} = service_grants (aq_allocServiceId ex_query) (aq_kernelName ex_query) (aq_kernelAlias ex_query) ex_sys1"
    using ex_service_grants by (auto simp: ex_query_def)
  show ?thesis
    using allocation_query_finds_the_grants [OF ex_sys1_inv(1) _ prod.collapse [symmetric] G, of ex_lr]
    by (simp add: ex_query_def XRM_MAX_LIST_CU_NUM_def)
qed



text \<open>
  C32. The existence check of a list over any device looks at the first member only: the flag of a found
  compute unit is kept for the members that follow, so that a list is reported to exist whenever
  its first compute unit does.
\<close>

theorem list_existence_checks_first_member:
  assumes "\<not> lp_sameDevice lp" "length (lp_cuProps lp) = XRM_MAX_LIST_CU_NUM"
  shows "resIsCuListExisting lp s \<longleftrightarrow> 0 < lp_cuNum lp \<and> lp_cuNum lp \<le> int XRM_MAX_LIST_CU_NUM \<and>
    cu_on_any_device (lp_cuProps lp ! 0) s"
  by (rule resIsCuListExisting_first [OF assms])

theorem list_existence_checks_first_member_witness:
  "resIsCuListExisting \<lparr> lp_cuProps = ex_prop # (cuProperty0\<lparr>pr_kernelName := ''none''\<rparr>) # replicate 14 cuProperty0,
     lp_cuNum = 2, lp_sameDevice = False \<rparr> ex_sys"
  using list_existence_checks_first_member [of "\<lparr> lp_cuProps = ex_prop # (cuProperty0\<lparr>pr_kernelName := ''none''\<rparr>) # replicate 14 cuProperty0,
     lp_cuNum = 2, lp_sameDevice = False \<rparr>" ex_sys] resIsCuExisting_matches [OF ex_sys_inv ex_fits(1,2) ex_prop_ok(2)] ex_prop_ok(2)
  by (simp add: XRM_MAX_LIST_CU_NUM_def resIsCuExisting_def)

section \<open>Clients that leave\<close>



section \<open>Identifiers, loops and arrays\<close>

text \<open>
  C34. The service ids handed out are never 0 and the first \<open>2^64 - 1\<close> of them are pairwise different.
\<close>

theorem service_ids_unique:
  "inj_on (\<lambda>n. m_allocServiceId ((updateAllocServiceId ^^ Suc n) s)) {..<2 ^ 64 - 1} \<and>
   getNextAllocServiceId s \<noteq> 0"
  using alloc_service.bumps_inj [of _ s] alloc_service.peek_nonzero [of s]
  by (simp add: inj_on_def del: funpow.simps)



text \<open>
  C36. The shifting loop that closes a reservation is the removal of that entry from the list of active
  reservations.
\<close>

theorem drop_reserve_removes_entry:
  assumes "reserves_inv cu" "i < nat (cu_numReserve cu)"
  shows "act_reserves (drop_reserve i cu) = take i (act_reserves cu) @ drop (Suc i) (act_reserves cu)"
  by (rule act_reserves_drop [OF assms])

theorem drop_reserve_removes_entry_witness:
  "act_reserves (drop_reserve 0 (whole_reserve 1 1 42 (ex_cu ''enc'' 0))) = []"
  using drop_reserve_removes_entry [OF ex_whole(1), of 0 "''enc''" 0] ex_whole(2,3) by simp



section \<open>At the edges of the daemon\<close>

text \<open>
  C38. A request for a compute unit that lacks a parameter, or in which a number cannot be read, ends the daemon and
  with it the sessions of all clients: nothing catches the exception of the property tree.
\<close>

theorem unreadable_request_ends_daemon:
  assumes "d_running d" "d_sessions d c = Some se"
    and "indata \<noteq> []" "h_read_json h (c_str indata) = Inr m"
    and "get_or_empty (h_tree h) ''request.name'' m = ''cuAlloc''"
      "c_str (get_or_empty (h_tree h) ''request.requestId'' m) \<noteq> []"
      "c_str (get_or_empty (h_tree h) (par ''recordClientId'') m) = []"
    and "read_request (h_tree h) m (h_cuProp h) = None"
  shows "daemon_step h (Bytes c NoError indata w) d (d\<lparr>d_sessions := (d_sessions d)(c := None), d_running := False\<rparr>)"
  by (rule unreadable_request_escapes [OF assms])

theorem unreadable_request_ends_daemon_witness:
  "daemon_step ex_host (Bytes 0 NoError (write_tree ex_bad) False) ex_daemon
     (ex_daemon\<lparr>d_sessions := (d_sessions ex_daemon)(0 := None), d_running := False\<rparr>)"
  by (rule unreadable_request_ends_daemon [where se = ex_session and m = ex_bad])
    (use ex_bad_read in \<open>simp_all only: ex_host_fields c_str_write\<close>, simp_all add: ex_daemon_def)

text \<open>
  C39. The count of the pools that are available never returns for a request of no lists and no xclbin: reserving
  nothing always succeeds.
\<close>

theorem empty_pool_count_hangs:
  assumes "read_pool (h_tree h) (par []) False m = Parsed pool" "pp_cuListNum pool = 0" "pp_xclbinNum pool = 0"
    and "0 \<le> lp_cuNum (pp_cuListProp pool)" "lp_cuNum (pp_cuListProp pool) \<le> int XRM_MAX_LIST_CU_NUM"
  shows "checkCuPoolAvailableNumCommand h m s = (Hangs, s)"
  using empty_pool_count [OF assms(1)] assms(2-5) unfolding empty_pool_def by blast

theorem empty_pool_count_hangs_witness:
  "checkCuPoolAvailableNumCommand ex_host ex_nothing ex_sys = (Hangs, ex_sys)"
proof -
  obtain pool where "read_pool ex_tree (par []) False ex_nothing = Parsed pool" "pp_cuListNum pool = 0" "pp_xclbinNum pool = 0"
    "lp_cuNum (pp_cuListProp pool) = 0" using ex_nothing_read by blast
  with empty_pool_count_hangs [of ex_host ex_nothing pool ex_sys] show ?thesis by simp
qed

text \<open>
  C40. A context is counted once when it is created and counted out twice, when it is destroyed and when its
  connection is lost: the number of concurrent clients ends one below where it began, so that the limit on it does
  not limit.
\<close>

theorem context_counted_out_twice:
  assumes "m_numConcurrentClient s < m_limitConcurrentClient s"
    and "get_str (h_tree h) (par ''context'') m = Some x" "get_str (h_tree h) (par ''context'') m' = Some y"
    and "get_u64 (h_tree h) (par ''clientId'') m' = Some (fst (getNewClientId s))"
    and "createContextCommand h m s = (Reply create, s1)" "destroyContextCommand h m' s1 = (Reply destroy, s2)"
    and "se_clientId se = fst (getNewClientId s)"
  shows "m_numConcurrentClient s1 = m_numConcurrentClient s + 1 \<and>
    m_numConcurrentClient (connection_lost se s2) =
      (if m_numConcurrentClient s = 0 then 0 else m_numConcurrentClient s - 1)"
  using context_counted_twice [OF assms] by blast

theorem context_counted_out_twice_witness:
  "\<exists>r1 r2 s1 s2. createContextCommand ex_host ex_context ex_sys = (Reply r1, s1) \<and>
     destroyContextCommand ex_host ex_context s1 = (Reply r2, s2) \<and>
     m_numConcurrentClient ex_sys = 1 \<and> m_numConcurrentClient (connection_lost \<lparr> se_clientId = 2, se_clientProcessId = 42 \<rparr> s2) = 0"
proof -
  have get: "get_str ex_tree (par ''context'') ex_context = Some ''context''"
    "get_u64 ex_tree (par ''clientId'') ex_context = Some 2"
    by (simp_all add: ex_gets ex_context_def)
  have s: "m_numConcurrentClient ex_sys = 1" "m_limitConcurrentClient ex_sys = 100" "fst (getNewClientId ex_sys) = 2"
    by (simp_all add: ex_sys_def getNewClientId_def Let_def)
  obtain r1 s1 where 1: "createContextCommand ex_host ex_context ex_sys = (Reply r1, s1)"
    unfolding createContextCommand_def serve_def ex_host_fields get of_option_def option.case parsed.case
    by (simp add: split_beta)
  obtain r2 s2 where 2: "destroyContextCommand ex_host ex_context s1 = (Reply r2, s2)"
    unfolding destroyContextCommand_def serve_def ex_host_fields get of_option_def Option.bind.simps option.case parsed.case
    by simp
  have "m_numConcurrentClient (connection_lost \<lparr> se_clientId = 2, se_clientProcessId = 42 \<rparr> s2) = 0"
    using context_counted_out_twice [OF _ _ _ _ 1 2, of "''context''" "''context''" "\<lparr> se_clientId = 2, se_clientProcessId = 42 \<rparr>"]
    by (simp add: get s)
  with 1 2 s(1) show ?thesis by blast
qed

end
